(* ===== verification/Prelude.thy ===== *)
theory Prelude
  imports Main "HOL-Library.List_Lexorder"
begin

text \<open>
  What every component shares: Python strings as lists of Unicode code points,
  results as a sum with the raised exception on the left, the sequence of guards of a
  \<^verbatim>\<open>__post_init__\<close> or handler as a list in source order, and tables of rows (association
  lists of a primary key) with the three SQL statements the repositories use on them.
  The collections \<open>py_simps\<close> and \<open>guard_simps\<close> hold the rewrite rules the component proofs
  pass to the simplifier.
\<close>

named_theorems py_simps "evaluation rules for the Python helpers"
named_theorems guard_simps "rules that turn a list of guards into its conjunction"

section \<open>Strings\<close>

type_synonym pystr = "nat list"

definition lit :: "string \<Rightarrow> pystr" where
  "lit s = map of_char s"

text \<open>The code points for which \<^verbatim>\<open>str.isspace\<close> holds, which \<^verbatim>\<open>strip\<close> and \<^verbatim>\<open>split\<close> use.\<close>

definition py_space :: "nat \<Rightarrow> bool" where
  "py_space c \<longleftrightarrow> (9 \<le> c \<and> c \<le> 13) \<or> (28 \<le> c \<and> c \<le> 32) \<or> c = 0x85 \<or> c = 0xA0 \<or> c = 0x1680
     \<or> (0x2000 \<le> c \<and> c \<le> 0x200A) \<or> c = 0x2028 \<or> c = 0x2029 \<or> c = 0x202F \<or> c = 0x205F \<or> c = 0x3000"

definition py_strip :: "pystr \<Rightarrow> pystr" where
  "py_strip s = rev (dropWhile py_space (rev (dropWhile py_space s)))"

text \<open>\<^verbatim>\<open>not value.strip()\<close>: the text has no visible character.\<close>

definition blank :: "pystr \<Rightarrow> bool" where
  "blank s \<longleftrightarrow> list_all py_space s"

function py_split :: "pystr \<Rightarrow> pystr list" where
  "py_split [] = []"
| "py_split (c # s) =
     (if py_space c then py_split s
      else (c # takeWhile (\<lambda>d. \<not> py_space d) s) # py_split (dropWhile (\<lambda>d. \<not> py_space d) s))"
  by pat_completeness auto
termination
  by (relation "measure length") (auto simp: less_Suc_eq_le length_dropWhile_le)

fun py_join :: "pystr \<Rightarrow> pystr list \<Rightarrow> pystr" where
  "py_join sep [] = []"
| "py_join sep [x] = x"
| "py_join sep (x # y # zs) = x @ sep @ py_join sep (y # zs)"

definition starts_with :: "pystr \<Rightarrow> pystr \<Rightarrow> bool" where
  "starts_with s p \<longleftrightarrow> take (length p) s = p"

text \<open>\<^verbatim>\<open>needle in haystack\<close> on strings.\<close>

fun py_contains :: "pystr \<Rightarrow> pystr \<Rightarrow> bool" where
  "py_contains n [] = (n = [])"
| "py_contains n (c # s) = (take (length n) (c # s) = n \<or> py_contains n s)"

text \<open>Decimal text of an integer, and the fixed-width form \<^verbatim>\<open>f"{n:0wd}"\<close> of a natural number.\<close>

fun dec_digits :: "nat \<Rightarrow> pystr" where
  "dec_digits n = (if n < 10 then [48 + n] else dec_digits (n div 10) @ [48 + n mod 10])"

declare dec_digits.simps [simp del]

definition dec :: "int \<Rightarrow> pystr" where
  "dec n = (if n < 0 then 45 # dec_digits (nat (- n)) else dec_digits (nat n))"

fun padded :: "nat \<Rightarrow> nat \<Rightarrow> pystr" where
  "padded 0 n = []"
| "padded (Suc w) n = padded w (n div 10) @ [48 + n mod 10]"

section \<open>Results and guards\<close>

text \<open>
  \<open>raised [(c\<^sub>1, e\<^sub>1), \<dots>]\<close> is the exception of the first guard whose condition holds; a
  constructor or handler with that prefix returns \<open>guarded gs x\<close>.
\<close>

fun raised :: "(bool \<times> 'e) list \<Rightarrow> 'e option" where
  "raised [] = None"
| "raised ((c, e) # gs) = (if c then Some e else raised gs)"

definition guarded :: "(bool \<times> 'e) list \<Rightarrow> 'a \<Rightarrow> 'e + 'a" where
  "guarded gs x = (case raised gs of Some e \<Rightarrow> Inl e | None \<Rightarrow> Inr x)"

definition and_then :: "'e + 'a \<Rightarrow> ('a \<Rightarrow> 'e + 'b) \<Rightarrow> 'e + 'b" where
  "and_then m f = (case m of Inl e \<Rightarrow> Inl e | Inr x \<Rightarrow> f x)"

fun is_ok :: "'e + 'a \<Rightarrow> bool" where
  "is_ok (Inl e) = False"
| "is_ok (Inr x) = True"

fun map_res :: "('a \<Rightarrow> 'e + 'b) \<Rightarrow> 'a list \<Rightarrow> 'e + 'b list" where
  "map_res f [] = Inr []"
| "map_res f (x # xs) =
     (case f x of Inl e \<Rightarrow> Inl e
      | Inr y \<Rightarrow> (case map_res f xs of Inl e \<Rightarrow> Inl e | Inr ys \<Rightarrow> Inr (y # ys)))"

section \<open>Tables\<close>

text \<open>
  A table is the list of its rows, in insertion order; \<open>key\<close> reads a row's primary key.
  \<open>find_row\<close> is \<^verbatim>\<open>SELECT \<dots> WHERE id=?\<close>, \<open>update_where\<close> is \<^verbatim>\<open>UPDATE \<dots> WHERE\<close> and
  \<open>count_where\<close> the row count it reports.
\<close>

definition find_row :: "('r \<Rightarrow> 'k) \<Rightarrow> 'k \<Rightarrow> 'r list \<Rightarrow> 'r option" where
  "find_row key k rows = find (\<lambda>r. key r = k) rows"

definition update_where :: "('r \<Rightarrow> bool) \<Rightarrow> ('r \<Rightarrow> 'r) \<Rightarrow> 'r list \<Rightarrow> 'r list" where
  "update_where p f rows = map (\<lambda>r. if p r then f r else r) rows"

definition count_where :: "('r \<Rightarrow> bool) \<Rightarrow> 'r list \<Rightarrow> nat" where
  "count_where p rows = length (filter p rows)"

definition unique_key :: "('r \<Rightarrow> 'k) \<Rightarrow> 'r list \<Rightarrow> bool" where
  "unique_key key rows \<longleftrightarrow> distinct (map key rows)"

text \<open>\<^verbatim>\<open>ORDER BY key LIMIT 1\<close>: the first row with the least sort key.\<close>

fun least_by :: "('r \<Rightarrow> 'o::linorder) \<Rightarrow> 'r list \<Rightarrow> 'r option" where
  "least_by f [] = None"
| "least_by f (r # rs) =
     (case least_by f rs of None \<Rightarrow> Some r | Some s \<Rightarrow> if f r \<le> f s then Some r else Some s)"

section \<open>Lemmas on strings\<close>

lemma all_dropWhile_iff: "(\<forall>x \<in> set (dropWhile P s). P x) \<longleftrightarrow> (\<forall>x \<in> set s. P x)"
  by (induction s) auto

lemma blank_iff_strip [simp]: "py_strip s = [] \<longleftrightarrow> blank s"
  by (simp add: py_strip_def blank_def list_all_iff dropWhile_eq_Nil_conv all_dropWhile_iff)

lemma lit_simps [py_simps]:
  "lit [] = []" "lit (c # s) = of_char c # lit s"
  by (simp_all add: lit_def)

lemma length_padded [simp]: "length (padded w n) = w"
  by (induction w arbitrary: n) simp_all

lemma padded_inj: "a < 10 ^ w \<Longrightarrow> b < 10 ^ w \<Longrightarrow> padded w a = padded w b \<Longrightarrow> a = b"
proof (induction w arbitrary: a b)
  case 0
  then show ?case by simp
next
  case (Suc w)
  then have d: "padded w (a div 10) = padded w (b div 10)" and m: "a mod 10 = b mod 10"
    by auto
  from Suc.prems have "a div 10 < 10 ^ w" "b div 10 < 10 ^ w"
    by auto
  with d have "a div 10 = b div 10" by (rule Suc.IH[rotated 2])
  with m show ?case by (metis div_mult_mod_eq)
qed

text \<open>
  Comparison of fixed-width fields: when the heads have the same length, the head decides
  unless the heads are equal.
\<close>

lemma append_less_iff:
  fixes a b c d :: "'a::linorder list"
  assumes "length a = length b"
  shows "a @ c < b @ d \<longleftrightarrow> a < b \<or> (a = b \<and> c < d)"
  using assms
proof (induction a b rule: list_induct2)
  case Nil
  then show ?case by simp
next
  case (Cons x xs y ys)
  then show ?case by auto
qed

lemma digit_less_iff:
  fixes q r q' r' :: nat
  assumes "r < 10" "r' < 10"
  shows "10 * q + r < 10 * q' + r' \<longleftrightarrow> q < q' \<or> (q = q' \<and> r < r')"
  using assms by (cases q q' rule: linorder_cases) auto

lemma padded_less_iff:
  "a < 10 ^ w \<Longrightarrow> b < 10 ^ w \<Longrightarrow> padded w a < padded w b \<longleftrightarrow> a < b"
proof (induction w arbitrary: a b)
  case 0
  then show ?case by simp
next
  case (Suc w)
  then have lt: "a div 10 < 10 ^ w" "b div 10 < 10 ^ w"
    by auto
  have eq: "padded w (a div 10) = padded w (b div 10) \<longleftrightarrow> a div 10 = b div 10"
    using padded_inj[OF lt] by auto
  have "padded (Suc w) a < padded (Suc w) b \<longleftrightarrow>
      a div 10 < b div 10 \<or> (a div 10 = b div 10 \<and> a mod 10 < b mod 10)"
    by (simp add: append_less_iff Suc.IH[OF lt] eq)
  also have "\<dots> \<longleftrightarrow> a < b"
    using digit_less_iff[of "a mod 10" "b mod 10" "a div 10" "b div 10"] by simp
  finally show ?case .
qed

section \<open>Lemmas on guards\<close>

lemma raised_None [guard_simps]: "raised gs = None \<longleftrightarrow> (\<forall>g \<in> set gs. \<not> fst g)"
  by (induction gs rule: raised.induct) auto

lemma guarded_Inr [guard_simps]: "guarded gs x = Inr y \<longleftrightarrow> raised gs = None \<and> x = y"
  by (auto simp: guarded_def split: option.splits)

lemma guarded_Inl [guard_simps]: "guarded gs x = Inl e \<longleftrightarrow> raised gs = Some e"
  by (auto simp: guarded_def split: option.splits)

lemma is_ok_guarded [guard_simps]: "is_ok (guarded gs x) \<longleftrightarrow> list_all (\<lambda>g. \<not> fst g) gs"
  by (induction gs rule: raised.induct) (auto simp: guarded_def)

lemma guarded_self: "is_ok (guarded gs x) \<longleftrightarrow> guarded gs x = Inr x"
  by (auto simp: guarded_def split: option.splits)

lemma guarded_InrD: "guarded gs x = Inr y \<Longrightarrow> y = x \<and> list_all (\<lambda>g. \<not> fst g) gs"
  by (simp add: guarded_Inr raised_None list_all_iff)

lemma and_then_Inr [guard_simps]: "and_then m f = Inr y \<longleftrightarrow> (\<exists>x. m = Inr x \<and> f x = Inr y)"
  by (auto simp: and_then_def split: sum.splits)

lemma and_then_simps [simp]:
  "and_then (Inl e) f = Inl e" "and_then (Inr x) f = f x"
  by (simp_all add: and_then_def)

lemma and_then_cong [fundef_cong]:
  "m = m' \<Longrightarrow> (\<And>x. m' = Inr x \<Longrightarrow> f x = g x) \<Longrightarrow> and_then m f = and_then m' g"
  by (cases m') simp_all

lemma map_res_map: "map_res f (map g xs) = map_res (\<lambda>x. f (g x)) xs"
  by (induction xs) (auto split: sum.splits)

lemma map_res_id: "(\<And>x. x \<in> set xs \<Longrightarrow> f x = Inr x) \<Longrightarrow> map_res f xs = Inr xs"
  by (induction xs) simp_all

lemma map_res_Inr_length: "map_res f xs = Inr ys \<Longrightarrow> length ys = length xs"
  by (induction xs arbitrary: ys) (auto split: sum.splits)

lemma map_res_all_Inr: "(\<And>x. x \<in> set xs \<Longrightarrow> f x = Inr (g x)) \<Longrightarrow> map_res f xs = Inr (map g xs)"
  by (induction xs) simp_all

section \<open>Lemmas on tables\<close>

lemma find_row_Some_iff:
  "unique_key key rows \<Longrightarrow> find_row key k rows = Some r \<longleftrightarrow> r \<in> set rows \<and> key r = k"
  unfolding find_row_def unique_key_def
  by (induction rows) (auto simp: image_iff)

lemma find_row_SomeD: "find_row key k rows = Some r \<Longrightarrow> r \<in> set rows \<and> key r = k"
  unfolding find_row_def by (auto simp: find_Some_iff)

lemma find_row_None_iff: "find_row key k rows = None \<longleftrightarrow> k \<notin> key ` set rows"
  unfolding find_row_def by (auto simp: find_None_iff)

lemma find_row_append:
  "find_row key k (xs @ ys) = (case find_row key k xs of None \<Rightarrow> find_row key k ys | Some r \<Rightarrow> Some r)"
  unfolding find_row_def by (induction xs) auto

lemma find_row_update_where:
  assumes "\<And>r. key (f r) = key r"
  shows "find_row key k (update_where p f rows)
       = map_option (\<lambda>r. if p r then f r else r) (find_row key k rows)"
  using assms unfolding find_row_def update_where_def by (induction rows) auto

lemma map_key_update_where [simp]:
  "(\<And>r. key (f r) = key r) \<Longrightarrow> map key (update_where p f rows) = map key rows"
  by (simp add: update_where_def)

lemma unique_key_update_where [simp]:
  "(\<And>r. key (f r) = key r) \<Longrightarrow> unique_key key (update_where p f rows) = unique_key key rows"
  by (simp add: unique_key_def)

lemma length_update_where [simp]: "length (update_where p f rows) = length rows"
  by (simp add: update_where_def)

lemma set_update_where: "set (update_where p f rows) = (\<lambda>r. if p r then f r else r) ` set rows"
  by (simp add: update_where_def)

lemma count_where_pos: "0 < count_where p rows \<longleftrightarrow> (\<exists>r \<in> set rows. p r)"
  by (auto simp: count_where_def filter_empty_conv)

lemma count_where_zero: "count_where p rows = 0 \<longleftrightarrow> (\<forall>r \<in> set rows. \<not> p r)"
  by (auto simp: count_where_def filter_empty_conv)

text \<open>A condition that fixes the primary key matches one row at most.\<close>

lemma count_where_key:
  assumes "unique_key key rows" and "\<And>r. p r \<Longrightarrow> key r = k"
  shows "count_where p rows = (case find_row key k rows of None \<Rightarrow> 0 | Some r \<Rightarrow> if p r then 1 else 0)"
  using assms unfolding unique_key_def find_row_def count_where_def
proof (induction rows)
  case Nil
  then show ?case by simp
next
  case (Cons r rows)
  show ?case
  proof (cases "key r = k")
    case True
    with Cons.prems have "\<forall>s \<in> set rows. \<not> p s"
      by (force simp: image_iff)
    then have "filter p rows = []" by (simp add: filter_empty_conv)
    with True show ?thesis by simp
  next
    case False
    with Cons show ?thesis by auto
  qed
qed

lemma update_where_cong:
  "(\<And>r. r \<in> set rows \<Longrightarrow> p r = q r) \<Longrightarrow> update_where p f rows = update_where q f rows"
  by (simp add: update_where_def)

lemma list_all_update_where:
  "list_all P rows \<Longrightarrow> (\<And>r. P r \<Longrightarrow> p r \<Longrightarrow> P (f r)) \<Longrightarrow> list_all P (update_where p f rows)"
  by (auto simp: update_where_def list_all_iff)

lemma find_key:
  assumes "unique_key key rows" and "\<And>r. p r \<Longrightarrow> key r = k"
  shows "find p rows = (case find_row key k rows of None \<Rightarrow> None | Some r \<Rightarrow> if p r then Some r else None)"
  using assms unfolding unique_key_def find_row_def
proof (induction rows)
  case Nil
  then show ?case by simp
next
  case (Cons r rows)
  show ?case
  proof (cases "key r = k")
    case True
    with Cons.prems have "\<forall>s \<in> set rows. \<not> p s" by (force simp: image_iff)
    then have "find p rows = None" by (simp add: find_None_iff)
    with True show ?thesis by simp
  next
    case False
    with Cons show ?thesis by auto
  qed
qed

lemma least_by_None [simp]: "least_by f rs = None \<longleftrightarrow> rs = []"
  by (induction rs) (auto split: option.splits)

lemma least_by_Some: "least_by f rs = Some r \<Longrightarrow> r \<in> set rs \<and> (\<forall>s \<in> set rs. f r \<le> f s)"
proof (induction rs arbitrary: r)
  case Nil
  then show ?case by simp
next
  case (Cons x rs)
  show ?case
  proof (cases "least_by f rs")
    case None
    with Cons.prems show ?thesis by simp
  next
    case (Some s)
    from Cons.IH[OF Some] have "s \<in> set rs" "\<forall>t \<in> set rs. f s \<le> f t" by auto
    with Some Cons.prems show ?thesis by (auto split: if_splits intro: order_trans)
  qed
qed

section \<open>Ranks in a strictly sorted list\<close>

lemma strict_nth_less_iff:
  fixes xs :: "'a::linorder list"
  assumes "sorted_wrt (<) xs" "i < length xs" "j < length xs"
  shows "xs ! i < xs ! j \<longleftrightarrow> i < j"
  using assms sorted_wrt_nth_less[OF assms(1)] by (metis less_asym linorder_neqE_nat order_less_irrefl)

lemma card_below_nth:
  fixes xs :: "'a::linorder list"
  assumes "sorted_wrt (<) xs" "i < length xs"
  shows "card {x \<in> set xs. x < xs ! i} = i"
proof -
  have inj: "inj_on ((!) xs) {..<i}"
    using assms by (auto simp: inj_on_def strict_sorted_iff nth_eq_iff_index_eq)
  have "{x \<in> set xs. x < xs ! i} = (!) xs ` {..<i}"
  proof (intro set_eqI iffI)
    fix x assume "x \<in> {x \<in> set xs. x < xs ! i}"
    then obtain j where "j < length xs" "x = xs ! j" "xs ! j < xs ! i" by (auto simp: in_set_conv_nth)
    then show "x \<in> (!) xs ` {..<i}" using strict_nth_less_iff[OF assms(1)] assms(2) by auto
  next
    fix x assume "x \<in> (!) xs ` {..<i}"
    then obtain j where "j < i" "x = xs ! j" by auto
    then show "x \<in> {x \<in> set xs. x < xs ! i}" using strict_nth_less_iff[OF assms(1)] assms(2) by auto
  qed
  then show ?thesis using card_image[OF inj] by simp
qed

lemma card_above_nth:
  fixes xs :: "'a::linorder list"
  assumes "sorted_wrt (<) xs" "i < length xs"
  shows "card {x \<in> set xs. xs ! i < x} = length xs - Suc i"
proof -
  have d: "distinct xs" using assms(1) by (simp add: strict_sorted_iff)
  have "set xs = insert (xs ! i) ({x \<in> set xs. x < xs ! i} \<union> {x \<in> set xs. xs ! i < x})"
    using assms(2) by auto
  then have "card (set xs) = Suc (card ({x \<in> set xs. x < xs ! i} \<union> {x \<in> set xs. xs ! i < x}))"
    by (metis (no_types, lifting) List.finite_set UnE card_insert_disjoint finite_Un finite_insert
        less_irrefl mem_Collect_eq)
  moreover have "card ({x \<in> set xs. x < xs ! i} \<union> {x \<in> set xs. xs ! i < x})
      = card {x \<in> set xs. x < xs ! i} + card {x \<in> set xs. xs ! i < x}"
    by (rule card_Un_disjoint) auto
  ultimately show ?thesis
    using card_below_nth[OF assms] distinct_card[OF d] by simp
qed

end
