(* ===== verification/Errors.thy ===== *)
theory Errors
  imports Prelude
begin

text \<open>
  The exception classes of \<^verbatim>\<open>src/zhixu/domain/errors.py\<close> with their public codes and their
  inheritance, the Python exceptions the same code paths can raise, and the data
  classification of \<^verbatim>\<open>src/zhixu/domain/classification.py\<close> as a linear order.
  An exception is modelled by its class; its message text is not.
\<close>

section \<open>Exceptions\<close>

datatype err =
    ZhixuError | ValidationError | NotFoundError | ConflictError | ConcurrencyConflict
  | PermissionDenied | ConfirmationRequired | ClassificationNotSupported | InvalidTransition
  | LLMUnavailable | LLMBudgetExceeded | InvalidModelOutput
  | ValueErr | PermissionErr | KeyErr | RuntimeErr | TypeErr | IntegrityErr | AssertionErr
  | InvalidTag

type_synonym 'a res = "err + 'a"

fun error_code :: "err \<Rightarrow> string option" where
  "error_code ZhixuError = Some ''zhixu_error''"
| "error_code ValidationError = Some ''validation_error''"
| "error_code NotFoundError = Some ''not_found''"
| "error_code ConflictError = Some ''conflict''"
| "error_code ConcurrencyConflict = Some ''concurrency_conflict''"
| "error_code PermissionDenied = Some ''permission_denied''"
| "error_code ConfirmationRequired = Some ''confirmation_required''"
| "error_code ClassificationNotSupported = Some ''classification_not_supported''"
| "error_code InvalidTransition = Some ''invalid_transition''"
| "error_code LLMUnavailable = Some ''llm_unavailable''"
| "error_code LLMBudgetExceeded = Some ''llm_budget_exceeded''"
| "error_code InvalidModelOutput = Some ''invalid_model_output''"
| "error_code _ = None"

text \<open>The direct base class, for the classes the module declares.\<close>

fun error_base :: "err \<Rightarrow> err option" where
  "error_base ValidationError = Some ZhixuError"
| "error_base NotFoundError = Some ZhixuError"
| "error_base ConflictError = Some ZhixuError"
| "error_base ConcurrencyConflict = Some ConflictError"
| "error_base PermissionDenied = Some ZhixuError"
| "error_base ConfirmationRequired = Some PermissionDenied"
| "error_base ClassificationNotSupported = Some ZhixuError"
| "error_base InvalidTransition = Some ConflictError"
| "error_base LLMUnavailable = Some ZhixuError"
| "error_base LLMBudgetExceeded = Some LLMUnavailable"
| "error_base InvalidModelOutput = Some LLMUnavailable"
| "error_base _ = None"

text \<open>\<^verbatim>\<open>isinstance(exc, cls)\<close>: what an \<^verbatim>\<open>except cls\<close> clause catches (the hierarchy is three deep).\<close>

definition is_a :: "err \<Rightarrow> err \<Rightarrow> bool" where
  "is_a e c \<longleftrightarrow> e = c \<or> error_base e = Some c
     \<or> (case error_base e of None \<Rightarrow> False | Some b \<Rightarrow> error_base b = Some c)"

section \<open>Data classification\<close>

datatype data_classification = PUBLIC | PERSONAL | CONFIDENTIAL | SECRET | PROHIBITED

fun classification_value :: "data_classification \<Rightarrow> int" where
  "classification_value PUBLIC = 0"
| "classification_value PERSONAL = 1"
| "classification_value CONFIDENTIAL = 2"
| "classification_value SECRET = 3"
| "classification_value PROHIBITED = 4"

text \<open>\<^verbatim>\<open>DataClassification(int(value))\<close>, which raises ValueError for an unknown value.\<close>

definition classification_of :: "int \<Rightarrow> data_classification res" where
  "classification_of n =
     (if n = 0 then Inr PUBLIC else if n = 1 then Inr PERSONAL else if n = 2 then Inr CONFIDENTIAL
      else if n = 3 then Inr SECRET else if n = 4 then Inr PROHIBITED else Inl ValueErr)"

instantiation data_classification :: linorder
begin

definition less_eq_data_classification :: "data_classification \<Rightarrow> data_classification \<Rightarrow> bool" where
  "a \<le> b \<longleftrightarrow> classification_value a \<le> classification_value b"

definition less_data_classification :: "data_classification \<Rightarrow> data_classification \<Rightarrow> bool" where
  "a < b \<longleftrightarrow> classification_value a < classification_value b"

instance
proof
  fix x y :: data_classification
  assume "x \<le> y" "y \<le> x"
  then show "x = y"
    by (cases x; cases y) (auto simp: less_eq_data_classification_def)
qed (auto simp: less_eq_data_classification_def less_data_classification_def)

end

definition MAX_ORDINARY_CLASSIFICATION :: data_classification where
  "MAX_ORDINARY_CLASSIFICATION = CONFIDENTIAL"

definition require_ordinary_storage :: "data_classification \<Rightarrow> unit res" where
  "require_ordinary_storage c = guarded [(c > MAX_ORDINARY_CLASSIFICATION, ClassificationNotSupported)] ()"

text \<open>The same condition as a guard of a longer sequence.\<close>

definition not_ordinary :: "data_classification \<Rightarrow> bool" where
  "not_ordinary c \<longleftrightarrow> c > MAX_ORDINARY_CLASSIFICATION"

lemmas classification_order_defs =
  less_eq_data_classification_def less_data_classification_def

lemma classification_round_trip [simp]: "classification_of (classification_value c) = Inr c"
  by (cases c) (simp_all add: classification_of_def)

lemma not_ordinary_iff [simp]: "not_ordinary c \<longleftrightarrow> c = SECRET \<or> c = PROHIBITED"
  by (cases c) (simp_all add: not_ordinary_def MAX_ORDINARY_CLASSIFICATION_def classification_order_defs)

lemma require_ordinary_storage_eq:
  "require_ordinary_storage c = (if not_ordinary c then Inl ClassificationNotSupported else Inr ())"
  by (simp add: require_ordinary_storage_def guarded_def not_ordinary_def del: not_ordinary_iff)

lemma confidential_le_iff [simp]: "CONFIDENTIAL \<le> c \<longleftrightarrow> c = CONFIDENTIAL \<or> c = SECRET \<or> c = PROHIBITED"
  by (cases c) (simp_all add: classification_order_defs)

lemma less_confidential_iff [simp]: "c < CONFIDENTIAL \<longleftrightarrow> c = PUBLIC \<or> c = PERSONAL"
  by (cases c) (simp_all add: classification_order_defs)

lemma secret_le_iff [simp]: "SECRET \<le> c \<longleftrightarrow> c = SECRET \<or> c = PROHIBITED"
  by (cases c) (simp_all add: classification_order_defs)

lemma confidential_less_iff [simp]: "CONFIDENTIAL < c \<longleftrightarrow> c = SECRET \<or> c = PROHIBITED"
  by (cases c) (simp_all add: classification_order_defs)

end
