(* ===== verification/PyTime.thy ===== *)
theory PyTime
  imports Errors
begin

text \<open>
  The part of Python's \<^verbatim>\<open>datetime\<close>, \<^verbatim>\<open>calendar\<close> and \<^verbatim>\<open>zoneinfo\<close> modules the program uses.
  Dates are proleptic Gregorian, with \<^verbatim>\<open>toordinal\<close> and \<^verbatim>\<open>fromordinal\<close> as CPython computes
  them. A datetime is a wall clock (microseconds since 0001-01-01 00:00), a fold bit and an
  optional tzinfo; the time zone database is not part of the repository, so its offsets are
  the record \<open>tzdb\<close> that the operations take as an argument. \<open>isoformat_utc\<close> is the text
  that \<^verbatim>\<open>value.astimezone(UTC).isoformat()\<close> stores. Times outside the years 1 to 9999, where
  Python raises OverflowError, are out of the range the lemmas speak about.
\<close>

section \<open>Dates\<close>

record date =
  year :: int
  month :: int
  day :: int

abbreviation mk_date :: "int \<Rightarrow> int \<Rightarrow> int \<Rightarrow> date" where
  "mk_date y m d \<equiv> \<lparr>year = y, month = m, day = d\<rparr>"

definition is_leap :: "int \<Rightarrow> bool" where
  "is_leap y \<longleftrightarrow> y mod 4 = 0 \<and> (y mod 100 \<noteq> 0 \<or> y mod 400 = 0)"

definition days_in_month :: "int \<Rightarrow> int \<Rightarrow> int" where
  "days_in_month y m =
     (if m = 2 then (if is_leap y then 29 else 28)
      else if m = 4 \<or> m = 6 \<or> m = 9 \<or> m = 11 then 30 else 31)"

definition valid_date :: "date \<Rightarrow> bool" where
  "valid_date d \<longleftrightarrow> 1 \<le> year d \<and> year d \<le> 9999 \<and> 1 \<le> month d \<and> month d \<le> 12
     \<and> 1 \<le> day d \<and> day d \<le> days_in_month (year d) (month d)"

text \<open>The constructor \<^verbatim>\<open>date(y, m, d)\<close>, which raises ValueError.\<close>

definition new_date :: "int \<Rightarrow> int \<Rightarrow> int \<Rightarrow> date res" where
  "new_date y m d = (if valid_date (mk_date y m d) then Inr (mk_date y m d) else Inl ValueErr)"

definition days_before_year :: "int \<Rightarrow> int" where
  "days_before_year y = (y - 1) * 365 + (y - 1) div 4 - (y - 1) div 100 + (y - 1) div 400"

definition days_before_month :: "int \<Rightarrow> int \<Rightarrow> int" where
  "days_before_month y m =
     (if m \<le> 1 then 0 else if m = 2 then 31
      else (if m = 3 then 59 else if m = 4 then 90 else if m = 5 then 120 else if m = 6 then 151
            else if m = 7 then 181 else if m = 8 then 212 else if m = 9 then 243
            else if m = 10 then 273 else if m = 11 then 304 else 334) + (if is_leap y then 1 else 0))"

definition toordinal :: "date \<Rightarrow> int" where
  "toordinal d = days_before_year (year d) + days_before_month (year d) (month d) + day d"

text \<open>The month of the zero-based day of the year, by the same table.\<close>

fun month_search :: "int \<Rightarrow> int \<Rightarrow> nat \<Rightarrow> int" where
  "month_search y n 0 = 1"
| "month_search y n (Suc k) =
     (if days_before_month y (int (Suc k)) \<le> n then int (Suc k) else month_search y n k)"

definition fromordinal :: "int \<Rightarrow> date" where
  "fromordinal n =
     (let n0 = n - 1;
          n400 = n0 div 146097; r400 = n0 mod 146097;
          n100 = r400 div 36524; r100 = r400 mod 36524;
          n4 = r100 div 1461; r4 = r100 mod 1461;
          n1 = r4 div 365; r1 = r4 mod 365;
          y = n400 * 400 + n100 * 100 + n4 * 4 + n1 + 1
      in if n1 = 4 \<or> n100 = 4 then mk_date (y - 1) 12 31
         else let m = month_search y r1 12
              in mk_date y m (r1 - days_before_month y m + 1))"

definition date_le :: "date \<Rightarrow> date \<Rightarrow> bool" where
  "date_le a b \<longleftrightarrow> year a < year b \<or> (year a = year b \<and>
     (month a < month b \<or> (month a = month b \<and> day a \<le> day b)))"

definition date_diff :: "date \<Rightarrow> date \<Rightarrow> int" where
  "date_diff a b = toordinal a - toordinal b"

definition date_add :: "date \<Rightarrow> int \<Rightarrow> date" where
  "date_add d n = fromordinal (toordinal d + n)"

definition weekday :: "date \<Rightarrow> int" where
  "weekday d = (toordinal d + 6) mod 7"

section \<open>Datetimes\<close>

type_synonym micros = int

datatype tzinfo = TzUTC | TzFixed micros | ZoneInfo pystr

record datetime =
  dt_wall :: micros
  dt_fold :: bool
  dt_tz :: "tzinfo option"

text \<open>
  The IANA database: whether a key is known, the offset at a UTC instant with the fold of
  the local time there, and the offset of a local time.
\<close>

record tzdb =
  z_known :: "pystr \<Rightarrow> bool"
  z_offset_utc :: "pystr \<Rightarrow> micros \<Rightarrow> micros"
  z_fold_utc :: "pystr \<Rightarrow> micros \<Rightarrow> bool"
  z_offset_wall :: "pystr \<Rightarrow> micros \<Rightarrow> bool \<Rightarrow> micros"

abbreviation us_second :: micros where "us_second \<equiv> 1000000"
abbreviation us_minute :: micros where "us_minute \<equiv> 60000000"
abbreviation us_hour :: micros where "us_hour \<equiv> 3600000000"
abbreviation us_day :: micros where "us_day \<equiv> 86400000000"

definition aware :: "datetime \<Rightarrow> bool" where
  "aware d \<longleftrightarrow> dt_tz d \<noteq> None"

fun offset_of :: "tzdb \<Rightarrow> tzinfo \<Rightarrow> micros \<Rightarrow> bool \<Rightarrow> micros" where
  "offset_of db TzUTC w f = 0"
| "offset_of db (TzFixed o1) w f = o1"
| "offset_of db (ZoneInfo z) w f = z_offset_wall db z w f"

text \<open>The UTC instant of an aware datetime (\<^verbatim>\<open>self - self.utcoffset()\<close>).\<close>

definition instant :: "tzdb \<Rightarrow> datetime \<Rightarrow> micros" where
  "instant db d = (case dt_tz d of None \<Rightarrow> dt_wall d
     | Some z \<Rightarrow> dt_wall d - offset_of db z (dt_wall d) (dt_fold d))"

definition utc :: "micros \<Rightarrow> datetime" where
  "utc t = \<lparr>dt_wall = t, dt_fold = False, dt_tz = Some TzUTC\<rparr>"

fun local_wall :: "tzdb \<Rightarrow> tzinfo \<Rightarrow> micros \<Rightarrow> micros" where
  "local_wall db TzUTC t = t"
| "local_wall db (TzFixed o1) t = t + o1"
| "local_wall db (ZoneInfo z) t = t + z_offset_utc db z t"

fun local_fold :: "tzdb \<Rightarrow> tzinfo \<Rightarrow> micros \<Rightarrow> bool" where
  "local_fold db (ZoneInfo z) t = z_fold_utc db z t"
| "local_fold db _ t = False"

text \<open>\<^verbatim>\<open>value.astimezone(tz)\<close> for an aware value; the value itself when it has that tzinfo.\<close>

definition astimezone :: "tzdb \<Rightarrow> datetime \<Rightarrow> tzinfo \<Rightarrow> datetime" where
  "astimezone db d z =
     (if dt_tz d = Some z then d
      else let t = instant db d in
        \<lparr>dt_wall = local_wall db z t, dt_fold = local_fold db z t, dt_tz = Some z\<rparr>)"

text \<open>Adding a timedelta moves the wall clock and clears the fold.\<close>

definition dt_add :: "datetime \<Rightarrow> micros \<Rightarrow> datetime" where
  "dt_add d n = d\<lparr>dt_wall := dt_wall d + n, dt_fold := False\<rparr>"

text \<open>
  Comparison and subtraction use the wall clocks when both sides have the same tzinfo
  and the UTC instants otherwise.
\<close>

definition dt_sub :: "tzdb \<Rightarrow> datetime \<Rightarrow> datetime \<Rightarrow> micros" where
  "dt_sub db a b = (if dt_tz a = dt_tz b then dt_wall a - dt_wall b else instant db a - instant db b)"

definition dt_less :: "tzdb \<Rightarrow> datetime \<Rightarrow> datetime \<Rightarrow> bool" where
  "dt_less db a b \<longleftrightarrow> dt_sub db a b < 0"

definition dt_le :: "tzdb \<Rightarrow> datetime \<Rightarrow> datetime \<Rightarrow> bool" where
  "dt_le db a b \<longleftrightarrow> dt_sub db a b \<le> 0"

definition wall_date :: "datetime \<Rightarrow> date" where
  "wall_date d = fromordinal (dt_wall d div us_day + 1)"

definition wall_time :: "datetime \<Rightarrow> micros" where
  "wall_time d = dt_wall d mod us_day"

text \<open>\<^verbatim>\<open>datetime.combine(date, time, tzinfo)\<close>, the time as microseconds of the day.\<close>

definition combine :: "date \<Rightarrow> micros \<Rightarrow> bool \<Rightarrow> tzinfo option \<Rightarrow> datetime" where
  "combine d t f z = \<lparr>dt_wall = (toordinal d - 1) * us_day + t, dt_fold = f, dt_tz = z\<rparr>"

section \<open>ISO 8601 text\<close>

definition iso_date :: "date \<Rightarrow> pystr" where
  "iso_date d = padded 4 (nat (year d)) @ [45] @ padded 2 (nat (month d)) @ [45] @ padded 2 (nat (day d))"

definition iso_clock :: "micros \<Rightarrow> pystr" where
  "iso_clock t = padded 2 (nat (t div us_hour)) @ [58] @ padded 2 (nat (t div us_minute mod 60)) @ [58]
     @ padded 2 (nat (t div us_second mod 60))"

definition iso_fraction :: "micros \<Rightarrow> pystr" where
  "iso_fraction t = (if t mod us_second = 0 then [] else 46 # padded 6 (nat (t mod us_second)))"

definition isoformat_utc :: "micros \<Rightarrow> pystr" where
  "isoformat_utc t = iso_date (fromordinal (t div us_day + 1)) @ [84] @ iso_clock (t mod us_day)
     @ iso_fraction (t mod us_day) @ [43,48,48,58,48,48]"

text \<open>
  \<^verbatim>\<open>datetime.fromisoformat\<close> on the text \<^verbatim>\<open>isoformat\<close> writes for UTC. The other forms the
  parser accepts never occur in the columns read back.
\<close>

definition digits_value :: "pystr \<Rightarrow> nat" where
  "digits_value s = foldl (\<lambda>n c. 10 * n + (c - 48)) 0 s"

definition all_digits :: "pystr \<Rightarrow> bool" where
  "all_digits s \<longleftrightarrow> list_all (\<lambda>c. 48 \<le> c \<and> c \<le> 57) s"

definition fromisoformat_utc :: "pystr \<Rightarrow> micros res" where
  "fromisoformat_utc s =
     (let y = take 4 s; mo = take 2 (drop 5 s); d = take 2 (drop 8 s);
          h = take 2 (drop 11 s); mi = take 2 (drop 14 s); se = take 2 (drop 17 s);
          rest = drop 19 s;
          us = (if rest \<noteq> [] \<and> hd rest = 46 then take 6 (tl rest) else []);
          suffix = (if us = [] then rest else drop 7 rest);
          dt = mk_date (int (digits_value y)) (int (digits_value mo)) (int (digits_value d))
      in if suffix = [43,48,48,58,48,48] \<and> list_all all_digits [y, mo, d, h, mi, se, us]
           \<and> (us = [] \<or> length us = 6) \<and> valid_date dt
           \<and> digits_value h < 24 \<and> digits_value mi < 60 \<and> digits_value se < 60
         then Inr ((toordinal dt - 1) * us_day + int (digits_value h) * us_hour
                + int (digits_value mi) * us_minute + int (digits_value se) * us_second
                + int (digits_value us))
         else Inl ValueErr)"

definition in_range :: "micros \<Rightarrow> bool" where
  "in_range t \<longleftrightarrow> 0 \<le> t \<and> t < 3652059 * us_day"

section \<open>Ordinals and dates\<close>

lemma month_cases:
  fixes m :: int
  assumes "1 \<le> m" "m \<le> 12"
  obtains "m = 1" | "m = 2" | "m = 3" | "m = 4" | "m = 5" | "m = 6" | "m = 7" | "m = 8"
    | "m = 9" | "m = 10" | "m = 11" | "m = 12"
proof -
  have "m = 1 \<or> m = 2 \<or> m = 3 \<or> m = 4 \<or> m = 5 \<or> m = 6 \<or> m = 7 \<or> m = 8
      \<or> m = 9 \<or> m = 10 \<or> m = 11 \<or> m = 12"
    using assms by arith
  with that show ?thesis by blast
qed

lemma days_before_month_step:
  assumes "1 \<le> m" "m < 12"
  shows "days_before_month y (m + 1) = days_before_month y m + days_in_month y m"
proof -
  from assms have "1 \<le> m" "m \<le> 12" by auto
  then show ?thesis
    using assms(2) by (cases rule: month_cases) (simp_all add: days_before_month_def days_in_month_def)
qed

lemma days_before_month_end:
  "days_before_month y 12 + days_in_month y 12 = (if is_leap y then 366 else 365)"
  by (simp add: days_before_month_def days_in_month_def)

lemma days_before_month_nonneg: "0 \<le> days_before_month y m"
  by (simp add: days_before_month_def)

lemma days_before_month_mono:
  assumes "1 \<le> m" "m < m'" "m' \<le> 12"
  shows "days_before_month y m + days_in_month y m \<le> days_before_month y m'"
proof -
  from assms have "1 \<le> m" "m \<le> 12" by auto
  then show ?thesis
    using assms(2,3) by (cases rule: month_cases) (simp_all add: days_before_month_def days_in_month_def)
qed

text \<open>A year in mixed radix 400, 100, 4, 1: the form both directions of the conversion use.\<close>

lemma days_before_year_radix:
  assumes "0 \<le> b" "b \<le> 3" "0 \<le> c" "c \<le> 24" "0 \<le> d" "d \<le> 3"
  shows "days_before_year (400 * a + 100 * b + 4 * c + d + 1) = 146097 * a + 36524 * b + 1461 * c + 365 * d"
proof -
  have "(400 * a + 100 * b + 4 * c + d) div 4 = 100 * a + 25 * b + c"
    "(400 * a + 100 * b + 4 * c + d) div 100 = 4 * a + b"
    "(400 * a + 100 * b + 4 * c + d) div 400 = a"
    using assms by auto
  then show ?thesis by (simp add: days_before_year_def)
qed

lemma mod_zero_iff:
  fixes x k :: int
  assumes "0 < x" "x \<le> k"
  shows "x mod k = 0 \<longleftrightarrow> x = k"
  using assms by (cases "x = k") auto

lemma is_leap_radix:
  assumes "0 \<le> b" "b \<le> 3" "0 \<le> c" "c \<le> 24" "0 \<le> d" "d \<le> 3"
  shows "is_leap (400 * a + 100 * b + 4 * c + d + 1) \<longleftrightarrow> d = 3 \<and> (c \<noteq> 24 \<or> b = 3)"
proof -
  let ?y = "400 * a + 100 * b + 4 * c + d + 1"
  have "?y mod 4 = (d + 1) mod 4"
    using mod_mult_self2[of "d + 1" 4 "100 * a + 25 * b + c"] by (simp add: algebra_simps)
  then have m4: "?y mod 4 = 0 \<longleftrightarrow> d = 3" using assms(5,6) by presburger
  have "?y mod 100 = (4 * c + d + 1) mod 100"
    using mod_mult_self2[of "4 * c + d + 1" 100 "4 * a + b"] by (simp add: algebra_simps)
  moreover have "(4 * c + d + 1) mod 100 = 0 \<longleftrightarrow> 4 * c + d + 1 = 100"
    using assms by (intro mod_zero_iff) auto
  moreover have "4 * c + d + 1 = 100 \<longleftrightarrow> c = 24 \<and> d = 3" using assms by presburger
  ultimately have m100: "?y mod 100 = 0 \<longleftrightarrow> c = 24 \<and> d = 3" by simp
  have "?y mod 400 = (100 * b + 4 * c + d + 1) mod 400"
    using mod_mult_self2[of "100 * b + 4 * c + d + 1" 400 a] by (simp add: algebra_simps)
  moreover have "(100 * b + 4 * c + d + 1) mod 400 = 0 \<longleftrightarrow> 100 * b + 4 * c + d + 1 = 400"
    using assms by (intro mod_zero_iff) auto
  moreover have "100 * b + 4 * c + d + 1 = 400 \<longleftrightarrow> b = 3 \<and> c = 24 \<and> d = 3" using assms by presburger
  ultimately have m400: "?y mod 400 = 0 \<longleftrightarrow> b = 3 \<and> c = 24 \<and> d = 3" by simp
  show ?thesis unfolding is_leap_def m4 m100 m400 by blast
qed

lemma div_mod_int:
  fixes x k :: int
  assumes "0 < k"
  shows "x = k * (x div k) + x mod k" "0 \<le> x mod k" "x mod k < k"
  using assms by simp_all

lemma div_mod_obtain:
  fixes x k :: int
  assumes "0 < k"
  obtains q r where "x = k * q + r" "0 \<le> r" "r < k"
  using div_mod_int[OF assms] by blast

lemma radix_less_iff:
  fixes k q r q' r' :: int
  assumes "0 \<le> r" "r < k" "0 \<le> r'" "r' < k"
  shows "k * q + r < k * q' + r' \<longleftrightarrow> q < q' \<or> (q = q' \<and> r < r')"
proof -
  have step: "k * x + s < k * y + s'" if "x < y" "s < k" "0 \<le> s'" for x y s s'
  proof -
    have "k * (x + 1) \<le> k * y" using that assms by (intro mult_left_mono) auto
    then show ?thesis using that by (simp add: distrib_left)
  qed
  show ?thesis
    using step[of q q' r r'] step[of q' q r' r] assms by (cases q q' rule: linorder_cases) auto
qed

lemma radix_eq_iff:
  fixes k q r q' r' :: int
  assumes "0 \<le> r" "r < k" "0 \<le> r'" "r' < k"
  shows "k * q + r = k * q' + r' \<longleftrightarrow> q = q' \<and> r = r'"
  using radix_less_iff[OF assms, of q q'] radix_less_iff[OF assms(3,4,1,2), of q' q] by auto

lemma year_radix:
  fixes y :: int
  obtains a b c d where "y = 400 * a + 100 * b + 4 * c + d + 1"
    "0 \<le> b" "b \<le> 3" "0 \<le> c" "c \<le> 24" "0 \<le> d" "d \<le> 3"
proof -
  obtain a r where r: "y - 1 = 400 * a + r" "0 \<le> r" "r < 400" by (rule div_mod_obtain[of 400 "y - 1"]) simp
  obtain b s where s: "r = 100 * b + s" "0 \<le> s" "s < 100" by (rule div_mod_obtain[of 100 r]) simp
  obtain c d where d: "s = 4 * c + d" "0 \<le> d" "d < 4" by (rule div_mod_obtain[of 4 s]) simp
  show thesis
    by (rule that[of a b c d]) (use r s d in linarith)+
qed

lemma days_before_year_Suc:
  "days_before_year (y + 1) = days_before_year y + (if is_leap y then 366 else 365)"
proof -
  obtain a b c d where y: "y = 400 * a + 100 * b + 4 * c + d + 1"
    and r: "0 \<le> b" "b \<le> 3" "0 \<le> c" "c \<le> 24" "0 \<le> d" "d \<le> 3"
    by (rule year_radix)
  have here: "days_before_year y = 146097 * a + 36524 * b + 1461 * c + 365 * d"
    unfolding y by (rule days_before_year_radix[OF r])
  have leap: "is_leap y \<longleftrightarrow> d = 3 \<and> (c \<noteq> 24 \<or> b = 3)"
    unfolding y by (rule is_leap_radix[OF r])
  consider "d < 3" | "d = 3" "c < 24" | "d = 3" "c = 24" "b < 3" | "d = 3" "c = 24" "b = 3"
    using r by linarith
  then show ?thesis
  proof cases
    case 1
    then have "y + 1 = 400 * a + 100 * b + 4 * c + (d + 1) + 1" by (simp add: y)
    with 1 r here leap show ?thesis
      using days_before_year_radix[of b c "d + 1" a] by simp
  next
    case 2
    then have "y + 1 = 400 * a + 100 * b + 4 * (c + 1) + 0 + 1" by (simp add: y)
    with 2 r here leap show ?thesis
      using days_before_year_radix[of b "c + 1" 0 a] by simp
  next
    case 3
    then have "y + 1 = 400 * a + 100 * (b + 1) + 4 * 0 + 0 + 1" by (simp add: y)
    with 3 r here leap show ?thesis
      using days_before_year_radix[of "b + 1" 0 0 a] by simp
  next
    case 4
    then have "y + 1 = 400 * (a + 1) + 100 * 0 + 4 * 0 + 0 + 1" by (simp add: y)
    with 4 r here leap show ?thesis
      using days_before_year_radix[of 0 0 0 "a + 1"] by simp
  qed
qed

lemma days_before_year_mono: "y \<le> y' \<Longrightarrow> days_before_year y \<le> days_before_year y'"
proof (induction y' rule: int_ge_induct)
  case base
  then show ?case by simp
next
  case (step i)
  then show ?case by (simp add: days_before_year_Suc split: if_splits)
qed

lemma day_of_year_bounds:
  assumes "1 \<le> m" "m \<le> 12" "1 \<le> d" "d \<le> days_in_month y m"
  shows "1 \<le> days_before_month y m + d \<and> days_before_month y m + d \<le> (if is_leap y then 366 else 365)"
proof -
  have "days_before_month y m + days_in_month y m \<le> (if is_leap y then 366 else 365)"
  proof (cases "m = 12")
    case True
    then show ?thesis using days_before_month_end[of y] by simp
  next
    case False
    with assms have "days_before_month y m + days_in_month y m \<le> days_before_month y 12"
      by (intro days_before_month_mono) auto
    then show ?thesis using days_before_month_end[of y] by (simp add: days_in_month_def)
  qed
  with assms days_before_month_nonneg[of y m] show ?thesis by linarith
qed

text \<open>The order of dates is the order of their ordinals.\<close>

lemma toordinal_less:
  assumes "valid_date a" "valid_date b"
    and "year a < year b \<or> (year a = year b \<and> (month a < month b \<or> (month a = month b \<and> day a < day b)))"
  shows "toordinal a < toordinal b"
proof (cases "year a < year b")
  case True
  then have "days_before_year (year a + 1) \<le> days_before_year (year b)"
    by (intro days_before_year_mono) simp
  moreover have "days_before_month (year a) (month a) + day a \<le> (if is_leap (year a) then 366 else 365)"
    "1 \<le> days_before_month (year b) (month b) + day b"
    using assms(1,2) day_of_year_bounds by (auto simp: valid_date_def)
  ultimately show ?thesis by (simp add: toordinal_def days_before_year_Suc)
next
  case False
  with assms(3) have y: "year a = year b" by auto
  show ?thesis
  proof (cases "month a < month b")
    case True
    with assms(1,2) y have "days_before_month (year b) (month a) + days_in_month (year b) (month a)
        \<le> days_before_month (year b) (month b)"
      by (intro days_before_month_mono) (auto simp: valid_date_def)
    with assms(1,2) y show ?thesis by (simp add: toordinal_def valid_date_def)
  next
    case False
    with assms(3) y show ?thesis by (simp add: toordinal_def)
  qed
qed

lemma toordinal_less_iff:
  assumes "valid_date a" "valid_date b"
  shows "toordinal a < toordinal b \<longleftrightarrow>
    year a < year b \<or> (year a = year b \<and> (month a < month b \<or> (month a = month b \<and> day a < day b)))"
  using toordinal_less[OF assms] toordinal_less[OF assms(2,1)]
  by (smt (verit) toordinal_def)

lemma date_le_iff:
  assumes "valid_date a" "valid_date b"
  shows "date_le a b \<longleftrightarrow> toordinal a \<le> toordinal b"
  using toordinal_less_iff[OF assms(2,1)] unfolding date_le_def by auto

lemma toordinal_inj: "valid_date a \<Longrightarrow> valid_date b \<Longrightarrow> toordinal a = toordinal b \<Longrightarrow> a = b"
  using toordinal_less_iff[of a b] toordinal_less_iff[of b a] by (cases a; cases b) auto

lemma month_search_spec:
  assumes "0 \<le> n" "1 \<le> k" "k \<le> 12"
  shows "1 \<le> month_search y n k \<and> month_search y n k \<le> int k
    \<and> days_before_month y (month_search y n k) \<le> n
    \<and> (month_search y n k < int k \<longrightarrow> n < days_before_month y (month_search y n k + 1))"
  using assms
proof (induction k)
  case 0
  then show ?case by simp
next
  case (Suc k)
  show ?case
  proof (cases "k = 0")
    case True
    with Suc.prems show ?thesis by (simp add: days_before_month_def)
  next
    case False
    with Suc show ?thesis by (auto simp: add.commute)
  qed
qed

lemma fromordinal_valid_and_inverse:
  assumes "1 \<le> n" "n \<le> 3652059"
  shows "valid_date (fromordinal n) \<and> toordinal (fromordinal n) = n"
proof -
  define n0 where "n0 = n - 1"
  define a where "a = n0 div 146097"
  define b where "b = n0 mod 146097 div 36524"
  define r100 where "r100 = n0 mod 146097 mod 36524"
  define c where "c = r100 div 1461"
  define d where "d = r100 mod 1461 div 365"
  define r where "r = r100 mod 1461 mod 365"
  define y where "y = a * 400 + b * 100 + c * 4 + d + 1"
  note q400 = div_mod_int[of 146097 n0]
  note q100 = div_mod_int[of 36524 "n0 mod 146097"]
  note q4 = div_mod_int[of 1461 r100]
  note q1 = div_mod_int[of 365 "r100 mod 1461"]
  have n0: "n0 = 146097 * a + 36524 * b + r100" "0 \<le> r100" "r100 < 36524" "0 \<le> b" "b \<le> 4"
    using q400 q100 by (auto simp: a_def b_def r100_def)
  have b4: "b = 4 \<Longrightarrow> r100 = 0" using q400 q100 by (auto simp: b_def r100_def)
  have r100: "r100 = 1461 * c + 365 * d + r" "0 \<le> r" "r < 365" "0 \<le> d" "d \<le> 4" "0 \<le> c" "c \<le> 24"
    using q4 q1 n0(2,3) by (auto simp: c_def d_def r_def)
  have d4: "d = 4 \<Longrightarrow> r = 0" using q4 q1 by (auto simp: d_def r_def)
  have cb: "b \<le> 3 \<Longrightarrow> c = 24 \<Longrightarrow> d \<le> 3" using r100 n0(3) by linarith
  have a: "0 \<le> a" "a \<le> 24" using assms q400 by (auto simp: a_def n0_def)
  have bound: "146097 * a + 36524 * b + 1461 * c + 365 * d + r \<le> 3652058"
    using n0(1) r100(1) assms(2) by (simp add: n0_def)
  have from_eq: "fromordinal n = (if d = 4 \<or> b = 4 then mk_date (y - 1) 12 31
      else mk_date y (month_search y r 12) (r - days_before_month y (month_search y r 12) + 1))"
    unfolding fromordinal_def Let_def a_def b_def r100_def c_def d_def r_def y_def n0_def by simp
  show ?thesis
  proof (cases "d = 4 \<or> b = 4")
    case True
    have last: "valid_date (mk_date (y - 1) 12 31) \<and> toordinal (mk_date (y - 1) 12 31) = n"
    proof (cases "b = 4")
      case True
      then have z: "c = 0" "d = 0" "r = 0" using b4 r100 by auto
      have y: "y - 1 = 400 * a + 100 * 3 + 4 * 24 + 3 + 1" using True z by (simp add: y_def)
      have leap: "is_leap (y - 1)" unfolding y by (subst is_leap_radix) auto
      have "days_before_year (y - 1) = 146097 * a + 36524 * 3 + 1461 * 24 + 365 * 3"
        unfolding y by (subst days_before_year_radix) auto
      then have "toordinal (mk_date (y - 1) 12 31) = n"
        using leap n0(1) r100(1) True z by (simp add: toordinal_def days_before_month_def n0_def)
      moreover have "valid_date (mk_date (y - 1) 12 31)"
        using y a bound True z by (simp add: valid_date_def days_in_month_def)
      ultimately show ?thesis by blast
    next
      case False
      with True have z: "d = 4" "r = 0" "b \<le> 3" using d4 n0 by auto
      have c: "c \<noteq> 24" using cb z by auto
      have y: "y - 1 = 400 * a + 100 * b + 4 * c + 3 + 1" using z by (simp add: y_def)
      have leap: "is_leap (y - 1)" unfolding y using n0 r100 z c by (subst is_leap_radix) auto
      have "days_before_year (y - 1) = 146097 * a + 36524 * b + 1461 * c + 365 * 3"
        unfolding y using n0 r100 z by (subst days_before_year_radix) auto
      then have "toordinal (mk_date (y - 1) 12 31) = n"
        using leap n0(1) r100(1) z by (simp add: toordinal_def days_before_month_def n0_def)
      moreover have "valid_date (mk_date (y - 1) 12 31)"
        using y a z n0 r100 by (simp add: valid_date_def days_in_month_def)
      ultimately show ?thesis by blast
    qed
    with True from_eq show ?thesis by simp
  next
    case False
    then have bd: "b \<le> 3" "d \<le> 3" using n0 r100 by auto
    let ?m = "month_search y r 12"
    have ms: "1 \<le> ?m" "?m \<le> 12" "days_before_month y ?m \<le> r"
      "?m < 12 \<longrightarrow> r < days_before_month y (?m + 1)"
      using month_search_spec[of r 12 y] r100 by auto
    have y: "y = 400 * a + 100 * b + 4 * c + d + 1" by (simp add: y_def)
    have dby: "days_before_year y = 146097 * a + 36524 * b + 1461 * c + 365 * d"
      unfolding y using n0 r100 bd by (subst days_before_year_radix) auto
    have "r - days_before_month y ?m + 1 \<le> days_in_month y ?m"
    proof (cases "?m = 12")
      case True
      then show ?thesis using days_before_month_end[of y] r100 by (auto split: if_splits)
    next
      case False
      with ms show ?thesis using days_before_month_step[of ?m y] by auto
    qed
    moreover have "1 \<le> y" "y \<le> 9999"
      using a n0 r100 bd bound by (auto simp: y_def)
    ultimately have "valid_date (mk_date y ?m (r - days_before_month y ?m + 1))"
      using ms by (simp add: valid_date_def)
    moreover have "toordinal (mk_date y ?m (r - days_before_month y ?m + 1)) = n"
      using dby n0(1) r100(1) by (simp add: toordinal_def n0_def)
    ultimately show ?thesis using False from_eq by simp
  qed
qed

lemmas fromordinal_valid = fromordinal_valid_and_inverse [THEN conjunct1]
lemmas toordinal_fromordinal = fromordinal_valid_and_inverse [THEN conjunct2]

lemma toordinal_bounds:
  assumes "valid_date d"
  shows "1 \<le> toordinal d" "toordinal d \<le> 3652059"
proof -
  have first: "toordinal (mk_date 1 1 1) = 1" and last: "toordinal (mk_date 9999 12 31) = 3652059"
    by (simp_all add: toordinal_def days_before_year_def days_before_month_def is_leap_def)
  have v: "valid_date (mk_date 1 1 1)" "valid_date (mk_date 9999 12 31)"
    by (simp_all add: valid_date_def days_in_month_def)
  have dim: "days_in_month y m \<le> 31" for y m by (simp add: days_in_month_def)
  have "\<not> toordinal d < toordinal (mk_date 1 1 1)"
    using assms unfolding toordinal_less_iff[OF assms v(1)] by (auto simp: valid_date_def)
  then show "1 \<le> toordinal d" using first by simp
  have "\<not> toordinal (mk_date 9999 12 31) < toordinal d"
    using assms dim[of "year d" "month d"] unfolding toordinal_less_iff[OF v(2) assms]
    by (auto simp: valid_date_def)
  then show "toordinal d \<le> 3652059" using last by simp
qed

lemma fromordinal_toordinal [simp]: "valid_date d \<Longrightarrow> fromordinal (toordinal d) = d"
  using toordinal_bounds[of d] fromordinal_valid_and_inverse[of "toordinal d"] toordinal_inj by blast

section \<open>Text order and time order\<close>

lemma padded_int_iff:
  fixes a b :: int
  assumes "0 \<le> a" "a < 10 ^ w" "0 \<le> b" "b < 10 ^ w"
  shows "padded w (nat a) < padded w (nat b) \<longleftrightarrow> a < b"
    and "padded w (nat a) = padded w (nat b) \<longleftrightarrow> a = b"
proof -
  have n: "nat a < 10 ^ w" "nat b < 10 ^ w" using assms by (simp_all add: nat_less_iff)
  show "padded w (nat a) < padded w (nat b) \<longleftrightarrow> a < b"
    using padded_less_iff[OF n] assms by auto
  show "padded w (nat a) = padded w (nat b) \<longleftrightarrow> a = b"
    using padded_inj[OF n] assms by (metis nat_eq_iff2)
qed

lemma length_iso_date [simp]: "length (iso_date d) = 10"
  by (simp add: iso_date_def)

lemma length_iso_clock [simp]: "length (iso_clock t) = 8"
  by (simp add: iso_clock_def)

lemma iso_date_less_iff:
  assumes "valid_date a" "valid_date b"
  shows "iso_date a < iso_date b \<longleftrightarrow> toordinal a < toordinal b"
proof -
  have dim: "days_in_month y m \<le> 31" for y m by (simp add: days_in_month_def)
  have r: "year d < 10 ^ 4" "month d < 10 ^ 2" "day d < 10 ^ 2"
    "0 \<le> year d" "0 \<le> month d" "0 \<le> day d" if "valid_date d" for d
    using that dim[of "year d" "month d"] by (auto simp: valid_date_def)
  note ra = r[OF assms(1)] and rb = r[OF assms(2)]
  note y = padded_int_iff[OF ra(4) ra(1) rb(4) rb(1)]
    and m = padded_int_iff[OF ra(5) ra(2) rb(5) rb(2)]
    and d = padded_int_iff[OF ra(6) ra(3) rb(6) rb(3)]
  show ?thesis
    unfolding iso_date_def toordinal_less_iff[OF assms]
    by (simp add: append_less_iff y m d del: padded.simps)
qed

lemma iso_date_inj: "valid_date a \<Longrightarrow> valid_date b \<Longrightarrow> iso_date a = iso_date b \<longleftrightarrow> a = b"
  by (metis iso_date_less_iff less_irrefl linorder_neqE toordinal_inj)

text \<open>Hours, minutes, seconds and microseconds of a day as digits of a mixed-radix number.\<close>

lemma clock_fields:
  assumes "0 \<le> t" "t < us_day"
  obtains h m s u where "t = us_hour * h + us_minute * m + us_second * s + u"
    "t div us_hour = h" "t div us_minute mod 60 = m" "t div us_second mod 60 = s" "t mod us_second = u"
    "0 \<le> h" "h < 24" "0 \<le> m" "m < 60" "0 \<le> s" "s < 60" "0 \<le> u" "u < us_second"
proof -
  obtain q u where u: "t = us_second * q + u" "0 \<le> u" "u < us_second"
    by (rule div_mod_obtain[of us_second t]) simp
  obtain p s where s: "q = 60 * p + s" "0 \<le> s" "s < 60" by (rule div_mod_obtain[of 60 q]) simp
  obtain h m where m: "p = 60 * h + m" "0 \<le> m" "m < 60" by (rule div_mod_obtain[of 60 p]) simp
  have t: "t = us_hour * h + us_minute * m + us_second * s + u" using u s m by simp
  have d1: "t div us_second = 60 * p + s"
    using u s(1) by (intro int_div_pos_eq[where r = u]) auto
  have d2: "t div us_minute = 60 * h + m"
    using u s m by (intro int_div_pos_eq[where r = "us_second * s + u"]) auto
  have d3: "t div us_hour = h"
    using u s m by (intro int_div_pos_eq[where r = "us_minute * m + us_second * s + u"]) auto
  have d4: "t mod us_second = u" using u by (intro int_mod_pos_eq[where q = q]) auto
  have h: "0 \<le> h" "h < 24" using assms t u s m by auto
  have m60: "(60 * p + s) mod 60 = s" "(60 * h + m) mod 60 = m"
    using s(2,3) m(2,3) by simp_all
  show thesis
    by (rule that[OF t d3 _ _ d4 h m(2,3) s(2,3) u(2,3)]) (simp_all only: d1 d2 m60)
qed

lemma iso_time_less_iff:
  assumes "0 \<le> a" "a < us_day" "0 \<le> b" "b < us_day"
  shows "iso_clock a @ iso_fraction a @ [43,48,48,58,48,48]
       < iso_clock b @ iso_fraction b @ [43,48,48,58,48,48] \<longleftrightarrow> a < b"
proof -
  obtain h m s u where a: "a = us_hour * h + us_minute * m + us_second * s + u"
    "a div us_hour = h" "a div us_minute mod 60 = m" "a div us_second mod 60 = s" "a mod us_second = u"
    "0 \<le> h" "h < 24" "0 \<le> m" "m < 60" "0 \<le> s" "s < 60" "0 \<le> u" "u < us_second"
    using assms(1,2) by (rule clock_fields)
  obtain h' m' s' u' where b: "b = us_hour * h' + us_minute * m' + us_second * s' + u'"
    "b div us_hour = h'" "b div us_minute mod 60 = m'" "b div us_second mod 60 = s'" "b mod us_second = u'"
    "0 \<le> h'" "h' < 24" "0 \<le> m'" "m' < 60" "0 \<le> s'" "s' < 60" "0 \<le> u'" "u' < us_second"
    using assms(3,4) by (rule clock_fields)
  have two: "padded 2 (nat x) < padded 2 (nat y) \<longleftrightarrow> x < y" "padded 2 (nat x) = padded 2 (nat y) \<longleftrightarrow> x = y"
    if "0 \<le> x" "x < 60" "0 \<le> y" "y < 60" for x y :: int
    using padded_int_iff[of x 2 y] that by simp_all
  have "h < 60" "h' < 60" using a(7) b(7) by simp_all
  note hh = two[OF a(6) this(1) b(6) this(2)] and mm = two[OF a(8,9) b(8,9)] and ss = two[OF a(10,11) b(10,11)]
  have clock: "iso_clock a < iso_clock b \<longleftrightarrow> h < h' \<or> (h = h' \<and> (m < m' \<or> (m = m' \<and> s < s')))"
    "iso_clock a = iso_clock b \<longleftrightarrow> h = h' \<and> m = m' \<and> s = s'"
    unfolding iso_clock_def a(2-4) b(2-4) by (simp_all add: append_less_iff hh mm ss del: padded.simps)
  have six: "padded 6 (nat u) < padded 6 (nat u') \<longleftrightarrow> u < u'" "padded 6 (nat u) = padded 6 (nat u') \<longleftrightarrow> u = u'"
    using padded_int_iff[of u 6 u'] a(12,13) b(12,13) by simp_all
  have frac: "iso_fraction a @ [43,48,48,58,48,48] < iso_fraction b @ [43,48,48,58,48,48] \<longleftrightarrow> u < u'"
    unfolding iso_fraction_def a(5) b(5) using a(12) b(12)
    by (auto simp: append_less_iff six simp del: padded.simps)
  have "a = us_second * (60 * (60 * h + m) + s) + u" "b = us_second * (60 * (60 * h' + m') + s') + u'"
    using a(1) b(1) by (simp_all add: algebra_simps)
  then have "a < b \<longleftrightarrow> h < h' \<or> (h = h' \<and> (m < m' \<or> (m = m' \<and> (s < s' \<or> (s = s' \<and> u < u')))))"
    by (simp only: radix_less_iff[OF a(12,13) b(12,13)] radix_less_iff[OF a(10,11) b(10,11)]
        radix_less_iff[OF a(8,9) b(8,9)] radix_eq_iff[OF a(10,11) b(10,11)] radix_eq_iff[OF a(8,9) b(8,9)])
      blast
  then show ?thesis
    by (auto simp: append_less_iff clock frac)
qed

lemma in_range_fields:
  assumes "in_range t"
  shows "1 \<le> t div us_day + 1" "t div us_day + 1 \<le> 3652059" "0 \<le> t mod us_day" "t mod us_day < us_day"
  using assms div_mod_int[of us_day t] by (auto simp: in_range_def)

text \<open>
  The columns hold UTC texts and SQLite compares them as text: the text order is the time
  order, also where one text has a fraction of a second and the other has none.
\<close>

lemma isoformat_utc_less_iff:
  assumes "in_range a" "in_range b"
  shows "isoformat_utc a < isoformat_utc b \<longleftrightarrow> a < b"
proof -
  note fa = in_range_fields[OF assms(1)] and fb = in_range_fields[OF assms(2)]
  note va = fromordinal_valid[OF fa(1,2)] and vb = fromordinal_valid[OF fb(1,2)]
  have ord: "iso_date (fromordinal (a div us_day + 1)) < iso_date (fromordinal (b div us_day + 1))
      \<longleftrightarrow> a div us_day < b div us_day"
    unfolding iso_date_less_iff[OF va vb] toordinal_fromordinal[OF fa(1,2)] toordinal_fromordinal[OF fb(1,2)]
    by (rule add_less_cancel_right)
  have same: "iso_date (fromordinal (a div us_day + 1)) = iso_date (fromordinal (b div us_day + 1))
      \<longleftrightarrow> a div us_day = b div us_day"
    unfolding iso_date_inj[OF va vb]
    by (metis toordinal_fromordinal[OF fa(1,2)] toordinal_fromordinal[OF fb(1,2)] add_right_cancel)
  have "us_day * (a div us_day) + a mod us_day < us_day * (b div us_day) + b mod us_day \<longleftrightarrow>
      a div us_day < b div us_day \<or> (a div us_day = b div us_day \<and> a mod us_day < b mod us_day)"
    by (rule radix_less_iff[OF fa(3,4) fb(3,4)])
  then have "a < b \<longleftrightarrow> a div us_day < b div us_day \<or> (a div us_day = b div us_day \<and> a mod us_day < b mod us_day)"
    by (simp only: mult_div_mod_eq)
  then show ?thesis
    unfolding isoformat_utc_def
    by (simp only: append_less_iff length_iso_date ord same iso_time_less_iff[OF fa(3,4) fb(3,4)]
        order_less_irrefl simp_thms)
qed

lemma isoformat_utc_le_iff:
  "in_range a \<Longrightarrow> in_range b \<Longrightarrow> isoformat_utc a \<le> isoformat_utc b \<longleftrightarrow> a \<le> b"
  using isoformat_utc_less_iff[of b a] by (simp add: linorder_not_less[symmetric])

lemma isoformat_utc_inj: "in_range a \<Longrightarrow> in_range b \<Longrightarrow> isoformat_utc a = isoformat_utc b \<longleftrightarrow> a = b"
  using isoformat_utc_le_iff[of a b] isoformat_utc_le_iff[of b a] by auto

section \<open>Reading a stored time back\<close>

lemma all_digits_padded [simp]: "all_digits (padded w n)"
proof (induction w arbitrary: n)
  case 0
  then show ?case by (simp add: all_digits_def)
next
  case (Suc w)
  have "n mod 10 \<le> 9" by simp
  with Suc[of "n div 10"] show ?case by (simp add: all_digits_def)
qed

lemma digits_value_padded: "n < 10 ^ w \<Longrightarrow> digits_value (padded w n) = n"
  by (induction w arbitrary: n) (simp_all add: digits_value_def)

lemma fromisoformat_utc_fields:
  assumes "valid_date (mk_date (int y) (int mo) (int d))" "h < 24" "mi < 60" "se < 60" "u < 10 ^ 6"
  shows "fromisoformat_utc (padded 4 y @ [45] @ padded 2 mo @ [45] @ padded 2 d @ [84] @ padded 2 h @ [58]
      @ padded 2 mi @ [58] @ padded 2 se @ (if u = 0 then [] else 46 # padded 6 u) @ [43,48,48,58,48,48])
    = Inr ((toordinal (mk_date (int y) (int mo) (int d)) - 1) * us_day + int h * us_hour
         + int mi * us_minute + int se * us_second + int u)"
proof -
  have "days_in_month (int y) (int mo) \<le> 31" by (simp add: days_in_month_def)
  with assms(1) have r: "y < 10 ^ 4" "mo < 10 ^ 2" "d < 10 ^ 2" by (auto simp: valid_date_def)
  have c: "h < 10 ^ 2" "mi < 10 ^ 2" "se < 10 ^ 2" using assms by simp_all
  note v = digits_value_padded[OF r(1)] digits_value_padded[OF r(2)] digits_value_padded[OF r(3)]
    digits_value_padded[OF c(1)] digits_value_padded[OF c(2)] digits_value_padded[OF c(3)]
    digits_value_padded[OF assms(5)]
  show ?thesis
  proof (cases "u = 0")
    case True
    then show ?thesis
      using assms v by (simp add: fromisoformat_utc_def Let_def all_digits_def[of "[]"]
          digits_value_def[of "[]"] del: padded.simps)
  next
    case False
    have "padded 6 u \<noteq> []" using length_padded[of 6 u] by (metis list.size(3) zero_neq_numeral)
    with False show ?thesis
      using assms v by (simp add: fromisoformat_utc_def Let_def del: padded.simps)
  qed
qed

lemma fromisoformat_isoformat:
  assumes "in_range t"
  shows "fromisoformat_utc (isoformat_utc t) = Inr t"
proof -
  note f = in_range_fields[OF assms]
  define D where "D = fromordinal (t div us_day + 1)"
  have D: "valid_date D" "toordinal D = t div us_day + 1"
    unfolding D_def by (rule fromordinal_valid[OF f(1,2)], rule toordinal_fromordinal[OF f(1,2)])
  obtain h m s u where c: "t mod us_day = us_hour * h + us_minute * m + us_second * s + u"
    "t mod us_day div us_hour = h" "t mod us_day div us_minute mod 60 = m"
    "t mod us_day div us_second mod 60 = s" "t mod us_day mod us_second = u"
    "0 \<le> h" "h < 24" "0 \<le> m" "m < 60" "0 \<le> s" "s < 60" "0 \<le> u" "u < us_second"
    using f(3,4) by (rule clock_fields)
  have nn: "int (nat (year D)) = year D" "int (nat (month D)) = month D" "int (nat (day D)) = day D"
    using D(1) by (auto simp: valid_date_def)
  then have DD: "mk_date (int (nat (year D))) (int (nat (month D))) (int (nat (day D))) = D"
    by simp
  have text_eq: "isoformat_utc t = padded 4 (nat (year D)) @ [45] @ padded 2 (nat (month D)) @ [45]
      @ padded 2 (nat (day D)) @ [84] @ padded 2 (nat h) @ [58] @ padded 2 (nat m) @ [58] @ padded 2 (nat s)
      @ (if nat u = 0 then [] else 46 # padded 6 (nat u)) @ [43,48,48,58,48,48]"
    unfolding isoformat_utc_def iso_date_def iso_clock_def iso_fraction_def c(2-5) D_def[symmetric]
    using c(12) by (simp del: padded.simps)
  have "fromisoformat_utc (isoformat_utc t) =
      Inr ((toordinal D - 1) * us_day + int (nat h) * us_hour + int (nat m) * us_minute
        + int (nat s) * us_second + int (nat u))"
    unfolding text_eq
    by (subst fromisoformat_utc_fields) (use DD D(1) c(6-13) in \<open>simp_all only: DD D nat_less_iff, auto\<close>)
  also have "\<dots> = Inr ((toordinal D - 1) * us_day + t mod us_day)"
    using c(1) c(6,8,10,12) by simp
  also have "\<dots> = Inr t" unfolding D(2) by simp
  finally show ?thesis .
qed

end
