(* ===== verification/Policy.thy ===== *)
theory Policy
  imports PyTime
begin

text \<open>
  Authorization of ordinary data, \<^verbatim>\<open>src/zhixu/domain/policy.py\<close>: the request context, the
  resource reference, the capability \<open>authorized_action\<close> that repository writes demand, and
  \<^verbatim>\<open>PolicyEngine.require\<close> as \<open>policy_require\<close>, whose grant lookup is an argument. The egress
  policy for model prompts (\<^verbatim>\<open>src/zhixu/security/egress.py\<close>) stands at the end.
\<close>

datatype action =
  LIST_METADATA | READ | CREATE | UPDATE | DELETE | USE | REVEAL | EXPORT | GRANT | ROTATE

datatype authentication_strength = AUTH_CHANNEL | AUTH_PASSWORD | AUTH_MFA | AUTH_STEP_UP

fun authentication_value :: "authentication_strength \<Rightarrow> int" where
  "authentication_value AUTH_CHANNEL = 0"
| "authentication_value AUTH_PASSWORD = 1"
| "authentication_value AUTH_MFA = 2"
| "authentication_value AUTH_STEP_UP = 3"

instantiation authentication_strength :: linorder
begin

definition less_eq_authentication_strength :: "authentication_strength \<Rightarrow> authentication_strength \<Rightarrow> bool" where
  "a \<le> b \<longleftrightarrow> authentication_value a \<le> authentication_value b"

definition less_authentication_strength :: "authentication_strength \<Rightarrow> authentication_strength \<Rightarrow> bool" where
  "a < b \<longleftrightarrow> authentication_value a < authentication_value b"

instance
proof
  fix x y :: authentication_strength
  assume "x \<le> y" "y \<le> x"
  then show "x = y"
    by (cases x; cases y) (auto simp: less_eq_authentication_strength_def)
qed (auto simp: less_eq_authentication_strength_def less_authentication_strength_def)

end

datatype request_channel = PRIVATE_CHAT | GROUP_CHAT | ADMIN_WEB | SERVICE

record command_context =
  actor_user_id :: pystr
  roles :: "pystr set"
  shared_owner_user_id :: "pystr option"
  readable_shared_owner_user_ids :: "pystr list"
  authentication :: authentication_strength
  request_channel :: request_channel
  confirmed :: bool
  context_now :: "datetime option"

definition new_command_context :: "command_context \<Rightarrow> command_context res" where
  "new_command_context c = guarded
     [(blank (actor_user_id c), ValidationError),
      (case shared_owner_user_id c of None \<Rightarrow> False | Some s \<Rightarrow> blank s, ValidationError),
      (list_ex blank (readable_shared_owner_user_ids c), ValidationError),
      (\<not> distinct (readable_shared_owner_user_ids c), ValidationError),
      (case context_now c of None \<Rightarrow> False | Some t \<Rightarrow> \<not> aware t, ValidationError)] c"

record resource_ref =
  resource_kind :: pystr
  resource_id :: pystr
  resource_owner :: pystr
  resource_classification :: data_classification

definition new_resource_ref :: "resource_ref \<Rightarrow> resource_ref res" where
  "new_resource_ref r = guarded
     [(blank (resource_kind r) \<or> blank (resource_id r) \<or> blank (resource_owner r), ValidationError)] r"

record authorized_action =
  auth_actor :: pystr
  auth_action :: action
  auth_resource :: resource_ref
  authorized_at :: datetime

type_synonym grant_lookup = "pystr \<Rightarrow> action \<Rightarrow> resource_ref \<Rightarrow> bool"

text \<open>The lookup a PolicyEngine built without one uses.\<close>

definition no_grants :: grant_lookup where
  "no_grants a x r = False"

definition policy_require :: "grant_lookup \<Rightarrow> command_context \<Rightarrow> action \<Rightarrow> resource_ref \<Rightarrow> authorized_action res" where
  "policy_require lookup ctx act res =
     (let c = resource_classification res;
          is_owner = (actor_user_id ctx = resource_owner res);
          is_internal_group_resource =
            (lit ''shared_workspace_member'' \<in> roles ctx
             \<and> resource_owner res \<in> set (readable_shared_owner_user_ids ctx));
          has_explicit_grant = lookup (actor_user_id ctx) act res
      in case raised
           [(not_ordinary c, ClassificationNotSupported),
            (act \<in> {USE, REVEAL, EXPORT, ROTATE}, PermissionDenied),
            (\<not> is_owner \<and> \<not> is_internal_group_resource \<and> \<not> has_explicit_grant, PermissionDenied),
            (c \<ge> CONFIDENTIAL \<and> request_channel ctx = GROUP_CHAT, PermissionDenied),
            (c \<ge> CONFIDENTIAL \<and> authentication ctx < AUTH_STEP_UP, PermissionDenied),
            (act = GRANT \<and> (authentication ctx < AUTH_STEP_UP \<or> request_channel ctx \<noteq> ADMIN_WEB),
             PermissionDenied),
            (act = DELETE \<and> \<not> confirmed ctx, ConfirmationRequired)]
         of Some e \<Rightarrow> Inl e
          | None \<Rightarrow> (case context_now ctx of None \<Rightarrow> Inl ValidationError
              | Some t \<Rightarrow> Inr \<lparr>auth_actor = actor_user_id ctx, auth_action = act,
                              auth_resource = res, authorized_at = t\<rparr>))"

section \<open>Model egress\<close>

record llm_egress_policy =
  allow_personal_to_external :: bool
  allow_confidential_to_local :: bool

definition egress_require :: "llm_egress_policy \<Rightarrow> data_classification \<Rightarrow> bool \<Rightarrow> unit res" where
  "egress_require p c provider_is_local =
     (if c \<ge> SECRET then Inl PermissionDenied
      else if c = CONFIDENTIAL then
        (if \<not> provider_is_local \<or> \<not> allow_confidential_to_local p then Inl PermissionDenied else Inr ())
      else if c = PERSONAL \<and> \<not> provider_is_local \<and> \<not> allow_personal_to_external p
        then Inl PermissionDenied
      else Inr ())"

text \<open>What a request must satisfy for the policy to mint a capability.\<close>

definition may_access :: "grant_lookup \<Rightarrow> command_context \<Rightarrow> action \<Rightarrow> resource_ref \<Rightarrow> bool" where
  "may_access lookup ctx act res \<longleftrightarrow>
     actor_user_id ctx = resource_owner res
     \<or> (lit ''shared_workspace_member'' \<in> roles ctx
        \<and> resource_owner res \<in> set (readable_shared_owner_user_ids ctx))
     \<or> lookup (actor_user_id ctx) act res"

section \<open>Properties\<close>

lemma step_up_less_iff [simp]: "a < AUTH_STEP_UP \<longleftrightarrow> a \<noteq> AUTH_STEP_UP"
  by (cases a) (simp_all add: less_authentication_strength_def)

lemma policy_require_Inr:
  "policy_require lookup ctx act res = Inr a \<longleftrightarrow>
     resource_classification res \<in> {PUBLIC, PERSONAL, CONFIDENTIAL}
     \<and> act \<notin> {USE, REVEAL, EXPORT, ROTATE}
     \<and> may_access lookup ctx act res
     \<and> (resource_classification res = CONFIDENTIAL
          \<longrightarrow> request_channel ctx \<noteq> GROUP_CHAT \<and> authentication ctx = AUTH_STEP_UP)
     \<and> (act = GRANT \<longrightarrow> authentication ctx = AUTH_STEP_UP \<and> request_channel ctx = ADMIN_WEB)
     \<and> (act = DELETE \<longrightarrow> confirmed ctx)
     \<and> context_now ctx = Some (authorized_at a)
     \<and> auth_actor a = actor_user_id ctx \<and> auth_action a = act \<and> auth_resource a = res"
proof -
  have c: "c \<in> {PUBLIC, PERSONAL, CONFIDENTIAL} \<longleftrightarrow> \<not> not_ordinary c" for c by (cases c) simp_all
  show ?thesis
    unfolding c policy_require_def Let_def may_access_def
    by (cases a; cases "resource_classification res") (auto split: option.splits)
qed

text \<open>
  C3. The policy engine is default-deny and complete: it returns a capability exactly when the
  resource is ordinary data, the action exists for ordinary storage, the actor is the owner,
  an entitled workspace member or holds a grant, confidential data is requested with step-up
  authentication outside group chats, grants come from the admin web with step-up, deletions
  are confirmed and a current time was injected; and the capability names that actor, action,
  resource and time.
\<close>

theorem policy_require_iff:
  "policy_require lookup ctx act res = Inr a \<longleftrightarrow>
     resource_classification res \<in> {PUBLIC, PERSONAL, CONFIDENTIAL}
     \<and> act \<in> {LIST_METADATA, READ, CREATE, UPDATE, DELETE, GRANT}
     \<and> (actor_user_id ctx = resource_owner res
        \<or> lookup (actor_user_id ctx) act res
        \<or> (lit ''shared_workspace_member'' \<in> roles ctx
            \<and> resource_owner res \<in> set (readable_shared_owner_user_ids ctx)))
     \<and> (resource_classification res \<noteq> CONFIDENTIAL
        \<or> (request_channel ctx \<in> {PRIVATE_CHAT, ADMIN_WEB, SERVICE} \<and> authentication ctx = AUTH_STEP_UP))
     \<and> (act \<noteq> GRANT \<or> (authentication ctx = AUTH_STEP_UP \<and> request_channel ctx = ADMIN_WEB))
     \<and> (act \<noteq> DELETE \<or> confirmed ctx)
     \<and> context_now ctx = Some (authorized_at a)
     \<and> auth_actor a = actor_user_id ctx \<and> auth_action a = act \<and> auth_resource a = res"
  unfolding policy_require_Inr may_access_def
  by (cases act; cases "request_channel ctx") auto

text \<open>A confirmed deletion of confidential data by its owner, from the admin web with step-up.\<close>

theorem policy_require_iff_witness:
  "policy_require no_grants
     \<lparr>actor_user_id = lit ''u'', roles = {}, shared_owner_user_id = None,
      readable_shared_owner_user_ids = [], authentication = AUTH_STEP_UP,
      request_channel = ADMIN_WEB, confirmed = True, context_now = Some (utc 0)\<rparr> DELETE
     \<lparr>resource_kind = lit ''task'', resource_id = lit ''t'', resource_owner = lit ''u'',
      resource_classification = CONFIDENTIAL\<rparr>
   = Inr \<lparr>auth_actor = lit ''u'', auth_action = DELETE,
          auth_resource = \<lparr>resource_kind = lit ''task'', resource_id = lit ''t'',
             resource_owner = lit ''u'', resource_classification = CONFIDENTIAL\<rparr>,
          authorized_at = utc 0\<rparr>"
  unfolding policy_require_iff by simp

text \<open>
  A higher classification never inherits the more permissive handling of a lower one:
  whatever the engine allows for a resource it also allows when the same resource carries a
  lower classification, for every lookup that does not depend on the classification.
\<close>

lemma policy_antitone_in_classification:
  assumes "\<And>a x r c. lookup a x (r\<lparr>resource_classification := c\<rparr>) = lookup a x r"
    and "policy_require lookup ctx act res = Inr a"
    and "c \<le> resource_classification res"
  shows "policy_require lookup ctx act (res\<lparr>resource_classification := c\<rparr>)
     = Inr (a\<lparr>auth_resource := res\<lparr>resource_classification := c\<rparr>\<rparr>)"
  using assms unfolding policy_require_Inr may_access_def
  by (cases c; cases "resource_classification res") (auto simp: classification_order_defs)

lemma policy_require_capability:
  assumes "policy_require lookup ctx act res = Inr a"
  shows "auth_action a = act" "auth_resource a = res" "auth_actor a = actor_user_id ctx"
    "context_now ctx = Some (authorized_at a)"
  using assms unfolding policy_require_Inr by auto

text \<open>
  Secrets and prohibited data never reach a model prompt, and confidential data reaches
  only a local provider that was explicitly enabled for it: the egress policy accepts a
  classification exactly under those conditions.
\<close>

lemma egress_require_iff:
  "egress_require p c local_provider = Inr () \<longleftrightarrow>
     c = PUBLIC
     \<or> (c = PERSONAL \<and> (local_provider \<or> allow_personal_to_external p))
     \<or> (c = CONFIDENTIAL \<and> local_provider \<and> allow_confidential_to_local p)"
  by (cases c) (simp_all add: egress_require_def)

end
