(* ===== verification/Entities.thy ===== *)
theory Entities
  imports Policy
begin

text \<open>
  The frozen dataclasses of \<^verbatim>\<open>src/zhixu/domain\<close> (identity, action links, notes, reminders,
  scheduled jobs) and the channel contracts of \<^verbatim>\<open>src/zhixu/channels/contracts.py\<close>. Each is a
  record with the source's fields and a constructor \<open>new_\<dots>\<close> that is its \<^verbatim>\<open>__post_init__\<close>: the
  guards in source order, the record itself when none raises. Three things are arguments: the
  time zone database, \<^verbatim>\<open>urllib.parse.urlsplit\<close> (its scheme, host name, user name and password, or
  None for ValueError) and \<^verbatim>\<open>dateutil.rrule.rrulestr\<close> (whether it accepts a rule).
\<close>

section \<open>Shared guards\<close>

definition require_aware :: "datetime \<Rightarrow> unit res" where
  "require_aware t = guarded [(\<not> aware t, ValidationError)] ()"

definition naive_opt :: "datetime option \<Rightarrow> bool" where
  "naive_opt t = (case t of None \<Rightarrow> False | Some d \<Rightarrow> \<not> aware d)"

definition require_timezone :: "tzdb \<Rightarrow> pystr \<Rightarrow> unit res" where
  "require_timezone db z = guarded [(\<not> z_known db z, ValidationError)] ()"

definition blank_opt :: "pystr option \<Rightarrow> bool" where
  "blank_opt s = (case s of None \<Rightarrow> False | Some t \<Rightarrow> blank t)"

text \<open>A \<^verbatim>\<open>datetime.time\<close>: microseconds of the day and whether it carries a tzinfo.\<close>

record pytime =
  tod :: micros
  tod_tz :: "tzinfo option"

text \<open>The database that knows UTC only, for concrete evaluations.\<close>

definition utc_only :: tzdb where
  "utc_only = \<lparr>z_known = (\<lambda>z. z = lit ''UTC''), z_offset_utc = (\<lambda>z t. 0), z_fold_utc = (\<lambda>z t. False),
     z_offset_wall = (\<lambda>z t f. 0)\<rparr>"

section \<open>Identity\<close>

datatype user_status = USER_ACTIVE | USER_DISABLED

record user =
  user_id :: pystr
  display_name :: pystr
  user_status :: user_status
  user_created_at :: datetime

definition new_user :: "user \<Rightarrow> user res" where
  "new_user u = guarded
     [(blank (user_id u), ValidationError),
      (blank (display_name u), ValidationError),
      (\<not> aware (user_created_at u), ValidationError)] u"

record encrypted_identifier =
  enc_value :: pystr

definition new_encrypted_identifier :: "encrypted_identifier \<Rightarrow> encrypted_identifier res" where
  "new_encrypted_identifier e = guarded [(\<not> starts_with (enc_value e) (lit ''enc:''), ValidationError)] e"

record external_identity =
  identity_id :: pystr
  identity_user_id :: pystr
  identity_channel :: pystr
  identity_channel_account :: pystr
  encrypted_subject :: encrypted_identifier
  opaque_ref :: pystr
  identity_created_at :: datetime

definition new_external_identity :: "external_identity \<Rightarrow> external_identity res" where
  "new_external_identity i = guarded
     [(list_ex blank [identity_id i, identity_user_id i, identity_channel i,
         identity_channel_account i, opaque_ref i], ValidationError),
      (\<not> aware (identity_created_at i), ValidationError)] i"

section \<open>Action links\<close>

record split_url =
  url_scheme :: pystr
  url_hostname :: "pystr option"
  url_username :: "pystr option"
  url_password :: "pystr option"

type_synonym urlsplit = "pystr \<Rightarrow> split_url option"

record action_link =
  link_label :: pystr
  link_url :: pystr

definition ascii_lower :: "pystr \<Rightarrow> pystr" where
  "ascii_lower s = map (\<lambda>c. if 65 \<le> c \<and> c \<le> 90 then c + 32 else c) s"

text \<open>\<^verbatim>\<open>parsed.scheme.lower()\<close>: a scheme is ASCII, so lowering its ASCII letters is enough.\<close>

definition new_action_link :: "urlsplit \<Rightarrow> action_link \<Rightarrow> action_link res" where
  "new_action_link split l = guarded
     [(blank (link_label l) \<or> length (link_label l) > 40, ValidationError),
      (blank (link_url l) \<or> length (link_url l) > 2048, ValidationError),
      (list_ex (\<lambda>c. c < 32) (link_url l), ValidationError),
      (case split (link_url l) of None \<Rightarrow> True
         | Some p \<Rightarrow> ascii_lower (url_scheme p) \<noteq> lit ''https''
             \<or> url_hostname p = None \<or> url_hostname p = Some []
             \<or> url_username p \<noteq> None \<or> url_password p \<noteq> None, ValidationError)] l"

section \<open>Notes\<close>

record note_attachment =
  att_id :: pystr
  att_filename :: pystr
  att_media_type :: pystr
  att_size_bytes :: int
  att_content_ref :: pystr

definition new_note_attachment :: "note_attachment \<Rightarrow> note_attachment res" where
  "new_note_attachment a = guarded
     [(blank (att_id a) \<or> length (att_id a) > 160
         \<or> blank (att_filename a) \<or> length (att_filename a) > 500
         \<or> blank (att_media_type a) \<or> length (att_media_type a) > 200
         \<or> blank (att_content_ref a) \<or> length (att_content_ref a) > 500, ValidationError),
      (att_size_bytes a < 0 \<or> att_size_bytes a > 10 * 1024 * 1024 * 1024, ValidationError)] a"

record note_field =
  field_name :: pystr
  field_value :: pystr

definition new_note_field :: "note_field \<Rightarrow> note_field res" where
  "new_note_field f = guarded
     [(blank (field_name f) \<or> length (field_name f) > 80, ValidationError),
      (blank (field_value f) \<or> length (field_value f) > 200000, ValidationError)] f"

record note_content_block =
  block_name :: pystr
  block_body :: pystr
  block_fields :: "note_field list"
  block_id :: pystr

definition new_note_content_block :: "note_content_block \<Rightarrow> note_content_block res" where
  "new_note_content_block b = guarded
     [(blank (block_name b) \<or> length (block_name b) > 120, ValidationError),
      (block_id b \<noteq> [] \<and> length (block_id b) > 160, ValidationError),
      (length (block_body b) > 200000 \<or> (blank (block_body b) \<and> block_fields b = []), ValidationError),
      (\<not> distinct (map field_name (block_fields b)), ValidationError)] b"

record note_entity =
  note_id :: pystr
  note_owner :: pystr
  note_title :: pystr
  note_body :: pystr
  category_path :: "pystr list"
  content_blocks :: "note_content_block list"
  note_creator :: "pystr option"
  note_tags :: "pystr list"
  note_attachments :: "note_attachment list"
  note_classification :: data_classification
  note_version :: int
  note_created_at :: "datetime option"
  note_updated_at :: "datetime option"

definition new_note :: "note_entity \<Rightarrow> note_entity res" where
  "new_note n = guarded
     [(blank (note_id n) \<or> blank (note_owner n), ValidationError),
      (blank_opt (note_creator n), ValidationError),
      (blank (note_title n) \<and> blank (note_body n), ValidationError),
      (category_path n = [] \<or> length (category_path n) > 8, ValidationError),
      (list_ex (\<lambda>p. blank p \<or> length p > 80) (category_path n), ValidationError),
      (\<not> distinct (filter (\<lambda>i. i \<noteq> []) (map block_id (content_blocks n))), ValidationError),
      (note_version n < 1, ValidationError),
      (naive_opt (note_created_at n), ValidationError),
      (naive_opt (note_updated_at n), ValidationError),
      (list_ex blank (note_tags n), ValidationError),
      (\<not> distinct (note_tags n), ValidationError),
      (\<not> distinct (map att_id (note_attachments n)), ValidationError),
      (not_ordinary (note_classification n), ClassificationNotSupported)] n"

section \<open>Reminders\<close>

datatype reminder_status = REM_PENDING | REM_FIRED | REM_CANCELLED
datatype missed_reminder_policy = MISSED_FIRE | MISSED_SKIP

record reminder =
  rem_id :: pystr
  rem_owner :: pystr
  rem_title :: pystr
  fire_at :: datetime
  rem_target_ref :: pystr
  rem_creator :: "pystr option"
  rem_action_links :: "action_link list"
  rem_status :: reminder_status
  missed_policy :: missed_reminder_policy
  rem_classification :: data_classification
  related_kind :: "pystr option"
  related_id :: "pystr option"
  related_start_at :: "datetime option"
  rem_timezone :: "pystr option"
  rem_version :: int
  rem_created_at :: "datetime option"
  rem_updated_at :: "datetime option"

definition new_reminder :: "tzdb \<Rightarrow> reminder \<Rightarrow> reminder res" where
  "new_reminder db r = guarded
     [(list_ex blank [rem_id r, rem_owner r, rem_title r, rem_target_ref r], ValidationError),
      (blank_opt (rem_creator r), ValidationError),
      (\<not> aware (fire_at r), ValidationError),
      ((related_kind r = None) \<noteq> (related_id r = None), ValidationError),
      (case rem_timezone r of None \<Rightarrow> False | Some z \<Rightarrow> \<not> z_known db z, ValidationError),
      (naive_opt (related_start_at r), ValidationError),
      (related_start_at r \<noteq> None \<and> related_id r = None, ValidationError),
      (rem_version r < 1, ValidationError),
      (not_ordinary (rem_classification r), ClassificationNotSupported),
      (length (rem_action_links r) > 8, ValidationError)] r"

section \<open>Scheduled jobs\<close>

datatype job_run_status = JOB_PENDING | JOB_RUNNING | JOB_COMPLETED | JOB_FAILED | JOB_SKIPPED

record scheduled_job =
  job_id :: pystr
  job_owner :: pystr
  job_kind :: pystr
  schedule_spec :: pystr
  job_timezone :: pystr
  job_enabled :: bool
  job_created_at :: "datetime option"
  job_updated_at :: "datetime option"

definition new_scheduled_job :: "tzdb \<Rightarrow> (pystr \<Rightarrow> bool) \<Rightarrow> scheduled_job \<Rightarrow> scheduled_job res" where
  "new_scheduled_job db rrule_ok j = guarded
     [(list_ex blank [job_id j, job_owner j, job_kind j, schedule_spec j], ValidationError),
      (\<not> z_known db (job_timezone j), ValidationError),
      (\<not> rrule_ok (schedule_spec j), ValidationError)] j"

record job_run =
  run_id :: pystr
  run_job_id :: pystr
  scheduled_for :: datetime
  run_status :: job_run_status
  started_at :: "datetime option"
  completed_at :: "datetime option"
  run_error_code :: pystr

definition new_job_run :: "job_run \<Rightarrow> job_run res" where
  "new_job_run j = guarded
     [(blank (run_id j) \<or> blank (run_job_id j), ValidationError),
      (\<not> aware (scheduled_for j), ValidationError),
      (naive_opt (started_at j), ValidationError),
      (naive_opt (completed_at j), ValidationError)] j"

section \<open>Channel contracts\<close>

datatype conversation_kind = CONV_PRIVATE | CONV_GROUP | CONV_CHANNEL
datatype message_kind = MSG_TEXT | MSG_MARKDOWN | MSG_BUTTON | MSG_ATTACHMENT | MSG_VOICE
datatype button_action_kind = BTN_COMMAND | BTN_OPEN_URL

record channel_capabilities =
  inbound_text :: bool
  outbound_text :: bool
  cap_markdown :: bool
  proactive_push :: bool
  cap_buttons :: bool
  cap_attachments :: bool
  cap_voice :: bool
  cap_groups :: bool

record inbound_event =
  event_id :: pystr
  ev_channel :: pystr
  ev_channel_account :: pystr
  external_actor_ref :: pystr
  external_conversation_ref :: pystr
  ev_conversation_kind :: conversation_kind
  ev_message_kind :: message_kind
  received_at :: datetime
  ev_text :: "pystr option"

definition new_inbound_event :: "inbound_event \<Rightarrow> inbound_event res" where
  "new_inbound_event e = guarded
     [(list_ex blank [event_id e, ev_channel e, ev_channel_account e, external_actor_ref e,
         external_conversation_ref e], ValidationError),
      (\<not> aware (received_at e), ValidationError),
      (ev_message_kind e = MSG_TEXT \<and> blank (case ev_text e of None \<Rightarrow> [] | Some t \<Rightarrow> t),
       ValidationError)] e"

record message_button =
  btn_label :: pystr
  btn_action :: pystr
  btn_kind :: button_action_kind

definition new_message_button :: "message_button \<Rightarrow> message_button res" where
  "new_message_button b = guarded [(blank (btn_label b) \<or> blank (btn_action b), ValidationError)] b"

record calendar_preview =
  cal_year :: int
  cal_month :: int
  busy_day_counts :: "(int \<times> int) list"
  today_day :: "int option"

definition new_calendar_preview :: "calendar_preview \<Rightarrow> calendar_preview res" where
  "new_calendar_preview c =
     (let maximum_day = days_in_month (cal_year c) (cal_month c);
          days = map fst (busy_day_counts c)
      in guarded
        [(\<not> (1970 \<le> cal_year c \<and> cal_year c \<le> 2100) \<or> \<not> (1 \<le> cal_month c \<and> cal_month c \<le> 12),
          ValidationError),
         (case today_day c of None \<Rightarrow> False | Some d \<Rightarrow> \<not> (1 \<le> d \<and> d \<le> maximum_day), ValidationError),
         (\<not> distinct days \<or> \<not> sorted days
            \<or> list_ex (\<lambda>(d, n). \<not> (1 \<le> d \<and> d \<le> maximum_day) \<or> \<not> (1 \<le> n \<and> n \<le> 999)) (busy_day_counts c),
          ValidationError)] c)"

text \<open>An entry is (start minute, end minute, kind, title).\<close>

type_synonym preview_entry = "int \<times> int \<times> pystr \<times> pystr"

record daily_agenda_preview =
  dap_year :: int
  dap_month :: int
  dap_day :: int
  dap_entries :: "preview_entry list"
  anniversary_day_numbers :: "int list"

definition bad_preview_entry :: "preview_entry \<Rightarrow> bool" where
  "bad_preview_entry e = (case e of (s, t, k, title) \<Rightarrow>
     \<not> (0 \<le> s \<and> s < 1440) \<or> \<not> (s < t \<and> t \<le> 1440)
     \<or> k \<notin> {lit ''agenda'', lit ''reminder''} \<or> length title > 60)"

definition new_daily_agenda_preview :: "daily_agenda_preview \<Rightarrow> daily_agenda_preview res" where
  "new_daily_agenda_preview p = guarded
     [(\<not> valid_date (mk_date (dap_year p) (dap_month p) (dap_day p)), ValidationError),
      (list_ex bad_preview_entry (dap_entries p), ValidationError),
      (list_ex (\<lambda>n. n < 1) (anniversary_day_numbers p), ValidationError)] p"

record outbound_message =
  msg_channel :: pystr
  msg_channel_account :: pystr
  msg_target_ref :: pystr
  msg_kind :: message_kind
  msg_text :: pystr
  msg_buttons :: "message_button list"
  attachment_url :: "pystr option"
  reply_context_ref :: pystr
  msg_classification :: data_classification
  msg_calendar_preview :: "calendar_preview option"
  msg_daily_agenda_preview :: "daily_agenda_preview option"

definition new_outbound_message :: "outbound_message \<Rightarrow> outbound_message res" where
  "new_outbound_message m = guarded
     [(blank (msg_channel m) \<or> blank (msg_channel_account m), ValidationError),
      (blank (msg_target_ref m), ValidationError),
      (blank (msg_text m) \<and> attachment_url m = None \<and> msg_calendar_preview m = None
         \<and> msg_daily_agenda_preview m = None, ValidationError),
      (length (reply_context_ref m) > 160, ValidationError),
      (msg_classification m > CONFIDENTIAL, ValidationError)] m"

record channel_delivery_result =
  delivery_ok :: bool
  retryable :: bool
  provider_code :: pystr
  provider_message_id :: pystr

section \<open>Properties\<close>

lemmas entity_defs =
  new_note_def new_reminder_def new_outbound_message_def new_user_def new_message_button_def
  new_calendar_preview_def new_daily_agenda_preview_def

lemma new_outbound_message_ok:
  "new_outbound_message m = Inr m' \<Longrightarrow> m' = m \<and> \<not> blank (msg_channel m)
     \<and> \<not> blank (msg_channel_account m) \<and> \<not> blank (msg_target_ref m)
     \<and> length (reply_context_ref m) \<le> 160
     \<and> msg_classification m \<in> {PUBLIC, PERSONAL, CONFIDENTIAL}"
  unfolding new_outbound_message_def guarded_Inr
  by (cases "msg_classification m") (auto split: if_splits)

end
