(* ===== verification/Json.thy ===== *)
theory Json
  imports Errors
begin

text \<open>
  JSON values as Python's \<^verbatim>\<open>json\<close> module reads them into dicts, lists and scalars, and the
  accessors the program applies to them. \<open>KeyErr\<close> stands for a failed look-up (KeyError and
  IndexError), \<open>TypeErr\<close> for a value of a kind the program never writes there.
\<close>

datatype json = JNull | JBool bool | JInt int | JStr pystr | JArr "json list" | JObj "(pystr \<times> json) list"

text \<open>\<^verbatim>\<open>value.get(key)\<close>, \<^verbatim>\<open>value[key]\<close>, \<^verbatim>\<open>value[index]\<close>, \<^verbatim>\<open>int(value)\<close>, \<^verbatim>\<open>str(value)\<close> and truth.\<close>

fun json_get :: "pystr \<Rightarrow> json \<Rightarrow> json option" where
  "json_get k (JObj kvs) = map_of kvs k"
| "json_get k _ = None"

definition json_item :: "pystr \<Rightarrow> json \<Rightarrow> json res" where
  "json_item k j = (case json_get k j of Some v \<Rightarrow> Inr v | None \<Rightarrow> Inl KeyErr)"

fun json_nth :: "nat \<Rightarrow> json \<Rightarrow> json res" where
  "json_nth i (JArr xs) = (if i < length xs then Inr (xs ! i) else Inl KeyErr)"
| "json_nth i _ = Inl TypeErr"

fun json_int :: "json \<Rightarrow> int res" where
  "json_int (JInt n) = Inr n"
| "json_int _ = Inl TypeErr"

fun json_str :: "json \<Rightarrow> pystr res" where
  "json_str (JStr s) = Inr s"
| "json_str _ = Inl TypeErr"

fun json_list :: "json option \<Rightarrow> json list res" where
  "json_list None = Inr []"
| "json_list (Some (JArr xs)) = Inr xs"
| "json_list (Some _) = Inl TypeErr"

fun falsy :: "json option \<Rightarrow> bool" where
  "falsy None = True"
| "falsy (Some JNull) = True"
| "falsy (Some (JBool b)) = (\<not> b)"
| "falsy (Some (JInt n)) = (n = 0)"
| "falsy (Some (JStr s)) = (s = [])"
| "falsy (Some (JArr xs)) = (xs = [])"
| "falsy (Some (JObj kvs)) = (kvs = [])"

text \<open>\<^verbatim>\<open>str(a or b or "")\<close>.\<close>

fun json_first :: "json option list \<Rightarrow> pystr res" where
  "json_first [] = Inr []"
| "json_first (v # vs) = (if falsy v then json_first vs else json_str (the v))"

fun json_opt :: "('a \<Rightarrow> json) \<Rightarrow> 'a option \<Rightarrow> json" where
  "json_opt f None = JNull"
| "json_opt f (Some x) = f x"

section \<open>Enumerations stored by value\<close>

text \<open>Enum look-up by value, which raises ValueError.\<close>

definition enum_of :: "('a \<Rightarrow> pystr) \<Rightarrow> 'a list \<Rightarrow> pystr \<Rightarrow> 'a res" where
  "enum_of val xs s = (case find (\<lambda>x. val x = s) xs of Some x \<Rightarrow> Inr x | None \<Rightarrow> Inl ValueErr)"

end
