(* ===== verification/OutboxMessage.thy ===== *)
theory OutboxMessage
  imports Entities Json
begin

text \<open>
  How the outbox stores a message, \<^verbatim>\<open>_message_json\<close> and \<^verbatim>\<open>_message_from_row\<close> of
  \<^verbatim>\<open>src/zhixu/delivery/outbox.py\<close>. The column \<^verbatim>\<open>payload_json\<close> holds a JSON value, since
  \<^verbatim>\<open>json.loads\<close> inverts \<^verbatim>\<open>json.dumps\<close> on the values written.
\<close>

section \<open>Enumerations\<close>

fun message_kind_value :: "message_kind \<Rightarrow> pystr" where
  "message_kind_value MSG_TEXT = lit ''text''"
| "message_kind_value MSG_MARKDOWN = lit ''markdown''"
| "message_kind_value MSG_BUTTON = lit ''button''"
| "message_kind_value MSG_ATTACHMENT = lit ''attachment''"
| "message_kind_value MSG_VOICE = lit ''voice''"

fun button_kind_value :: "button_action_kind \<Rightarrow> pystr" where
  "button_kind_value BTN_COMMAND = lit ''command''"
| "button_kind_value BTN_OPEN_URL = lit ''open_url''"

definition message_kind_of :: "pystr \<Rightarrow> message_kind res" where
  "message_kind_of = enum_of message_kind_value [MSG_TEXT, MSG_MARKDOWN, MSG_BUTTON, MSG_ATTACHMENT, MSG_VOICE]"

definition button_kind_of :: "pystr \<Rightarrow> button_action_kind res" where
  "button_kind_of = enum_of button_kind_value [BTN_COMMAND, BTN_OPEN_URL]"

section \<open>Writing\<close>

definition button_json :: "message_button \<Rightarrow> json" where
  "button_json b = JObj [(lit ''label'', JStr (btn_label b)), (lit ''action'', JStr (btn_action b)),
     (lit ''kind'', JStr (button_kind_value (btn_kind b)))]"

definition calendar_json :: "calendar_preview \<Rightarrow> json" where
  "calendar_json c = JObj [(lit ''year'', JInt (cal_year c)), (lit ''month'', JInt (cal_month c)),
     (lit ''busy_day_counts'', JArr (map (\<lambda>(d, n). JArr [JInt d, JInt n]) (busy_day_counts c))),
     (lit ''today_day'', json_opt JInt (today_day c))]"

definition daily_json :: "daily_agenda_preview \<Rightarrow> json" where
  "daily_json p = JObj [(lit ''year'', JInt (dap_year p)), (lit ''month'', JInt (dap_month p)), (lit ''day'', JInt (dap_day p)),
     (lit ''entries'', JArr (map (\<lambda>(s, e, k, t). JArr [JInt s, JInt e, JStr k, JStr t]) (dap_entries p))),
     (lit ''anniversary_day_numbers'', JArr (map JInt (anniversary_day_numbers p)))]"

definition message_json :: "outbound_message \<Rightarrow> json" where
  "message_json m = JObj [(lit ''text'', JStr (msg_text m)),
     (lit ''buttons'', JArr (map button_json (msg_buttons m))),
     (lit ''attachment_url'', json_opt JStr (attachment_url m)),
     (lit ''calendar_preview'', json_opt calendar_json (msg_calendar_preview m)),
     (lit ''daily_agenda_preview'', json_opt daily_json (msg_daily_agenda_preview m)),
     (lit ''reply_context_ref'', JStr (reply_context_ref m))]"

section \<open>Reading\<close>

definition button_of_json :: "json \<Rightarrow> message_button res" where
  "button_of_json j = and_then (and_then (json_item (lit ''label'') j) json_str) (\<lambda>l.
     and_then (and_then (json_item (lit ''action'') j) json_str) (\<lambda>a.
     and_then (if falsy (json_get (lit ''kind'') j) then Inr (lit ''command'')
               else json_str (the (json_get (lit ''kind'') j))) (\<lambda>k.
     and_then (button_kind_of k) (\<lambda>kind.
       new_message_button \<lparr>btn_label = l, btn_action = a, btn_kind = kind\<rparr>))))"

definition pair_of_json :: "json \<Rightarrow> (int \<times> int) res" where
  "pair_of_json j = and_then (and_then (json_nth 0 j) json_int) (\<lambda>a.
     and_then (and_then (json_nth 1 j) json_int) (\<lambda>b. Inr (a, b)))"

definition calendar_of_json :: "json option \<Rightarrow> calendar_preview option res" where
  "calendar_of_json v = (case v of
       Some (JObj kvs) \<Rightarrow> (let j = JObj kvs in
         and_then (and_then (json_item (lit ''year'') j) json_int) (\<lambda>y.
         and_then (and_then (json_item (lit ''month'') j) json_int) (\<lambda>mo.
         and_then (and_then (json_list (json_get (lit ''busy_day_counts'') j)) (map_res pair_of_json)) (\<lambda>bs.
         and_then (case json_get (lit ''today_day'') j of
              None \<Rightarrow> Inr None | Some JNull \<Rightarrow> Inr None
            | Some t \<Rightarrow> and_then (json_int t) (\<lambda>n. Inr (Some n))) (\<lambda>t.
         and_then (new_calendar_preview \<lparr>cal_year = y, cal_month = mo, busy_day_counts = bs, today_day = t\<rparr>)
           (\<lambda>c. Inr (Some c)))))))
     | _ \<Rightarrow> Inr None)"

definition entry_of_json :: "json \<Rightarrow> preview_entry res" where
  "entry_of_json j = and_then (and_then (json_nth 0 j) json_int) (\<lambda>s.
     and_then (and_then (json_nth 1 j) json_int) (\<lambda>e.
     and_then (and_then (json_nth 2 j) json_str) (\<lambda>k.
     and_then (if is_ok (json_nth 3 j) then and_then (json_nth 3 j) json_str else Inr []) (\<lambda>t.
       Inr (s, e, k, t)))))"

definition daily_of_json :: "json option \<Rightarrow> daily_agenda_preview option res" where
  "daily_of_json v = (case v of
       Some (JObj kvs) \<Rightarrow> (let j = JObj kvs in
         and_then (and_then (json_item (lit ''year'') j) json_int) (\<lambda>y.
         and_then (and_then (json_item (lit ''month'') j) json_int) (\<lambda>mo.
         and_then (and_then (json_item (lit ''day'') j) json_int) (\<lambda>d.
         and_then (and_then (json_list (json_get (lit ''entries'') j)) (map_res entry_of_json)) (\<lambda>es.
         and_then (and_then (json_list (json_get (lit ''anniversary_day_numbers'') j)) (map_res json_int)) (\<lambda>ns.
         and_then (new_daily_agenda_preview
             \<lparr>dap_year = y, dap_month = mo, dap_day = d, dap_entries = es, anniversary_day_numbers = ns\<rparr>)
           (\<lambda>p. Inr (Some p))))))))
     | _ \<Rightarrow> Inr None)"

definition url_of_json :: "json option \<Rightarrow> pystr option res" where
  "url_of_json v = (case v of None \<Rightarrow> Inr None | Some JNull \<Rightarrow> Inr None
     | Some j \<Rightarrow> and_then (json_str j) (\<lambda>s. Inr (Some s)))"

text \<open>\<^verbatim>\<open>_message_from_row\<close> on the columns it reads.\<close>

definition message_from_columns ::
  "pystr \<Rightarrow> pystr \<Rightarrow> pystr \<Rightarrow> pystr \<Rightarrow> json \<Rightarrow> int \<Rightarrow> outbound_message res" where
  "message_from_columns chan account target kind payload cls =
     and_then (message_kind_of kind) (\<lambda>k.
     and_then (json_first [json_get (lit ''text'') payload, json_get (lit ''title'') payload]) (\<lambda>text.
     and_then (and_then (json_list (json_get (lit ''buttons'') payload)) (map_res button_of_json)) (\<lambda>bs.
     and_then (url_of_json (json_get (lit ''attachment_url'') payload)) (\<lambda>url.
     and_then (calendar_of_json (json_get (lit ''calendar_preview'') payload)) (\<lambda>cal.
     and_then (daily_of_json (json_get (lit ''daily_agenda_preview'') payload)) (\<lambda>daily.
     and_then (json_first [json_get (lit ''reply_context_ref'') payload]) (\<lambda>reply.
     and_then (classification_of cls) (\<lambda>c.
       new_outbound_message \<lparr>msg_channel = chan, msg_channel_account = account, msg_target_ref = target,
         msg_kind = k, msg_text = text, msg_buttons = bs, attachment_url = url, reply_context_ref = reply,
         msg_classification = c, msg_calendar_preview = cal, msg_daily_agenda_preview = daily\<rparr>))))))))"

text \<open>A message object: it and the values in it were accepted by their constructors.\<close>

definition message_object :: "outbound_message \<Rightarrow> bool" where
  "message_object m \<longleftrightarrow> new_outbound_message m = Inr m
     \<and> list_all (\<lambda>b. new_message_button b = Inr b) (msg_buttons m)
     \<and> (case msg_calendar_preview m of None \<Rightarrow> True | Some c \<Rightarrow> new_calendar_preview c = Inr c)
     \<and> (case msg_daily_agenda_preview m of None \<Rightarrow> True | Some p \<Rightarrow> new_daily_agenda_preview p = Inr p)"

section \<open>Lemmas\<close>

lemma kind_round_trip [simp]: "message_kind_of (message_kind_value k) = Inr k"
  by (cases k) (simp_all add: message_kind_of_def enum_of_def lit_def)

lemma button_kind_round_trip [simp]:
  "button_kind_of (button_kind_value k) = Inr k" "button_kind_value k \<noteq> []"
  by (cases k; simp add: button_kind_of_def enum_of_def lit_def)+

lemma button_round_trip: "new_message_button b = Inr b \<Longrightarrow> button_of_json (button_json b) = Inr b"
  by (cases b) (simp add: button_of_json_def button_json_def json_item_def lit_def)

lemma pairs_round_trip: "map_res pair_of_json (map (\<lambda>(d, n). JArr [JInt d, JInt n]) xs) = Inr xs"
  unfolding map_res_map by (rule map_res_id) (auto simp: pair_of_json_def)

lemma entries_round_trip:
  "map_res entry_of_json (map (\<lambda>(s, e, k, t). JArr [JInt s, JInt e, JStr k, JStr t]) xs) = Inr xs"
  unfolding map_res_map by (rule map_res_id) (auto simp: entry_of_json_def numeral_eq_Suc)

lemma ints_round_trip: "map_res json_int (map JInt xs) = Inr xs"
  unfolding map_res_map by (rule map_res_id) simp

lemma calendar_round_trip:
  "new_calendar_preview c = Inr c \<Longrightarrow> calendar_of_json (Some (calendar_json c)) = Inr (Some c)"
  by (cases c; cases "today_day c")
    (simp_all add: calendar_of_json_def calendar_json_def json_item_def lit_def pairs_round_trip)

lemma daily_round_trip:
  "new_daily_agenda_preview p = Inr p \<Longrightarrow> daily_of_json (Some (daily_json p)) = Inr (Some p)"
  by (cases p) (simp add: daily_of_json_def daily_json_def json_item_def lit_def entries_round_trip ints_round_trip)

lemma message_columns_round_trip:
  assumes "message_object m"
  shows "message_from_columns (msg_channel m) (msg_channel_account m) (msg_target_ref m)
     (message_kind_value (msg_kind m)) (message_json m) (classification_value (msg_classification m)) = Inr m"
proof -
  have eta: "\<lparr>msg_channel = msg_channel m, msg_channel_account = msg_channel_account m,
      msg_target_ref = msg_target_ref m, msg_kind = msg_kind m, msg_text = msg_text m,
      msg_buttons = msg_buttons m, attachment_url = attachment_url m, reply_context_ref = reply_context_ref m,
      msg_classification = msg_classification m, msg_calendar_preview = msg_calendar_preview m,
      msg_daily_agenda_preview = msg_daily_agenda_preview m\<rparr> = m"
    by (cases m) simp
  have get: "json_get (lit ''text'') (message_json m) = Some (JStr (msg_text m))"
    "json_get (lit ''title'') (message_json m) = None"
    "json_get (lit ''buttons'') (message_json m) = Some (JArr (map button_json (msg_buttons m)))"
    "json_get (lit ''attachment_url'') (message_json m) = Some (json_opt JStr (attachment_url m))"
    "json_get (lit ''calendar_preview'') (message_json m) = Some (json_opt calendar_json (msg_calendar_preview m))"
    "json_get (lit ''daily_agenda_preview'') (message_json m) = Some (json_opt daily_json (msg_daily_agenda_preview m))"
    "json_get (lit ''reply_context_ref'') (message_json m) = Some (JStr (reply_context_ref m))"
    by (simp_all add: message_json_def lit_def)
  have "map_res button_of_json (map button_json (msg_buttons m)) = Inr (msg_buttons m)"
    unfolding map_res_map
    by (rule map_res_id) (use assms in \<open>auto simp: message_object_def list_all_iff button_round_trip\<close>)
  moreover have "url_of_json (Some (json_opt JStr (attachment_url m))) = Inr (attachment_url m)"
    by (cases "attachment_url m") (simp_all add: url_of_json_def)
  moreover have "calendar_of_json (Some (json_opt calendar_json (msg_calendar_preview m))) = Inr (msg_calendar_preview m)"
    using assms by (cases "msg_calendar_preview m")
      (auto simp: message_object_def calendar_round_trip, simp add: calendar_of_json_def)
  moreover have "daily_of_json (Some (json_opt daily_json (msg_daily_agenda_preview m))) = Inr (msg_daily_agenda_preview m)"
    using assms by (cases "msg_daily_agenda_preview m")
      (auto simp: message_object_def daily_round_trip, simp add: daily_of_json_def)
  moreover have "json_first [Some (JStr s), None] = Inr s" "json_first [Some (JStr s)] = Inr s" for s
    by simp_all
  ultimately show ?thesis
    using assms by (simp add: message_from_columns_def get message_object_def eta del: json_first.simps)
qed

end
