(* ===== verification/Outbox.thy ===== *)
theory Outbox
  imports OutboxMessage "HOL-Library.Product_Lexorder"
begin

text \<open>
  The transactional outbox, \<^verbatim>\<open>src/zhixu/delivery/outbox.py\<close>: the tables \<^verbatim>\<open>outbox_deliveries\<close>,
  \<^verbatim>\<open>dead_letters\<close> and \<^verbatim>\<open>audit_events\<close> as lists of rows and each method of \<^verbatim>\<open>OutboxStore\<close> as a function
  on them. A method returns the new store and its result or exception: what a committed
  transaction wrote stays when a later line raises. Columns that hold times hold the ISO text
  \<^verbatim>\<open>_dump\<close> writes and are compared as texts, as SQLite does; the token of a claim is the argument
  \<open>token\<close>, since \<^verbatim>\<open>secrets.token_urlsafe\<close> is random.
\<close>

section \<open>Tables\<close>

datatype outbox_status = OB_PENDING | OB_SENDING | OB_RETRY_WAIT | OB_QUOTA_WAIT | OB_SENT | OB_DEAD

fun outbox_status_value :: "outbox_status \<Rightarrow> pystr" where
  "outbox_status_value OB_PENDING = lit ''pending''"
| "outbox_status_value OB_SENDING = lit ''sending''"
| "outbox_status_value OB_RETRY_WAIT = lit ''retry_wait''"
| "outbox_status_value OB_QUOTA_WAIT = lit ''quota_wait''"
| "outbox_status_value OB_SENT = lit ''sent''"
| "outbox_status_value OB_DEAD = lit ''dead''"

record outbox_row =
  ob_id :: pystr
  ob_key :: pystr
  ob_owner :: pystr
  ob_target :: pystr
  ob_kind :: pystr
  ob_payload :: json
  ob_class :: int
  ob_priority :: int
  ob_status :: outbox_status
  ob_attempts :: int
  ob_max_attempts :: int
  ob_next_attempt :: pystr
  ob_last_error :: pystr
  ob_created :: pystr
  ob_updated :: pystr
  ob_channel :: pystr
  ob_account :: pystr
  lease_owner :: pystr
  lease_token :: pystr
  lease_expires :: "pystr option"
  ob_provider_id :: pystr

record dead_letter =
  dl_id :: pystr
  dl_delivery :: pystr
  dl_reason :: pystr
  dl_created :: pystr
  dl_retried :: "pystr option"

record audit_event =
  au_at :: pystr
  au_actor :: pystr
  au_action :: pystr
  au_kind :: pystr
  au_resource :: pystr
  au_outcome :: pystr
  au_reason :: pystr

record outbox =
  deliveries :: "outbox_row list"
  dead_letters :: "dead_letter list"
  outbox_audit :: "audit_event list"
  known_users :: "pystr list"

record claimed_delivery =
  cd_id :: pystr
  cd_owner :: pystr
  cd_key :: pystr
  cd_message :: outbound_message
  cd_priority :: int
  cd_attempts :: int
  cd_max_attempts :: int
  cd_token :: pystr
  cd_expires :: datetime

section \<open>Helpers\<close>

text \<open>\<^verbatim>\<open>_dump\<close>: the UTC ISO text of an aware time.\<close>

definition dump_time :: "tzdb \<Rightarrow> datetime \<Rightarrow> pystr res" where
  "dump_time db t = guarded [(\<not> aware t, ValidationError)] (isoformat_utc (instant db t))"

abbreviation time_text :: "tzdb \<Rightarrow> datetime \<Rightarrow> pystr" where
  "time_text db t \<equiv> isoformat_utc (instant db t)"

definition DEFAULT_BACKOFF :: "int list" where
  "DEFAULT_BACKOFF = [5, 30, 120, 600, 1800]"

text \<open>The guard of \<^verbatim>\<open>OutboxStore.__init__\<close> on its delays.\<close>

definition new_outbox_store :: "int list \<Rightarrow> int list res" where
  "new_outbox_store backoff = guarded [(backoff = [] \<or> list_ex (\<lambda>d. d < 0) backoff, ValidationError)] backoff"

definition message_from_row :: "outbox_row \<Rightarrow> outbound_message res" where
  "message_from_row r = message_from_columns (ob_channel r) (ob_account r) (ob_target r) (ob_kind r)
     (ob_payload r) (ob_class r)"

definition claimed_of :: "outbox_row \<Rightarrow> outbound_message \<Rightarrow> pystr \<Rightarrow> datetime \<Rightarrow> claimed_delivery" where
  "claimed_of r m token expires = \<lparr>cd_id = ob_id r, cd_owner = ob_owner r, cd_key = ob_key r, cd_message = m,
     cd_priority = ob_priority r, cd_attempts = ob_attempts r, cd_max_attempts = ob_max_attempts r,
     cd_token = token, cd_expires = expires\<rparr>"

section \<open>Operations\<close>

definition new_delivery_row ::
  "pystr \<Rightarrow> pystr \<Rightarrow> pystr \<Rightarrow> outbound_message \<Rightarrow> pystr \<Rightarrow> int \<Rightarrow> int \<Rightarrow> outbox_row" where
  "new_delivery_row delivery_id key owner m now_text prio max_attempts =
     \<lparr>ob_id = delivery_id, ob_key = key, ob_owner = owner, ob_target = msg_target_ref m,
      ob_kind = message_kind_value (msg_kind m), ob_payload = message_json m,
      ob_class = classification_value (msg_classification m), ob_priority = prio, ob_status = OB_PENDING,
      ob_attempts = 0, ob_max_attempts = max_attempts, ob_next_attempt = now_text, ob_last_error = [],
      ob_created = now_text, ob_updated = now_text, ob_channel = msg_channel m,
      ob_account = msg_channel_account m, lease_owner = [], lease_token = [], lease_expires = None,
      ob_provider_id = []\<rparr>"

text \<open>
  INSERT OR IGNORE: a row that breaks the primary key, the unique idempotency key or the
  check on the classification is skipped; a missing owner breaks the foreign key and raises.
\<close>

definition insert_ignored :: "outbox \<Rightarrow> outbox_row \<Rightarrow> bool" where
  "insert_ignored s r \<longleftrightarrow> ob_id r \<in> ob_id ` set (deliveries s) \<or> ob_key r \<in> ob_key ` set (deliveries s)
     \<or> \<not> (0 \<le> ob_class r \<and> ob_class r \<le> 2)"

definition enqueue :: "tzdb \<Rightarrow> outbox \<Rightarrow> pystr \<Rightarrow> pystr \<Rightarrow> pystr \<Rightarrow> outbound_message \<Rightarrow> datetime \<Rightarrow> int \<Rightarrow> int
    \<Rightarrow> pystr \<Rightarrow> outbox \<times> bool res" where
  "enqueue db s delivery_id key owner m now prio max_attempts actor =
     (case raised [(\<not> aware now, ValidationError), (max_attempts < 1, ValidationError)] of
        Some e \<Rightarrow> (s, Inl e)
      | None \<Rightarrow>
         (let now_text = time_text db now;
              r = new_delivery_row delivery_id key owner m now_text prio max_attempts
          in if insert_ignored s r then (s, Inr False)
             else if owner \<notin> set (known_users s) then (s, Inl IntegrityErr)
             else (s\<lparr>deliveries := deliveries s @ [r],
                     outbox_audit := outbox_audit s @ [\<lparr>au_at = now_text, au_actor = actor, au_action = lit ''enqueue'',
                       au_kind = lit ''outbox_delivery'', au_resource = delivery_id, au_outcome = lit ''completed'',
                       au_reason = []\<rparr>]\<rparr>, Inr True)))"

text \<open>The WHERE clause of the selection: due, or sending with an expired lease.\<close>

definition claimable :: "pystr \<Rightarrow> outbox_row \<Rightarrow> bool" where
  "claimable now_text r \<longleftrightarrow>
     (ob_status r \<in> {OB_PENDING, OB_RETRY_WAIT, OB_QUOTA_WAIT} \<and> ob_next_attempt r \<le> now_text)
     \<or> (ob_status r = OB_SENDING \<and> (case lease_expires r of None \<Rightarrow> False | Some t \<Rightarrow> t \<le> now_text))"

definition in_accounts :: "(pystr \<times> pystr) list option \<Rightarrow> outbox_row \<Rightarrow> bool" where
  "in_accounts accounts r = (case accounts of None \<Rightarrow> True | Some as \<Rightarrow> (ob_channel r, ob_account r) \<in> set as)"

definition claim_order :: "outbox_row \<Rightarrow> int \<times> pystr \<times> pystr" where
  "claim_order r = (ob_priority r, ob_created r, ob_id r)"

definition claim_update :: "pystr \<Rightarrow> pystr \<Rightarrow> pystr \<Rightarrow> pystr \<Rightarrow> outbox_row \<Rightarrow> outbox_row" where
  "claim_update worker token expires now_text r = r\<lparr>ob_status := OB_SENDING, ob_attempts := ob_attempts r + 1,
     lease_owner := worker, lease_token := token, lease_expires := Some expires, ob_updated := now_text\<rparr>"

definition claim_guard :: "pystr \<Rightarrow> pystr \<Rightarrow> outbox_row \<Rightarrow> bool" where
  "claim_guard delivery_id now_text r \<longleftrightarrow> ob_id r = delivery_id
     \<and> (ob_status r \<in> {OB_PENDING, OB_RETRY_WAIT, OB_QUOTA_WAIT}
        \<or> (ob_status r = OB_SENDING \<and> (case lease_expires r of None \<Rightarrow> False | Some t \<Rightarrow> t \<le> now_text)))"

definition claim :: "tzdb \<Rightarrow> outbox \<Rightarrow> pystr \<Rightarrow> datetime \<Rightarrow> micros \<Rightarrow> (pystr \<times> pystr) list option \<Rightarrow> pystr
    \<Rightarrow> outbox \<times> claimed_delivery option res" where
  "claim db s worker now lease_for accounts token =
     (case raised [(\<not> aware now, ValidationError), (blank worker \<or> lease_for \<le> 0, ValidationError)] of
        Some e \<Rightarrow> (s, Inl e)
      | None \<Rightarrow>
         (let now_text = time_text db now; expires = dt_add now lease_for
          in if accounts = Some [] then (s, Inr None)
             else case least_by claim_order (filter (\<lambda>r. claimable now_text r \<and> in_accounts accounts r) (deliveries s)) of
                None \<Rightarrow> (s, Inr None)
              | Some row \<Rightarrow>
                 (let rows = update_where (claim_guard (ob_id row) now_text)
                        (claim_update worker token (time_text db expires) now_text) (deliveries s)
                  in if count_where (claim_guard (ob_id row) now_text) (deliveries s) \<noteq> 1
                     then (s\<lparr>deliveries := rows\<rparr>, Inr None)
                     else case find_row ob_id (ob_id row) rows of
                        None \<Rightarrow> (s, Inl AssertionErr)
                      | Some refreshed \<Rightarrow> (s\<lparr>deliveries := rows\<rparr>,
                          and_then (message_from_row refreshed) (\<lambda>m. Inr (Some (claimed_of refreshed m token expires)))))))"

text \<open>The rows a lease holder may touch.\<close>

definition holds_lease :: "pystr \<Rightarrow> pystr \<Rightarrow> outbox_row \<Rightarrow> bool" where
  "holds_lease delivery_id token r \<longleftrightarrow> ob_id r = delivery_id \<and> ob_status r = OB_SENDING \<and> lease_token r = token"

definition release :: "outbox_row \<Rightarrow> outbox_row" where
  "release r = r\<lparr>lease_owner := [], lease_token := [], lease_expires := None\<rparr>"

definition defer_for_quota :: "tzdb \<Rightarrow> outbox \<Rightarrow> claimed_delivery \<Rightarrow> datetime \<Rightarrow> datetime \<Rightarrow> pystr
    \<Rightarrow> outbox \<times> unit res" where
  "defer_for_quota db s c next now reason =
     (case raised [(\<not> aware next, ValidationError), (\<not> aware now, ValidationError)] of
        Some e \<Rightarrow> (s, Inl e)
      | None \<Rightarrow> (let p = holds_lease (cd_id c) (cd_token c)
          in if count_where p (deliveries s) \<noteq> 1 then (s, Inl ConflictError)
             else (s\<lparr>deliveries := update_where p (\<lambda>r. (release r)\<lparr>ob_status := OB_QUOTA_WAIT,
                      ob_attempts := max 0 (ob_attempts r - 1), ob_next_attempt := time_text db next,
                      ob_last_error := take 80 reason, ob_updated := time_text db now\<rparr>) (deliveries s)\<rparr>, Inr ())))"

definition backoff_index :: "int list \<Rightarrow> int \<Rightarrow> nat" where
  "backoff_index backoff attempts = nat (min (max (attempts - 1) 0) (int (length backoff) - 1))"

definition complete :: "tzdb \<Rightarrow> int list \<Rightarrow> outbox \<Rightarrow> pystr \<Rightarrow> pystr \<Rightarrow> channel_delivery_result \<Rightarrow> datetime
    \<Rightarrow> outbox \<times> outbox_status res" where
  "complete db backoff s delivery_id token result now =
     (if \<not> aware now then (s, Inl ValidationError)
      else case find (holds_lease delivery_id token) (deliveries s) of
         None \<Rightarrow> (s, Inl ConflictError)
       | Some row \<Rightarrow>
          (let now_text = time_text db now; here = (\<lambda>r. ob_id r = delivery_id)
           in if delivery_ok result
              then (s\<lparr>deliveries := update_where here (\<lambda>r. (release r)\<lparr>ob_status := OB_SENT, ob_last_error := [],
                       ob_provider_id := take 160 (provider_message_id result), ob_updated := now_text\<rparr>) (deliveries s)\<rparr>,
                    Inr OB_SENT)
              else if retryable result \<and> ob_attempts row < ob_max_attempts row
              then (s\<lparr>deliveries := update_where here (\<lambda>r. (release r)\<lparr>ob_status := OB_RETRY_WAIT,
                       ob_next_attempt := time_text db (dt_add now
                         (backoff ! backoff_index backoff (ob_attempts row) * us_second)),
                       ob_last_error := take 80 (provider_code result), ob_updated := now_text\<rparr>) (deliveries s)\<rparr>,
                    Inr OB_RETRY_WAIT)
              else (s\<lparr>deliveries := update_where here (\<lambda>r. (release r)\<lparr>ob_status := OB_DEAD,
                       ob_last_error := take 80 (provider_code result), ob_updated := now_text\<rparr>) (deliveries s),
                      dead_letters := filter (\<lambda>d. dl_id d \<noteq> lit ''dead_'' @ delivery_id \<and> dl_delivery d \<noteq> delivery_id)
                          (dead_letters s)
                        @ [\<lparr>dl_id = lit ''dead_'' @ delivery_id, dl_delivery = delivery_id,
                            dl_reason = take 80 (provider_code result), dl_created = now_text, dl_retried = None\<rparr>]\<rparr>,
                    Inr OB_DEAD)))"

text \<open>
  \<^verbatim>\<open>complete_lease\<close> reads the row, rebuilds the claim from it and completes it; the text of the
  lease end is parsed on the way.
\<close>

definition complete_lease :: "tzdb \<Rightarrow> int list \<Rightarrow> outbox \<Rightarrow> pystr \<Rightarrow> pystr \<Rightarrow> channel_delivery_result \<Rightarrow> datetime
    \<Rightarrow> outbox \<times> outbox_status res" where
  "complete_lease db backoff s delivery_id token result now =
     (if \<not> aware now then (s, Inl ValidationError)
      else case find (holds_lease delivery_id token) (deliveries s) of
         None \<Rightarrow> (s, Inl ConflictError)
       | Some row \<Rightarrow> (case and_then (message_from_row row) (\<lambda>m.
              and_then (case lease_expires row of None \<Rightarrow> Inl ValueErr | Some t \<Rightarrow> fromisoformat_utc t)
                (\<lambda>t. Inr (claimed_of row m token (utc t)))) of
            Inl e \<Rightarrow> (s, Inl e)
          | Inr c \<Rightarrow> complete db backoff s (cd_id c) (cd_token c) result now))"

definition retry_dead :: "tzdb \<Rightarrow> outbox \<Rightarrow> pystr \<Rightarrow> pystr \<Rightarrow> datetime \<Rightarrow> outbox \<times> bool res" where
  "retry_dead db s dead_id actor now =
     (if \<not> aware now then (s, Inl ValidationError)
      else case find_row dl_id dead_id (dead_letters s) of
         None \<Rightarrow> (s, Inr False)
       | Some d \<Rightarrow>
          (let now_text = time_text db now
           in (s\<lparr>deliveries := update_where (\<lambda>r. ob_id r = dl_delivery d) (\<lambda>r. (release r)\<lparr>ob_status := OB_PENDING,
                   ob_attempts := 0, ob_next_attempt := now_text, ob_last_error := [], ob_updated := now_text\<rparr>)
                   (deliveries s),
                 dead_letters := update_where (\<lambda>d. dl_id d = dead_id) (\<lambda>d. d\<lparr>dl_retried := Some now_text\<rparr>) (dead_letters s),
                 outbox_audit := outbox_audit s @ [\<lparr>au_at = now_text, au_actor = actor, au_action = lit ''retry'',
                   au_kind = lit ''dead_letter'', au_resource = dead_id, au_outcome = lit ''completed'', au_reason = []\<rparr>]\<rparr>,
               Inr True)))"

definition get_status :: "outbox \<Rightarrow> pystr \<Rightarrow> pystr option" where
  "get_status s delivery_id = map_option (\<lambda>r. outbox_status_value (ob_status r)) (find_row ob_id delivery_id (deliveries s))"

definition with_message :: "claimed_delivery \<Rightarrow> outbound_message \<Rightarrow> claimed_delivery" where
  "with_message c m = c\<lparr>cd_message := m\<rparr>"

section \<open>Invariant and steps\<close>

definition row_ok :: "outbox_row \<Rightarrow> bool" where
  "row_ok r \<longleftrightarrow> (if ob_status r = OB_SENDING then lease_token r \<noteq> [] \<and> lease_expires r \<noteq> None
        else lease_token r = [] \<and> lease_expires r = None)
     \<and> 0 \<le> ob_attempts r \<and> 1 \<le> ob_max_attempts r \<and> is_ok (message_from_row r)"

definition outbox_wf :: "outbox \<Rightarrow> bool" where
  "outbox_wf s \<longleftrightarrow> unique_key ob_id (deliveries s) \<and> unique_key ob_key (deliveries s)
     \<and> list_all row_ok (deliveries s)
     \<and> (\<forall>d \<in> set (dead_letters s). dl_id d = lit ''dead_'' @ dl_delivery d
          \<and> dl_delivery d \<in> ob_id ` set (deliveries s))
     \<and> unique_key dl_id (dead_letters s)
     \<and> (\<forall>r \<in> set (deliveries s). ob_status r = OB_DEAD \<longrightarrow> ob_id r \<in> dl_delivery ` set (dead_letters s))"

inductive outbox_step :: "tzdb \<Rightarrow> int list \<Rightarrow> outbox \<Rightarrow> outbox \<Rightarrow> bool" for db backoff where
  step_enqueue: "message_object m \<Longrightarrow>
     outbox_step db backoff s (fst (enqueue db s did key owner m now prio max_attempts actor))"
| step_claim: "token \<noteq> [] \<Longrightarrow> outbox_step db backoff s (fst (claim db s worker now lease_for accounts token))"
| step_defer: "outbox_step db backoff s (fst (defer_for_quota db s c next now reason))"
| step_complete: "outbox_step db backoff s (fst (complete db backoff s did token result now))"
| step_complete_lease: "outbox_step db backoff s (fst (complete_lease db backoff s did token result now))"
| step_retry: "outbox_step db backoff s (fst (retry_dead db s dead_id actor now))"

inductive outbox_reachable :: "tzdb \<Rightarrow> int list \<Rightarrow> outbox \<Rightarrow> bool" for db backoff where
  initial: "deliveries s = [] \<Longrightarrow> dead_letters s = [] \<Longrightarrow> outbox_reachable db backoff s"
| step: "outbox_reachable db backoff s \<Longrightarrow> outbox_step db backoff s s' \<Longrightarrow> outbox_reachable db backoff s'"

inductive_cases outbox_step_E: "outbox_step db backoff s s'"

section \<open>Lemmas on the operations\<close>

lemma message_from_row_simps [simp]:
  "message_from_row (claim_update w tok e n r) = message_from_row r"
  "message_from_row (release r) = message_from_row r"
  "message_from_row (r\<lparr>ob_status := st\<rparr>) = message_from_row r"
  "message_from_row (r\<lparr>ob_attempts := a\<rparr>) = message_from_row r"
  "message_from_row (r\<lparr>ob_next_attempt := x\<rparr>) = message_from_row r"
  "message_from_row (r\<lparr>ob_last_error := x\<rparr>) = message_from_row r"
  "message_from_row (r\<lparr>ob_updated := x\<rparr>) = message_from_row r"
  "message_from_row (r\<lparr>ob_provider_id := x\<rparr>) = message_from_row r"
  by (simp_all add: message_from_row_def claim_update_def release_def)

lemma claim_update_id [simp]: "ob_id (claim_update w tok e n r) = ob_id r" "ob_key (claim_update w tok e n r) = ob_key r"
  by (simp_all add: claim_update_def)

lemma release_fields [simp]:
  "ob_id (release r) = ob_id r" "ob_key (release r) = ob_key r" "lease_token (release r) = []"
  "lease_expires (release r) = None" "ob_attempts (release r) = ob_attempts r"
  "ob_max_attempts (release r) = ob_max_attempts r" "ob_status (release r) = ob_status r"
  by (simp_all add: release_def)

lemma claim_eq:
  assumes "unique_key ob_id (deliveries s)" "aware now" "\<not> blank worker" "0 < lease_for" "accounts \<noteq> Some []"
  shows "claim db s worker now lease_for accounts token =
     (case least_by claim_order (filter (\<lambda>r. claimable (time_text db now) r \<and> in_accounts accounts r) (deliveries s)) of
        None \<Rightarrow> (s, Inr None)
      | Some row \<Rightarrow> (s\<lparr>deliveries := update_where (\<lambda>r. ob_id r = ob_id row)
            (claim_update worker token (time_text db (dt_add now lease_for)) (time_text db now)) (deliveries s)\<rparr>,
          and_then (message_from_row row) (\<lambda>m. Inr (Some (claimed_of
            (claim_update worker token (time_text db (dt_add now lease_for)) (time_text db now) row) m token
            (dt_add now lease_for))))))"
proof (cases "least_by claim_order (filter (\<lambda>r. claimable (time_text db now) r \<and> in_accounts accounts r) (deliveries s))")
  case None
  then show ?thesis using assms by (simp add: claim_def Let_def)
next
  case (Some row)
  let ?n = "time_text db now" and ?u = "claim_update worker token (time_text db (dt_add now lease_for)) (time_text db now)"
  have row: "row \<in> set (deliveries s)" "claimable ?n row"
    using least_by_Some[OF Some] by auto
  have find: "find_row ob_id (ob_id row) (deliveries s) = Some row"
    using find_row_Some_iff[OF assms(1)] row(1) by blast
  have row_guard: "claim_guard (ob_id row) ?n row"
    using row(2) by (auto simp: claim_guard_def claimable_def)
  have same: "r = row" if "r \<in> set (deliveries s)" "ob_id r = ob_id row" for r
  proof -
    have "find_row ob_id (ob_id row) (deliveries s) = Some r"
      using find_row_Some_iff[OF assms(1)] that by blast
    with find show ?thesis by (metis option.inject)
  qed
  have guard: "claim_guard (ob_id row) ?n r \<longleftrightarrow> ob_id r = ob_id row" if "r \<in> set (deliveries s)" for r
    using same[OF that] row_guard unfolding claim_guard_def by blast
  have "count_where (claim_guard (ob_id row) ?n) (deliveries s) = 1"
    using count_where_key[OF assms(1), of "claim_guard (ob_id row) ?n" "ob_id row"] find row_guard
    by (simp add: claim_guard_def)
  moreover have upd: "update_where (claim_guard (ob_id row) ?n) ?u (deliveries s)
      = update_where (\<lambda>r. ob_id r = ob_id row) ?u (deliveries s)"
    by (rule update_where_cong[OF guard])
  moreover have "find_row ob_id (ob_id row) (update_where (\<lambda>r. ob_id r = ob_id row) ?u (deliveries s)) = Some (?u row)"
    using find by (simp add: find_row_update_where)
  ultimately show ?thesis using Some assms by (simp add: claim_def Let_def)
qed

lemma claim_refused:
  "\<not> (aware now \<and> \<not> blank worker \<and> 0 < lease_for) \<Longrightarrow>
   claim db s worker now lease_for accounts token = (s, Inl ValidationError)"
  by (auto simp: claim_def)

lemma claim_no_accounts:
  "aware now \<Longrightarrow> \<not> blank worker \<Longrightarrow> 0 < lease_for \<Longrightarrow> claim db s worker now lease_for (Some []) token = (s, Inr None)"
  by (simp add: claim_def)

text \<open>What a claim leaves behind, whatever it returns.\<close>

lemma claim_state:
  assumes "unique_key ob_id (deliveries s)"
  shows "fst (claim db s worker now lease_for accounts token) = s \<or>
     (\<exists>row e n. row \<in> set (deliveries s) \<and> claimable n row
        \<and> fst (claim db s worker now lease_for accounts token)
          = s\<lparr>deliveries := update_where (\<lambda>r. ob_id r = ob_id row) (claim_update worker token e n) (deliveries s)\<rparr>)"
proof (cases "aware now \<and> \<not> blank worker \<and> 0 < lease_for \<and> accounts \<noteq> Some []")
  case False
  then show ?thesis using claim_refused[of now worker lease_for] claim_no_accounts[of now worker lease_for] by fastforce
next
  case True
  show ?thesis
  proof (cases "least_by claim_order (filter (\<lambda>r. claimable (time_text db now) r \<and> in_accounts accounts r) (deliveries s))")
    case None
    then show ?thesis using claim_eq[OF assms] True by auto
  next
    case (Some row)
    then have "fst (claim db s worker now lease_for accounts token) = s\<lparr>deliveries := update_where (\<lambda>r. ob_id r = ob_id row)
        (claim_update worker token (time_text db (dt_add now lease_for)) (time_text db now)) (deliveries s)\<rparr>"
      using claim_eq[OF assms] True by simp
    moreover have "row \<in> set (deliveries s)" "claimable (time_text db now) row"
      using least_by_Some[OF Some] by simp_all
    ultimately show ?thesis by blast
  qed
qed

lemma holds_lease_unique:
  assumes "unique_key ob_id (deliveries s)"
  shows "find (holds_lease did tok) (deliveries s) = (case find_row ob_id did (deliveries s) of None \<Rightarrow> None
       | Some r \<Rightarrow> if holds_lease did tok r then Some r else None)"
    and "count_where (holds_lease did tok) (deliveries s) = (case find_row ob_id did (deliveries s) of None \<Rightarrow> 0
       | Some r \<Rightarrow> if holds_lease did tok r then 1 else 0)"
proof -
  show "count_where (holds_lease did tok) (deliveries s) = (case find_row ob_id did (deliveries s) of None \<Rightarrow> 0
       | Some r \<Rightarrow> if holds_lease did tok r then 1 else 0)"
    by (rule count_where_key[OF assms]) (simp add: holds_lease_def)
  show "find (holds_lease did tok) (deliveries s) = (case find_row ob_id did (deliveries s) of None \<Rightarrow> None
       | Some r \<Rightarrow> if holds_lease did tok r then Some r else None)"
    by (rule find_key[OF assms]) (simp add: holds_lease_def)
qed

section \<open>The invariant\<close>

lemma outbox_wfD:
  assumes "outbox_wf s"
  shows "unique_key ob_id (deliveries s)" "unique_key ob_key (deliveries s)" "list_all row_ok (deliveries s)"
    "\<And>d. d \<in> set (dead_letters s) \<Longrightarrow> dl_id d = lit ''dead_'' @ dl_delivery d \<and> dl_delivery d \<in> ob_id ` set (deliveries s)"
    "unique_key dl_id (dead_letters s)"
    "\<And>r. r \<in> set (deliveries s) \<Longrightarrow> ob_status r = OB_DEAD \<Longrightarrow> ob_id r \<in> dl_delivery ` set (dead_letters s)"
  using assms unfolding outbox_wf_def by auto

text \<open>
  Most operations rewrite rows in place, keeping ids and keys, and add or keep dead letters:
  such a store stays well-formed when the new rows are and no row dies without a letter.
\<close>

lemma outbox_wf_update:
  assumes wf: "outbox_wf s"
    and f: "\<And>r. ob_id (f r) = ob_id r" "\<And>r. ob_key (f r) = ob_key r"
    and ok: "\<And>r. r \<in> set (deliveries s) \<Longrightarrow> row_ok r \<Longrightarrow> p r \<Longrightarrow> row_ok (f r)"
    and dl: "\<And>d. d \<in> set dls \<Longrightarrow> dl_id d = lit ''dead_'' @ dl_delivery d \<and> dl_delivery d \<in> ob_id ` set (deliveries s)"
      "unique_key dl_id dls" "dl_delivery ` set (dead_letters s) \<subseteq> dl_delivery ` set dls"
    and dead: "\<And>r. r \<in> set (deliveries s) \<Longrightarrow> p r \<Longrightarrow> ob_status (f r) = OB_DEAD \<Longrightarrow> ob_id r \<in> dl_delivery ` set dls"
    and s': "deliveries s' = update_where p f (deliveries s)" "dead_letters s' = dls"
  shows "outbox_wf s'"
proof -
  have ids: "ob_id ` set (deliveries s') = ob_id ` set (deliveries s)"
  proof -
    have "map ob_id (deliveries s') = map ob_id (deliveries s)" using f(1) by (simp add: s')
    then show ?thesis by (metis set_map)
  qed
  have rows: "list_all row_ok (deliveries s')"
    using outbox_wfD(3)[OF wf] ok by (auto simp: s' update_where_def list_all_iff)
  have letters: "ob_id r \<in> dl_delivery ` set dls" if r: "r \<in> set (deliveries s')" "ob_status r = OB_DEAD" for r
  proof -
    obtain q where q: "q \<in> set (deliveries s)" "r = (if p q then f q else q)"
      using r(1) by (auto simp: s' update_where_def)
    show ?thesis
    proof (cases "p q")
      case True
      then show ?thesis using dead[OF q(1)] q(2) r(2) f(1) by simp
    next
      case False
      then show ?thesis using outbox_wfD(6)[OF wf q(1)] q(2) r(2) dl(3) by auto
    qed
  qed
  show ?thesis
    using outbox_wfD(1,2)[OF wf] f dl(1,2) rows letters ids unfolding outbox_wf_def s' by auto
qed

lemma row_ok_release:
  assumes "row_ok r" "st \<noteq> OB_SENDING"
  shows "row_ok ((release r)\<lparr>ob_status := st, ob_last_error := e, ob_updated := u\<rparr>)"
    and "row_ok ((release r)\<lparr>ob_status := st, ob_last_error := e, ob_provider_id := x, ob_updated := u\<rparr>)"
    and "row_ok ((release r)\<lparr>ob_status := st, ob_next_attempt := n, ob_last_error := e, ob_updated := u\<rparr>)"
    and "0 \<le> a \<Longrightarrow> row_ok ((release r)\<lparr>ob_status := st, ob_attempts := a, ob_next_attempt := n, ob_last_error := e, ob_updated := u\<rparr>)"
  using assms by (simp_all add: row_ok_def)

lemma row_ok_claim: "row_ok r \<Longrightarrow> tok \<noteq> [] \<Longrightarrow> row_ok (claim_update w tok e n r)"
  by (simp add: row_ok_def) (simp add: claim_update_def)

lemma row_ok_new:
  assumes "message_object m" "1 \<le> k"
  shows "row_ok (new_delivery_row did key owner m n prio k)"
  using message_columns_round_trip[OF assms(1)] assms(2)
  by (simp add: row_ok_def message_from_row_def new_delivery_row_def)

lemma wf_enqueue:
  assumes "outbox_wf s" "message_object m"
  shows "outbox_wf (fst (enqueue db s did key owner m now prio k actor))"
proof (cases "snd (enqueue db s did key owner m now prio k actor) = Inr True")
  case False
  then have "fst (enqueue db s did key owner m now prio k actor) = s"
    by (auto simp: enqueue_def Let_def split: option.splits if_splits)
  then show ?thesis using assms by simp
next
  case True
  let ?r = "new_delivery_row did key owner m (time_text db now) prio k"
  from True have k: "1 \<le> k" and new: "\<not> insert_ignored s ?r"
    and s': "deliveries (fst (enqueue db s did key owner m now prio k actor)) = deliveries s @ [?r]"
      "dead_letters (fst (enqueue db s did key owner m now prio k actor)) = dead_letters s"
    by (auto simp: enqueue_def Let_def split: option.splits if_splits)
  from new have "did \<notin> ob_id ` set (deliveries s)" "key \<notin> ob_key ` set (deliveries s)"
    by (simp_all add: insert_ignored_def new_delivery_row_def)
  moreover have "ob_id ?r = did" "ob_key ?r = key" "ob_status ?r = OB_PENDING" by (simp_all add: new_delivery_row_def)
  ultimately show ?thesis
    using outbox_wfD[OF assms(1)] row_ok_new[OF assms(2) k]
    unfolding outbox_wf_def s' by (auto simp: unique_key_def)
qed

lemma wf_claim:
  assumes "outbox_wf s" "tok \<noteq> []"
  shows "outbox_wf (fst (claim db s worker now lease_for accounts tok))"
proof -
  consider "fst (claim db s worker now lease_for accounts tok) = s"
    | row :: outbox_row and e n where "fst (claim db s worker now lease_for accounts tok)
        = s\<lparr>deliveries := update_where (\<lambda>r. ob_id r = ob_id row) (claim_update worker tok e n) (deliveries s)\<rparr>"
    using claim_state[OF outbox_wfD(1)[OF assms(1)], of db worker now lease_for accounts tok] by blast
  then show ?thesis
  proof cases
    case 1
    then show ?thesis using assms by simp
  next
    case 2
    show ?thesis
      by (rule outbox_wf_update[OF assms(1), where p = "\<lambda>r. ob_id r = ob_id row" and f = "claim_update worker tok e n"
            and dls = "dead_letters s"])
        (use outbox_wfD[OF assms(1)] 2 row_ok_claim[OF _ assms(2)] in \<open>auto simp: claim_update_def[where r = r for r] \<close>)
  qed
qed

lemma wf_defer:
  assumes "outbox_wf s"
  shows "outbox_wf (fst (defer_for_quota db s c next now reason))"
proof (cases "is_ok (snd (defer_for_quota db s c next now reason))")
  case False
  then have "fst (defer_for_quota db s c next now reason) = s"
    by (auto simp: defer_for_quota_def Let_def split: option.splits if_splits)
  then show ?thesis using assms by simp
next
  case True
  show ?thesis
    by (rule outbox_wf_update[OF assms, where p = "holds_lease (cd_id c) (cd_token c)" and dls = "dead_letters s"
          and f = "\<lambda>r. (release r)\<lparr>ob_status := OB_QUOTA_WAIT,
                      ob_attempts := max 0 (ob_attempts r - 1), ob_next_attempt := time_text db next,
                      ob_last_error := take 80 reason, ob_updated := time_text db now\<rparr>"])
      (use outbox_wfD[OF assms] True row_ok_release(4)[where st = OB_QUOTA_WAIT] in
        \<open>auto simp: defer_for_quota_def Let_def split: if_splits\<close>)
qed

lemma dead_letter_replaced:
  assumes "outbox_wf s" "did \<in> ob_id ` set (deliveries s)" "dl_id d = lit ''dead_'' @ did" "dl_delivery d = did"
    and "dls = filter (\<lambda>d. dl_id d \<noteq> lit ''dead_'' @ did \<and> dl_delivery d \<noteq> did) (dead_letters s) @ [d]"
  shows "\<And>x. x \<in> set dls \<Longrightarrow> dl_id x = lit ''dead_'' @ dl_delivery x \<and> dl_delivery x \<in> ob_id ` set (deliveries s)"
    and "unique_key dl_id dls" and "dl_delivery ` set (dead_letters s) \<subseteq> dl_delivery ` set dls"
    and "did \<in> dl_delivery ` set dls"
proof -
  note wf = outbox_wfD[OF assms(1)]
  show "dl_id x = lit ''dead_'' @ dl_delivery x \<and> dl_delivery x \<in> ob_id ` set (deliveries s)" if "x \<in> set dls" for x
    using that wf(4) assms(2-5) by auto
  show "unique_key dl_id dls"
    using wf(5) assms(3,5) by (auto simp: unique_key_def distinct_map_filter)
  have "dl_delivery x = did" if "x \<in> set (dead_letters s)" "dl_id x = lit ''dead_'' @ did" for x
    using wf(4)[OF that(1)] that(2) by simp
  then show "dl_delivery ` set (dead_letters s) \<subseteq> dl_delivery ` set dls"
    using assms(4,5) by fastforce
  show "did \<in> dl_delivery ` set dls" using assms(4,5) by auto
qed

lemma wf_complete:
  assumes "outbox_wf s"
  shows "outbox_wf (fst (complete db backoff s did tok result now))"
proof (cases "aware now \<and> find (holds_lease did tok) (deliveries s) \<noteq> None")
  case False
  then show ?thesis using assms by (auto simp: complete_def)
next
  case True
  then obtain row where row: "find (holds_lease did tok) (deliveries s) = Some row" by auto
  then have here: "did \<in> ob_id ` set (deliveries s)"
    by (auto simp: find_Some_iff holds_lease_def)
  let ?d = "\<lparr>dl_id = lit ''dead_'' @ did, dl_delivery = did, dl_reason = take 80 (provider_code result),
      dl_created = time_text db now, dl_retried = None\<rparr>"
  note dl = dead_letter_replaced[OF assms here, of ?d, OF _ _ refl]
  show ?thesis
  proof (cases "delivery_ok result \<or> retryable result \<and> ob_attempts row < ob_max_attempts row")
    case alive: True
    define f where "f = (if delivery_ok result
        then (\<lambda>r. (release r)\<lparr>ob_status := OB_SENT, ob_last_error := [],
                       ob_provider_id := take 160 (provider_message_id result), ob_updated := time_text db now\<rparr>)
        else (\<lambda>r. (release r)\<lparr>ob_status := OB_RETRY_WAIT,
                       ob_next_attempt := time_text db (dt_add now
                         (backoff ! backoff_index backoff (ob_attempts row) * us_second)),
                       ob_last_error := take 80 (provider_code result), ob_updated := time_text db now\<rparr>))"
    have "deliveries (fst (complete db backoff s did tok result now)) = update_where (\<lambda>r. ob_id r = did) f (deliveries s)"
      "dead_letters (fst (complete db backoff s did tok result now)) = dead_letters s"
      using True row alive by (auto simp: complete_def Let_def f_def)
    then show ?thesis
      by (rule outbox_wf_update[OF assms _ _ _ outbox_wfD(4)[OF assms] outbox_wfD(5)[OF assms] subset_refl _, rotated -2])
        (auto simp: f_def row_ok_release split: if_splits)
  next
    case dying: False
    let ?f = "\<lambda>r. (release r)\<lparr>ob_status := OB_DEAD, ob_last_error := take 80 (provider_code result),
        ob_updated := time_text db now\<rparr>"
    have "deliveries (fst (complete db backoff s did tok result now)) = update_where (\<lambda>r. ob_id r = did) ?f (deliveries s)"
      "dead_letters (fst (complete db backoff s did tok result now))
        = filter (\<lambda>d. dl_id d \<noteq> lit ''dead_'' @ did \<and> dl_delivery d \<noteq> did) (dead_letters s) @ [?d]"
      using True row dying by (auto simp: complete_def Let_def)
    then show ?thesis
      by (rule outbox_wf_update[OF assms _ _ _ dl(1) dl(2) dl(3) _, rotated -2])
        (use dl(4) in \<open>auto simp: row_ok_release\<close>)
  qed
qed

lemma wf_complete_lease:
  assumes "outbox_wf s"
  shows "outbox_wf (fst (complete_lease db backoff s did tok result now))"
  using assms wf_complete[OF assms] by (auto simp: complete_lease_def split: option.splits sum.splits)

lemma wf_retry:
  assumes "outbox_wf s"
  shows "outbox_wf (fst (retry_dead db s dead_id actor now))"
proof (cases "aware now \<and> find_row dl_id dead_id (dead_letters s) \<noteq> None")
  case False
  then show ?thesis using assms by (auto simp: retry_dead_def)
next
  case True
  then obtain d where d: "find_row dl_id dead_id (dead_letters s) = Some d" by auto
  let ?dls = "update_where (\<lambda>d. dl_id d = dead_id) (\<lambda>d. d\<lparr>dl_retried := Some (time_text db now)\<rparr>) (dead_letters s)"
  have s': "deliveries (fst (retry_dead db s dead_id actor now)) = update_where (\<lambda>r. ob_id r = dl_delivery d)
      (\<lambda>r. (release r)\<lparr>ob_status := OB_PENDING, ob_attempts := 0, ob_next_attempt := time_text db now,
         ob_last_error := [], ob_updated := time_text db now\<rparr>) (deliveries s)"
    "dead_letters (fst (retry_dead db s dead_id actor now)) = ?dls"
    using True d by (simp_all add: retry_dead_def Let_def)
  have d1: "dl_id x = lit ''dead_'' @ dl_delivery x \<and> dl_delivery x \<in> ob_id ` set (deliveries s)" if "x \<in> set ?dls" for x
    using that outbox_wfD(4)[OF assms] by (auto simp: set_update_where split: if_splits)
  have d2: "unique_key dl_id ?dls" using outbox_wfD(5)[OF assms] by simp
  have d3: "dl_delivery ` set (dead_letters s) \<subseteq> dl_delivery ` set ?dls"
  proof -
    have "map dl_delivery ?dls = map dl_delivery (dead_letters s)" by simp
    then show ?thesis by (metis set_map subset_refl)
  qed
  show ?thesis
    by (rule outbox_wf_update[OF assms _ _ _ d1 d2 d3 _ s']) (auto simp: row_ok_release)
qed

lemma outbox_step_wf: "outbox_step db backoff s s' \<Longrightarrow> outbox_wf s \<Longrightarrow> outbox_wf s'"
  by (induction rule: outbox_step.induct)
    (simp_all add: wf_enqueue wf_claim wf_defer wf_complete wf_complete_lease wf_retry)

lemma outbox_reachable_wf: "outbox_reachable db backoff s \<Longrightarrow> outbox_wf s"
proof (induction rule: outbox_reachable.induct)
  case (initial s)
  then show ?case by (simp add: outbox_wf_def unique_key_def)
next
  case (step s s')
  then show ?case using outbox_step_wf by blast
qed

section \<open>Properties\<close>


definition empty_outbox :: outbox where
  "empty_outbox = \<lparr>deliveries = [], dead_letters = [], outbox_audit = [], known_users = [lit ''u'']\<rparr>"

definition sample_message :: outbound_message where
  "sample_message = \<lparr>msg_channel = lit ''qq'', msg_channel_account = lit ''bot'', msg_target_ref = lit ''t'',
     msg_kind = MSG_TEXT, msg_text = lit ''hi'', msg_buttons = [], attachment_url = None, reply_context_ref = [],
     msg_classification = PERSONAL, msg_calendar_preview = None, msg_daily_agenda_preview = None\<rparr>"

lemma sample_message_object: "message_object sample_message"
  by (simp add: message_object_def sample_message_def new_outbound_message_def guarded_def blank_def lit_def py_space_def)

definition one_delivery :: outbox where
  "one_delivery = fst (enqueue utc_only empty_outbox (lit ''d'') (lit ''k'') (lit ''u'') sample_message (utc 0) 30 5 (lit ''svc''))"

lemma one_delivery_reachable: "outbox_reachable utc_only DEFAULT_BACKOFF one_delivery"
  unfolding one_delivery_def
  by (rule outbox_reachable.step[OF outbox_reachable.initial outbox_step.step_enqueue[OF sample_message_object]])
    (simp_all add: empty_outbox_def)

lemma one_delivery_rows:
  "deliveries one_delivery = [new_delivery_row (lit ''d'') (lit ''k'') (lit ''u'') sample_message (time_text utc_only (utc 0)) 30 5]"
  by (simp add: one_delivery_def enqueue_def empty_outbox_def aware_def utc_def Let_def insert_ignored_def
      new_delivery_row_def sample_message_def)


text \<open>
  C5. A claim is exclusive and ordered: from a well-formed outbox it takes a delivery of the caller's
  accounts only when it is due or its previous lease has ended, never one with a running lease; among those it takes
  the first by priority, creation time and id; it leases it to the caller's token, counts the
  attempt, and leaves every other row and the dead letters alone.
\<close>

theorem claim_exclusive:
  assumes "outbox_wf s" "claim db s worker now lease_for accounts token = (s', Inr (Some c))"
  shows "\<exists>row. find_row ob_id (cd_id c) (deliveries s) = Some row \<and> in_accounts accounts row
     \<and> (if ob_status row = OB_SENDING then \<exists>t. lease_expires row = Some t \<and> t \<le> time_text db now
        else ob_status row \<in> {OB_PENDING, OB_RETRY_WAIT, OB_QUOTA_WAIT} \<and> ob_next_attempt row \<le> time_text db now)
     \<and> (\<forall>r \<in> set (deliveries s). claimable (time_text db now) r \<and> in_accounts accounts r
          \<longrightarrow> (ob_priority row, ob_created row, ob_id row) \<le> (ob_priority r, ob_created r, ob_id r))
     \<and> find_row ob_id (cd_id c) (deliveries s') = Some (row\<lparr>ob_status := OB_SENDING, ob_attempts := ob_attempts row + 1,
          lease_owner := worker, lease_token := token, lease_expires := Some (time_text db (dt_add now lease_for)),
          ob_updated := time_text db now\<rparr>)
     \<and> cd_token c = token \<and> message_from_row row = Inr (cd_message c)
     \<and> (\<forall>other. other \<noteq> cd_id c \<longrightarrow> find_row ob_id other (deliveries s') = find_row ob_id other (deliveries s))
     \<and> dead_letters s' = dead_letters s"
proof -
  let ?n = "time_text db now"
  let ?u = "claim_update worker token (time_text db (dt_add now lease_for)) ?n"
  have u: "unique_key ob_id (deliveries s)" using outbox_wfD(1)[OF assms(1)] .
  have args: "aware now" "\<not> blank worker" "0 < lease_for" "accounts \<noteq> Some []"
    using assms(2) by (auto simp: claim_def split: if_splits)
  obtain row m where sel: "least_by claim_order (filter (\<lambda>r. claimable ?n r \<and> in_accounts accounts r) (deliveries s)) = Some row"
    and m: "message_from_row row = Inr m" "c = claimed_of (?u row) m token (dt_add now lease_for)"
    and s': "s' = s\<lparr>deliveries := update_where (\<lambda>r. ob_id r = ob_id row) ?u (deliveries s)\<rparr>"
    using assms(2) unfolding claim_eq[OF u args] by (auto split: option.splits simp: and_then_def split: sum.splits)
  have row: "row \<in> set (deliveries s)" "claimable ?n row" "in_accounts accounts row"
    "\<And>r. r \<in> set (deliveries s) \<Longrightarrow> claimable ?n r \<Longrightarrow> in_accounts accounts r \<Longrightarrow> claim_order row \<le> claim_order r"
    using least_by_Some[OF sel] by simp_all
  have c: "cd_id c = ob_id row" "cd_token c = token" "cd_message c = m"
    using m(2) by (simp_all add: claimed_of_def)
  have find: "find_row ob_id (ob_id row) (deliveries s) = Some row"
    using find_row_Some_iff[OF u] row(1) by blast
  have upd: "find_row ob_id k (deliveries s') = map_option (\<lambda>r. if ob_id r = ob_id row then ?u r else r) (find_row ob_id k (deliveries s))" for k
    by (simp add: s' find_row_update_where)
  have other: "find_row ob_id k (deliveries s') = find_row ob_id k (deliveries s)" if "k \<noteq> ob_id row" for k
    unfolding upd using that by (cases "find_row ob_id k (deliveries s)") (auto dest: find_row_SomeD)
  have due: "if ob_status row = OB_SENDING then \<exists>t. lease_expires row = Some t \<and> t \<le> ?n
        else ob_status row \<in> {OB_PENDING, OB_RETRY_WAIT, OB_QUOTA_WAIT} \<and> ob_next_attempt row \<le> ?n"
    using row(2) by (auto simp: claimable_def split: option.splits)
  show ?thesis
  proof (intro exI[of _ row] conjI)
    show "find_row ob_id (cd_id c) (deliveries s') = Some (row\<lparr>ob_status := OB_SENDING, ob_attempts := ob_attempts row + 1,
          lease_owner := worker, lease_token := token, lease_expires := Some (time_text db (dt_add now lease_for)),
          ob_updated := time_text db now\<rparr>)"
      unfolding upd c find by (simp add: claim_update_def)
    show "dead_letters s' = dead_letters s" by (simp add: s')
  qed (use find c due row(3,4) other m(1) in \<open>simp_all add: claim_order_def\<close>)
qed

definition claimed_once :: "outbox \<times> claimed_delivery option res" where
  "claimed_once = claim utc_only one_delivery (lit ''w'') (utc 0) us_minute None (lit ''tok'')"

lemma one_delivery_message:
  "message_from_row (hd (deliveries one_delivery)) = Inr sample_message"
  using message_columns_round_trip[OF sample_message_object]
  by (simp add: one_delivery_rows message_from_row_def new_delivery_row_def)

lemma claimed_once_eq:
  "claimed_once = (one_delivery\<lparr>deliveries := map (claim_update (lit ''w'') (lit ''tok'')
       (time_text utc_only (dt_add (utc 0) us_minute)) (time_text utc_only (utc 0))) (deliveries one_delivery)\<rparr>,
     Inr (Some (claimed_of (claim_update (lit ''w'') (lit ''tok'') (time_text utc_only (dt_add (utc 0) us_minute))
       (time_text utc_only (utc 0)) (hd (deliveries one_delivery))) sample_message (lit ''tok'') (dt_add (utc 0) us_minute))))"
proof -
  have sel: "least_by claim_order (filter (\<lambda>r. claimable (time_text utc_only (utc 0)) r \<and> in_accounts None r)
      (deliveries one_delivery)) = Some (hd (deliveries one_delivery))"
    by (simp add: one_delivery_rows claimable_def in_accounts_def new_delivery_row_def)
  have args: "unique_key ob_id (deliveries one_delivery)" "aware (utc 0)" "\<not> blank (lit ''w'')" "0 < us_minute"
    "None \<noteq> Some []"
    by (simp_all add: one_delivery_rows unique_key_def aware_def utc_def blank_def lit_def py_space_def)
  show ?thesis
    unfolding claimed_once_def claim_eq[OF args, of utc_only "lit ''tok''"] sel
    by (simp add: one_delivery_message) (simp add: one_delivery_rows update_where_def)
qed

lemma claimed_once_ok:
  obtains s' c where "claimed_once = (s', Inr (Some c))" "cd_id c = lit ''d''" "cd_token c = lit ''tok''"
  using claimed_once_eq by (simp add: claimed_of_def one_delivery_rows) (simp add: new_delivery_row_def)

lemma claimed_once_reachable: "outbox_reachable utc_only DEFAULT_BACKOFF (fst claimed_once)"
  unfolding claimed_once_def by (rule outbox_reachable.step[OF one_delivery_reachable step_claim]) (simp add: lit_def)

theorem claim_exclusive_witness:
  "\<exists>s' c row. claimed_once = (s', Inr (Some c)) \<and> find_row ob_id (cd_id c) (deliveries one_delivery) = Some row
     \<and> message_from_row row = Inr (cd_message c)"
proof -
  obtain s' c where c: "claimed_once = (s', Inr (Some c))" by (rule claimed_once_ok)
  show ?thesis
    using c claim_exclusive[OF outbox_reachable_wf[OF one_delivery_reachable] c[unfolded claimed_once_def]] by blast
qed

text \<open>
  Enqueueing is idempotent: once a key was accepted, enqueueing it again, with whatever id,
  owner or message, returns False and changes nothing; and the accepted message is stored so that
  reading it back gives the same message, pending with no attempt used.
\<close>

lemma enqueue_idempotent:
  assumes "outbox_wf s" "message_object m" "enqueue db s did key owner m now prio k actor = (s', Inr True)"
    and "aware now'" "1 \<le> k'"
  shows "enqueue db s' did' key owner' m' now' prio' k' actor' = (s', Inr False)
     \<and> (\<exists>row. find_row ob_id did (deliveries s') = Some row \<and> ob_key row = key \<and> message_from_row row = Inr m
          \<and> ob_status row = OB_PENDING \<and> ob_attempts row = 0 \<and> ob_next_attempt row = time_text db now)
     \<and> count_where (\<lambda>r. ob_key r = key) (deliveries s') = 1"
proof -
  let ?r = "new_delivery_row did key owner m (time_text db now) prio k"
  from assms(3) have new: "\<not> insert_ignored s ?r" and s': "deliveries s' = deliveries s @ [?r]"
    by (auto simp: enqueue_def Let_def split: option.splits if_splits)
  have f: "ob_id ?r = did" "ob_key ?r = key" "ob_status ?r = OB_PENDING" "ob_attempts ?r = 0"
    "ob_next_attempt ?r = time_text db now"
    by (simp_all add: new_delivery_row_def)
  have "did \<notin> ob_id ` set (deliveries s)" and key: "key \<notin> ob_key ` set (deliveries s)"
    using new f unfolding insert_ignored_def by auto
  then have find: "find_row ob_id did (deliveries s') = Some ?r"
    using f(1) find_row_None_iff[of ob_id did "deliveries s"] by (simp add: s' find_row_append) (simp add: find_row_def)
  have "insert_ignored s' (new_delivery_row did' key owner' m' (time_text db now') prio' k')"
    using f(2) by (simp add: insert_ignored_def s') (simp add: new_delivery_row_def)
  then have "enqueue db s' did' key owner' m' now' prio' k' actor' = (s', Inr False)"
    using assms(4,5) by (simp add: enqueue_def Let_def)
  moreover have "message_from_row ?r = Inr m"
    using message_columns_round_trip[OF assms(2)] by (simp add: message_from_row_def new_delivery_row_def)
  moreover have "filter (\<lambda>r. ob_key r = key) (deliveries s) = []"
    using key by (auto simp: filter_empty_conv)
  ultimately show ?thesis using find f by (simp add: count_where_def s')
qed

lemma complete_holder:
  assumes "unique_key ob_id (deliveries s)" "aware now" "find_row ob_id did (deliveries s) = Some row"
    and "ob_status row = OB_SENDING" "lease_token row = tok"
  shows "find (holds_lease did tok) (deliveries s) = Some row"
  using assms find_row_SomeD[OF assms(3)] by (simp add: holds_lease_unique holds_lease_def)

lemma complete_not_holder:
  assumes "unique_key ob_id (deliveries s)" "aware now"
    and "\<And>row. find_row ob_id did (deliveries s) = Some row \<Longrightarrow> \<not> holds_lease did tok row"
  shows "complete db backoff s did tok result now = (s, Inl ConflictError)"
    and "complete_lease db backoff s did tok result now = (s, Inl ConflictError)"
    and "cd_id c = did \<Longrightarrow> cd_token c = tok \<Longrightarrow> aware next \<Longrightarrow> defer_for_quota db s c next now reason = (s, Inl ConflictError)"
proof -
  have none: "find (holds_lease did tok) (deliveries s) = None" "count_where (holds_lease did tok) (deliveries s) = 0"
    using assms(3) by (auto simp: holds_lease_unique[OF assms(1)] split: option.splits)
  then show "complete db backoff s did tok result now = (s, Inl ConflictError)"
    and "complete_lease db backoff s did tok result now = (s, Inl ConflictError)"
    and "cd_id c = did \<Longrightarrow> cd_token c = tok \<Longrightarrow> aware next \<Longrightarrow> defer_for_quota db s c next now reason = (s, Inl ConflictError)"
    using assms(2) by (simp_all add: complete_def complete_lease_def defer_for_quota_def Let_def)
qed

text \<open>
  C32. A lease that was lost is powerless: after another claim of the same delivery under a
  different token, the previous holder can neither complete nor defer it. Every attempt raises
  ConflictError and leaves the outbox as it was.
\<close>

theorem stale_lease_powerless:
  assumes "outbox_wf s" "claim db s worker now lease_for accounts token = (s', Inr (Some c'))"
    and "cd_id c = cd_id c'" "cd_token c \<noteq> token" "aware later" "aware next"
  shows "complete db backoff s' (cd_id c) (cd_token c) result later = (s', Inl ConflictError)
     \<and> complete_lease db backoff s' (cd_id c) (cd_token c) result later = (s', Inl ConflictError)
     \<and> defer_for_quota db s' c next later reason = (s', Inl ConflictError)"
proof -
  have u: "unique_key ob_id (deliveries s)" using outbox_wfD(1)[OF assms(1)] .
  have args: "aware now" "\<not> blank worker" "0 < lease_for" "accounts \<noteq> Some []"
    using assms(2) by (auto simp: claim_def split: if_splits)
  let ?u = "claim_update worker token (time_text db (dt_add now lease_for)) (time_text db now)"
  obtain row :: outbox_row where r: "cd_id c' = ob_id row" "s' = s\<lparr>deliveries := update_where (\<lambda>r. ob_id r = ob_id row) ?u (deliveries s)\<rparr>"
    using assms(2) unfolding claim_eq[OF u args]
    by (auto split: option.splits sum.splits simp: and_then_def claimed_of_def)
  have u': "unique_key ob_id (deliveries s')" using u by (simp add: r(2))
  have lost: "\<not> holds_lease (cd_id c) (cd_token c) x" if x: "find_row ob_id (cd_id c) (deliveries s') = Some x" for x
  proof -
    obtain y where y: "find_row ob_id (cd_id c) (deliveries s) = Some y"
      "x = (if ob_id y = ob_id row then ?u y else y)"
      using x by (auto simp: r(2) find_row_update_where)
    with find_row_SomeD[OF y(1)] assms(3) r(1) have "x = ?u y" by simp
    then show ?thesis using assms(4) by (simp add: holds_lease_def claim_update_def)
  qed
  show ?thesis
    using complete_not_holder(1)[OF u' assms(5), of "cd_id c" "cd_token c" db backoff result]
      complete_not_holder(2)[OF u' assms(5), of "cd_id c" "cd_token c" db backoff result]
      complete_not_holder(3)[OF u' assms(5) _ refl refl assms(6), of c db reason] lost by blast
qed

theorem stale_lease_powerless_witness:
  "\<exists>s' c. claimed_once = (s', Inr (Some c))
     \<and> complete utc_only DEFAULT_BACKOFF s' (cd_id c) (lit ''old'')
         \<lparr>delivery_ok = True, retryable = False, provider_code = [], provider_message_id = []\<rparr> (utc 9) = (s', Inl ConflictError)"
proof -
  obtain s' c where c: "claimed_once = (s', Inr (Some c))" "cd_token c = lit ''tok''" by (rule claimed_once_ok)
  have "complete utc_only DEFAULT_BACKOFF s' (cd_id (c\<lparr>cd_token := lit ''old''\<rparr>)) (cd_token (c\<lparr>cd_token := lit ''old''\<rparr>))
         \<lparr>delivery_ok = True, retryable = False, provider_code = [], provider_message_id = []\<rparr> (utc 9) = (s', Inl ConflictError)"
    using stale_lease_powerless[OF outbox_reachable_wf[OF one_delivery_reachable] c(1)[unfolded claimed_once_def],
        of "c\<lparr>cd_token := lit ''old''\<rparr>" "utc 9" "utc 9"]
    by (simp add: aware_def utc_def lit_def)
  then show ?thesis using c(1) by auto
qed

text \<open>
  C33. The lease holder's result settles the delivery: success makes it sent; a retryable failure
  with attempts left makes it wait for the configured delay of that attempt; any other failure
  makes it dead and leaves an unretried dead letter. In each case the lease is given up, the
  attempt count is kept and no other delivery changes.
\<close>

theorem complete_settles:
  assumes "outbox_wf s" "aware now" "find_row ob_id did (deliveries s) = Some row"
    and "ob_status row = OB_SENDING" "lease_token row = tok"
  shows "\<exists>s' row'. complete db backoff s did tok result now = (s', Inr (ob_status row'))
     \<and> find_row ob_id did (deliveries s') = Some row'
     \<and> ob_status row' = (if delivery_ok result then OB_SENT
          else if retryable result \<and> ob_attempts row < ob_max_attempts row then OB_RETRY_WAIT else OB_DEAD)
     \<and> lease_token row' = [] \<and> lease_expires row' = None \<and> ob_attempts row' = ob_attempts row
     \<and> message_from_row row' = message_from_row row
     \<and> (ob_status row' = OB_RETRY_WAIT \<longrightarrow> ob_next_attempt row' = time_text db (dt_add now
          (backoff ! min (nat (ob_attempts row) - 1) (length backoff - 1) * us_second)))
     \<and> (ob_status row' = OB_DEAD \<longrightarrow> (\<exists>d \<in> set (dead_letters s'). dl_delivery d = did \<and> dl_retried d = None))
     \<and> (\<forall>other. other \<noteq> did \<longrightarrow> find_row ob_id other (deliveries s') = find_row ob_id other (deliveries s))"
proof -
  have u: "unique_key ob_id (deliveries s)" using outbox_wfD(1)[OF assms(1)] .
  note lease = complete_holder[OF u assms(2-5)]
  have id: "ob_id row = did" using find_row_SomeD[OF assms(3)] by simp
  have idx: "backoff_index backoff (ob_attempts row) = min (nat (ob_attempts row) - 1) (length backoff - 1)"
    unfolding backoff_index_def by (cases "length backoff") (auto simp: min_def nat_diff_distrib)
  have other: "find_row ob_id k (update_where (\<lambda>r. ob_id r = did) f (deliveries s)) = find_row ob_id k (deliveries s)"
    if "k \<noteq> did" "\<And>r. ob_id (f r) = ob_id r" for k f
    using that by (cases "find_row ob_id k (deliveries s)") (auto simp: find_row_update_where dest: find_row_SomeD)
  show ?thesis
  proof (cases "delivery_ok result")
    case True
    then show ?thesis using lease assms(2,3) id other
      by (simp add: complete_def Let_def find_row_update_where)
  next
    case False
    show ?thesis
    proof (cases "retryable result \<and> ob_attempts row < ob_max_attempts row")
      case r: True
      then show ?thesis using False lease assms(2,3) id other
        by (simp add: complete_def Let_def find_row_update_where idx)
    next
      case d: False
      then show ?thesis using False lease assms(2,3) id other
        by (cases "retryable result") (simp_all add: complete_def Let_def find_row_update_where)
    qed
  qed
qed

text \<open>
  A dead letter can be retried whatever became of its delivery: the call never looks at the
  delivery's status or at an earlier retry, so a message that a first retry delivered is
  queued, and sent, again.
\<close>

lemma retry_dead_ignores_status:
  assumes "outbox_wf s" "aware now" "d \<in> set (dead_letters s)"
    and "find_row ob_id (dl_delivery d) (deliveries s) = Some row" "ob_status row = OB_SENT"
  shows "\<exists>s' row'. retry_dead db s (dl_id d) actor now = (s', Inr True)
     \<and> find_row ob_id (dl_delivery d) (deliveries s') = Some row'
     \<and> ob_status row' = OB_PENDING \<and> claimable (time_text db now) row' \<and> message_from_row row' = message_from_row row"
proof -
  have find: "find_row dl_id (dl_id d) (dead_letters s) = Some d"
    using find_row_Some_iff[OF outbox_wfD(5)[OF assms(1)]] assms(3) by blast
  have id: "ob_id row = dl_delivery d" using find_row_SomeD[OF assms(4)] by simp
  show ?thesis
    using assms(2,4) find id by (simp add: retry_dead_def Let_def find_row_update_where claimable_def)
qed

definition no_reply :: "bool \<Rightarrow> bool \<Rightarrow> channel_delivery_result" where
  "no_reply k r = \<lparr>delivery_ok = k, retryable = r, provider_code = [], provider_message_id = []\<rparr>"

theorem complete_settles_witness:
  "\<exists>s'. complete utc_only DEFAULT_BACKOFF (fst claimed_once) (lit ''d'') (lit ''tok'') (no_reply False True) (utc 0)
       = (s', Inr OB_RETRY_WAIT)"
proof -
  obtain row where row: "find_row ob_id (lit ''d'') (deliveries (fst claimed_once)) = Some row"
    "ob_status row = OB_SENDING" "lease_token row = lit ''tok''" "ob_attempts row = 1" "ob_max_attempts row = 5"
    by (simp add: claimed_once_eq one_delivery_rows find_row_def claim_update_def new_delivery_row_def)
  have "aware (utc 0)" by (simp add: aware_def utc_def)
  from complete_settles[OF outbox_reachable_wf[OF claimed_once_reachable] this row(1-3), of utc_only DEFAULT_BACKOFF "no_reply False True"]
  show ?thesis using row(4,5) by (auto simp: no_reply_def)
qed

text \<open>The delivery of the example, sent, with the dead letter of an earlier failure.\<close>

definition sent_with_letter :: outbox where
  "sent_with_letter = one_delivery\<lparr>deliveries := map (\<lambda>r. r\<lparr>ob_status := OB_SENT, ob_attempts := 1\<rparr>) (deliveries one_delivery),
     dead_letters := [\<lparr>dl_id = lit ''dead_d'', dl_delivery = lit ''d'', dl_reason = [], dl_created = [], dl_retried = Some []\<rparr>]\<rparr>"

lemma retry_dead_ignores_status_example:
  "\<exists>s'. retry_dead utc_only sent_with_letter (lit ''dead_d'') (lit ''op'') (utc 4) = (s', Inr True)"
proof -
  let ?d = "\<lparr>dl_id = lit ''dead_d'', dl_delivery = lit ''d'', dl_reason = [], dl_created = [], dl_retried = Some []\<rparr>"
  have wf: "outbox_wf sent_with_letter"
    using outbox_reachable_wf[OF one_delivery_reachable]
    by (simp add: outbox_wf_def sent_with_letter_def one_delivery_rows unique_key_def row_ok_def)
      (simp add: new_delivery_row_def lit_def)
  obtain row where row: "find_row ob_id (dl_delivery ?d) (deliveries sent_with_letter) = Some row" "ob_status row = OB_SENT"
    by (simp add: sent_with_letter_def one_delivery_rows find_row_def new_delivery_row_def)
  have "aware (utc 4)" "?d \<in> set (dead_letters sent_with_letter)"
    by (simp_all add: aware_def utc_def sent_with_letter_def)
  from retry_dead_ignores_status[OF wf this row] show ?thesis by auto
qed

end
