(* ===== verification/Quota.thy ===== *)
theory Quota
  imports Outbox
begin

text \<open>
  Persistent quotas, \<^verbatim>\<open>src/zhixu/delivery/quota.py\<close>: scopes, rules, the window a time falls into and
  \<^verbatim>\<open>QuotaManager.reserve\<close> on the table \<^verbatim>\<open>quota_usage\<close>.
\<close>

datatype quota_window = QW_SECOND | QW_MINUTE | QW_DAY

fun quota_window_value :: "quota_window \<Rightarrow> pystr" where
  "quota_window_value QW_SECOND = lit ''second''"
| "quota_window_value QW_MINUTE = lit ''minute''"
| "quota_window_value QW_DAY = lit ''day''"

definition quota_kinds :: "pystr set" where
  "quota_kinds = {lit ''provider'', lit ''account'', lit ''conversation'', lit ''user''}"

record quota_scope =
  qs_kind :: pystr
  qs_ref :: pystr

definition new_quota_scope :: "quota_scope \<Rightarrow> quota_scope res" where
  "new_quota_scope q = guarded
     [(qs_kind q \<notin> quota_kinds, ValidationError), (blank (qs_ref q), ValidationError)] q"

record quota_rule =
  qr_kind :: pystr
  qr_window :: quota_window
  qr_limit :: int
  qr_timezone :: pystr

text \<open>The last check is \<^verbatim>\<open>ZoneInfo(self.timezone)\<close>, whose ZoneInfoNotFoundError is a KeyError.\<close>

definition new_quota_rule :: "tzdb \<Rightarrow> quota_rule \<Rightarrow> quota_rule res" where
  "new_quota_rule db q = guarded
     [(qr_kind q \<notin> quota_kinds, ValidationError), (qr_limit q < 1, ValidationError),
      (\<not> z_known db (qr_timezone q), KeyErr)] q"

record quota_decision =
  qd_allowed :: bool
  qd_next :: datetime
  qd_reason :: pystr

text \<open>\<^verbatim>\<open>local.replace(\<dots>=0)\<close> keeps the fold; adding the length clears it.\<close>

fun window_length :: "quota_window \<Rightarrow> micros" where
  "window_length QW_SECOND = us_second"
| "window_length QW_MINUTE = us_minute"
| "window_length QW_DAY = us_day"

definition quota_bounds :: "tzdb \<Rightarrow> datetime \<Rightarrow> quota_rule \<Rightarrow> datetime \<times> datetime" where
  "quota_bounds db now rule =
     (let lt = astimezone db now (ZoneInfo (qr_timezone rule));
          len = window_length (qr_window rule);
          start = lt\<lparr>dt_wall := dt_wall lt - dt_wall lt mod len\<rparr>
      in (astimezone db start TzUTC, astimezone db (dt_add start len) TzUTC))"

record quota_row =
  qu_kind :: pystr
  qu_ref :: pystr
  qu_window :: pystr
  qu_start :: pystr
  qu_used :: int

type_synonym quota_key = "pystr \<times> pystr \<times> pystr \<times> pystr"

definition quota_key :: "quota_row \<Rightarrow> quota_key" where
  "quota_key r = (qu_kind r, qu_ref r, qu_window r, qu_start r)"

definition used_of :: "quota_row list \<Rightarrow> quota_key \<Rightarrow> int" where
  "used_of t k = (case find_row quota_key k t of None \<Rightarrow> 0 | Some r \<Rightarrow> qu_used r)"

text \<open>INSERT with ON CONFLICT DO UPDATE SET used=used+1.\<close>

definition count_use :: "quota_key \<Rightarrow> quota_row list \<Rightarrow> quota_row list" where
  "count_use k t = (case find_row quota_key k t of
       None \<Rightarrow> (case k of (a, b, c, d) \<Rightarrow> t @ [\<lparr>qu_kind = a, qu_ref = b, qu_window = c, qu_start = d, qu_used = 1\<rparr>])
     | Some r \<Rightarrow> update_where (\<lambda>r. quota_key r = k) (\<lambda>r. r\<lparr>qu_used := qu_used r + 1\<rparr>) t)"

text \<open>A check: the rule, its row's key, the end of its window, and its name in the reason.\<close>

type_synonym quota_check = "quota_rule \<times> quota_key \<times> datetime \<times> pystr"

definition quota_check :: "tzdb \<Rightarrow> datetime \<Rightarrow> quota_rule \<Rightarrow> quota_scope \<Rightarrow> quota_check" where
  "quota_check db now rule scope = (case quota_bounds db now rule of (start, end) \<Rightarrow>
     (rule, (qs_kind scope, qs_ref scope, quota_window_value (qr_window rule), isoformat_utc (instant db start)),
      end, qs_kind scope @ lit '':'' @ quota_window_value (qr_window rule)))"

definition quota_checks :: "tzdb \<Rightarrow> quota_rule list \<Rightarrow> quota_scope list \<Rightarrow> datetime \<Rightarrow> quota_check list res" where
  "quota_checks db rules scopes now = map_res (\<lambda>rule.
       case find_row qs_kind (qr_kind rule) scopes of
         None \<Rightarrow> Inl ValidationError | Some scope \<Rightarrow> Inr (quota_check db now rule scope)) rules"

definition exhausted :: "quota_row list \<Rightarrow> quota_check \<Rightarrow> bool" where
  "exhausted t c = (case c of (rule, key, e, name) \<Rightarrow>
     (case find_row quota_key key t of None \<Rightarrow> False | Some r \<Rightarrow> qu_used r \<ge> qr_limit rule))"

text \<open>\<^verbatim>\<open>max\<close> of a non-empty list of UTC times.\<close>

fun latest :: "tzdb \<Rightarrow> datetime list \<Rightarrow> datetime" where
  "latest db [] = utc 0"
| "latest db [t] = t"
| "latest db (t # u # ts) = (let m = latest db (u # ts) in if dt_less db t m then m else t)"

definition reserve :: "tzdb \<Rightarrow> quota_rule list \<Rightarrow> quota_row list \<Rightarrow> quota_scope list \<Rightarrow> datetime
    \<Rightarrow> quota_row list \<times> quota_decision res" where
  "reserve db rules t scopes now =
     (case raised [(\<not> aware now, ValidationError), (\<not> distinct (map qs_kind scopes), ValidationError)] of
        Some e \<Rightarrow> (t, Inl e)
      | None \<Rightarrow> (case quota_checks db rules scopes now of
           Inl e \<Rightarrow> (t, Inl e)
         | Inr checks \<Rightarrow>
            (let blocked = filter (exhausted t) checks
             in if blocked \<noteq> []
                then (t, Inr \<lparr>qd_allowed = False, qd_next = latest db (map (\<lambda>(r, k, e, n). e) blocked),
                       qd_reason = lit ''quota_exhausted:'' @ py_join (lit '','') (sort (map (\<lambda>(r, k, e, n). n) blocked))\<rparr>)
                else (fold (\<lambda>(r, k, e, n). count_use k) checks t,
                      Inr \<lparr>qd_allowed = True, qd_next = now, qd_reason = lit ''reserved''\<rparr>))))"

section \<open>Lemmas\<close>

lemma quota_key_used_update [simp]: "quota_key (r\<lparr>qu_used := u\<rparr>) = quota_key r"
  by (simp add: quota_key_def)

lemma used_count_use:
  "used_of (count_use k t) k' = used_of t k' + (if k' = k then 1 else 0)"
proof (cases "find_row quota_key k t")
  case None
  obtain a b c d where k: "k = (a, b, c, d)" by (cases k) auto
  let ?r = "\<lparr>qu_kind = a, qu_ref = b, qu_window = c, qu_start = d, qu_used = 1\<rparr>"
  have one: "find_row quota_key k' [?r] = (if k' = k then Some ?r else None)"
    by (simp add: find_row_def quota_key_def k)
  have "count_use k t = t @ [?r]" using None by (simp add: count_use_def k)
  then show ?thesis using None one
    by (cases "find_row quota_key k' t") (auto simp: used_of_def find_row_append)
next
  case (Some r)
  then show ?thesis
    by (cases "find_row quota_key k' t")
      (auto simp: count_use_def used_of_def find_row_update_where dest: find_row_SomeD)
qed

lemma used_fold:
  "used_of (fold (\<lambda>(r, k, e, n). count_use k) checks t) k'
     = used_of t k' + int (length (filter (\<lambda>c. fst (snd c) = k') checks))"
  by (induction checks arbitrary: t) (auto simp: used_count_use)

text \<open>Rules that name each scope and window once, so that a reservation counts each row once.\<close>

definition distinct_rules :: "quota_rule list \<Rightarrow> bool" where
  "distinct_rules rules \<longleftrightarrow> distinct (map (\<lambda>r. (qr_kind r, qr_window r)) rules)"

lemma window_value_inj: "quota_window_value a = quota_window_value b \<longleftrightarrow> a = b"
  by (cases a; cases b) (simp_all add: lit_def)

text \<open>The scope kind and the window of a check's row are its rule's.\<close>

definition check_names :: "quota_check \<Rightarrow> bool" where
  "check_names c \<longleftrightarrow> fst (fst (snd c)) = qr_kind (fst c)
     \<and> fst (snd (snd (fst (snd c)))) = quota_window_value (qr_window (fst c))"

lemma quota_check_names:
  assumes "find_row qs_kind (qr_kind rule) scopes = Some scope"
  shows "fst (quota_check db now rule scope) = rule" "check_names (quota_check db now rule scope)"
  using find_row_SomeD[OF assms] by (simp_all add: quota_check_def check_names_def split_beta)

lemma quota_checks_facts:
  assumes "quota_checks db rules scopes now = Inr checks"
  shows "map fst checks = rules \<and> list_all check_names checks"
  using assms
proof (induction rules arbitrary: checks)
  case Nil
  then show ?case by (simp add: quota_checks_def)
next
  case (Cons rule rules)
  then obtain scope cs where "find_row qs_kind (qr_kind rule) scopes = Some scope"
    "checks = quota_check db now rule scope # cs" "quota_checks db rules scopes now = Inr cs"
    by (auto simp: quota_checks_def split: option.splits sum.splits)
  with Cons.IH show ?case using quota_check_names by simp
qed

lemma check_key_rule:
  assumes "check_names c" "check_names d" "fst (snd c) = fst (snd d)"
  shows "(qr_kind (fst c), qr_window (fst c)) = (qr_kind (fst d), qr_window (fst d))"
  using assms window_value_inj unfolding check_names_def by auto

text \<open>With distinct rules each check has a row of its own.\<close>

lemma distinct_check_keys:
  assumes "distinct_rules (map fst checks)" "list_all check_names checks"
  shows "distinct (map (\<lambda>c. fst (snd c)) checks)"
  using assms
proof (induction checks)
  case Nil
  then show ?case by simp
next
  case (Cons c checks)
  have "fst (snd c) \<noteq> fst (snd d)" if "d \<in> set checks" for d
  proof
    assume "fst (snd c) = fst (snd d)"
    then have "(qr_kind (fst c), qr_window (fst c)) = (qr_kind (fst d), qr_window (fst d))"
      using check_key_rule Cons.prems(2) that by (simp add: list_all_iff)
    then show False using Cons.prems(1) that by (force simp: distinct_rules_def)
  qed
  then have "fst (snd c) \<notin> (\<lambda>c. fst (snd c)) ` set checks" by blast
  moreover have "distinct (map (\<lambda>c. fst (snd c)) checks)" using Cons by (simp add: distinct_rules_def)
  ultimately show ?case by simp
qed

lemma distinct_count_one: "distinct (map f xs) \<Longrightarrow> x \<in> set xs \<Longrightarrow> length (filter (\<lambda>y. f y = f x) xs) = 1"
proof (induction xs)
  case Nil
  then show ?case by simp
next
  case (Cons y xs)
  show ?case
  proof (cases "f y = f x")
    case True
    then have "f x \<notin> f ` set xs" using Cons.prems(1) by simp
    then have "filter (\<lambda>z. f z = f x) xs = []" unfolding filter_empty_conv by (metis imageI)
    with True show ?thesis by simp
  next
    case False
    then show ?thesis using Cons by auto
  qed
qed

section \<open>Properties\<close>

text \<open>The rows of a check that is not exhausted are below its limit.\<close>

lemma not_exhausted: "\<not> exhausted t c \<Longrightarrow> 1 \<le> qr_limit (fst c) \<Longrightarrow> used_of t (fst (snd c)) < qr_limit (fst c)"
  by (auto simp: exhausted_def used_of_def split: prod.splits option.splits)

definition within_limits :: "quota_rule list \<Rightarrow> quota_row list \<Rightarrow> bool" where
  "within_limits rules t \<longleftrightarrow> (\<forall>r \<in> set rules. \<forall>ref start.
     used_of t (qr_kind r, ref, quota_window_value (qr_window r), start) \<le> qr_limit r)"

lemma reserve_cases:
  assumes "reserve db rules t scopes now = (t', Inr d)"
  obtains checks where "quota_checks db rules scopes now = Inr checks"
    "if qd_allowed d then filter (exhausted t) checks = [] \<and> t' = fold (\<lambda>(r, k, e, n). count_use k) checks t
     else filter (exhausted t) checks \<noteq> [] \<and> t' = t"
  using assms by (auto simp: reserve_def Let_def split: option.splits sum.splits if_splits)

text \<open>
  C23. No reservation exceeds a quota: with rules that name each scope kind and window once and
  positive limits, the use counted for every rule, reference and window stays within the rule's
  limit, whatever sequence of reservations is made.
\<close>

theorem reserve_within_limits:
  assumes "distinct_rules rules" "\<forall>r \<in> set rules. 1 \<le> qr_limit r" "within_limits rules t"
    and "reserve db rules t scopes now = (t', d)"
  shows "within_limits rules t'"
proof (cases "\<exists>x. d = Inr x \<and> qd_allowed x")
  case False
  then have "t' = t"
    using assms(4) by (auto simp: reserve_def Let_def split: option.splits sum.splits if_splits)
  then show ?thesis using assms(3) by simp
next
  case True
  then obtain x where x: "reserve db rules t scopes now = (t', Inr x)" "qd_allowed x" using assms(4) by auto
  obtain checks where c: "quota_checks db rules scopes now = Inr checks"
    "filter (exhausted t) checks = []" "t' = fold (\<lambda>(r, k, e, n). count_use k) checks t"
    by (rule reserve_cases[OF x(1)]) (use x(2) in auto)
  have rules: "map fst checks = rules" "list_all check_names checks" using quota_checks_facts[OF c(1)] by auto
  have dk: "distinct (map (\<lambda>c. fst (snd c)) checks)"
    by (rule distinct_check_keys) (use rules assms(1) in auto)
  show ?thesis
    unfolding within_limits_def
  proof (intro ballI allI)
    fix r and ref start :: pystr
    assume r: "r \<in> set rules"
    let ?k = "(qr_kind r, ref, quota_window_value (qr_window r), start)"
    show "used_of t' ?k \<le> qr_limit r"
    proof (cases "\<exists>ch \<in> set checks. fst (snd ch) = ?k")
      case False
      then have "filter (\<lambda>c. fst (snd c) = ?k) checks = []" by (auto simp: filter_empty_conv)
      then show ?thesis using assms(3) r by (simp add: c(3) used_fold within_limits_def)
    next
      case True
      then obtain ch where ch: "ch \<in> set checks" "fst (snd ch) = ?k" by blast
      then have "check_names ch" using rules(2) by (simp add: list_all_iff)
      then have "(qr_kind (fst ch), qr_window (fst ch)) = (qr_kind r, qr_window r)"
        using ch(2) window_value_inj by (auto simp: check_names_def)
      moreover have "fst ch \<in> set rules" using ch(1) rules(1) by auto
      ultimately have same: "fst ch = r"
        using assms(1) r by (auto simp: distinct_rules_def distinct_map inj_on_def)
      have "\<not> exhausted t ch" using c(2) ch(1) by (auto simp: filter_empty_conv)
      then have "used_of t ?k < qr_limit r" using not_exhausted[of t ch] assms(2) r same ch(2) by simp
      moreover have "length (filter (\<lambda>c. fst (snd c) = ?k) checks) = 1"
        using distinct_count_one[OF dk ch(1)] ch(2) by simp
      ultimately show ?thesis by (simp add: c(3) used_fold)
    qed
  qed
qed

definition sample_rules :: "quota_rule list" where
  "sample_rules = [\<lparr>qr_kind = lit ''user'', qr_window = QW_DAY, qr_limit = 2, qr_timezone = lit ''UTC''\<rparr>]"

theorem reserve_within_limits_witness:
  "within_limits sample_rules (fst (reserve utc_only sample_rules [] [\<lparr>qs_kind = lit ''user'', qs_ref = lit ''u''\<rparr>] (utc 0)))"
proof -
  have "distinct_rules sample_rules" "\<forall>r \<in> set sample_rules. 1 \<le> qr_limit r" "within_limits sample_rules []"
    by (simp_all add: sample_rules_def distinct_rules_def within_limits_def used_of_def find_row_def)
  from reserve_within_limits[OF this, of utc_only "[\<lparr>qs_kind = lit ''user'', qs_ref = lit ''u''\<rparr>]" "utc 0"]
  show ?thesis by (metis prod.collapse)
qed

text \<open>
  A reservation is all or nothing: when it is refused some rule is exhausted and no use is
  counted, and when it is granted no rule was exhausted and exactly the rows of the checked rules
  grew by one.
\<close>

lemma reserve_atomic:
  assumes "distinct_rules rules" "reserve db rules t scopes now = (t', Inr d)"
  shows "\<exists>checks. quota_checks db rules scopes now = Inr checks
     \<and> (if qd_allowed d
        then (\<forall>c \<in> set checks. \<not> exhausted t c)
          \<and> (\<forall>k. used_of t' k = used_of t k + (if \<exists>c \<in> set checks. fst (snd c) = k then 1 else 0))
        else (\<exists>c \<in> set checks. exhausted t c) \<and> t' = t)"
proof -
  obtain checks where c: "quota_checks db rules scopes now = Inr checks"
    "if qd_allowed d then filter (exhausted t) checks = [] \<and> t' = fold (\<lambda>(r, k, e, n). count_use k) checks t
     else filter (exhausted t) checks \<noteq> [] \<and> t' = t"
    by (rule reserve_cases[OF assms(2)])
  have rules: "map fst checks = rules" "list_all check_names checks" using quota_checks_facts[OF c(1)] by auto
  have dk: "distinct (map (\<lambda>c. fst (snd c)) checks)"
    by (rule distinct_check_keys) (use rules assms(1) in auto)
  have one: "int (length (filter (\<lambda>c. fst (snd c) = k) checks)) = (if \<exists>c \<in> set checks. fst (snd c) = k then 1 else 0)" for k
  proof (cases "\<exists>c \<in> set checks. fst (snd c) = k")
    case True
    then obtain c where c: "c \<in> set checks" "fst (snd c) = k" by blast
    show ?thesis using distinct_count_one[OF dk c(1)] c by auto
  next
    case False
    then show ?thesis by (auto simp: filter_empty_conv)
  qed
  show ?thesis
    using c one by (cases "qd_allowed d") (auto simp: filter_empty_conv used_fold)
qed

end
