(* ===== verification/Renderer.thy ===== *)
theory Renderer
  imports Entities
begin

text \<open>
  Capability-aware degradation of messages, \<^verbatim>\<open>src/zhixu/delivery/renderer.py\<close>: the three text
  substitutions of \<^verbatim>\<open>_plain_markdown\<close> as left-to-right scanners, and \<^verbatim>\<open>render_for_capabilities\<close>.
\<close>

section \<open>Plain text of Markdown\<close>

text \<open>
  The pattern \<^verbatim>\<open>(?m)^#{1,6}\s*\<close>: at a line start up to six number signs and the white space after
  them, line breaks included, are dropped. The flag says whether the scan stands at a line
  start, which the last consumed character decides.
\<close>

fun count_hashes :: "nat \<Rightarrow> pystr \<Rightarrow> nat" where
  "count_hashes 0 s = 0"
| "count_hashes (Suc n) [] = 0"
| "count_hashes (Suc n) (c # s) = (if c = 35 then Suc (count_hashes n s) else 0)"

definition ends_line :: "pystr \<Rightarrow> bool" where
  "ends_line s \<longleftrightarrow> s \<noteq> [] \<and> List.last s = 10"

function strip_headings :: "bool \<Rightarrow> pystr \<Rightarrow> pystr" where
  "strip_headings at_start [] = []"
| "strip_headings at_start (c # s) =
     (if at_start \<and> c = 35
      then (let n = count_hashes 6 (c # s);
                rest = drop n (c # s)
            in strip_headings (ends_line (takeWhile py_space rest)) (dropWhile py_space rest))
      else c # strip_headings (c = 10) s)"
  by pat_completeness auto
termination
proof (relation "measure (\<lambda>(b, s). length s)", goal_cases)
  case 1
  show ?case by simp
next
  case (2 at_start c s x xa)
  have "length (dropWhile py_space (drop (Suc k) (c # s))) \<le> length s" for k
    using length_dropWhile_le[of py_space "drop (Suc k) (c # s)"] by simp
  moreover have "count_hashes 6 (c # s) = Suc (count_hashes 5 s)"
    using 2(1) by (simp add: numeral_eq_Suc)
  ultimately show ?case using 2(2,3) by (simp add: le_imp_less_Suc)
next
  case (3 at_start c s)
  show ?case by simp
qed

text \<open>\<^verbatim>\<open>text.replace(xx, "")\<close> for a doubled character.\<close>

fun drop_doubled :: "nat \<Rightarrow> pystr \<Rightarrow> pystr" where
  "drop_doubled c (a # b # s) = (if a = c \<and> b = c then drop_doubled c s else a # drop_doubled c (b # s))"
| "drop_doubled c s = s"

text \<open>The characters a backslash may escape: \<^verbatim>\<open>\`*_{}[]()#+-.!>|\<close>.\<close>

definition escapable :: "nat \<Rightarrow> bool" where
  "escapable c \<longleftrightarrow> c \<in> {92, 96, 42, 95, 123, 125, 91, 93, 40, 41, 35, 43, 45, 46, 33, 62, 124}"

fun unescape :: "pystr \<Rightarrow> pystr" where
  "unescape (a # b # s) = (if a = 92 \<and> escapable b then b # unescape s else a # unescape (b # s))"
| "unescape s = s"

definition plain_markdown :: "pystr \<Rightarrow> pystr" where
  "plain_markdown v = unescape (drop_doubled 95 (drop_doubled 42 (strip_headings True v)))"

section \<open>Rendering\<close>

definition choice_line :: "nat \<Rightarrow> message_button \<Rightarrow> pystr" where
  "choice_line i b = dec (int i) @ lit ''. '' @ btn_label b @ [32, 0x2014, 32] @ btn_action b"

definition choices_text :: "message_button list \<Rightarrow> pystr" where
  "choices_text bs = py_join [10] (map (\<lambda>i. choice_line (Suc i) (bs ! i)) [0..<length bs])"

text \<open>Each step of the function: Markdown, buttons, the attachment, the two previews.\<close>

definition degrade_markdown :: "channel_capabilities \<Rightarrow> outbound_message \<Rightarrow> outbound_message" where
  "degrade_markdown cap m = (if msg_kind m = MSG_MARKDOWN \<and> \<not> cap_markdown cap
     then m\<lparr>msg_text := plain_markdown (msg_text m), msg_kind := MSG_TEXT\<rparr> else m)"

definition degrade_buttons :: "channel_capabilities \<Rightarrow> outbound_message \<Rightarrow> outbound_message" where
  "degrade_buttons cap m = (if msg_buttons m \<noteq> [] \<and> \<not> cap_buttons cap
     then m\<lparr>msg_text := py_strip (msg_text m @ [10] @ choices_text (msg_buttons m)), msg_buttons := [], msg_kind := MSG_TEXT\<rparr>
     else m)"

definition degrade_attachment :: "channel_capabilities \<Rightarrow> outbound_message \<Rightarrow> outbound_message" where
  "degrade_attachment cap m = (case attachment_url m of
       Some u \<Rightarrow> if u \<noteq> [] \<and> \<not> cap_attachments cap
         then m\<lparr>msg_text := py_strip (msg_text m @ [10, 0x9644, 0x4EF6, 0xFF1A] @ u), attachment_url := None, msg_kind := MSG_TEXT\<rparr>
         else m
     | None \<Rightarrow> m)"

definition degrade_previews :: "channel_capabilities \<Rightarrow> outbound_message \<Rightarrow> outbound_message" where
  "degrade_previews cap m = (if \<not> cap_attachments cap
     then m\<lparr>msg_calendar_preview := None, msg_daily_agenda_preview := None\<rparr> else m)"

definition render_for_capabilities :: "outbound_message \<Rightarrow> channel_capabilities \<Rightarrow> outbound_message res" where
  "render_for_capabilities m cap =
     (if \<not> outbound_text cap then Inl ValidationError
      else new_outbound_message (degrade_previews cap (degrade_attachment cap (degrade_buttons cap (degrade_markdown cap m)))))"

section \<open>Lemmas\<close>

lemmas degrade_defs = degrade_previews_def degrade_attachment_def degrade_buttons_def degrade_markdown_def

text \<open>What a channel can show.\<close>

definition fits :: "channel_capabilities \<Rightarrow> outbound_message \<Rightarrow> bool" where
  "fits cap m \<longleftrightarrow> (msg_kind m = MSG_MARKDOWN \<longrightarrow> cap_markdown cap)
     \<and> (msg_buttons m \<noteq> [] \<longrightarrow> cap_buttons cap)
     \<and> (cap_attachments cap \<or> (attachment_url m \<in> {None, Some []} \<and> msg_calendar_preview m = None
          \<and> msg_daily_agenda_preview m = None))"

definition degrade :: "channel_capabilities \<Rightarrow> outbound_message \<Rightarrow> outbound_message" where
  "degrade cap m = degrade_previews cap (degrade_attachment cap (degrade_buttons cap (degrade_markdown cap m)))"

lemma degrade_fits: "fits cap (degrade cap m)"
  by (auto simp: fits_def degrade_def degrade_defs split: option.splits)

lemma degrade_id: "fits cap m \<Longrightarrow> degrade cap m = m"
  by (cases m) (auto simp: fits_def degrade_def degrade_defs split: option.splits)

lemma degrade_routing:
  "msg_channel (degrade cap m) = msg_channel m" "msg_channel_account (degrade cap m) = msg_channel_account m"
  "msg_target_ref (degrade cap m) = msg_target_ref m" "reply_context_ref (degrade cap m) = reply_context_ref m"
  "msg_classification (degrade cap m) = msg_classification m"
  by (auto simp: degrade_def degrade_defs split: option.splits)

lemma render_Inr:
  "render_for_capabilities m cap = Inr r \<longleftrightarrow>
     outbound_text cap \<and> r = degrade cap m \<and> new_outbound_message (degrade cap m) = Inr (degrade cap m)"
  unfolding render_for_capabilities_def degrade_def new_outbound_message_def by (auto simp: guarded_Inr)

text \<open>Text without number signs, asterisks, underscores and backslashes is left as it is.\<close>

lemma strip_headings_plain: "35 \<notin> set s \<Longrightarrow> strip_headings b s = s"
  by (induction b s rule: strip_headings.induct) auto

lemma drop_doubled_plain: "c \<notin> set s \<Longrightarrow> drop_doubled c s = s"
  by (induction c s rule: drop_doubled.induct) auto

lemma unescape_plain: "92 \<notin> set s \<Longrightarrow> unescape s = s"
  by (induction s rule: unescape.induct) auto

lemma plain_markdown_plain: "set s \<inter> {35, 42, 95, 92} = {} \<Longrightarrow> plain_markdown s = s"
  by (auto simp: plain_markdown_def strip_headings_plain drop_doubled_plain unescape_plain)

section \<open>Properties\<close>

text \<open>
  C39. A rendered message fits its channel and goes where it was addressed: it uses Markdown,
  buttons, attachments and previews only where the channel supports them, keeps the channel,
  account, target, reply context and classification, equals the original when that already fits,
  and rendering it again changes nothing.
\<close>

theorem render_fits_and_stable:
  assumes "render_for_capabilities m cap = Inr r"
  shows "outbound_text cap \<and> fits cap r
     \<and> (msg_channel r, msg_channel_account r, msg_target_ref r, reply_context_ref r, msg_classification r)
       = (msg_channel m, msg_channel_account m, msg_target_ref m, reply_context_ref m, msg_classification m)
     \<and> (fits cap m \<longrightarrow> r = m)
     \<and> render_for_capabilities r cap = Inr r"
  using assms degrade_fits[of cap m] degrade_id degrade_routing[of cap m]
  unfolding render_Inr by (metis degrade_id)

definition text_only :: channel_capabilities where
  "text_only = \<lparr>inbound_text = True, outbound_text = True, cap_markdown = False, proactive_push = False,
     cap_buttons = False, cap_attachments = False, cap_voice = False, cap_groups = False\<rparr>"

definition markdown_message :: outbound_message where
  "markdown_message = \<lparr>msg_channel = lit ''qq'', msg_channel_account = lit ''bot'', msg_target_ref = lit ''t'',
     msg_kind = MSG_MARKDOWN, msg_text = lit ''**hi**'', msg_buttons = [], attachment_url = None, reply_context_ref = [],
     msg_classification = PERSONAL, msg_calendar_preview = None, msg_daily_agenda_preview = None\<rparr>"

theorem render_fits_and_stable_witness:
  "\<exists>r. render_for_capabilities markdown_message text_only = Inr r \<and> msg_text r = lit ''hi'' \<and> fits text_only r"
proof -
  have "plain_markdown (lit ''**hi**'') = lit ''hi''"
    by (simp add: plain_markdown_def lit_def strip_headings_plain drop_doubled_plain unescape_plain)
  then have r: "render_for_capabilities markdown_message text_only
      = Inr (markdown_message\<lparr>msg_text := lit ''hi'', msg_kind := MSG_TEXT\<rparr>)"
    by (simp add: render_for_capabilities_def text_only_def markdown_message_def degrade_defs new_outbound_message_def
        guarded_def blank_def lit_def py_space_def)
  from render_fits_and_stable[OF r] r show ?thesis by (auto simp: markdown_message_def)
qed

end
