(* ===== verification/Delivery.thy ===== *)
theory Delivery
  imports Quota Renderer
begin

text \<open>
  The delivery worker, \<^verbatim>\<open>src/zhixu/delivery/worker.py\<close>: one tick claims a delivery, reserves quota,
  renders the message for the channel, sends it and settles the outcome. The worker's use of the
  outbox is stated as the locale \<open>leased_queue\<close> and interpreted on the outbox of the model. An
  adapter's \<^verbatim>\<open>send\<close> is an argument (a result, or the exception it raises); what was handed to an
  adapter is recorded in the tick's third result.
\<close>

section \<open>The interface of a queue with leases\<close>

locale leased_queue =
  fixes inv :: "'s \<Rightarrow> bool"
    and holder :: "'s \<Rightarrow> pystr \<Rightarrow> pystr option"
    and take_one :: "pystr \<Rightarrow> datetime \<Rightarrow> 's \<Rightarrow> 's \<times> claimed_delivery option res"
    and settle :: "claimed_delivery \<Rightarrow> channel_delivery_result \<Rightarrow> datetime \<Rightarrow> 's \<Rightarrow> 's \<times> outbox_status res"
    and defer_one :: "claimed_delivery \<Rightarrow> datetime \<Rightarrow> pystr \<Rightarrow> datetime \<Rightarrow> 's \<Rightarrow> 's \<times> unit res"
  assumes take_inv: "inv s \<Longrightarrow> token \<noteq> [] \<Longrightarrow> inv (fst (take_one token now s))"
    and take_holds: "inv s \<Longrightarrow> token \<noteq> [] \<Longrightarrow> take_one token now s = (s', Inr (Some c)) \<Longrightarrow>
      aware now \<and> cd_token c = token \<and> holder s' (cd_id c) = Some token
      \<and> (\<forall>k. k \<noteq> cd_id c \<longrightarrow> holder s' k = holder s k)"
    and take_none: "take_one token now s = (s', Inr None) \<Longrightarrow> inv s \<Longrightarrow> s' = s"
    and settle_releases: "inv s \<Longrightarrow> aware now \<Longrightarrow> holder s (cd_id c) = Some (cd_token c) \<Longrightarrow>
      \<exists>s' st. settle c result now s = (s', Inr st) \<and> st \<noteq> OB_SENDING \<and> inv s' \<and> holder s' (cd_id c) = None
        \<and> (\<forall>k. k \<noteq> cd_id c \<longrightarrow> holder s' k = holder s k)"
    and defer_releases: "inv s \<Longrightarrow> aware now \<Longrightarrow> aware until \<Longrightarrow> holder s (cd_id c) = Some (cd_token c) \<Longrightarrow>
      \<exists>s'. defer_one c until reason now s = (s', Inr ()) \<and> inv s' \<and> holder s' (cd_id c) = None
        \<and> (\<forall>k. k \<noteq> cd_id c \<longrightarrow> holder s' k = holder s k)"
begin

text \<open>A worker that settles or defers what it just took never conflicts and gives the lease up.\<close>

lemma take_then_settle:
  assumes "inv s" "token \<noteq> []" "take_one token now s = (s', Inr (Some c))"
  shows "\<exists>s2 st. settle c result now s' = (s2, Inr st) \<and> st \<noteq> OB_SENDING \<and> inv s2 \<and> holder s2 (cd_id c) = None
     \<and> (\<forall>k. k \<noteq> cd_id c \<longrightarrow> holder s2 k = holder s k)"
proof -
  have "inv s'" using take_inv[OF assms(1,2), of now] assms(3) by simp
  then show ?thesis using take_holds[OF assms] settle_releases[of s' now c result] by auto
qed

lemma take_then_defer:
  assumes "inv s" "token \<noteq> []" "take_one token now s = (s', Inr (Some c))" "aware until"
  shows "\<exists>s2. defer_one c until reason now s' = (s2, Inr ()) \<and> inv s2 \<and> holder s2 (cd_id c) = None
     \<and> (\<forall>k. k \<noteq> cd_id c \<longrightarrow> holder s2 k = holder s k)"
proof -
  have "inv s'" using take_inv[OF assms(1,2), of now] assms(3) by simp
  then show ?thesis using take_holds[OF assms(1-3)] defer_releases[of s' now until c reason] assms(4) by auto
qed

end

section \<open>The worker\<close>

record channel_adapter =
  ad_channel :: pystr
  ad_account :: pystr
  ad_capabilities :: channel_capabilities
  ad_send :: "outbound_message \<Rightarrow> channel_delivery_result res"

record delivery_worker =
  dw_id :: pystr
  dw_adapters :: "channel_adapter list"
  dw_rules :: "quota_rule list"
  dw_backoff :: "int list"

text \<open>The dict of adapters keeps the last one of equal channel and account.\<close>

definition adapter_for :: "delivery_worker \<Rightarrow> pystr \<Rightarrow> pystr \<Rightarrow> channel_adapter option" where
  "adapter_for w chan account = find (\<lambda>a. ad_channel a = chan \<and> ad_account a = account) (rev (dw_adapters w))"

definition worker_accounts :: "delivery_worker \<Rightarrow> (pystr \<times> pystr) list" where
  "worker_accounts w = map (\<lambda>a. (ad_channel a, ad_account a)) (dw_adapters w)"

definition DEFAULT_LEASE :: micros where
  "DEFAULT_LEASE = 30 * us_second"

definition delivery_scopes :: "claimed_delivery \<Rightarrow> quota_scope list res" where
  "delivery_scopes c = map_res new_quota_scope
     [\<lparr>qs_kind = lit ''provider'', qs_ref = msg_channel (cd_message c)\<rparr>,
      \<lparr>qs_kind = lit ''account'', qs_ref = msg_channel_account (cd_message c)\<rparr>,
      \<lparr>qs_kind = lit ''conversation'', qs_ref = msg_target_ref (cd_message c)\<rparr>,
      \<lparr>qs_kind = lit ''user'', qs_ref = cd_owner c\<rparr>]"

definition failure :: "bool \<Rightarrow> pystr \<Rightarrow> channel_delivery_result" where
  "failure again code = \<lparr>delivery_ok = False, retryable = again, provider_code = code, provider_message_id = []\<rparr>"

text \<open>The try block: the message handed to the adapter, if any, and the result.\<close>

definition attempt_send :: "channel_adapter \<Rightarrow> outbound_message \<Rightarrow> outbound_message list \<times> channel_delivery_result" where
  "attempt_send a m = (case render_for_capabilities m (ad_capabilities a) of
       Inl e \<Rightarrow> ([], if e = ValidationError then failure False (lit ''capability_unsupported'')
                     else failure True (lit ''adapter_exception''))
     | Inr r \<Rightarrow> ([r], case ad_send a r of
         Inr result \<Rightarrow> result
       | Inl e \<Rightarrow> if e = ValidationError then failure False (lit ''capability_unsupported'')
                else failure True (lit ''adapter_exception'')))"

definition status_res :: "outbox \<times> outbox_status res \<Rightarrow> outbox \<times> pystr res" where
  "status_res r = (fst r, and_then (snd r) (\<lambda>st. Inr (outbox_status_value st)))"

definition worker_claim :: "tzdb \<Rightarrow> delivery_worker \<Rightarrow> pystr \<Rightarrow> datetime \<Rightarrow> outbox \<Rightarrow> outbox \<times> claimed_delivery option res" where
  "worker_claim db w token now s = claim db s (dw_id w) now DEFAULT_LEASE (Some (worker_accounts w)) token"

definition worker_complete :: "tzdb \<Rightarrow> delivery_worker \<Rightarrow> claimed_delivery \<Rightarrow> channel_delivery_result \<Rightarrow> datetime
    \<Rightarrow> outbox \<Rightarrow> outbox \<times> outbox_status res" where
  "worker_complete db w c result now s = complete db (dw_backoff w) s (cd_id c) (cd_token c) result now"

definition worker_defer :: "tzdb \<Rightarrow> claimed_delivery \<Rightarrow> datetime \<Rightarrow> pystr \<Rightarrow> datetime \<Rightarrow> outbox \<Rightarrow> outbox \<times> unit res" where
  "worker_defer db c until reason now s = defer_for_quota db s c until now reason"

definition tick :: "tzdb \<Rightarrow> delivery_worker \<Rightarrow> pystr \<Rightarrow> datetime \<Rightarrow> outbox \<Rightarrow> quota_row list
    \<Rightarrow> outbox \<times> quota_row list \<times> outbound_message list \<times> pystr res" where
  "tick db w token now s q =
     (case worker_claim db w token now s of
        (s1, Inl e) \<Rightarrow> (s1, q, [], Inl e)
      | (s1, Inr None) \<Rightarrow> (s1, q, [], Inr (lit ''idle''))
      | (s1, Inr (Some c)) \<Rightarrow>
         (case adapter_for w (msg_channel (cd_message c)) (msg_channel_account (cd_message c)) of
            None \<Rightarrow> (case status_res (worker_complete db w c (failure False (lit ''adapter_unavailable'')) now s1)
                     of (s2, r) \<Rightarrow> (s2, q, [], r))
          | Some a \<Rightarrow>
             (case delivery_scopes c of
                Inl e \<Rightarrow> (s1, q, [], Inl e)
              | Inr scopes \<Rightarrow>
                 (case reserve db (dw_rules w) q scopes now of
                    (q1, Inl e) \<Rightarrow> (s1, q1, [], Inl e)
                  | (q1, Inr d) \<Rightarrow>
                     if \<not> qd_allowed d
                     then (case worker_defer db c (qd_next d) (qd_reason d) now s1 of
                             (s2, r) \<Rightarrow> (s2, q1, [], and_then r (\<lambda>_. Inr (lit ''quota_wait''))))
                     else (case attempt_send a (cd_message c) of
                             (out, result) \<Rightarrow> (case status_res (worker_complete db w c result now s1)
                                of (s2, r) \<Rightarrow> (s2, q1, out, r)))))))"

section \<open>The outbox is such a queue\<close>

definition lease_holder :: "outbox \<Rightarrow> pystr \<Rightarrow> pystr option" where
  "lease_holder s k = (case find_row ob_id k (deliveries s) of None \<Rightarrow> None
     | Some r \<Rightarrow> if ob_status r = OB_SENDING then Some (lease_token r) else None)"

lemma lease_holder_Some:
  "lease_holder s k = Some tok \<Longrightarrow> \<exists>row. find_row ob_id k (deliveries s) = Some row \<and> ob_status row = OB_SENDING \<and> lease_token row = tok"
  by (auto simp: lease_holder_def split: option.splits if_splits)

lemma lease_holder_cong:
  "find_row ob_id k (deliveries s') = find_row ob_id k (deliveries s) \<Longrightarrow> lease_holder s' k = lease_holder s k"
  by (simp add: lease_holder_def)

lemma claim_holds:
  assumes "outbox_wf s" "claim db s worker now lease_for accounts token = (s', Inr (Some c))"
  shows "aware now \<and> cd_token c = token \<and> lease_holder s' (cd_id c) = Some token
     \<and> (\<forall>k. k \<noteq> cd_id c \<longrightarrow> lease_holder s' k = lease_holder s k)"
proof -
  have u: "unique_key ob_id (deliveries s)" using outbox_wfD(1)[OF assms(1)] .
  have args: "aware now" "\<not> blank worker" "0 < lease_for" "accounts \<noteq> Some []"
    using assms(2) by (auto simp: claim_def split: if_splits)
  let ?u = "claim_update worker token (time_text db (dt_add now lease_for)) (time_text db now)"
  obtain row :: outbox_row where r: "cd_id c = ob_id row" "cd_token c = token" "row \<in> set (deliveries s)"
    "s' = s\<lparr>deliveries := update_where (\<lambda>r. ob_id r = ob_id row) ?u (deliveries s)\<rparr>"
    using assms(2) unfolding claim_eq[OF u args]
    by (auto split: option.splits sum.splits simp: and_then_def claimed_of_def dest!: least_by_Some)
  have find: "find_row ob_id (ob_id row) (deliveries s) = Some row"
    using find_row_Some_iff[OF u] r(3) by blast
  have "lease_holder s' (cd_id c) = Some token"
    unfolding lease_holder_def r(1,4) using find by (simp add: find_row_update_where) (simp add: claim_update_def)
  moreover have "lease_holder s' k = lease_holder s k" if "k \<noteq> cd_id c" for k
    by (rule lease_holder_cong)
      (use that r(1,4) in \<open>cases "find_row ob_id k (deliveries s)"; auto simp: find_row_update_where dest: find_row_SomeD\<close>)
  ultimately show ?thesis using args(1) r(2) by blast
qed

text \<open>Rewriting the row of one delivery to a status other than sending gives its lease up and no other.\<close>

lemma holder_after_update:
  assumes "\<And>r. ob_id (f r) = ob_id r" "\<And>r. ob_status (f r) \<noteq> OB_SENDING"
    and "deliveries s' = update_where p f (deliveries s)"
    and "\<And>r. r \<in> set (deliveries s) \<Longrightarrow> p r \<longleftrightarrow> ob_id r = did"
  shows "lease_holder s' did = None" "k \<noteq> did \<Longrightarrow> lease_holder s' k = lease_holder s k"
proof -
  have f: "find_row ob_id k (deliveries s') = map_option (\<lambda>r. if ob_id r = did then f r else r) (find_row ob_id k (deliveries s))" for k
  proof -
    have "deliveries s' = update_where (\<lambda>r. ob_id r = did) f (deliveries s)"
      unfolding assms(3) by (rule update_where_cong[OF assms(4)])
    then show ?thesis by (simp add: find_row_update_where assms(1))
  qed
  show "lease_holder s' did = None"
    using assms(2) by (auto simp: lease_holder_def f dest: find_row_SomeD split: option.splits)
  show "k \<noteq> did \<Longrightarrow> lease_holder s' k = lease_holder s k"
    by (rule lease_holder_cong) (cases "find_row ob_id k (deliveries s)"; auto simp: f dest: find_row_SomeD)
qed

lemma complete_releases:
  assumes "outbox_wf s" "aware now" "lease_holder s did = Some tok"
  shows "\<exists>s' st. complete db backoff s did tok result now = (s', Inr st) \<and> st \<in> {OB_SENT, OB_RETRY_WAIT, OB_DEAD}
     \<and> lease_holder s' did = None \<and> (\<forall>k. k \<noteq> did \<longrightarrow> lease_holder s' k = lease_holder s k)"
proof -
  obtain row where row: "find_row ob_id did (deliveries s) = Some row" "ob_status row = OB_SENDING" "lease_token row = tok"
    using lease_holder_Some[OF assms(3)] by blast
  have lease: "find (holds_lease did tok) (deliveries s) = Some row"
    using complete_holder[OF outbox_wfD(1)[OF assms(1)] assms(2) row] .
  let ?s = "fst (complete db backoff s did tok result now)"
  have ok: "\<exists>st \<in> {OB_SENT, OB_RETRY_WAIT, OB_DEAD}. snd (complete db backoff s did tok result now) = Inr st"
    using lease assms(2) by (auto simp: complete_def Let_def)
  have upd: "\<exists>f. deliveries ?s = update_where (\<lambda>r. ob_id r = did) f (deliveries s)
      \<and> (\<forall>r. ob_id (f r) = ob_id r \<and> ob_status (f r) \<noteq> OB_SENDING)"
  proof -
    consider "delivery_ok result" | "\<not> delivery_ok result" "retryable result \<and> ob_attempts row < ob_max_attempts row"
      | "\<not> delivery_ok result" "\<not> (retryable result \<and> ob_attempts row < ob_max_attempts row)" by blast
    then show ?thesis
    proof cases
      case 1
      then show ?thesis using lease assms(2)
        by (intro exI[of _ "\<lambda>r. (release r)\<lparr>ob_status := OB_SENT, ob_last_error := [],
              ob_provider_id := take 160 (provider_message_id result), ob_updated := time_text db now\<rparr>"])
          (simp add: complete_def Let_def)
    next
      case 2
      then show ?thesis using lease assms(2)
        by (intro exI[of _ "\<lambda>r. (release r)\<lparr>ob_status := OB_RETRY_WAIT,
              ob_next_attempt := time_text db (dt_add now (backoff ! backoff_index backoff (ob_attempts row) * us_second)),
              ob_last_error := take 80 (provider_code result), ob_updated := time_text db now\<rparr>"])
          (simp add: complete_def Let_def)
    next
      case 3
      then have "(retryable result \<and> ob_attempts row < ob_max_attempts row) = False" by blast
      then show ?thesis using 3(1) lease assms(2)
        by (intro exI[of _ "\<lambda>r. (release r)\<lparr>ob_status := OB_DEAD,
              ob_last_error := take 80 (provider_code result), ob_updated := time_text db now\<rparr>"])
          (cases "retryable result"; simp add: complete_def Let_def)
    qed
  qed
  then obtain f where f: "deliveries ?s = update_where (\<lambda>r. ob_id r = did) f (deliveries s)"
    "\<And>r. ob_id (f r) = ob_id r" "\<And>r. ob_status (f r) \<noteq> OB_SENDING" by blast
  note h = holder_after_update[OF f(2,3,1), of did]
  obtain st where "st \<in> {OB_SENT, OB_RETRY_WAIT, OB_DEAD}" "complete db backoff s did tok result now = (?s, Inr st)"
    using ok by (metis prod.collapse)
  then show ?thesis using h by blast
qed

lemma defer_releases_lease:
  assumes "outbox_wf s" "aware now" "aware until" "lease_holder s (cd_id c) = Some (cd_token c)"
  shows "\<exists>s'. defer_for_quota db s c until now reason = (s', Inr ()) \<and> lease_holder s' (cd_id c) = None
     \<and> (\<forall>k. k \<noteq> cd_id c \<longrightarrow> lease_holder s' k = lease_holder s k)"
proof -
  have u: "unique_key ob_id (deliveries s)" using outbox_wfD(1)[OF assms(1)] .
  obtain row where row: "find_row ob_id (cd_id c) (deliveries s) = Some row" "ob_status row = OB_SENDING"
    "lease_token row = cd_token c"
    using lease_holder_Some[OF assms(4)] by blast
  have hold: "holds_lease (cd_id c) (cd_token c) row"
    using row find_row_SomeD[OF row(1)] by (simp add: holds_lease_def)
  have one: "count_where (holds_lease (cd_id c) (cd_token c)) (deliveries s) = 1"
    using holds_lease_unique(2)[OF u] row(1) hold by simp
  have same: "r = row" if "r \<in> set (deliveries s)" "ob_id r = cd_id c" for r
    using find_row_Some_iff[OF u, of "cd_id c" r] row(1) that by auto
  have p: "holds_lease (cd_id c) (cd_token c) r \<longleftrightarrow> ob_id r = cd_id c" if "r \<in> set (deliveries s)" for r
    using same[OF that] hold unfolding holds_lease_def by blast
  let ?f = "\<lambda>r. (release r)\<lparr>ob_status := OB_QUOTA_WAIT,
                      ob_attempts := max 0 (ob_attempts r - 1), ob_next_attempt := time_text db until,
                      ob_last_error := take 80 reason, ob_updated := time_text db now\<rparr>"
  let ?s = "s\<lparr>deliveries := update_where (holds_lease (cd_id c) (cd_token c)) ?f (deliveries s)\<rparr>"
  have eq: "defer_for_quota db s c until now reason = (?s, Inr ())"
    using one assms(2,3) by (simp add: defer_for_quota_def Let_def)
  have h: "lease_holder ?s (cd_id c) = None" "\<And>k. k \<noteq> cd_id c \<Longrightarrow> lease_holder ?s k = lease_holder s k"
    using holder_after_update[of ?f ?s "holds_lease (cd_id c) (cd_token c)" s "cd_id c"] p by simp_all
  then show ?thesis using eq by blast
qed

lemma claim_none_unchanged:
  assumes "outbox_wf s" "claim db s worker now lease_for accounts token = (s', Inr None)"
  shows "s' = s"
proof (cases "aware now \<and> \<not> blank worker \<and> 0 < lease_for \<and> accounts \<noteq> Some []")
  case False
  then show ?thesis using assms(2) claim_refused[of now worker lease_for] claim_no_accounts[of now worker lease_for] by fastforce
next
  case True
  then show ?thesis
    using assms(2) claim_eq[OF outbox_wfD(1)[OF assms(1)], of now worker lease_for accounts db token]
    by (auto split: option.splits sum.splits simp: and_then_def)
qed

interpretation outbox_queue: leased_queue outbox_wf lease_holder "worker_claim db w" "worker_complete db w" "worker_defer db"
  for db w
proof
  show "outbox_wf (fst (worker_claim db w token now s))" if "outbox_wf s" "token \<noteq> []" for s token now
    using that by (simp add: worker_claim_def wf_claim)
  show "aware now \<and> cd_token c = token \<and> lease_holder s' (cd_id c) = Some token
      \<and> (\<forall>k. k \<noteq> cd_id c \<longrightarrow> lease_holder s' k = lease_holder s k)"
    if "outbox_wf s" "token \<noteq> []" "worker_claim db w token now s = (s', Inr (Some c))" for s token now s' c
    using claim_holds that unfolding worker_claim_def by blast
  show "s' = s" if "worker_claim db w token now s = (s', Inr None)" "outbox_wf s" for s token now s'
    using that claim_none_unchanged unfolding worker_claim_def by blast
  show "\<exists>s' st. worker_complete db w c result now s = (s', Inr st) \<and> st \<noteq> OB_SENDING \<and> outbox_wf s'
      \<and> lease_holder s' (cd_id c) = None \<and> (\<forall>k. k \<noteq> cd_id c \<longrightarrow> lease_holder s' k = lease_holder s k)"
    if "outbox_wf s" "aware now" "lease_holder s (cd_id c) = Some (cd_token c)" for s now c result
    using complete_releases[OF that, of db "dw_backoff w" result]
      wf_complete[OF that(1), of db "dw_backoff w" "cd_id c" "cd_token c" result now]
    unfolding worker_complete_def by auto
  show "\<exists>s'. worker_defer db c until reason now s = (s', Inr ()) \<and> outbox_wf s'
      \<and> lease_holder s' (cd_id c) = None \<and> (\<forall>k. k \<noteq> cd_id c \<longrightarrow> lease_holder s' k = lease_holder s k)"
    if "outbox_wf s" "aware now" "aware until" "lease_holder s (cd_id c) = Some (cd_token c)" for s now until c reason
    using defer_releases_lease[OF that, of db reason] wf_defer[OF that(1), of db c until now reason]
    unfolding worker_defer_def by auto
qed

section \<open>Lemmas on the tick\<close>

lemma latest_in: "ts \<noteq> [] \<Longrightarrow> latest db ts \<in> set ts"
  by (induction ts rule: latest.induct) (auto simp: Let_def)

lemma astimezone_aware: "aware (astimezone db t z)"
  by (simp add: astimezone_def aware_def Let_def)

lemma quota_checks_aware:
  "quota_checks db rules scopes now = Inr checks \<Longrightarrow> c \<in> set checks \<Longrightarrow> aware (fst (snd (snd c)))"
proof (induction rules arbitrary: checks)
  case Nil
  then show ?case by (simp add: quota_checks_def)
next
  case (Cons rule rules)
  then obtain scope cs where "checks = quota_check db now rule scope # cs" "quota_checks db rules scopes now = Inr cs"
    by (auto simp: quota_checks_def split: option.splits sum.splits)
  with Cons show ?case by (auto simp: quota_check_def quota_bounds_def Let_def astimezone_aware)
qed

lemma refusal_aware:
  assumes "reserve db rules t scopes now = (t', Inr d)" "\<not> qd_allowed d"
  shows "aware (qd_next d)"
proof -
  obtain checks where c: "quota_checks db rules scopes now = Inr checks" "filter (exhausted t) checks \<noteq> []"
    "qd_next d = latest db (map (\<lambda>(r, k, e, n). e) (filter (exhausted t) checks))"
    using assms by (auto simp: reserve_def Let_def split: option.splits sum.splits if_splits)
  have "qd_next d \<in> set (map (\<lambda>(r, k, e, n). e) (filter (exhausted t) checks))"
    unfolding c(3) by (rule latest_in) (use c(2) in simp)
  then obtain x where x: "x \<in> set checks" "qd_next d = fst (snd (snd x))" by auto
  show ?thesis using quota_checks_aware[OF c(1) x(1)] by (simp add: x(2))
qed

lemma reserve_errors: "reserve db rules t scopes now = (t', Inl e) \<Longrightarrow> e = ValidationError"
proof -
  have v: "quota_checks db rules scopes now = Inl e \<Longrightarrow> e = ValidationError"
    by (induction rules) (auto simp: quota_checks_def split: option.splits sum.splits)
  assume "reserve db rules t scopes now = (t', Inl e)"
  then show ?thesis using v by (auto simp: reserve_def Let_def split: if_splits sum.splits)
qed

text \<open>How a tick goes on after its claim.\<close>

lemma tick_claimed:
  assumes "worker_claim db w token now s = (s1, Inr (Some c))" "tick db w token now s q = (s', q', out, r)"
  obtains (no_adapter) "adapter_for w (msg_channel (cd_message c)) (msg_channel_account (cd_message c)) = None"
      "(s', r) = status_res (worker_complete db w c (failure False (lit ''adapter_unavailable'')) now s1)" "q' = q" "out = []"
    | (bad_scope) e where "delivery_scopes c = Inl e" "s' = s1" "q' = q" "out = []" "r = Inl e"
    | (bad_quota) scopes e where "delivery_scopes c = Inr scopes" "reserve db (dw_rules w) q scopes now = (q', Inl e)" "s' = s1" "out = []" "r = Inl e"
    | (deferred) scopes d where "delivery_scopes c = Inr scopes" "reserve db (dw_rules w) q scopes now = (q', Inr d)" "\<not> qd_allowed d"
      "s' = fst (worker_defer db c (qd_next d) (qd_reason d) now s1)" "out = []"
      "r = and_then (snd (worker_defer db c (qd_next d) (qd_reason d) now s1)) (\<lambda>_. Inr (lit ''quota_wait''))"
    | (attempted) a scopes d result where
      "adapter_for w (msg_channel (cd_message c)) (msg_channel_account (cd_message c)) = Some a"
      "delivery_scopes c = Inr scopes" "reserve db (dw_rules w) q scopes now = (q', Inr d)" "qd_allowed d"
      "attempt_send a (cd_message c) = (out, result)" "(s', r) = status_res (worker_complete db w c result now s1)"
proof (cases "adapter_for w (msg_channel (cd_message c)) (msg_channel_account (cd_message c))")
  case None
  then show ?thesis using assms no_adapter by (auto simp: tick_def split: prod.splits)
next
  case a: (Some a)
  show ?thesis
  proof (cases "delivery_scopes c")
    case (Inl e)
    then show ?thesis using assms a bad_scope by (auto simp: tick_def)
  next
    case sc: (Inr scopes)
    obtain q1 rd where rd: "reserve db (dw_rules w) q scopes now = (q1, rd)" by fastforce
    show ?thesis
    proof (cases rd)
      case (Inl e)
      then show ?thesis using assms a sc rd bad_quota by (auto simp: tick_def)
    next
      case (Inr d)
      show ?thesis
      proof (cases "qd_allowed d")
        case True
        then show ?thesis using assms a sc rd Inr attempted by (auto simp: tick_def split: prod.splits)
      next
        case False
        then show ?thesis using assms a sc rd Inr deferred by (auto simp: tick_def split: prod.splits)
      qed
    qed
  qed
qed

text \<open>A settled claim, seen through the status text.\<close>

lemma settled_status:
  assumes "outbox_wf s" "token \<noteq> []" "worker_claim db w token now s = (s1, Inr (Some c))"
    and "(s', r) = status_res (worker_complete db w c result now s1)"
  shows "outbox_wf s' \<and> lease_holder s' (cd_id c) = None \<and> (\<forall>k. k \<noteq> cd_id c \<longrightarrow> lease_holder s' k = lease_holder s k)
     \<and> (\<exists>st. st \<noteq> OB_SENDING \<and> r = Inr (outbox_status_value st))"
  using outbox_queue.take_then_settle[OF assms(1-3), of result] assms(4) by (auto simp: status_res_def)

section \<open>Properties\<close>


definition echo_worker :: delivery_worker where
  "echo_worker = \<lparr>dw_id = lit ''w'', dw_adapters = [\<lparr>ad_channel = lit ''qq'', ad_account = lit ''bot'', ad_capabilities = text_only,
      ad_send = (\<lambda>m. Inr (no_reply True False))\<rparr>], dw_rules = sample_rules, dw_backoff = DEFAULT_BACKOFF\<rparr>"


text \<open>
  C6. What reaches a channel was claimed, fits it and was paid for: a tick hands over at most one
  message, only after every quota rule granted it, to the adapter registered for the message's
  channel and account, rendered for that adapter's capabilities, with the address and the
  classification of the claimed message, which is at most confidential.
\<close>

theorem sent_messages_authorised:
  assumes "outbox_wf s" "token \<noteq> []" "tick db w token now s q = (s', q', out, r)" "out \<noteq> []"
  shows "\<exists>c s1 a m scopes d. worker_claim db w token now s = (s1, Inr (Some c)) \<and> out = [m]
     \<and> adapter_for w (msg_channel m) (msg_channel_account m) = Some a \<and> fits (ad_capabilities a) m
     \<and> delivery_scopes c = Inr scopes \<and> reserve db (dw_rules w) q scopes now = (q', Inr d) \<and> qd_allowed d
     \<and> (msg_channel m, msg_channel_account m, msg_target_ref m, msg_classification m)
       = (msg_channel (cd_message c), msg_channel_account (cd_message c), msg_target_ref (cd_message c),
          msg_classification (cd_message c))
     \<and> msg_classification m \<le> CONFIDENTIAL"
proof -
  obtain s1 rc where cl: "worker_claim db w token now s = (s1, rc)" by fastforce
  obtain c where c: "worker_claim db w token now s = (s1, Inr (Some c))"
    using assms(3,4) cl by (cases rc) (auto simp: tick_def split: option.splits)
  from c assms(3) show ?thesis
  proof (cases rule: tick_claimed)
    case (attempted a scopes d result)
    obtain m where m: "out = [m]" "render_for_capabilities (cd_message c) (ad_capabilities a) = Inr m"
      using attempted(5) assms(4) by (auto simp: attempt_send_def split: sum.splits)
    have md: "m = degrade (ad_capabilities a) (cd_message c)" "new_outbound_message m = Inr m"
      using m(2) unfolding render_Inr by auto
    have "msg_classification m \<le> CONFIDENTIAL"
      using new_outbound_message_ok[OF md(2)] by (auto simp: classification_order_defs)
    then show ?thesis
      using c attempted(1-4) m(1) degrade_fits[of "ad_capabilities a" "cd_message c"]
        degrade_routing[of "ad_capabilities a" "cd_message c"] md(1) by auto
  qed (use assms(4) in auto)
qed

lemma echo_claim:
  obtains s1 c where "worker_claim utc_only echo_worker (lit ''tok'') (utc 0) one_delivery = (s1, Inr (Some c))"
    "cd_message c = sample_message" "cd_owner c = lit ''u''"
proof -
  have sel: "least_by claim_order (filter (\<lambda>r. claimable (time_text utc_only (utc 0)) r
      \<and> in_accounts (Some (worker_accounts echo_worker)) r) (deliveries one_delivery)) = Some (hd (deliveries one_delivery))"
    by (simp add: one_delivery_rows claimable_def in_accounts_def new_delivery_row_def echo_worker_def worker_accounts_def sample_message_def)
  have args: "unique_key ob_id (deliveries one_delivery)" "aware (utc 0)" "\<not> blank (dw_id echo_worker)" "0 < DEFAULT_LEASE"
    "Some (worker_accounts echo_worker) \<noteq> Some []"
    by (simp_all add: one_delivery_rows unique_key_def aware_def utc_def blank_def lit_def py_space_def echo_worker_def
        DEFAULT_LEASE_def worker_accounts_def)
  show ?thesis
    using that claim_eq[OF args, of utc_only "lit ''tok''"]
    by (simp add: worker_claim_def sel one_delivery_message claimed_of_def)
      (simp add: one_delivery_rows new_delivery_row_def claim_update_def)
qed

theorem sent_messages_authorised_witness:
  "\<exists>m. fst (snd (snd (tick utc_only echo_worker (lit ''tok'') (utc 0) one_delivery []))) = [m] \<and> msg_classification m \<le> CONFIDENTIAL"
proof -
  obtain s1 c where c: "worker_claim utc_only echo_worker (lit ''tok'') (utc 0) one_delivery = (s1, Inr (Some c))"
    "cd_message c = sample_message" "cd_owner c = lit ''u''" by (rule echo_claim)
  obtain s' q' out r where t: "tick utc_only echo_worker (lit ''tok'') (utc 0) one_delivery [] = (s', q', out, r)"
    by (metis prod.exhaust)
  have a: "\<exists>a. adapter_for echo_worker (msg_channel (cd_message c)) (msg_channel_account (cd_message c)) = Some a
      \<and> ad_capabilities a = text_only"
    by (simp add: c(2) sample_message_def adapter_for_def echo_worker_def)
  have sc: "delivery_scopes c = Inr [\<lparr>qs_kind = lit ''provider'', qs_ref = lit ''qq''\<rparr>, \<lparr>qs_kind = lit ''account'', qs_ref = lit ''bot''\<rparr>,
      \<lparr>qs_kind = lit ''conversation'', qs_ref = lit ''t''\<rparr>, \<lparr>qs_kind = lit ''user'', qs_ref = lit ''u''\<rparr>]"
    by (simp add: delivery_scopes_def c(2,3) sample_message_def new_quota_scope_def guarded_def quota_kinds_def blank_def lit_def py_space_def)
  have rs: "\<exists>q1 d. reserve utc_only (dw_rules echo_worker) [] [\<lparr>qs_kind = lit ''provider'', qs_ref = lit ''qq''\<rparr>,
      \<lparr>qs_kind = lit ''account'', qs_ref = lit ''bot''\<rparr>, \<lparr>qs_kind = lit ''conversation'', qs_ref = lit ''t''\<rparr>,
      \<lparr>qs_kind = lit ''user'', qs_ref = lit ''u''\<rparr>] (utc 0) = (q1, Inr d) \<and> qd_allowed d"
    by (simp add: reserve_def echo_worker_def sample_rules_def quota_checks_def find_row_def aware_def utc_def Let_def
        exhausted_def split_beta lit_def)
  have rd: "render_for_capabilities sample_message text_only = Inr sample_message"
    using sample_message_object degrade_id[of text_only sample_message]
    by (simp add: render_Inr message_object_def text_only_def fits_def sample_message_def)
  have out: "out \<noteq> []"
    using c(1) t
  proof (cases rule: tick_claimed)
    case (attempted x scopes d result)
    then show ?thesis using a rd c(2) by (auto simp: attempt_send_def)
  qed (use a sc rs in auto)
  have "lit ''tok'' \<noteq> []" by (simp add: lit_def)
  from sent_messages_authorised[OF outbox_reachable_wf[OF one_delivery_reachable] this t out] show ?thesis
    by (auto simp: t)
qed

end
