(* ===== verification/Codec.thy ===== *)
theory Codec
  imports Json
begin

text \<open>
  The standard-library codecs the vault uses, on bytes and code points as naturals: UTF-8
  (\<^verbatim>\<open>str.encode\<close>, \<^verbatim>\<open>bytes.decode\<close>), the URL-safe base64 alphabet (\<^verbatim>\<open>urlsafe_b64encode\<close>, and
  \<^verbatim>\<open>binascii.a2b_base64\<close> as the state machine of its reference implementation, strict and not), and
  \<^verbatim>\<open>json.dumps\<close> with compact separators. The lemmas are the round trips and the unique
  readability of a quoted JSON string, which the audit chain relies on.
\<close>

type_synonym bytes = "nat list"

definition is_bytes :: "bytes \<Rightarrow> bool" where
  "is_bytes b \<longleftrightarrow> list_all (\<lambda>x. x < 256) b"

section \<open>UTF-8\<close>

text \<open>The Unicode scalar values: the code points UTF-8 encodes.\<close>

definition scalar :: "nat \<Rightarrow> bool" where
  "scalar c \<longleftrightarrow> c < 0xD800 \<or> (0xE000 \<le> c \<and> c < 0x110000)"

definition utf8_char :: "nat \<Rightarrow> bytes" where
  "utf8_char c =
     (if c < 0x80 then [c]
      else if c < 0x800 then [0xC0 + c div 64, 0x80 + c mod 64]
      else if c < 0x10000 then [0xE0 + c div 4096, 0x80 + c div 64 mod 64, 0x80 + c mod 64]
      else [0xF0 + c div 262144, 0x80 + c div 4096 mod 64, 0x80 + c div 64 mod 64, 0x80 + c mod 64])"

definition utf8_encode :: "pystr \<Rightarrow> bytes" where
  "utf8_encode s = concat (map utf8_char s)"

definition is_cont :: "nat \<Rightarrow> bool" where
  "is_cont b \<longleftrightarrow> 0x80 \<le> b \<and> b < 0xC0"

text \<open>One well-formed sequence at the head, in shortest form and not a surrogate.\<close>

fun utf8_next :: "bytes \<Rightarrow> (nat \<times> bytes) option" where
  "utf8_next [] = None"
| "utf8_next (a # s) =
     (if a < 0x80 then Some (a, s)
      else if a < 0xC0 then None
      else if a < 0xE0 then
        (case s of b # r \<Rightarrow>
           (let c = (a - 0xC0) * 64 + (b - 0x80)
            in if is_cont b \<and> 0x80 \<le> c then Some (c, r) else None)
         | _ \<Rightarrow> None)
      else if a < 0xF0 then
        (case s of b # b' # r \<Rightarrow>
           (let c = (a - 0xE0) * 4096 + (b - 0x80) * 64 + (b' - 0x80)
            in if is_cont b \<and> is_cont b' \<and> 0x800 \<le> c \<and> scalar c then Some (c, r) else None)
         | _ \<Rightarrow> None)
      else
        (case s of b # b' # b'' # r \<Rightarrow>
           (let c = (a - 0xF0) * 262144 + (b - 0x80) * 4096 + (b' - 0x80) * 64 + (b'' - 0x80)
            in if is_cont b \<and> is_cont b' \<and> is_cont b'' \<and> 0x10000 \<le> c \<and> scalar c then Some (c, r) else None)
         | _ \<Rightarrow> None))"

lemma utf8_next_shorter: "utf8_next s = Some (c, r) \<Longrightarrow> length r < length s"
  by (cases s) (auto simp: Let_def split: if_splits list.splits)

text \<open>\<^verbatim>\<open>bytes.decode("utf-8")\<close>, whose UnicodeDecodeError is a ValueError.\<close>

function utf8_decode :: "bytes \<Rightarrow> pystr res" where
  "utf8_decode s =
     (if s = [] then Inr []
      else case utf8_next s of None \<Rightarrow> Inl ValueErr
        | Some (c, r) \<Rightarrow> and_then (utf8_decode r) (\<lambda>t. Inr (c # t)))"
  by pat_completeness auto
termination
  by (relation "measure length") (auto simp: utf8_next_shorter)

declare utf8_decode.simps [simp del]

section \<open>Base64\<close>

definition b64_char :: "nat \<Rightarrow> nat" where
  "b64_char v = (if v < 26 then 65 + v else if v < 52 then 71 + v else if v < 62 then v - 4
     else if v = 62 then 45 else 95)"

fun urlsafe_b64encode :: "bytes \<Rightarrow> pystr" where
  "urlsafe_b64encode [] = []"
| "urlsafe_b64encode [a] = [b64_char (a div 4), b64_char (a mod 4 * 16), 61, 61]"
| "urlsafe_b64encode [a, b] =
     [b64_char (a div 4), b64_char (a mod 4 * 16 + b div 16), b64_char (b mod 16 * 4), 61]"
| "urlsafe_b64encode (a # b # c # s) =
     [b64_char (a div 4), b64_char (a mod 4 * 16 + b div 16), b64_char (b mod 16 * 4 + c div 64), b64_char (c mod 64)]
     @ urlsafe_b64encode s"

text \<open>After the translation of \<^verbatim>\<open>-_\<close> to \<^verbatim>\<open>+/\<close> both spellings of the last two digits are read.\<close>

definition b64_value :: "nat \<Rightarrow> nat option" where
  "b64_value c =
     (if 65 \<le> c \<and> c \<le> 90 then Some (c - 65)
      else if 97 \<le> c \<and> c \<le> 122 then Some (c - 71)
      else if 48 \<le> c \<and> c \<le> 57 then Some (c + 4)
      else if c = 43 \<or> c = 45 then Some 62
      else if c = 47 \<or> c = 95 then Some 63 else None)"

text \<open>
  \<^verbatim>\<open>a2b_base64\<close>: the position in the group of four, the bits left over, the run of pads and
  whether padding has started.
\<close>

fun a2b :: "bool \<Rightarrow> nat \<Rightarrow> nat \<Rightarrow> nat \<Rightarrow> bool \<Rightarrow> pystr \<Rightarrow> bytes res" where
  "a2b strict quad left pads started [] = (if quad = 0 then Inr [] else Inl ValueErr)"
| "a2b strict quad left pads started (c # s) =
     (if c = 61 then
        (if strict \<and> quad = 0 then Inl ValueErr
         else if 2 \<le> quad \<and> 4 \<le> quad + Suc pads then
           (if strict \<and> s \<noteq> [] then Inl ValueErr else Inr [])
         else a2b strict quad left (if 2 \<le> quad then Suc pads else pads) True s)
      else case b64_value c of
        None \<Rightarrow> if strict then Inl ValueErr else a2b strict quad left pads started s
      | Some v \<Rightarrow>
         (if strict \<and> started then Inl ValueErr
          else if quad = 0 then a2b strict 1 v 0 started s
          else if quad = 1 then and_then (a2b strict 2 (v mod 16) 0 started s) (\<lambda>t. Inr ((left * 4 + v div 16) # t))
          else if quad = 2 then and_then (a2b strict 3 (v mod 4) 0 started s) (\<lambda>t. Inr ((left * 16 + v div 4) # t))
          else and_then (a2b strict 0 0 0 started s) (\<lambda>t. Inr ((left * 64 + v) # t))))"

definition urlsafe_b64decode :: "pystr \<Rightarrow> bytes res" where
  "urlsafe_b64decode s = a2b False 0 0 0 False s"

text \<open>\<^verbatim>\<open>b64decode(s, altchars=b"-_", validate=True)\<close>.\<close>

definition b64decode_strict :: "pystr \<Rightarrow> bytes res" where
  "b64decode_strict s = a2b True 0 0 0 False s"

section \<open>JSON text\<close>

definition hex_digit :: "nat \<Rightarrow> nat" where
  "hex_digit v = (if v < 10 then 48 + v else 87 + v)"

definition hex4 :: "nat \<Rightarrow> pystr" where
  "hex4 n = [hex_digit (n div 4096 mod 16), hex_digit (n div 256 mod 16), hex_digit (n div 16 mod 16), hex_digit (n mod 16)]"

definition json_char :: "nat \<Rightarrow> pystr" where
  "json_char c =
     (if c = 34 then [92, 34] else if c = 92 then [92, 92] else if c = 10 then [92, 110]
      else if c = 13 then [92, 114] else if c = 9 then [92, 116] else if c = 12 then [92, 102]
      else if c = 8 then [92, 98] else if 32 \<le> c \<and> c \<le> 126 then [c]
      else if c < 0x10000 then [92, 117] @ hex4 c
      else [92, 117] @ hex4 (0xD800 + (c - 0x10000) div 1024) @ [92, 117] @ hex4 (0xDC00 + (c - 0x10000) mod 1024))"

definition json_quote :: "pystr \<Rightarrow> pystr" where
  "json_quote s = [34] @ concat (map json_char s) @ [34]"

text \<open>\<^verbatim>\<open>json.dumps(value, separators=(",", ":"))\<close>; \<^verbatim>\<open>sort_keys\<close> is the order the caller lists the keys in.\<close>

fun json_dumps :: "json \<Rightarrow> pystr" where
  "json_dumps JNull = lit ''null''"
| "json_dumps (JBool b) = (if b then lit ''true'' else lit ''false'')"
| "json_dumps (JInt n) = dec n"
| "json_dumps (JStr s) = json_quote s"
| "json_dumps (JArr xs) = [91] @ py_join [44] (map json_dumps xs) @ [93]"
| "json_dumps (JObj kvs) = [123] @ py_join [44] (map (\<lambda>(k, v). json_quote k @ [58] @ json_dumps v) kvs) @ [125]"

section \<open>Round trips\<close>

lemma scalar_cases:
  assumes "scalar c"
  obtains "c < 0x80" | "0x80 \<le> c" "c < 0x800" | "0x800 \<le> c" "c < 0x10000" | "0x10000 \<le> c" "c < 0x110000"
  using assms unfolding scalar_def by fastforce

lemma base64_digits:
  fixes c :: nat
  shows "c div 4096 * 4096 + c div 64 mod 64 * 64 + c mod 64 = c"
    "c div 262144 * 262144 + c div 4096 mod 64 * 4096 + c div 64 mod 64 * 64 + c mod 64 = c"
proof -
  have a: "c div 64 * 64 + c mod 64 = c" "c div 64 div 64 * 64 + c div 64 mod 64 = c div 64"
    "c div 64 div 64 div 64 * 64 + c div 64 div 64 mod 64 = c div 64 div 64"
    by (rule div_mult_mod_eq)+
  have d: "c div 64 div 64 = c div 4096" "c div 4096 div 64 = c div 262144" by (simp_all add: div_mult2_eq[symmetric])
  show one: "c div 4096 * 4096 + c div 64 mod 64 * 64 + c mod 64 = c"
    using a unfolding d by linarith
  show "c div 262144 * 262144 + c div 4096 mod 64 * 4096 + c div 64 mod 64 * 64 + c mod 64 = c"
    using a one unfolding d by linarith
qed

lemma utf8_next_char:
  assumes "scalar c"
  shows "utf8_next (utf8_char c @ r) = Some (c, r)"
  using assms
proof (cases rule: scalar_cases)
  case 1
  then show ?thesis by (simp add: utf8_char_def)
next
  case 2
  have "c div 64 * 64 + c mod 64 = c" by (rule div_mult_mod_eq)
  moreover have "c div 64 < 32" "c mod 64 < 64" using 2 by auto
  ultimately show ?thesis using 2 by (simp add: utf8_char_def is_cont_def)
next
  case 3
  have "c div 4096 < 16" "c mod 64 < 64" "c div 64 mod 64 < 64" using 3 by auto
  moreover have "0 < c div 4096 \<or> 32 \<le> c div 64 mod 64" using 3 base64_digits(1)[of c] by linarith
  ultimately show ?thesis
    using 3 assms base64_digits(1)[of c] by (simp add: utf8_char_def is_cont_def Let_def)
next
  case 4
  have "c mod 64 < 64" "c div 64 mod 64 < 64" "c div 4096 mod 64 < 64" by auto
  with 4 assms base64_digits(2)[of c] show ?thesis by (simp add: utf8_char_def is_cont_def Let_def)
qed

lemma utf8_char_nonempty [simp]: "utf8_char c \<noteq> []"
  by (simp add: utf8_char_def)

lemma utf8_round_trip: "list_all scalar s \<Longrightarrow> utf8_decode (utf8_encode s) = Inr s"
proof (induction s)
  case Nil
  then show ?case by (simp add: utf8_encode_def utf8_decode.simps)
next
  case (Cons c s)
  then have "utf8_next (utf8_encode (c # s)) = Some (c, utf8_encode s)"
    by (simp add: utf8_encode_def utf8_next_char)
  moreover have "utf8_encode (c # s) \<noteq> []" by (simp add: utf8_encode_def)
  ultimately show ?case using Cons by (subst utf8_decode.simps) simp
qed

lemma is_bytes_simps [simp]:
  "is_bytes []" "is_bytes (x # s) \<longleftrightarrow> x < 256 \<and> is_bytes s" "is_bytes (s @ t) \<longleftrightarrow> is_bytes s \<and> is_bytes t"
  by (simp_all add: is_bytes_def)

lemma is_bytes_utf8: "list_all scalar s \<Longrightarrow> is_bytes (utf8_encode s)"
proof (induction s)
  case Nil
  then show ?case by (simp add: utf8_encode_def)
next
  case (Cons c s)
  have "is_bytes (utf8_char c)"
    using Cons.prems by (auto simp: utf8_char_def scalar_def; linarith)
  with Cons show ?case by (simp add: utf8_encode_def)
qed

lemma b64_value_char [simp]: "v < 64 \<Longrightarrow> b64_value (b64_char v) = Some v" "v < 64 \<Longrightarrow> b64_char v \<noteq> 61"
  by (auto simp: b64_value_def b64_char_def)

lemma six_bits:
  fixes a b c :: nat
  assumes "a < 256" "b < 256" "c < 256"
  shows "a div 4 < 64 \<and> a mod 4 * 16 + b div 16 < 64 \<and> b mod 16 * 4 + c div 64 < 64 \<and> c mod 64 < 64
    \<and> a mod 4 * 16 < 64 \<and> b mod 16 * 4 < 64"
proof -
  have "a mod 4 < 4" "b mod 16 < 16" "b div 16 < 16" "c div 64 < 4" "a div 4 < 64" "c mod 64 < 64" using assms by auto
  then show ?thesis by linarith
qed

lemma regroup:
  fixes a b c :: nat
  assumes "b < 256" "c < 256"
  shows "a div 4 * 4 + (a mod 4 * 16 + b div 16) div 16 = a
    \<and> (a mod 4 * 16 + b div 16) mod 16 * 16 + (b mod 16 * 4 + c div 64) div 4 = b
    \<and> (b mod 16 * 4 + c div 64) mod 4 * 64 + c mod 64 = c
    \<and> (a mod 4 * 16 + b div 16) mod 16 * 16 + b mod 16 * 4 div 4 = b"
proof -
  have "b div 16 < 16" "c div 64 < 4" using assms by auto
  then show ?thesis by simp
qed

lemma a2b_b64encode: "is_bytes b \<Longrightarrow> a2b strict 0 0 0 False (urlsafe_b64encode b) = Inr b"
proof (induction b rule: urlsafe_b64encode.induct)
  case 1
  then show ?case by simp
next
  case (2 a)
  then show ?case using six_bits[of a 0 0] regroup[of 0 0 a] by simp
next
  case (3 a b)
  then show ?case using six_bits[of a b 0] regroup[of b 0 a] by simp
next
  case (4 a b c s)
  then show ?case using six_bits[of a b c] regroup[of b c a] by simp
qed

lemma base64_round_trip:
  assumes "is_bytes b"
  shows "urlsafe_b64decode (urlsafe_b64encode b) = Inr b" "b64decode_strict (urlsafe_b64encode b) = Inr b"
  using a2b_b64encode[OF assms] by (simp_all add: urlsafe_b64decode_def b64decode_strict_def)

section \<open>Quoted strings are uniquely readable\<close>

definition hex_value :: "nat \<Rightarrow> nat" where
  "hex_value c = (if c < 58 then c - 48 else c - 87)"

fun hex4_value :: "pystr \<Rightarrow> nat" where
  "hex4_value (a # b # c # d # r) = hex_value a * 4096 + hex_value b * 256 + hex_value c * 16 + hex_value d"
| "hex4_value _ = 0"

text \<open>The scanner that undoes \<open>json_char\<close>.\<close>

definition unescape_json :: "pystr \<Rightarrow> nat \<times> pystr" where
  "unescape_json s =
     (if hd s \<noteq> 92 then (hd s, tl s)
      else let e = s ! 1; r = drop 2 s in
        if e = 117 then
          (let u = hex4_value r in
             if 0xD800 \<le> u \<and> u < 0xDC00
             then (0x10000 + (u - 0xD800) * 1024 + (hex4_value (drop 6 r) - 0xDC00), drop 10 r)
             else (u, drop 4 r))
        else (if e = 110 then 10 else if e = 114 then 13 else if e = 116 then 9 else if e = 102 then 12
              else if e = 98 then 8 else e, r))"

lemma hex_value_digit [simp]: "v < 16 \<Longrightarrow> hex_value (hex_digit v) = v"
  by (simp add: hex_value_def hex_digit_def)

lemma hex4_round_trip [simp]: "n < 0x10000 \<Longrightarrow> hex4_value (hex4 n @ r) = n"
proof -
  assume n: "n < 0x10000"
  have a: "n div 16 * 16 + n mod 16 = n" "n div 16 div 16 * 16 + n div 16 mod 16 = n div 16"
    "n div 16 div 16 div 16 * 16 + n div 16 div 16 mod 16 = n div 16 div 16" by (rule div_mult_mod_eq)+
  have d: "n div 16 div 16 = n div 256" "n div 256 div 16 = n div 4096" by (simp_all add: div_mult2_eq[symmetric])
  have "n div 4096 * 4096 + n div 256 mod 16 * 256 + n div 16 mod 16 * 16 + n mod 16 = n"
    using a unfolding d by linarith
  moreover have "n div 4096 < 16" using n by auto
  ultimately show ?thesis by (simp add: hex4_def)
qed

lemma length_hex4 [simp]: "length (hex4 n) = 4"
  by (simp add: hex4_def)

lemma unescape_json_char:
  assumes "scalar c"
  shows "unescape_json (json_char c @ r) = (c, r)"
proof -
  consider "c < 0x10000" "32 \<le> c \<and> c \<le> 126 \<or> c \<in> {8, 9, 10, 12, 13}"
    | "c < 0x10000" "\<not> (32 \<le> c \<and> c \<le> 126)" "c \<notin> {8, 9, 10, 12, 13}"
    | "0x10000 \<le> c" "c < 0x110000"
    using assms unfolding scalar_def by fastforce
  then show ?thesis
  proof cases
    case 1
    then show ?thesis by (auto simp: unescape_json_def json_char_def)
  next
    case 2
    have "\<not> (0xD800 \<le> c \<and> c < 0xDC00)" using assms by (auto simp: scalar_def)
    then have u: "\<not> (0xD800 \<le> hex4_value (hex4 c @ r) \<and> hex4_value (hex4 c @ r) < 0xDC00)"
      "hex4_value (hex4 c @ r) = c" using 2 by simp_all
    have e: "json_char c @ r = 92 # 117 # hex4 c @ r" using 2 by (auto simp: json_char_def)
    show ?thesis unfolding e unescape_json_def Let_def using u by simp
  next
    case 3
    let ?n = "c - 0x10000"
    have n: "?n div 1024 < 0x400" "?n mod 1024 < 0x400" using 3 by auto
    have "?n div 1024 * 1024 + ?n mod 1024 = ?n" by (rule div_mult_mod_eq)
    then have whole: "0x10000 + ?n div 1024 * 1024 + ?n mod 1024 = c" using 3 by linarith
    let ?u = "0xD800 + ?n div 1024" and ?l = "0xDC00 + ?n mod 1024"
    have u: "?u < 0x10000" "?l < 0x10000" "0xD800 \<le> ?u" "?u < 0xDC00" using n by linarith+
    have e: "json_char c @ r = 92 # 117 # hex4 ?u @ 92 # 117 # hex4 ?l @ r"
      using 3 by (simp add: json_char_def)
    have d: "drop 6 (hex4 ?u @ 92 # 117 # hex4 ?l @ r) = hex4 ?l @ r"
      "drop 10 (hex4 ?u @ 92 # 117 # hex4 ?l @ r) = r" by (simp_all add: hex4_def)
    show ?thesis
      unfolding e using u hex4_round_trip[OF u(1)] hex4_round_trip[OF u(2)] whole
      by (simp add: unescape_json_def Let_def d del: hex4_round_trip)
  qed
qed

lemma json_char_head: "hd (json_char c @ r) \<noteq> 34" "json_char c \<noteq> []"
  by (simp_all add: json_char_def)

lemma json_body_inj:
  assumes "list_all scalar s" "list_all scalar t"
    and "concat (map json_char s) @ 34 # x = concat (map json_char t) @ 34 # y"
  shows "s = t \<and> x = y"
  using assms
proof (induction s arbitrary: t)
  case Nil
  then show ?case using json_char_head(1)
    by (cases t) (simp_all, metis append_assoc list.sel(1))
next
  case (Cons c s)
  show ?case
  proof (cases t)
    case Nil
    with Cons.prems(3) have "hd (json_char c @ concat (map json_char s) @ 34 # x) = 34" by simp
    then show ?thesis using json_char_head(1) by metis
  next
    case (Cons d u)
    with Cons.prems(3) have "unescape_json (json_char c @ (concat (map json_char s) @ 34 # x))
        = unescape_json (json_char d @ (concat (map json_char u) @ 34 # y))" by simp
    moreover have "scalar c" "scalar d" using Cons Cons.prems by simp_all
    ultimately have "c = d" "concat (map json_char s) @ 34 # x = concat (map json_char u) @ 34 # y"
      using unescape_json_char by simp_all
    with Cons Cons.IH[of u] Cons.prems show ?thesis by simp
  qed
qed

lemma json_quote_inj:
  assumes "list_all scalar s" "list_all scalar t"
  shows "json_quote s @ x = json_quote t @ y \<longleftrightarrow> s = t \<and> x = y"
  using json_body_inj[OF assms, of x y] by (auto simp: json_quote_def)

lemma json_quote_ascii: "list_all (\<lambda>c. c < 128) (json_quote s)"
proof -
  have "v < 16 \<Longrightarrow> hex_digit v < 128" for v by (simp add: hex_digit_def)
  then have "list_all (\<lambda>c. c < 128) (hex4 n)" for n by (simp add: hex4_def)
  then have "list_all (\<lambda>c. c < 128) (json_char c)" for c by (simp add: json_char_def)
  then show ?thesis by (induction s) (simp_all add: json_quote_def)
qed

lemma utf8_ascii: "list_all (\<lambda>c. c < 128) s \<Longrightarrow> utf8_encode s = s"
  by (induction s) (simp_all add: utf8_encode_def utf8_char_def)

section \<open>Decoded values are bytes\<close>

lemma b64_value_bound: "b64_value c = Some v \<Longrightarrow> v < 64"
  by (auto simp: b64_value_def split: if_splits)

text \<open>The bits left over fit what the position in the group leaves of a byte.\<close>

lemma a2b_bytes:
  "a2b strict quad left pads started s = Inr b \<Longrightarrow>
   (quad = 1 \<longrightarrow> left < 64) \<Longrightarrow> (quad = 2 \<longrightarrow> left < 16) \<Longrightarrow> (3 \<le> quad \<longrightarrow> left < 4) \<Longrightarrow> is_bytes b"
proof (induction s arbitrary: quad left pads started b)
  case Nil
  then show ?case by (auto split: if_splits)
next
  case (Cons c s)
  show ?case
  proof (cases "c = 61 \<or> b64_value c = None")
    case True
    then show ?thesis using Cons.prems Cons.IH by (auto split: if_splits option.splits)
  next
    case False
    then obtain v where v: "b64_value c = Some v" "c \<noteq> 61" by blast
    have b: "v < 64" "v div 16 < 4" "v div 4 < 16" "v mod 16 < 16" "v mod 4 < 4" using b64_value_bound[OF v(1)] by auto
    let ?q = "if quad < 3 then Suc quad else 0"
    let ?l = "if quad = 0 then v else if quad = 1 then v mod 16 else if quad = 2 then v mod 4 else 0"
    from Cons.prems(1) v obtain x where x: "a2b strict ?q ?l 0 started s = Inr x"
      "b = x \<or> (quad = 1 \<and> b = (left * 4 + v div 16) # x) \<or> (quad = 2 \<and> b = (left * 16 + v div 4) # x)
         \<or> (3 \<le> quad \<and> b = (left * 64 + v) # x)"
      by (auto simp: and_then_Inr numeral_2_eq_2 numeral_3_eq_3 split: if_splits)
    from x(1) have "is_bytes x" by (rule Cons.IH) (use b in auto)
    with x(2) b Cons.prems(2-4) show ?thesis by auto
  qed
qed

lemma b64decode_bytes: "b64decode_strict s = Inr b \<Longrightarrow> is_bytes b"
  unfolding b64decode_strict_def by (erule a2b_bytes) simp_all

end
