(* ===== verification/StateResult.thy ===== *)
theory StateResult
  imports Errors
begin

text \<open>
  Methods that read and change a store and may raise: a function from the store to the new store
  and the result or exception. What was written before an exception stays written, except
  inside a database transaction, which \<^verbatim>\<open>transaction()\<close> rolls back (\<open>atomically\<close>).
\<close>

type_synonym ('s, 'a) op = "'s \<Rightarrow> 's \<times> 'a res"

definition ret :: "'a \<Rightarrow> ('s, 'a) op" where
  "ret x s = (s, Inr x)"

definition throw :: "err \<Rightarrow> ('s, 'a) op" where
  "throw e s = (s, Inl e)"

definition of_res :: "'a res \<Rightarrow> ('s, 'a) op" where
  "of_res r s = (s, r)"

definition reads :: "('s \<Rightarrow> 'a) \<Rightarrow> ('s, 'a) op" where
  "reads f s = (s, Inr (f s))"

definition writes :: "('s \<Rightarrow> 's) \<Rightarrow> ('s, unit) op" where
  "writes f s = (f s, Inr ())"

definition check :: "bool \<Rightarrow> err \<Rightarrow> ('s, unit) op" where
  "check bad e s = (s, if bad then Inl e else Inr ())"

definition bind :: "('s, 'a) op \<Rightarrow> ('a \<Rightarrow> ('s, 'b) op) \<Rightarrow> ('s, 'b) op" where
  "bind m f s = (case m s of (s', Inl e) \<Rightarrow> (s', Inl e) | (s', Inr x) \<Rightarrow> f x s')"

definition seq :: "('s, unit) op \<Rightarrow> ('s, 'b) op \<Rightarrow> ('s, 'b) op" where
  "seq m n = bind m (\<lambda>_. n)"

text \<open>\<^verbatim>\<open>try: m except Exception: h; raise\<close> and \<^verbatim>\<open>try: m except Exception as exc: raise e from exc\<close>.\<close>

definition on_error :: "('s, 'a) op \<Rightarrow> ('s \<Rightarrow> 's) \<Rightarrow> ('s, 'a) op" where
  "on_error m h s = (case m s of (s', Inl e) \<Rightarrow> (h s', Inl e) | (s', Inr x) \<Rightarrow> (s', Inr x))"

definition rethrow :: "'a res \<Rightarrow> err \<Rightarrow> 'a res" where
  "rethrow r e = (case r of Inl _ \<Rightarrow> Inl e | Inr x \<Rightarrow> Inr x)"

text \<open>A transaction on the part of the store that \<open>restore old\<close> puts back.\<close>

definition atomically :: "('s \<Rightarrow> 's \<Rightarrow> 's) \<Rightarrow> ('s, 'a) op \<Rightarrow> ('s, 'a) op" where
  "atomically restore m s = (case m s of (s', Inl e) \<Rightarrow> (restore s s', Inl e) | (s', Inr x) \<Rightarrow> (s', Inr x))"

fun each :: "('a \<Rightarrow> ('s, unit) op) \<Rightarrow> 'a list \<Rightarrow> ('s, unit) op" where
  "each f [] = ret ()"
| "each f (x # xs) = seq (f x) (each f xs)"

section \<open>Lemmas\<close>

named_theorems op_simps "how each operation runs on a store"

lemma op_run [op_simps]:
  "ret x s = (s, Inr x)" "throw e s = (s, Inl e)" "of_res r s = (s, r)" "reads f s = (s, Inr (f s))"
  "writes h s = (h s, Inr ())" "check b e s = (s, if b then Inl e else Inr ())"
  by (simp_all add: ret_def throw_def of_res_def reads_def writes_def check_def)

lemma bind_Inr:
  "bind m f s = (t, Inr y) \<longleftrightarrow> (\<exists>u x. m s = (u, Inr x) \<and> f x u = (t, Inr y))"
  by (auto simp: bind_def split: prod.splits sum.splits)

lemma bind_Inl:
  "bind m f s = (t, Inl e) \<longleftrightarrow> m s = (t, Inl e) \<or> (\<exists>u x. m s = (u, Inr x) \<and> f x u = (t, Inl e))"
  by (auto simp: bind_def split: prod.splits sum.splits)

lemma bind_run [op_simps]:
  "m s = (u, Inr x) \<Longrightarrow> bind m f s = f x u" "m s = (u, Inl e) \<Longrightarrow> bind m f s = (u, Inl e)"
  by (simp_all add: bind_def)

lemma seq_Inr: "seq m n s = (t, Inr y) \<longleftrightarrow> (\<exists>u. m s = (u, Inr ()) \<and> n u = (t, Inr y))"
  by (auto simp: seq_def bind_Inr)

lemma seq_Inl: "seq m n s = (t, Inl e) \<longleftrightarrow> m s = (t, Inl e) \<or> (\<exists>u. m s = (u, Inr ()) \<and> n u = (t, Inl e))"
  by (auto simp: seq_def bind_Inl)

lemma seq_run [op_simps]:
  "m s = (u, Inr ()) \<Longrightarrow> seq m n s = n u" "m s = (u, Inl e) \<Longrightarrow> seq m n s = (u, Inl e)"
  by (simp_all add: seq_def bind_def)

lemma bind_simple [op_simps]:
  "bind (ret x) f s = f x s" "bind (throw e) f s = (s, Inl e)" "bind (reads g) f s = f (g s) s"
  "bind (of_res (Inr x)) f s = f x s" "bind (of_res (Inl e)) f s = (s, Inl e)"
  by (simp_all add: bind_def op_run)

lemma seq_simple [op_simps]:
  "seq (writes h) n s = n (h s)" "seq (check b e) n s = (if b then (s, Inl e) else n s)"
  by (simp_all add: seq_def bind_def op_run)

lemma atomically_Inr: "atomically r m s = (t, Inr x) \<longleftrightarrow> m s = (t, Inr x)"
  by (auto simp: atomically_def split: prod.splits sum.splits)

lemma atomically_Inl: "atomically r m s = (t, Inl e) \<longleftrightarrow> (\<exists>u. m s = (u, Inl e) \<and> t = r s u)"
  by (auto simp: atomically_def split: prod.splits sum.splits)

lemma on_error_Inr: "on_error m h s = (t, Inr x) \<longleftrightarrow> m s = (t, Inr x)"
  by (auto simp: on_error_def split: prod.splits sum.splits)

lemma on_error_Inl: "on_error m h s = (t, Inl e) \<longleftrightarrow> (\<exists>u. m s = (u, Inl e) \<and> t = h u)"
  by (auto simp: on_error_def split: prod.splits sum.splits)

lemmas op_Inr = bind_Inr seq_Inr atomically_Inr on_error_Inr

text \<open>Operations keep what their parts keep: the rule for invariants of a composed method.\<close>

definition keeps :: "('s \<Rightarrow> 's \<Rightarrow> bool) \<Rightarrow> ('s, 'a) op \<Rightarrow> bool" where
  "keeps R m \<longleftrightarrow> (\<forall>s. R s (fst (m s)))"

lemma keepsD: "keeps R m \<Longrightarrow> m s = (t, r) \<Longrightarrow> R s t"
  unfolding keeps_def by (metis fst_conv)

lemma keeps_pure:
  assumes "reflp R"
  shows "keeps R (ret x)" "keeps R (throw e)" "keeps R (of_res r)" "keeps R (reads f)" "keeps R (check b e)"
  using assms by (simp_all add: keeps_def op_run reflp_def)

lemma keeps_writes: "(\<And>s. R s (h s)) \<Longrightarrow> keeps R (writes h)"
  by (simp add: keeps_def op_run)

lemma keeps_bind:
  assumes "transp R" "keeps R m" "\<And>x. keeps R (f x)"
  shows "keeps R (bind m f)"
  unfolding keeps_def
proof
  fix s
  obtain u r where m: "m s = (u, r)" by fastforce
  then have u: "R s u" using assms(2) by (rule keepsD[rotated])
  show "R s (fst (bind m f s))"
  proof (cases r)
    case (Inl e)
    with m u show ?thesis by (simp add: op_simps)
  next
    case (Inr x)
    have "R u (fst (f x u))" using assms(3) by (simp add: keeps_def)
    with m u Inr show ?thesis using assms(1) by (simp add: op_simps) (meson transpD)
  qed
qed

lemma keeps_seq: "transp R \<Longrightarrow> keeps R m \<Longrightarrow> keeps R n \<Longrightarrow> keeps R (seq m n)"
  unfolding seq_def by (rule keeps_bind)

lemma keeps_on_error: "transp R \<Longrightarrow> keeps R m \<Longrightarrow> (\<And>s. R s (h s)) \<Longrightarrow> keeps R (on_error m h)"
  unfolding keeps_def on_error_def by (auto split: prod.splits sum.splits) (metis fst_conv transpD)+

lemma keeps_atomically:
  assumes "keeps R m" "\<And>s t. R s t \<Longrightarrow> R s (restore s t)"
  shows "keeps R (atomically restore m)"
  using assms unfolding keeps_def atomically_def by (auto split: prod.splits sum.splits) (metis fst_conv)+

lemma keeps_each: "reflp R \<Longrightarrow> transp R \<Longrightarrow> (\<And>x. keeps R (f x)) \<Longrightarrow> keeps R (each f xs)"
  by (induction xs) (auto intro: keeps_pure keeps_seq)

text \<open>The same for the runs that return.\<close>

definition keeps_ok :: "('s \<Rightarrow> 's \<Rightarrow> bool) \<Rightarrow> ('s, 'a) op \<Rightarrow> bool" where
  "keeps_ok R m \<longleftrightarrow> (\<forall>s t x. m s = (t, Inr x) \<longrightarrow> R s t)"

lemma keeps_okD: "keeps_ok R m \<Longrightarrow> m s = (t, Inr x) \<Longrightarrow> R s t"
  by (simp add: keeps_ok_def)

lemma keeps_ok_pure:
  assumes "reflp R"
  shows "keeps_ok R (ret x)" "keeps_ok R (throw e)" "keeps_ok R (of_res r)" "keeps_ok R (reads f)" "keeps_ok R (check b e)"
  using assms by (simp_all add: keeps_ok_def op_run reflp_def)

lemma keeps_ok_bind: "transp R \<Longrightarrow> keeps_ok R m \<Longrightarrow> (\<And>x. keeps_ok R (f x)) \<Longrightarrow> keeps_ok R (bind m f)"
  unfolding keeps_ok_def bind_Inr by (metis transpD)

lemma keeps_ok_seq: "transp R \<Longrightarrow> keeps_ok R m \<Longrightarrow> keeps_ok R n \<Longrightarrow> keeps_ok R (seq m n)"
  unfolding seq_def by (rule keeps_ok_bind)

lemma keeps_ok_each: "reflp R \<Longrightarrow> transp R \<Longrightarrow> (\<And>x. keeps_ok R (f x)) \<Longrightarrow> keeps_ok R (each f xs)"
  by (induction xs) (auto intro: keeps_ok_pure keeps_ok_seq)

lemma keeps_ok_atomically: "keeps_ok R (atomically r m) \<longleftrightarrow> keeps_ok R m"
  by (simp add: keeps_ok_def atomically_Inr)

end
