(* ===== verification/VaultCrypto.thy ===== *)
theory VaultCrypto
  imports Codec StateResult Entities "HOL-Library.AList"
begin

text \<open>
  The vault's tables (\<^verbatim>\<open>src/zhixu_vault/migrations\<close>) and \<^verbatim>\<open>src/zhixu_vault/crypto.py\<close>: sealed values,
  the Argon2id parameters and the keyring, as operations on the record \<open>vault\<close> that holds the
  database and the keyring's memory. The functions of the packages \<^verbatim>\<open>cryptography\<close> and
  \<^verbatim>\<open>argon2\<close>, HMAC and SHA-256, and the readers \<^verbatim>\<open>json.loads\<close> and \<^verbatim>\<open>datetime.fromisoformat\<close> on foreign
  text and \<^verbatim>\<open>repr\<close> of a container are the fields of \<open>vault_env\<close>; every random value (\<^verbatim>\<open>os.urandom\<close>) is an argument. The clock
  is the one \<^verbatim>\<open>runtime.py\<close> passes, in UTC, and one operation reads it once, as \<open>now\<close>. Strings are
  sequences of Unicode scalar values, so \<^verbatim>\<open>str.encode\<close> does not raise.
\<close>

record vault_env =
  ve_tz :: tzdb
  aes_encrypt :: "bytes \<Rightarrow> bytes \<Rightarrow> bytes \<Rightarrow> bytes \<Rightarrow> bytes"
  aes_decrypt :: "bytes \<Rightarrow> bytes \<Rightarrow> bytes \<Rightarrow> bytes \<Rightarrow> bytes res"
  argon2id :: "bytes \<Rightarrow> bytes \<Rightarrow> int \<Rightarrow> int \<Rightarrow> int \<Rightarrow> bytes"
  hkdf_sha256 :: "bytes \<Rightarrow> bytes \<Rightarrow> bytes"
  hmac_sha256 :: "bytes \<Rightarrow> bytes \<Rightarrow> pystr"
  sha256_hex :: "bytes \<Rightarrow> pystr"
  ed25519_verify :: "bytes \<Rightarrow> bytes \<Rightarrow> bytes \<Rightarrow> bool"
  json_loads :: "bytes \<Rightarrow> json res"
  fromisoformat :: "pystr \<Rightarrow> datetime res"
  py_repr :: "json \<Rightarrow> pystr"

section \<open>Sealed values\<close>

definition PREFIX :: pystr where
  "PREFIX = lit ''enc:v1:''"

definition seal :: "vault_env \<Rightarrow> bytes \<Rightarrow> bytes \<Rightarrow> bytes \<Rightarrow> pystr \<Rightarrow> pystr" where
  "seal env nonce key plaintext ctx =
     PREFIX @ urlsafe_b64encode (nonce @ aes_encrypt env key nonce plaintext (utf8_encode ctx))"

definition open_sealed :: "vault_env \<Rightarrow> bytes \<Rightarrow> pystr \<Rightarrow> pystr \<Rightarrow> bytes res" where
  "open_sealed env key value ctx =
     (if \<not> starts_with value PREFIX then Inl ValueErr
      else and_then (b64decode_strict (drop (length PREFIX) value)) (\<lambda>raw.
        if length raw < 29 then Inl ValueErr
        else aes_decrypt env key (take 12 raw) (drop 12 raw) (utf8_encode ctx)))"

text \<open>
  What AES-GCM documents and the vault relies on: decryption under the same key, nonce and
  associated data gives the plaintext back, and a ciphertext is 16 bytes of tag longer than its
  plaintext.
\<close>

definition aead_correct :: "vault_env \<Rightarrow> bool" where
  "aead_correct env \<longleftrightarrow> (\<forall>key nonce p aad. length nonce = 12 \<longrightarrow> is_bytes p \<longrightarrow>
     aes_decrypt env key nonce (aes_encrypt env key nonce p aad) aad = Inr p
     \<and> length (aes_encrypt env key nonce p aad) = length p + 16
     \<and> is_bytes (aes_encrypt env key nonce p aad))
   \<and> (\<forall>key nonce c aad p. is_bytes c \<longrightarrow> aes_decrypt env key nonce c aad = Inr p \<longrightarrow>
     is_bytes p \<and> length p = length c - 16)"

section \<open>Argon2id\<close>

record argon2_parameters =
  time_cost :: int
  memory_cost_kib :: int
  parallelism :: int

definition default_argon2 :: argon2_parameters where
  "default_argon2 = \<lparr>time_cost = 3, memory_cost_kib = 65536, parallelism = 4\<rparr>"

definition new_argon2_parameters :: "argon2_parameters \<Rightarrow> argon2_parameters res" where
  "new_argon2_parameters p = guarded
     [(\<not> (2 \<le> time_cost p \<and> time_cost p \<le> 10)
       \<or> \<not> (32768 \<le> memory_cost_kib p \<and> memory_cost_kib p \<le> 1048576)
       \<or> \<not> (1 \<le> parallelism p \<and> parallelism p \<le> 16), ValueErr)] p"

definition derive :: "vault_env \<Rightarrow> argon2_parameters \<Rightarrow> pystr \<Rightarrow> bytes \<Rightarrow> bytes res" where
  "derive env p passphrase salt = guarded [(length passphrase < 12, ValueErr)]
     (argon2id env (utf8_encode passphrase) salt (time_cost p) (memory_cost_kib p) (parallelism p))"

text \<open>The JSON object \<^verbatim>\<open>initialize\<close> stores, and \<^verbatim>\<open>Argon2Parameters(**settings)\<close> on it.\<close>

definition parameters_json :: "argon2_parameters \<Rightarrow> json" where
  "parameters_json p = JObj [(lit ''time_cost'', JInt (time_cost p)),
     (lit ''memory_cost_kib'', JInt (memory_cost_kib p)), (lit ''parallelism'', JInt (parallelism p))]"

definition setting :: "pystr \<Rightarrow> int \<Rightarrow> json \<Rightarrow> int res" where
  "setting name dflt j = (case json_get name j of None \<Rightarrow> Inr dflt | Some v \<Rightarrow> json_int v)"

definition parameters_of_json :: "json \<Rightarrow> argon2_parameters res" where
  "parameters_of_json j = (case j of
      JObj kvs \<Rightarrow>
        (if \<not> fst ` set kvs \<subseteq> {lit ''time_cost'', lit ''memory_cost_kib'', lit ''parallelism''} then Inl TypeErr
         else and_then (setting (lit ''time_cost'') 3 j) (\<lambda>t.
              and_then (setting (lit ''memory_cost_kib'') 65536 j) (\<lambda>m.
              and_then (setting (lit ''parallelism'') 4 j) (\<lambda>p.
                new_argon2_parameters \<lparr>time_cost = t, memory_cost_kib = m, parallelism = p\<rparr>))))
    | _ \<Rightarrow> Inl TypeErr)"

section \<open>Tables\<close>

datatype key_status = KEY_ACTIVE | KEY_RETIRED

record key_version =
  kv_version :: int
  kv_wrapped :: pystr
  kv_status :: key_status
  kv_created :: pystr

datatype secret_kind = KIND_MACHINE | KIND_HUMAN

datatype vault_classification = MACHINE_SECRET | HUMAN_SECRET | L4_HUMAN_OVERRIDE | L4_PROHIBITED

record secret_record =
  sr_id :: pystr
  sr_owner :: pystr
  sr_label :: pystr
  sr_kind :: secret_kind
  sr_class :: vault_classification
  sr_ciphertext :: pystr
  sr_wrapped :: pystr
  sr_key_version :: int
  sr_version :: int
  sr_created :: pystr
  sr_updated :: pystr

record policy_override =
  po_secret :: pystr
  po_policy :: pystr
  po_created :: pystr

record acl_entry =
  acl_secret :: pystr
  acl_subject :: pystr
  acl_action :: pystr
  acl_created :: pystr

record grant_nonce =
  gn_hash :: pystr
  gn_subject :: pystr
  gn_secret :: pystr
  gn_action :: pystr
  gn_expires :: pystr
  gn_consumed :: pystr

record vault_audit_row =
  va_sequence :: int
  va_occurred :: pystr
  va_actor :: pystr
  va_action :: pystr
  va_secret :: pystr
  va_outcome :: pystr
  va_reason :: pystr
  va_previous :: pystr
  va_mac :: pystr

record vault_database =
  vault_meta :: "(pystr \<times> json) list"
  key_versions :: "key_version list"
  secret_records :: "secret_record list"
  policy_overrides :: "policy_override list"
  secret_acl :: "acl_entry list"
  grant_nonces :: "grant_nonce list"
  vault_audit :: "vault_audit_row list"

record vault =
  vdb :: vault_database
  vk_keys :: "(int \<times> bytes) list"
  vk_last_used :: "micros option"
  vk_parameters :: argon2_parameters
  vk_idle_timeout :: micros

text \<open>\<^verbatim>\<open>VaultDatabase.transaction\<close>: an exception rolls the tables back, not the keyring.\<close>

definition transaction :: "(vault, 'a) op \<Rightarrow> (vault, 'a) op" where
  "transaction = atomically (\<lambda>old s. s\<lparr>vdb := vdb old\<rparr>)"

definition on_db :: "(vault_database \<Rightarrow> vault_database) \<Rightarrow> (vault, unit) op" where
  "on_db f = writes (\<lambda>s. s\<lparr>vdb := f (vdb s)\<rparr>)"

section \<open>Keyring\<close>

definition lock :: "vault \<Rightarrow> vault" where
  "lock s = s\<lparr>vk_keys := [], vk_last_used := None\<rparr>"

definition expire_idle :: "micros \<Rightarrow> vault \<Rightarrow> vault" where
  "expire_idle now s = (case vk_last_used s of None \<Rightarrow> s
     | Some t \<Rightarrow> if now - t \<ge> vk_idle_timeout s then lock s else s)"

text \<open>The property \<^verbatim>\<open>sealed\<close>, which locks an idle keyring first.\<close>

definition sealed :: "micros \<Rightarrow> (vault, bool) op" where
  "sealed now = seq (writes (expire_idle now)) (reads (\<lambda>s. vk_keys s = []))"

definition require_unsealed :: "micros \<Rightarrow> (vault, unit) op" where
  "require_unsealed now = bind (sealed now) (\<lambda>b. check b PermissionErr)"

definition install_keys :: "micros \<Rightarrow> (int \<times> bytes) list \<Rightarrow> vault \<Rightarrow> vault" where
  "install_keys now values s = (lock s)\<lparr>vk_keys := values, vk_last_used := Some now\<rparr>"

definition keyring_key :: "micros \<Rightarrow> int \<Rightarrow> (vault, bytes) op" where
  "keyring_key now version = seq (require_unsealed now)
     (bind (reads (\<lambda>s. map_of (vk_keys s) version)) (\<lambda>v. case v of
        None \<Rightarrow> throw KeyErr
      | Some key \<Rightarrow> seq (writes (\<lambda>s. s\<lparr>vk_last_used := Some now\<rparr>)) (ret key)))"

definition active :: "micros \<Rightarrow> (vault, int \<times> bytes) op" where
  "active now = bind (reads (\<lambda>s. find (\<lambda>r. kv_status r = KEY_ACTIVE) (key_versions (vdb s)))) (\<lambda>row.
     case row of None \<Rightarrow> throw RuntimeErr
     | Some r \<Rightarrow> bind (keyring_key now (kv_version r)) (\<lambda>key. ret (kv_version r, key)))"

definition audit_info :: "int \<Rightarrow> bytes" where
  "audit_info version = utf8_encode (lit ''zhixu-vault-audit:'' @ dec version)"

definition audit_key :: "vault_env \<Rightarrow> micros \<Rightarrow> bool \<Rightarrow> (vault, bytes) op" where
  "audit_key env now touch = bind (sealed now) (\<lambda>is_sealed.
     bind (reads (\<lambda>s. if is_sealed then 1 else Min (fst ` set (vk_keys s)))) (\<lambda>version.
     seq (require_unsealed now)
       (bind (if touch then keyring_key now version else reads (\<lambda>s. the (map_of (vk_keys s) version))) (\<lambda>master.
         ret (hkdf_sha256 env (audit_info version) master)))))"

definition master_context :: "int \<Rightarrow> pystr" where
  "master_context version = lit ''vault-master-key:'' @ dec version"

text \<open>The rows \<^verbatim>\<open>LIKE 'argon2_%'\<close> selects, and what is read from them.\<close>

definition argon2_rows :: "vault_database \<Rightarrow> (pystr \<times> json) list" where
  "argon2_rows d = filter (\<lambda>(k, v). starts_with k (lit ''argon2'') \<and> 7 \<le> length k) (vault_meta d)"

definition load_salt :: "vault_database \<Rightarrow> bytes res" where
  "load_salt d = (case map_of (argon2_rows d) (lit ''argon2_salt'') of None \<Rightarrow> Inl KeyErr
     | Some v \<Rightarrow> and_then (json_str v) urlsafe_b64decode)"

definition load_parameters :: "vault_database \<Rightarrow> argon2_parameters res" where
  "load_parameters d = (case map_of (argon2_rows d) (lit ''argon2_parameters'') of None \<Rightarrow> Inl KeyErr
     | Some v \<Rightarrow> parameters_of_json v)"

definition load_derivation :: "vault_database \<Rightarrow> (bytes \<times> argon2_parameters) res" where
  "load_derivation d = and_then (load_salt d) (\<lambda>salt. and_then (load_parameters d) (\<lambda>p. Inr (salt, p)))"

definition insert_meta :: "pystr \<Rightarrow> json \<Rightarrow> (vault, unit) op" where
  "insert_meta k v = seq (bind (reads (\<lambda>s. k \<in> fst ` set (vault_meta (vdb s)))) (\<lambda>b. check b IntegrityErr))
     (on_db (\<lambda>d. d\<lparr>vault_meta := vault_meta d @ [(k, v)]\<rparr>))"

definition initialize :: "vault_env \<Rightarrow> micros \<Rightarrow> bytes \<Rightarrow> bytes \<Rightarrow> bytes \<Rightarrow> pystr \<Rightarrow> (vault, unit) op" where
  "initialize env now salt master_key nonce passphrase = seq
     (transaction
       (bind (reads (\<lambda>s. (key_versions (vdb s) \<noteq> [], vk_parameters s))) (\<lambda>(exists, params).
        seq (check exists RuntimeErr)
       (bind (of_res (derive env params passphrase salt)) (\<lambda>unlock_key.
        seq (insert_meta (lit ''argon2_salt'') (JStr (urlsafe_b64encode salt)))
       (seq (insert_meta (lit ''argon2_parameters'') (parameters_json params))
            (on_db (\<lambda>d. d\<lparr>key_versions := key_versions d @
               [\<lparr>kv_version = 1, kv_wrapped = seal env nonce unlock_key master_key (master_context 1),
                 kv_status = KEY_ACTIVE, kv_created = isoformat_utc now\<rparr>]\<rparr>))))))))
     (writes (install_keys now [(1, master_key)]))"

definition open_key :: "vault_env \<Rightarrow> bytes \<Rightarrow> key_version \<Rightarrow> (int \<times> bytes) res" where
  "open_key env unlock_key r = and_then (open_sealed env unlock_key (kv_wrapped r) (master_context (kv_version r)))
     (\<lambda>key. Inr (kv_version r, key))"

definition rows_by_version :: "vault_database \<Rightarrow> key_version list" where
  "rows_by_version d = sort_key kv_version (key_versions d)"

definition unlock :: "vault_env \<Rightarrow> micros \<Rightarrow> pystr \<Rightarrow> (vault, unit) op" where
  "unlock env now passphrase = bind (reads vdb) (\<lambda>d.
     seq (check (rows_by_version d = []) RuntimeErr)
    (bind (of_res (load_parameters d)) (\<lambda>params.
     bind (of_res (load_salt d)) (\<lambda>salt.
     bind (of_res (derive env params passphrase salt)) (\<lambda>unlock_key.
     bind (of_res (rethrow (map_res (open_key env unlock_key) (rows_by_version d)) PermissionErr)) (\<lambda>keys.
       writes (\<lambda>s. install_keys now keys (s\<lparr>vk_parameters := params\<rparr>))))))))"

definition add_key_version :: "vault_env \<Rightarrow> micros \<Rightarrow> bytes \<Rightarrow> bytes \<Rightarrow> pystr \<Rightarrow> (vault, int) op" where
  "add_key_version env now master nonce passphrase = seq (require_unsealed now)
     (bind (reads vdb) (\<lambda>d.
      bind (of_res (load_derivation d)) (\<lambda>(salt, params).
      bind (of_res (derive env params passphrase salt)) (\<lambda>unlock_key.
      bind (transaction
        (bind (of_res (rethrow (map_res (open_key env unlock_key) (rows_by_version d)) PermissionErr)) (\<lambda>_.
         seq (check (key_versions d = []) ValueErr)
        (let version = Max (kv_version ` set (key_versions d)) + 1
         in seq (on_db (\<lambda>d. d\<lparr>key_versions := map (\<lambda>r. r\<lparr>kv_status := KEY_RETIRED\<rparr>) (key_versions d)\<rparr>))
           (seq (on_db (\<lambda>d. d\<lparr>key_versions := key_versions d @
               [\<lparr>kv_version = version, kv_wrapped = seal env nonce unlock_key master (master_context version),
                 kv_status = KEY_ACTIVE, kv_created = isoformat_utc now\<rparr>]\<rparr>))
             (ret version)))))) (\<lambda>version.
      seq (writes (\<lambda>s. s\<lparr>vk_keys := AList.update version master (vk_keys s), vk_last_used := Some now\<rparr>))
        (ret version))))))"

definition change_passphrase ::
  "vault_env \<Rightarrow> micros \<Rightarrow> bytes \<Rightarrow> (int \<Rightarrow> bytes) \<Rightarrow> pystr \<Rightarrow> pystr \<Rightarrow> (vault, unit) op" where
  "change_passphrase env now new_salt nonces old_passphrase new_passphrase = seq (require_unsealed now)
     (bind (reads (\<lambda>s. (vdb s, vk_parameters s))) (\<lambda>(d, own_parameters).
      bind (of_res (load_derivation d)) (\<lambda>(old_salt, old_parameters).
      bind (of_res (derive env old_parameters old_passphrase old_salt)) (\<lambda>old_key.
      bind (of_res (derive env own_parameters new_passphrase new_salt)) (\<lambda>new_key.
      transaction
        (bind (of_res (rethrow (map_res (open_key env old_key) (key_versions d)) PermissionErr)) (\<lambda>plain.
         seq (each (\<lambda>(version, master). on_db (\<lambda>d. d\<lparr>key_versions :=
                update_where (\<lambda>r. kv_version r = version)
                  (\<lambda>r. r\<lparr>kv_wrapped := seal env (nonces version) new_key master (master_context version)\<rparr>)
                  (key_versions d)\<rparr>)) plain)
             (on_db (\<lambda>d. d\<lparr>vault_meta :=
                update_where (\<lambda>r. fst r = lit ''argon2_salt'')
                  (\<lambda>r. (fst r, JStr (urlsafe_b64encode new_salt))) (vault_meta d)\<rparr>)))))))))"

section \<open>Sealing and opening\<close>

lemma starts_with_append [simp]: "starts_with (p @ s) p"
  by (simp add: starts_with_def)

lemma open_seal:
  assumes "aead_correct env" "length nonce = 12" "is_bytes nonce" "is_bytes p" "p \<noteq> []"
  shows "open_sealed env key (seal env nonce key p ctx) ctx = Inr p"
proof -
  let ?c = "aes_encrypt env key nonce p (utf8_encode ctx)"
  have c: "aes_decrypt env key nonce ?c (utf8_encode ctx) = Inr p" "length ?c = length p + 16" "is_bytes ?c"
    using assms by (simp_all add: aead_correct_def)
  have "b64decode_strict (urlsafe_b64encode (nonce @ ?c)) = Inr (nonce @ ?c)"
    using base64_round_trip(2) c(3) assms(3) by simp
  moreover have "\<not> length (nonce @ ?c) < 29"
    using c(2) assms(2,5) by (cases p) simp_all
  ultimately show ?thesis
    using c(1) assms(2) by (simp add: open_sealed_def seal_def)
qed

lemma open_sealed_bytes:
  assumes "aead_correct env" "open_sealed env key v ctx = Inr p"
  shows "is_bytes p" "p \<noteq> []"
proof -
  from assms(2) obtain raw where r: "b64decode_strict (drop (length PREFIX) v) = Inr raw" "\<not> length raw < 29"
    "aes_decrypt env key (take 12 raw) (drop 12 raw) (utf8_encode ctx) = Inr p"
    by (auto simp: open_sealed_def and_then_Inr split: if_splits)
  have "is_bytes raw" using r(1) by (rule b64decode_bytes)
  then have "is_bytes (drop 12 raw)" by (metis append_take_drop_id is_bytes_simps(3))
  with assms(1) r(3) have "is_bytes p \<and> length p = length (drop 12 raw) - 16" unfolding aead_correct_def by blast
  with r(2) show "is_bytes p" "p \<noteq> []" by auto
qed

section \<open>The keyring's rules\<close>

lemma sealed_run [op_simps]: "sealed now s = (expire_idle now s, Inr (vk_keys (expire_idle now s) = []))"
  by (simp add: sealed_def op_simps)

lemma require_unsealed_run [op_simps]:
  "require_unsealed now s = (expire_idle now s, if vk_keys (expire_idle now s) = [] then Inl PermissionErr else Inr ())"
  by (simp add: require_unsealed_def op_simps)

lemma expire_idle_simps [simp]:
  "vdb (expire_idle now s) = vdb s" "vk_parameters (expire_idle now s) = vk_parameters s"
  "vk_idle_timeout (expire_idle now s) = vk_idle_timeout s" "expire_idle now (expire_idle now s) = expire_idle now s"
  by (auto simp: expire_idle_def lock_def split: option.splits)

lemma expire_idle_keys: "vk_keys (expire_idle now s) \<noteq> [] \<Longrightarrow> expire_idle now s = s"
  by (auto simp: expire_idle_def lock_def split: option.splits if_splits)

lemma unsealed_seq [op_simps]:
  "seq (require_unsealed now) n s =
     (if vk_keys (expire_idle now s) = [] then (expire_idle now s, Inl PermissionErr) else n s)"
  using expire_idle_keys[of now s] by (auto simp: seq_def bind_def require_unsealed_run)

lemma lock_simps [simp]: "vdb (lock s) = vdb s" "vk_keys (lock s) = []" "vk_parameters (lock s) = vk_parameters s"
  by (simp_all add: lock_def)

lemma on_db_run [op_simps]: "on_db f s = (s\<lparr>vdb := f (vdb s)\<rparr>, Inr ())"
  by (simp add: on_db_def op_simps)

lemma transaction_Inr: "transaction m s = (t, Inr x) \<longleftrightarrow> m s = (t, Inr x)"
  by (simp add: transaction_def atomically_Inr)

lemma transaction_Inl: "transaction m s = (t, Inl e) \<longleftrightarrow> (\<exists>u. m s = (u, Inl e) \<and> t = u\<lparr>vdb := vdb s\<rparr>)"
  by (simp add: transaction_def atomically_Inl)

lemma rethrow_Inr [simp]: "rethrow r e = Inr x \<longleftrightarrow> r = Inr x"
  by (auto simp: rethrow_def split: sum.splits)

lemma keyring_key_Inr:
  "keyring_key now version s = (t, Inr key) \<longleftrightarrow>
     vk_keys (expire_idle now s) \<noteq> [] \<and> map_of (vk_keys s) version = Some key \<and> t = s\<lparr>vk_last_used := Some now\<rparr>"
  by (auto simp: keyring_key_def op_simps split: option.splits)

lemma keyring_key_state: "keyring_key now version s = (t, r) \<Longrightarrow>
    vdb t = vdb s \<and> vk_parameters t = vk_parameters s \<and> vk_idle_timeout t = vk_idle_timeout s"
  by (auto simp: keyring_key_def op_simps split: option.splits if_splits)

lemma active_Inr:
  "active now s = (t, Inr (version, key)) \<Longrightarrow>
     (\<exists>r \<in> set (key_versions (vdb s)). kv_status r = KEY_ACTIVE \<and> kv_version r = version)
     \<and> keyring_key now version s = (t, Inr key)"
  by (auto simp: active_def op_simps bind_Inr find_Some_iff split: option.splits)

lemma active_state: "active now s = (t, r) \<Longrightarrow> vdb t = vdb s"
  by (auto simp: active_def op_simps bind_def split: option.splits prod.splits sum.splits dest: keyring_key_state)

section \<open>What a passphrase opens\<close>

text \<open>The passphrase unwraps the stored master keys to \<open>keys\<close>.\<close>

definition passphrase_opens :: "vault_env \<Rightarrow> vault_database \<Rightarrow> pystr \<Rightarrow> (int \<times> bytes) list \<Rightarrow> bool" where
  "passphrase_opens env d passphrase keys \<longleftrightarrow> key_versions d \<noteq> [] \<and>
     (case load_derivation d of Inl e \<Rightarrow> False
      | Inr (salt, params) \<Rightarrow> (case derive env params passphrase salt of Inl e \<Rightarrow> False
          | Inr unlock_key \<Rightarrow> map_res (open_key env unlock_key) (rows_by_version d) = Inr keys))"

lemma passphrase_opensE:
  assumes "passphrase_opens env d passphrase keys"
  obtains salt params unlock_key where "key_versions d \<noteq> []" "load_salt d = Inr salt" "load_parameters d = Inr params"
    "derive env params passphrase salt = Inr unlock_key"
    "map_res (open_key env unlock_key) (rows_by_version d) = Inr keys"
proof -
  from assms obtain salt params where l: "key_versions d \<noteq> []" "load_salt d = Inr salt" "load_parameters d = Inr params"
    by (auto simp: passphrase_opens_def load_derivation_def and_then_def split: sum.split_asm)
  with assms obtain unlock_key where "derive env params passphrase salt = Inr unlock_key"
    by (cases "derive env params passphrase salt") (simp_all add: passphrase_opens_def load_derivation_def)
  with l assms show thesis by (intro that) (simp_all add: passphrase_opens_def load_derivation_def)
qed

lemma passphrase_opensI:
  assumes "key_versions d \<noteq> []" "load_salt d = Inr salt" "load_parameters d = Inr params"
    "derive env params passphrase salt = Inr unlock_key"
    "map_res (open_key env unlock_key) (rows_by_version d) = Inr keys"
  shows "passphrase_opens env d passphrase keys"
  using assms by (simp add: passphrase_opens_def load_derivation_def)

lemma rows_by_version_Nil [simp]: "rows_by_version d = [] \<longleftrightarrow> key_versions d = []"
  by (metis rows_by_version_def length_0_conv length_sort)

lemma set_rows_by_version [simp]: "set (rows_by_version d) = set (key_versions d)"
  by (simp add: rows_by_version_def)

lemma unlock_Inr:
  "unlock env now passphrase s = (t, Inr ()) \<longleftrightarrow>
     (\<exists>keys params. passphrase_opens env (vdb s) passphrase keys \<and> load_parameters (vdb s) = Inr params
        \<and> t = install_keys now keys (s\<lparr>vk_parameters := params\<rparr>))"
proof
  assume "unlock env now passphrase s = (t, Inr ())"
  then show "\<exists>keys params. passphrase_opens env (vdb s) passphrase keys \<and> load_parameters (vdb s) = Inr params
        \<and> t = install_keys now keys (s\<lparr>vk_parameters := params\<rparr>)"
    by (auto simp: unlock_def bind_Inr seq_Inr op_run passphrase_opens_def load_derivation_def split: if_splits)
next
  assume "\<exists>keys params. passphrase_opens env (vdb s) passphrase keys \<and> load_parameters (vdb s) = Inr params
        \<and> t = install_keys now keys (s\<lparr>vk_parameters := params\<rparr>)"
  then show "unlock env now passphrase s = (t, Inr ())"
    by (auto simp: unlock_def op_simps elim!: passphrase_opensE)
qed

text \<open>The rows after a change of passphrase: every master key wrapped again under the new key.\<close>

definition rewrapped :: "vault_env \<Rightarrow> (int \<Rightarrow> bytes) \<Rightarrow> bytes \<Rightarrow> bytes \<Rightarrow> key_version \<Rightarrow> key_version" where
  "rewrapped env nonces old_key new_key r =
     (case open_key env old_key r of Inl e \<Rightarrow> r
      | Inr (v, master) \<Rightarrow> r\<lparr>kv_wrapped := seal env (nonces v) new_key master (master_context v)\<rparr>)"

lemma open_key_Inr: "open_key env k r = Inr vm \<longleftrightarrow>
    fst vm = kv_version r \<and> open_sealed env k (kv_wrapped r) (master_context (kv_version r)) = Inr (snd vm)"
  by (cases vm) (auto simp: open_key_def and_then_Inr)

lemma map_res_set: "map_res f xs = Inr ys \<Longrightarrow> \<forall>x \<in> set xs. \<exists>y \<in> set ys. f x = Inr y"
  by (induction xs arbitrary: ys) (auto split: sum.splits)

lemma map_res_total: "\<forall>x \<in> set xs. \<exists>y. f x = Inr y \<Longrightarrow> \<exists>ys. map_res f xs = Inr ys"
  by (induction xs) fastforce+

lemma map_res_cong_Inr: "map_res f xs = Inr ys \<Longrightarrow> (\<And>x y. x \<in> set xs \<Longrightarrow> f x = Inr y \<Longrightarrow> g (h x) = Inr y)
    \<Longrightarrow> map_res g (map h xs) = Inr ys"
  by (induction xs arbitrary: ys) (auto split: sum.splits)

lemma rewrap_rows:
  assumes "unique_key kv_version (pre @ rows)" "map_res (open_key env old_key) rows = Inr plain"
    and "key_versions (vdb s) = pre @ rows"
  shows "each (\<lambda>(version, master). on_db (\<lambda>d. d\<lparr>key_versions :=
                update_where (\<lambda>r. kv_version r = version)
                  (\<lambda>r. r\<lparr>kv_wrapped := seal env (nonces version) new_key master (master_context version)\<rparr>)
                  (key_versions d)\<rparr>)) plain s
     = (s\<lparr>vdb := (vdb s)\<lparr>key_versions := pre @ map (rewrapped env nonces old_key new_key) rows\<rparr>\<rparr>, Inr ())"
  using assms
proof (induction rows arbitrary: pre plain s)
  case Nil
  then show ?case by (simp add: op_simps)
next
  case (Cons r rows)
  then obtain v master rest where o: "open_key env old_key r = Inr (v, master)"
    "map_res (open_key env old_key) rows = Inr rest" "plain = (v, master) # rest"
    by (auto split: sum.splits)
  then have v: "v = kv_version r" by (simp add: open_key_Inr)
  let ?r = "rewrapped env nonces old_key new_key r"
  let ?f = "\<lambda>r. r\<lparr>kv_wrapped := seal env (nonces v) new_key master (master_context v)\<rparr>"
  have r': "?r = ?f r" using o(1) by (simp add: rewrapped_def)
  have "kv_version q \<noteq> v" if "q \<in> set pre \<union> set rows" for q
  proof -
    have "kv_version r \<notin> kv_version ` (set pre \<union> set rows)" using Cons.prems(1) by (auto simp: unique_key_def)
    with that v show ?thesis by (metis imageI)
  qed
  then have up: "update_where (\<lambda>r. kv_version r = v) ?f (pre @ r # rows) = pre @ ?r # rows"
    using v r' by (auto simp: update_where_def intro!: map_idI)
  let ?s = "s\<lparr>vdb := (vdb s)\<lparr>key_versions := (pre @ [?r]) @ rows\<rparr>\<rparr>"
  have "unique_key kv_version ((pre @ [?r]) @ rows)"
    using Cons.prems(1) r' by (simp add: unique_key_def)
  from Cons.IH[OF this o(2), of ?s] show ?case
    using Cons.prems(3) up o(3) by (simp add: op_simps)
qed

lemma rewrapped_version [simp]: "kv_version (rewrapped env nonces old_key new_key r) = kv_version r"
  by (simp add: rewrapped_def split: sum.splits prod.splits)

lemma sort_key_map_same: "(\<And>x. f (h x) = f x) \<Longrightarrow> sort_key f (map h xs) = map h (sort_key f xs)"
proof -
  assume fh: "\<And>x. f (h x) = f x"
  have ins: "insort_key f (h x) (map h ys) = map h (insort_key f x ys)" for x ys
    by (induction ys) (simp_all add: fh)
  show ?thesis by (induction xs) (simp_all add: ins)
qed

text \<open>The salt row after the update, when the stored salt can be read at all.\<close>

lemma load_after_salt_update:
  assumes "load_salt d = Inr salt" "is_bytes new_salt"
    and "vault_meta d' = update_where (\<lambda>r. fst r = lit ''argon2_salt'')
       (\<lambda>r. (fst r, JStr (urlsafe_b64encode new_salt))) (vault_meta d)"
  shows "load_salt d' = Inr new_salt" "load_parameters d' = load_parameters d"
proof -
  have ne: "lit ''argon2_parameters'' \<noteq> lit ''argon2_salt''" by (simp add: lit_def)
  let ?p = "\<lambda>(k, v). starts_with k (lit ''argon2'') \<and> 7 \<le> length k"
  let ?u = "\<lambda>r. if fst r = lit ''argon2_salt'' then (fst r, JStr (urlsafe_b64encode new_salt)) else r"
  have lookup: "map_of (filter ?p (map ?u rows)) k =
      map_option (\<lambda>v. if k = lit ''argon2_salt'' then JStr (urlsafe_b64encode new_salt) else v)
        (map_of (filter ?p rows) k)" for rows k
    by (induction rows) (auto split: if_splits)
  have e: "map_of (argon2_rows d') k = map_option (\<lambda>v. if k = lit ''argon2_salt'' then JStr (urlsafe_b64encode new_salt) else v)
        (map_of (argon2_rows d) k)" for k
    using lookup[of "vault_meta d" k] assms(3) by (simp add: argon2_rows_def update_where_def)
  show "load_parameters d' = load_parameters d"
    using ne by (simp add: load_parameters_def e option.map_ident)
  show "load_salt d' = Inr new_salt"
    using assms(1,2) base64_round_trip(1)[of new_salt]
    by (auto simp: load_salt_def e split: option.splits)
qed

lemma load_cong: "vault_meta d' = vault_meta d \<Longrightarrow> load_salt d' = load_salt d"
    "vault_meta d' = vault_meta d \<Longrightarrow> load_parameters d' = load_parameters d"
  by (simp_all add: load_salt_def load_parameters_def argon2_rows_def)

lemma derive_Inr: "derive env p passphrase salt = Inr key \<longleftrightarrow> 12 \<le> length passphrase
    \<and> key = argon2id env (utf8_encode passphrase) salt (time_cost p) (memory_cost_kib p) (parallelism p)"
  by (auto simp: derive_def guarded_def)

section \<open>A new vault\<close>

definition empty_vault_database :: vault_database where
  "empty_vault_database = \<lparr>vault_meta = [], key_versions = [], secret_records = [], policy_overrides = [],
     secret_acl = [], grant_nonces = [], vault_audit = []\<rparr>"

lemma parameters_json_round_trip:
  assumes "new_argon2_parameters p = Inr p"
  shows "parameters_of_json (parameters_json p) = Inr p"
  using assms by (cases p) (simp add: parameters_of_json_def parameters_json_def setting_def lit_def)

lemma insert_meta_run [op_simps]:
  "insert_meta k v s = (if k \<in> fst ` set (vault_meta (vdb s)) then (s, Inl IntegrityErr)
     else (s\<lparr>vdb := (vdb s)\<lparr>vault_meta := vault_meta (vdb s) @ [(k, v)]\<rparr>\<rparr>, Inr ()))"
  by (simp add: insert_meta_def seq_def bind_def op_run on_db_run)

lemma initialize_opens:
  assumes "aead_correct env" "vdb s = empty_vault_database" "new_argon2_parameters (vk_parameters s) = Inr (vk_parameters s)"
    and "12 \<le> length passphrase" "is_bytes salt" "length nonce = 12" "is_bytes nonce" "is_bytes master" "master \<noteq> []"
  obtains t where "initialize env now salt master nonce passphrase s = (t, Inr ())"
    "passphrase_opens env (vdb t) passphrase [(1, master)]" "load_parameters (vdb t) = Inr (vk_parameters t)"
    "unique_key kv_version (key_versions (vdb t))" "vk_keys t = [(1, master)]" "vk_last_used t = Some now"
    "vk_idle_timeout t = vk_idle_timeout s"
    "vdb t = empty_vault_database\<lparr>vault_meta := vault_meta (vdb t), key_versions := key_versions (vdb t)\<rparr>"
    "map kv_version (key_versions (vdb t)) = [1]" "map kv_status (key_versions (vdb t)) = [KEY_ACTIVE]"
proof -
  let ?key = "argon2id env (utf8_encode passphrase) salt (time_cost (vk_parameters s))
      (memory_cost_kib (vk_parameters s)) (parallelism (vk_parameters s))"
  have key: "derive env (vk_parameters s) passphrase salt = Inr ?key" using assms(4) by (simp add: derive_Inr)
  let ?row = "\<lparr>kv_version = 1, kv_wrapped = seal env nonce ?key master (master_context 1),
      kv_status = KEY_ACTIVE, kv_created = isoformat_utc now\<rparr>"
  let ?d = "empty_vault_database\<lparr>vault_meta := [(lit ''argon2_salt'', JStr (urlsafe_b64encode salt)),
      (lit ''argon2_parameters'', parameters_json (vk_parameters s))], key_versions := [?row]\<rparr>"
  let ?t = "install_keys now [(1, master)] (s\<lparr>vdb := ?d\<rparr>)"
  have ne: "lit ''argon2_parameters'' \<noteq> lit ''argon2_salt''" by (simp add: lit_def)
  have "initialize env now salt master nonce passphrase s = (?t, Inr ())"
    unfolding initialize_def seq_Inr transaction_Inr
    using assms(2) key ne by (simp add: op_simps empty_vault_database_def)
  moreover have rows: "argon2_rows ?d = vault_meta ?d"
    by (simp add: argon2_rows_def starts_with_def lit_def)
  have salt: "load_salt ?d = Inr salt"
    using base64_round_trip(1)[OF assms(5)] by (simp add: load_salt_def rows)
  have params: "load_parameters ?d = Inr (vk_parameters s)"
    using parameters_json_round_trip[OF assms(3)] ne by (simp add: load_parameters_def rows)
  have "passphrase_opens env ?d passphrase [(1, master)]"
  proof (rule passphrase_opensI[OF _ salt params key])
    have "open_key env ?key ?row = Inr (1, master)"
      using assms by (simp add: open_key_def open_seal)
    then show "map_res (open_key env ?key) (rows_by_version ?d) = Inr [(1, master)]"
      by (simp add: rows_by_version_def)
  qed simp
  ultimately show thesis
    using params by (intro that[of ?t]) (simp_all add: install_keys_def lock_def unique_key_def empty_vault_database_def)
qed

section \<open>Changing the passphrase\<close>

text \<open>
  Changing the passphrase succeeds and loses no key: on an unsealed keyring that holds the stored
  derivation parameters (as \<open>unlock\<close> and \<open>initialize\<close> leave it), when the old passphrase unwraps the
  stored master keys and the new one is long enough, \<open>change_passphrase\<close> returns, and from the
  tables it leaves the new passphrase unlocks a locked keyring to exactly the same versions and
  master keys.
\<close>

lemma change_passphrase_keeps_keys:
  assumes "aead_correct env" "unique_key kv_version (key_versions (vdb s))"
    and "passphrase_opens env (vdb s) old_passphrase keys"
    and "load_parameters (vdb s) = Inr (vk_parameters s)"
    and "is_bytes new_salt" "\<forall>v. length (nonces v) = 12 \<and> is_bytes (nonces v)"
    and "vk_keys (expire_idle now s) \<noteq> []" "12 \<le> length new_passphrase"
  shows "\<exists>t u. change_passphrase env now new_salt nonces old_passphrase new_passphrase s = (t, Inr ())
     \<and> unlock env later new_passphrase (lock t) = (u, Inr ()) \<and> vk_keys u = keys \<and> vdb u = vdb t"
proof -
  from assms(3) obtain salt params old_key where d: "key_versions (vdb s) \<noteq> []" "load_salt (vdb s) = Inr salt"
    "load_parameters (vdb s) = Inr params" "derive env params old_passphrase salt = Inr old_key"
    "map_res (open_key env old_key) (rows_by_version (vdb s)) = Inr keys" by (rule passphrase_opensE)
  obtain new_key where new_key: "derive env (vk_parameters s) new_passphrase new_salt = Inr new_key"
    using assms(8) by (simp add: derive_Inr)
  have "\<forall>r \<in> set (key_versions (vdb s)). \<exists>k. open_key env old_key r = Inr k"
    using map_res_set[OF d(5)] by auto
  then obtain plain where plain: "map_res (open_key env old_key) (key_versions (vdb s)) = Inr plain"
    using map_res_total by blast
  let ?g = "rewrapped env nonces old_key new_key"
  let ?d = "(vdb s)\<lparr>key_versions := map ?g (key_versions (vdb s)),
      vault_meta := update_where (\<lambda>r. fst r = lit ''argon2_salt'')
        (\<lambda>r. (fst r, JStr (urlsafe_b64encode new_salt))) (vault_meta (vdb s))\<rparr>"
  have step: "change_passphrase env now new_salt nonces old_passphrase new_passphrase s = (s\<lparr>vdb := ?d\<rparr>, Inr ())"
    using rewrap_rows[of "[]" "key_versions (vdb s)" env old_key plain s nonces new_key] assms(2,7) plain d new_key
    by (simp add: change_passphrase_def op_simps load_derivation_def transaction_Inr rethrow_def)
  have "map_res (open_key env new_key) (map ?g (rows_by_version (vdb s))) = Inr keys"
  proof (rule map_res_cong_Inr[OF d(5)])
    fix r vm assume r: "r \<in> set (rows_by_version (vdb s))" and o: "open_key env old_key r = Inr vm"
    then have "is_bytes (snd vm)" "snd vm \<noteq> []" using o open_sealed_bytes[OF assms(1)] unfolding open_key_Inr by blast+
    then have "open_sealed env new_key (seal env (nonces (fst vm)) new_key (snd vm) (master_context (fst vm)))
        (master_context (fst vm)) = Inr (snd vm)"
      using assms(1,6) by (intro open_seal) auto
    then show "open_key env new_key (?g r) = Inr vm"
      using o by (simp add: rewrapped_def split_beta) (simp add: open_key_Inr)
  qed
  then have rows: "map_res (open_key env new_key) (rows_by_version ?d) = Inr keys"
    by (simp add: rows_by_version_def sort_key_map_same)
  note load = load_after_salt_update[OF d(2) assms(5), of ?d]
  have "passphrase_opens env ?d new_passphrase keys"
    using d(1) new_key load assms(4) by (intro passphrase_opensI[OF _ _ _ new_key rows]) auto
  then have "unlock env later new_passphrase (lock (s\<lparr>vdb := ?d\<rparr>))
      = (install_keys later keys ((lock (s\<lparr>vdb := ?d\<rparr>))\<lparr>vk_parameters := vk_parameters s\<rparr>), Inr ())"
    using load(2) assms(4) by (subst unlock_Inr) auto
  then show ?thesis using step by (auto simp: install_keys_def)
qed

text \<open>An environment in which the laws hold: the ciphertext is the plaintext and a tag of zeros.\<close>

definition sample_env :: vault_env where
  "sample_env = \<lparr>ve_tz = utc_only,
     aes_encrypt = (\<lambda>k n p a. p @ replicate 16 0), aes_decrypt = (\<lambda>k n c a. Inr (take (length c - 16) c)),
     argon2id = (\<lambda>p s t m l. s), hkdf_sha256 = (\<lambda>i m. i @ m), hmac_sha256 = (\<lambda>k m. replicate 59 48 @ padded 5 (foldl (\<lambda>h c. (31 * h + c) mod 50000) 7 (k @ m))), sha256_hex = (\<lambda>m. m),
     ed25519_verify = (\<lambda>k s m. s = k @ m), json_loads = (\<lambda>b. Inl ValueErr),
     fromisoformat = (\<lambda>s. and_then (fromisoformat_utc s) (\<lambda>m. Inr (utc m))),
     py_repr = (\<lambda>j. [])\<rparr>"

lemma sample_env_correct: "aead_correct sample_env"
  by (auto simp: aead_correct_def sample_env_def is_bytes_def list_all_iff dest: in_set_takeD)

definition sample_vault :: vault where
  "sample_vault = \<lparr>vdb = empty_vault_database, vk_keys = [], vk_last_used = None, vk_parameters = default_argon2,
     vk_idle_timeout = 600000000\<rparr>"

lemma default_argon2_ok: "new_argon2_parameters default_argon2 = Inr default_argon2"
  by (simp add: new_argon2_parameters_def default_argon2_def guarded_def)

abbreviation sample_passphrase :: pystr where
  "sample_passphrase \<equiv> lit ''correct horse battery''"

text \<open>The vault of the following examples, initialized at time 0 with a master key of ones.\<close>

lemma sample_initialized:
  obtains t where "initialize sample_env 0 (replicate 16 2) (replicate 32 1) (replicate 12 3) sample_passphrase sample_vault = (t, Inr ())"
    "passphrase_opens sample_env (vdb t) sample_passphrase [(1, replicate 32 1)]" "load_parameters (vdb t) = Inr (vk_parameters t)"
    "unique_key kv_version (key_versions (vdb t))" "vk_keys t = [(1, replicate 32 1)]" "vk_last_used t = Some 0"
    "vk_idle_timeout t = 600000000"
    "vdb t = empty_vault_database\<lparr>vault_meta := vault_meta (vdb t), key_versions := key_versions (vdb t)\<rparr>"
    "map kv_version (key_versions (vdb t)) = [1]" "map kv_status (key_versions (vdb t)) = [KEY_ACTIVE]"
  by (rule initialize_opens[of sample_env sample_vault sample_passphrase "replicate 16 2" "replicate 12 3" "replicate 32 1" 0])
    (auto simp: sample_env_correct sample_vault_def default_argon2_ok is_bytes_def list_all_iff lit_def)

lemma change_passphrase_keeps_keys_example:
  "\<exists>s t u. initialize sample_env 0 (replicate 16 2) (replicate 32 1) (replicate 12 3) sample_passphrase sample_vault = (s, Inr ())
     \<and> change_passphrase sample_env 1 (replicate 16 5) (\<lambda>v. replicate 12 7) sample_passphrase (lit ''another passphrase'') s = (t, Inr ())
     \<and> unlock sample_env 2 (lit ''another passphrase'') (lock t) = (u, Inr ()) \<and> vk_keys u = [(1, replicate 32 1)]"
proof -
  obtain s where s: "initialize sample_env 0 (replicate 16 2) (replicate 32 1) (replicate 12 3) sample_passphrase sample_vault = (s, Inr ())"
    "passphrase_opens sample_env (vdb s) sample_passphrase [(1, replicate 32 1)]" "load_parameters (vdb s) = Inr (vk_parameters s)"
    "unique_key kv_version (key_versions (vdb s))" "vk_keys s = [(1, replicate 32 1)]" "vk_last_used s = Some 0"
    "vk_idle_timeout s = 600000000" by (rule sample_initialized)
  have "vk_keys (expire_idle 1 s) \<noteq> []" using s by (simp add: expire_idle_def)
  moreover have "is_bytes (replicate 16 5)" "\<forall>v::int. length (replicate 12 (7::nat)) = 12 \<and> is_bytes (replicate 12 7)"
    "12 \<le> length (lit ''another passphrase'')"
    by (simp_all add: is_bytes_def list_all_iff lit_def)
  ultimately show ?thesis
    using change_passphrase_keeps_keys[OF sample_env_correct s(4,2,3), of "replicate 16 5" "\<lambda>v. replicate 12 7" 1
        "lit ''another passphrase''" 2] s(1) by blast
qed

end
