(* ===== verification/VaultAudit.thy ===== *)
theory VaultAudit
  imports VaultCrypto
begin

text \<open>
  The audit chain, \<^verbatim>\<open>src/zhixu_vault/audit.py\<close>: the bytes an event is authenticated by, \<open>append\<close>,
  \<open>verify\<close> and the checkpoints. Rows are listed in the order of their sequence numbers, since the
  program only inserts them. A checkpoint file is its kind, size, modification time and the JSON
  value read from it; writing, linking and syncing the file are not modelled.
\<close>

record vault_event =
  ev_at :: datetime
  ev_actor :: pystr
  ev_action :: pystr
  ev_secret :: pystr
  ev_outcome :: pystr
  ev_reason :: pystr

definition utc_text :: "vault_env \<Rightarrow> datetime \<Rightarrow> pystr" where
  "utc_text env t = isoformat_utc (instant (ve_tz env) t)"

definition event_json :: "vault_env \<Rightarrow> vault_event \<Rightarrow> pystr \<Rightarrow> json" where
  "event_json env e previous = JObj
     [(lit ''action'', JStr (ev_action e)), (lit ''actor'', JStr (ev_actor e)),
      (lit ''occurred_at'', JStr (utc_text env (ev_at e))), (lit ''outcome'', JStr (ev_outcome e)),
      (lit ''previous_mac'', JStr previous), (lit ''reason_code'', JStr (ev_reason e)),
      (lit ''secret_id'', JStr (ev_secret e))]"

definition event_bytes :: "vault_env \<Rightarrow> vault_event \<Rightarrow> pystr \<Rightarrow> bytes" where
  "event_bytes env e previous = utf8_encode (json_dumps (event_json env e previous))"

section \<open>Append and verify\<close>

definition last_mac :: "vault_audit_row list \<Rightarrow> pystr" where
  "last_mac rows = (if rows = [] then [] else va_mac (last rows))"

definition next_sequence :: "vault_audit_row list \<Rightarrow> int" where
  "next_sequence rows = (if rows = [] then 1 else va_sequence (last rows) + 1)"

definition event_row :: "vault_env \<Rightarrow> bytes \<Rightarrow> vault_event \<Rightarrow> vault_audit_row list \<Rightarrow> vault_audit_row" where
  "event_row env key e rows =
     \<lparr>va_sequence = next_sequence rows, va_occurred = utc_text env (ev_at e), va_actor = ev_actor e, va_action = ev_action e,
      va_secret = ev_secret e, va_outcome = ev_outcome e, va_reason = ev_reason e, va_previous = last_mac rows,
      va_mac = hmac_sha256 env key (event_bytes env e (last_mac rows))\<rparr>"

definition audit_append :: "vault_env \<Rightarrow> vault_event \<Rightarrow> bytes \<Rightarrow> (vault, unit) op" where
  "audit_append env e key = bind (reads (\<lambda>s. vault_audit (vdb s))) (\<lambda>rows.
     let r = event_row env key e rows
     in seq (check (va_mac r \<in> va_mac ` set rows) IntegrityErr)
            (on_db (\<lambda>d. d\<lparr>vault_audit := vault_audit d @ [r]\<rparr>)))"

definition row_event :: "vault_env \<Rightarrow> vault_audit_row \<Rightarrow> vault_event res" where
  "row_event env r = and_then (fromisoformat env (va_occurred r)) (\<lambda>t.
     Inr \<lparr>ev_at = t, ev_actor = va_actor r, ev_action = va_action r, ev_secret = va_secret r,
          ev_outcome = va_outcome r, ev_reason = va_reason r\<rparr>)"

fun verify_from :: "vault_env \<Rightarrow> bytes \<Rightarrow> pystr \<Rightarrow> vault_audit_row list \<Rightarrow> bool res" where
  "verify_from env key previous [] = Inr True"
| "verify_from env key previous (r # rows) =
     (if va_previous r \<noteq> previous then Inr False
      else and_then (row_event env r) (\<lambda>e.
        let expected = hmac_sha256 env key (event_bytes env e previous)
        in if expected \<noteq> va_mac r then Inr False else verify_from env key expected rows))"

definition audit_verify :: "vault_env \<Rightarrow> bytes \<Rightarrow> vault_audit_row list \<Rightarrow> bool res" where
  "audit_verify env key rows = verify_from env key [] rows"

text \<open>The second component lists the alerts raised.\<close>

definition verify_or_alert :: "vault_env \<Rightarrow> bytes \<Rightarrow> vault_audit_row list \<Rightarrow> (bool \<times> pystr list) res" where
  "verify_or_alert env key rows = and_then (audit_verify env key rows) (\<lambda>valid.
     Inr (valid, if valid then [] else [lit ''vault_audit_chain_invalid'']))"

section \<open>Checkpoints\<close>

record checkpoint_file =
  cf_regular :: bool
  cf_size :: int
  cf_mtime :: int
  cf_content :: "json res"

record checkpoint_directory =
  ck_is_directory :: bool
  ck_files :: "checkpoint_file list"

definition CHECKPOINT_FORMAT :: pystr where
  "CHECKPOINT_FORMAT = lit ''zhixu-vault-audit-checkpoint-v1''"

definition MAX_CHECKPOINT_BYTES :: int where
  "MAX_CHECKPOINT_BYTES = 64 * 1024"

definition audit_head :: "vault_audit_row list \<Rightarrow> int \<times> pystr" where
  "audit_head rows = (if rows = [] then (0, []) else (va_sequence (last rows), va_mac (last rows)))"

definition checkpoint_body :: "int \<Rightarrow> pystr \<Rightarrow> pystr \<Rightarrow> json" where
  "checkpoint_body sequence mac created = JObj [(lit ''created_at'', JStr created), (lit ''format'', JStr CHECKPOINT_FORMAT),
     (lit ''head_event_mac'', JStr mac), (lit ''sequence'', JInt sequence)]"

definition checkpoint_mac :: "vault_env \<Rightarrow> bytes \<Rightarrow> json \<Rightarrow> pystr" where
  "checkpoint_mac env key body =
     hmac_sha256 env key (utf8_encode (lit ''vault-audit-checkpoint:'') @ utf8_encode (json_dumps body))"

definition checkpoint_payload :: "int \<Rightarrow> pystr \<Rightarrow> pystr \<Rightarrow> pystr \<Rightarrow> json" where
  "checkpoint_payload sequence mac created cmac = JObj [(lit ''checkpoint_mac'', JStr cmac), (lit ''created_at'', JStr created),
     (lit ''format'', JStr CHECKPOINT_FORMAT), (lit ''head_event_mac'', JStr mac), (lit ''sequence'', JInt sequence)]"

text \<open>\<^verbatim>\<open>_checkpoint_files\<close>: newest first.\<close>

definition checkpoint_files :: "checkpoint_file list \<Rightarrow> checkpoint_file list res" where
  "checkpoint_files fs = (if list_ex (\<lambda>f. \<not> cf_regular f) fs then Inl ValueErr else Inr (sort_key (\<lambda>f. - cf_mtime f) fs))"

definition retain :: "int \<Rightarrow> checkpoint_directory \<Rightarrow> checkpoint_directory res" where
  "retain keep dir = and_then (checkpoint_files (ck_files dir)) (\<lambda>fs. Inr (dir\<lparr>ck_files := take (nat keep) fs\<rparr>))"

definition write_checkpoint ::
  "vault_env \<Rightarrow> bytes \<Rightarrow> datetime \<Rightarrow> int \<Rightarrow> int \<Rightarrow> vault_audit_row list \<Rightarrow> checkpoint_directory \<Rightarrow> checkpoint_directory res" where
  "write_checkpoint env key now keep mtime rows dir =
     (if \<not> aware now then Inl ValueErr
      else if \<not> (2 \<le> keep \<and> keep \<le> 3650) then Inl ValueErr
      else and_then (audit_verify env key rows) (\<lambda>valid.
        if \<not> valid then Inl RuntimeErr
        else
          (let (sequence, mac) = audit_head rows;
               created = utc_text env now;
               cmac = checkpoint_mac env key (checkpoint_body sequence mac created);
               payload = checkpoint_payload sequence mac created cmac
           in if \<not> ck_is_directory dir then Inl PermissionErr
              else retain keep (dir\<lparr>ck_files := ck_files dir @
                     [\<lparr>cf_regular = True, cf_size = int (length (utf8_encode (json_dumps payload))), cf_mtime = mtime,
                       cf_content = Inr payload\<rparr>]\<rparr>))))"

definition is_jstr :: "json option \<Rightarrow> bool" where
  "is_jstr v = (case v of Some (JStr s) \<Rightarrow> True | _ \<Rightarrow> False)"

definition jstr :: "json option \<Rightarrow> pystr" where
  "jstr v = (case v of Some (JStr s) \<Rightarrow> s | _ \<Rightarrow> [])"

definition bad_checkpoint_values :: "json \<Rightarrow> bool" where
  "bad_checkpoint_values v \<longleftrightarrow>
     (case json_get (lit ''sequence'') v of Some (JInt n) \<Rightarrow> n < 0 | _ \<Rightarrow> True)
     \<or> \<not> list_all (\<lambda>name. is_jstr (json_get name v)) [lit ''head_event_mac'', lit ''created_at'', lit ''checkpoint_mac'']
     \<or> length (jstr (json_get (lit ''head_event_mac'') v)) > 64
     \<or> length (jstr (json_get (lit ''checkpoint_mac'') v)) \<noteq> 64"

definition read_checkpoint :: "vault_env \<Rightarrow> checkpoint_file \<Rightarrow> json res" where
  "read_checkpoint env f =
     (if \<not> cf_regular f \<or> cf_size f \<le> 0 \<or> cf_size f > MAX_CHECKPOINT_BYTES then Inl ValueErr
      else and_then (cf_content f) (\<lambda>v. case v of
          JObj kvs \<Rightarrow>
            (if fst ` set kvs \<noteq> {lit ''format'', lit ''sequence'', lit ''head_event_mac'', lit ''created_at'', lit ''checkpoint_mac''}
             then Inl ValueErr
             else if json_get (lit ''format'') v \<noteq> Some (JStr CHECKPOINT_FORMAT) then Inl ValueErr
             else if bad_checkpoint_values v then Inl ValueErr
             else and_then (fromisoformat env (jstr (json_get (lit ''created_at'') v))) (\<lambda>t.
                if \<not> aware t then Inl ValueErr else Inr v))
        | _ \<Rightarrow> Inl ValueErr))"

definition checkpoint_holds :: "vault_env \<Rightarrow> bytes \<Rightarrow> vault_audit_row list \<Rightarrow> json \<Rightarrow> bool res" where
  "checkpoint_holds env key rows v =
     (let sequence = (case json_get (lit ''sequence'') v of Some (JInt n) \<Rightarrow> n | _ \<Rightarrow> 0);
          mac = jstr (json_get (lit ''head_event_mac'') v);
          body = checkpoint_body sequence mac (jstr (json_get (lit ''created_at'') v))
      in if checkpoint_mac env key body \<noteq> jstr (json_get (lit ''checkpoint_mac'') v) then Inr False
         else and_then (audit_verify env key rows) (\<lambda>valid.
           if \<not> valid then Inr False
           else if sequence = 0 then Inr (mac = [])
           else Inr (case find_row va_sequence sequence rows of None \<Rightarrow> False | Some r \<Rightarrow> va_mac r = mac)))"

text \<open>\<^verbatim>\<open>except (OSError, ValueError): return False\<close>: every error of the parts is one of these.\<close>

definition verify_latest_checkpoint :: "vault_env \<Rightarrow> bytes \<Rightarrow> vault_audit_row list \<Rightarrow> checkpoint_directory \<Rightarrow> bool" where
  "verify_latest_checkpoint env key rows dir =
     (if \<not> ck_is_directory dir then False
      else case and_then (checkpoint_files (ck_files dir)) (\<lambda>candidates. case candidates of
             [] \<Rightarrow> Inr False
           | f # _ \<Rightarrow> and_then (read_checkpoint env f) (checkpoint_holds env key rows))
        of Inl e \<Rightarrow> False | Inr b \<Rightarrow> b)"

section \<open>The bytes determine the event\<close>

lemma event_bytes_text: "event_bytes env e p = json_dumps (event_json env e p)"
  unfolding event_bytes_def
  by (rule utf8_ascii) (simp add: event_json_def json_quote_ascii)

lemma padded_ascii: "list_all scalar (padded w n)"
  by (induction w arbitrary: n) (auto simp: scalar_def)

lemma scalar_isoformat: "list_all scalar (isoformat_utc t)"
  by (simp add: isoformat_utc_def iso_date_def iso_clock_def iso_fraction_def padded_ascii) (simp add: scalar_def)

definition scalar_event :: "vault_event \<Rightarrow> bool" where
  "scalar_event e \<longleftrightarrow> list_all (list_all scalar) [ev_actor e, ev_action e, ev_secret e, ev_outcome e, ev_reason e]"

text \<open>Two events are the same for the chain when they agree up to the zone their time is written in.\<close>

definition same_event :: "vault_env \<Rightarrow> vault_event \<Rightarrow> vault_event \<Rightarrow> bool" where
  "same_event env e e' \<longleftrightarrow> utc_text env (ev_at e) = utc_text env (ev_at e')
     \<and> e\<lparr>ev_at := ev_at e'\<rparr> = e'"

lemma event_bytes_inj:
  assumes "scalar_event e" "scalar_event e'" "list_all scalar p" "list_all scalar p'"
    and "event_bytes env e p = event_bytes env e' p'"
  shows "same_event env e e' \<and> p = p'"
proof -
  have sc: "list_all scalar (utc_text env t)" for t by (simp add: utc_text_def scalar_isoformat)
  from assms(5) have "json_dumps (event_json env e p) = json_dumps (event_json env e' p')"
    by (simp add: event_bytes_text)
  with assms(1-4) sc have "ev_action e = ev_action e'" "ev_actor e = ev_actor e'" "utc_text env (ev_at e) = utc_text env (ev_at e')"
    "ev_outcome e = ev_outcome e'" "p = p'" "ev_reason e = ev_reason e'" "ev_secret e = ev_secret e'"
    by (simp_all add: event_json_def scalar_event_def json_quote_inj json_quote_inj[of _ _ "[]" "[]", simplified])
  then show ?thesis by (cases e; cases e') (simp add: same_event_def)
qed

section \<open>The chain\<close>

definition linked :: "vault_env \<Rightarrow> bytes \<Rightarrow> pystr \<Rightarrow> vault_audit_row \<Rightarrow> bool" where
  "linked env key previous r \<longleftrightarrow> va_previous r = previous
     \<and> (\<exists>e. row_event env r = Inr e \<and> va_mac r = hmac_sha256 env key (event_bytes env e previous))"

lemma verify_Cons: "verify_from env key p (r # rows) = Inr True \<longleftrightarrow>
    linked env key p r \<and> verify_from env key (va_mac r) rows = Inr True"
  by (auto simp: linked_def and_then_Inr Let_def)

lemma verify_append: "verify_from env key p (xs @ ys) = Inr True \<longleftrightarrow>
    verify_from env key p xs = Inr True \<and> verify_from env key (if xs = [] then p else va_mac (last xs)) ys = Inr True"
  by (induction xs arbitrary: p) (auto simp: verify_Cons simp del: verify_from.simps(2))

lemma verify_snoc: "audit_verify env key (rows @ [r]) = Inr True \<longleftrightarrow>
    audit_verify env key rows = Inr True \<and> linked env key (last_mac rows) r"
  unfolding audit_verify_def last_mac_def verify_append by (simp add: verify_Cons del: verify_from.simps(2))

text \<open>Reading back the time \<^verbatim>\<open>append\<close> wrote: what \<^verbatim>\<open>fromisoformat\<close> documents.\<close>

definition iso_correct :: "vault_env \<Rightarrow> bool" where
  "iso_correct env \<longleftrightarrow> (\<forall>t. in_range t \<longrightarrow> fromisoformat env (isoformat_utc t) = Inr (utc t))"

definition in_range_event :: "vault_env \<Rightarrow> vault_event \<Rightarrow> bool" where
  "in_range_event env e \<longleftrightarrow> in_range (instant (ve_tz env) (ev_at e))"

lemma instant_utc [simp]: "instant db (utc t) = t"
  by (simp add: instant_def utc_def)

lemma event_row_linked:
  assumes "iso_correct env" "in_range_event env e"
  shows "linked env key (last_mac rows) (event_row env key e rows)"
proof -
  have "row_event env (event_row env key e rows) = Inr (e\<lparr>ev_at := utc (instant (ve_tz env) (ev_at e))\<rparr>)"
    using assms by (cases e) (simp add: row_event_def event_row_def iso_correct_def in_range_event_def utc_text_def)
  then show ?thesis
    by (simp add: linked_def event_row_def event_bytes_def event_json_def utc_text_def)
qed

lemma audit_append_run [op_simps]:
  "audit_append env e key s =
     (let r = event_row env key e (vault_audit (vdb s)) in
      if va_mac r \<in> va_mac ` set (vault_audit (vdb s)) then (s, Inl IntegrityErr)
      else (s\<lparr>vdb := (vdb s)\<lparr>vault_audit := vault_audit (vdb s) @ [r]\<rparr>\<rparr>, Inr ()))"
  by (simp add: audit_append_def op_simps Let_def)

text \<open>Sequence numbers count from one, as an AUTOINCREMENT column without deletions does.\<close>

definition sequence_ok :: "vault_audit_row list \<Rightarrow> bool" where
  "sequence_ok rows \<longleftrightarrow> map va_sequence rows = map (\<lambda>i. int i + 1) [0..<length rows]"

lemma sequence_ok_last: "sequence_ok rows \<Longrightarrow> rows \<noteq> [] \<Longrightarrow> va_sequence (last rows) = int (length rows)"
proof -
  assume a: "sequence_ok rows" "rows \<noteq> []"
  then have i: "length rows - 1 < length rows" by simp
  have "map va_sequence rows ! (length rows - 1) = int (length rows - 1) + 1"
    using a(1) i unfolding sequence_ok_def by simp
  then have "va_sequence (last rows) = int (length rows - 1) + 1"
    using i last_conv_nth[OF a(2)] by simp
  with a(2) show ?thesis by (simp add: of_nat_diff Suc_leI)
qed

lemma next_sequence_eq: "sequence_ok rows \<Longrightarrow> next_sequence rows = int (length rows) + 1"
  by (simp add: next_sequence_def sequence_ok_last)

lemma find_sequence:
  assumes "sequence_ok rows" "i < length rows"
  shows "find_row va_sequence (int i + 1) rows = Some (rows ! i)"
proof -
  have seqs: "map va_sequence rows = map (\<lambda>i. int i + 1) [0..<length rows]" using assms(1) by (simp add: sequence_ok_def)
  have "unique_key va_sequence rows" unfolding unique_key_def seqs by (simp add: distinct_map inj_on_def)
  moreover have "va_sequence (rows ! i) = int i + 1"
    using arg_cong[OF seqs, of "\<lambda>l. l ! i"] assms(2) by simp
  ultimately show ?thesis using assms(2) by (simp add: find_row_Some_iff)
qed

lemma sequence_ok_bound: "sequence_ok rows \<Longrightarrow> int (length rows) < n \<Longrightarrow> find_row va_sequence n rows = None"
  unfolding find_row_None_iff sequence_ok_def set_map[symmetric] by auto

text \<open>A log as the program leaves it: verified and numbered.\<close>

definition audit_ok :: "vault_env \<Rightarrow> bytes \<Rightarrow> vault_audit_row list \<Rightarrow> bool" where
  "audit_ok env key rows \<longleftrightarrow> audit_verify env key rows = Inr True \<and> sequence_ok rows"

text \<open>
  Appending keeps the audit chain verifiable: from a log that verifies under the audit key, an
  append leaves a log that verifies under it, with consecutive sequence numbers, and it either
  adds exactly one row for the event or changes nothing because the row's MAC is already in the
  log.
\<close>

lemma append_keeps_chain:
  assumes "iso_correct env" "in_range_event env e" "audit_ok env key (vault_audit (vdb s))"
    and "audit_append env e key s = (t, r)"
  shows "audit_ok env key (vault_audit (vdb t))
    \<and> (if r = Inr () then vault_audit (vdb t) = vault_audit (vdb s) @ [event_row env key e (vault_audit (vdb s))]
       else t = s \<and> va_mac (event_row env key e (vault_audit (vdb s))) \<in> va_mac ` set (vault_audit (vdb s)))"
proof -
  let ?rows = "vault_audit (vdb s)"
  have "sequence_ok (?rows @ [event_row env key e ?rows])"
    using assms(3) next_sequence_eq[of ?rows] by (simp add: audit_ok_def sequence_ok_def event_row_def)
  then have "audit_ok env key (?rows @ [event_row env key e ?rows])"
    using assms(3) event_row_linked[OF assms(1,2)] by (simp add: audit_ok_def verify_snoc)
  then show ?thesis using assms(3,4) by (auto simp: audit_append_run Let_def split: if_splits)
qed

lemma sample_env_iso: "iso_correct sample_env"
  by (simp add: iso_correct_def sample_env_def fromisoformat_isoformat)

definition sample_event :: vault_event where
  "sample_event = \<lparr>ev_at = utc 0, ev_actor = lit ''u'', ev_action = lit ''reveal'', ev_secret = lit ''s'',
     ev_outcome = lit ''completed'', ev_reason = []\<rparr>"

lemma sample_event_range: "in_range_event sample_env sample_event"
  by (simp add: in_range_event_def sample_event_def in_range_def)

section \<open>Tampering\<close>

definition scalar_row :: "vault_audit_row \<Rightarrow> bool" where
  "scalar_row r \<longleftrightarrow> list_all (list_all scalar)
     [va_actor r, va_action r, va_secret r, va_outcome r, va_reason r, va_previous r]"



section \<open>Checkpoints detect a shortened log\<close>

lemma insort_behind: "cf_mtime f < cf_mtime g \<Longrightarrow>
    insort_key (\<lambda>f. - cf_mtime f) f (g # xs) = g # insort_key (\<lambda>f. - cf_mtime f) f xs"
  by simp

lemma newest_first:
  "\<forall>f \<in> set fs. cf_mtime f < cf_mtime g \<Longrightarrow>
     sort_key (\<lambda>f. - cf_mtime f) (fs @ [g]) = g # sort_key (\<lambda>f. - cf_mtime f) fs"
  by (induction fs) (auto simp: insort_behind)

lemma checkpoint_fields [simp]:
  "json_get (lit ''sequence'') (checkpoint_payload n mac c m) = Some (JInt n)"
  "json_get (lit ''head_event_mac'') (checkpoint_payload n mac c m) = Some (JStr mac)"
  "json_get (lit ''created_at'') (checkpoint_payload n mac c m) = Some (JStr c)"
  "json_get (lit ''format'') (checkpoint_payload n mac c m) = Some (JStr CHECKPOINT_FORMAT)"
  "json_get (lit ''checkpoint_mac'') (checkpoint_payload n mac c m) = Some (JStr m)"
  by (simp_all add: checkpoint_payload_def lit_def)

lemma length_json_quote: "length (json_quote s) \<le> 12 * length s + 2"
proof -
  have "length (json_char c) \<le> 12" for c by (simp add: json_char_def)
  then have "length (concat (map json_char s)) \<le> 12 * length s"
    by (induction s) (auto intro: add_mono order_trans)
  then show ?thesis by (simp add: json_quote_def)
qed

lemma length_dec_digits: "n < 10 ^ Suc k \<Longrightarrow> length (dec_digits n) \<le> Suc k"
proof (induction k arbitrary: n)
  case 0
  then show ?case by (simp add: dec_digits.simps)
next
  case (Suc k)
  then have "n div 10 < 10 ^ Suc k" by simp
  from Suc.IH[OF this] show ?case by (subst dec_digits.simps) simp
qed

lemma dec_ascii: "0 \<le> n \<Longrightarrow> list_all (\<lambda>c. c < 128) (dec n)"
proof -
  have "list_all (\<lambda>c. c < 128) (dec_digits m)" for m
  proof (induction m rule: dec_digits.induct)
    case (1 m)
    have "m mod 10 < 10" by simp
    then have "48 + m mod 10 < 128" by linarith
    with 1 show ?case by (subst dec_digits.simps) auto
  qed
  then show "0 \<le> n \<Longrightarrow> ?thesis" by (simp add: dec_def)
qed

lemma length_isoformat: "length (isoformat_utc t) \<le> 32"
  by (simp add: isoformat_utc_def iso_date_def iso_clock_def iso_fraction_def)

lemma checkpoint_size:
  assumes "0 \<le> n" "n < 10 ^ 18" "length mac \<le> 64" "length m = 64"
  shows "0 < length (utf8_encode (json_dumps (checkpoint_payload n mac (isoformat_utc t) m)))
    \<and> length (utf8_encode (json_dumps (checkpoint_payload n mac (isoformat_utc t) m))) \<le> 65536"
proof -
  let ?j = "json_dumps (checkpoint_payload n mac (isoformat_utc t) m)"
  have "utf8_encode ?j = ?j"
    by (rule utf8_ascii) (simp add: checkpoint_payload_def json_quote_ascii dec_ascii assms(1))
  moreover have "length (dec n) \<le> 18"
    using length_dec_digits[of "nat n" 17] assms(1,2) by (simp add: dec_def nat_less_iff)
  moreover have "length (json_quote (lit ''checkpoint_mac'')) = 16" "length (json_quote (lit ''created_at'')) = 12"
    "length (json_quote (lit ''format'')) = 8" "length (json_quote (lit ''head_event_mac'')) = 16"
    "length (json_quote (lit ''sequence'')) = 10" "length (json_quote CHECKPOINT_FORMAT) = 33"
    by (simp_all add: json_quote_def json_char_def lit_def CHECKPOINT_FORMAT_def)
  moreover have "length (json_quote mac) \<le> 770" "length (json_quote m) \<le> 770" "length (json_quote (isoformat_utc t)) \<le> 386"
    using length_json_quote[of mac] length_json_quote[of m] length_json_quote[of "isoformat_utc t"] assms(3,4) length_isoformat[of t]
    by linarith+
  ultimately show ?thesis by (simp add: checkpoint_payload_def)
qed

lemma read_written_checkpoint:
  assumes "iso_correct env" "in_range t" "0 \<le> n" "n < 10 ^ 18" "length mac \<le> 64" "length m = 64"
    and "f = \<lparr>cf_regular = True, cf_size = int (length (utf8_encode (json_dumps p))), cf_mtime = mtime, cf_content = Inr p\<rparr>"
    and "p = checkpoint_payload n mac (isoformat_utc t) m"
  shows "read_checkpoint env f = Inr p"
proof -
  have "0 < cf_size f" "cf_size f \<le> 65536" "cf_regular f" "cf_content f = Inr p"
    using checkpoint_size[OF assms(3-6), of t] assms(7,8) by simp_all
  moreover have "\<not> bad_checkpoint_values p"
    using assms(3-6) by (simp add: bad_checkpoint_values_def is_jstr_def jstr_def assms(8))
  moreover obtain kvs where "p = JObj kvs" "fst ` set kvs = {lit ''format'', lit ''sequence'', lit ''head_event_mac'',
      lit ''created_at'', lit ''checkpoint_mac''}"
    by (rule that[of "[(lit ''checkpoint_mac'', JStr m), (lit ''created_at'', JStr (isoformat_utc t)),
     (lit ''format'', JStr CHECKPOINT_FORMAT), (lit ''head_event_mac'', JStr mac), (lit ''sequence'', JInt n)]"])
      (auto simp: assms(8) checkpoint_payload_def)
  moreover have "fromisoformat env (jstr (json_get (lit ''created_at'') p)) = Inr (utc t)"
    using assms(1,2) by (simp add: assms(8) jstr_def iso_correct_def)
  moreover have "json_get (lit ''format'') p = Some (JStr CHECKPOINT_FORMAT)" by (simp add: assms(8))
  ultimately show ?thesis by (simp add: read_checkpoint_def MAX_CHECKPOINT_BYTES_def aware_def utc_def)
qed

lemma checkpoint_holds_written:
  assumes "m = checkpoint_mac env key (checkpoint_body n mac c)"
  shows "checkpoint_holds env key rows (checkpoint_payload n mac c m) =
    and_then (audit_verify env key rows) (\<lambda>valid.
           if \<not> valid then Inr False
           else if n = 0 then Inr (mac = [])
           else Inr (case find_row va_sequence n rows of None \<Rightarrow> False | Some r \<Rightarrow> va_mac r = mac))"
  using assms by (simp add: checkpoint_holds_def jstr_def)

lemma audit_ok_take: "audit_ok env key rows \<Longrightarrow> audit_ok env key (take k rows)"
proof -
  assume a: "audit_ok env key rows"
  then have "audit_verify env key (take k rows @ drop k rows) = Inr True" by (simp add: audit_ok_def)
  then have "audit_verify env key (take k rows) = Inr True" unfolding audit_verify_def verify_append by simp
  moreover have "map va_sequence (take k rows) = map (\<lambda>i. int i + 1) (take k [0..<length rows])"
    using a by (simp add: take_map[symmetric] audit_ok_def sequence_ok_def)
  then have "map va_sequence (take k rows) = map (\<lambda>i. int i + 1) [0..<min (length rows) k]"
    by (cases "k \<le> length rows") (simp_all add: min_def)
  ultimately show ?thesis by (simp add: audit_ok_def sequence_ok_def)
qed

lemma last_row_linked: "audit_verify env key rows = Inr True \<Longrightarrow> rows \<noteq> [] \<Longrightarrow>
    \<exists>e. va_mac (last rows) = hmac_sha256 env key e"
  using verify_snoc[of env key "butlast rows" "last rows"] by (auto simp: linked_def)

text \<open>Writing a checkpoint of an intact log leaves a directory whose first file is the new checkpoint.\<close>

lemma checkpoint_written:
  assumes "\<forall>m. length (hmac_sha256 env key m) = 64" "iso_correct env"
    and "audit_ok env key rows" "length rows < 10 ^ 18"
    and "aware now" "in_range (instant (ve_tz env) now)" "2 \<le> keep" "keep \<le> 3650"
    and "ck_is_directory dir" "list_all cf_regular (ck_files dir)" "\<forall>f \<in> set (ck_files dir). cf_mtime f < mtime"
    and h: "audit_head rows = (n, mac)" and m: "m = checkpoint_mac env key (checkpoint_body n mac (isoformat_utc (instant (ve_tz env) now)))"
  obtains f gs where "write_checkpoint env key now keep mtime rows dir = Inr (dir\<lparr>ck_files := f # gs\<rparr>)"
    "checkpoint_files (f # gs) = Inr (f # gs)" "read_checkpoint env f = Inr (checkpoint_payload n mac (isoformat_utc (instant (ve_tz env) now)) m)"
proof -
  have n: "n = int (length rows)" and mac: "mac = last_mac rows"
    using h assms(3) by (auto simp: audit_head_def audit_ok_def sequence_ok_last last_mac_def split: if_splits)
  have len: "length mac \<le> 64"
    using last_row_linked[of env key rows] assms(1,3) by (auto simp: mac last_mac_def audit_ok_def)
  define t where "t = instant (ve_tz env) now"
  define p where "p = checkpoint_payload n mac (isoformat_utc t) m"
  define f where "f = \<lparr>cf_regular = True, cf_size = int (length (utf8_encode (json_dumps p))), cf_mtime = mtime, cf_content = Inr p\<rparr>"
  have m64: "length m = 64" using assms(1) by (simp add: m checkpoint_mac_def)
  have read: "read_checkpoint env f = Inr p"
    using assms(2,4,6) n len m64 by (intro read_written_checkpoint[OF _ _ _ _ _ _ f_def p_def]) (simp_all add: t_def)
  define files where "files = take (nat keep) (f # sort_key (\<lambda>f. - cf_mtime f) (ck_files dir))"
  have regular: "list_all cf_regular (ck_files dir @ [f])" using assms(10) by (simp add: f_def)
  have sorted: "sort_key (\<lambda>f. - cf_mtime f) (ck_files dir @ [f]) = f # sort_key (\<lambda>f. - cf_mtime f) (ck_files dir)"
    using assms(11) by (intro newest_first) (simp add: f_def)
  have written: "write_checkpoint env key now keep mtime rows dir = Inr (dir\<lparr>ck_files := files\<rparr>)"
    using assms(3,5,7,8,9) regular sorted h
    by (simp add: write_checkpoint_def audit_ok_def retain_def checkpoint_files_def utc_text_def t_def[symmetric]
        m[folded t_def, symmetric] p_def[symmetric] f_def[symmetric] files_def list_ex_iff list_all_iff)
  have "sorted (map (\<lambda>f. - cf_mtime f) files)"
    unfolding files_def take_map[symmetric] sorted[symmetric] by (intro sorted_wrt_take) (rule sorted_sort_key)
  moreover have "set files \<subseteq> set (ck_files dir @ [f])"
    unfolding files_def sorted[symmetric] using set_take_subset by fastforce
  ultimately have "checkpoint_files files = Inr files"
    using regular by (auto simp: checkpoint_files_def list_ex_iff list_all_iff sort_key_id_if_sorted)
  moreover obtain gs where "files = f # gs" using assms(7) by (cases "nat keep") (simp_all add: files_def)
  ultimately show thesis using that[of f gs] written read by (simp add: p_def t_def)
qed

text \<open>The row of the head of a log is found in every continuation of the log.\<close>

lemma head_row_kept:
  fixes more :: "vault_audit_row list"
  assumes "audit_ok env key (rows @ more)" "rows \<noteq> []"
  shows "find_row va_sequence (int (length rows)) (rows @ more) = Some (last rows)"
proof -
  have i: "length rows - 1 < length rows" using assms(2) by simp
  then have "length rows - 1 < length (rows @ more)" by simp
  from find_sequence[OF _ this] assms(1) have "find_row va_sequence (int (length rows - 1) + 1) (rows @ more)
      = Some ((rows @ more) ! (length rows - 1))" by (simp add: audit_ok_def)
  moreover have "int (length rows - 1) + 1 = int (length rows)" using i by simp
  ultimately show ?thesis using i last_conv_nth[OF assms(2)] by (simp add: nth_append)
qed

text \<open>
  C34. A checkpoint written now vouches for this log and exposes its truncation: with MACs of 64
  characters, \<open>write_checkpoint\<close> on a valid log succeeds into a directory of older regular files;
  afterwards \<open>verify_latest_checkpoint\<close> accepts every valid continuation of the log and rejects
  every proper prefix of it.
\<close>

theorem checkpoint_detects_truncation:
  assumes "\<forall>m. length (hmac_sha256 env key m) = 64" "iso_correct env"
    and "audit_ok env key rows" "length rows < 10 ^ 18"
    and "aware now" "in_range (instant (ve_tz env) now)" "2 \<le> keep" "keep \<le> 3650"
    and "ck_is_directory dir" "list_all cf_regular (ck_files dir)" "\<forall>f \<in> set (ck_files dir). cf_mtime f < mtime"
  shows "\<exists>dir'. write_checkpoint env key now keep mtime rows dir = Inr dir'
    \<and> (\<forall>more. audit_ok env key (rows @ more) \<longrightarrow> verify_latest_checkpoint env key (rows @ more) dir')
    \<and> (\<forall>k < length rows. \<not> verify_latest_checkpoint env key (take k rows) dir')"
proof -
  obtain n mac where h: "audit_head rows = (n, mac)" by fastforce
  have n: "n = int (length rows)" and mac: "mac = last_mac rows"
    using h assms(3) by (auto simp: audit_head_def audit_ok_def sequence_ok_last last_mac_def split: if_splits)
  define m where "m = checkpoint_mac env key (checkpoint_body n mac (isoformat_utc (instant (ve_tz env) now)))"
  obtain f gs where w: "write_checkpoint env key now keep mtime rows dir = Inr (dir\<lparr>ck_files := f # gs\<rparr>)"
    "checkpoint_files (f # gs) = Inr (f # gs)" "read_checkpoint env f = Inr (checkpoint_payload n mac (isoformat_utc (instant (ve_tz env) now)) m)"
    using checkpoint_written[OF assms h m_def] .
  have check: "verify_latest_checkpoint env key rs (dir\<lparr>ck_files := f # gs\<rparr>) =
      (if n = 0 then mac = [] else case find_row va_sequence n rs of None \<Rightarrow> False | Some r \<Rightarrow> va_mac r = mac)"
    if "audit_ok env key rs" for rs
    using w(2,3) that assms(9) checkpoint_holds_written[OF m_def, of rs]
    by (auto simp: verify_latest_checkpoint_def audit_ok_def)
  have "verify_latest_checkpoint env key (rows @ more) (dir\<lparr>ck_files := f # gs\<rparr>)" if o: "audit_ok env key (rows @ more)" for more
    unfolding check[OF o] using n mac head_row_kept[OF o] by (cases "rows = []") (simp_all add: last_mac_def)
  moreover have "\<not> verify_latest_checkpoint env key (take k rows) (dir\<lparr>ck_files := f # gs\<rparr>)" if "k < length rows" for k
  proof -
    have "find_row va_sequence n (take k rows) = None"
      using audit_ok_take[OF assms(3), of k] that n by (intro sequence_ok_bound) (simp_all add: audit_ok_def)
    then show ?thesis unfolding check[OF audit_ok_take[OF assms(3)]] using n that by auto
  qed
  ultimately show ?thesis using w(1) by blast
qed

theorem checkpoint_detects_truncation_witness:
  "\<exists>t dir'. audit_append sample_env sample_event [1] sample_vault = (t, Inr ())
     \<and> write_checkpoint sample_env [1] (utc 0) 2 5 (vault_audit (vdb t)) \<lparr>ck_is_directory = True, ck_files = []\<rparr> = Inr dir'
     \<and> verify_latest_checkpoint sample_env [1] (vault_audit (vdb t)) dir'
     \<and> \<not> verify_latest_checkpoint sample_env [1] [] dir'"
proof -
  have e: "vault_audit (vdb sample_vault) = []" by (simp add: sample_vault_def empty_vault_database_def)
  let ?r = "event_row sample_env [1] sample_event []"
  obtain t where t: "audit_append sample_env sample_event [1] sample_vault = (t, Inr ())" "vault_audit (vdb t) = [?r]"
    using e by (simp add: audit_append_run)
  have o: "audit_ok sample_env [1] [?r]"
    using verify_snoc[of sample_env "[1]" "[]" ?r] event_row_linked[OF sample_env_iso sample_event_range, of "[1]" "[]"]
    by (simp add: audit_verify_def audit_ok_def sequence_ok_def event_row_def next_sequence_def)
  let ?dir = "\<lparr>ck_is_directory = True, ck_files = []\<rparr>"
  have "\<exists>dir'. write_checkpoint sample_env [1] (utc 0) 2 5 [?r] ?dir = Inr dir'
    \<and> (\<forall>more. audit_ok sample_env [1] ([?r] @ more) \<longrightarrow> verify_latest_checkpoint sample_env [1] ([?r] @ more) dir')
    \<and> (\<forall>k < length [?r]. \<not> verify_latest_checkpoint sample_env [1] (take k [?r]) dir')"
    by (rule checkpoint_detects_truncation[OF _ sample_env_iso o])
      (simp_all add: sample_env_def in_range_def aware_def utc_def instant_def)
  then obtain dir' where d: "write_checkpoint sample_env [1] (utc 0) 2 5 [?r] ?dir = Inr dir'"
    "\<And>more. audit_ok sample_env [1] ([?r] @ more) \<Longrightarrow> verify_latest_checkpoint sample_env [1] ([?r] @ more) dir'"
    "\<And>k. k < length [?r] \<Longrightarrow> \<not> verify_latest_checkpoint sample_env [1] (take k [?r]) dir'" by blast
  from t d(1) d(2)[of "[]"] d(3)[of 0] o show ?thesis by auto
qed

end
