(* ===== verification/VaultGrants.thy ===== *)
theory VaultGrants
  imports VaultCrypto
begin

text \<open>
  Capability grants and the vault's own policy: the issuer (\<^verbatim>\<open>src/zhixu/vault_client/grants.py\<close>), the
  verifier with its one-time nonces (\<^verbatim>\<open>src/zhixu_vault/grants.py\<close>) and \<^verbatim>\<open>VaultPolicy.require\<close>
  (\<^verbatim>\<open>src/zhixu_vault/policy.py\<close>). The issuer's private key is the function \<open>sign\<close>.
\<close>

section \<open>Actions and policy\<close>

datatype vault_action = VA_LIST_METADATA | VA_CREATE | VA_USE | VA_REVEAL | VA_UPDATE | VA_DELETE | VA_EXPORT | VA_GRANT | VA_ROTATE

fun vault_action_value :: "vault_action \<Rightarrow> pystr" where
  "vault_action_value VA_LIST_METADATA = lit ''list_metadata''"
| "vault_action_value VA_CREATE = lit ''create''"
| "vault_action_value VA_USE = lit ''use''"
| "vault_action_value VA_REVEAL = lit ''reveal''"
| "vault_action_value VA_UPDATE = lit ''update''"
| "vault_action_value VA_DELETE = lit ''delete''"
| "vault_action_value VA_EXPORT = lit ''export''"
| "vault_action_value VA_GRANT = lit ''grant''"
| "vault_action_value VA_ROTATE = lit ''rotate''"

definition vault_action_of :: "pystr \<Rightarrow> vault_action res" where
  "vault_action_of = enum_of vault_action_value
     [VA_LIST_METADATA, VA_CREATE, VA_USE, VA_REVEAL, VA_UPDATE, VA_DELETE, VA_EXPORT, VA_GRANT, VA_ROTATE]"

fun secret_kind_value :: "secret_kind \<Rightarrow> pystr" where
  "secret_kind_value KIND_MACHINE = lit ''machine''"
| "secret_kind_value KIND_HUMAN = lit ''human''"

definition secret_kind_of :: "pystr \<Rightarrow> secret_kind res" where
  "secret_kind_of = enum_of secret_kind_value [KIND_MACHINE, KIND_HUMAN]"

fun vault_classification_value :: "vault_classification \<Rightarrow> pystr" where
  "vault_classification_value MACHINE_SECRET = lit ''l3_machine''"
| "vault_classification_value HUMAN_SECRET = lit ''l3_human''"
| "vault_classification_value L4_HUMAN_OVERRIDE = lit ''l4_human_override''"
| "vault_classification_value L4_PROHIBITED = lit ''l4_prohibited''"

definition vault_classification_of :: "pystr \<Rightarrow> vault_classification res" where
  "vault_classification_of = enum_of vault_classification_value
     [MACHINE_SECRET, HUMAN_SECRET, L4_HUMAN_OVERRIDE, L4_PROHIBITED]"

definition L4_HUMAN_STORAGE_OVERRIDE :: pystr where
  "L4_HUMAN_STORAGE_OVERRIDE = lit ''owner_explicit_human_storage''"

definition step_up :: pystr where
  "step_up = lit ''step_up''"

record verified_grant =
  vg_issuer :: pystr
  vg_subject :: pystr
  vg_secret :: pystr
  vg_action :: pystr
  vg_audience :: pystr
  vg_expires :: datetime
  vg_authentication :: pystr

definition vault_policy_require ::
  "verified_grant \<Rightarrow> secret_kind \<Rightarrow> vault_classification \<Rightarrow> pystr \<Rightarrow> bool \<Rightarrow> unit res" where
  "vault_policy_require g kind cls owner acl_allowed =
     and_then (rethrow (vault_action_of (vg_action g)) PermissionErr) (\<lambda>act. guarded
       [(\<not> acl_allowed, PermissionErr),
        (cls = L4_HUMAN_OVERRIDE \<and> (kind \<noteq> KIND_HUMAN \<or> vg_subject g \<noteq> owner), PermissionErr),
        (cls = L4_HUMAN_OVERRIDE \<and> act \<in> {VA_USE, VA_GRANT}, PermissionErr),
        (act = VA_REVEAL \<and> kind \<noteq> KIND_HUMAN, PermissionErr),
        (act = VA_REVEAL \<and> vg_authentication g \<noteq> step_up, PermissionErr),
        (act = VA_USE \<and> kind \<noteq> KIND_MACHINE, PermissionErr),
        (act \<in> {VA_UPDATE, VA_DELETE, VA_EXPORT, VA_GRANT, VA_ROTATE} \<and> vg_authentication g \<noteq> step_up, PermissionErr)] ())"

section \<open>Issuing\<close>

definition rstrip_pad :: "pystr \<Rightarrow> pystr" where
  "rstrip_pad s = rev (dropWhile (\<lambda>c. c = 61) (rev s))"

definition b64_nopad :: "bytes \<Rightarrow> pystr" where
  "b64_nopad b = rstrip_pad (urlsafe_b64encode b)"

text \<open>The payload with its keys sorted, as \<^verbatim>\<open>sort_keys=True\<close> writes it.\<close>

definition grant_payload ::
  "vault_env \<Rightarrow> pystr \<Rightarrow> pystr \<Rightarrow> pystr \<Rightarrow> pystr \<Rightarrow> pystr \<Rightarrow> pystr \<Rightarrow> datetime \<Rightarrow> pystr \<Rightarrow> json" where
  "grant_payload env issuer nonce subject secret_id act audience expires auth = JObj
     [(lit ''action'', JStr act), (lit ''audience'', JStr audience), (lit ''authentication'', JStr auth),
      (lit ''expires_at'', JStr (isoformat_utc (instant (ve_tz env) expires))), (lit ''issuer'', JStr issuer),
      (lit ''nonce'', JStr nonce), (lit ''secret_id'', JStr secret_id), (lit ''subject'', JStr subject)]"

definition issue ::
  "vault_env \<Rightarrow> (bytes \<Rightarrow> bytes) \<Rightarrow> pystr \<Rightarrow> pystr \<Rightarrow> pystr \<Rightarrow> pystr \<Rightarrow> pystr \<Rightarrow> pystr \<Rightarrow> datetime \<Rightarrow> pystr \<Rightarrow> pystr res" where
  "issue env sign issuer nonce subject secret_id act audience expires auth =
     (if \<not> aware expires then Inl ValueErr
      else let encoded = utf8_encode (json_dumps (grant_payload env issuer nonce subject secret_id act audience expires auth))
           in Inr (b64_nopad encoded @ [46] @ b64_nopad (sign encoded)))"

section \<open>Verifying\<close>

definition decode_part :: "pystr \<Rightarrow> bytes res" where
  "decode_part v = urlsafe_b64decode (v @ replicate ((4 - length v mod 4) mod 4) 61)"

definition split_token :: "pystr \<Rightarrow> (pystr \<times> pystr) res" where
  "split_token token = (case dropWhile (\<lambda>c. c \<noteq> 46) token of [] \<Rightarrow> Inl ValueErr
     | _ # rest \<Rightarrow> Inr (takeWhile (\<lambda>c. c \<noteq> 46) token, rest))"

text \<open>\<^verbatim>\<open>str(value)\<close>, of \<^verbatim>\<open>None\<close> for a missing key, and \<^verbatim>\<open>str(value or "")\<close>.\<close>

definition json_text :: "vault_env \<Rightarrow> json option \<Rightarrow> pystr" where
  "json_text env v = (case v of None \<Rightarrow> lit ''None'' | Some JNull \<Rightarrow> lit ''None''
     | Some (JBool b) \<Rightarrow> (if b then lit ''True'' else lit ''False'') | Some (JInt n) \<Rightarrow> dec n
     | Some (JStr s) \<Rightarrow> s | Some j \<Rightarrow> py_repr env j)"

definition text_or_empty :: "vault_env \<Rightarrow> json option \<Rightarrow> pystr" where
  "text_or_empty env v = (if falsy v then [] else json_text env v)"

text \<open>The \<^verbatim>\<open>try\<close> block: the payload, its issuer and its expiry, once the signature is checked.\<close>

definition signed_payload :: "vault_env \<Rightarrow> (pystr \<times> bytes) list \<Rightarrow> pystr \<Rightarrow> (json \<times> pystr \<times> datetime) res" where
  "signed_payload env issuers token =
     and_then (split_token token) (\<lambda>(payload_part, signature_part).
     and_then (decode_part payload_part) (\<lambda>payload_bytes.
     and_then (decode_part signature_part) (\<lambda>signature.
     and_then (json_loads env payload_bytes) (\<lambda>payload.
     and_then (json_item (lit ''issuer'') payload) (\<lambda>i.
     and_then (case map_of issuers (json_text env (Some i)) of None \<Rightarrow> Inl KeyErr | Some k \<Rightarrow> Inr k) (\<lambda>public_key.
     and_then (if ed25519_verify env public_key signature payload_bytes then Inr () else Inl ValueErr) (\<lambda>_.
     and_then (json_item (lit ''expires_at'') payload) (\<lambda>x.
     and_then (fromisoformat env (json_text env (Some x))) (\<lambda>expires.
       if \<not> aware expires then Inl ValueErr else Inr (payload, json_text env (Some i), expires))))))))))"

definition verify_and_consume ::
  "vault_env \<Rightarrow> (pystr \<times> bytes) list \<Rightarrow> pystr \<Rightarrow> micros \<Rightarrow> pystr \<Rightarrow> pystr \<Rightarrow> pystr \<Rightarrow> (vault, verified_grant) op" where
  "verify_and_consume env issuers audience now token secret_id act =
     bind (of_res (rethrow (signed_payload env issuers token) PermissionErr)) (\<lambda>(payload, issuer, expires).
     seq (check (json_text env (json_get (lit ''audience'') payload) \<noteq> audience) PermissionErr)
    (seq (check (json_text env (json_get (lit ''secret_id'') payload) \<noteq> secret_id) PermissionErr)
    (seq (check (json_text env (json_get (lit ''action'') payload) \<noteq> act) PermissionErr)
    (seq (check (instant (ve_tz env) expires \<le> now) PermissionErr)
    (let nonce = text_or_empty env (json_get (lit ''nonce'') payload);
         nonce_hash = sha256_hex env (utf8_encode nonce)
     in seq (check (nonce = []) PermissionErr)
       (seq (transaction
          (bind (of_res (json_item (lit ''subject'') payload)) (\<lambda>subject.
           bind (reads (\<lambda>s. nonce_hash \<in> gn_hash ` set (grant_nonces (vdb s)))) (\<lambda>consumed.
           seq (check consumed PermissionErr)
               (on_db (\<lambda>d. d\<lparr>grant_nonces := grant_nonces d @
                  [\<lparr>gn_hash = nonce_hash, gn_subject = json_text env (Some subject), gn_secret = secret_id,
                    gn_action = act, gn_expires = isoformat_utc (instant (ve_tz env) expires),
                    gn_consumed = isoformat_utc now\<rparr>]\<rparr>))))))
        (ret \<lparr>vg_issuer = issuer, vg_subject = json_text env (json_get (lit ''subject'') payload), vg_secret = secret_id,
              vg_action = act, vg_audience = audience, vg_expires = expires,
              vg_authentication = text_or_empty env (json_get (lit ''authentication'') payload)\<rparr>)))))))"

section \<open>The vault policy\<close>

lemma vault_action_round_trip [simp]: "vault_action_of (vault_action_value a) = Inr a"
  by (cases a) (simp_all add: vault_action_of_def enum_of_def lit_def)

lemma enum_of_InrD: "enum_of val xs s = Inr a \<Longrightarrow> val a = s"
  by (auto simp: enum_of_def find_Some_iff split: option.splits)

lemma vault_action_of_Inr: "vault_action_of s = Inr a \<longleftrightarrow> s = vault_action_value a"
  using enum_of_InrD[of vault_action_value _ s a] vault_action_round_trip[of a]
  by (auto simp: vault_action_of_def)

text \<open>
  The vault policy allows exactly these accesses: an action of the vault, granted by the ACL,
  with a secret stored under the level-4 override reachable by its owner only and never used or
  shared, machine secrets used but not revealed, human secrets revealed but not used, and step-up
  authentication for everything but listing, creating and using; every refusal is a
  PermissionError.
\<close>

lemma vault_policy_require_iff:
  "vault_policy_require g kind cls owner acl_allowed =
     (if acl_allowed
         \<and> (\<exists>act. vg_action g = vault_action_value act
             \<and> (act = VA_REVEAL \<longrightarrow> kind = KIND_HUMAN) \<and> (act = VA_USE \<longrightarrow> kind = KIND_MACHINE)
             \<and> (act \<in> {VA_LIST_METADATA, VA_CREATE, VA_USE} \<or> vg_authentication g = step_up)
             \<and> (cls = L4_HUMAN_OVERRIDE \<longrightarrow>
                  kind = KIND_HUMAN \<and> vg_subject g = owner \<and> act \<noteq> VA_USE \<and> act \<noteq> VA_GRANT))
      then Inr () else Inl PermissionErr)"
proof (cases "vault_action_of (vg_action g)")
  case (Inl e)
  then have "\<nexists>act. vg_action g = vault_action_value act" by auto
  with Inl show ?thesis by (simp add: vault_policy_require_def rethrow_def)
next
  case (Inr a)
  then have "vg_action g = vault_action_value act \<longleftrightarrow> act = a" for act
    unfolding vault_action_of_Inr by (metis vault_action_round_trip sum.inject(2))
  then have ex: "(\<exists>act. vg_action g = vault_action_value act \<and> P act) \<longleftrightarrow> P a" for P by auto
  show ?thesis
    unfolding ex using Inr by (cases a) (auto simp: vault_policy_require_def rethrow_def guarded_def)
qed

section \<open>What a verified grant guarantees\<close>

definition payload_nonce :: "vault_env \<Rightarrow> json \<Rightarrow> pystr" where
  "payload_nonce env payload = text_or_empty env (json_get (lit ''nonce'') payload)"

definition nonce_hash :: "vault_env \<Rightarrow> json \<Rightarrow> pystr" where
  "nonce_hash env payload = sha256_hex env (utf8_encode (payload_nonce env payload))"

text \<open>The conditions of the guards between the signature and the nonce table.\<close>

definition bound_to :: "vault_env \<Rightarrow> pystr \<Rightarrow> micros \<Rightarrow> pystr \<Rightarrow> pystr \<Rightarrow> json \<Rightarrow> datetime \<Rightarrow> bool" where
  "bound_to env audience now secret_id act payload expires \<longleftrightarrow>
     json_text env (json_get (lit ''audience'') payload) = audience
     \<and> json_text env (json_get (lit ''secret_id'') payload) = secret_id
     \<and> json_text env (json_get (lit ''action'') payload) = act
     \<and> now < instant (ve_tz env) expires \<and> payload_nonce env payload \<noteq> []"

lemma verify_run:
  "verify_and_consume env issuers audience now token secret_id act s =
     (case signed_payload env issuers token of
        Inl e \<Rightarrow> (s, Inl PermissionErr)
      | Inr (payload, issuer, expires) \<Rightarrow>
         if \<not> bound_to env audience now secret_id act payload expires then (s, Inl PermissionErr)
         else case json_get (lit ''subject'') payload of
           None \<Rightarrow> (s, Inl KeyErr)
         | Some subject \<Rightarrow>
            if nonce_hash env payload \<in> gn_hash ` set (grant_nonces (vdb s)) then (s, Inl PermissionErr)
            else (s\<lparr>vdb := (vdb s)\<lparr>grant_nonces := grant_nonces (vdb s) @
                    [\<lparr>gn_hash = nonce_hash env payload, gn_subject = json_text env (Some subject), gn_secret = secret_id,
                      gn_action = act, gn_expires = isoformat_utc (instant (ve_tz env) expires),
                      gn_consumed = isoformat_utc now\<rparr>]\<rparr>\<rparr>,
                  Inr \<lparr>vg_issuer = issuer, vg_subject = json_text env (Some subject), vg_secret = secret_id,
                    vg_action = act, vg_audience = audience, vg_expires = expires,
                    vg_authentication = text_or_empty env (json_get (lit ''authentication'') payload)\<rparr>))"
proof (cases "signed_payload env issuers token")
  case (Inl e)
  then show ?thesis by (simp add: verify_and_consume_def rethrow_def op_simps)
next
  case (Inr p)
  obtain payload issuer expires where p: "p = (payload, issuer, expires)" by (cases p)
  show ?thesis
  proof (cases "bound_to env audience now secret_id act payload expires")
    case False
    then show ?thesis
      using Inr p by (auto simp: verify_and_consume_def rethrow_def op_simps bound_to_def payload_nonce_def Let_def not_less)
  next
    case True
    then have "\<not> instant (ve_tz env) expires \<le> now" by (simp add: bound_to_def)
    with True Inr p show ?thesis
      by (cases "json_get (lit ''subject'') payload")
        (simp_all add: verify_and_consume_def rethrow_def bound_to_def payload_nonce_def nonce_hash_def Let_def
          json_item_def transaction_def atomically_def seq_def bind_def op_run on_db_run)
  qed
qed

lemma verify_Inr:
  assumes "verify_and_consume env issuers audience now token secret_id act s = (t, Inr g)"
  obtains payload issuer expires where "signed_payload env issuers token = Inr (payload, issuer, expires)"
    "bound_to env audience now secret_id act payload expires"
    "nonce_hash env payload \<notin> gn_hash ` set (grant_nonces (vdb s))"
    "nonce_hash env payload \<in> gn_hash ` set (grant_nonces (vdb t))"
    "json_get (lit ''subject'') payload \<noteq> None" "vg_secret g = secret_id" "vg_action g = act" "vg_expires g = expires"
    "vg_subject g = json_text env (json_get (lit ''subject'') payload)"
    "vg_authentication g = text_or_empty env (json_get (lit ''authentication'') payload)"
    "\<exists>row. t = s\<lparr>vdb := (vdb s)\<lparr>grant_nonces := grant_nonces (vdb s) @ [row]\<rparr>\<rparr>"
proof -
  from assms obtain payload issuer expires where p: "signed_payload env issuers token = Inr (payload, issuer, expires)"
    unfolding verify_run by (auto split: sum.split_asm)
  from assms have b: "bound_to env audience now secret_id act payload expires"
    unfolding verify_run by (simp add: p split: if_splits)
  from assms obtain subject where j: "json_get (lit ''subject'') payload = Some subject"
    unfolding verify_run by (simp add: p b split: option.split_asm)
  from assms have n: "nonce_hash env payload \<notin> gn_hash ` set (grant_nonces (vdb s))"
    unfolding verify_run by (simp add: p b j split: if_splits)
  from assms show thesis
    unfolding verify_run by (intro that[OF p b n]) (auto simp: p b j n)
qed

text \<open>A token whose nonce is in the table is refused, for every secret and action and at every time.\<close>

lemma capability_refused:
  assumes "verify_and_consume env issuers audience now token secret_id act s = (t, Inr g)"
    and "gn_hash ` set (grant_nonces (vdb t)) \<subseteq> gn_hash ` set (grant_nonces (vdb u))"
  shows "verify_and_consume env issuers audience later token secret_id' act' u = (u, Inl PermissionErr)"
proof -
  from assms(1) obtain payload issuer expires where v: "signed_payload env issuers token = Inr (payload, issuer, expires)"
    "nonce_hash env payload \<in> gn_hash ` set (grant_nonces (vdb t))" "json_get (lit ''subject'') payload \<noteq> None"
    by (rule verify_Inr)
  with assms(2) show ?thesis by (auto simp: verify_run)
qed

section \<open>Issued grants verify\<close>

lemma dropWhile_append_if: "dropWhile P (a @ b) = (if dropWhile P a = [] then dropWhile P b else dropWhile P a @ b)"
  by (induction a) simp_all

lemma rstrip_pad_append: "rstrip_pad (x @ y) = (if rstrip_pad y = [] then rstrip_pad x else x @ rstrip_pad y)"
  by (simp add: rstrip_pad_def dropWhile_append_if)

lemma b64_char_alphabet: "v < 64 \<Longrightarrow> b64_char v \<noteq> 61 \<and> b64_char v \<noteq> 46"
  by (auto simp: b64_char_def)

lemma b64_encode_shape:
  "is_bytes b \<Longrightarrow> length (urlsafe_b64encode b) mod 4 = 0 \<and> 46 \<notin> set (urlsafe_b64encode b)
     \<and> (\<exists>n < 3. urlsafe_b64encode b = b64_nopad b @ replicate n 61)"
proof (induction b rule: urlsafe_b64encode.induct)
  case 1
  then show ?case by (auto simp: b64_nopad_def rstrip_pad_def)
next
  case (2 a)
  then show ?case using six_bits[of a 0 0] b64_char_alphabet
    by (auto simp: b64_nopad_def rstrip_pad_def numeral_2_eq_2 intro!: exI[of _ 2])
next
  case (3 a b)
  then show ?case using six_bits[of a b 0] b64_char_alphabet
    by (auto simp: b64_nopad_def rstrip_pad_def intro!: exI[of _ 1])
next
  case (4 a b c s)
  let ?g = "[b64_char (a div 4), b64_char (a mod 4 * 16 + b div 16), b64_char (b mod 16 * 4 + c div 64), b64_char (c mod 64)]"
  have bits: "a div 4 < 64" "a mod 4 * 16 + b div 16 < 64" "b mod 16 * 4 + c div 64 < 64" "c mod 64 < 64"
    using six_bits[of a b c] 4(2) by simp_all
  then have g: "46 \<notin> set ?g" "rstrip_pad ?g = ?g" using b64_char_alphabet by (auto simp: rstrip_pad_def)
  from 4 obtain n where n: "n < 3" "urlsafe_b64encode s = b64_nopad s @ replicate n 61"
    "length (urlsafe_b64encode s) mod 4 = 0" "46 \<notin> set (urlsafe_b64encode s)" by auto
  have no: "b64_nopad (a # b # c # s) = ?g @ b64_nopad s"
    unfolding b64_nopad_def urlsafe_b64encode.simps rstrip_pad_append using g(2) by auto
  have e: "urlsafe_b64encode (a # b # c # s) = ?g @ urlsafe_b64encode s" by simp
  have "urlsafe_b64encode (a # b # c # s) = b64_nopad (a # b # c # s) @ replicate n 61"
    unfolding e no using n(2) by simp
  moreover have "length (?g @ urlsafe_b64encode s) mod 4 = 0" using n(3) by (simp add: mod_Suc)
  ultimately show ?case using n(1,4) g(1) e by (metis Un_iff set_append)
qed

lemma pad_count:
  fixes x n :: nat
  assumes "(x + n) mod 4 = 0" "n < 3"
  shows "(4 - x mod 4) mod 4 = n"
proof -
  have r: "x mod 4 < 4" by simp
  have "(x mod 4 + n) mod 4 = 0" using assms(1) by (simp only: mod_add_left_eq)
  then have "x mod 4 + n = 0 \<or> x mod 4 + n = 4" using r assms(2) by presburger
  then have "4 - x mod 4 = n \<or> (x mod 4 = 0 \<and> n = 0)" by linarith
  then show ?thesis using assms(2) by auto
qed

lemma decode_nopad: "is_bytes b \<Longrightarrow> decode_part (b64_nopad b) = Inr b"
proof -
  assume b: "is_bytes b"
  from b64_encode_shape[OF b] obtain n where n: "n < 3" "urlsafe_b64encode b = b64_nopad b @ replicate n 61"
    "length (urlsafe_b64encode b) mod 4 = 0" by auto
  then have "(length (b64_nopad b) + n) mod 4 = 0" by (metis length_append length_replicate)
  then have "(4 - length (b64_nopad b) mod 4) mod 4 = n" using n(1) by (rule pad_count)
  with n(2) base64_round_trip(1)[OF b] show ?thesis by (simp add: decode_part_def)
qed

lemma nopad_no_dot: "is_bytes b \<Longrightarrow> 46 \<notin> set (b64_nopad b)"
  using b64_encode_shape[of b] by auto

lemma split_issued: "is_bytes b \<Longrightarrow> split_token (b64_nopad b @ 46 # rest) = Inr (b64_nopad b, rest)"
proof -
  assume "is_bytes b"
  then have "\<forall>c \<in> set (b64_nopad b). c \<noteq> 46" using nopad_no_dot by metis
  then show ?thesis by (simp add: split_token_def takeWhile_append2 dropWhile_append2)
qed

text \<open>What the issuer's key pair and the JSON reader document, for one payload.\<close>

definition issuer_laws :: "vault_env \<Rightarrow> (bytes \<Rightarrow> bytes) \<Rightarrow> bytes \<Rightarrow> json \<Rightarrow> bool" where
  "issuer_laws env sign public_key payload \<longleftrightarrow>
     (\<forall>m. is_bytes m \<longrightarrow> is_bytes (sign m) \<and> ed25519_verify env public_key (sign m) m)
     \<and> json_loads env (utf8_encode (json_dumps payload)) = Inr payload"

text \<open>
  An issued capability is accepted: when the vault knows the issuer's public key, signatures
  verify, the JSON reader reads the payload back and the grant has not expired, the token that
  \<open>issue\<close> returns is accepted for its secret and action by a vault that has not seen its nonce,
  and yields a grant with the issued subject and authentication.
\<close>

lemma issued_grant_accepted:
  assumes "issuer_laws env sign public_key (grant_payload env issuer nonce subject secret_id act audience expires auth)"
    and "map_of issuers issuer = Some public_key" "nonce \<noteq> []" "aware expires" "in_range (instant (ve_tz env) expires)"
    and "\<And>t. in_range t \<Longrightarrow> fromisoformat env (isoformat_utc t) = Inr (utc t)"
    and "now < instant (ve_tz env) expires" "sha256_hex env (utf8_encode nonce) \<notin> gn_hash ` set (grant_nonces (vdb s))"
    and "issue env sign issuer nonce subject secret_id act audience expires auth = Inr token"
  shows "\<exists>t g. verify_and_consume env issuers audience now token secret_id act s = (t, Inr g)
    \<and> vg_subject g = subject \<and> vg_authentication g = auth \<and> vg_issuer g = issuer
    \<and> sha256_hex env (utf8_encode nonce) \<in> gn_hash ` set (grant_nonces (vdb t))"
proof -
  let ?p = "grant_payload env issuer nonce subject secret_id act audience expires auth"
  let ?b = "utf8_encode (json_dumps ?p)"
  have token: "token = b64_nopad ?b @ 46 # b64_nopad (sign ?b)"
    using assms(4,9) by (simp add: issue_def Let_def)
  have get: "json_get (lit ''action'') ?p = Some (JStr act)" "json_get (lit ''audience'') ?p = Some (JStr audience)"
    "json_get (lit ''authentication'') ?p = Some (JStr auth)" "json_get (lit ''issuer'') ?p = Some (JStr issuer)"
    "json_get (lit ''expires_at'') ?p = Some (JStr (isoformat_utc (instant (ve_tz env) expires)))"
    "json_get (lit ''nonce'') ?p = Some (JStr nonce)" "json_get (lit ''secret_id'') ?p = Some (JStr secret_id)"
    "json_get (lit ''subject'') ?p = Some (JStr subject)"
    by (simp_all add: grant_payload_def lit_def)
  have bytes: "is_bytes ?b"
  proof -
    have "list_all (\<lambda>c. c < 128) (json_quote s)" for s by (rule json_quote_ascii)
    then have "list_all (\<lambda>c. c < 128) (json_dumps ?p)" by (simp add: grant_payload_def)
    then have "utf8_encode (json_dumps ?p) = json_dumps ?p" "list_all (\<lambda>c. c < 256) (json_dumps ?p)"
      by (rule utf8_ascii, rule list.pred_mono_strong) simp
    then show ?thesis by (simp add: is_bytes_def)
  qed
  then have sig: "is_bytes (sign ?b)" "ed25519_verify env public_key (sign ?b) ?b" "json_loads env ?b = Inr ?p"
    using assms(1) by (simp_all add: issuer_laws_def)
  have time: "fromisoformat env (isoformat_utc (instant (ve_tz env) expires)) = Inr (utc (instant (ve_tz env) expires))"
    using assms(5,6) by simp
  have signed: "signed_payload env issuers token = Inr (?p, issuer, utc (instant (ve_tz env) expires))"
    using bytes sig assms(2) time get
    by (simp add: token signed_payload_def split_issued decode_nopad json_item_def json_text_def aware_def utc_def)
  have "bound_to env audience now secret_id act ?p (utc (instant (ve_tz env) expires))"
    using assms(3,7) get by (simp add: bound_to_def payload_nonce_def text_or_empty_def json_text_def instant_def utc_def)
  moreover have "nonce_hash env ?p = sha256_hex env (utf8_encode nonce)" "text_or_empty env (Some (JStr auth)) = auth"
    using assms(3) get by (simp_all add: nonce_hash_def payload_nonce_def text_or_empty_def json_text_def)
  ultimately show ?thesis
    using signed assms(8) get by (simp add: verify_run json_text_def)
qed

text \<open>A key pair whose signature is the key and the message, and a reader of one payload.\<close>

definition sample_payload :: "pystr \<Rightarrow> json" where
  "sample_payload act = grant_payload sample_env (lit ''app'') (lit ''n1'') (lit ''u'') (lit ''s'') act (lit ''zhixu-vault'')
     (utc 1000) step_up"

definition grant_env :: "pystr \<Rightarrow> vault_env" where
  "grant_env act = sample_env\<lparr>json_loads :=
     (\<lambda>b. if b = utf8_encode (json_dumps (sample_payload act)) then Inr (sample_payload act) else Inl ValueErr)\<rparr>"

definition sample_token :: "pystr \<Rightarrow> pystr" where
  "sample_token act = (let b = utf8_encode (json_dumps (sample_payload act)) in b64_nopad b @ [46] @ b64_nopad (1 # b))"

lemma sample_issue:
  "issue (grant_env act) (\<lambda>m. 1 # m) (lit ''app'') (lit ''n1'') (lit ''u'') (lit ''s'') act (lit ''zhixu-vault'') (utc 1000) step_up
     = Inr (sample_token act)"
  by (simp add: issue_def sample_token_def sample_payload_def grant_payload_def grant_env_def Let_def aware_def utc_def)

lemma grant_env_laws:
  "issuer_laws (grant_env act) (\<lambda>m. 1 # m) [1]
     (grant_payload (grant_env act) (lit ''app'') (lit ''n1'') (lit ''u'') (lit ''s'') act (lit ''zhixu-vault'') (utc 1000) step_up)"
  by (simp add: issuer_laws_def grant_env_def sample_payload_def grant_payload_def) (simp add: sample_env_def)

lemma grant_env_iso: "in_range t \<Longrightarrow> fromisoformat (grant_env act) (isoformat_utc t) = Inr (utc t)"
  by (simp add: grant_env_def sample_env_def fromisoformat_isoformat)

lemma sample_accepted:
  assumes "grant_nonces (vdb s) = []"
  obtains t g where "verify_and_consume (grant_env act) [(lit ''app'', [1])] (lit ''zhixu-vault'') 5 (sample_token act)
       (lit ''s'') act s = (t, Inr g)" "vg_subject g = lit ''u''" "vg_authentication g = step_up"
proof -
  let ?p = "sample_payload act"
  let ?b = "utf8_encode (json_dumps ?p)"
  have "list_all (\<lambda>c. c < 128) (json_dumps ?p)" by (simp add: sample_payload_def grant_payload_def json_quote_ascii)
  then have "?b = json_dumps ?p" "list_all (\<lambda>c. c < 256) (json_dumps ?p)"
    by (rule utf8_ascii, rule list.pred_mono_strong) simp
  then have b: "is_bytes ?b" "is_bytes (1 # ?b)" by (simp_all add: is_bytes_def)
  have get: "json_get (lit ''action'') ?p = Some (JStr act)" "json_get (lit ''audience'') ?p = Some (JStr (lit ''zhixu-vault''))"
    "json_get (lit ''authentication'') ?p = Some (JStr step_up)" "json_get (lit ''issuer'') ?p = Some (JStr (lit ''app''))"
    "json_get (lit ''expires_at'') ?p = Some (JStr (isoformat_utc 1000))"
    "json_get (lit ''nonce'') ?p = Some (JStr (lit ''n1''))" "json_get (lit ''secret_id'') ?p = Some (JStr (lit ''s''))"
    "json_get (lit ''subject'') ?p = Some (JStr (lit ''u''))"
    by (simp_all add: sample_payload_def grant_payload_def lit_def instant_def utc_def)
  have time: "fromisoformat (grant_env act) (isoformat_utc 1000) = Inr (utc 1000)"
    by (rule grant_env_iso) (simp add: in_range_def)
  have env: "json_loads (grant_env act) ?b = Inr ?p" "ed25519_verify (grant_env act) [1] (1 # ?b) ?b"
    by (simp_all add: grant_env_def sample_env_def)
  have "signed_payload (grant_env act) [(lit ''app'', [1])] (sample_token act) = Inr (?p, lit ''app'', utc 1000)"
    using env time get b by (simp add: sample_token_def Let_def signed_payload_def split_issued[OF b(1)] decode_nopad json_item_def
        json_text_def aware_def utc_def)
  moreover have "bound_to (grant_env act) (lit ''zhixu-vault'') 5 (lit ''s'') act ?p (utc 1000)"
    using get by (simp add: bound_to_def payload_nonce_def text_or_empty_def json_text_def instant_def utc_def lit_def)
  ultimately show thesis
    using assms get by (intro that) (auto simp: verify_run json_text_def text_or_empty_def step_up_def lit_def)
qed

end
