(* ===== verification/VaultStorage.thy ===== *)
theory VaultStorage
  imports VaultAudit VaultGrants "HOL-Library.Product_Lexorder"
begin

text \<open>
  Envelope-encrypted secrets, \<^verbatim>\<open>src/zhixu_vault/storage.py\<close>: every method of \<^verbatim>\<open>VaultRepository\<close> on the
  tables and the keyring, with the constraints of the schema (keys, checks, foreign keys and
  their cascades) where an insert or delete meets them. Random data keys and nonces are
  arguments.
\<close>

record secret_metadata =
  md_id :: pystr
  md_owner :: pystr
  md_label :: pystr
  md_kind :: secret_kind
  md_class :: vault_classification
  md_version :: int
  md_created :: datetime
  md_updated :: datetime

definition secret_value_context :: "pystr \<Rightarrow> int \<Rightarrow> pystr" where
  "secret_value_context secret_id version = lit ''secret:'' @ secret_id @ lit '':value:'' @ dec version"

definition data_key_context :: "pystr \<Rightarrow> int \<Rightarrow> pystr" where
  "data_key_context secret_id key_version = lit ''secret:'' @ secret_id @ lit '':dek:'' @ dec key_version"

section \<open>Audit of accesses\<close>

definition append_event :: "vault_env \<Rightarrow> micros \<Rightarrow> pystr \<Rightarrow> pystr \<Rightarrow> pystr \<Rightarrow> pystr \<Rightarrow> pystr \<Rightarrow> (vault, unit) op" where
  "append_event env now actor act secret_id outcome reason = bind (audit_key env now True) (\<lambda>key.
     audit_append env \<lparr>ev_at = utc now, ev_actor = actor, ev_action = act, ev_secret = secret_id,
       ev_outcome = outcome, ev_reason = reason\<rparr> key)"

definition record_access :: "vault_env \<Rightarrow> micros \<Rightarrow> pystr \<Rightarrow> pystr \<Rightarrow> pystr \<Rightarrow> pystr \<Rightarrow> pystr \<Rightarrow> (vault, unit) op" where
  "record_access env now actor act secret_id outcome reason = transaction
     (append_event env now (if take 160 actor = [] then lit ''unknown'' else take 160 actor) (take 80 act)
        (take 160 secret_id) (take 40 outcome) (take 80 reason))"

section \<open>Reading metadata\<close>

definition find_override :: "pystr \<Rightarrow> vault_database \<Rightarrow> pystr option" where
  "find_override secret_id d = map_option po_policy (find_row po_secret secret_id (policy_overrides d))"

definition metadata_of :: "vault_env \<Rightarrow> vault_database \<Rightarrow> secret_record \<Rightarrow> secret_metadata res" where
  "metadata_of env d r =
     and_then (fromisoformat env (sr_created r)) (\<lambda>created.
     and_then (fromisoformat env (sr_updated r)) (\<lambda>updated.
       Inr \<lparr>md_id = sr_id r, md_owner = sr_owner r, md_label = sr_label r, md_kind = sr_kind r,
            md_class = (if find_override (sr_id r) d = Some L4_HUMAN_STORAGE_OVERRIDE then L4_HUMAN_OVERRIDE else sr_class r),
            md_version = sr_version r, md_created = created, md_updated = updated\<rparr>))"

definition get_metadata :: "vault_env \<Rightarrow> pystr \<Rightarrow> (vault, secret_metadata) op" where
  "get_metadata env secret_id = bind (reads vdb) (\<lambda>d. case find_row sr_id secret_id (secret_records d) of
     None \<Rightarrow> throw KeyErr | Some r \<Rightarrow> of_res (metadata_of env d r))"

definition list_metadata :: "vault_env \<Rightarrow> pystr \<Rightarrow> (vault, secret_metadata list) op" where
  "list_metadata env owner = bind (reads vdb) (\<lambda>d.
     of_res (map_res (metadata_of env d)
       (sort_key (\<lambda>r. (sr_label r, sr_id r)) (filter (\<lambda>r. sr_owner r = owner) (secret_records d)))))"

definition has_acl :: "pystr \<Rightarrow> pystr \<Rightarrow> pystr \<Rightarrow> vault_database \<Rightarrow> bool" where
  "has_acl secret_id subject act d \<longleftrightarrow>
     list_ex (\<lambda>a. acl_secret a = secret_id \<and> acl_subject a = subject \<and> acl_action a = act) (secret_acl d)"

section \<open>Writing secrets\<close>

definition insert_record :: "secret_record \<Rightarrow> (vault, unit) op" where
  "insert_record r = seq (bind (reads vdb) (\<lambda>d. check
       (sr_id r \<in> sr_id ` set (secret_records d) \<or> sr_class r \<notin> {MACHINE_SECRET, HUMAN_SECRET}
        \<or> sr_key_version r \<notin> kv_version ` set (key_versions d)) IntegrityErr))
     (on_db (\<lambda>d. d\<lparr>secret_records := secret_records d @ [r]\<rparr>))"

definition insert_override :: "policy_override \<Rightarrow> (vault, unit) op" where
  "insert_override o1 = seq (bind (reads vdb) (\<lambda>d. check
       (po_secret o1 \<in> po_secret ` set (policy_overrides d) \<or> po_policy o1 \<noteq> L4_HUMAN_STORAGE_OVERRIDE
        \<or> po_secret o1 \<notin> sr_id ` set (secret_records d)) IntegrityErr))
     (on_db (\<lambda>d. d\<lparr>policy_overrides := policy_overrides d @ [o1]\<rparr>))"

text \<open>INSERT OR IGNORE skips a row that is there; a missing secret breaks the foreign key.\<close>

definition insert_acl :: "acl_entry \<Rightarrow> (vault, unit) op" where
  "insert_acl a = bind (reads vdb) (\<lambda>d.
     if has_acl (acl_secret a) (acl_subject a) (acl_action a) d then ret ()
     else if acl_secret a \<notin> sr_id ` set (secret_records d) then throw IntegrityErr
     else on_db (\<lambda>d. d\<lparr>secret_acl := secret_acl d @ [a]\<rparr>))"

definition owner_actions :: "secret_kind \<Rightarrow> pystr option \<Rightarrow> vault_action list" where
  "owner_actions kind override =
     [VA_LIST_METADATA, VA_UPDATE, VA_DELETE, VA_EXPORT, VA_ROTATE, if kind = KIND_MACHINE then VA_USE else VA_REVEAL]
     @ (if override = None then [VA_GRANT] else [])"

text \<open>\<open>data_key\<close>, \<open>n1\<close> and \<open>n2\<close> are the random data key and the nonces of its two envelopes.\<close>

definition vault_create ::
  "vault_env \<Rightarrow> micros \<Rightarrow> bytes \<Rightarrow> bytes \<Rightarrow> bytes \<Rightarrow> pystr \<Rightarrow> pystr \<Rightarrow> pystr \<Rightarrow> secret_kind \<Rightarrow> vault_classification
    \<Rightarrow> pystr option \<Rightarrow> bytes \<Rightarrow> pystr \<Rightarrow> (vault, secret_metadata) op" where
  "vault_create env now data_key n1 n2 secret_id owner label kind cls override value actor =
     bind (active now) (\<lambda>(key_version, master_key).
     seq (transaction
       (seq (insert_record \<lparr>sr_id = secret_id, sr_owner = owner, sr_label = label, sr_kind = kind, sr_class = cls,
            sr_ciphertext = seal env n1 data_key value (secret_value_context secret_id 1),
            sr_wrapped = seal env n2 master_key data_key (data_key_context secret_id key_version),
            sr_key_version = key_version, sr_version = 1, sr_created = isoformat_utc now, sr_updated = isoformat_utc now\<rparr>)
       (seq (case override of None \<Rightarrow> ret ()
             | Some p \<Rightarrow> insert_override \<lparr>po_secret = secret_id, po_policy = p, po_created = isoformat_utc now\<rparr>)
       (seq (each (\<lambda>a. insert_acl \<lparr>acl_secret = secret_id, acl_subject = owner, acl_action = vault_action_value a,
                acl_created = isoformat_utc now\<rparr>) (owner_actions kind override))
            (append_event env now actor (lit ''create'') secret_id (lit ''completed'')
               (if override = None then [] else lit ''l4_policy_override''))))))
     (get_metadata env secret_id))"

definition decrypt :: "vault_env \<Rightarrow> micros \<Rightarrow> pystr \<Rightarrow> (vault, bytes) op" where
  "decrypt env now secret_id = bind (reads (\<lambda>s. find_row sr_id secret_id (secret_records (vdb s)))) (\<lambda>row.
     case row of None \<Rightarrow> throw KeyErr
     | Some r \<Rightarrow> bind (keyring_key now (sr_key_version r)) (\<lambda>master.
         bind (of_res (open_sealed env master (sr_wrapped r) (data_key_context secret_id (sr_key_version r)))) (\<lambda>data_key.
         of_res (open_sealed env data_key (sr_ciphertext r) (secret_value_context secret_id (sr_version r))))))"

text \<open>The row after an update, and the transaction that writes it when the version matches.\<close>

definition updated_record ::
  "vault_env \<Rightarrow> micros \<Rightarrow> bytes \<Rightarrow> bytes \<Rightarrow> bytes \<Rightarrow> int \<Rightarrow> bytes \<Rightarrow> bytes \<Rightarrow> int \<Rightarrow> secret_record \<Rightarrow> secret_record" where
  "updated_record env now data_key n1 n2 key_version master_key value new_version r =
     r\<lparr>sr_ciphertext := seal env n1 data_key value (secret_value_context (sr_id r) new_version),
       sr_wrapped := seal env n2 master_key data_key (data_key_context (sr_id r) key_version),
       sr_key_version := key_version, sr_version := new_version, sr_updated := isoformat_utc now\<rparr>"

definition replace_value ::
  "vault_env \<Rightarrow> micros \<Rightarrow> (secret_record \<Rightarrow> secret_record) \<Rightarrow> pystr \<Rightarrow> int \<Rightarrow> pystr \<Rightarrow> (vault, unit) op" where
  "replace_value env now f secret_id expected_version actor = transaction
     (bind (reads (\<lambda>s. count_where (\<lambda>r. sr_id r = secret_id \<and> sr_version r = expected_version) (secret_records (vdb s)))) (\<lambda>changed.
      seq (on_db (\<lambda>d. d\<lparr>secret_records :=
             update_where (\<lambda>r. sr_id r = secret_id \<and> sr_version r = expected_version) f (secret_records d)\<rparr>))
     (seq (check (changed \<noteq> 1) RuntimeErr)
          (append_event env now actor (lit ''update'') secret_id (lit ''completed'') []))))"

definition vault_update ::
  "vault_env \<Rightarrow> micros \<Rightarrow> bytes \<Rightarrow> bytes \<Rightarrow> bytes \<Rightarrow> pystr \<Rightarrow> bytes \<Rightarrow> int \<Rightarrow> pystr \<Rightarrow> (vault, secret_metadata) op" where
  "vault_update env now data_key n1 n2 secret_id value expected_version actor =
     bind (active now) (\<lambda>(key_version, master_key).
     seq (replace_value env now (updated_record env now data_key n1 n2 key_version master_key value (expected_version + 1))
            secret_id expected_version actor)
         (get_metadata env secret_id))"

text \<open>Deleting a record deletes its override and its ACL entries (ON DELETE CASCADE).\<close>

definition delete_cascade :: "pystr \<Rightarrow> vault_database \<Rightarrow> vault_database" where
  "delete_cascade secret_id d = d\<lparr>secret_records := filter (\<lambda>r. sr_id r \<noteq> secret_id) (secret_records d),
     policy_overrides := filter (\<lambda>o1. po_secret o1 \<noteq> secret_id) (policy_overrides d),
     secret_acl := filter (\<lambda>a. acl_secret a \<noteq> secret_id) (secret_acl d)\<rparr>"

definition vault_delete :: "vault_env \<Rightarrow> micros \<Rightarrow> pystr \<Rightarrow> pystr \<Rightarrow> (vault, unit) op" where
  "vault_delete env now secret_id actor = transaction
     (bind (reads (\<lambda>s. count_where (\<lambda>r. sr_id r = secret_id) (secret_records (vdb s)))) (\<lambda>changed.
      seq (on_db (delete_cascade secret_id))
     (seq (check (changed \<noteq> 1) KeyErr)
          (append_event env now actor (lit ''delete'') secret_id (lit ''completed'') []))))"

definition vault_grant :: "vault_env \<Rightarrow> micros \<Rightarrow> pystr \<Rightarrow> pystr \<Rightarrow> vault_action \<Rightarrow> pystr \<Rightarrow> (vault, unit) op" where
  "vault_grant env now secret_id subject act actor = transaction
     (seq (insert_acl \<lparr>acl_secret = secret_id, acl_subject = subject, acl_action = vault_action_value act,
             acl_created = isoformat_utc now\<rparr>)
          (append_event env now actor (lit ''grant'') secret_id (lit ''completed'') []))"

definition rewrap_row :: "vault_env \<Rightarrow> micros \<Rightarrow> (pystr \<Rightarrow> bytes) \<Rightarrow> int \<Rightarrow> bytes \<Rightarrow> secret_record \<Rightarrow> (vault, unit) op" where
  "rewrap_row env now nonces new_version new_master row =
     bind (keyring_key now (sr_key_version row)) (\<lambda>old_master.
     bind (of_res (open_sealed env old_master (sr_wrapped row) (data_key_context (sr_id row) (sr_key_version row)))) (\<lambda>data_key.
     on_db (\<lambda>d. d\<lparr>secret_records := update_where (\<lambda>r. sr_id r = sr_id row)
        (\<lambda>r. r\<lparr>sr_wrapped := seal env (nonces (sr_id row)) new_master data_key (data_key_context (sr_id row) new_version),
              sr_key_version := new_version, sr_updated := isoformat_utc now\<rparr>)
        (secret_records d)\<rparr>)))"

definition rewrap_data_keys :: "vault_env \<Rightarrow> micros \<Rightarrow> (pystr \<Rightarrow> bytes) \<Rightarrow> int \<Rightarrow> pystr \<Rightarrow> (vault, unit) op" where
  "rewrap_data_keys env now nonces new_version actor =
     bind (keyring_key now new_version) (\<lambda>new_master.
     transaction (bind (reads (\<lambda>s. secret_records (vdb s))) (\<lambda>rows.
       seq (each (rewrap_row env now nonces new_version new_master) rows)
           (append_event env now actor (lit ''rotate'') (lit ''*'') (lit ''completed'') []))))"

section \<open>The audit trail of the operations\<close>

lemma audit_key_Inr:
  "audit_key env now True s = (t, Inr key) \<longleftrightarrow>
     vk_keys (expire_idle now s) \<noteq> [] \<and> t = s\<lparr>vk_last_used := Some now\<rparr>
     \<and> (\<exists>master. map_of (vk_keys s) (Min (fst ` set (vk_keys s))) = Some master
          \<and> key = hkdf_sha256 env (audit_info (Min (fst ` set (vk_keys s)))) master)"
  using expire_idle_keys[of now s]
  by (auto simp: audit_key_def op_simps bind_Inr keyring_key_Inr)

lemma audit_key_state: "audit_key env now touch s = (t, r) \<Longrightarrow> vdb t = vdb s"
  by (auto simp: audit_key_def op_simps bind_def split: prod.splits sum.splits if_splits dest: keyring_key_state)

text \<open>The key the chain is authenticated with while the keyring holds these keys.\<close>

definition chain_key :: "vault_env \<Rightarrow> (int \<times> bytes) list \<Rightarrow> bytes" where
  "chain_key env keys = (let v = Min (fst ` set keys) in hkdf_sha256 env (audit_info v) (the (map_of keys v)))"

lemma append_event_Inr:
  assumes "append_event env now actor act secret_id outcome reason s = (t, Inr ())"
  shows "vk_keys (expire_idle now s) \<noteq> []"
    and "t = s\<lparr>vk_last_used := Some now, vdb := (vdb s)\<lparr>vault_audit := vault_audit (vdb s) @
      [event_row env (chain_key env (vk_keys s)) \<lparr>ev_at = utc now, ev_actor = actor, ev_action = act, ev_secret = secret_id,
         ev_outcome = outcome, ev_reason = reason\<rparr> (vault_audit (vdb s))]\<rparr>\<rparr>"
  using assms by (auto simp: append_event_def bind_Inr audit_key_Inr audit_append_run Let_def chain_key_def split: if_splits)

lemma append_event_state: "append_event env now actor act secret_id outcome reason s = (t, r) \<Longrightarrow>
    \<exists>rows. vdb t = (vdb s)\<lparr>vault_audit := vault_audit (vdb s) @ rows\<rparr>"
proof -
  assume "append_event env now actor act secret_id outcome reason s = (t, r)"
  moreover obtain u k where k: "audit_key env now True s = (u, k)" by fastforce
  moreover note audit_key_state[OF k]
  moreover have "\<exists>rows. vdb u = (vdb u)\<lparr>vault_audit := vault_audit (vdb u) @ rows\<rparr>" by (rule exI[of _ "[]"]) simp
  ultimately show ?thesis
    by (cases k) (auto simp: append_event_def bind_def audit_append_run Let_def split: if_splits)
qed

section \<open>Which secrets can be read\<close>

definition opens_to :: "vault_env \<Rightarrow> (int \<times> bytes) list \<Rightarrow> secret_record \<Rightarrow> bytes \<Rightarrow> bool" where
  "opens_to env keys r v \<longleftrightarrow> (case map_of keys (sr_key_version r) of None \<Rightarrow> False
     | Some master \<Rightarrow> (case open_sealed env master (sr_wrapped r) (data_key_context (sr_id r) (sr_key_version r)) of
         Inl e \<Rightarrow> False
       | Inr data_key \<Rightarrow> open_sealed env data_key (sr_ciphertext r) (secret_value_context (sr_id r) (sr_version r)) = Inr v))"

definition holds_secret :: "vault_env \<Rightarrow> vault \<Rightarrow> pystr \<Rightarrow> bytes \<Rightarrow> bool" where
  "holds_secret env s secret_id v \<longleftrightarrow> (case find_row sr_id secret_id (secret_records (vdb s)) of
     None \<Rightarrow> False | Some r \<Rightarrow> opens_to env (vk_keys s) r v)"

lemma decrypt_Inr:
  "decrypt env now secret_id s = (t, Inr v) \<longleftrightarrow>
     vk_keys (expire_idle now s) \<noteq> [] \<and> holds_secret env s secret_id v \<and> t = s\<lparr>vk_last_used := Some now\<rparr>"
proof (cases "find_row sr_id secret_id (secret_records (vdb s))")
  case None
  then show ?thesis by (simp add: decrypt_def op_simps holds_secret_def)
next
  case (Some r)
  then have id: "sr_id r = secret_id" using find_row_SomeD by fastforce
  show ?thesis
    using Some id by (auto simp: decrypt_def op_run bind_Inr keyring_key_Inr holds_secret_def opens_to_def
        split: option.splits sum.splits)
qed

lemma decrypt_state: "decrypt env now secret_id s = (t, r) \<Longrightarrow> vdb t = vdb s"
  by (auto simp: decrypt_def op_simps bind_def split: option.splits prod.splits sum.splits dest: keyring_key_state)

lemma opens_to_sealed:
  assumes "aead_correct env" "length n1 = 12" "is_bytes n1" "length n2 = 12" "is_bytes n2"
    and "is_bytes data_key" "data_key \<noteq> []" "is_bytes v" "v \<noteq> []" "map_of keys (sr_key_version r) = Some master"
    and "sr_ciphertext r = seal env n1 data_key v (secret_value_context (sr_id r) (sr_version r))"
    and "sr_wrapped r = seal env n2 master data_key (data_key_context (sr_id r) (sr_key_version r))"
  shows "opens_to env keys r v"
  using assms by (simp add: opens_to_def open_seal)

text \<open>The tables an access rule or an audit entry leaves alone, and the keys.\<close>

definition same_secrets :: "vault \<Rightarrow> vault \<Rightarrow> bool" where
  "same_secrets s t \<longleftrightarrow> secret_records (vdb t) = secret_records (vdb s) \<and> vk_keys t = vk_keys s
     \<and> key_versions (vdb t) = key_versions (vdb s) \<and> vk_idle_timeout t = vk_idle_timeout s"

lemma same_secrets_order [simp]: "reflp same_secrets" "transp same_secrets"
  by (auto simp: reflp_def transp_def same_secrets_def)

lemma insert_acl_run [op_simps]:
  "insert_acl a s = (if has_acl (acl_secret a) (acl_subject a) (acl_action a) (vdb s) then (s, Inr ())
     else if acl_secret a \<notin> sr_id ` set (secret_records (vdb s)) then (s, Inl IntegrityErr)
     else (s\<lparr>vdb := (vdb s)\<lparr>secret_acl := secret_acl (vdb s) @ [a]\<rparr>\<rparr>, Inr ()))"
  by (simp add: insert_acl_def op_simps)

lemma insert_record_run [op_simps]:
  "insert_record r s = (if sr_id r \<in> sr_id ` set (secret_records (vdb s)) \<or> sr_class r \<notin> {MACHINE_SECRET, HUMAN_SECRET}
        \<or> sr_key_version r \<notin> kv_version ` set (key_versions (vdb s)) then (s, Inl IntegrityErr)
     else (s\<lparr>vdb := (vdb s)\<lparr>secret_records := secret_records (vdb s) @ [r]\<rparr>\<rparr>, Inr ()))"
  by (simp add: insert_record_def seq_def bind_def op_run on_db_run)

lemma insert_override_run [op_simps]:
  "insert_override o1 s = (if po_secret o1 \<in> po_secret ` set (policy_overrides (vdb s)) \<or> po_policy o1 \<noteq> L4_HUMAN_STORAGE_OVERRIDE
        \<or> po_secret o1 \<notin> sr_id ` set (secret_records (vdb s)) then (s, Inl IntegrityErr)
     else (s\<lparr>vdb := (vdb s)\<lparr>policy_overrides := policy_overrides (vdb s) @ [o1]\<rparr>\<rparr>, Inr ()))"
  by (simp add: insert_override_def seq_def bind_def op_run on_db_run)

lemma same_secrets_steps:
  "keeps_ok same_secrets (insert_acl a)" "keeps_ok same_secrets (insert_override o1)"
  "keeps_ok same_secrets (append_event env now actor act secret_id outcome reason)"
  "keeps_ok same_secrets (keyring_key now v)" "keeps_ok same_secrets (get_metadata env secret_id)"
  by (auto simp: keeps_ok_def insert_acl_run insert_override_run same_secrets_def keyring_key_Inr get_metadata_def op_simps
      split: if_splits option.splits dest!: append_event_Inr(2))

lemma get_metadata_state: "get_metadata env secret_id s = (t, r) \<Longrightarrow> t = s"
  by (auto simp: get_metadata_def op_simps split: option.splits)

lemma vault_create_effect:
  assumes "vault_create env now data_key n1 n2 secret_id owner label kind cls override value actor s = (t, Inr md)"
  obtains version master where "map_of (vk_keys s) version = Some master" "vk_keys s \<noteq> []"
    "secret_records (vdb t) = secret_records (vdb s) @ [\<lparr>sr_id = secret_id, sr_owner = owner, sr_label = label, sr_kind = kind, sr_class = cls,
            sr_ciphertext = seal env n1 data_key value (secret_value_context secret_id 1),
            sr_wrapped = seal env n2 master data_key (data_key_context secret_id version),
            sr_key_version = version, sr_version = 1, sr_created = isoformat_utc now, sr_updated = isoformat_utc now\<rparr>]"
    "secret_id \<notin> sr_id ` set (secret_records (vdb s))" "cls \<in> {MACHINE_SECRET, HUMAN_SECRET}"
    "vk_keys t = vk_keys s" "vk_last_used t = Some now" "vk_idle_timeout t = vk_idle_timeout s"
proof -
  let ?ov = "case override of None \<Rightarrow> ret ()
             | Some p \<Rightarrow> insert_override \<lparr>po_secret = secret_id, po_policy = p, po_created = isoformat_utc now\<rparr>"
  let ?acl = "each (\<lambda>a. insert_acl \<lparr>acl_secret = secret_id, acl_subject = owner, acl_action = vault_action_value a,
                acl_created = isoformat_utc now\<rparr>) (owner_actions kind override)"
  from assms obtain s1 version master s2 s3 s4 s5 where steps:
    "active now s = (s1, Inr (version, master))"
    "insert_record \<lparr>sr_id = secret_id, sr_owner = owner, sr_label = label, sr_kind = kind, sr_class = cls,
            sr_ciphertext = seal env n1 data_key value (secret_value_context secret_id 1),
            sr_wrapped = seal env n2 master data_key (data_key_context secret_id version),
            sr_key_version = version, sr_version = 1, sr_created = isoformat_utc now, sr_updated = isoformat_utc now\<rparr> s1 = (s2, Inr ())"
    "?ov s2 = (s3, Inr ())" "?acl s3 = (s4, Inr ())"
    "append_event env now actor (lit ''create'') secret_id (lit ''completed'')
               (if override = None then [] else lit ''l4_policy_override'') s4 = (s5, Inr ())"
    "get_metadata env secret_id s5 = (t, Inr md)"
    unfolding vault_create_def bind_Inr by (clarsimp simp: seq_Inr transaction_Inr)
  have s1: "s1 = s\<lparr>vk_last_used := Some now\<rparr>" "map_of (vk_keys s) version = Some master"
    using active_Inr[OF steps(1)] by (auto simp: keyring_key_Inr)
  have "keeps_ok same_secrets ?ov"
    by (cases override) (simp_all add: keeps_ok_pure same_secrets_steps)
  then have e: "same_secrets s2 s3" using steps(3) by (rule keeps_okD)
  have "keeps_ok same_secrets ?acl"
    by (intro keeps_ok_each same_secrets_order same_secrets_steps)
  then have a: "same_secrets s3 s4" using steps(4) by (rule keeps_okD)
  have t: "t = s5" using steps(6) by (rule get_metadata_state)
  show thesis
  proof (rule that[of version master])
    show "map_of (vk_keys s) version = Some master" by fact
    then show "vk_keys s \<noteq> []" by auto
  qed (use steps(2) s1 e a t append_event_Inr(2)[OF steps(5)] in
      \<open>auto simp: insert_record_run same_secrets_def split: if_splits\<close>)
qed

lemma find_row_snoc:
  "key r \<notin> key ` set rows \<Longrightarrow> find_row key k (rows @ [r]) = (if k = key r then Some r else find_row key k rows)"
proof (cases "k = key r")
  case True
  assume "key r \<notin> key ` set rows"
  then have "find_row key k rows = None" using True by (simp add: find_row_None_iff)
  with True show ?thesis by (simp add: find_row_append) (simp add: find_row_def)
next
  case False
  then have "find_row key k [r] = None" by (simp add: find_row_def)
  with False show ?thesis by (simp add: find_row_append split: option.split)
qed

lemma expire_within: "vk_last_used s = Some t \<Longrightarrow> now - t < vk_idle_timeout s \<Longrightarrow> expire_idle now s = s"
  by (simp add: expire_idle_def)

lemma decrypt_run:
  "holds_secret env s secret_id v \<Longrightarrow> vk_keys s \<noteq> [] \<Longrightarrow> vk_last_used s = Some t \<Longrightarrow> now - t < vk_idle_timeout s \<Longrightarrow>
     decrypt env now secret_id s = (s\<lparr>vk_last_used := Some now\<rparr>, Inr v)"
  by (simp add: decrypt_Inr expire_within)

text \<open>
  C30. What is stored is what is read: after a successful creation of a secret from a nonempty value
  with random keys and nonces of the right lengths, the vault holds that value under the new
  identifier and every other secret as before, and \<open>decrypt\<close> returns it until the keyring is
  idle for its timeout.
\<close>

theorem create_then_decrypt:
  assumes "aead_correct env" "length n1 = 12" "is_bytes n1" "length n2 = 12" "is_bytes n2"
    and "is_bytes data_key" "data_key \<noteq> []" "is_bytes value" "value \<noteq> []"
    and "vault_create env now data_key n1 n2 secret_id owner label kind cls override value actor s = (t, Inr md)"
  shows "holds_secret env t secret_id value
    \<and> (\<forall>other v. other \<noteq> secret_id \<longrightarrow> holds_secret env t other v = holds_secret env s other v)
    \<and> (\<forall>later. later - now < vk_idle_timeout s \<longrightarrow> decrypt env later secret_id t = (t\<lparr>vk_last_used := Some later\<rparr>, Inr value))"
proof -
  from assms(10) obtain version master where c: "map_of (vk_keys s) version = Some master" "vk_keys s \<noteq> []"
    "secret_records (vdb t) = secret_records (vdb s) @ [\<lparr>sr_id = secret_id, sr_owner = owner, sr_label = label, sr_kind = kind, sr_class = cls,
            sr_ciphertext = seal env n1 data_key value (secret_value_context secret_id 1),
            sr_wrapped = seal env n2 master data_key (data_key_context secret_id version),
            sr_key_version = version, sr_version = 1, sr_created = isoformat_utc now, sr_updated = isoformat_utc now\<rparr>]"
    "secret_id \<notin> sr_id ` set (secret_records (vdb s))"
    "vk_keys t = vk_keys s" "vk_last_used t = Some now" "vk_idle_timeout t = vk_idle_timeout s" by (rule vault_create_effect)
  have find: "find_row sr_id i (secret_records (vdb t)) =
      (if i = secret_id then Some (last (secret_records (vdb t))) else find_row sr_id i (secret_records (vdb s)))" for i
    using c(4) by (simp add: c(3) find_row_snoc)
  have "opens_to env (vk_keys t) (last (secret_records (vdb t))) value"
    by (rule opens_to_sealed[OF assms(1-9)]) (simp_all add: c)
  then have h: "holds_secret env t secret_id value" by (simp add: holds_secret_def find)
  moreover have "\<forall>other v. other \<noteq> secret_id \<longrightarrow> holds_secret env t other v = holds_secret env s other v"
    by (auto simp: holds_secret_def find c(5) split: option.split)
  ultimately show ?thesis using c by (auto intro: decrypt_run)
qed

section \<open>Updates\<close>

lemma on_db_seq [op_simps]: "seq (on_db f) n s = n (s\<lparr>vdb := f (vdb s)\<rparr>)"
  by (simp add: seq_def bind_def on_db_run)

lemma transaction_rollback: "transaction m s = (t, Inl e) \<Longrightarrow> vdb t = vdb s"
  by (auto simp: transaction_Inl)

lemma replace_value_Inr:
  assumes "replace_value env now f secret_id expected actor s = (t, Inr ())" "unique_key sr_id (secret_records (vdb s))"
  obtains r where "find_row sr_id secret_id (secret_records (vdb s)) = Some r" "sr_version r = expected"
    "secret_records (vdb t) = update_where (\<lambda>r. sr_id r = secret_id \<and> sr_version r = expected) f (secret_records (vdb s))"
    "vk_keys t = vk_keys s" "vk_last_used t = Some now" "vk_idle_timeout t = vk_idle_timeout s"
proof -
  let ?p = "\<lambda>r. sr_id r = secret_id \<and> sr_version r = expected"
  let ?s = "s\<lparr>vdb := (vdb s)\<lparr>secret_records := update_where ?p f (secret_records (vdb s))\<rparr>\<rparr>"
  from assms(1) have "seq (check (count_where ?p (secret_records (vdb s)) \<noteq> 1) RuntimeErr)
      (append_event env now actor (lit ''update'') secret_id (lit ''completed'') []) ?s = (t, Inr ())"
    unfolding replace_value_def transaction_Inr bind_simple on_db_seq .
  then have "count_where ?p (secret_records (vdb s)) = 1
      \<and> append_event env now actor (lit ''update'') secret_id (lit ''completed'') [] ?s = (t, Inr ())"
    unfolding seq_simple by (cases "count_where ?p (secret_records (vdb s)) = 1") simp_all
  then have c: "count_where ?p (secret_records (vdb s)) = 1"
    and a: "append_event env now actor (lit ''update'') secret_id (lit ''completed'') [] ?s = (t, Inr ())" by simp_all
  obtain r where "find_row sr_id secret_id (secret_records (vdb s)) = Some r" "sr_version r = expected"
  proof (cases "find_row sr_id secret_id (secret_records (vdb s))")
    case None
    then show thesis using c count_where_key[OF assms(2), of ?p secret_id] by simp
  next
    case (Some q)
    then have "sr_version q = expected"
      using c count_where_key[OF assms(2), of ?p secret_id] by (cases "?p q") simp_all
    then show thesis by (rule that[OF Some])
  qed
  then show thesis by (rule that) (use append_event_Inr(2)[OF a] in simp_all)
qed

lemma vault_update_cases:
  assumes "vault_update env now data_key n1 n2 secret_id value expected actor s = (t, result)"
  obtains (refused) e where "result = Inl e" "vdb t = vdb s"
  | (replaced) version master where "map_of (vk_keys s) version = Some master" "vk_keys s \<noteq> []"
    "replace_value env now (updated_record env now data_key n1 n2 version master value (expected + 1)) secret_id expected actor
       (s\<lparr>vk_last_used := Some now\<rparr>) = (t, Inr ())"
    "get_metadata env secret_id t = (t, result)"
proof -
  obtain s1 a where a: "active now s = (s1, a)" by fastforce
  show thesis
  proof (cases a)
    case (Inl e)
    with assms a have "result = Inl e" "t = s1" by (auto simp: vault_update_def bind_def)
    then show thesis using refused active_state[OF a] by blast
  next
    case (Inr vm)
    obtain version master where vm: "vm = (version, master)" by fastforce
    from active_Inr[OF a[unfolded Inr vm]]
    have s1: "s1 = s\<lparr>vk_last_used := Some now\<rparr>" "map_of (vk_keys s) version = Some master" by (auto simp: keyring_key_Inr)
    let ?f = "updated_record env now data_key n1 n2 version master value (expected + 1)"
    obtain s2 b where b: "replace_value env now ?f secret_id expected actor s1 = (s2, b)" by fastforce
    show thesis
    proof (cases b)
      case (Inl e)
      then have "result = Inl e" "t = s2" using assms a Inr vm b by (auto simp: vault_update_def bind_def seq_def)
      moreover have "vdb s2 = vdb s1" using b Inl unfolding replace_value_def by (simp add: transaction_rollback)
      ultimately show thesis using refused s1 by simp
    next
      case (Inr x)
      then have g: "get_metadata env secret_id s2 = (t, result)"
        using assms a \<open>a = Inr vm\<close> vm b by (auto simp: vault_update_def bind_def seq_def)
      then have "t = s2" by (rule get_metadata_state)
      with g b Inr s1 show thesis by (intro replaced[of version master]) auto
    qed
  qed
qed

text \<open>Stored times can be read back.\<close>

definition readable_times :: "vault_env \<Rightarrow> vault_database \<Rightarrow> bool" where
  "readable_times env d \<longleftrightarrow> list_all (\<lambda>r. is_ok (fromisoformat env (sr_created r)) \<and> is_ok (fromisoformat env (sr_updated r)))
     (secret_records d)"

lemma is_ok_iff: "is_ok r \<longleftrightarrow> (\<exists>x. r = Inr x)"
  by (cases r) auto

lemma metadata_ok: "is_ok (fromisoformat env (sr_created r)) \<Longrightarrow> is_ok (fromisoformat env (sr_updated r)) \<Longrightarrow>
    \<exists>md. metadata_of env d r = Inr md \<and> md_version md = sr_version r"
  by (auto simp: metadata_of_def is_ok_iff)

text \<open>
  Updates are optimistic and atomic: an update that returns found the secret at the expected
  version, raised the version by one, made the new value readable and left every other secret as
  it was; an update that raises leaves all tables unchanged.
\<close>

lemma update_versioned:
  assumes "aead_correct env" "length n1 = 12" "is_bytes n1" "length n2 = 12" "is_bytes n2"
    and "is_bytes data_key" "data_key \<noteq> []" "is_bytes value" "value \<noteq> []"
    and "iso_correct env" "in_range now" "unique_key sr_id (secret_records (vdb s))" "readable_times env (vdb s)"
    and "vault_update env now data_key n1 n2 secret_id value expected actor s = (t, result)"
  shows "case result of
      Inr md \<Rightarrow> (\<exists>r. find_row sr_id secret_id (secret_records (vdb s)) = Some r \<and> sr_version r = expected)
        \<and> md_version md = expected + 1 \<and> holds_secret env t secret_id value
        \<and> (\<forall>other v. other \<noteq> secret_id \<longrightarrow> holds_secret env t other v = holds_secret env s other v)
    | Inl e \<Rightarrow> vdb t = vdb s"
  using assms(14)
proof (cases rule: vault_update_cases)
  case (refused e)
  then show ?thesis by simp
next
  case (replaced version master)
  let ?f = "updated_record env now data_key n1 n2 version master value (expected + 1)"
  let ?s = "s\<lparr>vk_last_used := Some now\<rparr>"
  have "unique_key sr_id (secret_records (vdb ?s))" using assms(12) by simp
  with replaced(3) obtain r where r1:
    "find_row sr_id secret_id (secret_records (vdb ?s)) = Some r" "sr_version r = expected"
    "secret_records (vdb t) = update_where (\<lambda>r. sr_id r = secret_id \<and> sr_version r = expected) ?f (secret_records (vdb ?s))"
    "vk_keys t = vk_keys ?s" by (rule replace_value_Inr)
  then have r: "find_row sr_id secret_id (secret_records (vdb s)) = Some r" "sr_version r = expected" and
    t: "secret_records (vdb t) = update_where (\<lambda>r. sr_id r = secret_id \<and> sr_version r = expected) ?f (secret_records (vdb s))"
    "vk_keys t = vk_keys s" by simp_all
  have id: "sr_id r = secret_id" using find_row_SomeD[OF r(1)] by simp
  have "sr_id (?f q) = sr_id q" for q by (simp add: updated_record_def)
  then have find: "find_row sr_id i (secret_records (vdb t)) =
      map_option (\<lambda>r. if sr_id r = secret_id \<and> sr_version r = expected then ?f r else r) (find_row sr_id i (secret_records (vdb s)))" for i
    unfolding t(1) by (rule find_row_update_where)
  have "opens_to env (vk_keys t) (?f r) value"
    by (rule opens_to_sealed[OF assms(1-9)]) (simp_all add: updated_record_def replaced t(2))
  then have "holds_secret env t secret_id value" by (simp add: holds_secret_def find r id)
  moreover have "holds_secret env t other v = holds_secret env s other v" if "other \<noteq> secret_id" for other v
    using that by (auto simp: holds_secret_def find t(2) split: option.splits dest: find_row_SomeD)
  moreover have "\<exists>md. result = Inr md \<and> md_version md = expected + 1"
  proof -
    have "is_ok (fromisoformat env (sr_created r))"
      using assms(13) find_row_SomeD[OF r(1)] by (simp add: readable_times_def list_all_iff)
    moreover have "is_ok (fromisoformat env (isoformat_utc now))" using assms(10,11) by (simp add: iso_correct_def)
    ultimately obtain md where "metadata_of env (vdb t) (?f r) = Inr md" "md_version md = sr_version (?f r)"
      using metadata_ok[of env "?f r" "vdb t"] by (auto simp: updated_record_def)
    moreover have "result = metadata_of env (vdb t) (?f r)"
      using replaced(4) by (simp add: get_metadata_def op_simps find r id)
    ultimately show ?thesis by (simp add: updated_record_def)
  qed
  ultimately show ?thesis using r by auto
qed

section \<open>Key rotation\<close>

definition rewrapped_secret :: "vault_env \<Rightarrow> micros \<Rightarrow> (pystr \<Rightarrow> bytes) \<Rightarrow> (int \<times> bytes) list \<Rightarrow> int \<Rightarrow> bytes \<Rightarrow> secret_record \<Rightarrow> secret_record" where
  "rewrapped_secret env now nonces keys new_version new_master r =
     (case map_of keys (sr_key_version r) of None \<Rightarrow> r
      | Some master \<Rightarrow> (case open_sealed env master (sr_wrapped r) (data_key_context (sr_id r) (sr_key_version r)) of Inl e \<Rightarrow> r
         | Inr data_key \<Rightarrow> r\<lparr>sr_wrapped := seal env (nonces (sr_id r)) new_master data_key (data_key_context (sr_id r) new_version),
              sr_key_version := new_version, sr_updated := isoformat_utc now\<rparr>))"

definition data_key_opens :: "vault_env \<Rightarrow> (int \<times> bytes) list \<Rightarrow> secret_record \<Rightarrow> bool" where
  "data_key_opens env keys r \<longleftrightarrow> (case map_of keys (sr_key_version r) of None \<Rightarrow> False
     | Some master \<Rightarrow> is_ok (open_sealed env master (sr_wrapped r) (data_key_context (sr_id r) (sr_key_version r))))"

lemma rewrap_row_Inr:
  assumes "rewrap_row env now nonces v m r s = (t, Inr ())"
  shows "data_key_opens env (vk_keys s) r"
    "t = s\<lparr>vk_last_used := Some now, vdb := (vdb s)\<lparr>secret_records := update_where (\<lambda>q. sr_id q = sr_id r)
        (\<lambda>q. q\<lparr>sr_wrapped := sr_wrapped (rewrapped_secret env now nonces (vk_keys s) v m r),
              sr_key_version := v, sr_updated := isoformat_utc now\<rparr>)
        (secret_records (vdb s))\<rparr>\<rparr>"
  using assms by (auto simp: rewrap_row_def bind_Inr op_run on_db_run keyring_key_Inr rewrapped_secret_def data_key_opens_def)

lemma rewrapped_secret_id [simp]: "sr_id (rewrapped_secret env now nonces keys v m r) = sr_id r"
  by (simp add: rewrapped_secret_def split: option.split sum.split)

lemma rewrapped_record_version:
  "data_key_opens env keys r \<Longrightarrow> sr_key_version (rewrapped_secret env now nonces keys v m r) = v"
  by (auto simp: data_key_opens_def rewrapped_secret_def split: option.splits sum.splits)

lemma rewrap_all:
  assumes "unique_key sr_id (pre @ rows)" "secret_records (vdb s) = pre @ rows"
    and "each (rewrap_row env now nonces v m) rows s = (t, Inr ())"
  shows "secret_records (vdb t) = pre @ map (rewrapped_secret env now nonces (vk_keys s) v m) rows
     \<and> vk_keys t = vk_keys s \<and> vk_idle_timeout t = vk_idle_timeout s \<and> list_all (data_key_opens env (vk_keys s)) rows"
  using assms
proof (induction rows arbitrary: pre s)
  case Nil
  then show ?case by (simp add: op_simps)
next
  case (Cons r rows)
  then obtain u where u: "rewrap_row env now nonces v m r s = (u, Inr ())" "each (rewrap_row env now nonces v m) rows u = (t, Inr ())"
    by (auto simp: seq_Inr)
  let ?r = "rewrapped_secret env now nonces (vk_keys s) v m r"
  note o = rewrap_row_Inr[OF u(1)]
  have r: "r\<lparr>sr_wrapped := sr_wrapped ?r, sr_key_version := v, sr_updated := isoformat_utc now\<rparr> = ?r"
    using o(1) by (auto simp: rewrapped_secret_def data_key_opens_def split: option.splits sum.splits)
  have "sr_id r \<notin> sr_id ` (set pre \<union> set rows)" using Cons.prems(1) by (auto simp: unique_key_def)
  then have "\<forall>q \<in> set pre \<union> set rows. sr_id q \<noteq> sr_id r" by (metis imageI)
  then have up: "update_where (\<lambda>q. sr_id q = sr_id r)
        (\<lambda>q. q\<lparr>sr_wrapped := sr_wrapped ?r, sr_key_version := v, sr_updated := isoformat_utc now\<rparr>) (pre @ r # rows) = (pre @ [?r]) @ rows"
    using r by (auto simp: update_where_def intro!: map_idI)
  have rec: "secret_records (vdb u) = (pre @ [?r]) @ rows" and keys: "vk_keys u = vk_keys s" "vk_idle_timeout u = vk_idle_timeout s"
    using o(2) up Cons.prems(2) by simp_all
  have "unique_key sr_id ((pre @ [?r]) @ rows)" using Cons.prems(1) by (simp add: unique_key_def)
  from Cons.IH[OF this rec u(2)] keys o(1) show ?case by simp
qed

lemma rewrapped_opens:
  assumes "aead_correct env" "\<forall>i. length (nonces i) = 12 \<and> is_bytes (nonces i)" "map_of keys v = Some m"
    and "opens_to env keys r value"
  shows "opens_to env keys (rewrapped_secret env now nonces keys v m r) value"
proof -
  from assms(4) obtain master data_key where k: "map_of keys (sr_key_version r) = Some master"
    "open_sealed env master (sr_wrapped r) (data_key_context (sr_id r) (sr_key_version r)) = Inr data_key"
    "open_sealed env data_key (sr_ciphertext r) (secret_value_context (sr_id r) (sr_version r)) = Inr value"
    by (auto simp: opens_to_def split: option.splits sum.splits)
  have "open_sealed env m (seal env (nonces (sr_id r)) m data_key (data_key_context (sr_id r) v)) (data_key_context (sr_id r) v) = Inr data_key"
    using assms(1,2) open_sealed_bytes[OF assms(1) k(2)] by (intro open_seal) auto
  with k assms(3) show ?thesis by (simp add: opens_to_def rewrapped_secret_def)
qed

text \<open>
  C31. Rotation re-encrypts and loses nothing: when \<open>rewrap_data_keys\<close> returns, every record's data key
  is wrapped under the new master key and every secret that could be read before is read with
  the same value; when it raises, the tables are unchanged.
\<close>

theorem rotation_preserves_secrets:
  assumes "aead_correct env" "\<forall>i. length (nonces i) = 12 \<and> is_bytes (nonces i)"
    and "unique_key sr_id (secret_records (vdb s))"
    and "rewrap_data_keys env now nonces version actor s = (t, result)"
  shows "if is_ok result
    then (\<forall>secret_id v. holds_secret env s secret_id v \<longrightarrow> holds_secret env t secret_id v)
      \<and> list_all (\<lambda>r. sr_key_version r = version) (secret_records (vdb t))
      \<and> map sr_id (secret_records (vdb t)) = map sr_id (secret_records (vdb s))
    else vdb t = vdb s"
proof -
  obtain u k where k: "keyring_key now version s = (u, k)" by fastforce
  show ?thesis
  proof (cases k)
    case (Inl e)
    then show ?thesis using assms(4) k keyring_key_state[OF k] by (auto simp: rewrap_data_keys_def bind_def)
  next
    case (Inr master)
    with k have u: "u = s\<lparr>vk_last_used := Some now\<rparr>" "map_of (vk_keys s) version = Some master" by (simp_all add: keyring_key_Inr)
    show ?thesis
    proof (cases result)
      case (Inl e)
      then have "vdb t = vdb u"
        using assms(4) k Inr by (intro transaction_rollback) (auto simp: rewrap_data_keys_def bind_def)
      then show ?thesis using Inl u by simp
    next
      case (Inr x)
      then obtain w where w: "each (rewrap_row env now nonces version master) (secret_records (vdb u)) u = (w, Inr ())"
        "append_event env now actor (lit ''rotate'') (lit ''*'') (lit ''completed'') [] w = (t, Inr ())"
        using assms(4) k \<open>k = Inr master\<close> by (auto simp: rewrap_data_keys_def bind_Inr transaction_Inr seq_Inr op_run)
      let ?g = "rewrapped_secret env now nonces (vk_keys s) version master"
      have "unique_key sr_id ([] @ secret_records (vdb s))" using assms(3) by simp
      from rewrap_all[OF this, of u] w(1) u have r: "secret_records (vdb w) = map ?g (secret_records (vdb s))" "vk_keys w = vk_keys s"
        "list_all (data_key_opens env (vk_keys s)) (secret_records (vdb s))" by simp_all
      have t: "secret_records (vdb t) = map ?g (secret_records (vdb s))" "vk_keys t = vk_keys s"
        using append_event_Inr(2)[OF w(2)] r by simp_all
      have find: "find_row sr_id i (secret_records (vdb t)) = map_option ?g (find_row sr_id i (secret_records (vdb s)))" for i
        using find_row_update_where[of sr_id ?g i "\<lambda>r. True" "secret_records (vdb s)"] t(1) by (simp add: update_where_def)
      have "holds_secret env t secret_id v" if "holds_secret env s secret_id v" for secret_id v
        using that rewrapped_opens[OF assms(1,2) u(2)] by (auto simp: holds_secret_def find t(2) split: option.splits)
      moreover have "\<forall>r \<in> set (secret_records (vdb s)). sr_key_version (?g r) = version"
        using r(3) rewrapped_record_version[of env "vk_keys s"] by (auto simp: list_all_iff)
      ultimately show ?thesis using Inr t(1) by (simp add: list_all_iff)
    qed
  qed
qed

section \<open>Deletion\<close>

lemma find_row_filter_other: "i \<noteq> k \<Longrightarrow> find_row key i (filter (\<lambda>r. key r \<noteq> k) rows) = find_row key i rows"
  unfolding find_row_def by (induction rows) auto

text \<open>
  Deleting a secret revokes every right to it: when \<open>vault_delete\<close> returns, the secret cannot be
  read and has no metadata, no subject keeps an ACL entry or override for its identifier (so a
  secret created later under the same identifier inherits none), the other secrets are as before
  and the deletion is in the audit log; when it raises, the tables are unchanged.
\<close>

lemma delete_revokes:
  assumes "unique_key sr_id (secret_records (vdb s))" "vault_delete env now secret_id actor s = (t, result)"
  shows "if is_ok result
    then get_metadata env secret_id t = (t, Inl KeyErr) \<and> (\<forall>later. snd (decrypt env later secret_id t) = Inl KeyErr)
      \<and> (\<forall>subject act. \<not> has_acl secret_id subject act (vdb t)) \<and> find_override secret_id (vdb t) = None
      \<and> (\<forall>other v. other \<noteq> secret_id \<longrightarrow> holds_secret env t other v = holds_secret env s other v)
      \<and> (\<exists>row. vault_audit (vdb t) = vault_audit (vdb s) @ [row] \<and> va_action row = lit ''delete'' \<and> va_secret row = secret_id)
    else vdb t = vdb s"
proof (cases result)
  case (Inl e)
  then show ?thesis using assms(2) unfolding vault_delete_def by (simp add: transaction_rollback)
next
  case (Inr x)
  let ?s = "s\<lparr>vdb := delete_cascade secret_id (vdb s)\<rparr>"
  have a: "append_event env now actor (lit ''delete'') secret_id (lit ''completed'') [] ?s = (t, Inr ())"
    using assms(2) Inr unfolding vault_delete_def
    by (cases "count_where (\<lambda>r. sr_id r = secret_id) (secret_records (vdb s)) = 1")
      (simp_all add: transaction_Inr bind_simple on_db_seq seq_simple)
  let ?keep = "filter (\<lambda>r. sr_id r \<noteq> secret_id) (secret_records (vdb s))"
  have t: "secret_records (vdb t) = ?keep" "vk_keys t = vk_keys s"
    "policy_overrides (vdb t) = filter (\<lambda>o1. po_secret o1 \<noteq> secret_id) (policy_overrides (vdb s))"
    "secret_acl (vdb t) = filter (\<lambda>a. acl_secret a \<noteq> secret_id) (secret_acl (vdb s))"
    "\<exists>row. vault_audit (vdb t) = vault_audit (vdb s) @ [row] \<and> va_action row = lit ''delete'' \<and> va_secret row = secret_id"
    unfolding append_event_Inr(2)[OF a] by (simp_all add: delete_cascade_def event_row_def)
  have gone: "find_row sr_id secret_id ?keep = None" by (auto simp: find_row_None_iff)
  have other: "find_row sr_id i ?keep = find_row sr_id i (secret_records (vdb s))" if "i \<noteq> secret_id" for i
    using that by (rule find_row_filter_other)
  have "find_override secret_id (vdb t) = None"
    by (simp add: find_override_def t(3) find_row_None_iff) auto
  moreover have "get_metadata env secret_id t = (t, Inl KeyErr)" "\<forall>later. snd (decrypt env later secret_id t) = Inl KeyErr"
    by (simp_all add: get_metadata_def decrypt_def op_simps t(1) gone)
  moreover have "\<forall>subject act. \<not> has_acl secret_id subject act (vdb t)" by (auto simp: has_acl_def t(4) list_ex_iff)
  moreover have "\<forall>i v. i \<noteq> secret_id \<longrightarrow> holds_secret env t i v = holds_secret env s i v"
    using other by (simp add: holds_secret_def t(1,2) split: option.split)
  ultimately show ?thesis using Inr t(5) by simp
qed

section \<open>Examples\<close>

lemma each_insert_acl_ok:
  "\<forall>a \<in> set as. acl_secret (f a) \<in> sr_id ` set (secret_records (vdb s)) \<Longrightarrow>
     \<exists>rows. each (\<lambda>a. insert_acl (f a)) as s = (s\<lparr>vdb := (vdb s)\<lparr>secret_acl := secret_acl (vdb s) @ rows\<rparr>\<rparr>, Inr ())"
proof (induction as arbitrary: s)
  case Nil
  show ?case by (rule exI[of _ "[]"]) (simp add: op_simps)
next
  case (Cons a as)
  show ?case
  proof (cases "has_acl (acl_secret (f a)) (acl_subject (f a)) (acl_action (f a)) (vdb s)")
    case True
    then have "insert_acl (f a) s = (s, Inr ())" by (simp add: insert_acl_run)
    then show ?thesis using Cons by (simp add: seq_run(1))
  next
    case False
    let ?s = "s\<lparr>vdb := (vdb s)\<lparr>secret_acl := secret_acl (vdb s) @ [f a]\<rparr>\<rparr>"
    from Cons.IH[of ?s] Cons.prems obtain rows where
      "each (\<lambda>a. insert_acl (f a)) as ?s = (?s\<lparr>vdb := (vdb ?s)\<lparr>secret_acl := secret_acl (vdb ?s) @ rows\<rparr>\<rparr>, Inr ())" by auto
    moreover have "insert_acl (f a) s = (?s, Inr ())" using False Cons.prems by (simp add: insert_acl_run)
    ultimately show ?thesis by (intro exI[of _ "f a # rows"]) (simp add: seq_run(1))
  qed
qed

lemma audit_key_total:
  assumes "vk_keys (expire_idle now s) \<noteq> []"
  shows "audit_key env now True s = (s\<lparr>vk_last_used := Some now\<rparr>, Inr (chain_key env (vk_keys s)))"
proof -
  have "vk_keys s \<noteq> []" using assms expire_idle_keys by fastforce
  then have "Min (fst ` set (vk_keys s)) \<in> fst ` set (vk_keys s)" by (intro Min_in) auto
  then obtain m where "map_of (vk_keys s) (Min (fst ` set (vk_keys s))) = Some m" by (metis map_of_eq_None_iff not_None_eq)
  with assms show ?thesis by (simp add: audit_key_Inr chain_key_def)
qed

lemma append_event_first:
  assumes "vk_keys (expire_idle now s) \<noteq> []" "vault_audit (vdb s) = []"
  shows "\<exists>t. append_event env now actor act secret_id outcome reason s = (t, Inr ())"
  using assms by (simp add: append_event_def bind_run(1)[OF audit_key_total] audit_append_run Let_def)

text \<open>The first secret of the vault of the examples.\<close>

abbreviation sample_create :: "vault \<Rightarrow> vault \<times> secret_metadata res" where
  "sample_create \<equiv> vault_create sample_env 5 (replicate 32 4) (replicate 12 6) (replicate 12 7) (lit ''s'') (lit ''u'') (lit ''label'')
     KIND_HUMAN HUMAN_SECRET None [1, 2, 3] (lit ''u'')"

lemma sample_created:
  obtains s t md where "initialize sample_env 0 (replicate 16 2) (replicate 32 1) (replicate 12 3) sample_passphrase sample_vault = (s, Inr ())"
    "sample_create s = (t, Inr md)" "md_version md = 1" "unique_key sr_id (secret_records (vdb t))" "readable_times sample_env (vdb t)"
proof -
  obtain s where s: "initialize sample_env 0 (replicate 16 2) (replicate 32 1) (replicate 12 3) sample_passphrase sample_vault = (s, Inr ())"
    "vk_keys s = [(1, replicate 32 1)]" "vk_last_used s = Some 0" "vk_idle_timeout s = 600000000"
    "vdb s = empty_vault_database\<lparr>vault_meta := vault_meta (vdb s), key_versions := key_versions (vdb s)\<rparr>"
    "map kv_version (key_versions (vdb s)) = [1]" "map kv_status (key_versions (vdb s)) = [KEY_ACTIVE]"
    by (rule sample_initialized)
  then obtain k where k: "key_versions (vdb s) = [k]" "kv_version k = 1" "kv_status k = KEY_ACTIVE" by auto
  have d: "secret_records (vdb s) = []" "vault_audit (vdb s) = []" "policy_overrides (vdb s) = []" "secret_acl (vdb s) = []"
    using arg_cong[OF s(5), of secret_records] arg_cong[OF s(5), of vault_audit]
      arg_cong[OF s(5), of policy_overrides] arg_cong[OF s(5), of secret_acl] by (simp_all add: empty_vault_database_def)
  have e: "expire_idle 5 s = s" using s(3,4) by (simp add: expire_within)
  let ?s1 = "s\<lparr>vk_last_used := Some 5\<rparr>"
  have act: "active 5 s = (?s1, Inr (1, replicate 32 1))"
    using s(2) e k by (simp add: active_def op_simps keyring_key_def)
  let ?r = "\<lparr>sr_id = lit ''s'', sr_owner = lit ''u'', sr_label = lit ''label'', sr_kind = KIND_HUMAN, sr_class = HUMAN_SECRET,
     sr_ciphertext = seal sample_env (replicate 12 6) (replicate 32 4) [1, 2, 3] (secret_value_context (lit ''s'') 1),
     sr_wrapped = seal sample_env (replicate 12 7) (replicate 32 1) (replicate 32 4) (data_key_context (lit ''s'') 1),
     sr_key_version = 1, sr_version = 1, sr_created = isoformat_utc 5, sr_updated = isoformat_utc 5\<rparr>"
  let ?s2 = "?s1\<lparr>vdb := (vdb s)\<lparr>secret_records := [?r]\<rparr>\<rparr>"
  have ins: "insert_record ?r ?s1 = (?s2, Inr ())" using d k by (simp add: insert_record_run)
  have "\<exists>rows. each (\<lambda>a. insert_acl \<lparr>acl_secret = lit ''s'', acl_subject = lit ''u'', acl_action = vault_action_value a,
                acl_created = isoformat_utc 5\<rparr>) (owner_actions KIND_HUMAN None) ?s2
      = (?s2\<lparr>vdb := (vdb ?s2)\<lparr>secret_acl := secret_acl (vdb ?s2) @ rows\<rparr>\<rparr>, Inr ())"
    by (rule each_insert_acl_ok) simp
  then obtain rows where acl: "each (\<lambda>a. insert_acl \<lparr>acl_secret = lit ''s'', acl_subject = lit ''u'', acl_action = vault_action_value a,
                acl_created = isoformat_utc 5\<rparr>) (owner_actions KIND_HUMAN None) ?s2
      = (?s2\<lparr>vdb := (vdb ?s2)\<lparr>secret_acl := rows\<rparr>\<rparr>, Inr ())" using d by auto
  let ?s3 = "?s2\<lparr>vdb := (vdb ?s2)\<lparr>secret_acl := rows\<rparr>\<rparr>"
  have "vk_keys (expire_idle 5 ?s3) \<noteq> []" "vault_audit (vdb ?s3) = []" using s(2,4) d by (simp_all add: expire_idle_def)
  from append_event_first[OF this] obtain s4 where
    ev: "append_event sample_env 5 (lit ''u'') (lit ''create'') (lit ''s'') (lit ''completed'') [] ?s3 = (s4, Inr ())" by blast
  then have s4: "secret_records (vdb s4) = [?r]" by (simp add: append_event_Inr(2)[OF ev])
  have "fromisoformat sample_env (isoformat_utc 5) = Inr (utc 5)" using sample_env_iso by (simp add: iso_correct_def in_range_def)
  then have md: "\<exists>md. get_metadata sample_env (lit ''s'') s4 = (s4, Inr md) \<and> md_version md = 1"
    and rt: "readable_times sample_env (vdb s4)"
    by (simp_all add: get_metadata_def op_simps s4 find_row_def metadata_of_def readable_times_def)
  then obtain md where md: "get_metadata sample_env (lit ''s'') s4 = (s4, Inr md)" "md_version md = 1" by blast
  have "transaction
       (seq (insert_record ?r) (seq (ret ())
       (seq (each (\<lambda>a. insert_acl \<lparr>acl_secret = lit ''s'', acl_subject = lit ''u'', acl_action = vault_action_value a,
                acl_created = isoformat_utc 5\<rparr>) (owner_actions KIND_HUMAN None))
            (append_event sample_env 5 (lit ''u'') (lit ''create'') (lit ''s'') (lit ''completed'') [])))) ?s1 = (s4, Inr ())"
    unfolding transaction_Inr seq_Inr using ins acl ev by (auto simp: op_run)
  then have "sample_create s = (s4, Inr md)"
    unfolding vault_create_def using act md by (simp add: bind_def seq_def)
  then show thesis by (rule that[OF s(1) _ md(2)]) (simp_all add: s4 unique_key_def rt)
qed

lemma sample_bytes:
  "length (replicate 12 (6::nat)) = 12" "is_bytes (replicate 12 6)" "length (replicate 12 (7::nat)) = 12" "is_bytes (replicate 12 7)"
  "is_bytes (replicate 32 4)" "replicate 32 (4::nat) \<noteq> []" "is_bytes [1, 2, 3]" "[1, 2, 3 :: nat] \<noteq> []"
  by (simp_all add: is_bytes_def list_all_iff)

theorem create_then_decrypt_witness:
  "\<exists>s t md. sample_create s = (t, Inr md) \<and> holds_secret sample_env t (lit ''s'') [1, 2, 3]"
proof -
  obtain s t md where "sample_create s = (t, Inr md)" by (rule sample_created)
  with create_then_decrypt[OF sample_env_correct sample_bytes] show ?thesis by blast
qed

theorem rotation_preserves_secrets_witness:
  "\<exists>s t result. holds_secret sample_env s (lit ''s'') [1, 2, 3]
     \<and> rewrap_data_keys sample_env 6 (\<lambda>i. replicate 12 6) 1 (lit ''u'') s = (t, result)
     \<and> (if is_ok result then holds_secret sample_env t (lit ''s'') [1, 2, 3] else vdb t = vdb s)"
proof -
  obtain s0 s md where s: "sample_create s0 = (s, Inr md)" "unique_key sr_id (secret_records (vdb s))" by (rule sample_created)
  have h: "holds_secret sample_env s (lit ''s'') [1, 2, 3]"
  proof -
    from s(1) obtain version master where c: "map_of (vk_keys s0) version = Some master"
      "secret_records (vdb s) = secret_records (vdb s0) @ [\<lparr>sr_id = lit ''s'', sr_owner = lit ''u'', sr_label = lit ''label'',
            sr_kind = KIND_HUMAN, sr_class = HUMAN_SECRET,
            sr_ciphertext = seal sample_env (replicate 12 6) (replicate 32 4) [1, 2, 3] (secret_value_context (lit ''s'') 1),
            sr_wrapped = seal sample_env (replicate 12 7) master (replicate 32 4) (data_key_context (lit ''s'') version),
            sr_key_version = version, sr_version = 1, sr_created = isoformat_utc 5, sr_updated = isoformat_utc 5\<rparr>]"
      "lit ''s'' \<notin> sr_id ` set (secret_records (vdb s0))" "vk_keys s = vk_keys s0" by (rule vault_create_effect)
    have "opens_to sample_env (vk_keys s) (last (secret_records (vdb s))) [1, 2, 3]"
      by (rule opens_to_sealed[OF sample_env_correct sample_bytes]) (simp_all add: c)
    then show ?thesis using c(3) by (simp add: holds_secret_def c(2) find_row_snoc)
  qed
  obtain t result where r: "rewrap_data_keys sample_env 6 (\<lambda>i. replicate 12 6) 1 (lit ''u'') s = (t, result)" by fastforce
  have "\<forall>i::pystr. length (replicate 12 (6::nat)) = 12 \<and> is_bytes (replicate 12 6)" by (simp add: is_bytes_def list_all_iff)
  from rotation_preserves_secrets[OF sample_env_correct this s(2) r] h r show ?thesis
    by (intro exI[of _ s] exI[of _ t] exI[of _ result]) (auto split: if_splits)
qed

end
