(* ===== verification/VaultService.thy ===== *)
theory VaultService
  imports VaultStorage
begin

text \<open>
  The capability-checked service, \<^verbatim>\<open>src/zhixu_vault/service.py\<close>, over the repository: one operation per
  method, with the audit entries of denials and successes. A caller's \<^verbatim>\<open>SecretValue\<close>
  (\<^verbatim>\<open>src/zhixu_vault/types.py\<close>) is a buffer beside the vault, so that clearing it is visible. Executors
  are functions from the secret's bytes and the request to a result (\<open>None\<close> for an object of another
  class); the PAT executor of \<^verbatim>\<open>src/zhixu_vault/executors.py\<close> is one of them.
\<close>

section \<open>Secret buffers\<close>

definition secret_from_text :: "pystr \<Rightarrow> bytes" where
  "secret_from_text s = utf8_encode s"

definition secret_text :: "bytes \<Rightarrow> pystr res" where
  "secret_text b = utf8_decode b"

definition clear :: "bytes \<Rightarrow> bytes" where
  "clear b = map (\<lambda>_. 0) b"

definition on_vault :: "(vault, 'a) op \<Rightarrow> (vault \<times> bytes, 'a) op" where
  "on_vault m st = (case m (fst st) of (t, r) \<Rightarrow> ((t, snd st), r))"

definition clear_buffer :: "vault \<times> bytes \<Rightarrow> vault \<times> bytes" where
  "clear_buffer st = (fst st, clear (snd st))"

definition fail_cleared :: "err \<Rightarrow> (vault \<times> bytes, 'a) op" where
  "fail_cleared e = seq (writes clear_buffer) (throw e)"

text \<open>\<^verbatim>\<open>try: m finally: value.clear()\<close>.\<close>

definition finally_clear :: "(vault \<times> bytes, 'a) op \<Rightarrow> (vault \<times> bytes, 'a) op" where
  "finally_clear m st = (case m st of (st', r) \<Rightarrow> (clear_buffer st', r))"

section \<open>Configuration\<close>

record execution_result =
  er_ok :: bool
  er_code :: pystr
  er_data :: json

type_synonym executor = "bytes \<Rightarrow> json \<Rightarrow> execution_result option res"

record vault_service =
  vs_env :: vault_env
  vs_issuers :: "(pystr \<times> bytes) list"
  vs_audience :: pystr
  vs_executors :: "(pystr \<times> executor) list"

text \<open>The random values of one call.\<close>

record entropy =
  en_data_key :: bytes
  en_nonce1 :: bytes
  en_nonce2 :: bytes
  en_salt :: bytes
  en_master :: bytes
  en_nonces :: "pystr \<Rightarrow> bytes"

section \<open>Audit of decisions\<close>

definition record_success :: "vault_service \<Rightarrow> micros \<Rightarrow> verified_grant \<Rightarrow> vault_action \<Rightarrow> pystr \<Rightarrow> (vault, unit) op" where
  "record_success svc now g act secret_id =
     record_access (vs_env svc) now (vg_subject g) (vault_action_value act) secret_id (lit ''completed'') []"

text \<open>A failure to record is swallowed.\<close>

definition record_denial :: "vault_service \<Rightarrow> micros \<Rightarrow> pystr \<Rightarrow> vault_action \<Rightarrow> pystr \<Rightarrow> pystr \<Rightarrow> vault \<Rightarrow> vault" where
  "record_denial svc now actor act secret_id reason s =
     fst (record_access (vs_env svc) now actor (vault_action_value act) secret_id (lit ''denied'') reason s)"

definition authorization_denied :: pystr where
  "authorization_denied = lit ''authorization_denied''"

section \<open>Authorization\<close>

definition verify :: "vault_service \<Rightarrow> micros \<Rightarrow> pystr \<Rightarrow> pystr \<Rightarrow> vault_action \<Rightarrow> (vault, verified_grant) op" where
  "verify svc now token secret_id act =
     verify_and_consume (vs_env svc) (vs_issuers svc) (vs_audience svc) now token secret_id (vault_action_value act)"

definition authorize :: "vault_service \<Rightarrow> micros \<Rightarrow> pystr \<Rightarrow> pystr \<Rightarrow> vault_action \<Rightarrow> (vault, verified_grant \<times> secret_metadata) op" where
  "authorize svc now token secret_id act =
     bind (on_error (verify svc now token secret_id act)
             (record_denial svc now (lit ''unknown'') act secret_id authorization_denied)) (\<lambda>g.
     on_error
       (bind (get_metadata (vs_env svc) secret_id) (\<lambda>md.
        bind (reads (\<lambda>s. has_acl secret_id (vg_subject g) (vault_action_value act) (vdb s))) (\<lambda>acl_allowed.
        seq (of_res (vault_policy_require g (md_kind md) (md_class md) (md_owner md) acl_allowed))
            (ret (g, md)))))
       (record_denial svc now (vg_subject g) act secret_id authorization_denied))"

section \<open>Creating\<close>

definition create_secret ::
  "vault_service \<Rightarrow> micros \<Rightarrow> entropy \<Rightarrow> pystr \<Rightarrow> pystr \<Rightarrow> pystr \<Rightarrow> secret_kind \<Rightarrow> pystr \<Rightarrow> vault_classification option
     \<Rightarrow> pystr option \<Rightarrow> (vault \<times> bytes, secret_metadata) op" where
  "create_secret svc now rnd secret_id owner label kind auth cls override = bind (reads snd) (\<lambda>value.
     if blank secret_id \<or> length secret_id > 160 \<or> blank owner \<or> length owner > 160 \<or> blank label \<or> length label > 200 \<or> value = []
     then fail_cleared ValueErr
     else if auth \<noteq> step_up then fail_cleared PermissionErr
     else
       (let selected = (case cls of Some c \<Rightarrow> c | None \<Rightarrow> if kind = KIND_MACHINE then MACHINE_SECRET else HUMAN_SECRET)
        in if selected = L4_PROHIBITED \<and> (kind \<noteq> KIND_HUMAN \<or> override \<noteq> Some L4_HUMAN_STORAGE_OVERRIDE)
           then fail_cleared PermissionErr
           else if selected \<noteq> L4_PROHIBITED \<and> (selected = L4_HUMAN_OVERRIDE \<or> override \<noteq> None)
           then fail_cleared ValueErr
           else
             (let stored = (if selected = L4_PROHIBITED then HUMAN_SECRET else selected);
                  stored_override = (if selected = L4_PROHIBITED then override else None)
              in if (kind = KIND_MACHINE \<and> stored \<noteq> MACHINE_SECRET) \<or> (kind = KIND_HUMAN \<and> stored \<noteq> HUMAN_SECRET)
                 then fail_cleared ValueErr
                 else finally_clear (on_vault (vault_create (vs_env svc) now (en_data_key rnd) (en_nonce1 rnd) (en_nonce2 rnd)
                        secret_id owner label kind stored stored_override value owner)))))"

definition create_with_grant ::
  "vault_service \<Rightarrow> micros \<Rightarrow> entropy \<Rightarrow> pystr \<Rightarrow> pystr \<Rightarrow> pystr \<Rightarrow> pystr \<Rightarrow> secret_kind \<Rightarrow> vault_classification option
     \<Rightarrow> pystr option \<Rightarrow> (vault \<times> bytes, secret_metadata) op" where
  "create_with_grant svc now rnd token secret_id owner label kind cls override =
     bind (on_error (on_vault (verify svc now token secret_id VA_CREATE))
             (\<lambda>st. case clear_buffer st of (s, b) \<Rightarrow>
                (record_denial svc now (lit ''unknown'') VA_CREATE secret_id authorization_denied s, b))) (\<lambda>g.
     on_error
       (seq (check (vg_subject g \<noteq> owner \<or> vg_authentication g \<noteq> step_up) PermissionErr)
            (create_secret svc now rnd secret_id owner label kind (vg_authentication g) cls override))
       (\<lambda>st. case clear_buffer st of (s, b) \<Rightarrow>
          (record_denial svc now (vg_subject g) VA_CREATE secret_id authorization_denied s, b)))"

section \<open>Reading\<close>

definition list_owned_metadata :: "vault_service \<Rightarrow> micros \<Rightarrow> pystr \<Rightarrow> (vault, secret_metadata list) op" where
  "list_owned_metadata svc now token =
     bind (on_error (verify svc now token (lit ''*'') VA_LIST_METADATA)
             (record_denial svc now (lit ''unknown'') VA_LIST_METADATA (lit ''*'') authorization_denied)) (\<lambda>g.
     on_error
       (bind (list_metadata (vs_env svc) (vg_subject g)) (\<lambda>values.
        seq (record_success svc now g VA_LIST_METADATA (lit ''*'')) (ret values)))
       (record_denial svc now (vg_subject g) VA_LIST_METADATA (lit ''*'') authorization_denied))"

definition list_secret_metadata :: "vault_service \<Rightarrow> micros \<Rightarrow> pystr \<Rightarrow> pystr \<Rightarrow> (vault, secret_metadata list) op" where
  "list_secret_metadata svc now token secret_id =
     bind (authorize svc now token secret_id VA_LIST_METADATA) (\<lambda>(g, md).
     seq (record_success svc now g VA_LIST_METADATA secret_id) (ret [md]))"

definition reveal :: "vault_service \<Rightarrow> micros \<Rightarrow> pystr \<Rightarrow> pystr \<Rightarrow> (vault, bytes) op" where
  "reveal svc now token secret_id =
     bind (authorize svc now token secret_id VA_REVEAL) (\<lambda>(g, _).
     bind (decrypt (vs_env svc) now secret_id) (\<lambda>value.
     seq (record_success svc now g VA_REVEAL secret_id) (ret value)))"

section \<open>Using\<close>

text \<open>\<^verbatim>\<open>json.dumps\<close> with \<^verbatim>\<open>ensure_ascii=False\<close> and the default separators.\<close>

definition json_char_unicode :: "nat \<Rightarrow> pystr" where
  "json_char_unicode c =
     (if c = 34 then [92, 34] else if c = 92 then [92, 92] else if c = 10 then [92, 110]
      else if c = 13 then [92, 114] else if c = 9 then [92, 116] else if c = 12 then [92, 102]
      else if c = 8 then [92, 98] else if c < 32 then [92, 117] @ hex4 c else [c])"

definition json_quote_unicode :: "pystr \<Rightarrow> pystr" where
  "json_quote_unicode s = [34] @ concat (map json_char_unicode s) @ [34]"

fun json_dumps_unicode :: "json \<Rightarrow> pystr" where
  "json_dumps_unicode JNull = lit ''null''"
| "json_dumps_unicode (JBool b) = (if b then lit ''true'' else lit ''false'')"
| "json_dumps_unicode (JInt n) = dec n"
| "json_dumps_unicode (JStr s) = json_quote_unicode s"
| "json_dumps_unicode (JArr xs) = [91] @ py_join (lit '', '') (map json_dumps_unicode xs) @ [93]"
| "json_dumps_unicode (JObj kvs) =
     [123] @ py_join (lit '', '') (map (\<lambda>(k, v). json_quote_unicode k @ lit '': '' @ json_dumps_unicode v) kvs) @ [125]"

definition serialized_result :: "execution_result \<Rightarrow> pystr" where
  "serialized_result r = json_dumps_unicode (JObj [(lit ''code'', JStr (er_code r)), (lit ''data'', er_data r)])"

text \<open>\<^verbatim>\<open>secret.text() and secret.text() in serialized\<close>.\<close>

definition echo_blocked :: "pystr \<Rightarrow> execution_result \<Rightarrow> bool" where
  "echo_blocked text r \<longleftrightarrow> text \<noteq> [] \<and> py_contains text (serialized_result r)"

definition use :: "vault_service \<Rightarrow> micros \<Rightarrow> pystr \<Rightarrow> pystr \<Rightarrow> pystr \<Rightarrow> json \<Rightarrow> (vault, execution_result) op" where
  "use svc now token secret_id executor_name request =
     bind (authorize svc now token secret_id VA_USE) (\<lambda>(g, _).
     case map_of (vs_executors svc) executor_name of
       None \<Rightarrow> seq (writes (record_denial svc now (vg_subject g) VA_USE secret_id (lit ''executor_unavailable''))) (throw KeyErr)
     | Some execute \<Rightarrow>
         bind (decrypt (vs_env svc) now secret_id) (\<lambda>secret.
         bind (of_res (execute secret request)) (\<lambda>result.
         case result of None \<Rightarrow> throw TypeErr
         | Some r \<Rightarrow>
             bind (of_res (secret_text secret)) (\<lambda>text.
             if echo_blocked text r
             then seq (writes (record_denial svc now (vg_subject g) VA_USE secret_id (lit ''secret_echo_blocked''))) (throw PermissionErr)
             else seq (record_success svc now g VA_USE secret_id) (ret r)))))"

text \<open>\<^verbatim>\<open>PATIntegrationExecutor.execute\<close>: an allowlisted operation on the request without a credential.\<close>

definition pat_execute :: "vault_env \<Rightarrow> (pystr \<times> (pystr \<Rightarrow> json \<Rightarrow> execution_result option res)) list \<Rightarrow> executor" where
  "pat_execute env operations secret request =
     (case map_of operations (text_or_empty env (json_get (lit ''operation'') request)) of
        None \<Rightarrow> Inr (Some \<lparr>er_ok = False, er_code = lit ''operation_denied'', er_data = JObj []\<rparr>)
      | Some operation \<Rightarrow>
          and_then (secret_text secret) (\<lambda>text. case request of
              JObj kvs \<Rightarrow> operation text (JObj (filter (\<lambda>kv. fst kv \<noteq> lit ''credential'') kvs))
            | j \<Rightarrow> operation text j))"

section \<open>Changing\<close>

definition update_secret ::
  "vault_service \<Rightarrow> micros \<Rightarrow> entropy \<Rightarrow> pystr \<Rightarrow> pystr \<Rightarrow> int \<Rightarrow> (vault \<times> bytes, secret_metadata) op" where
  "update_secret svc now rnd token secret_id expected_version = bind (reads snd) (\<lambda>value.
     if value = [] then fail_cleared ValueErr
     else finally_clear (on_vault
       (bind (authorize svc now token secret_id VA_UPDATE) (\<lambda>(g, _).
        vault_update (vs_env svc) now (en_data_key rnd) (en_nonce1 rnd) (en_nonce2 rnd) secret_id value expected_version (vg_subject g)))))"

definition delete_secret :: "vault_service \<Rightarrow> micros \<Rightarrow> pystr \<Rightarrow> pystr \<Rightarrow> (vault, unit) op" where
  "delete_secret svc now token secret_id =
     bind (authorize svc now token secret_id VA_DELETE) (\<lambda>(g, _). vault_delete (vs_env svc) now secret_id (vg_subject g))"

definition export_payload :: "secret_metadata \<Rightarrow> bytes \<Rightarrow> json" where
  "export_payload md secret = JObj [(lit ''classification'', JStr (vault_classification_value (md_class md))),
     (lit ''id'', JStr (md_id md)), (lit ''kind'', JStr (secret_kind_value (md_kind md))), (lit ''label'', JStr (md_label md)),
     (lit ''value'', JStr (urlsafe_b64encode secret))]"

definition export_context :: "pystr \<Rightarrow> pystr" where
  "export_context secret_id = lit ''secret-export:'' @ secret_id"

definition export_encrypted :: "vault_service \<Rightarrow> micros \<Rightarrow> entropy \<Rightarrow> pystr \<Rightarrow> pystr \<Rightarrow> pystr \<Rightarrow> (vault, bytes) op" where
  "export_encrypted svc now rnd token secret_id export_passphrase =
     bind (authorize svc now token secret_id VA_EXPORT) (\<lambda>(g, _).
     bind (of_res (derive (vs_env svc) default_argon2 export_passphrase (en_salt rnd))) (\<lambda>export_key.
     bind (get_metadata (vs_env svc) secret_id) (\<lambda>md.
     bind (decrypt (vs_env svc) now secret_id) (\<lambda>secret.
     let payload = utf8_encode (json_dumps (export_payload md secret));
         envelope = JObj [(lit ''ciphertext'', JStr (seal (vs_env svc) (en_nonce1 rnd) export_key payload (export_context secret_id))),
                          (lit ''format'', JStr (lit ''zhixu-secret-export-v1'')), (lit ''salt'', JStr (urlsafe_b64encode (en_salt rnd)))]
     in seq (record_success svc now g VA_EXPORT secret_id) (ret (utf8_encode (json_dumps envelope)))))))"

definition rotate_keys :: "vault_service \<Rightarrow> micros \<Rightarrow> entropy \<Rightarrow> pystr \<Rightarrow> pystr \<Rightarrow> pystr \<Rightarrow> (vault, int) op" where
  "rotate_keys svc now rnd token secret_id passphrase =
     bind (authorize svc now token secret_id VA_ROTATE) (\<lambda>(g, _).
     bind (add_key_version (vs_env svc) now (en_master rnd) (en_nonce1 rnd) passphrase) (\<lambda>version.
     seq (rewrap_data_keys (vs_env svc) now (en_nonces rnd) version (vg_subject g)) (ret version)))"

definition grant_acl :: "vault_service \<Rightarrow> micros \<Rightarrow> pystr \<Rightarrow> pystr \<Rightarrow> pystr \<Rightarrow> vault_action \<Rightarrow> (vault, unit) op" where
  "grant_acl svc now token secret_id subject act =
     bind (authorize svc now token secret_id VA_GRANT) (\<lambda>(g, _).
       vault_grant (vs_env svc) now secret_id subject act (vg_subject g))"

section \<open>What authorization establishes\<close>

definition accepted :: "vault_service \<Rightarrow> micros \<Rightarrow> pystr \<Rightarrow> pystr \<Rightarrow> vault_action \<Rightarrow> vault \<Rightarrow> bool" where
  "accepted svc now token secret_id act s \<longleftrightarrow> is_ok (snd (verify svc now token secret_id act s))"

lemma record_access_state:
  "record_access env now actor act secret_id outcome reason s = (t, r) \<Longrightarrow>
     \<exists>rows. vdb t = (vdb s)\<lparr>vault_audit := vault_audit (vdb s) @ rows\<rparr>"
proof -
  assume a: "record_access env now actor act secret_id outcome reason s = (t, r)"
  show ?thesis
  proof (cases r)
    case (Inl e)
    then have "vdb t = vdb s" using a unfolding record_access_def by (simp add: transaction_rollback)
    then show ?thesis by (intro exI[of _ "[]"]) simp
  next
    case (Inr x)
    then show ?thesis using a append_event_state unfolding record_access_def by (simp add: transaction_Inr)
  qed
qed

lemma authorize_Inr:
  assumes "authorize svc now token secret_id act s = (t, Inr (g, md))"
  shows "verify svc now token secret_id act s = (t, Inr g)" "get_metadata (vs_env svc) secret_id t = (t, Inr md)"
    "vault_policy_require g (md_kind md) (md_class md) (md_owner md)
       (has_acl secret_id (vg_subject g) (vault_action_value act) (vdb t)) = Inr ()"
proof -
  from assms obtain u where u: "verify svc now token secret_id act s = (u, Inr g)"
    "get_metadata (vs_env svc) secret_id u = (t, Inr md)"
    "vault_policy_require g (md_kind md) (md_class md) (md_owner md)
       (has_acl secret_id (vg_subject g) (vault_action_value act) (vdb t)) = Inr ()"
    by (auto simp: authorize_def bind_Inr on_error_Inr seq_Inr op_run)
  moreover have "t = u" using u(2) by (rule get_metadata_state)
  ultimately show "verify svc now token secret_id act s = (t, Inr g)" "get_metadata (vs_env svc) secret_id t = (t, Inr md)"
    "vault_policy_require g (md_kind md) (md_class md) (md_owner md)
       (has_acl secret_id (vg_subject g) (vault_action_value act) (vdb t)) = Inr ()" by simp_all
qed

lemma verify_state:
  "verify svc now token secret_id act s = (t, r) \<Longrightarrow> \<exists>rows. t = s\<lparr>vdb := (vdb s)\<lparr>grant_nonces := grant_nonces (vdb s) @ rows\<rparr>\<rparr>"
proof -
  assume v: "verify svc now token secret_id act s = (t, r)"
  show ?thesis
  proof (cases r)
    case (Inl e)
    then have "t = s" using v by (auto simp: verify_def verify_run split: sum.split_asm option.split_asm if_split_asm)
    then show ?thesis by (intro exI[of _ "[]"]) simp
  next
    case (Inr g)
    then have "\<exists>row. t = s\<lparr>vdb := (vdb s)\<lparr>grant_nonces := grant_nonces (vdb s) @ [row]\<rparr>\<rparr>"
      using v unfolding verify_def by (auto elim: verify_Inr)
    then show ?thesis by blast
  qed
qed

lemma record_success_Inr:
  assumes "record_success svc now g act secret_id s = (t, Inr ())"
  shows "\<exists>row. vdb t = (vdb s)\<lparr>vault_audit := vault_audit (vdb s) @ [row]\<rparr>
      \<and> va_actor row = (if take 160 (vg_subject g) = [] then lit ''unknown'' else take 160 (vg_subject g))
      \<and> va_action row = take 80 (vault_action_value act) \<and> va_secret row = take 160 secret_id \<and> va_outcome row = lit ''completed''"
  using assms unfolding record_success_def record_access_def transaction_Inr
  by (auto dest!: append_event_Inr(2) simp: event_row_def lit_def)

text \<open>
  C4. A secret is revealed only to an entitled, authenticated human request: when \<open>reveal\<close> returns a
  value, the token was signed by a known issuer for this vault, secret and the action reveal, had
  not expired and its nonce had not been consumed before and is now; the vault was unsealed; the
  ACL lets the subject reveal the secret, which is a human secret, with step-up authentication,
  and only to its owner when it is stored under the level-4 override; the value is the one
  stored, no secret changed, and the log ends with the completed reveal.
\<close>

theorem reveal_guarded:
  assumes "reveal svc now token secret_id s = (t, Inr v)"
  shows "\<exists>payload issuer expires (g :: verified_grant) md.
      signed_payload (vs_env svc) (vs_issuers svc) token = Inr (payload, issuer, expires)
      \<and> bound_to (vs_env svc) (vs_audience svc) now secret_id (lit ''reveal'') payload expires
      \<and> nonce_hash (vs_env svc) payload \<notin> gn_hash ` set (grant_nonces (vdb s))
      \<and> nonce_hash (vs_env svc) payload \<in> gn_hash ` set (grant_nonces (vdb t))
      \<and> vk_keys (expire_idle now s) \<noteq> [] \<and> holds_secret (vs_env svc) s secret_id v
      \<and> secret_records (vdb t) = secret_records (vdb s)
      \<and> get_metadata (vs_env svc) secret_id s = (s, Inr md) \<and> md_kind md = KIND_HUMAN
      \<and> has_acl secret_id (vg_subject g) (lit ''reveal'') (vdb s)
      \<and> vg_subject g = json_text (vs_env svc) (json_get (lit ''subject'') payload)
      \<and> vg_authentication g = step_up \<and> (md_class md = L4_HUMAN_OVERRIDE \<longrightarrow> vg_subject g = md_owner md)
      \<and> (\<exists>row. vault_audit (vdb t) = vault_audit (vdb s) @ [row] \<and> va_action row = lit ''reveal''
          \<and> va_secret row = take 160 secret_id \<and> va_outcome row = lit ''completed'')"
proof -
  from assms obtain u g md w where a: "authorize svc now token secret_id VA_REVEAL s = (u, Inr (g, md))"
    "decrypt (vs_env svc) now secret_id u = (w, Inr v)" "record_success svc now g VA_REVEAL secret_id w = (t, Inr ())"
    unfolding reveal_def bind_Inr by (clarsimp simp: bind_Inr seq_Inr op_run)
  note au = authorize_Inr[OF a(1)]
  from au(1) obtain payload issuer expires where p: "signed_payload (vs_env svc) (vs_issuers svc) token = Inr (payload, issuer, expires)"
    "bound_to (vs_env svc) (vs_audience svc) now secret_id (lit ''reveal'') payload expires"
    "nonce_hash (vs_env svc) payload \<notin> gn_hash ` set (grant_nonces (vdb s))"
    "nonce_hash (vs_env svc) payload \<in> gn_hash ` set (grant_nonces (vdb u))"
    "vg_subject g = json_text (vs_env svc) (json_get (lit ''subject'') payload)" "vg_action g = lit ''reveal''"
    unfolding verify_def by (elim verify_Inr) simp
  obtain rows where u: "u = s\<lparr>vdb := (vdb s)\<lparr>grant_nonces := grant_nonces (vdb s) @ rows\<rparr>\<rparr>"
    using verify_state[OF au(1)] by blast
  have ex: "vk_keys (expire_idle now u) = vk_keys (expire_idle now s)"
    unfolding u by (simp add: expire_idle_def lock_def split: option.split)
  have h: "vk_keys (expire_idle now s) \<noteq> []" "holds_secret (vs_env svc) s secret_id v" and w: "vdb w = vdb u"
    using a(2) ex unfolding decrypt_Inr by (auto simp: holds_secret_def u split: option.splits)
  have md: "get_metadata (vs_env svc) secret_id s = (s, Inr md)"
  proof -
    have same: "metadata_of (vs_env svc) (vdb u) r = metadata_of (vs_env svc) (vdb s) r" for r
      by (simp add: metadata_of_def find_override_def u)
    have "find_row sr_id secret_id (secret_records (vdb u)) = find_row sr_id secret_id (secret_records (vdb s))" by (simp add: u)
    then show ?thesis
      using au(2) by (cases "find_row sr_id secret_id (secret_records (vdb s))") (simp_all add: get_metadata_def op_simps same)
  qed
  have pol: "has_acl secret_id (vg_subject g) (lit ''reveal'') (vdb u)" "md_kind md = KIND_HUMAN" "vg_authentication g = step_up"
    "md_class md = L4_HUMAN_OVERRIDE \<longrightarrow> vg_subject g = md_owner md"
    using au(3) p(6) vault_action_round_trip[of VA_REVEAL]
    by (simp_all add: vault_policy_require_def rethrow_def guarded_Inr split: if_splits)
  have acl: "has_acl secret_id (vg_subject g) (lit ''reveal'') (vdb s)" using pol(1) by (simp add: u has_acl_def)
  have log: "\<exists>row. vault_audit (vdb t) = vault_audit (vdb s) @ [row] \<and> va_action row = lit ''reveal''
          \<and> va_secret row = take 160 secret_id \<and> va_outcome row = lit ''completed''"
    and recs: "secret_records (vdb t) = secret_records (vdb s)" and "grant_nonces (vdb t) = grant_nonces (vdb u)"
    using record_success_Inr[OF a(3)] w by (auto simp: u lit_def)
  then have consumed: "nonce_hash (vs_env svc) payload \<in> gn_hash ` set (grant_nonces (vdb t))" using p(4) by simp
  show ?thesis
    by (intro exI[of _ payload] exI[of _ issuer] exI[of _ expires] exI[of _ g] exI[of _ md] conjI) (fact p h md pol acl log recs consumed)+
qed

section \<open>The echo check\<close>

text \<open>Some string in the value, a key included, contains the text.\<close>

fun json_mentions :: "pystr \<Rightarrow> json \<Rightarrow> bool" where
  "json_mentions t (JStr s) = py_contains t s"
| "json_mentions t (JArr xs) = list_ex (json_mentions t) xs"
| "json_mentions t (JObj kvs) = list_ex (\<lambda>(k, v). py_contains t k \<or> json_mentions t v) kvs"
| "json_mentions t _ = False"

text \<open>The characters the serialization writes as themselves.\<close>

definition plain_char :: "nat \<Rightarrow> bool" where
  "plain_char c \<longleftrightarrow> 32 \<le> c \<and> c \<noteq> 34 \<and> c \<noteq> 92"

lemma py_contains_iff: "py_contains n s \<longleftrightarrow> (\<exists>a b. s = a @ n @ b)"
proof (induction s)
  case Nil
  then show ?case by auto
next
  case (Cons c s)
  have "take (length n) (c # s) = n \<longleftrightarrow> (\<exists>b. c # s = n @ b)"
    by (metis append_eq_conv_conj append_take_drop_id)
  moreover have "(\<exists>a b. s = a @ n @ b) \<longleftrightarrow> (\<exists>a b. c # s = (c # a) @ n @ b)" by simp
  ultimately show ?case
    unfolding py_contains.simps Cons by (metis append_Cons append_Nil list.inject neq_Nil_conv)
qed

lemma py_contains_trans: "py_contains a b \<Longrightarrow> py_contains b c \<Longrightarrow> py_contains a c"
  unfolding py_contains_iff by (metis append.assoc)

lemma py_contains_append: "py_contains n b \<Longrightarrow> py_contains n (a @ b @ c)"
  unfolding py_contains_iff by (metis append.assoc)

lemma py_contains_refl [simp]: "py_contains x x"
  unfolding py_contains_iff by (metis append_Nil append_Nil2)

lemma py_contains_join: "x \<in> set xs \<Longrightarrow> py_contains x (py_join sep xs)"
proof (induction sep xs rule: py_join.induct)
  case (1 sep)
  then show ?case by simp
next
  case (2 sep y)
  then show ?case by simp
next
  case (3 sep y z zs)
  show ?case
  proof (cases "x = y")
    case True
    then show ?thesis using py_contains_append[of x y "[]" "sep @ py_join sep (z # zs)"] by simp
  next
    case False
    then have "py_contains x (py_join sep (z # zs))" using 3 by auto
    then show ?thesis using py_contains_append[of x _ "y @ sep" "[]"] by simp
  qed
qed

lemma quoted_plain: "list_all plain_char t \<Longrightarrow> py_contains t s \<Longrightarrow> py_contains t (json_quote_unicode s)"
proof -
  assume t: "list_all plain_char t" and "py_contains t s"
  then obtain a b where s: "s = a @ t @ b" by (auto simp: py_contains_iff)
  have "concat (map json_char_unicode t) = t"
    using t by (induction t) (auto simp: json_char_unicode_def plain_char_def)
  then have "json_quote_unicode s = ([34] @ concat (map json_char_unicode a)) @ t @ (concat (map json_char_unicode b) @ [34])"
    by (simp add: json_quote_unicode_def s)
  then show ?thesis unfolding py_contains_iff by blast
qed

lemma serialized_mentions:
  "list_all plain_char t \<Longrightarrow> json_mentions t j \<Longrightarrow> py_contains t (json_dumps_unicode j)"
proof (induction t j rule: json_mentions.induct)
  case (1 t s)
  then show ?case by (simp add: quoted_plain)
next
  case (2 t xs)
  then obtain x where x: "x \<in> set xs" "json_mentions t x" by (auto simp: list_ex_iff)
  then have "py_contains t (json_dumps_unicode x)" using 2 by blast
  moreover have "py_contains (json_dumps_unicode x) (py_join (lit '', '') (map json_dumps_unicode xs))"
    using x(1) by (intro py_contains_join) simp
  ultimately show ?case using py_contains_trans py_contains_append[of t _ "[91]" "[93]"] by fastforce
next
  case (3 t kvs)
  then obtain k v where kv: "(k, v) \<in> set kvs" "py_contains t k \<or> json_mentions t v" by (auto simp: list_ex_iff)
  let ?m = "json_quote_unicode k @ lit '': '' @ json_dumps_unicode v"
  have "py_contains t ?m"
    using kv(2)
  proof
    assume "py_contains t k"
    then have "py_contains t (json_quote_unicode k)" by (rule quoted_plain[OF 3(2)])
    then show ?thesis using py_contains_append[of t _ "[]"] by simp
  next
    assume "json_mentions t v"
    then have "py_contains t (json_dumps_unicode v)" using 3(1)[OF kv(1) refl 3(2)] by blast
    then show ?thesis using py_contains_append[of t _ "json_quote_unicode k @ lit '': ''" "[]"] by simp
  qed
  moreover have "py_contains ?m (py_join (lit '', '') (map (\<lambda>(k, v). json_quote_unicode k @ lit '': '' @ json_dumps_unicode v) kvs))"
    using kv(1) by (intro py_contains_join) force
  ultimately show ?case using py_contains_trans py_contains_append[of t _ "[123]" "[125]"] by fastforce
qed simp_all

text \<open>
  The echo check stops every verbatim echo of a secret without quotes, backslashes and control
  characters: when \<open>use\<close> returns a result for such a secret, neither its code nor any string or
  key in its data contains the secret's text.
\<close>

lemma use_does_not_echo:
  assumes "use svc now token secret_id executor_name request s = (t, Inr r)"
    and "holds_secret (vs_env svc) s secret_id (utf8_encode text)"
    and "list_all scalar text" "list_all plain_char text" "text \<noteq> []"
  shows "\<not> py_contains text (er_code r) \<and> \<not> json_mentions text (er_data r)"
proof -
  from assms(1) obtain u g md where a: "authorize svc now token secret_id VA_USE s = (u, Inr (g, md))"
    and rest: "(case map_of (vs_executors svc) executor_name of
       None \<Rightarrow> seq (writes (record_denial svc now (vg_subject g) VA_USE secret_id (lit ''executor_unavailable''))) (throw KeyErr)
     | Some execute \<Rightarrow>
         bind (decrypt (vs_env svc) now secret_id) (\<lambda>secret.
         bind (of_res (execute secret request)) (\<lambda>result.
         case result of None \<Rightarrow> throw TypeErr
         | Some r \<Rightarrow>
             bind (of_res (secret_text secret)) (\<lambda>text.
             if echo_blocked text r
             then seq (writes (record_denial svc now (vg_subject g) VA_USE secret_id (lit ''secret_echo_blocked''))) (throw PermissionErr)
             else seq (record_success svc now g VA_USE secret_id) (ret r))))) u = (t, Inr r)"
    unfolding use_def bind_Inr[of "authorize svc now token secret_id VA_USE"] by auto
  obtain rows where u: "u = s\<lparr>vdb := (vdb s)\<lparr>grant_nonces := grant_nonces (vdb s) @ rows\<rparr>\<rparr>"
    using verify_state[OF authorize_Inr(1)[OF a]] by blast
  from rest obtain secret w where d: "decrypt (vs_env svc) now secret_id u = (w, Inr secret)"
    "\<exists>txt. secret_text secret = Inr txt \<and> \<not> echo_blocked txt r"
    by (auto simp: bind_Inr seq_Inr op_run split: option.splits if_splits)
  have "holds_secret (vs_env svc) s secret_id secret"
    using d(1) unfolding decrypt_Inr by (auto simp: holds_secret_def u split: option.splits)
  then have "secret = utf8_encode text"
    using assms(2) by (auto simp: holds_secret_def opens_to_def split: option.splits sum.splits)
  then have nb: "\<not> echo_blocked text r"
    using d(2) utf8_round_trip[OF assms(3)] by (simp add: secret_text_def)
  let ?j = "JObj [(lit ''code'', JStr (er_code r)), (lit ''data'', er_data r)]"
  have "py_contains text (er_code r) \<or> json_mentions text (er_data r) \<Longrightarrow> json_mentions text ?j" by auto
  then show ?thesis
    using nb serialized_mentions[OF assms(4), of ?j] assms(5) by (auto simp: echo_blocked_def serialized_result_def)
qed

text \<open>
  The echo check compares with escaped JSON text: a result whose code is a secret with a quotation
  mark in it is not blocked.
\<close>

lemma escaped_echo_not_blocked:
  "let secret = lit ''pass\"word''; r = \<lparr>er_ok = True, er_code = secret, er_data = JObj []\<rparr>
   in py_contains secret (er_code r) \<and> \<not> echo_blocked secret r"
  by (simp add: Let_def echo_blocked_def serialized_result_def json_quote_unicode_def json_char_unicode_def lit_def)

section \<open>Buffers\<close>

lemma clear_idem [simp]: "clear (clear b) = clear b"
  by (simp add: clear_def)

lemma on_vault_buffer: "on_vault m st = (st', r) \<Longrightarrow> snd st' = snd st"
  by (auto simp: on_vault_def split: prod.splits)

lemma fail_cleared_run [simp]: "fail_cleared e st = (clear_buffer st, Inl e)"
  by (simp add: fail_cleared_def op_simps)

lemma finally_clear_buffer: "snd (fst (finally_clear (on_vault m) st)) = clear (snd st)"
  by (auto simp: finally_clear_def clear_buffer_def on_vault_def split: prod.splits)

lemma create_secret_clears:
  "snd (fst (create_secret svc now rnd secret_id owner label kind auth cls override st)) = clear (snd st)"
  unfolding create_secret_def bind_simple Let_def
  by (simp add: finally_clear_buffer clear_buffer_def)

lemma on_error_fst: "fst (on_error m h st) = (if is_ok (snd (m st)) then fst (m st) else h (fst (m st)))"
  by (auto simp: on_error_def split: prod.splits sum.splits)

text \<open>
  No call leaves a plaintext in the caller's buffer: whatever \<open>create_with_grant\<close> and
  \<open>update_secret\<close> return or raise, at any guard, the buffer they were handed holds zeros.
\<close>

lemma buffers_are_cleared:
  "snd (fst (create_with_grant svc now rnd token secret_id owner label kind cls override (s, b))) = replicate (length b) 0
   \<and> snd (fst (update_secret svc now rnd token secret_id expected (s, b))) = replicate (length b) 0"
proof
  have c: "clear b = replicate (length b) 0" by (simp add: clear_def map_replicate_const)
  show "snd (fst (update_secret svc now rnd token secret_id expected (s, b))) = replicate (length b) 0"
    unfolding update_secret_def bind_simple using c
    by (cases "b = []") (simp_all add: finally_clear_buffer clear_buffer_def)
  obtain t r where v: "on_vault (verify svc now token secret_id VA_CREATE) (s, b) = ((t, b), r)"
    by (cases "verify svc now token secret_id VA_CREATE s") (simp add: on_vault_def)
  show "snd (fst (create_with_grant svc now rnd token secret_id owner label kind cls override (s, b))) = replicate (length b) 0"
  proof (cases r)
    case (Inl e)
    then show ?thesis using v c by (simp add: create_with_grant_def bind_def on_error_def clear_buffer_def)
  next
    case (Inr g)
    let ?m = "seq (check (vg_subject g \<noteq> owner \<or> vg_authentication g \<noteq> step_up) PermissionErr)
            (create_secret svc now rnd secret_id owner label kind (vg_authentication g) cls override)"
    have "is_ok (snd (?m (t, b))) \<Longrightarrow> snd (fst (?m (t, b))) = clear b" "clear (snd (fst (?m (t, b)))) = clear b"
      by (auto simp: op_simps create_secret_clears)
    then show ?thesis
      using v Inr c by (simp add: create_with_grant_def bind_def on_error_def[of "on_vault _"] on_error_fst clear_buffer_def)
  qed
qed

section \<open>Examples\<close>

text \<open>An unsealed vault with one secret, of three letters, that its owner may reveal or an executor use.\<close>

definition sample_secret :: "vault_env \<Rightarrow> secret_kind \<Rightarrow> secret_record" where
  "sample_secret env kind = \<lparr>sr_id = lit ''s'', sr_owner = lit ''u'', sr_label = lit ''label'', sr_kind = kind,
     sr_class = (if kind = KIND_HUMAN then HUMAN_SECRET else MACHINE_SECRET),
     sr_ciphertext = seal env (replicate 12 6) (replicate 32 4) (utf8_encode (lit ''key'')) (secret_value_context (lit ''s'') 1),
     sr_wrapped = seal env (replicate 12 7) (replicate 32 1) (replicate 32 4) (data_key_context (lit ''s'') 1),
     sr_key_version = 1, sr_version = 1, sr_created = isoformat_utc 0, sr_updated = isoformat_utc 0\<rparr>"

definition secret_vault :: "vault_env \<Rightarrow> secret_kind \<Rightarrow> pystr \<Rightarrow> vault" where
  "secret_vault env kind act = \<lparr>vdb = empty_vault_database\<lparr>secret_records := [sample_secret env kind],
       secret_acl := [\<lparr>acl_secret = lit ''s'', acl_subject = lit ''u'', acl_action = act, acl_created = isoformat_utc 0\<rparr>]\<rparr>,
     vk_keys = [(1, replicate 32 1)], vk_last_used = Some 0, vk_parameters = default_argon2, vk_idle_timeout = 600000000\<rparr>"

definition sample_service :: "pystr \<Rightarrow> vault_service" where
  "sample_service act = \<lparr>vs_env = grant_env act, vs_issuers = [(lit ''app'', [1])], vs_audience = lit ''zhixu-vault'',
     vs_executors = [(lit ''echo'', pat_execute (grant_env act) [(lit ''ping'', \<lambda>text request.
        Inr (Some \<lparr>er_ok = True, er_code = lit ''done'', er_data = request\<rparr>))])]\<rparr>"

lemma grant_env_correct: "aead_correct (grant_env act)"
  using sample_env_correct by (simp add: aead_correct_def grant_env_def)

lemma secret_vault_holds: "holds_secret (grant_env act) (secret_vault (grant_env act) kind act) (lit ''s'') (utf8_encode (lit ''key''))"
proof -
  have "opens_to (grant_env act) [(1, replicate 32 1)] (sample_secret (grant_env act) kind) (utf8_encode (lit ''key''))"
    by (rule opens_to_sealed[OF grant_env_correct sample_bytes(1-6)])
      (simp_all add: sample_secret_def lit_def utf8_encode_def utf8_char_def)
  moreover have "sr_id (sample_secret (grant_env act) kind) = lit ''s''" by (simp add: sample_secret_def)
  ultimately show ?thesis by (simp add: holds_secret_def secret_vault_def find_row_def)
qed

text \<open>The owner's step-up token for the action is accepted and lets it proceed to the secret.\<close>

lemma sample_authorized:
  assumes "(kind = KIND_HUMAN \<and> a = VA_REVEAL) \<or> (kind = KIND_MACHINE \<and> a = VA_USE)" "act = vault_action_value a"
  obtains t g md where
    "authorize (sample_service act) 5 (sample_token act) (lit ''s'') a (secret_vault (grant_env act) kind act) = (t, Inr (g, md))"
    "holds_secret (grant_env act) t (lit ''s'') (utf8_encode (lit ''key''))" "vk_keys t \<noteq> []" "vk_last_used t = Some 0"
    "vk_idle_timeout t = 600000000" "vault_audit (vdb t) = []"
proof -
  let ?s = "secret_vault (grant_env act) kind act"
  have "grant_nonces (vdb ?s) = []" by (simp add: secret_vault_def empty_vault_database_def)
  then obtain t g where g: "verify_and_consume (grant_env act) [(lit ''app'', [1])] (lit ''zhixu-vault'') 5 (sample_token act)
       (lit ''s'') act ?s = (t, Inr g)" "vg_subject g = lit ''u''" "vg_authentication g = step_up"
    by (rule sample_accepted)
  have v: "verify (sample_service act) 5 (sample_token act) (lit ''s'') a ?s = (t, Inr g)"
    using g(1) assms(2) by (simp add: verify_def sample_service_def)
  then obtain rows where t: "t = ?s\<lparr>vdb := (vdb ?s)\<lparr>grant_nonces := grant_nonces (vdb ?s) @ rows\<rparr>\<rparr>" using verify_state by blast
  have act: "vg_action g = act" using g(1) by (rule verify_Inr) simp
  have "find_row sr_id (lit ''s'') [sample_secret (grant_env act) kind] = Some (sample_secret (grant_env act) kind)"
    by (simp add: find_row_def sample_secret_def)
  moreover have "fromisoformat (grant_env act) (isoformat_utc 0) = Inr (utc 0)" by (rule grant_env_iso) (simp add: in_range_def)
  ultimately obtain md where md: "get_metadata (grant_env act) (lit ''s'') t = (t, Inr md)" "md_kind md = kind"
    "md_class md \<noteq> L4_HUMAN_OVERRIDE"
    by (simp add: get_metadata_def op_simps t secret_vault_def empty_vault_database_def metadata_of_def find_override_def
        find_row_def[of po_secret] sample_secret_def)
  have "has_acl (lit ''s'') (lit ''u'') act (vdb t)" by (simp add: t has_acl_def secret_vault_def empty_vault_database_def)
  then have "vault_policy_require g (md_kind md) (md_class md) (md_owner md) (has_acl (lit ''s'') (vg_subject g) act (vdb t)) = Inr ()"
    using assms g(2,3) md act by (auto simp: vault_policy_require_def rethrow_def guarded_def)
  then have "authorize (sample_service act) 5 (sample_token act) (lit ''s'') a ?s = (t, Inr (g, md))"
    using v md(1) assms(2) unfolding authorize_def bind_Inr on_error_Inr
    by (auto simp: sample_service_def seq_Inr op_run bind_Inr)
  moreover have "holds_secret (grant_env act) t (lit ''s'') (utf8_encode (lit ''key''))"
    using secret_vault_holds[of act kind] by (simp add: holds_secret_def t split: option.splits)
  ultimately show thesis by (rule that) (simp_all add: t secret_vault_def empty_vault_database_def)
qed

lemma record_success_first:
  assumes "vk_keys s \<noteq> []" "vk_last_used s = Some x" "now - x < vk_idle_timeout s" "vault_audit (vdb s) = []"
  obtains t where "record_success svc now g act secret_id s = (t, Inr ())"
proof -
  have "vk_keys (expire_idle now s) \<noteq> []" using assms by (simp add: expire_within)
  from append_event_first[OF this assms(4)] show thesis
    using that unfolding record_success_def record_access_def transaction_Inr by blast
qed

theorem reveal_guarded_witness:
  "\<exists>t. reveal (sample_service (lit ''reveal'')) 5 (sample_token (lit ''reveal'')) (lit ''s'')
       (secret_vault (grant_env (lit ''reveal'')) KIND_HUMAN (lit ''reveal'')) = (t, Inr (utf8_encode (lit ''key'')))
     \<and> (\<exists>row. vault_audit (vdb t) = [row] \<and> va_outcome row = lit ''completed'')"
proof -
  let ?act = "lit ''reveal''"
  let ?s = "secret_vault (grant_env ?act) KIND_HUMAN ?act"
  have "(KIND_HUMAN = KIND_HUMAN \<and> VA_REVEAL = VA_REVEAL) \<or> (KIND_HUMAN = KIND_MACHINE \<and> VA_REVEAL = VA_USE)"
    "?act = vault_action_value VA_REVEAL" by simp_all
  then obtain t g md where a: "authorize (sample_service ?act) 5 (sample_token ?act) (lit ''s'') VA_REVEAL ?s = (t, Inr (g, md))"
    "holds_secret (grant_env ?act) t (lit ''s'') (utf8_encode (lit ''key''))" "vk_keys t \<noteq> []" "vk_last_used t = Some 0"
    "vk_idle_timeout t = 600000000" "vault_audit (vdb t) = []" by (rule sample_authorized)
  have d: "decrypt (grant_env ?act) 5 (lit ''s'') t = (t\<lparr>vk_last_used := Some 5\<rparr>, Inr (utf8_encode (lit ''key'')))"
    by (rule decrypt_run[OF a(2,3,4)]) (simp add: a(5))
  obtain u where "record_success (sample_service ?act) 5 g VA_REVEAL (lit ''s'') (t\<lparr>vk_last_used := Some 5\<rparr>) = (u, Inr ())"
    by (rule record_success_first[of "t\<lparr>vk_last_used := Some 5\<rparr>" 5 5]) (use a in simp_all)
  then have r: "reveal (sample_service ?act) 5 (sample_token ?act) (lit ''s'') ?s = (u, Inr (utf8_encode (lit ''key'')))"
    using a(1) d by (simp add: reveal_def bind_def seq_def op_run sample_service_def)
  have "vault_audit (vdb ?s) = []" by (simp add: secret_vault_def empty_vault_database_def)
  with reveal_guarded[OF r] r show ?thesis by auto
qed

end
