(* ===== verification/VaultHistory.thy ===== *)
theory VaultHistory
  imports VaultService
begin

text \<open>
  Histories of the vault: the step relation of the service's methods and of the keyring, and what
  holds along every history. The locale \<open>vault_frame\<close> states what a relation between the tables
  before and after must satisfy so that every operation keeps it; it is interpreted for the
  consumed nonces and for the audit log.
\<close>

definition framed :: "(vault_database \<Rightarrow> vault_database \<Rightarrow> bool) \<Rightarrow> vault \<Rightarrow> vault \<Rightarrow> bool" where
  "framed Q s t \<longleftrightarrow> Q (vdb s) (vdb t)"

section \<open>Steps\<close>

inductive vault_step :: "vault_service \<Rightarrow> vault \<Rightarrow> vault \<Rightarrow> bool" for svc where
  create: "vault_step svc s (fst (fst (create_with_grant svc now rnd token secret_id owner label kind cls override (s, b))))"
| list_owned: "vault_step svc s (fst (list_owned_metadata svc now token s))"
| list_one: "vault_step svc s (fst (list_secret_metadata svc now token secret_id s))"
| reveal: "vault_step svc s (fst (reveal svc now token secret_id s))"
| use: "vault_step svc s (fst (use svc now token secret_id executor_name request s))"
| update: "vault_step svc s (fst (fst (update_secret svc now rnd token secret_id expected (s, b))))"
| delete: "vault_step svc s (fst (delete_secret svc now token secret_id s))"
| export: "vault_step svc s (fst (export_encrypted svc now rnd token secret_id passphrase s))"
| rotate: "vault_step svc s (fst (rotate_keys svc now rnd token secret_id passphrase s))"
| grant: "vault_step svc s (fst (grant_acl svc now token secret_id subject act s))"
| status: "vault_step svc s (fst (sealed now s))"
| lock: "vault_step svc s (lock s)"
| unlock: "vault_step svc s (fst (unlock (vs_env svc) now passphrase s))"
| change: "vault_step svc s (fst (change_passphrase (vs_env svc) now salt nonces passphrase new_passphrase s))"

abbreviation vault_history :: "vault_service \<Rightarrow> vault \<Rightarrow> vault \<Rightarrow> bool" where
  "vault_history svc \<equiv> (vault_step svc)\<^sup>*\<^sup>*"

section \<open>Relations every operation keeps\<close>

lemma keeps_case_prod: "(\<And>a b. p = (a, b) \<Longrightarrow> keeps R (f a b)) \<Longrightarrow> keeps R (case p of (a, b) \<Rightarrow> f a b)"
  by (cases p) simp

lemma keeps_case_option:
  "keeps R m \<Longrightarrow> (\<And>x. keeps R (f x)) \<Longrightarrow> keeps R (case v of None \<Rightarrow> m | Some x \<Rightarrow> f x)"
  by (cases v) simp_all

lemma keeps_if: "keeps R m \<Longrightarrow> keeps R n \<Longrightarrow> keeps R (if b then m else n)"
  by simp

lemma keeps_Let: "(\<And>x. keeps R (f x)) \<Longrightarrow> keeps R (Let v f)"
  by simp

locale vault_frame =
  fixes Q :: "vault_database \<Rightarrow> vault_database \<Rightarrow> bool"
  assumes frame_trans: "Q a b \<Longrightarrow> Q b c \<Longrightarrow> Q a c"
    and frame_audit: "Q d (d\<lparr>vault_audit := vault_audit d @ rows\<rparr>)"
    and frame_nonces: "Q d (d\<lparr>grant_nonces := grant_nonces d @ consumed\<rparr>)"
    and frame_other: "vault_audit d' = vault_audit d \<Longrightarrow> grant_nonces d' = grant_nonces d \<Longrightarrow> Q d d'"
begin

lemma frame_order: "reflp (framed Q)" "transp (framed Q)"
  using frame_other frame_trans by (auto simp: reflp_def transp_def framed_def)

lemma frame_keyring: "(\<And>s. vdb (fst (m s)) = vdb s) \<Longrightarrow> keeps (framed Q) m"
  using frame_other by (simp add: keeps_def framed_def)

lemma frame_transaction: "keeps (framed Q) m \<Longrightarrow> keeps (framed Q) (transaction m)"
  unfolding transaction_def by (rule keeps_atomically) (auto simp: framed_def frame_other)

lemma frame_on_db: "(\<And>d. Q d (f d)) \<Longrightarrow> keeps (framed Q) (on_db f)"
  by (simp add: keeps_def framed_def on_db_run)

lemmas frame_rules =
  keeps_pure[OF frame_order(1)] keeps_bind[OF frame_order(2)] keeps_seq[OF frame_order(2)]
  keeps_each[OF frame_order] frame_transaction keeps_case_prod keeps_case_option keeps_if keeps_Let

lemma vdb_kept: "(\<And>s t r. m s = (t, r) \<Longrightarrow> vdb t = vdb s) \<Longrightarrow> keeps (framed Q) m"
  by (rule frame_keyring) (metis prod.collapse)

lemma frame_parts:
  "keeps (framed Q) (sealed now)" "keeps (framed Q) (require_unsealed now)"
  "keeps (framed Q) (keyring_key now v)" "keeps (framed Q) (active now)" "keeps (framed Q) (audit_key env now touch)"
  "keeps (framed Q) (decrypt env now secret_id)" "keeps (framed Q) (get_metadata env secret_id)" "keeps (framed Q) (list_metadata env owner)"
proof -
  show "keeps (framed Q) (sealed now)" "keeps (framed Q) (require_unsealed now)"
    by (rule frame_keyring; simp add: op_simps)+
  show "keeps (framed Q) (keyring_key now v)" by (rule vdb_kept) (simp add: keyring_key_state)
  show "keeps (framed Q) (active now)" by (rule vdb_kept) (rule active_state)
  show "keeps (framed Q) (audit_key env now touch)" by (rule vdb_kept) (rule audit_key_state)
  show "keeps (framed Q) (decrypt env now secret_id)" by (rule vdb_kept) (rule decrypt_state)
  show "keeps (framed Q) (get_metadata env secret_id)" by (rule vdb_kept) (drule get_metadata_state, simp)
  show "keeps (framed Q) (list_metadata env owner)" by (rule frame_keyring) (simp add: list_metadata_def op_simps)
qed

lemma frame_log:
  "keeps (framed Q) (append_event env now actor act secret_id outcome reason)"
  "keeps (framed Q) (record_access env now actor act secret_id outcome reason)"
  "keeps (framed Q) (record_success svc now g a secret_id)" "framed Q s (record_denial svc now actor a secret_id reason s)"
proof -
  show "keeps (framed Q) (append_event env now actor act secret_id outcome reason)"
    for env now actor act secret_id outcome reason
    unfolding keeps_def framed_def
  proof
    fix s
    obtain t r where t: "append_event env now actor act secret_id outcome reason s = (t, r)" by fastforce
    from append_event_state[OF t] frame_audit[of "vdb s"]
    show "Q (vdb s) (vdb (fst (append_event env now actor act secret_id outcome reason s)))" by (auto simp: t)
  qed
  then show access: "keeps (framed Q) (record_access env now actor act secret_id outcome reason)"
    for env now actor act secret_id outcome reason
    unfolding record_access_def by (rule frame_transaction)
  show "keeps (framed Q) (record_success svc now g a secret_id)" unfolding record_success_def by (rule access)
  show "framed Q s (record_denial svc now actor a secret_id reason s)"
    using access unfolding record_denial_def keeps_def by blast
qed

lemma frame_verify: "keeps (framed Q) (verify svc now token secret_id act)"
  unfolding keeps_def framed_def
proof
  fix s
  obtain t r where t: "verify svc now token secret_id act s = (t, r)" by fastforce
  from verify_state[OF t] frame_nonces[of "vdb s"] show "Q (vdb s) (vdb (fst (verify svc now token secret_id act s)))"
    by (auto simp: t)
qed

lemma frame_inserts:
  "keeps (framed Q) (insert_record r)" "keeps (framed Q) (insert_override o1)" "keeps (framed Q) (insert_acl a)"
  by (auto simp: keeps_def framed_def insert_record_run insert_override_run insert_acl_run intro: frame_other)

lemma frame_repository:
  "keeps (framed Q) (vault_create env now dk n1 n2 secret_id owner label kind c override v actor)"
  "keeps (framed Q) (vault_update env now dk n1 n2 secret_id v expected actor)"
  "keeps (framed Q) (vault_delete env now secret_id actor)" "keeps (framed Q) (vault_grant env now secret_id subject act actor)"
  "keeps (framed Q) (rewrap_data_keys env now nonces version actor)"
  unfolding vault_create_def vault_update_def replace_value_def vault_delete_def vault_grant_def rewrap_data_keys_def rewrap_row_def
  by (intro frame_rules frame_parts frame_log frame_inserts frame_on_db frame_other; simp add: delete_cascade_def)+

lemma frame_authorize: "keeps (framed Q) (authorize svc now token secret_id act)"
  unfolding authorize_def
  by (intro frame_rules keeps_on_error[OF frame_order(2)] frame_parts frame_log frame_verify)

lemma frame_keys:
  "keeps (framed Q) (unlock env now passphrase)" "keeps (framed Q) (add_key_version env now master nonce passphrase)"
  "keeps (framed Q) (change_passphrase env now salt nonces_by_version passphrase new_passphrase)"
  unfolding unlock_def add_key_version_def change_passphrase_def
  by (intro frame_rules frame_parts frame_on_db frame_other keeps_writes;
      simp add: framed_def frame_other install_keys_def)+

lemma frame_service:
  "keeps (framed Q) (list_owned_metadata svc now token)" "keeps (framed Q) (list_secret_metadata svc now token secret_id)"
  "keeps (framed Q) (reveal svc now token secret_id)" "keeps (framed Q) (use svc now token secret_id executor_name request)"
  "keeps (framed Q) (delete_secret svc now token secret_id)" "keeps (framed Q) (export_encrypted svc now rnd token secret_id passphrase)"
  "keeps (framed Q) (rotate_keys svc now rnd token secret_id passphrase)" "keeps (framed Q) (grant_acl svc now token secret_id subject act)"
  unfolding list_owned_metadata_def list_secret_metadata_def reveal_def use_def delete_secret_def export_encrypted_def rotate_keys_def grant_acl_def
  by (intro frame_rules keeps_on_error[OF frame_order(2)] keeps_writes frame_parts frame_log frame_verify frame_authorize
      frame_repository frame_keys)+

lemma frame_buffered:
  assumes "keeps (framed Q) m"
  shows "framed Q s (fst (fst (on_vault m (s, b))))" "framed Q s (fst (fst (finally_clear (on_vault m) (s, b))))"
  using assms by (auto simp: on_vault_def finally_clear_def clear_buffer_def keeps_def split: prod.splits) (metis fst_conv)+

lemma frame_update: "framed Q s (fst (fst (update_secret svc now rnd token secret_id expected (s, b))))"
proof -
  have "keeps (framed Q) (bind (authorize svc now token secret_id VA_UPDATE) (\<lambda>(g, _).
        vault_update (vs_env svc) now (en_data_key rnd) (en_nonce1 rnd) (en_nonce2 rnd) secret_id b expected (vg_subject g)))"
    by (intro frame_rules frame_authorize frame_repository)
  from frame_buffered(2)[OF this] show ?thesis
    unfolding update_secret_def bind_simple
    by (cases "b = []") (simp_all add: clear_buffer_def framed_def frame_other)
qed

lemma frame_create_secret: "framed Q s (fst (fst (create_secret svc now rnd secret_id owner label kind auth cls override (s, b))))"
  unfolding create_secret_def bind_simple Let_def
  using frame_buffered(2)[OF frame_repository(1)] by (simp add: clear_buffer_def framed_def frame_other)

lemma frame_create: "framed Q s (fst (fst (create_with_grant svc now rnd token secret_id owner label kind cls override (s, b))))"
proof -
  obtain t r where v: "verify svc now token secret_id VA_CREATE s = (t, r)" by fastforce
  then have st: "framed Q s t" using frame_verify by (rule keepsD[rotated])
  show ?thesis
  proof (cases r)
    case (Inl e)
    have "framed Q t (record_denial svc now (lit ''unknown'') VA_CREATE secret_id authorization_denied t)" by (rule frame_log(4))
    with st have "framed Q s (record_denial svc now (lit ''unknown'') VA_CREATE secret_id authorization_denied t)"
      by (meson frame_order(2) transpD)
    then show ?thesis using v Inl by (simp add: create_with_grant_def bind_def on_error_def on_vault_def clear_buffer_def)
  next
    case (Inr g)
    let ?m = "seq (check (vg_subject g \<noteq> owner \<or> vg_authentication g \<noteq> step_up) PermissionErr)
            (create_secret svc now rnd secret_id owner label kind (vg_authentication g) cls override)"
    obtain u b' r' where m: "?m (t, b) = ((u, b'), r')" by (metis prod.exhaust)
    have "framed Q t (fst (fst (?m (t, b))))"
      using frame_create_secret[of t] frame_order(1) by (auto simp: op_simps reflp_def)
    then have su: "framed Q s u" using m st by (simp) (meson frame_order(2) transpD)
    then have "framed Q s (record_denial svc now (vg_subject g) VA_CREATE secret_id authorization_denied u)"
      using frame_log(4)[of u] by (meson frame_order(2) transpD)
    with su m v Inr show ?thesis
      by (cases r') (simp_all add: create_with_grant_def bind_def on_error_def on_vault_def clear_buffer_def)
  qed
qed

lemma frame_step:
  assumes "vault_step svc s t"
  shows "Q (vdb s) (vdb t)"
  using assms
proof cases
  case (create now rnd token secret_id owner label kind cls override b)
  then show ?thesis using frame_create by (simp add: framed_def)
next
  case (update now rnd token secret_id expected b)
  then show ?thesis using frame_update by (simp add: framed_def)
next
  case lock
  then show ?thesis by (simp add: frame_other)
qed (use frame_service frame_keys frame_parts(1) in \<open>auto simp: keeps_def framed_def\<close>)

lemma frame_history: "vault_history svc s t \<Longrightarrow> Q (vdb s) (vdb t)"
  by (induction rule: rtranclp_induct) (auto intro: frame_other frame_step frame_trans)

end

section \<open>Consumed nonces stay consumed and the log only grows\<close>

definition nonces_grow :: "vault_database \<Rightarrow> vault_database \<Rightarrow> bool" where
  "nonces_grow d d' \<longleftrightarrow> gn_hash ` set (grant_nonces d) \<subseteq> gn_hash ` set (grant_nonces d')"

definition log_grows :: "vault_database \<Rightarrow> vault_database \<Rightarrow> bool" where
  "log_grows d d' \<longleftrightarrow> (\<exists>rows. vault_audit d' = vault_audit d @ rows)"

interpretation consumed: vault_frame nonces_grow
  by unfold_locales (auto simp: nonces_grow_def)

interpretation logged: vault_frame log_grows
  by unfold_locales (auto simp: log_grows_def)





end
