(* ===== verification/Task.thy ===== *)
theory Task
  imports Entities
begin

text \<open>
  The task state machine of \<^verbatim>\<open>src/zhixu/domain/task.py\<close>: the record with its constructor, the
  transition table, \<^verbatim>\<open>Task.transition\<close> and \<^verbatim>\<open>Task.postpone\<close>, and the step relation they generate.
  \<^verbatim>\<open>dataclasses.replace\<close> runs the constructor again, so both operations end in \<open>new_task\<close>.
\<close>

datatype task_status = TASK_PENDING | TASK_IN_PROGRESS | TASK_COMPLETED | TASK_CANCELLED | TASK_ARCHIVED

fun ALLOWED_TRANSITIONS :: "task_status \<Rightarrow> task_status list" where
  "ALLOWED_TRANSITIONS TASK_PENDING = [TASK_IN_PROGRESS, TASK_COMPLETED, TASK_CANCELLED]"
| "ALLOWED_TRANSITIONS TASK_IN_PROGRESS = [TASK_PENDING, TASK_COMPLETED, TASK_CANCELLED]"
| "ALLOWED_TRANSITIONS TASK_COMPLETED = [TASK_ARCHIVED]"
| "ALLOWED_TRANSITIONS TASK_CANCELLED = [TASK_ARCHIVED]"
| "ALLOWED_TRANSITIONS TASK_ARCHIVED = []"

record task =
  task_id :: pystr
  task_owner :: pystr
  task_title :: pystr
  task_creator :: "pystr option"
  task_status :: task_status
  priority :: int
  due_at :: "datetime option"
  task_description :: pystr
  task_classification :: data_classification
  task_version :: int
  task_created_at :: "datetime option"
  task_updated_at :: "datetime option"

definition new_task :: "task \<Rightarrow> task res" where
  "new_task t = guarded
     [(blank (task_id t) \<or> blank (task_owner t) \<or> blank (task_title t), ValidationError),
      (blank_opt (task_creator t), ValidationError),
      (\<not> (0 \<le> priority t \<and> priority t \<le> 4), ValidationError),
      (naive_opt (due_at t), ValidationError),
      (task_version t < 1, ValidationError),
      (not_ordinary (task_classification t), ClassificationNotSupported)] t"

definition task_transition :: "task \<Rightarrow> task_status \<Rightarrow> datetime \<Rightarrow> task res" where
  "task_transition t status now =
     (case raised
        [(\<not> aware now, ValidationError),
         (status \<notin> set (ALLOWED_TRANSITIONS (task_status t)), InvalidTransition)]
      of Some e \<Rightarrow> Inl e
       | None \<Rightarrow> new_task (t\<lparr>task_status := status, task_version := task_version t + 1,
                           task_updated_at := Some now\<rparr>))"

definition task_postpone :: "task \<Rightarrow> datetime \<Rightarrow> datetime \<Rightarrow> task res" where
  "task_postpone t due now =
     (case raised
        [(\<not> aware due, ValidationError),
         (\<not> aware now, ValidationError),
         (task_status t \<in> {TASK_COMPLETED, TASK_CANCELLED, TASK_ARCHIVED}, InvalidTransition)]
      of Some e \<Rightarrow> Inl e
       | None \<Rightarrow> new_task (t\<lparr>due_at := Some due, task_version := task_version t + 1,
                           task_updated_at := Some now\<rparr>))"

text \<open>A task object: one the constructor accepted.\<close>

definition task_wf :: "task \<Rightarrow> bool" where
  "task_wf t \<longleftrightarrow> is_ok (new_task t)"

inductive task_step :: "task \<Rightarrow> task \<Rightarrow> bool" where
  transition: "task_transition t s now = Inr t' \<Longrightarrow> task_step t t'"
| postpone: "task_postpone t due now = Inr t' \<Longrightarrow> task_step t t'"

inductive task_steps :: "nat \<Rightarrow> task \<Rightarrow> task \<Rightarrow> bool" where
  none: "task_steps 0 t t"
| more: "task_steps n t u \<Longrightarrow> task_step u v \<Longrightarrow> task_steps (Suc n) t v"

text \<open>How many more changes a closed task can see: archiving, then nothing.\<close>

fun closed_budget :: "task_status \<Rightarrow> nat option" where
  "closed_budget TASK_PENDING = None"
| "closed_budget TASK_IN_PROGRESS = None"
| "closed_budget TASK_COMPLETED = Some 1"
| "closed_budget TASK_CANCELLED = Some 1"
| "closed_budget TASK_ARCHIVED = Some 0"

inductive_cases task_step_E: "task_step t t'"
inductive_cases task_steps_E: "task_steps n t t'"

section \<open>Lemmas\<close>

lemma task_wf_iff:
  "task_wf t \<longleftrightarrow> \<not> blank (task_id t) \<and> \<not> blank (task_owner t) \<and> \<not> blank (task_title t)
     \<and> \<not> blank_opt (task_creator t) \<and> 0 \<le> priority t \<and> priority t \<le> 4
     \<and> \<not> naive_opt (due_at t) \<and> 1 \<le> task_version t
     \<and> task_classification t \<in> {PUBLIC, PERSONAL, CONFIDENTIAL}"
  unfolding task_wf_def new_task_def is_ok_guarded
  by (cases "task_classification t") auto

lemma new_task_wf: "task_wf t \<Longrightarrow> new_task t = Inr t"
  unfolding task_wf_def new_task_def guarded_self .

lemma new_task_Inr: "new_task t = Inr t' \<longleftrightarrow> task_wf t \<and> t' = t"
  using guarded_self[of _ t] unfolding task_wf_def new_task_def by (auto dest: guarded_InrD)

lemma naive_opt_Some [simp]: "naive_opt (Some d) = (\<not> aware d)" "\<not> naive_opt None"
  by (simp_all add: naive_opt_def)

lemma task_transition_ok:
  "task_wf t \<Longrightarrow> task_transition t s now = Inr t' \<longleftrightarrow>
     aware now \<and> s \<in> set (ALLOWED_TRANSITIONS (task_status t))
     \<and> t' = t\<lparr>task_status := s, task_version := task_version t + 1, task_updated_at := Some now\<rparr>"
  unfolding task_transition_def by (auto simp: new_task_Inr task_wf_iff)

lemma task_postpone_ok:
  "task_wf t \<Longrightarrow> task_postpone t due now = Inr t' \<longleftrightarrow>
     aware due \<and> aware now \<and> task_status t \<in> {TASK_PENDING, TASK_IN_PROGRESS}
     \<and> t' = t\<lparr>due_at := Some due, task_version := task_version t + 1, task_updated_at := Some now\<rparr>"
  unfolding task_postpone_def
  by (cases "task_status t") (auto simp: new_task_Inr task_wf_iff)

lemma task_step_wf: "task_step t t' \<Longrightarrow> task_wf t'"
  by (erule task_step_E)
    (auto simp: task_transition_def task_postpone_def new_task_Inr split: if_splits)

text \<open>What every step keeps and what it changes.\<close>

definition same_task :: "task \<Rightarrow> task \<Rightarrow> bool" where
  "same_task t t' \<longleftrightarrow> task_id t' = task_id t \<and> task_owner t' = task_owner t
     \<and> task_title t' = task_title t \<and> task_creator t' = task_creator t
     \<and> priority t' = priority t \<and> task_description t' = task_description t
     \<and> task_classification t' = task_classification t \<and> task_created_at t' = task_created_at t"

lemma task_step_frame:
  "task_step t t' \<Longrightarrow> same_task t t' \<and> task_version t' = task_version t + 1"
  by (erule task_step_E)
    (auto simp: task_transition_def task_postpone_def new_task_Inr same_task_def split: if_splits)

lemma task_step_budget:
  assumes "task_step t t'" "closed_budget (task_status t) = Some b"
  shows "0 < b \<and> closed_budget (task_status t') = Some (b - 1) \<and> due_at t' = due_at t"
  using assms
  by (cases rule: task_step.cases; cases "task_status t")
    (auto simp: task_transition_def task_postpone_def new_task_Inr split: if_splits)

section \<open>Properties\<close>

text \<open>
  A transition of a task object has exactly three outcomes: a naive clock is a validation
  error, a status outside the table is InvalidTransition, and otherwise the task comes back
  with the new status, the next version and the update time, every other field unchanged.
\<close>

lemma task_transition_total:
  assumes "task_wf t"
  shows "task_transition t s now =
     (if \<not> aware now then Inl ValidationError
      else if (task_status t, s) \<in> {(TASK_PENDING, TASK_IN_PROGRESS), (TASK_PENDING, TASK_COMPLETED),
            (TASK_PENDING, TASK_CANCELLED), (TASK_IN_PROGRESS, TASK_PENDING),
            (TASK_IN_PROGRESS, TASK_COMPLETED), (TASK_IN_PROGRESS, TASK_CANCELLED),
            (TASK_COMPLETED, TASK_ARCHIVED), (TASK_CANCELLED, TASK_ARCHIVED)}
      then Inr (t\<lparr>task_status := s, task_version := task_version t + 1, task_updated_at := Some now\<rparr>)
      else Inl InvalidTransition)"
proof (cases "aware now \<and> s \<in> set (ALLOWED_TRANSITIONS (task_status t))")
  case True
  then show ?thesis
    using task_transition_ok[OF assms, of s now] by (cases "task_status t") auto
next
  case False
  then show ?thesis
    by (cases "task_status t"; cases s) (auto simp: task_transition_def)
qed

definition sample_task :: task where
  "sample_task = \<lparr>task_id = lit ''t'', task_owner = lit ''u'', task_title = lit ''write'', task_creator = None,
     task_status = TASK_PENDING, priority = 2, due_at = None, task_description = [],
     task_classification = PERSONAL, task_version = 1, task_created_at = None, task_updated_at = None\<rparr>"

lemma sample_task_wf: "task_wf sample_task"
  by (simp add: task_wf_iff sample_task_def blank_def lit_def py_space_def naive_opt_def blank_opt_def)

text \<open>
  Optimistic concurrency metadata is exact: along any sequence of transitions and
  postponements a task object stays valid, its version grows by one per change, and its identity,
  owner, title, creator, priority, description, classification and creation time never change.
\<close>

lemma task_steps_version:
  assumes "task_steps n t t'" "task_wf t"
  shows "task_wf t' \<and> task_version t' = task_version t + int n \<and> same_task t t'"
  using assms
proof (induction rule: task_steps.induct)
  case (none t)
  then show ?case by (simp add: same_task_def)
next
  case (more n t u v)
  then show ?case
    using task_step_wf[of u v] task_step_frame[of u v] by (auto simp: same_task_def)
qed

lemma sample_steps:
  "task_steps 1 sample_task (sample_task\<lparr>task_status := TASK_COMPLETED, task_version := 2,
     task_updated_at := Some (utc 5)\<rparr>)"
proof -
  have "task_transition sample_task TASK_COMPLETED (utc 5)
      = Inr (sample_task\<lparr>task_status := TASK_COMPLETED, task_version := 2, task_updated_at := Some (utc 5)\<rparr>)"
    using task_transition_ok[OF sample_task_wf] by (simp add: sample_task_def aware_def utc_def)
  then show ?thesis
    using task_steps.more[OF task_steps.none] task_step.transition by fastforce
qed

text \<open>
  A closed task never reopens: from completed or cancelled only one more change is possible and
  it is archiving, an archived task never changes, and the due date of a closed task is frozen.
\<close>

lemma closed_task_stays_closed:
  assumes "task_steps n t t'" "closed_budget (task_status t) = Some b"
  shows "n \<le> b \<and> (0 < n \<longrightarrow> task_status t' = TASK_ARCHIVED) \<and> due_at t' = due_at t
     \<and> closed_budget (task_status t') = Some (b - n)"
  using assms
proof (induction rule: task_steps.induct)
  case (none t)
  then show ?case by simp
next
  case (more n t u v)
  then have u: "n \<le> b" "due_at u = due_at t" "closed_budget (task_status u) = Some (b - n)"
    by auto
  from task_step_budget[OF more.hyps(2) u(3)]
  have v: "0 < b - n" "closed_budget (task_status v) = Some (b - n - 1)" "due_at v = due_at u"
    by auto
  have "b \<le> 1" using more.prems by (cases "task_status t") auto
  then have "b - n - 1 = 0" by simp
  with v(2) have "task_status v = TASK_ARCHIVED" by (cases "task_status v") auto
  with u v show ?case by auto
qed

end
