(* ===== verification/BusinessCalendar.thy ===== *)
theory BusinessCalendar
  imports PyTime
begin

text \<open>
  Business-day arithmetic, \<^verbatim>\<open>src/zhixu/domain/business_calendar.py\<close>, and the two gazetted
  snapshots \<^verbatim>\<open>hong_kong_calendar.py\<close> and \<^verbatim>\<open>macau_calendar.py\<close>. The locale \<open>business_region\<close> states
  what a region's snapshot must promise for the arithmetic to succeed; it is interpreted on
  both snapshots, whose tables are the ones of the source.
\<close>

record business_calendar =
  bc_token :: pystr
  bc_label :: pystr
  supported_years :: "int set"
  holidays :: "date set"

definition is_business_day :: "business_calendar \<Rightarrow> date \<Rightarrow> bool res" where
  "is_business_day c d =
     (if year d \<notin> supported_years c then Inl ValidationError
      else Inr (weekday d < 5 \<and> d \<notin> holidays c))"

text \<open>The list comprehension over the days of the month; an exception of any element escapes.\<close>

fun business_days_of :: "business_calendar \<Rightarrow> int \<Rightarrow> int \<Rightarrow> int list \<Rightarrow> date list res" where
  "business_days_of c y m [] = Inr []"
| "business_days_of c y m (d # ds) =
     and_then (new_date y m d) (\<lambda>x. and_then (is_business_day c x) (\<lambda>b.
       and_then (business_days_of c y m ds) (\<lambda>xs. Inr (if b then x # xs else xs))))"

definition monthly_business_day :: "business_calendar \<Rightarrow> int \<Rightarrow> int \<Rightarrow> int \<Rightarrow> date res" where
  "monthly_business_day c y m position =
     (if position = 0 \<or> \<bar>position\<bar> > 31 then Inl ValidationError
      else if \<not> (1 \<le> m \<and> m \<le> 12) then Inl ValueErr
      else and_then (business_days_of c y m [1..days_in_month y m]) (\<lambda>days.
        let i = (if position > 0 then position - 1 else int (length days) + position)
        in if 0 \<le> i \<and> i < int (length days) then Inr (days ! nat i) else Inl ValidationError))"

text \<open>
  \<^verbatim>\<open>date.fromisoformat\<close> on the form YYYY-MM-DD, the one the tables use.
\<close>

definition date_fromisoformat :: "pystr \<Rightarrow> date res" where
  "date_fromisoformat s =
     (if length s = 10 \<and> s ! 4 = 45 \<and> s ! 7 = 45
         \<and> all_digits (take 4 s) \<and> all_digits (take 2 (drop 5 s)) \<and> all_digits (drop 8 s)
      then new_date (int (digits_value (take 4 s))) (int (digits_value (take 2 (drop 5 s))))
             (int (digits_value (drop 8 s)))
      else Inl ValueErr)"

definition parse_holiday_values :: "pystr \<Rightarrow> date list res" where
  "parse_holiday_values s = map_res date_fromisoformat (py_split s)"

text \<open>The value of a module constant whose computation does not raise.\<close>

fun constant_set :: "'a list res \<Rightarrow> 'a set" where
  "constant_set (Inl e) = {}"
| "constant_set (Inr xs) = set xs"

section \<open>The snapshots\<close>

text \<open>A triple-quoted literal that opens with a line break: every line ends in one.\<close>

definition text_lines :: "string list \<Rightarrow> pystr" where
  "text_lines ls = 10 # concat (map (\<lambda>l. lit l @ [10]) ls)"

definition SUPPORTED_YEARS :: "int set" where
  "SUPPORTED_YEARS = {2025, 2026, 2027}"

definition HK_HOLIDAY_VALUES :: pystr where
  "HK_HOLIDAY_VALUES = text_lines [
     ''2025-01-01 2025-01-29 2025-01-30 2025-01-31 2025-04-04 2025-04-18'',
     ''2025-04-19 2025-04-21 2025-05-01 2025-05-05 2025-05-31 2025-07-01'',
     ''2025-10-01 2025-10-07 2025-10-29 2025-12-25 2025-12-26'',
     ''2026-01-01 2026-02-17 2026-02-18 2026-02-19 2026-04-03 2026-04-04'',
     ''2026-04-06 2026-04-07 2026-05-01 2026-05-25 2026-06-19 2026-07-01'',
     ''2026-09-26 2026-10-01 2026-10-19 2026-12-25 2026-12-26'',
     ''2027-01-01 2027-02-06 2027-02-08 2027-02-09 2027-03-26 2027-03-27'',
     ''2027-03-29 2027-04-05 2027-05-01 2027-05-13 2027-06-09 2027-07-01'',
     ''2027-09-16 2027-10-01 2027-10-08 2027-12-25 2027-12-27'']"

definition HONG_KONG :: business_calendar where
  "HONG_KONG = \<lparr>bc_token = lit ''HK_GENERAL_HOLIDAYS'', bc_label = lit ''Hong Kong'',
     supported_years = SUPPORTED_YEARS,
     holidays = constant_set (parse_holiday_values HK_HOLIDAY_VALUES)\<rparr>"

definition MO_HOLIDAY_VALUES :: pystr where
  "MO_HOLIDAY_VALUES = text_lines [
     ''2025-01-01 2025-01-29 2025-01-30 2025-01-31 2025-04-04 2025-04-18'',
     ''2025-04-19 2025-05-01 2025-05-05 2025-05-31 2025-10-01 2025-10-02'',
     ''2025-10-07 2025-10-29 2025-11-02 2025-12-08 2025-12-20 2025-12-21'',
     ''2025-12-24 2025-12-25'',
     ''2026-01-01 2026-02-17 2026-02-18 2026-02-19 2026-04-03 2026-04-04'',
     ''2026-04-05 2026-05-01 2026-05-24 2026-06-19 2026-09-26 2026-10-01'',
     ''2026-10-02 2026-10-18 2026-11-02 2026-12-08 2026-12-20 2026-12-22'',
     ''2026-12-24 2026-12-25'',
     ''2027-01-01 2027-02-06 2027-02-07 2027-02-08 2027-03-26 2027-03-27'',
     ''2027-04-05 2027-05-01 2027-05-13 2027-06-09 2027-09-16 2027-10-01'',
     ''2027-10-02 2027-10-08 2027-11-02 2027-12-08 2027-12-20 2027-12-22'',
     ''2027-12-24 2027-12-25'']"

definition MO_COMPENSATORY_VALUES :: pystr where
  "MO_COMPENSATORY_VALUES = text_lines [
     ''2025-04-21 2025-06-02 2025-11-03 2025-12-22 2025-12-23'',
     ''2026-04-06 2026-04-07 2026-05-25 2026-09-28 2026-10-19 2026-12-21'',
     ''2027-02-09 2027-02-10 2027-03-29 2027-05-03 2027-10-04 2027-12-27'']"

definition MACAU :: business_calendar where
  "MACAU = \<lparr>bc_token = lit ''MO_GENERAL_HOLIDAYS'', bc_label = lit ''Macau'',
     supported_years = SUPPORTED_YEARS,
     holidays = constant_set (parse_holiday_values MO_HOLIDAY_VALUES)
       \<union> constant_set (parse_holiday_values MO_COMPENSATORY_VALUES)\<rparr>"

text \<open>The business days of a month, as a set of day numbers.\<close>

definition business_day_set :: "business_calendar \<Rightarrow> int \<Rightarrow> int \<Rightarrow> int set" where
  "business_day_set c y m =
     {d. 1 \<le> d \<and> d \<le> days_in_month y m \<and> is_business_day c (mk_date y m d) = Inr True}"

section \<open>Lemmas\<close>

lemma py_split_append_space:
  assumes "py_space c"
  shows "py_split (s @ c # t) = py_split s @ py_split t"
  using assms
proof (induction s rule: py_split.induct)
  case 1
  then show ?case by simp
next
  case (2 d s)
  let ?p = "\<lambda>d. \<not> py_space d"
  show ?case
  proof (cases "\<forall>x \<in> set s. ?p x")
    case True
    then have w: "takeWhile ?p (s @ c # t) = s" "dropWhile ?p (s @ c # t) = c # t"
      "takeWhile ?p s = s" "dropWhile ?p s = []"
      using 2(3) by (simp_all add: takeWhile_append2 dropWhile_append2)
    show ?thesis using 2(1,3) by (simp add: w)
  next
    case False
    then have "takeWhile ?p (s @ c # t) = takeWhile ?p s"
      "dropWhile ?p (s @ c # t) = dropWhile ?p s @ c # t"
      by (auto simp: takeWhile_append1 dropWhile_append1)
    then show ?thesis using 2 by auto
  qed
qed

lemma py_split_lines: "py_split (text_lines ls) = concat (map (\<lambda>l. py_split (lit l)) ls)"
proof -
  have "py_split (concat (map (\<lambda>l. lit l @ [10]) ls)) = concat (map (\<lambda>l. py_split (lit l)) ls)"
    by (induction ls) (simp_all add: py_split_append_space py_space_def)
  then show ?thesis by (simp add: text_lines_def py_space_def)
qed

lemma parse_holiday_lines:
  "parse_holiday_values (text_lines ls) = map_res date_fromisoformat (concat (map (\<lambda>l. py_split (lit l)) ls))"
  by (simp add: parse_holiday_values_def py_split_lines)

lemmas holiday_eval = lit_def py_space_def date_fromisoformat_def all_digits_def digits_value_def
  new_date_def valid_date_def days_in_month_def

text \<open>The dates the tables spell out.\<close>

definition hk_dates :: "date list" where
  "hk_dates =
     [mk_date 2025 1 1, mk_date 2025 1 29, mk_date 2025 1 30, mk_date 2025 1 31, mk_date 2025 4 4,
      mk_date 2025 4 18, mk_date 2025 4 19, mk_date 2025 4 21, mk_date 2025 5 1, mk_date 2025 5 5,
      mk_date 2025 5 31, mk_date 2025 7 1, mk_date 2025 10 1, mk_date 2025 10 7, mk_date 2025 10 29,
      mk_date 2025 12 25, mk_date 2025 12 26, mk_date 2026 1 1, mk_date 2026 2 17, mk_date 2026 2 18,
      mk_date 2026 2 19, mk_date 2026 4 3, mk_date 2026 4 4, mk_date 2026 4 6, mk_date 2026 4 7,
      mk_date 2026 5 1, mk_date 2026 5 25, mk_date 2026 6 19, mk_date 2026 7 1, mk_date 2026 9 26,
      mk_date 2026 10 1, mk_date 2026 10 19, mk_date 2026 12 25, mk_date 2026 12 26, mk_date 2027 1 1,
      mk_date 2027 2 6, mk_date 2027 2 8, mk_date 2027 2 9, mk_date 2027 3 26, mk_date 2027 3 27,
      mk_date 2027 3 29, mk_date 2027 4 5, mk_date 2027 5 1, mk_date 2027 5 13, mk_date 2027 6 9,
      mk_date 2027 7 1, mk_date 2027 9 16, mk_date 2027 10 1, mk_date 2027 10 8, mk_date 2027 12 25,
      mk_date 2027 12 27]"

definition mo_dates :: "date list" where
  "mo_dates =
     [mk_date 2025 1 1, mk_date 2025 1 29, mk_date 2025 1 30, mk_date 2025 1 31, mk_date 2025 4 4,
      mk_date 2025 4 18, mk_date 2025 4 19, mk_date 2025 5 1, mk_date 2025 5 5, mk_date 2025 5 31,
      mk_date 2025 10 1, mk_date 2025 10 2, mk_date 2025 10 7, mk_date 2025 10 29, mk_date 2025 11 2,
      mk_date 2025 12 8, mk_date 2025 12 20, mk_date 2025 12 21, mk_date 2025 12 24, mk_date 2025 12 25,
      mk_date 2026 1 1, mk_date 2026 2 17, mk_date 2026 2 18, mk_date 2026 2 19, mk_date 2026 4 3,
      mk_date 2026 4 4, mk_date 2026 4 5, mk_date 2026 5 1, mk_date 2026 5 24, mk_date 2026 6 19,
      mk_date 2026 9 26, mk_date 2026 10 1, mk_date 2026 10 2, mk_date 2026 10 18, mk_date 2026 11 2,
      mk_date 2026 12 8, mk_date 2026 12 20, mk_date 2026 12 22, mk_date 2026 12 24, mk_date 2026 12 25,
      mk_date 2027 1 1, mk_date 2027 2 6, mk_date 2027 2 7, mk_date 2027 2 8, mk_date 2027 3 26,
      mk_date 2027 3 27, mk_date 2027 4 5, mk_date 2027 5 1, mk_date 2027 5 13, mk_date 2027 6 9,
      mk_date 2027 9 16, mk_date 2027 10 1, mk_date 2027 10 2, mk_date 2027 10 8, mk_date 2027 11 2,
      mk_date 2027 12 8, mk_date 2027 12 20, mk_date 2027 12 22, mk_date 2027 12 24, mk_date 2027 12 25]"

definition mo_compensatory_dates :: "date list" where
  "mo_compensatory_dates =
     [mk_date 2025 4 21, mk_date 2025 6 2, mk_date 2025 11 3, mk_date 2025 12 22, mk_date 2025 12 23,
      mk_date 2026 4 6, mk_date 2026 4 7, mk_date 2026 5 25, mk_date 2026 9 28, mk_date 2026 10 19,
      mk_date 2026 12 21, mk_date 2027 2 9, mk_date 2027 2 10, mk_date 2027 3 29, mk_date 2027 5 3,
      mk_date 2027 10 4, mk_date 2027 12 27]"

lemma parse_HK_HOLIDAY_VALUES:
  "parse_holiday_values HK_HOLIDAY_VALUES = Inr hk_dates"
  by (simp add: hk_dates_def HK_HOLIDAY_VALUES_def parse_holiday_lines holiday_eval)

lemma parse_MO_HOLIDAY_VALUES:
  "parse_holiday_values MO_HOLIDAY_VALUES = Inr mo_dates"
  by (simp add: mo_dates_def MO_HOLIDAY_VALUES_def parse_holiday_lines holiday_eval)

lemma parse_MO_COMPENSATORY_VALUES:
  "parse_holiday_values MO_COMPENSATORY_VALUES = Inr mo_compensatory_dates"
  by (simp add: mo_compensatory_dates_def MO_COMPENSATORY_VALUES_def parse_holiday_lines holiday_eval)

section \<open>The arithmetic\<close>

lemma business_days_of_eq:
  assumes "y \<in> supported_years c" "1 \<le> y" "y \<le> 9999" "1 \<le> m" "m \<le> 12"
    and "\<And>d. d \<in> set ds \<Longrightarrow> 1 \<le> d \<and> d \<le> days_in_month y m"
  shows "business_days_of c y m ds
     = Inr (map (mk_date y m) (filter (\<lambda>d. is_business_day c (mk_date y m d) = Inr True) ds))"
  using assms(6)
proof (induction ds)
  case Nil
  then show ?case by simp
next
  case (Cons d ds)
  have "new_date y m d = Inr (mk_date y m d)"
    using assms(1-5) Cons.prems[of d] by (simp add: new_date_def valid_date_def)
  then show ?case
    using Cons assms(1) by (simp add: is_business_day_def)
qed

lemma sorted_upto_strict: "sorted_wrt (<) [i..j::int]"
  by (simp add: strict_sorted_iff)

text \<open>Selecting by position in the strictly sorted list of business days.\<close>

lemma monthly_business_day_nth:
  assumes "y \<in> supported_years c" "1 \<le> y" "y \<le> 9999" "1 \<le> m" "m \<le> 12"
    and "p \<noteq> 0" "\<bar>p\<bar> \<le> 31"
  obtains fs where "sorted_wrt (<) fs" "set fs = business_day_set c y m"
    "monthly_business_day c y m p =
       (if nat \<bar>p\<bar> \<le> length fs
        then Inr (mk_date y m (fs ! (if p > 0 then nat p - 1 else length fs - nat (- p))))
        else Inl ValidationError)"
proof -
  define fs where "fs = filter (\<lambda>d. is_business_day c (mk_date y m d) = Inr True) [1..days_in_month y m]"
  have days: "business_days_of c y m [1..days_in_month y m] = Inr (map (mk_date y m) fs)"
    unfolding fs_def by (rule business_days_of_eq[OF assms(1-5)]) auto
  have s: "sorted_wrt (<) fs" unfolding fs_def by (rule sorted_wrt_filter[OF sorted_upto_strict])
  have e: "set fs = business_day_set c y m" by (auto simp: fs_def business_day_set_def)
  have "monthly_business_day c y m p =
       (if nat \<bar>p\<bar> \<le> length fs
        then Inr (mk_date y m (fs ! (if p > 0 then nat p - 1 else length fs - nat (- p))))
        else Inl ValidationError)"
  proof (cases "p > 0")
    case True
    then have "nat (p - 1) = nat p - 1" by simp
    with True show ?thesis using assms(4-7) days by (auto simp: monthly_business_day_def Let_def)
  next
    case False
    then have "nat (int (length fs) + p) = length fs - nat (- p)" by simp
    with False show ?thesis using assms(4-7) days by (auto simp: monthly_business_day_def Let_def)
  qed
  with s e show ?thesis by (rule that)
qed

section \<open>Regions\<close>

locale business_region =
  fixes c :: business_calendar
  assumes years_valid: "y \<in> supported_years c \<Longrightarrow> 1 \<le> y \<and> y \<le> 9999"
    and some_business_day: "y \<in> supported_years c \<Longrightarrow> 1 \<le> m \<Longrightarrow> m \<le> 12 \<Longrightarrow> business_day_set c y m \<noteq> {}"
begin

lemma first_and_last:
  assumes "y \<in> supported_years c" "1 \<le> m" "m \<le> 12"
  shows "monthly_business_day c y m 1 = Inr (mk_date y m (Min (business_day_set c y m)))"
    and "monthly_business_day c y m (-1) = Inr (mk_date y m (Max (business_day_set c y m)))"
proof -
  have yv: "1 \<le> y" "y \<le> 9999" using years_valid[OF assms(1)] by auto
  obtain fs where fs: "sorted_wrt (<) fs" "set fs = business_day_set c y m"
    "monthly_business_day c y m 1 = (if nat \<bar>1\<bar> \<le> length fs
        then Inr (mk_date y m (fs ! (if (1::int) > 0 then nat 1 - 1 else length fs - nat (- 1))))
        else Inl ValidationError)"
    by (rule monthly_business_day_nth[OF assms(1) yv assms(2,3), of 1]) auto
  obtain gs where gs: "sorted_wrt (<) gs" "set gs = business_day_set c y m"
    "monthly_business_day c y m (-1) = (if nat \<bar>-1\<bar> \<le> length gs
        then Inr (mk_date y m (gs ! (if (-1::int) > 0 then nat (-1) - 1 else length gs - nat (- (-1)))))
        else Inl ValidationError)"
    by (rule monthly_business_day_nth[OF assms(1) yv assms(2,3), of "-1"]) auto
  have ne: "fs \<noteq> []" "gs \<noteq> []"
    using fs(2) gs(2) some_business_day[OF assms] by auto
  have "Min (set fs) = fs ! 0"
    using fs(1) ne(1) by (intro Min_eqI) (auto simp: in_set_conv_nth strict_sorted_iff intro: sorted_nth_mono)
  moreover have "Max (set gs) = gs ! (length gs - 1)"
    using gs(1) ne(2)
    by (intro Max_eqI) (auto simp: in_set_conv_nth strict_sorted_iff intro: sorted_nth_mono intro!: exI[of _ "length gs - 1"])
  ultimately show "monthly_business_day c y m 1 = Inr (mk_date y m (Min (business_day_set c y m)))"
    and "monthly_business_day c y m (-1) = Inr (mk_date y m (Max (business_day_set c y m)))"
    using fs(2,3) gs(2,3) ne by (simp_all add: Suc_le_eq)
qed

end

text \<open>One business day of each supported month, common to both snapshots.\<close>

definition probe_days :: "(int \<times> int \<times> int) list" where
  "probe_days =
     [(2025, 1, 2), (2025, 2, 3), (2025, 3, 3), (2025, 4, 1), (2025, 5, 2), (2025, 6, 3), (2025, 7, 2), (2025, 8, 1), (2025, 9, 1), (2025, 10, 3), (2025, 11, 4), (2025, 12, 1),
      (2026, 1, 2), (2026, 2, 2), (2026, 3, 2), (2026, 4, 1), (2026, 5, 4), (2026, 6, 1), (2026, 7, 2), (2026, 8, 3), (2026, 9, 1), (2026, 10, 5), (2026, 11, 3), (2026, 12, 1),
      (2027, 1, 4), (2027, 2, 1), (2027, 3, 1), (2027, 4, 1), (2027, 5, 4), (2027, 6, 1), (2027, 7, 2), (2027, 8, 2), (2027, 9, 1), (2027, 10, 5), (2027, 11, 1), (2027, 12, 1)]"

lemma business_day_from_dates:
  "supported_years c = SUPPORTED_YEARS \<Longrightarrow> holidays c = set hs \<Longrightarrow>
   is_business_day c d = Inr True \<longleftrightarrow> year d \<in> SUPPORTED_YEARS \<and> weekday d < 5 \<and> \<not> List.member hs d"
  by (simp add: is_business_day_def List.member_iff)

definition probes_avoid :: "date list \<Rightarrow> bool" where
  "probes_avoid hs \<longleftrightarrow> list_all (\<lambda>(y, m, d). y \<in> SUPPORTED_YEARS \<and> weekday (mk_date y m d) < 5
     \<and> \<not> List.member hs (mk_date y m d) \<and> 1 \<le> d \<and> d \<le> days_in_month y m) probe_days"

lemma hk_probes: "probes_avoid hk_dates"
  by code_simp

lemma mo_probes: "probes_avoid (mo_dates @ mo_compensatory_dates)"
  by code_simp

lemma month_list: "1 \<le> m \<Longrightarrow> m \<le> 12 \<Longrightarrow> m \<in> {1,2,3,4,5,6,7,8,9,10,11,12::int}"
  by (simp; presburger)

lemma probe_complete:
  assumes "y \<in> SUPPORTED_YEARS" "1 \<le> m" "m \<le> 12"
  shows "\<exists>d. (y, m, d) \<in> set probe_days"
proof -
  have "list_all (\<lambda>y. list_all (\<lambda>m. list_ex (\<lambda>(a, b, d). a = y \<and> b = m) probe_days)
      [1,2,3,4,5,6,7,8,9,10,11,12]) [2025, 2026, 2027::int]"
    by code_simp
  then show ?thesis
    using assms(1) month_list[OF assms(2,3)]
    unfolding SUPPORTED_YEARS_def list_all_iff list_ex_iff by fastforce
qed

lemma region_from_probes:
  assumes "probes_avoid hs" "supported_years c = SUPPORTED_YEARS" "holidays c = set hs"
  shows "business_region c"
proof
  show "1 \<le> y \<and> y \<le> 9999" if "y \<in> supported_years c" for y
    using that assms(2) by (auto simp: SUPPORTED_YEARS_def)
  show "business_day_set c y m \<noteq> {}" if ym: "y \<in> supported_years c" "1 \<le> m" "m \<le> 12" for y m
  proof -
    obtain d where "(y, m, d) \<in> set probe_days" using probe_complete[of y m] ym assms(2) by auto
    with assms have "d \<in> business_day_set c y m"
      unfolding probes_avoid_def list_all_iff business_day_set_def
        business_day_from_dates[OF assms(2,3)] by auto
    then show ?thesis by auto
  qed
qed

interpretation hong_kong: business_region HONG_KONG
  by (rule region_from_probes[OF hk_probes]) (simp_all add: HONG_KONG_def parse_HK_HOLIDAY_VALUES)

interpretation macau: business_region MACAU
  by (rule region_from_probes[OF mo_probes])
    (simp_all add: MACAU_def parse_MO_HOLIDAY_VALUES parse_MO_COMPENSATORY_VALUES)

section \<open>Properties\<close>

text \<open>
  C28. The business day at a position of a month: in an installed year, a non-zero position
  within 31 selects exactly the business day with position - 1 business days before it (counting
  from the end of the month for a negative position), and raises a validation error exactly
  when the month has fewer business days than that.
\<close>

theorem monthly_business_day_correct:
  assumes "y \<in> supported_years c" "1 \<le> y" "y \<le> 9999" "1 \<le> m" "m \<le> 12"
    and "p \<noteq> 0" "\<bar>p\<bar> \<le> 31"
  shows "(monthly_business_day c y m p = Inr e \<longleftrightarrow>
      year e = y \<and> month e = m \<and> day e \<in> business_day_set c y m
      \<and> (if p > 0 then int (card {d \<in> business_day_set c y m. d < day e}) = p - 1
         else int (card {d \<in> business_day_set c y m. day e < d}) = - p - 1))
    \<and> (monthly_business_day c y m p = Inl ValidationError
        \<longleftrightarrow> int (card (business_day_set c y m)) < \<bar>p\<bar>)"
proof -
  obtain fs where fs: "sorted_wrt (<) fs" "set fs = business_day_set c y m"
    and r: "monthly_business_day c y m p =
       (if nat \<bar>p\<bar> \<le> length fs
        then Inr (mk_date y m (fs ! (if p > 0 then nat p - 1 else length fs - nat (- p))))
        else Inl ValidationError)"
    by (rule monthly_business_day_nth[OF assms])
  have card: "card (business_day_set c y m) = length fs"
    using fs by (metis distinct_card strict_sorted_iff)
  have rank: "day e \<in> business_day_set c y m \<and>
      (if p > 0 then int (card {d \<in> business_day_set c y m. d < day e}) = p - 1
         else int (card {d \<in> business_day_set c y m. day e < d}) = - p - 1)
     \<longleftrightarrow> nat \<bar>p\<bar> \<le> length fs \<and> day e = fs ! (if p > 0 then nat p - 1 else length fs - nat (- p))"
    (is "?l \<longleftrightarrow> ?r")
  proof
    assume l: ?l
    then obtain i where i: "i < length fs" "day e = fs ! i" using fs(2) by (metis in_set_conv_nth)
    from l have "if p > 0 then int (card {d \<in> set fs. d < fs ! i}) = p - 1
        else int (card {d \<in> set fs. fs ! i < d}) = - p - 1"
      unfolding i(2) fs(2) by blast
    then have "if p > 0 then int i = p - 1 else int (length fs - Suc i) = - p - 1"
      by (simp only: card_below_nth[OF fs(1) i(1)] card_above_nth[OF fs(1) i(1)])
    with i assms(6) show ?r by (auto split: if_splits intro!: arg_cong[where f = "(!) fs"])
  next
    assume ?r
    moreover from this assms(6) have "(if p > 0 then nat p - 1 else length fs - nat (- p)) < length fs"
      by (auto split: if_splits)
    ultimately show ?l
      using card_below_nth[OF fs(1)] card_above_nth[OF fs(1)] fs(2) assms(6)
      by (auto split: if_splits)
  qed
  have e: "mk_date y m d = e \<longleftrightarrow> year e = y \<and> month e = m \<and> day e = d" for d
    by (cases e) auto
  have "monthly_business_day c y m p = Inr e \<longleftrightarrow> year e = y \<and> month e = m \<and> nat \<bar>p\<bar> \<le> length fs
      \<and> day e = fs ! (if p > 0 then nat p - 1 else length fs - nat (- p))"
    unfolding r using e by (simp; blast)
  moreover have "monthly_business_day c y m p = Inl ValidationError
      \<longleftrightarrow> int (card (business_day_set c y m)) < \<bar>p\<bar>"
    unfolding r card by auto
  ultimately show ?thesis using rank by blast
qed

theorem monthly_business_day_correct_witness:
  "monthly_business_day HONG_KONG 2026 1 40 = Inl ValidationError
   \<and> (monthly_business_day HONG_KONG 2026 2 31 = Inl ValidationError
      \<longleftrightarrow> int (card (business_day_set HONG_KONG 2026 2)) < 31)"
  using monthly_business_day_correct[of 2026 HONG_KONG 2 31]
  by (simp add: HONG_KONG_def SUPPORTED_YEARS_def monthly_business_day_def)

text \<open>
  In both installed snapshots every month of every supported year has a first and a last
  business day, and the positions 1 and -1 return them; any other year is refused.
\<close>

lemma snapshots_cover_supported_years:
  assumes "c = HONG_KONG \<or> c = MACAU" "1 \<le> m" "m \<le> 12"
  shows "if y \<in> {2025, 2026, 2027}
     then monthly_business_day c y m 1 = Inr (mk_date y m (Min (business_day_set c y m)))
       \<and> monthly_business_day c y m (-1) = Inr (mk_date y m (Max (business_day_set c y m)))
       \<and> business_day_set c y m \<noteq> {}
     else is_business_day c (mk_date y m d) = Inl ValidationError"
proof -
  have y: "supported_years c = {2025, 2026, 2027}"
    using assms(1) by (auto simp: HONG_KONG_def MACAU_def SUPPORTED_YEARS_def)
  show ?thesis
    using assms(1)
    by (elim disjE; simp add: is_business_day_def)
      (use y assms(2,3) hong_kong.first_and_last[of y m] hong_kong.some_business_day[of y m]
         macau.first_and_last[of y m] macau.some_business_day[of y m] in auto)
qed

end
