(* ===== verification/Agenda.thy ===== *)
theory Agenda
  imports BusinessCalendar Entities
begin

text \<open>
  Calendar items and their expansion, \<^verbatim>\<open>src/zhixu/domain/agenda.py\<close>: the business-day rule syntax,
  notification lead times, recurrence rules and exceptions, agenda items and notification rules,
  and \<^verbatim>\<open>occurrences_between\<close>. \<^verbatim>\<open>dateutil.rrule\<close> is an argument: whether \<^verbatim>\<open>rrulestr\<close> accepts a rule,
  and what \<^verbatim>\<open>rule.between(after, before, inc=True)\<close> returns for a rule and its dtstart.
\<close>

section \<open>Business-day rules\<close>

definition BUSINESS_CALENDARS :: "(pystr \<times> business_calendar) list" where
  "BUSINESS_CALENDARS = [(bc_token HONG_KONG, HONG_KONG), (bc_token MACAU, MACAU)]"

record business_day_rule =
  rule_calendar :: business_calendar
  rule_position :: int

text \<open>
  The decimal digits of Unicode, which \<^verbatim>\<open>\d\<close> matches and \<^verbatim>\<open>int\<close> reads: blocks of ten from each zero.
\<close>

definition decimal_zeros :: "nat list" where
  "decimal_zeros =
     [0x30, 0x660, 0x6F0, 0x7C0, 0x966, 0x9E6, 0xA66, 0xAE6, 0xB66, 0xBE6, 0xC66, 0xCE6, 0xD66, 0xDE6,
      0xE50, 0xED0, 0xF20, 0x1040, 0x1090, 0x17E0, 0x1810, 0x1946, 0x19D0, 0x1A80, 0x1A90, 0x1B50, 0x1BB0,
      0x1C40, 0x1C50, 0xA620, 0xA8D0, 0xA900, 0xA9D0, 0xA9F0, 0xAA50, 0xABF0, 0xFF10, 0x104A0, 0x10D30,
      0x11066, 0x110F0, 0x11136, 0x111D0, 0x112F0, 0x11450, 0x114D0, 0x11650, 0x116C0, 0x11730, 0x118E0,
      0x11950, 0x11C50, 0x11D50, 0x11DA0, 0x16A60, 0x16AC0, 0x16B50, 0x1D7CE, 0x1D7D8, 0x1D7E2, 0x1D7EC,
      0x1D7F6, 0x1E140, 0x1E2F0, 0x1E950, 0x1FBF0]"

definition decimal_value :: "nat \<Rightarrow> nat option" where
  "decimal_value c = map_option (\<lambda>z. c - z) (find (\<lambda>z. z \<le> c \<and> c < z + 10) decimal_zeros)"

definition is_decimal :: "nat \<Rightarrow> bool" where
  "is_decimal c \<longleftrightarrow> decimal_value c \<noteq> None"

definition decimal_number :: "pystr \<Rightarrow> nat" where
  "decimal_number s = foldl (\<lambda>n c. 10 * n + the (decimal_value c)) 0 s"

text \<open>
  The regular expression: the calendar name, an optional minus sign and one or two digits, at
  the end of the text or before one final line break (the meaning of \<^verbatim>\<open>$\<close>).
\<close>

definition calendar_char :: "nat \<Rightarrow> bool" where
  "calendar_char c \<longleftrightarrow> (65 \<le> c \<and> c \<le> 90) \<or> c = 95"

definition strip_prefix :: "pystr \<Rightarrow> pystr \<Rightarrow> pystr option" where
  "strip_prefix p s = (if starts_with s p then Some (drop (length p) s) else None)"

definition match_position :: "pystr \<Rightarrow> int option" where
  "match_position s =
     (let neg = (case s of c # _ \<Rightarrow> c = 45 | [] \<Rightarrow> False);
          rest = (if neg then tl s else s);
          ds = takeWhile is_decimal rest;
          after = dropWhile is_decimal rest
      in if (length ds = 1 \<or> length ds = 2) \<and> (after = [] \<or> after = [10])
         then Some (if neg then - int (decimal_number ds) else int (decimal_number ds))
         else None)"

definition match_business_rule :: "pystr \<Rightarrow> (pystr \<times> int) option" where
  "match_business_rule s = (case strip_prefix (lit ''X-BUSINESS-DAY;CALENDAR='') s of
       None \<Rightarrow> None
     | Some r \<Rightarrow> (let name = takeWhile calendar_char r in
         if name = [] then None
         else case strip_prefix (lit '';BYSETPOS='') (dropWhile calendar_char r) of
                None \<Rightarrow> None
              | Some t \<Rightarrow> map_option (\<lambda>p. (name, p)) (match_position t)))"

definition parse_business_day_rule :: "pystr \<Rightarrow> business_day_rule option" where
  "parse_business_day_rule s = (case match_business_rule s of
       None \<Rightarrow> None
     | Some (name, p) \<Rightarrow> map_option (\<lambda>c. \<lparr>rule_calendar = c, rule_position = p\<rparr>) (map_of BUSINESS_CALENDARS name))"

section \<open>Lead times\<close>

definition DEFAULT_NOTIFICATION_LEAD_MINUTES :: "int list" where
  "DEFAULT_NOTIFICATION_LEAD_MINUTES = [1440, 360, 60, 30, 1, 0]"

definition MAXIMUM_LEAD_ENTRIES :: nat where
  "MAXIMUM_LEAD_ENTRIES = 12"

definition MAXIMUM_LEAD_MINUTES :: int where
  "MAXIMUM_LEAD_MINUTES = 366 * 24 * 60"

definition normalise_lead_minutes :: "int list \<Rightarrow> int list res" where
  "normalise_lead_minutes values =
     (let unique = rev (sort (remdups values))
      in guarded
        [(length unique > MAXIMUM_LEAD_ENTRIES, ValidationError),
         (list_ex (\<lambda>v. \<not> (0 \<le> v \<and> v \<le> MAXIMUM_LEAD_MINUTES)) unique, ValidationError)] unique)"

section \<open>Items\<close>

record recurrence_rule =
  rrule_value :: pystr
  rrule_timezone :: pystr

definition new_recurrence_rule :: "tzdb \<Rightarrow> (pystr \<Rightarrow> bool) \<Rightarrow> recurrence_rule \<Rightarrow> recurrence_rule res" where
  "new_recurrence_rule db rrule_ok r = guarded
     [(blank (rrule_value r), ValidationError),
      (\<not> z_known db (rrule_timezone r), ValidationError),
      (parse_business_day_rule (rrule_value r) = None \<and> \<not> rrule_ok (rrule_value r), ValidationError)] r"

datatype exception_action = EXC_CANCEL | EXC_REPLACE

record recurrence_exception =
  occurrence_at :: datetime
  exc_action :: exception_action
  replacement_start :: "datetime option"
  replacement_end :: "datetime option"

definition new_recurrence_exception :: "tzdb \<Rightarrow> recurrence_exception \<Rightarrow> recurrence_exception res" where
  "new_recurrence_exception db x = guarded
     [(\<not> aware (occurrence_at x), ValidationError),
      (exc_action x = EXC_REPLACE \<and> (replacement_start x = None \<or> replacement_end x = None), ValidationError),
      (exc_action x = EXC_REPLACE \<and> naive_opt (replacement_start x), ValidationError),
      (exc_action x = EXC_REPLACE \<and> naive_opt (replacement_end x), ValidationError),
      (exc_action x = EXC_REPLACE \<and> dt_le db (the (replacement_end x)) (the (replacement_start x)),
       ValidationError)] x"

record agenda_item =
  ag_id :: pystr
  ag_owner :: pystr
  ag_title :: pystr
  start_at :: datetime
  end_at :: datetime
  ag_timezone :: pystr
  ag_creator :: "pystr option"
  all_day :: bool
  ag_description :: pystr
  ag_action_links :: "action_link list"
  ag_classification :: data_classification
  recurrence :: "recurrence_rule option"
  ag_version :: int
  ag_created_at :: "datetime option"
  ag_updated_at :: "datetime option"

definition new_agenda_item :: "tzdb \<Rightarrow> agenda_item \<Rightarrow> agenda_item res" where
  "new_agenda_item db a = guarded
     [(blank (ag_id a) \<or> blank (ag_owner a) \<or> blank (ag_title a), ValidationError),
      (blank_opt (ag_creator a), ValidationError),
      (\<not> aware (start_at a), ValidationError),
      (\<not> aware (end_at a), ValidationError),
      (\<not> z_known db (ag_timezone a), ValidationError),
      (dt_le db (end_at a) (start_at a), ValidationError),
      (ag_version a < 1, ValidationError),
      (naive_opt (ag_created_at a), ValidationError),
      (naive_opt (ag_updated_at a), ValidationError),
      (not_ordinary (ag_classification a), ClassificationNotSupported),
      (length (ag_action_links a) > 8, ValidationError),
      (case recurrence a of None \<Rightarrow> False | Some r \<Rightarrow> rrule_timezone r \<noteq> ag_timezone a, ValidationError)] a"

record agenda_notification_rule =
  nr_id :: pystr
  nr_agenda_item_id :: pystr
  nr_owner :: pystr
  nr_creator :: pystr
  nr_target_ref :: pystr
  nr_time_of_day :: pytime
  day_offset :: int
  nr_text :: pystr
  nr_timezone :: pystr
  nr_action_links :: "action_link list"
  nr_classification :: data_classification
  nr_enabled :: bool
  nr_created_at :: "datetime option"

definition new_agenda_notification_rule ::
  "tzdb \<Rightarrow> agenda_notification_rule \<Rightarrow> agenda_notification_rule res" where
  "new_agenda_notification_rule db r = guarded
     [(list_ex blank [nr_id r, nr_agenda_item_id r, nr_owner r, nr_creator r, nr_target_ref r, nr_text r],
       ValidationError),
      (tod_tz (nr_time_of_day r) \<noteq> None, ValidationError),
      (\<not> (-366 \<le> day_offset r \<and> day_offset r \<le> 366), ValidationError),
      (\<not> z_known db (nr_timezone r), ValidationError),
      (not_ordinary (nr_classification r), ClassificationNotSupported),
      (length (nr_action_links r) > 8, ValidationError),
      (naive_opt (nr_created_at r), ValidationError)] r"

record agenda_occurrence =
  occ_item_id :: pystr
  occ_start :: datetime
  occ_end :: datetime
  occ_title :: pystr
  occ_replaced :: bool
  occ_creator :: "pystr option"

section \<open>Expansion\<close>

text \<open>
  Equality of datetimes, by which the exception map is looked up: the wall clocks for one
  tzinfo; the instants for different ones, where a local time whose offset depends on the
  fold equals nothing.
\<close>

definition fold_dependent :: "tzdb \<Rightarrow> datetime \<Rightarrow> bool" where
  "fold_dependent db d = (case dt_tz d of None \<Rightarrow> False
     | Some z \<Rightarrow> offset_of db z (dt_wall d) False \<noteq> offset_of db z (dt_wall d) True)"

definition dt_eq :: "tzdb \<Rightarrow> datetime \<Rightarrow> datetime \<Rightarrow> bool" where
  "dt_eq db a b = (if dt_tz a = dt_tz b then dt_wall a = dt_wall b
     else aware a \<and> aware b \<and> \<not> fold_dependent db a \<and> \<not> fold_dependent db b \<and> instant db a = instant db b)"

text \<open>The dict comprehension keeps the last exception of equal keys.\<close>

definition exception_for :: "tzdb \<Rightarrow> recurrence_exception list \<Rightarrow> datetime \<Rightarrow> recurrence_exception option" where
  "exception_for db xs start = find (\<lambda>x. dt_eq db (occurrence_at x) start) (rev xs)"

text \<open>The while loop over the months of the window, for a business-day rule.\<close>

function business_starts ::
  "tzdb \<Rightarrow> business_day_rule \<Rightarrow> datetime \<Rightarrow> datetime \<Rightarrow> int \<times> int \<Rightarrow> int \<Rightarrow> int \<Rightarrow> datetime list res" where
  "business_starts db rule item_start local_start final_month y m =
     (if \<not> (y < fst final_month \<or> (y = fst final_month \<and> m \<le> snd final_month)) then Inr []
      else and_then (monthly_business_day (rule_calendar rule) y m (rule_position rule)) (\<lambda>d.
        let occurrence = combine d (wall_time local_start) (dt_fold local_start) (dt_tz local_start);
            keep = (if dt_le db item_start occurrence then [occurrence] else [])
        in and_then (if m = 12 then business_starts db rule item_start local_start final_month (y + 1) 1
                     else business_starts db rule item_start local_start final_month y (m + 1))
             (\<lambda>rest. Inr (keep @ rest))))"
  by pat_completeness auto

text \<open>
  The months come from datetimes, so \<open>m\<close> lies in 1 to 12; the measure also covers the others,
  for which \<open>monthly_business_day\<close> raises at once.
\<close>

termination
  by (relation "measures [\<lambda>(db, rule, s, l, final_month, y, m). nat (fst final_month + 1 - y),
                          \<lambda>(db, rule, s, l, final_month, y, m). nat (13 - m)]")
    (auto simp: monthly_business_day_def split: if_splits)

declare business_starts.simps [simp del]

type_synonym rrule_between = "pystr \<Rightarrow> datetime \<Rightarrow> datetime \<Rightarrow> datetime \<Rightarrow> datetime list res"

definition item_duration :: "tzdb \<Rightarrow> agenda_item \<Rightarrow> micros" where
  "item_duration db a = dt_sub db (end_at a) (start_at a)"

definition item_starts ::
  "tzdb \<Rightarrow> rrule_between \<Rightarrow> agenda_item \<Rightarrow> datetime \<Rightarrow> datetime \<Rightarrow> datetime list res" where
  "item_starts db between a window_start window_end = (case recurrence a of
       None \<Rightarrow> Inr (if dt_le db (end_at a) window_start \<or> dt_le db window_end (start_at a)
                   then [] else [start_at a])
     | Some r \<Rightarrow> (case parse_business_day_rule (rrule_value r) of
         Some rule \<Rightarrow>
           (let z = ZoneInfo (ag_timezone a);
                local_start = astimezone db (start_at a) z;
                first = wall_date (astimezone db (dt_add window_start (- item_duration db a)) z);
                final = wall_date (astimezone db window_end z)
            in business_starts db rule (start_at a) local_start (year final, month final) (year first) (month first))
       | None \<Rightarrow> between (rrule_value r) (start_at a)
                   (dt_add window_start (- item_duration db a)) window_end))"

fun expand_starts :: "tzdb \<Rightarrow> agenda_item \<Rightarrow> datetime \<Rightarrow> datetime \<Rightarrow> recurrence_exception list
    \<Rightarrow> datetime list \<Rightarrow> agenda_occurrence list res" where
  "expand_starts db a ws we xs [] = Inr []"
| "expand_starts db a ws we xs (start # starts) =
     (let end = dt_add start (item_duration db a)
      in if dt_le db end ws \<or> dt_le db we start then expand_starts db a ws we xs starts
         else case exception_for db xs start of
            None \<Rightarrow> and_then (expand_starts db a ws we xs starts) (\<lambda>rest.
              Inr (\<lparr>occ_item_id = ag_id a, occ_start = start, occ_end = end, occ_title = ag_title a,
                    occ_replaced = False, occ_creator = ag_creator a\<rparr> # rest))
          | Some x \<Rightarrow> (case exc_action x of
              EXC_CANCEL \<Rightarrow> expand_starts db a ws we xs starts
            | EXC_REPLACE \<Rightarrow> (case (replacement_start x, replacement_end x) of
                (Some s, Some e) \<Rightarrow> and_then (expand_starts db a ws we xs starts) (\<lambda>rest.
                  Inr ((if dt_less db ws e \<and> dt_less db s we
                        then [\<lparr>occ_item_id = ag_id a, occ_start = s, occ_end = e, occ_title = ag_title a,
                               occ_replaced = True, occ_creator = ag_creator a\<rparr>]
                        else []) @ rest))
              | _ \<Rightarrow> Inl AssertionErr)))"

definition occurrences_between :: "tzdb \<Rightarrow> rrule_between \<Rightarrow> agenda_item \<Rightarrow> datetime \<Rightarrow> datetime
    \<Rightarrow> recurrence_exception list \<Rightarrow> agenda_occurrence list res" where
  "occurrences_between db between a ws we xs =
     (case raised [(\<not> aware ws, ValidationError), (\<not> aware we, ValidationError),
                   (dt_le db we ws, ValidationError)]
      of Some e \<Rightarrow> Inl e
       | None \<Rightarrow> and_then (item_starts db between a ws we) (expand_starts db a ws we xs))"

section \<open>Lemmas on lead times and rules\<close>

lemma sort_remdups_desc: "sorted_wrt (>) (rev (sort (remdups (xs::int list))))"
  by (simp add: sorted_wrt_rev strict_sorted_iff distinct_sort)

lemma desc_fixed: "sorted_wrt (>) (xs::int list) \<Longrightarrow> rev (sort (remdups xs)) = xs"
proof -
  assume d: "sorted_wrt (>) xs"
  then have "sorted_wrt (<) (rev xs)" by (simp add: sorted_wrt_rev)
  then have "sorted (rev xs)" "distinct (rev xs)" by (auto simp: strict_sorted_iff)
  then have "sorted_list_of_set (set (rev xs)) = rev xs"
    by (rule sorted_list_of_set.idem_if_sorted_distinct)
  then show ?thesis by (simp add: sorted_list_of_set_sort_remdups[symmetric])
qed

lemma decimal_value_ascii: "k < 10 \<Longrightarrow> decimal_value (48 + k) = Some k"
  by (simp add: decimal_value_def decimal_zeros_def)

lemma decimal_value_ascii_iff: "c < 128 \<Longrightarrow> decimal_value c = (if 48 \<le> c \<and> c < 58 then Some (c - 48) else None)"
  by (simp add: decimal_value_def decimal_zeros_def)

lemma match_position_dec:
  assumes "-99 \<le> p" "p \<le> 99"
  shows "match_position (dec p) = Some p"
proof -
  have digits: "dec_digits n = (if n < 10 then [48 + n] else [48 + n div 10, 48 + n mod 10])" if "n < 100" for n
  proof (cases "n < 10")
    case True
    then show ?thesis by (simp add: dec_digits.simps[of n])
  next
    case False
    have "n div 10 < 10" using that by (simp add: less_mult_imp_div_less)
    then show ?thesis using False by (simp add: dec_digits.simps[of n] dec_digits.simps[of "n div 10"])
  qed
  have m10: "n mod 10 < 10" for n :: nat by simp
  have d10: "n div 10 < 10" if "n < 100" for n :: nat using that by (simp add: less_mult_imp_div_less)
  define n where "n = nat \<bar>p\<bar>"
  have n: "n < 100" using assms by (simp add: n_def)
  have nz: "dec_digits n \<noteq> []" "hd (dec_digits n) \<noteq> 45" "length (dec_digits n) = 1 \<or> length (dec_digits n) = 2"
    "takeWhile is_decimal (dec_digits n) = dec_digits n"
    "dropWhile is_decimal (dec_digits n) = []"
    "decimal_number (dec_digits n) = n" "\<And>x. x \<in> set (dec_digits n) \<Longrightarrow> is_decimal x"
    using digits[OF n] decimal_value_ascii[of n] decimal_value_ascii[OF m10, of n]
      decimal_value_ascii[OF d10[OF n]]
    by (auto simp: decimal_number_def is_decimal_def split: if_splits)
  have dec: "dec p = (if p < 0 then 45 # dec_digits n else dec_digits n)"
    by (auto simp: dec_def n_def)
  obtain c cs where cs: "dec_digits n = c # cs" "c \<noteq> 45" using nz(1,2) by (cases "dec_digits n") auto
  show ?thesis
  proof (cases "p < 0")
    case True
    then show ?thesis using nz(3) n by (auto simp: dec match_position_def Let_def nz(4-7)) (simp_all add: n_def)
  next
    case False
    have "(case dec_digits n of c # _ \<Rightarrow> c = 45 | [] \<Rightarrow> False) = False" using cs by simp
    with False show ?thesis using nz(3)
      by (auto simp: dec match_position_def Let_def nz(4-7)) (simp_all add: n_def)
  qed
qed

lemma strip_prefix_append [simp]: "strip_prefix p (p @ s) = Some s"
  by (simp add: strip_prefix_def starts_with_def)

lemma token_chars:
  "list_all calendar_char (bc_token HONG_KONG)" "list_all calendar_char (bc_token MACAU)"
  "bc_token HONG_KONG \<noteq> []" "bc_token MACAU \<noteq> []" "bc_token MACAU \<noteq> bc_token HONG_KONG"
  by (simp_all add: HONG_KONG_def MACAU_def lit_def calendar_char_def)

lemma parse_written_rule:
  assumes "(token, c) \<in> set BUSINESS_CALENDARS" "-99 \<le> p" "p \<le> 99"
  shows "parse_business_day_rule (lit ''X-BUSINESS-DAY;CALENDAR='' @ token @ lit '';BYSETPOS='' @ dec p)
     = Some \<lparr>rule_calendar = c, rule_position = p\<rparr>"
proof -
  have tok: "list_all calendar_char token" "token \<noteq> []" "map_of BUSINESS_CALENDARS token = Some c"
    using assms(1) token_chars by (auto simp: BUSINESS_CALENDARS_def)
  have sep: "\<not> calendar_char (hd (lit '';BYSETPOS='' @ dec p))" "lit '';BYSETPOS='' @ dec p \<noteq> []"
    by (simp_all add: lit_def calendar_char_def)
  have "takeWhile calendar_char (token @ lit '';BYSETPOS='' @ dec p) = token"
    "dropWhile calendar_char (token @ lit '';BYSETPOS='' @ dec p) = lit '';BYSETPOS='' @ dec p"
    using tok(1) sep by (auto simp: takeWhile_append2 dropWhile_append2 list_all_iff takeWhile_eq_Nil_iff dropWhile_eq_self_iff)
  then show ?thesis
    using tok(2,3) match_position_dec[OF assms(2,3)]
    by (simp add: parse_business_day_rule_def match_business_rule_def Let_def)
qed

section \<open>Lemmas on the expansion\<close>

lemma dt_sub_swap: "dt_sub db a b = - dt_sub db b a"
  by (simp add: dt_sub_def)

lemma not_dt_le: "\<not> dt_le db a b \<longleftrightarrow> dt_less db b a"
  using dt_sub_swap[of db a b] by (auto simp: dt_le_def dt_less_def)

text \<open>What one start contributes.\<close>

definition contribution :: "tzdb \<Rightarrow> agenda_item \<Rightarrow> datetime \<Rightarrow> datetime \<Rightarrow> recurrence_exception list
    \<Rightarrow> datetime \<Rightarrow> agenda_occurrence list" where
  "contribution db a ws we xs start =
     (let end = dt_add start (item_duration db a)
      in if \<not> (dt_less db ws end \<and> dt_less db start we) then []
         else case exception_for db xs start of
            None \<Rightarrow> [\<lparr>occ_item_id = ag_id a, occ_start = start, occ_end = end, occ_title = ag_title a,
                    occ_replaced = False, occ_creator = ag_creator a\<rparr>]
          | Some x \<Rightarrow> if exc_action x = EXC_CANCEL then []
              else if dt_less db ws (the (replacement_end x)) \<and> dt_less db (the (replacement_start x)) we
              then [\<lparr>occ_item_id = ag_id a, occ_start = the (replacement_start x),
                     occ_end = the (replacement_end x), occ_title = ag_title a,
                     occ_replaced = True, occ_creator = ag_creator a\<rparr>]
              else [])"

definition exceptions_ok :: "tzdb \<Rightarrow> recurrence_exception list \<Rightarrow> bool" where
  "exceptions_ok db xs \<longleftrightarrow> list_all (\<lambda>x. new_recurrence_exception db x = Inr x) xs"

lemma exception_replacement:
  assumes "exceptions_ok db xs" "exception_for db xs start = Some x" "exc_action x = EXC_REPLACE"
  obtains s e where "replacement_start x = Some s" "replacement_end x = Some e" "dt_less db s e"
proof -
  have "x \<in> set xs" using assms(2) unfolding exception_for_def
    by (metis find_Some_iff nth_mem set_rev)
  then have "new_recurrence_exception db x = Inr x" using assms(1) by (simp add: exceptions_ok_def list_all_iff)
  from guarded_InrD[OF this[unfolded new_recurrence_exception_def]] assms(3) show ?thesis
    using that by (auto simp: not_dt_le)
qed

lemma expand_starts_eq:
  assumes "exceptions_ok db xs"
  shows "expand_starts db a ws we xs starts = Inr (concat (map (contribution db a ws we xs) starts))"
proof (induction starts)
  case Nil
  then show ?case by simp
next
  case (Cons s starts)
  let ?e = "dt_add s (item_duration db a)"
  have le: "dt_le db ?e ws \<or> dt_le db we s \<longleftrightarrow> \<not> (dt_less db ws ?e \<and> dt_less db s we)"
    by (metis not_dt_le)
  show ?case
  proof (cases "dt_less db ws ?e \<and> dt_less db s we")
    case False
    then show ?thesis using Cons le by (simp add: contribution_def)
  next
    case True
    then have in_window: "\<not> (dt_le db ?e ws \<or> dt_le db we s)" using le by blast
    show ?thesis
    proof (cases "exception_for db xs s")
      case None
      then show ?thesis using True in_window Cons by (simp add: contribution_def Let_def)
    next
      case (Some x)
      show ?thesis
      proof (cases "exc_action x")
        case EXC_CANCEL
        then show ?thesis using True in_window Some Cons by (simp add: contribution_def Let_def)
      next
        case EXC_REPLACE
        with Some obtain r q where "replacement_start x = Some r" "replacement_end x = Some q"
          using exception_replacement[OF assms] by blast
        then show ?thesis using True in_window Some EXC_REPLACE Cons by (simp add: contribution_def Let_def)
      qed
    qed
  qed
qed

lemma contribution_overlaps:
  "occ \<in> set (contribution db a ws we xs s) \<Longrightarrow> dt_less db ws (occ_end occ) \<and> dt_less db (occ_start occ) we"
  by (auto simp: contribution_def Let_def split: if_splits option.splits)

lemma contribution_source:
  assumes "exceptions_ok db xs" "occ \<in> set (contribution db a ws we xs s)"
  shows "if occ_replaced occ
     then \<exists>x. exception_for db xs s = Some x \<and> exc_action x = EXC_REPLACE
            \<and> replacement_start x = Some (occ_start occ) \<and> replacement_end x = Some (occ_end occ)
     else exception_for db xs s = None \<and> occ_start occ = s \<and> occ_end occ = dt_add s (item_duration db a)"
proof (cases "exception_for db xs s")
  case None
  then show ?thesis using assms(2) by (simp add: contribution_def Let_def split: if_splits)
next
  case (Some x)
  with assms(2) have r: "exc_action x = EXC_REPLACE"
    by (cases "exc_action x") (auto simp: contribution_def Let_def split: if_splits)
  then obtain b e where "replacement_start x = Some b" "replacement_end x = Some e"
    using exception_replacement[OF assms(1) Some] by blast
  then show ?thesis using assms(2) Some r by (simp add: contribution_def Let_def split: if_splits)
qed

lemma occurrences_between_eq:
  assumes "exceptions_ok db xs" "aware ws" "aware we" "dt_less db ws we"
  shows "occurrences_between db between a ws we xs
     = and_then (item_starts db between a ws we) (\<lambda>starts. Inr (concat (map (contribution db a ws we xs) starts)))"
proof -
  have "\<not> dt_le db we ws" using assms(4) by (simp add: not_dt_le)
  then show ?thesis using assms
    by (cases "item_starts db between a ws we") (simp_all add: occurrences_between_def expand_starts_eq)
qed

section \<open>The month loop\<close>

definition month_le :: "int \<times> int \<Rightarrow> int \<times> int \<Rightarrow> bool" where
  "month_le a b \<longleftrightarrow> fst a < fst b \<or> (fst a = fst b \<and> snd a \<le> snd b)"

text \<open>The occurrence a month gives, at the wall time and in the zone of the local start.\<close>

definition business_occurrence :: "business_day_rule \<Rightarrow> datetime \<Rightarrow> int \<times> int \<Rightarrow> datetime res" where
  "business_occurrence rule local_start ym = and_then
     (monthly_business_day (rule_calendar rule) (fst ym) (snd ym) (rule_position rule))
     (\<lambda>d. Inr (combine d (wall_time local_start) (dt_fold local_start) (dt_tz local_start)))"

lemma month_step:
  assumes "1 \<le> m" "m \<le> 12" "1 \<le> snd ym" "snd ym \<le> 12"
  shows "month_le (y, m) ym \<longleftrightarrow> ym = (y, m) \<or> month_le (if m = 12 then (y + 1, 1) else (y, m + 1)) ym"
  using assms by (cases ym) (auto simp: month_le_def)

lemma business_starts_set:
  assumes "business_starts db rule s0 ls fin y m = Inr starts" "1 \<le> m" "m \<le> 12"
  shows "set starts = {t. \<exists>ym. 1 \<le> snd ym \<and> snd ym \<le> 12 \<and> month_le (y, m) ym \<and> month_le ym fin
     \<and> business_occurrence rule ls ym = Inr t \<and> dt_le db s0 t}"
  using assms
proof (induction db rule s0 ls fin y m arbitrary: starts rule: business_starts.induct)
  case (1 db rule s0 ls fin y m)
  show ?case
  proof (cases "month_le (y, m) fin")
    case False
    then have "starts = []" using "1.prems"(1)
      by (subst (asm) business_starts.simps) (auto simp: month_le_def)
    moreover have "\<not> (month_le (y, m) ym \<and> month_le ym fin)" for ym
      using False by (cases ym) (auto simp: month_le_def)
    ultimately show ?thesis by auto
  next
    case True
    define ny where "ny = (if m = 12 then y + 1 else y)"
    define nm where "nm = (if m = 12 then 1 else m + 1)"
    from True "1.prems"(1) obtain d rest where
      d: "monthly_business_day (rule_calendar rule) y m (rule_position rule) = Inr d"
      and r: "business_starts db rule s0 ls fin ny nm = Inr rest"
      and st: "starts = (if dt_le db s0 (combine d (wall_time ls) (dt_fold ls) (dt_tz ls))
          then [combine d (wall_time ls) (dt_fold ls) (dt_tz ls)] else []) @ rest"
      by (subst (asm) business_starts.simps)
        (auto simp: month_le_def and_then_def Let_def ny_def nm_def split: sum.splits if_splits)
    have n: "1 \<le> nm" "nm \<le> 12" using "1.prems"(2,3) by (auto simp: nm_def)
    have ih: "set rest = {t. \<exists>ym. 1 \<le> snd ym \<and> snd ym \<le> 12 \<and> month_le (ny, nm) ym \<and> month_le ym fin
       \<and> business_occurrence rule ls ym = Inr t \<and> dt_le db s0 t}"
    proof (cases "m = 12")
      case m: True
      show ?thesis using "1.IH"(1)[OF _ d _ _ m] True r n m
        by (auto simp: month_le_def ny_def nm_def)
    next
      case m: False
      show ?thesis using "1.IH"(2)[OF _ d _ _ m] True r n m
        by (auto simp: month_le_def ny_def nm_def)
    qed
    have split: "month_le (y, m) ym \<longleftrightarrow> ym = (y, m) \<or> month_le (ny, nm) ym"
      if "1 \<le> snd ym" "snd ym \<le> 12" for ym
      using month_step[OF "1.prems"(2,3) that, of y] by (simp add: ny_def nm_def split: if_splits)
    have here: "business_occurrence rule ls (y, m) = Inr (combine d (wall_time ls) (dt_fold ls) (dt_tz ls))"
      using d by (simp add: business_occurrence_def)
    have ex: "(\<exists>ym. 1 \<le> snd ym \<and> snd ym \<le> 12 \<and> month_le (y, m) ym \<and> R ym) \<longleftrightarrow>
        R (y, m) \<or> (\<exists>ym. 1 \<le> snd ym \<and> snd ym \<le> 12 \<and> month_le (ny, nm) ym \<and> R ym)" for R
      using split "1.prems"(2,3) by (metis snd_conv)
    show ?thesis unfolding st set_append ih ex using True here by (auto split: if_splits)
  qed
qed

context business_region
begin

text \<open>In the installed years the first and the last business day never make the loop raise.\<close>

lemma business_starts_total:
  assumes "rule_calendar rule = c" "rule_position rule \<in> {1, -1}" "1 \<le> m" "m \<le> 12"
    and "\<And>z. y \<le> z \<Longrightarrow> z \<le> fst fin \<Longrightarrow> z \<in> supported_years c"
  shows "\<exists>starts. business_starts db rule s0 ls fin y m = Inr starts"
  using assms
proof (induction db rule s0 ls fin y m rule: business_starts.induct)
  case (1 db rule s0 ls fin y m)
  show ?case
  proof (cases "month_le (y, m) fin")
    case False
    then show ?thesis by (subst business_starts.simps) (auto simp: month_le_def)
  next
    case True
    then have "y \<in> supported_years c" using "1.prems"(5)[of y] by (auto simp: month_le_def)
    then obtain d where d: "monthly_business_day (rule_calendar rule) y m (rule_position rule) = Inr d"
      using "1.prems"(1-4) first_and_last[of y m] by auto
    have more: "\<exists>starts. business_starts db rule s0 ls fin (if m = 12 then y + 1 else y)
        (if m = 12 then 1 else m + 1) = Inr starts"
    proof (cases "m = 12")
      case m: True
      show ?thesis using "1.IH"(1)[OF _ d _ _ m] True "1.prems" m by (auto simp: month_le_def)
    next
      case m: False
      show ?thesis using "1.IH"(2)[OF _ d _ _ m] True "1.prems" m by (auto simp: month_le_def)
    qed
    then show ?thesis using True d
      by (subst business_starts.simps) (auto simp: month_le_def Let_def split: if_splits)
  qed
qed

end

section \<open>Properties\<close>


definition sample_item :: agenda_item where
  "sample_item = \<lparr>ag_id = lit ''a'', ag_owner = lit ''u'', ag_title = lit ''meet'', start_at = utc 100, end_at = utc 200,
     ag_timezone = lit ''UTC'', ag_creator = None, all_day = False, ag_description = [], ag_action_links = [],
     ag_classification = PERSONAL, recurrence = None, ag_version = 1, ag_created_at = None, ag_updated_at = None\<rparr>"

definition no_rrule :: rrule_between where
  "no_rrule v s a b = Inr []"


text \<open>
  C27. Business-day recurrences keep their wall time and miss no month: the starts of the expansion
  are exactly the occurrences, at the item's local time of day in the item's zone, of the business
  day at the rule's position in the months from the window's first to its last, not before the
  item's own start.
\<close>

theorem business_recurrence_exact:
  assumes "recurrence a = Some r" "parse_business_day_rule (rrule_value r) = Some rule"
    and "item_starts db between a ws we = Inr starts"
    and "first = wall_date (astimezone db (dt_add ws (- item_duration db a)) (ZoneInfo (ag_timezone a)))"
    and "final = wall_date (astimezone db we (ZoneInfo (ag_timezone a)))"
    and "local_start = astimezone db (start_at a) (ZoneInfo (ag_timezone a))"
    and "1 \<le> month first" "month first \<le> 12"
  shows "t \<in> set starts \<longleftrightarrow> (\<exists>y m d. 1 \<le> m \<and> m \<le> 12
     \<and> month_le (year first, month first) (y, m) \<and> month_le (y, m) (year final, month final)
     \<and> monthly_business_day (rule_calendar rule) y m (rule_position rule) = Inr d
     \<and> t = combine d (wall_time local_start) (dt_fold local_start) (Some (ZoneInfo (ag_timezone a)))
     \<and> dt_le db (start_at a) t)"
proof -
  have tz: "dt_tz local_start = Some (ZoneInfo (ag_timezone a))"
    unfolding assms(6) by (simp add: astimezone_def Let_def)
  have "business_starts db rule (start_at a) local_start (year final, month final) (year first) (month first) = Inr starts"
    using assms(1-6) by (simp add: item_starts_def Let_def)
  from business_starts_set[OF this assms(7,8)] have "t \<in> set starts \<longleftrightarrow>
      (\<exists>y m. 1 \<le> m \<and> m \<le> 12 \<and> month_le (year first, month first) (y, m) \<and> month_le (y, m) (year final, month final)
        \<and> business_occurrence rule local_start (y, m) = Inr t \<and> dt_le db (start_at a) t)"
    by (simp add: split_paired_Ex)
  moreover have "business_occurrence rule local_start (y, m) = Inr t \<longleftrightarrow>
      (\<exists>d. monthly_business_day (rule_calendar rule) y m (rule_position rule) = Inr d
        \<and> t = combine d (wall_time local_start) (dt_fold local_start) (Some (ZoneInfo (ag_timezone a))))" for y m
    by (auto simp: business_occurrence_def and_then_Inr tz)
  ultimately show ?thesis by blast
qed

text \<open>The last business day of a month in Hong Kong, at 09:00 UTC, over a window in early 2026.\<close>

definition payday_rule :: recurrence_rule where
  "payday_rule = \<lparr>rrule_value = lit ''X-BUSINESS-DAY;CALENDAR=HK_GENERAL_HOLIDAYS;BYSETPOS=-1'', rrule_timezone = lit ''UTC''\<rparr>"

definition payday_item :: agenda_item where
  "payday_item = sample_item\<lparr>start_at := combine (mk_date 2026 1 5) (9 * us_hour) False (Some TzUTC),
     end_at := combine (mk_date 2026 1 5) (10 * us_hour) False (Some TzUTC), recurrence := Some payday_rule\<rparr>"

lemma payday_rule_parses:
  "parse_business_day_rule (rrule_value payday_rule) = Some \<lparr>rule_calendar = HONG_KONG, rule_position = -1\<rparr>"
proof -
  have "rrule_value payday_rule
      = lit ''X-BUSINESS-DAY;CALENDAR='' @ bc_token HONG_KONG @ lit '';BYSETPOS='' @ dec (-1)"
    by (simp add: payday_rule_def lit_def HONG_KONG_def dec_def dec_digits.simps)
  then show ?thesis using parse_written_rule[of "bc_token HONG_KONG" HONG_KONG "-1"]
    by (simp add: BUSINESS_CALENDARS_def)
qed

theorem business_recurrence_exact_witness:
  "\<exists>starts. item_starts utc_only no_rrule payday_item (combine (mk_date 2026 1 1) 0 False (Some TzUTC))
       (combine (mk_date 2026 3 1) 0 False (Some TzUTC)) = Inr starts
     \<and> (\<forall>t. t \<in> set starts \<longleftrightarrow> (\<exists>y m d. 1 \<le> m \<and> m \<le> 12 \<and> month_le (2025, 12) (y, m) \<and> month_le (y, m) (2026, 3)
          \<and> monthly_business_day HONG_KONG y m (-1) = Inr d
          \<and> t = combine d 32400000000 False (Some (ZoneInfo (lit ''UTC'')))
          \<and> dt_le utc_only (start_at payday_item) t))"
proof -
  let ?ws = "combine (mk_date 2026 1 1) 0 False (Some TzUTC)"
  let ?we = "combine (mk_date 2026 3 1) 0 False (Some TzUTC)"
  let ?z = "ZoneInfo (lit ''UTC'')"
  have z: "ag_timezone payday_item = lit ''UTC''" "recurrence payday_item = Some payday_rule"
    by (simp_all add: payday_item_def sample_item_def)
  have utc: "astimezone utc_only (combine d t False (Some TzUTC)) ?z = combine d t False (Some ?z)" for d t
    by (simp add: astimezone_def combine_def instant_def utc_only_def)
  have dur: "item_duration utc_only payday_item = us_hour"
    by (simp add: item_duration_def payday_item_def combine_def dt_sub_def)
  have ws: "dt_add ?ws (- us_hour) = combine (mk_date 2025 12 31) 82800000000 False (Some TzUTC)"
    by (simp add: dt_add_def combine_def toordinal_def days_before_year_def days_before_month_def is_leap_def)
  have first: "wall_date (combine (mk_date 2025 12 31) 82800000000 False (Some ?z)) = mk_date 2025 12 31"
    and final: "wall_date (combine (mk_date 2026 3 1) 0 False (Some ?z)) = mk_date 2026 3 1"
    by code_simp+
  have ls: "wall_time (combine (mk_date 2026 1 5) 32400000000 False (Some ?z)) = 32400000000"
    by code_simp
  have s: "start_at payday_item = combine (mk_date 2026 1 5) 32400000000 False (Some TzUTC)"
    by (simp add: payday_item_def)
  have years: "y \<in> supported_years HONG_KONG" if "2025 \<le> y" "y \<le> fst (2026::int, 3::int)" for y
    using that by (auto simp: HONG_KONG_def SUPPORTED_YEARS_def)
  have "\<exists>starts. item_starts utc_only no_rrule payday_item ?ws ?we = Inr starts"
    using hong_kong.business_starts_total[of "\<lparr>rule_calendar = HONG_KONG, rule_position = -1\<rparr>" 12 2025 "(2026, 3)",
        OF _ _ _ _ years]
    by (simp add: item_starts_def z payday_rule_parses utc dur ws s first final Let_def)
  then obtain starts where st: "item_starts utc_only no_rrule payday_item ?ws ?we = Inr starts" ..
  show ?thesis
    using st business_recurrence_exact[OF z(2) payday_rule_parses st refl refl refl]
    by (simp add: z utc dur ws s first final ls) (simp add: combine_def)
qed

text \<open>
  The rule syntax round-trips: the text written for an installed calendar and a position of
  at most two digits parses back to that calendar and position.
\<close>

lemma business_rule_round_trip:
  assumes "(token, c) \<in> set BUSINESS_CALENDARS" "-99 \<le> p" "p \<le> 99"
  shows "parse_business_day_rule (lit ''X-BUSINESS-DAY;CALENDAR='' @ token @ lit '';BYSETPOS='' @ dec p)
     = Some \<lparr>rule_calendar = c, rule_position = p\<rparr>"
  by (rule parse_written_rule[OF assms])

text \<open>
  Lead times are normalised to a strictly descending list with the same elements, at most
  twelve of them within 0 to 366 days, and exactly the other inputs are refused; normalising
  twice changes nothing.
\<close>

lemma normalise_lead_minutes_correct:
  "(case normalise_lead_minutes vs of
      Inr us \<Rightarrow> sorted_wrt (>) us \<and> set us = set vs \<and> length us \<le> 12 \<and> normalise_lead_minutes us = Inr us
    | Inl e \<Rightarrow> e = ValidationError)
   \<and> (is_ok (normalise_lead_minutes vs) \<longleftrightarrow> card (set vs) \<le> 12 \<and> set vs \<subseteq> {0..527040})"
proof -
  define us where "us = rev (sort (remdups vs))"
  have us: "sorted_wrt (>) us" "set us = set vs" "length us = card (set vs)" "rev (sort (remdups us)) = us"
    using sort_remdups_desc[of vs] desc_fixed[of us]
    by (auto simp: us_def length_remdups_card_conv)
  have n: "normalise_lead_minutes vs = guarded
      [(length us > 12, ValidationError), (list_ex (\<lambda>v. \<not> (0 \<le> v \<and> v \<le> 527040)) us, ValidationError)] us"
    by (simp add: normalise_lead_minutes_def us_def Let_def MAXIMUM_LEAD_ENTRIES_def MAXIMUM_LEAD_MINUTES_def)
  have m: "normalise_lead_minutes us = normalise_lead_minutes vs"
    unfolding n by (simp add: normalise_lead_minutes_def Let_def us(4) MAXIMUM_LEAD_ENTRIES_def MAXIMUM_LEAD_MINUTES_def)
  show ?thesis
  proof (cases "length us \<le> 12 \<and> \<not> list_ex (\<lambda>v. \<not> (0 \<le> v \<and> v \<le> 527040)) us")
    case True
    then have "normalise_lead_minutes vs = Inr us" unfolding n by (auto simp: guarded_def)
    with True m us show ?thesis by (auto simp: list_ex_iff)
  next
    case False
    then have "normalise_lead_minutes vs = Inl ValidationError" unfolding n by (auto simp: guarded_def)
    with False us show ?thesis by (auto simp: list_ex_iff)
  qed
qed

text \<open>
  C40. Expanding a first- or last-business-day rule never raises inside the installed years: on
  both snapshots the month loop ends with a list of starts whenever every year it visits is
  installed.
\<close>

theorem payday_expansion_total:
  assumes "rule_calendar rule = HONG_KONG \<or> rule_calendar rule = MACAU"
    and "rule_position rule = 1 \<or> rule_position rule = -1"
    and "1 \<le> m" "m \<le> 12" "2025 \<le> y" "fst fin \<le> 2027"
  shows "\<exists>starts. business_starts db rule s0 ls fin y m = Inr starts"
proof -
  have y: "\<And>z. y \<le> z \<Longrightarrow> z \<le> fst fin \<Longrightarrow> z \<in> SUPPORTED_YEARS"
    using assms(5,6) by (auto simp: SUPPORTED_YEARS_def)
  have s: "supported_years HONG_KONG = SUPPORTED_YEARS" "supported_years MACAU = SUPPORTED_YEARS"
    by (simp_all add: HONG_KONG_def MACAU_def)
  show ?thesis
    using assms(1,2) hong_kong.business_starts_total[OF _ _ assms(3,4), of rule y fin db s0 ls]
      macau.business_starts_total[OF _ _ assms(3,4), of rule y fin db s0 ls] y s by auto
qed

theorem payday_expansion_total_witness:
  "\<exists>starts. business_starts utc_only \<lparr>rule_calendar = MACAU, rule_position = -1\<rparr> (utc 0) (utc 0) (2027, 12) 2025 1 = Inr starts"
  by (rule payday_expansion_total) simp_all

end
