(* ===== verification/Lunar.thy ===== *)
theory Lunar
  imports BusinessCalendar "HOL-Library.AList"
begin

text \<open>
  The Chinese lunisolar calendar snapshot, \<^verbatim>\<open>src/zhixu/domain/lunar_calendar.py\<close>: the table as the
  source spells it and \<^verbatim>\<open>_load\<close>, which parses it; the months of a lunar year with the intercalary
  month; \<^verbatim>\<open>month_length\<close>, \<^verbatim>\<open>to_solar\<close>, \<^verbatim>\<open>from_solar\<close> and \<^verbatim>\<open>leap_month\<close>.
\<close>

definition YEAR_VALUES :: pystr where
  "YEAR_VALUES = text_lines [
     ''2000 2000-02-05 0 30,30,29,29,30,29,29,30,29,30,30,29'',
     ''2001 2001-01-24 4 30,30,29,30,29,30,29,29,30,29,30,29,30'',
     ''2002 2002-02-12 0 30,30,29,30,29,30,29,29,30,29,30,29'',
     ''2003 2003-02-01 0 30,30,29,30,30,29,30,29,29,30,29,30'',
     ''2004 2004-01-22 2 29,30,29,30,30,29,30,29,30,29,30,29,30'',
     ''2005 2005-02-09 0 29,30,29,30,29,30,30,29,30,29,30,29'',
     ''2006 2006-01-29 7 30,29,30,29,30,29,30,29,30,30,29,30,30'',
     ''2007 2007-02-18 0 29,29,30,29,29,30,29,30,30,30,29,30'',
     ''2008 2008-02-07 0 30,29,29,30,29,29,30,29,30,30,29,30'',
     ''2009 2009-01-26 5 30,30,29,29,30,29,29,30,29,30,29,30,30'',
     ''2010 2010-02-14 0 30,29,30,29,30,29,29,30,29,30,29,30'',
     ''2011 2011-02-03 0 30,29,30,30,29,30,29,29,30,29,30,29'',
     ''2012 2012-01-23 4 30,29,30,30,29,30,29,30,29,30,29,30,29'',
     ''2013 2013-02-10 0 30,29,30,29,30,30,29,30,29,30,29,30'',
     ''2014 2014-01-31 9 29,30,29,30,29,30,29,30,30,29,30,29,30'',
     ''2015 2015-02-19 0 29,30,29,29,30,29,30,30,30,29,30,29'',
     ''2016 2016-02-08 0 30,29,30,29,29,30,29,30,30,29,30,30'',
     ''2017 2017-01-28 6 29,30,29,30,29,29,30,29,30,29,30,30,30'',
     ''2018 2018-02-16 0 29,30,29,30,29,29,30,29,30,29,30,30'',
     ''2019 2019-02-05 0 30,29,30,29,30,29,29,30,29,29,30,30'',
     ''2020 2020-01-25 4 29,30,30,30,29,30,29,29,30,29,30,29,30'',
     ''2021 2021-02-12 0 29,30,30,29,30,29,30,29,30,29,30,29'',
     ''2022 2022-02-01 0 30,29,30,29,30,30,29,30,29,30,29,30'',
     ''2023 2023-01-22 2 29,30,29,29,30,30,29,30,30,29,30,29,30'',
     ''2024 2024-02-10 0 29,30,29,29,30,29,30,30,29,30,30,29'',
     ''2025 2025-01-29 6 30,29,30,29,29,30,29,30,29,30,30,30,29'',
     ''2026 2026-02-17 0 30,29,30,29,29,30,29,29,30,30,30,29'',
     ''2027 2027-02-06 0 30,30,29,30,29,29,30,29,29,30,30,29'']"

record lunar_date =
  ld_year :: int
  ld_month :: int
  ld_day :: int
  ld_leap :: bool

abbreviation mk_lunar :: "int \<Rightarrow> int \<Rightarrow> int \<Rightarrow> bool \<Rightarrow> lunar_date" where
  "mk_lunar y m d l \<equiv> \<lparr>ld_year = y, ld_month = m, ld_day = d, ld_leap = l\<rparr>"

definition new_lunar_date :: "lunar_date \<Rightarrow> lunar_date res" where
  "new_lunar_date d = guarded
     [(\<not> (1 \<le> ld_month d \<and> ld_month d \<le> 12), ValidationError),
      (\<not> (1 \<le> ld_day d \<and> ld_day d \<le> 30), ValidationError)] d"

record lunar_year =
  ly_start :: date
  ly_leap_month :: int
  ly_lengths :: "int list"

type_synonym lunar_month = "int \<times> bool \<times> int"

fun months_loop :: "int \<Rightarrow> int \<Rightarrow> bool \<Rightarrow> int list \<Rightarrow> lunar_month list" where
  "months_loop leap_month number seen_leap [] = []"
| "months_loop leap_month number seen_leap (len # lens) =
     (if \<not> seen_leap \<and> leap_month \<noteq> 0 \<and> number - 1 = leap_month
      then (leap_month, True, len) # months_loop leap_month number True lens
      else (number, False, len) # months_loop leap_month (number + 1) seen_leap lens)"

definition months :: "lunar_year \<Rightarrow> lunar_month list" where
  "months e = months_loop (ly_leap_month e) 1 False (ly_lengths e)"

section \<open>Loading the table\<close>

text \<open>\<^verbatim>\<open>text.split(sep)\<close> for a one-character separator.\<close>

fun split_on :: "nat \<Rightarrow> pystr \<Rightarrow> pystr list" where
  "split_on c [] = [[]]"
| "split_on c (x # xs) =
     (if x = c then [] # split_on c xs
      else case split_on c xs of [] \<Rightarrow> [[x]] | w # ws \<Rightarrow> (x # w) # ws)"

text \<open>\<^verbatim>\<open>int(text)\<close> for the digits the table has.\<close>

definition py_int :: "pystr \<Rightarrow> int res" where
  "py_int s = (if s \<noteq> [] \<and> all_digits s then Inr (int (digits_value s)) else Inl ValueErr)"

definition load_line :: "pystr \<Rightarrow> (int \<times> lunar_year) res" where
  "load_line line = (case py_split line of
       [y, start, leap_month, lengths] \<Rightarrow>
         and_then (py_int y) (\<lambda>y. and_then (date_fromisoformat start) (\<lambda>s.
           and_then (py_int leap_month) (\<lambda>l. and_then (map_res py_int (split_on 44 lengths)) (\<lambda>ls.
             Inr (y, \<lparr>ly_start = s, ly_leap_month = l, ly_lengths = ls\<rparr>)))))
     | _ \<Rightarrow> Inl ValueErr)"

definition load_years :: "pystr \<Rightarrow> (int \<times> lunar_year) list res" where
  "load_years values = and_then (map_res load_line (filter (\<lambda>l. \<not> blank l) (split_on 10 values)))
     (\<lambda>rows. Inr (foldl (\<lambda>t (y, e). AList.update y e t) [] rows))"

fun constant_list :: "'a list res \<Rightarrow> 'a list" where
  "constant_list (Inl e) = []"
| "constant_list (Inr xs) = xs"

definition YEARS :: "(int \<times> lunar_year) list" where
  "YEARS = constant_list (load_years YEAR_VALUES)"

definition year_entry :: "int \<Rightarrow> lunar_year res" where
  "year_entry y = (case map_of YEARS y of None \<Rightarrow> Inl ValidationError | Some e \<Rightarrow> Inr e)"

section \<open>Conversions\<close>

fun find_length :: "int \<Rightarrow> bool \<Rightarrow> lunar_month list \<Rightarrow> int res" where
  "find_length m l [] = Inl ValidationError"
| "find_length m l ((number, leap, len) # ms) =
     (if number = m \<and> leap = l then Inr len else find_length m l ms)"

definition month_length :: "int \<Rightarrow> int \<Rightarrow> bool \<Rightarrow> int res" where
  "month_length y m l = and_then (year_entry y) (\<lambda>e. find_length m l (months e))"

fun solar_loop :: "date \<Rightarrow> lunar_date \<Rightarrow> bool \<Rightarrow> int \<Rightarrow> lunar_month list \<Rightarrow> date res" where
  "solar_loop start v clamp offset [] = Inl ValidationError"
| "solar_loop start v clamp offset ((number, leap, len) # ms) =
     (if number = ld_month v \<and> leap = ld_leap v
      then (if ld_day v > len
            then (if \<not> clamp then Inl ValidationError else Inr (date_add start (offset + len - 1)))
            else Inr (date_add start (offset + ld_day v - 1)))
      else solar_loop start v clamp (offset + len) ms)"

definition to_solar :: "lunar_date \<Rightarrow> bool \<Rightarrow> date res" where
  "to_solar v clamp = and_then (year_entry (ld_year v))
     (\<lambda>e. solar_loop (ly_start e) v clamp 0 (months e))"

text \<open>The inner loop of \<^verbatim>\<open>from_solar\<close>; None when the months end before the offset does.\<close>

fun lunar_loop :: "int \<Rightarrow> int \<Rightarrow> lunar_month list \<Rightarrow> lunar_date res option" where
  "lunar_loop y offset [] = None"
| "lunar_loop y offset ((number, leap, len) # ms) =
     (if offset < len then Some (new_lunar_date (mk_lunar y number (offset + 1) leap))
      else lunar_loop y (offset - len) ms)"

fun from_solar_loop :: "date \<Rightarrow> int list \<Rightarrow> lunar_date res" where
  "from_solar_loop v [] = Inl ValidationError"
| "from_solar_loop v (y # ys) =
     (case map_of YEARS y of None \<Rightarrow> Inl KeyErr
      | Some e \<Rightarrow>
         if \<not> (date_le (ly_start e) v \<and> \<not> date_le (date_add (ly_start e) (sum_list (ly_lengths e))) v)
         then from_solar_loop v ys
         else case lunar_loop y (date_diff v (ly_start e)) (months e) of
                Some r \<Rightarrow> r | None \<Rightarrow> from_solar_loop v ys)"

definition from_solar :: "date \<Rightarrow> lunar_date res" where
  "from_solar v = from_solar_loop v (sort (map fst YEARS))"

definition leap_month_of :: "int \<Rightarrow> int res" where
  "leap_month_of y = and_then (year_entry y) (\<lambda>e. Inr (ly_leap_month e))"

section \<open>The table\<close>

definition lunar_table :: "(int \<times> lunar_year) list" where
  "lunar_table =
     [(2000, \<lparr>ly_start = mk_date 2000 2 5, ly_leap_month = 0, ly_lengths = [30,30,29,29,30,29,29,30,29,30,30,29]\<rparr>),
      (2001, \<lparr>ly_start = mk_date 2001 1 24, ly_leap_month = 4, ly_lengths = [30,30,29,30,29,30,29,29,30,29,30,29,30]\<rparr>),
      (2002, \<lparr>ly_start = mk_date 2002 2 12, ly_leap_month = 0, ly_lengths = [30,30,29,30,29,30,29,29,30,29,30,29]\<rparr>),
      (2003, \<lparr>ly_start = mk_date 2003 2 1, ly_leap_month = 0, ly_lengths = [30,30,29,30,30,29,30,29,29,30,29,30]\<rparr>),
      (2004, \<lparr>ly_start = mk_date 2004 1 22, ly_leap_month = 2, ly_lengths = [29,30,29,30,30,29,30,29,30,29,30,29,30]\<rparr>),
      (2005, \<lparr>ly_start = mk_date 2005 2 9, ly_leap_month = 0, ly_lengths = [29,30,29,30,29,30,30,29,30,29,30,29]\<rparr>),
      (2006, \<lparr>ly_start = mk_date 2006 1 29, ly_leap_month = 7, ly_lengths = [30,29,30,29,30,29,30,29,30,30,29,30,30]\<rparr>),
      (2007, \<lparr>ly_start = mk_date 2007 2 18, ly_leap_month = 0, ly_lengths = [29,29,30,29,29,30,29,30,30,30,29,30]\<rparr>),
      (2008, \<lparr>ly_start = mk_date 2008 2 7, ly_leap_month = 0, ly_lengths = [30,29,29,30,29,29,30,29,30,30,29,30]\<rparr>),
      (2009, \<lparr>ly_start = mk_date 2009 1 26, ly_leap_month = 5, ly_lengths = [30,30,29,29,30,29,29,30,29,30,29,30,30]\<rparr>),
      (2010, \<lparr>ly_start = mk_date 2010 2 14, ly_leap_month = 0, ly_lengths = [30,29,30,29,30,29,29,30,29,30,29,30]\<rparr>),
      (2011, \<lparr>ly_start = mk_date 2011 2 3, ly_leap_month = 0, ly_lengths = [30,29,30,30,29,30,29,29,30,29,30,29]\<rparr>),
      (2012, \<lparr>ly_start = mk_date 2012 1 23, ly_leap_month = 4, ly_lengths = [30,29,30,30,29,30,29,30,29,30,29,30,29]\<rparr>),
      (2013, \<lparr>ly_start = mk_date 2013 2 10, ly_leap_month = 0, ly_lengths = [30,29,30,29,30,30,29,30,29,30,29,30]\<rparr>),
      (2014, \<lparr>ly_start = mk_date 2014 1 31, ly_leap_month = 9, ly_lengths = [29,30,29,30,29,30,29,30,30,29,30,29,30]\<rparr>),
      (2015, \<lparr>ly_start = mk_date 2015 2 19, ly_leap_month = 0, ly_lengths = [29,30,29,29,30,29,30,30,30,29,30,29]\<rparr>),
      (2016, \<lparr>ly_start = mk_date 2016 2 8, ly_leap_month = 0, ly_lengths = [30,29,30,29,29,30,29,30,30,29,30,30]\<rparr>),
      (2017, \<lparr>ly_start = mk_date 2017 1 28, ly_leap_month = 6, ly_lengths = [29,30,29,30,29,29,30,29,30,29,30,30,30]\<rparr>),
      (2018, \<lparr>ly_start = mk_date 2018 2 16, ly_leap_month = 0, ly_lengths = [29,30,29,30,29,29,30,29,30,29,30,30]\<rparr>),
      (2019, \<lparr>ly_start = mk_date 2019 2 5, ly_leap_month = 0, ly_lengths = [30,29,30,29,30,29,29,30,29,29,30,30]\<rparr>),
      (2020, \<lparr>ly_start = mk_date 2020 1 25, ly_leap_month = 4, ly_lengths = [29,30,30,30,29,30,29,29,30,29,30,29,30]\<rparr>),
      (2021, \<lparr>ly_start = mk_date 2021 2 12, ly_leap_month = 0, ly_lengths = [29,30,30,29,30,29,30,29,30,29,30,29]\<rparr>),
      (2022, \<lparr>ly_start = mk_date 2022 2 1, ly_leap_month = 0, ly_lengths = [30,29,30,29,30,30,29,30,29,30,29,30]\<rparr>),
      (2023, \<lparr>ly_start = mk_date 2023 1 22, ly_leap_month = 2, ly_lengths = [29,30,29,29,30,30,29,30,30,29,30,29,30]\<rparr>),
      (2024, \<lparr>ly_start = mk_date 2024 2 10, ly_leap_month = 0, ly_lengths = [29,30,29,29,30,29,30,30,29,30,30,29]\<rparr>),
      (2025, \<lparr>ly_start = mk_date 2025 1 29, ly_leap_month = 6, ly_lengths = [30,29,30,29,29,30,29,30,29,30,30,30,29]\<rparr>),
      (2026, \<lparr>ly_start = mk_date 2026 2 17, ly_leap_month = 0, ly_lengths = [30,29,30,29,29,30,29,29,30,30,30,29]\<rparr>),
      (2027, \<lparr>ly_start = mk_date 2027 2 6, ly_leap_month = 0, ly_lengths = [30,30,29,30,29,29,30,29,29,30,30,29]\<rparr>)]"

lemma split_on_append: "10 \<notin> set s \<Longrightarrow> split_on 10 (s @ 10 # t) = s # split_on 10 t"
  by (induction s) auto

lemma split_on_lines:
  assumes "\<forall>l \<in> set ls. 10 \<notin> set (lit l)"
  shows "split_on 10 (text_lines ls) = [] # map lit ls @ [[]]"
proof -
  have "split_on 10 (concat (map (\<lambda>l. lit l @ [10]) ls)) = map lit ls @ [[]]"
    using assms by (induction ls) (simp_all add: split_on_append)
  then show ?thesis by (simp add: text_lines_def)
qed

lemma load_years_lines:
  assumes "\<forall>l \<in> set ls. 10 \<notin> set (lit l) \<and> \<not> blank (lit l)" "map_res load_line (map lit ls) = Inr rows"
  shows "load_years (text_lines ls) = Inr (foldl (\<lambda>t (y, e). AList.update y e t) [] rows)"
proof -
  have "filter (\<lambda>l. \<not> blank l) (split_on 10 (text_lines ls)) = map lit ls"
    using assms(1) split_on_lines[of ls] by (simp add: filter_id_conv blank_def)
  then show ?thesis using assms(2) by (simp add: load_years_def)
qed

lemma load_table: "load_years YEAR_VALUES = Inr lunar_table"
proof -
  have "load_years YEAR_VALUES = Inr (foldl (\<lambda>t (y, e). AList.update y e t) [] lunar_table)"
    unfolding YEAR_VALUES_def
    by (rule load_years_lines)
      (simp_all add: lunar_table_def load_line_def holiday_eval py_int_def blank_def)
  also have "foldl (\<lambda>t (y, e). AList.update y e t) [] lunar_table = lunar_table"
    by (simp add: lunar_table_def)
  finally show ?thesis .
qed

lemma YEARS_eq [code]: "YEARS = lunar_table"
  by (simp add: YEARS_def load_table)

section \<open>Well-formedness of the table\<close>

text \<open>
  What a row must satisfy for the conversions to be inverse to each other: the months are
  named apart, each has 1 to 30 days and a number from 1 to 12, and the year starts at a date.
\<close>

definition year_ok :: "int \<times> lunar_year \<Rightarrow> bool" where
  "year_ok r = (case r of (y, e) \<Rightarrow>
     valid_date (ly_start e)
     \<and> distinct (map (\<lambda>(n, l, len). (n, l)) (months e))
     \<and> list_all (\<lambda>(n, l, len). 1 \<le> n \<and> n \<le> 12 \<and> 1 \<le> len \<and> len \<le> 30) (months e)
     \<and> toordinal (ly_start e) + sum_list (ly_lengths e) \<le> 3652059)"

fun contiguous :: "(int \<times> lunar_year) list \<Rightarrow> bool" where
  "contiguous ((y, e) # (z, f) # t) \<longleftrightarrow>
     z = y + 1 \<and> toordinal (ly_start f) = toordinal (ly_start e) + sum_list (ly_lengths e)
     \<and> contiguous ((z, f) # t)"
| "contiguous t \<longleftrightarrow> True"

lemma table_ok: "list_all year_ok lunar_table"
  by code_simp

lemma table_contiguous: "contiguous lunar_table"
  by code_simp

lemma table_years: "map fst lunar_table = [2000..2027]"
  by code_simp

lemma sum_months: "sum_list (map (\<lambda>(n, l, len). len) (months_loop k n s lens)) = sum_list lens"
  by (induction k n s lens rule: months_loop.induct) auto

lemma span_months: "sum_list (map (\<lambda>(n, l, len). len) (months e)) = sum_list (ly_lengths e)"
  by (simp add: months_def sum_months)

section \<open>The two loops\<close>

text \<open>The offset of a named month and its length.\<close>

fun locate :: "int \<Rightarrow> bool \<Rightarrow> lunar_month list \<Rightarrow> (int \<times> int) option" where
  "locate m l [] = None"
| "locate m l ((number, leap, len) # ms) =
     (if number = m \<and> leap = l then Some (0, len)
      else map_option (\<lambda>(off, k). (off + len, k)) (locate m l ms))"

lemma solar_loop_locate:
  "solar_loop s v clamp offset ms = (case locate (ld_month v) (ld_leap v) ms of
       None \<Rightarrow> Inl ValidationError
     | Some (off, len) \<Rightarrow> if ld_day v > len \<and> \<not> clamp then Inl ValidationError
         else Inr (date_add s (offset + off + min (ld_day v) len - 1)))"
  by (induction s v clamp offset ms rule: solar_loop.induct)
    (auto split: option.splits simp: algebra_simps min_def)

lemma find_length_locate:
  "find_length m l ms = (case locate m l ms of None \<Rightarrow> Inl ValidationError | Some (off, len) \<Rightarrow> Inr len)"
  by (induction m l ms rule: find_length.induct) (auto split: option.splits)

definition lengths_ok :: "lunar_month list \<Rightarrow> bool" where
  "lengths_ok ms \<longleftrightarrow> (\<forall>(n, l, len) \<in> set ms. 1 \<le> n \<and> n \<le> 12 \<and> 1 \<le> len \<and> len \<le> 30)"

lemma sum_lengths_nonneg: "lengths_ok ms \<Longrightarrow> 0 \<le> sum_list (map (\<lambda>(n, l, len). len) ms)"
  by (induction ms) (auto simp: lengths_ok_def)

lemma locate_bounds:
  assumes "locate m l ms = Some (off, len)" "lengths_ok ms"
  shows "0 \<le> off \<and> 1 \<le> len \<and> len \<le> 30 \<and> off + len \<le> sum_list (map (\<lambda>(n, l, len). len) ms)"
  using assms
proof (induction ms arbitrary: off)
  case Nil
  then show ?case by simp
next
  case (Cons a ms)
  have "lengths_ok ms" using Cons.prems by (simp add: lengths_ok_def)
  with Cons sum_lengths_nonneg[of ms] show ?case
    by (cases a) (fastforce simp: lengths_ok_def split: if_splits)
qed

lemma new_lunar_date_ok:
  "1 \<le> m \<Longrightarrow> m \<le> 12 \<Longrightarrow> 1 \<le> d \<Longrightarrow> d \<le> 30 \<Longrightarrow> new_lunar_date (mk_lunar y m d l) = Inr (mk_lunar y m d l)"
  by (simp add: new_lunar_date_def guarded_def)

lemma lunar_loop_of_locate:
  assumes "locate m l ms = Some (off, len)" "lengths_ok ms" "1 \<le> d" "d \<le> len"
  shows "lunar_loop y (off + d - 1) ms = Some (Inr (mk_lunar y m d l))"
  using assms
proof (induction ms arbitrary: off)
  case Nil
  then show ?case by simp
next
  case (Cons a ms)
  obtain n k len' where a: "a = (n, k, len')" by (cases a) auto
  have ok: "lengths_ok ms" "1 \<le> n" "n \<le> 12" "len' \<le> 30" using Cons.prems a by (auto simp: lengths_ok_def)
  show ?case
  proof (cases "n = m \<and> k = l")
    case True
    with Cons.prems a ok show ?thesis by (simp add: new_lunar_date_ok)
  next
    case False
    with Cons.prems a obtain o' where o': "locate m l ms = Some (o', len)" "off = o' + len'" by auto
    with locate_bounds[OF o'(1) ok(1)] Cons.IH[OF o'(1) ok(1)] Cons.prems a
    show ?thesis by (simp add: algebra_simps)
  qed
qed

lemma locate_of_lunar_loop:
  assumes "lengths_ok ms" "distinct (map (\<lambda>(n, l, len). (n, l)) ms)"
    and "0 \<le> offset" "offset < sum_list (map (\<lambda>(n, l, len). len) ms)"
  shows "\<exists>m l off len. locate m l ms = Some (off, len) \<and> off \<le> offset \<and> offset < off + len"
  using assms
proof (induction ms arbitrary: offset)
  case Nil
  then show ?case by simp
next
  case (Cons a ms)
  obtain n k len' where a: "a = (n, k, len')" by (cases a) auto
  have ok: "lengths_ok ms" "distinct (map (\<lambda>(n, l, len). (n, l)) ms)"
    using Cons.prems by (auto simp: lengths_ok_def)
  show ?case
  proof (cases "offset < len'")
    case True
    with Cons.prems a have "locate n k (a # ms) = Some (0, len') \<and> 0 \<le> offset \<and> offset < 0 + len'"
      by simp
    then show ?thesis by blast
  next
    case False
    then obtain m l off len where h: "locate m l ms = Some (off, len)" "off \<le> offset - len'"
      "offset - len' < off + len"
      using Cons.IH[OF ok, of "offset - len'"] Cons.prems a by auto
    have "(m, l) \<in> (\<lambda>(n, l, len). (n, l)) ` set ms"
      using h(1) by (induction ms arbitrary: off) (auto split: if_splits)
    moreover have "(n, k) \<notin> (\<lambda>(n, l, len). (n, l)) ` set ms" using Cons.prems(2) a by simp
    ultimately have "(n, k) \<noteq> (m, l)" by metis
    with h a have "locate m l (a # ms) = Some (off + len', len) \<and> off + len' \<le> offset
        \<and> offset < off + len' + len"
      by auto
    then show ?thesis by blast
  qed
qed

section \<open>Looking a date up\<close>

lemma contiguous_before:
  assumes "contiguous (pre @ (y, e) # post)" "\<forall>r \<in> set pre. 0 \<le> sum_list (ly_lengths (snd r))"
  shows "\<forall>r \<in> set pre. toordinal (ly_start (snd r)) + sum_list (ly_lengths (snd r)) \<le> toordinal (ly_start e)"
  using assms
proof (induction pre)
  case Nil
  then show ?case by simp
next
  case (Cons a pre)
  show ?case
  proof (cases pre)
    case Nil
    with Cons.prems show ?thesis by (cases a) auto
  next
    case (Cons b pre')
    with Cons.prems(1) have c: "contiguous (pre @ (y, e) # post)"
      "toordinal (ly_start (snd b)) = toordinal (ly_start (snd a)) + sum_list (ly_lengths (snd a))"
      by (cases a; cases b; auto)+
    then show ?thesis using Cons.IH Cons.prems(2) Cons by fastforce
  qed
qed

lemma table_entry:
  assumes "(y, e) \<in> set lunar_table"
  shows "map_of YEARS y = Some e" "valid_date (ly_start e)" "lengths_ok (months e)"
    "distinct (map (\<lambda>(n, l, len). (n, l)) (months e))"
    "toordinal (ly_start e) + sum_list (ly_lengths e) \<le> 3652059" "0 \<le> sum_list (ly_lengths e)"
proof -
  have "distinct (map fst lunar_table)" unfolding table_years by simp
  then show "map_of YEARS y = Some e" using assms by (simp add: YEARS_eq)
  from assms table_ok have r: "year_ok (y, e)" by (auto simp: list_all_iff)
  then show "valid_date (ly_start e)" "distinct (map (\<lambda>(n, l, len). (n, l)) (months e))"
    "toordinal (ly_start e) + sum_list (ly_lengths e) \<le> 3652059"
    by (simp_all add: year_ok_def)
  from r show l: "lengths_ok (months e)" by (auto simp: year_ok_def lengths_ok_def list_all_iff)
  show "0 \<le> sum_list (ly_lengths e)" using sum_lengths_nonneg[OF l] span_months by simp
qed

lemma year_entry_Inr: "year_entry y = Inr e \<longleftrightarrow> (y, e) \<in> set lunar_table"
  using table_entry(1)[of y e] by (auto simp: year_entry_def YEARS_eq split: option.splits dest: map_of_SomeD)

lemma ordinal_of_shift:
  assumes "valid_date s" "0 \<le> k" "toordinal s + k \<le> 3652059"
  shows "valid_date (date_add s k)" "toordinal (date_add s k) = toordinal s + k"
  using toordinal_bounds(1)[OF assms(1)] assms fromordinal_valid[of "toordinal s + k"]
    toordinal_fromordinal[of "toordinal s + k"]
  by (simp_all add: date_add_def)

text \<open>The condition of the loop in ordinals.\<close>

lemma in_year_iff:
  assumes "(y, e) \<in> set lunar_table" "valid_date v"
  shows "date_le (ly_start e) v \<and> \<not> date_le (date_add (ly_start e) (sum_list (ly_lengths e))) v
    \<longleftrightarrow> toordinal (ly_start e) \<le> toordinal v
       \<and> toordinal v < toordinal (ly_start e) + sum_list (ly_lengths e)"
  using table_entry[OF assms(1)] assms(2) ordinal_of_shift[of "ly_start e" "sum_list (ly_lengths e)"]
  by (simp add: date_le_iff not_le)

lemma from_solar_loop_skip:
  assumes "\<forall>r \<in> set pre. r \<in> set lunar_table \<and> (toordinal v < toordinal (ly_start (snd r))
      \<or> toordinal (ly_start (snd r)) + sum_list (ly_lengths (snd r)) \<le> toordinal v)"
    and "valid_date v"
  shows "from_solar_loop v (map fst pre @ ys) = from_solar_loop v ys"
  using assms(1)
proof (induction pre)
  case Nil
  then show ?case by simp
next
  case (Cons a pre)
  obtain y e where a: "a = (y, e)" by (cases a)
  with Cons.prems have r: "(y, e) \<in> set lunar_table"
    and n: "toordinal v < toordinal (ly_start e) \<or> toordinal (ly_start e) + sum_list (ly_lengths e) \<le> toordinal v"
    by auto
  have "\<not> (date_le (ly_start e) v \<and> \<not> date_le (date_add (ly_start e) (sum_list (ly_lengths e))) v)"
    unfolding in_year_iff[OF r assms(2)] using n by linarith
  moreover have "from_solar_loop v (map fst pre @ ys) = from_solar_loop v ys"
    using Cons by auto
  ultimately show ?case using a table_entry(1)[OF r] by simp
qed

lemma sorted_years: "sort (map fst YEARS) = map fst lunar_table"
  unfolding YEARS_eq table_years by (simp add: sorted_sort_id)

lemma from_solar_in_year:
  assumes "(y, e) \<in> set lunar_table" "valid_date v"
    and "toordinal (ly_start e) \<le> toordinal v" "toordinal v < toordinal (ly_start e) + sum_list (ly_lengths e)"
    and "lunar_loop y (toordinal v - toordinal (ly_start e)) (months e) = Some r"
  shows "from_solar v = r"
proof -
  obtain pre post where t: "lunar_table = pre @ (y, e) # post" using assms(1) by (meson split_list)
  have "\<forall>p \<in> set pre. 0 \<le> sum_list (ly_lengths (snd p))"
    using table_entry(6) t by (metis UnCI prod.collapse set_append)
  then have b: "\<forall>p \<in> set pre. toordinal (ly_start (snd p)) + sum_list (ly_lengths (snd p)) \<le> toordinal (ly_start e)"
    using contiguous_before[of pre y e post] table_contiguous t by simp
  have "from_solar v = from_solar_loop v (map fst pre @ y # map fst post)"
    unfolding from_solar_def sorted_years by (simp add: t)
  also have "\<dots> = from_solar_loop v (y # map fst post)"
  proof (rule from_solar_loop_skip[OF _ assms(2)], rule ballI)
    fix r assume r: "r \<in> set pre"
    then have "r \<in> set lunar_table" unfolding t by simp
    with r b assms(3) show "r \<in> set lunar_table \<and> (toordinal v < toordinal (ly_start (snd r))
        \<or> toordinal (ly_start (snd r)) + sum_list (ly_lengths (snd r)) \<le> toordinal v)"
      by (auto intro: order_trans)
  qed
  also have "\<dots> = r"
    using in_year_iff[OF assms(1,2)] assms(3-5) table_entry(1)[OF assms(1)] by (simp add: date_diff_def)
  finally show ?thesis .
qed

section \<open>Properties\<close>

lemma to_solar_locate:
  assumes "(ld_year v, e) \<in> set lunar_table"
  shows "to_solar v clamp = (case locate (ld_month v) (ld_leap v) (months e) of
       None \<Rightarrow> Inl ValidationError
     | Some (off, len) \<Rightarrow> if ld_day v > len \<and> \<not> clamp then Inl ValidationError
         else Inr (date_add (ly_start e) (off + min (ld_day v) len - 1)))"
  using assms year_entry_Inr[of "ld_year v" e]
  by (auto simp: to_solar_def solar_loop_locate split: option.splits)

lemma to_solar_exact:
  assumes "to_solar v False = Inr s" "1 \<le> ld_day v"
  obtains e off len where "(ld_year v, e) \<in> set lunar_table"
    "locate (ld_month v) (ld_leap v) (months e) = Some (off, len)" "ld_day v \<le> len"
    "valid_date s" "toordinal s = toordinal (ly_start e) + off + ld_day v - 1"
    "toordinal s < toordinal (ly_start e) + sum_list (ly_lengths e)" "0 \<le> off"
proof -
  obtain e where e: "(ld_year v, e) \<in> set lunar_table"
    using assms(1) year_entry_Inr by (cases "year_entry (ld_year v)") (auto simp: to_solar_def)
  obtain off len where o: "locate (ld_month v) (ld_leap v) (months e) = Some (off, len)" "ld_day v \<le> len"
    "s = date_add (ly_start e) (off + ld_day v - 1)"
    using assms(1) unfolding to_solar_locate[OF e] by (auto split: option.splits if_splits simp: min_def)
  have b: "0 \<le> off" "off + len \<le> sum_list (ly_lengths e)"
    using locate_bounds[OF o(1) table_entry(3)[OF e]] span_months by auto
  have "valid_date s" "toordinal s = toordinal (ly_start e) + (off + ld_day v - 1)"
    using ordinal_of_shift[OF table_entry(2)[OF e], of "off + ld_day v - 1"] table_entry(5)[OF e] b o(2,3) assms(2)
    by auto
  then show ?thesis using that[OF e o(1,2)] b o(2) by auto
qed

text \<open>
  C29. Lunar to solar and back: whenever a lunar date converts without clamping, converting the
  Gregorian date back gives the same lunar year, month, day and intercalary flag.
\<close>

theorem from_solar_to_solar:
  assumes "to_solar v False = Inr s" "1 \<le> ld_day v"
  shows "from_solar s = Inr v"
proof -
  obtain e off len where e: "(ld_year v, e) \<in> set lunar_table"
    "locate (ld_month v) (ld_leap v) (months e) = Some (off, len)" "ld_day v \<le> len"
    "valid_date s" "toordinal s = toordinal (ly_start e) + off + ld_day v - 1"
    "toordinal s < toordinal (ly_start e) + sum_list (ly_lengths e)" "0 \<le> off"
    using to_solar_exact[OF assms] by blast
  have "lunar_loop (ld_year v) (off + ld_day v - 1) (months e)
      = Some (Inr (mk_lunar (ld_year v) (ld_month v) (ld_day v) (ld_leap v)))"
    by (rule lunar_loop_of_locate[OF e(2) table_entry(3)[OF e(1)] assms(2) e(3)])
  then have "from_solar s = Inr (mk_lunar (ld_year v) (ld_month v) (ld_day v) (ld_leap v))"
    using from_solar_in_year[OF e(1,4) _ e(6)] e(5,7) assms(2) by (simp add: algebra_simps)
  then show ?thesis by simp
qed

theorem from_solar_to_solar_witness: "from_solar (mk_date 2025 7 25) = Inr (mk_lunar 2025 6 1 True)"
proof -
  have "to_solar (mk_lunar 2025 6 1 True) False = Inr (mk_date 2025 7 25)" by code_simp
  then show ?thesis by (rule from_solar_to_solar) simp
qed

lemma covered_year:
  assumes "730155 \<le> n" "n < 740372"
  shows "\<exists>y e. (y, e) \<in> set lunar_table \<and> toordinal (ly_start e) \<le> n
     \<and> n < toordinal (ly_start e) + sum_list (ly_lengths e)"
proof -
  have cover: "contiguous ((y, e) # t) \<Longrightarrow> toordinal (ly_start e) \<le> n \<Longrightarrow>
      n < toordinal (ly_start (snd (last ((y, e) # t)))) + sum_list (ly_lengths (snd (last ((y, e) # t)))) \<Longrightarrow>
      \<exists>(z, f) \<in> set ((y, e) # t). toordinal (ly_start f) \<le> n \<and> n < toordinal (ly_start f) + sum_list (ly_lengths f)"
    for y e t
  proof (induction t arbitrary: y e)
    case Nil
    then show ?case by simp
  next
    case (Cons b t)
    obtain z f where b: "b = (z, f)" by (cases b)
    show ?case
    proof (cases "n < toordinal (ly_start f)")
      case True
      with Cons.prems b show ?thesis by auto
    next
      case False
      with Cons.IH[of z f] Cons.prems b show ?thesis by auto
    qed
  qed
  have ends: "toordinal (ly_start (snd (hd lunar_table))) = 730155"
    "toordinal (ly_start (snd (last lunar_table))) + sum_list (ly_lengths (snd (last lunar_table))) = 740372"
    by code_simp+
  have "lunar_table \<noteq> []" by (simp add: lunar_table_def)
  then obtain y e t where t: "lunar_table = (y, e) # t" by (cases lunar_table) auto
  show ?thesis using cover[of y e t] table_contiguous ends assms unfolding t by fastforce
qed

lemma from_solar_outside:
  assumes "valid_date s" "toordinal s < 730155 \<or> 740372 \<le> toordinal s"
  shows "from_solar s = Inl ValidationError"
proof -
  have "list_all (\<lambda>r. 730155 \<le> toordinal (ly_start (snd r))
      \<and> toordinal (ly_start (snd r)) + sum_list (ly_lengths (snd r)) \<le> 740372) lunar_table"
    by code_simp
  then have "\<forall>r \<in> set lunar_table. r \<in> set lunar_table \<and> (toordinal s < toordinal (ly_start (snd r))
      \<or> toordinal (ly_start (snd r)) + sum_list (ly_lengths (snd r)) \<le> toordinal s)"
    using assms(2) by (auto simp: list_all_iff)
  from from_solar_loop_skip[OF this assms(1), of "[]"] show ?thesis
    by (simp add: from_solar_def sorted_years)
qed

lemma to_solar_from_solar_covered:
  assumes "valid_date s" "730155 \<le> toordinal s" "toordinal s < 740372"
  shows "\<exists>v. from_solar s = Inr v \<and> to_solar v False = Inr s"
proof -
  obtain y e where e: "(y, e) \<in> set lunar_table" "toordinal (ly_start e) \<le> toordinal s"
    "toordinal s < toordinal (ly_start e) + sum_list (ly_lengths e)"
    using covered_year assms(2,3) by blast
  define k where "k = toordinal s - toordinal (ly_start e)"
  have k: "0 \<le> k" "k < sum_list (map (\<lambda>(n, l, len). len) (months e))"
    using e by (auto simp: k_def span_months)
  obtain m l off len where o: "locate m l (months e) = Some (off, len)" "off \<le> k" "k < off + len"
    using locate_of_lunar_loop[OF table_entry(3,4)[OF e(1)] k] by blast
  let ?v = "mk_lunar y m (k - off + 1) l"
  have "lunar_loop y k (months e) = Some (Inr ?v)"
    using lunar_loop_of_locate[OF o(1) table_entry(3)[OF e(1)], of "k - off + 1" y] o(2,3) by simp
  then have "from_solar s = Inr ?v"
    using from_solar_in_year[OF e(1) assms(1) e(2,3)] by (simp add: k_def)
  moreover have "to_solar ?v False = Inr (date_add (ly_start e) k)"
    using to_solar_locate[of ?v e] e(1) o by simp
  moreover have "date_add (ly_start e) k = s"
    using assms(1) by (simp add: date_add_def k_def)
  ultimately show ?thesis by auto
qed

text \<open>
  The snapshot covers every day from 2000-02-05 to 2028-01-25 without gap or overlap: such a
  date has a lunar date that converts back to it, and every other date is refused with a
  validation error.
\<close>

lemma from_solar_covers:
  assumes "valid_date s"
  shows "if 730155 \<le> toordinal s \<and> toordinal s < 740372
     then \<exists>v. from_solar s = Inr v \<and> to_solar v False = Inr s
     else from_solar s = Inl ValidationError"
  using to_solar_from_solar_covered[OF assms] from_solar_outside[OF assms] by auto

text \<open>
  Clamping: with \<^verbatim>\<open>clamp\<close> a day past the end of an existing month becomes the month's last
  day, without it the conversion is refused, and a month that the year does not have is
  refused either way.
\<close>

lemma to_solar_clamp:
  "to_solar v clamp = (case month_length (ld_year v) (ld_month v) (ld_leap v) of
       Inl e \<Rightarrow> Inl e
     | Inr len \<Rightarrow> if ld_day v \<le> len then to_solar v False
         else if clamp then to_solar (v\<lparr>ld_day := len\<rparr>) False
         else Inl ValidationError)"
proof (cases "year_entry (ld_year v)")
  case (Inl e)
  then show ?thesis by (simp add: to_solar_def month_length_def)
next
  case (Inr e)
  then show ?thesis
    by (auto simp: to_solar_def month_length_def solar_loop_locate find_length_locate split: option.splits)
qed

end
