(* ===== verification/Briefing.thy ===== *)
theory Briefing
  imports Lunar Entities
begin

text \<open>
  Anniversaries and daily briefings, \<^verbatim>\<open>src/zhixu/domain/briefing.py\<close>: the two dataclasses with their
  constructors, the yearly recurrence of solar and lunar days and the advance notice.
\<close>

definition UNKNOWN_YEAR :: int where
  "UNKNOWN_YEAR = 1"

definition MAXIMUM_ADVANCE_ENTRIES :: nat where
  "MAXIMUM_ADVANCE_ENTRIES = 8"

datatype important_day_kind = KIND_ANNIVERSARY | KIND_BIRTHDAY
datatype calendar_system = SOLAR | LUNAR

record anniversary =
  ann_id :: pystr
  ann_owner :: pystr
  ann_creator :: pystr
  ann_title :: pystr
  anchor_date :: date
  ann_timezone :: pystr
  ann_kind :: important_day_kind
  ann_calendar :: calendar_system
  lunar_month :: "int option"
  lunar_day :: "int option"
  lunar_leap :: bool
  advance_days :: "int list"
  ann_classification :: data_classification
  ann_created_at :: "datetime option"

definition new_anniversary :: "tzdb \<Rightarrow> anniversary \<Rightarrow> anniversary res" where
  "new_anniversary db a = guarded
     [(list_ex blank [ann_id a, ann_owner a, ann_creator a, ann_title a], ValidationError),
      (\<not> z_known db (ann_timezone a), ValidationError),
      (not_ordinary (ann_classification a), ClassificationNotSupported),
      (naive_opt (ann_created_at a), ValidationError),
      (ann_calendar a = LUNAR \<and> (lunar_month a = None \<or> lunar_day a = None), ValidationError),
      (ann_calendar a = LUNAR \<and> \<not> is_ok (new_lunar_date
         (mk_lunar (year (anchor_date a)) (the (lunar_month a)) (the (lunar_day a)) False)), ValidationError),
      (ann_calendar a \<noteq> LUNAR \<and> (lunar_month a \<noteq> None \<or> lunar_day a \<noteq> None), ValidationError),
      (length (advance_days a) > MAXIMUM_ADVANCE_ENTRIES, ValidationError),
      (list_ex (\<lambda>v. \<not> (1 \<le> v \<and> v \<le> 366)) (advance_days a), ValidationError),
      (\<not> distinct (advance_days a), ValidationError)] a"

definition day_number :: "anniversary \<Rightarrow> date \<Rightarrow> int" where
  "day_number a today = date_diff today (anchor_date a) + 1"

definition counts_elapsed_days :: "anniversary \<Rightarrow> bool" where
  "counts_elapsed_days a \<longleftrightarrow> ann_kind a = KIND_ANNIVERSARY"

definition solar_occurrence :: "date \<Rightarrow> int \<Rightarrow> date res" where
  "solar_occurrence anchor y = (case new_date y (month anchor) (day anchor) of
       Inr d \<Rightarrow> Inr d | Inl e \<Rightarrow> new_date y 2 28)"

fun lunar_occurrence_loop :: "int \<Rightarrow> int \<Rightarrow> int \<Rightarrow> bool list \<Rightarrow> date option" where
  "lunar_occurrence_loop y m d [] = None"
| "lunar_occurrence_loop y m d (l # ls) =
     (case and_then (new_lunar_date (mk_lunar y m d l)) (\<lambda>v. to_solar v True) of
        Inr s \<Rightarrow> Some s | Inl e \<Rightarrow> lunar_occurrence_loop y m d ls)"

definition lunar_occurrence :: "int \<Rightarrow> int \<Rightarrow> int \<Rightarrow> bool \<Rightarrow> date option" where
  "lunar_occurrence y m d leap = lunar_occurrence_loop y m d (if leap then [leap, False] else [False])"

text \<open>The loop over the two lunar years that can reach into a Gregorian year.\<close>

fun lunar_year_loop :: "int \<Rightarrow> int \<Rightarrow> bool \<Rightarrow> int \<Rightarrow> int list \<Rightarrow> date option" where
  "lunar_year_loop m d leap gregorian [] = None"
| "lunar_year_loop m d leap gregorian (y # ys) =
     (case lunar_occurrence y m d leap of
        Some w \<Rightarrow> if year w = gregorian then Some w else lunar_year_loop m d leap gregorian ys
      | None \<Rightarrow> lunar_year_loop m d leap gregorian ys)"

definition occurrence_in :: "anniversary \<Rightarrow> int \<Rightarrow> date option res" where
  "occurrence_in a y = (case ann_calendar a of
       SOLAR \<Rightarrow> and_then (solar_occurrence (anchor_date a) y) (\<lambda>d. Inr (Some d))
     | LUNAR \<Rightarrow> (case (lunar_month a, lunar_day a) of
           (Some m, Some d) \<Rightarrow> Inr (lunar_year_loop m d (lunar_leap a) y [y - 1, y])
         | _ \<Rightarrow> Inl AssertionErr))"

fun next_occurrence_loop :: "anniversary \<Rightarrow> date \<Rightarrow> int list \<Rightarrow> date option res" where
  "next_occurrence_loop a today [] = Inr None"
| "next_occurrence_loop a today (y # ys) = and_then (occurrence_in a y) (\<lambda>w. case w of
       Some d \<Rightarrow> if date_le today d then Inr (Some d) else next_occurrence_loop a today ys
     | None \<Rightarrow> next_occurrence_loop a today ys)"

definition next_occurrence :: "anniversary \<Rightarrow> date \<Rightarrow> date option res" where
  "next_occurrence a today = next_occurrence_loop a today [year today, year today + 1]"

definition has_known_year :: "anniversary \<Rightarrow> bool" where
  "has_known_year a \<longleftrightarrow> year (anchor_date a) > UNKNOWN_YEAR"

definition elapsed_years :: "anniversary \<Rightarrow> date \<Rightarrow> int" where
  "elapsed_years a occurrence = (if \<not> has_known_year a then 0 else year occurrence - year (anchor_date a))"

definition advance_notice_for :: "anniversary \<Rightarrow> date \<Rightarrow> (date \<times> int) option res" where
  "advance_notice_for a today = and_then (next_occurrence a today) (\<lambda>w. case w of
       None \<Rightarrow> Inr None
     | Some d \<Rightarrow> (let remaining = date_diff d today
         in if remaining \<in> set (advance_days a) then Inr (Some (d, remaining)) else Inr None))"

definition lunar_date_of :: "date \<Rightarrow> lunar_date option" where
  "lunar_date_of v = (case from_solar v of Inr d \<Rightarrow> Some d | Inl e \<Rightarrow> None)"

record daily_briefing =
  br_id :: pystr
  br_owner :: pystr
  br_creator :: pystr
  br_target_ref :: pystr
  time_of_day :: pytime
  br_timezone :: pystr
  br_classification :: data_classification
  br_enabled :: bool
  last_sent_on :: "date option"
  br_created_at :: "datetime option"
  br_updated_at :: "datetime option"

definition new_daily_briefing :: "tzdb \<Rightarrow> daily_briefing \<Rightarrow> daily_briefing res" where
  "new_daily_briefing db b = guarded
     [(list_ex blank [br_id b, br_owner b, br_creator b, br_target_ref b], ValidationError),
      (tod_tz (time_of_day b) \<noteq> None, ValidationError),
      (\<not> z_known db (br_timezone b), ValidationError),
      (not_ordinary (br_classification b), ClassificationNotSupported),
      (naive_opt (br_created_at b), ValidationError),
      (naive_opt (br_updated_at b), ValidationError)] b"

section \<open>Lemmas\<close>

lemma solar_occurrence_valid:
  assumes "valid_date anchor" "1 \<le> y" "y \<le> 9999"
  shows "solar_occurrence anchor y = Inr
     (if month anchor = 2 \<and> day anchor = 29 \<and> \<not> is_leap y then mk_date y 2 28
      else mk_date y (month anchor) (day anchor))"
  using assms by (auto simp: solar_occurrence_def new_date_def valid_date_def days_in_month_def split: if_splits)

definition solar_day :: "date \<Rightarrow> int \<Rightarrow> date" where
  "solar_day anchor y = (if month anchor = 2 \<and> day anchor = 29 \<and> \<not> is_leap y then mk_date y 2 28
      else mk_date y (month anchor) (day anchor))"

lemma solar_day_valid:
  assumes "valid_date anchor" "1 \<le> y" "y \<le> 9999"
  shows "valid_date (solar_day anchor y)" "year (solar_day anchor y) = y"
  using assms by (auto simp: solar_day_def valid_date_def days_in_month_def split: if_splits)

lemma occurrence_in_solar:
  assumes "ann_calendar a = SOLAR" "valid_date (anchor_date a)" "1 \<le> y" "y \<le> 9999"
  shows "occurrence_in a y = Inr (Some (solar_day (anchor_date a) y))"
  using assms solar_occurrence_valid[OF assms(2-4)] by (simp add: occurrence_in_def solar_day_def)

lemma later_year_later_date:
  assumes "valid_date d" "valid_date e" "year d < year e"
  shows "\<not> date_le e d" "toordinal d < toordinal e"
  using assms toordinal_less_iff[OF assms(1,2)] by (auto simp: date_le_def)

lemma next_occurrence_solar:
  assumes "ann_calendar a = SOLAR" "valid_date (anchor_date a)" "valid_date today" "year today < 9999"
  shows "next_occurrence a today = Inr (Some
     (if date_le today (solar_day (anchor_date a) (year today))
      then solar_day (anchor_date a) (year today) else solar_day (anchor_date a) (year today + 1)))"
proof -
  have y: "1 \<le> year today" using assms(3) by (simp add: valid_date_def)
  have "date_le today (solar_day (anchor_date a) (year today + 1))"
    using solar_day_valid(2)[OF assms(2), of "year today + 1"] y assms(4) by (simp add: date_le_def)
  then show ?thesis
    using y assms(4) occurrence_in_solar[OF assms(1,2), of "year today"]
      occurrence_in_solar[OF assms(1,2), of "year today + 1"]
    by (simp add: next_occurrence_def)
qed

text \<open>Consecutive solar days are 365 or 366 days apart.\<close>

lemma solar_day_gap:
  assumes "valid_date anchor" "1 \<le> y" "y < 9999"
  shows "toordinal (solar_day anchor (y + 1)) - toordinal (solar_day anchor y) \<in> {365, 366}"
proof -
  have "1 \<le> month anchor" "month anchor \<le> 12" using assms by (auto simp: valid_date_def)
  moreover have "days_before_year (y + 1) = days_before_year y + (if is_leap y then 366 else 365)"
    using days_before_year_Suc[of y] by simp
  moreover have "\<not> (is_leap y \<and> is_leap (y + 1))" unfolding is_leap_def by presburger
  ultimately show ?thesis
    by (auto simp: solar_day_def toordinal_def days_before_month_def)
qed

lemma solar_day_mono:
  assumes "valid_date anchor" "1 \<le> y" "y < z" "z \<le> 9999"
  shows "toordinal (solar_day anchor y) < toordinal (solar_day anchor z)"
  using assms solar_day_valid[OF assms(1)] by (intro later_year_later_date) auto

lemma same_year_gap:
  assumes "valid_date d" "valid_date e" "year d = year e"
  shows "toordinal e \<le> toordinal d + 365"
  using assms day_of_year_bounds[of "month d" "day d" "year d"] day_of_year_bounds[of "month e" "day e" "year e"]
  by (auto simp: valid_date_def toordinal_def split: if_splits)

text \<open>The next solar day: at or after today, at most a year away, and none between.\<close>

lemma next_solar_bounds:
  assumes "ann_calendar a = SOLAR" "valid_date (anchor_date a)" "valid_date today" "year today < 9999"
    and "next_occurrence a today = Inr (Some d)"
  shows "valid_date d" "toordinal today \<le> toordinal d" "toordinal d \<le> toordinal today + 365"
    "1 \<le> y \<Longrightarrow> y \<le> 9999 \<Longrightarrow> toordinal today \<le> toordinal (solar_day (anchor_date a) y)
       \<Longrightarrow> toordinal d \<le> toordinal (solar_day (anchor_date a) y)"
proof -
  let ?s = "solar_day (anchor_date a)"
  have y: "1 \<le> year today" using assms(3) by (simp add: valid_date_def)
  note v = solar_day_valid[OF assms(2)]
  have v0: "valid_date (?s (year today))" "valid_date (?s (year today + 1))"
    using v(1) y assms(4) by auto
  have le: "date_le today (?s (year today)) \<longleftrightarrow> toordinal today \<le> toordinal (?s (year today))"
    by (rule date_le_iff[OF assms(3) v0(1)])
  have gap: "toordinal (?s (year today + 1)) \<le> toordinal (?s (year today)) + 366"
    using solar_day_gap[OF assms(2) y assms(4)] by auto
  have prev: "toordinal (?s (year today)) \<le> toordinal today + 365"
    using same_year_gap[OF assms(3) v0(1)] v(2)[of "year today"] y assms(4) by simp
  have d: "d = (if date_le today (?s (year today)) then ?s (year today) else ?s (year today + 1))"
    using next_occurrence_solar[OF assms(1-4)] assms(5) by auto
  show "valid_date d" using d v0 by simp
  show "toordinal today \<le> toordinal d"
    using d le later_year_later_date(2)[OF assms(3) v0(2)] v(2)[of "year today + 1"] y assms(4) by auto
  show "toordinal d \<le> toordinal today + 365"
    using d le gap prev by auto
  show "toordinal d \<le> toordinal (?s y)" if "1 \<le> y" "y \<le> 9999" "toordinal today \<le> toordinal (?s y)"
  proof -
    have "year today \<le> y"
      using later_year_later_date(2)[OF v(1)[OF that(1,2)] assms(3)] v(2)[OF that(1,2)] that(3) by force
    then consider "y = year today" | "y = year today + 1" | "year today + 1 < y" by linarith
    then show ?thesis
    proof cases
      case 1 then show ?thesis using d le that(3) by simp
    next
      case 2 then show ?thesis using d solar_day_mono[OF assms(2) y, of "year today + 1"] assms(4) by auto
    next
      case 3 then show ?thesis
        using d solar_day_mono[OF assms(2) y, of y] solar_day_mono[OF assms(2), of "year today + 1" y] y that(2) by auto
    qed
  qed
qed

section \<open>Properties\<close>

definition sample_birthday :: anniversary where
  "sample_birthday = \<lparr>ann_id = lit ''a'', ann_owner = lit ''u'', ann_creator = lit ''u'', ann_title = lit ''Ann'',
     anchor_date = mk_date 2000 2 29, ann_timezone = lit ''UTC'', ann_kind = KIND_BIRTHDAY,
     ann_calendar = SOLAR, lunar_month = None, lunar_day = None, lunar_leap = False, advance_days = [7, 3, 1],
     ann_classification = PERSONAL, ann_created_at = None\<rparr>"

text \<open>
  The next occurrence of a solar day always exists, lies on or after today and at most 365
  days ahead, and no occurrence of any year lies between; a 29 February is marked on the 28th in
  common years.
\<close>

lemma next_occurrence_solar_correct:
  assumes "ann_calendar a = SOLAR" "valid_date (anchor_date a)" "valid_date today" "year today < 9999"
  shows "\<exists>d. next_occurrence a today = Inr (Some d) \<and> valid_date d
     \<and> month d = month (anchor_date a)
     \<and> (day d = day (anchor_date a) \<or> (day (anchor_date a) = 29 \<and> day d = 28 \<and> month d = 2))
     \<and> 0 \<le> date_diff d today \<and> date_diff d today \<le> 365
     \<and> (\<forall>y e. 1 \<le> y \<and> y \<le> 9999 \<and> occurrence_in a y = Inr (Some e) \<and> 0 \<le> date_diff e today
          \<longrightarrow> date_diff d today \<le> date_diff e today)"
proof -
  obtain d where d: "next_occurrence a today = Inr (Some d)"
    using next_occurrence_solar[OF assms] by auto
  note b = next_solar_bounds[OF assms d]
  have "month d = month (anchor_date a) \<and>
      (day d = day (anchor_date a) \<or> (day (anchor_date a) = 29 \<and> day d = 28 \<and> month d = 2))"
    using next_occurrence_solar[OF assms] d by (auto simp: solar_day_def split: if_splits)
  moreover have "date_diff d today \<le> date_diff e today"
    if "1 \<le> y" "y \<le> 9999" "occurrence_in a y = Inr (Some e)" "0 \<le> date_diff e today" for y e
    using b(4)[OF that(1,2)] that occurrence_in_solar[OF assms(1,2) that(1,2)] by (auto simp: date_diff_def)
  ultimately show ?thesis using d b(1-3) by (auto simp: date_diff_def)
qed

text \<open>
  Every configured advance notice of up to 364 days fires for a solar day: on the date that
  many days before the occurrence of a year, the notice names that occurrence and that distance.
\<close>

lemma advance_notice_fires:
  assumes "ann_calendar a = SOLAR" "valid_date (anchor_date a)"
    and "k \<in> set (advance_days a)" "1 \<le> k" "k \<le> 364" "3 \<le> y" "y \<le> 9998"
    and "occurrence_in a y = Inr (Some d)"
  shows "advance_notice_for a (date_add d (- k)) = Inr (Some (d, k))"
proof -
  let ?s = "solar_day (anchor_date a)" and ?t = "date_add d (- k)"
  have y: "1 \<le> y" "y \<le> 9999" "1 \<le> y - 1" "y - 1 \<le> 9999" using assms(6,7) by simp_all
  have d: "d = ?s y" using occurrence_in_solar[OF assms(1,2) y(1,2)] assms(8) by simp
  have vd: "valid_date d" "year d = y" using d solar_day_valid[OF assms(2) y(1,2)] by simp_all
  have p: "toordinal (?s (y - 1)) + 365 \<le> toordinal d"
    using solar_day_gap[OF assms(2) y(3)] assms(7) d by auto
  have "1 \<le> toordinal (?s (y - 1))"
    by (rule toordinal_bounds(1)[OF solar_day_valid(1)[OF assms(2) y(3,4)]])
  then have t: "valid_date ?t" "toordinal ?t = toordinal d - k"
    using fromordinal_valid[of "toordinal d - k"] toordinal_fromordinal[of "toordinal d - k"]
      toordinal_bounds(2)[OF vd(1)] p assms(4,5) by (simp_all add: date_add_def)
  have "\<not> year d < year ?t" using later_year_later_date(2)[OF vd(1) t(1)] t(2) assms(4) by force
  then have yt: "year ?t < 9999" using vd(2) assms(7) by simp
  obtain e z where e: "next_occurrence a ?t = Inr (Some e)" "e = ?s z" "z = year ?t \<or> z = year ?t + 1"
    using next_occurrence_solar[OF assms(1,2) t(1) yt] by (metis (full_types))
  have z: "1 \<le> z" "z \<le> 9999" using e(3) t(1) yt by (auto simp: valid_date_def)
  note b = next_solar_bounds[OF assms(1,2) t(1) yt e(1)]
  have "toordinal e \<le> toordinal d" using b(4)[OF y(1,2)] d t(2) assms(4) by simp
  moreover have "\<not> z \<le> y - 1"
  proof
    assume "z \<le> y - 1"
    then have "toordinal e \<le> toordinal (?s (y - 1))"
      using solar_day_mono[OF assms(2) z(1), of "y - 1"] y(4) e(2) by (cases "z = y - 1") auto
    then show False using p b(2) t(2) assms(5) by simp
  qed
  ultimately have "e = d"
    using solar_day_mono[OF assms(2) y(1), of z] z(2) e(2) d by (cases "z = y") auto
  then show ?thesis
    using e(1) t(2) assms(3) by (simp add: advance_notice_for_def date_diff_def)
qed

lemma lunar_occurrence_source:
  "lunar_occurrence y m d leap = Some s \<Longrightarrow> \<exists>l. to_solar (mk_lunar y m d l) True = Inr s \<and> (l \<longrightarrow> leap)"
  by (auto simp: lunar_occurrence_def new_lunar_date_def guarded_def and_then_def
      split: if_splits sum.splits option.splits)

lemma lunar_year_loop_source:
  "lunar_year_loop m d leap g ys = Some s \<Longrightarrow>
     year s = g \<and> (\<exists>y \<in> set ys. lunar_occurrence y m d leap = Some s)"
  by (induction ys) (auto split: option.splits if_splits)

text \<open>
  For an anniversary the constructor accepted, \<^verbatim>\<open>occurrence_in\<close> is total on the years 1 to 9999
  (the assertion on the lunar fields never fails), its result lies in that Gregorian year, and a
  lunar result is the clamped solar date of the recorded lunar month and day in one of the two
  lunar years that reach into it.
\<close>

lemma occurrence_in_sound:
  assumes "new_anniversary db a = Inr a" "valid_date (anchor_date a)" "1 \<le> y" "y \<le> 9999"
  shows "\<exists>w. occurrence_in a y = Inr w \<and> (\<forall>s. w = Some s \<longrightarrow> year s = y
     \<and> (ann_calendar a = LUNAR \<longrightarrow> (\<exists>ly l m d. ly \<in> {y - 1, y} \<and> lunar_month a = Some m \<and> lunar_day a = Some d
          \<and> to_solar (mk_lunar ly m d l) True = Inr s)))"
proof (cases "ann_calendar a")
  case SOLAR
  then show ?thesis using occurrence_in_solar[OF SOLAR assms(2-4)] solar_day_valid(2)[OF assms(2-4)] by simp
next
  case LUNAR
  then obtain m d where md: "lunar_month a = Some m" "lunar_day a = Some d"
    using assms(1) guarded_InrD[OF assms(1)[unfolded new_anniversary_def]] by auto
  show ?thesis
    using LUNAR md lunar_occurrence_source[of _ m d "lunar_leap a"]
      lunar_year_loop_source[of m d "lunar_leap a" y "[y - 1, y]"]
    by (fastforce simp: occurrence_in_def)
qed

definition sample_lunar_day :: anniversary where
  "sample_lunar_day = sample_birthday\<lparr>ann_calendar := LUNAR, lunar_month := Some 12, lunar_day := Some 1\<rparr>"

lemma sample_lunar_day_ok: "new_anniversary utc_only sample_lunar_day = Inr sample_lunar_day"
  by (simp add: new_anniversary_def sample_lunar_day_def sample_birthday_def guarded_def utc_only_def
      new_lunar_date_def MAXIMUM_ADVANCE_ENTRIES_def naive_opt_def blank_def lit_def py_space_def)

text \<open>
  A Gregorian year can hold two occurrences of a lunar day, and the code returns the first
  only: the twelfth lunar month's first day falls on 2027-01-08 and on 2027-12-28, yet from
  2027-01-09 on no occurrence is found although the second is still to come.
\<close>

lemma lunar_second_occurrence_missed:
  "to_solar (mk_lunar 2026 12 1 False) True = Inr (mk_date 2027 1 8)
   \<and> to_solar (mk_lunar 2027 12 1 False) True = Inr (mk_date 2027 12 28)
   \<and> occurrence_in sample_lunar_day 2027 = Inr (Some (mk_date 2027 1 8))
   \<and> next_occurrence sample_lunar_day (mk_date 2027 1 9) = Inr None
   \<and> advance_notice_for sample_lunar_day (mk_date 2027 12 21) = Inr None"
  by (intro conjI; code_simp)

end
