(* ===== verification/AppStore.thy ===== *)
theory AppStore
  imports Outbox Task Agenda Briefing StateResult
begin

text \<open>
  The database behind the repositories of
  \<^verbatim>\<open>src/zhixu/adapters/storage/sqlite/repositories.py\<close> and what they share: tables as lists of rows
  with their constraints, \<^verbatim>\<open>Database.transaction\<close>, the authorization check and the audit event every
  write makes. Rows hold what the columns hold, times as the ISO text \<^verbatim>\<open>_dump_datetime\<close> writes;
  reading a row runs the constructor of its entity again. The outbox tables, the audit table and
  the list of user ids are those of \<open>Outbox\<close>.
\<close>

section \<open>Environment\<close>

text \<open>
  What the repositories take from outside: the time zone database, \<^verbatim>\<open>urlsplit\<close>, dateutil's rule check
  and expansion, the SHA-256 hex digest of a text's UTF-8 bytes, the characters \<^verbatim>\<open>\w\<close> matches, and SQLite's
  full-text search: the rows an FTS5 expression matches, best first.
\<close>

record fts_row =
  ft_note :: pystr
  ft_owner :: pystr
  ft_title :: pystr
  ft_body :: pystr

record app_env =
  a_tz :: tzdb
  a_split :: urlsplit
  a_rrule_ok :: "pystr \<Rightarrow> bool"
  a_rrule :: rrule_between
  a_sha256 :: "pystr \<Rightarrow> pystr"
  a_word :: "nat \<Rightarrow> bool"
  a_fts :: "pystr \<Rightarrow> fts_row list \<Rightarrow> fts_row list"

section \<open>Rows\<close>

record user_row =
  us_id :: pystr
  us_name :: pystr
  us_status :: pystr
  us_created :: pystr

record role_binding =
  rb_user :: pystr
  rb_role :: pystr
  rb_created :: pystr

record identity_row =
  xi_id :: pystr
  xi_user :: pystr
  xi_channel :: pystr
  xi_account :: pystr
  xi_subject :: pystr
  xi_opaque :: pystr
  xi_created :: pystr

record session_row =
  cs_id :: pystr
  cs_identity :: pystr
  cs_user :: pystr
  cs_channel :: pystr
  cs_account :: pystr
  cs_created :: pystr
  cs_expires :: pystr
  cs_revoked :: "pystr option"

record acl_row =
  acl_kind :: pystr
  acl_resource :: pystr
  acl_subject :: pystr
  acl_action :: pystr
  acl_granted_by :: pystr
  acl_created :: pystr

record task_row =
  tk_id :: pystr
  tk_owner :: pystr
  tk_creator :: "pystr option"
  tk_title :: pystr
  tk_description :: pystr
  tk_status :: pystr
  tk_priority :: int
  tk_due :: "pystr option"
  tk_class :: int
  tk_version :: int
  tk_created :: pystr
  tk_updated :: pystr

record reminder_row =
  rm_id :: pystr
  rm_owner :: pystr
  rm_creator :: "pystr option"
  rm_title :: pystr
  rm_fire_at :: pystr
  rm_target :: pystr
  rm_status :: pystr
  rm_policy :: pystr
  rm_class :: int
  rm_kind :: "pystr option"
  rm_related :: "pystr option"
  rm_start :: "pystr option"
  rm_timezone :: "pystr option"
  rm_links :: json
  rm_version :: int
  rm_created :: pystr
  rm_updated :: pystr

record agenda_row =
  gr_id :: pystr
  gr_owner :: pystr
  gr_creator :: "pystr option"
  gr_title :: pystr
  gr_description :: pystr
  gr_links :: json
  gr_start :: pystr
  gr_end :: pystr
  gr_timezone :: pystr
  gr_all_day :: bool
  gr_class :: int
  gr_version :: int
  gr_created :: pystr
  gr_updated :: pystr

record rule_row =
  rr_item :: pystr
  rr_text :: pystr
  rr_timezone :: pystr

record exception_row =
  rx_item :: pystr
  rx_at :: pystr
  rx_action :: pystr
  rx_start :: "pystr option"
  rx_end :: "pystr option"

record notification_row =
  nn_id :: pystr
  nn_item :: pystr
  nn_owner :: pystr
  nn_creator :: pystr
  nn_target :: pystr
  nn_time :: pystr
  nn_offset :: int
  nn_text :: pystr
  nn_timezone :: pystr
  nn_links :: json
  nn_class :: int
  nn_enabled :: bool
  nn_created :: pystr

record anniversary_row =
  an_id :: pystr
  an_owner :: pystr
  an_creator :: pystr
  an_title :: pystr
  an_anchor :: pystr
  an_timezone :: pystr
  an_class :: int
  an_created :: pystr
  an_kind :: pystr
  an_calendar :: pystr
  an_month :: "int option"
  an_day :: "int option"
  an_leap :: bool
  an_advance :: "int list"

record briefing_row =
  bf_id :: pystr
  bf_owner :: pystr
  bf_creator :: pystr
  bf_target :: pystr
  bf_time :: pystr
  bf_timezone :: pystr
  bf_class :: int
  bf_enabled :: bool
  bf_last_sent :: "pystr option"
  bf_created :: pystr
  bf_updated :: pystr

record lead_row =
  ld_key :: pystr
  ld_owner :: pystr
  ld_minutes :: "int list"
  ld_updated :: pystr

datatype group_mode = GM_DISABLED | GM_PUBLIC | GM_INTERNAL

record route_row =
  rt_channel :: pystr
  rt_account :: pystr
  rt_opaque :: pystr
  rt_kind :: pystr
  rt_enabled :: bool
  rt_owner :: "pystr option"
  rt_mode :: group_mode
  rt_shared :: "pystr option"
  rt_seen :: pystr

record member_row =
  mb_channel :: pystr
  mb_account :: pystr
  mb_opaque :: pystr
  mb_user :: pystr
  mb_added_by :: pystr
  mb_created :: pystr

record activation_row =
  av_hash :: pystr
  av_user :: pystr
  av_channel :: pystr
  av_account :: pystr
  av_mode :: group_mode
  av_expires :: pystr
  av_consumed :: "pystr option"
  av_created :: pystr

record link_row =
  pl_hash :: pystr
  pl_channel :: pystr
  pl_account :: pystr
  pl_actor :: pystr
  pl_expires :: pystr
  pl_consumed :: "pystr option"
  pl_created :: pystr

record admin_session_row =
  sn_hash :: pystr
  sn_user :: pystr
  sn_authentication :: pystr
  sn_created :: pystr
  sn_expires :: pystr
  sn_revoked :: "pystr option"

record credential_row =
  cd_user :: pystr
  cd_hash :: pystr
  cd_updated :: pystr

record login_row =
  lg_user :: pystr
  lg_window :: pystr
  lg_attempts :: int
  lg_locked :: "pystr option"

record challenge_row =
  ch_id :: pystr
  ch_user :: pystr
  ch_channel :: pystr
  ch_hash :: pystr
  ch_expires :: pystr
  ch_consumed :: "pystr option"
  ch_account :: pystr
  ch_opaque :: pystr
  ch_subject :: pystr
  ch_attempts :: int

record plan_row =
  pp_id :: pystr
  pp_actor :: pystr
  pp_target :: pystr
  pp_action :: pystr
  pp_payload :: pystr
  pp_state :: pystr
  pp_created :: pystr
  pp_expires :: pystr

record usage_row =
  lu_owner :: pystr
  lu_model :: pystr
  lu_kind :: pystr
  lu_start :: pystr
  lu_calls :: int
  lu_input :: int
  lu_output :: int

record call_row =
  lc_id :: nat
  lc_at :: pystr
  lc_owner :: pystr
  lc_model :: pystr
  lc_reason :: pystr
  lc_outcome :: pystr
  lc_estimated :: int
  lc_input :: int
  lc_output :: int
  lc_cached :: int

record job_row =
  jb_id :: pystr
  jb_owner :: pystr
  jb_kind :: pystr
  jb_spec :: pystr
  jb_timezone :: pystr
  jb_enabled :: bool
  jb_created :: pystr
  jb_updated :: pystr

record run_row =
  jr_id :: pystr
  jr_job :: pystr
  jr_for :: pystr
  jr_status :: pystr
  jr_started :: "pystr option"
  jr_completed :: "pystr option"
  jr_error :: pystr

record note_row =
  no_id :: pystr
  no_owner :: pystr
  no_creator :: "pystr option"
  no_title :: pystr
  no_body :: pystr
  no_class :: int
  no_version :: int
  no_created :: pystr
  no_updated :: pystr
  no_category :: "pystr option"

record category_row =
  nc_id :: pystr
  nc_owner :: pystr
  nc_parent :: "pystr option"
  nc_name :: pystr
  nc_created :: pystr

record block_row =
  nb_id :: pystr
  nb_note :: pystr
  nb_name :: pystr
  nb_body :: pystr
  nb_position :: nat
  nb_created :: pystr
  nb_updated :: pystr

record field_row =
  nf_block :: pystr
  nf_name :: pystr
  nf_value :: pystr
  nf_position :: nat

record attachment_row =
  nt_note :: pystr
  nt_id :: pystr
  nt_filename :: pystr
  nt_media :: pystr
  nt_size :: int
  nt_ref :: pystr

record tag_row =
  tg_id :: nat
  tg_owner :: pystr
  tg_name :: pystr

record resource_tag_row =
  rg_kind :: pystr
  rg_resource :: pystr
  rg_tag :: nat

text \<open>The lists of days and minutes that columns hold as comma-separated numbers are kept as lists.\<close>

record app_db =
  store :: outbox
  t_users :: "user_row list"
  t_roles :: "pystr list"
  t_bindings :: "role_binding list"
  t_identities :: "identity_row list"
  t_sessions :: "session_row list"
  t_acl :: "acl_row list"
  t_tasks :: "task_row list"
  t_reminders :: "reminder_row list"
  t_agenda :: "agenda_row list"
  t_rules :: "rule_row list"
  t_exceptions :: "exception_row list"
  t_notifications :: "notification_row list"
  t_anniversaries :: "anniversary_row list"
  t_briefings :: "briefing_row list"
  t_default_leads :: "lead_row list"
  t_item_leads :: "lead_row list"
  t_routes :: "route_row list"
  t_jobs :: "job_row list"
  t_runs :: "run_row list"
  t_notes :: "note_row list"
  t_categories :: "category_row list"
  t_blocks :: "block_row list"
  t_fields :: "field_row list"
  t_attachments :: "attachment_row list"
  t_tags :: "tag_row list"
  t_resource_tags :: "resource_tag_row list"
  t_fts :: "fts_row list"
  t_members :: "member_row list"
  t_activations :: "activation_row list"
  t_links :: "link_row list"
  t_admin_sessions :: "admin_session_row list"
  t_credentials :: "credential_row list"
  t_logins :: "login_row list"
  t_challenges :: "challenge_row list"
  t_plans :: "plan_row list"
  t_usage :: "usage_row list"
  t_calls :: "call_row list"

type_synonym 'a app = "(app_db, 'a) op"

definition user_exists :: "app_db \<Rightarrow> pystr \<Rightarrow> bool" where
  "user_exists s u \<longleftrightarrow> u \<in> set (known_users (store s))"

definition user_or_null :: "app_db \<Rightarrow> pystr option \<Rightarrow> bool" where
  "user_or_null s u = (case u of None \<Rightarrow> True | Some v \<Rightarrow> user_exists s v)"

definition ordinary_class :: "int \<Rightarrow> bool" where
  "ordinary_class c \<longleftrightarrow> 0 \<le> c \<and> c \<le> 2"

section \<open>Statements\<close>

text \<open>A table of the database: how its rows are read and changed.\<close>

record 'r table =
  rows :: "app_db \<Rightarrow> 'r list"
  on_rows :: "('r list \<Rightarrow> 'r list) \<Rightarrow> app_db \<Rightarrow> app_db"

text \<open>
  \<^verbatim>\<open>INSERT\<close> with the condition of the primary key, the foreign keys and the checks; \<^verbatim>\<open>UPDATE \<dots> WHERE\<close>
  with the table's checks and \<^verbatim>\<open>DELETE \<dots> WHERE\<close>, both with the row count.
\<close>

definition insert_row :: "'r table \<Rightarrow> (app_db \<Rightarrow> 'r \<Rightarrow> bool) \<Rightarrow> 'r \<Rightarrow> unit app" where
  "insert_row tab allowed r s =
     (if allowed s r then (on_rows tab (\<lambda>rs. rs @ [r]) s, Inr ()) else (s, Inl IntegrityErr))"

definition change_rows :: "'r table \<Rightarrow> ('r \<Rightarrow> bool) \<Rightarrow> ('r \<Rightarrow> bool) \<Rightarrow> ('r \<Rightarrow> 'r) \<Rightarrow> nat app" where
  "change_rows tab checks p f s =
     (if list_all (\<lambda>r. p r \<longrightarrow> checks (f r)) (rows tab s)
      then (on_rows tab (update_where p f) s, Inr (count_where p (rows tab s)))
      else (s, Inl IntegrityErr))"

definition remove_rows :: "'r table \<Rightarrow> ('r \<Rightarrow> bool) \<Rightarrow> nat app" where
  "remove_rows tab p s = (on_rows tab (filter (\<lambda>r. \<not> p r)) s, Inr (count_where p (rows tab s)))"

text \<open>
  \<^verbatim>\<open>INSERT OR IGNORE\<close> and \<^verbatim>\<open>ON CONFLICT DO NOTHING\<close>: a row that breaks a unique key or a check is skipped, a
  missing foreign row still raises.
\<close>

definition insert_or_ignore :: "'r table \<Rightarrow> (app_db \<Rightarrow> 'r \<Rightarrow> bool) \<Rightarrow> (app_db \<Rightarrow> 'r \<Rightarrow> bool) \<Rightarrow> 'r \<Rightarrow> unit app" where
  "insert_or_ignore tab skipped known r s = (if skipped s r then (s, Inr ())
     else if known s r then (on_rows tab (\<lambda>rs. rs @ [r]) s, Inr ()) else (s, Inl IntegrityErr))"

definition fetch_one :: "'r table \<Rightarrow> ('r \<Rightarrow> bool) \<Rightarrow> 'r option app" where
  "fetch_one tab p = reads (\<lambda>s. find p (rows tab s))"

section \<open>Transactions, authorization and audit\<close>

definition app_transaction :: "'a app \<Rightarrow> 'a app" where
  "app_transaction m = atomically (\<lambda>old s. old) m"

text \<open>\<^verbatim>\<open>except sqlite3.IntegrityError as exc: raise _raise_conflict(exc) from exc\<close>.\<close>

definition raise_conflict :: "'a app \<Rightarrow> 'a app" where
  "raise_conflict m s = (case m s of (t, Inl e) \<Rightarrow> (t, Inl (if e = IntegrityErr then ConflictError else e))
     | (t, Inr x) \<Rightarrow> (t, Inr x))"

fun action_value :: "action \<Rightarrow> pystr" where
  "action_value LIST_METADATA = lit ''list_metadata''"
| "action_value READ = lit ''read''"
| "action_value CREATE = lit ''create''"
| "action_value UPDATE = lit ''update''"
| "action_value DELETE = lit ''delete''"
| "action_value USE = lit ''use''"
| "action_value REVEAL = lit ''reveal''"
| "action_value EXPORT = lit ''export''"
| "action_value GRANT = lit ''grant''"
| "action_value ROTATE = lit ''rotate''"

definition mk_resource :: "pystr \<Rightarrow> pystr \<Rightarrow> pystr \<Rightarrow> data_classification \<Rightarrow> resource_ref" where
  "mk_resource k i owner c =
     \<lparr>resource_kind = k, resource_id = i, resource_owner = owner, resource_classification = c\<rparr>"

definition resource :: "pystr \<Rightarrow> pystr \<Rightarrow> pystr \<Rightarrow> data_classification \<Rightarrow> resource_ref res" where
  "resource k i owner c = new_resource_ref (mk_resource k i owner c)"

definition require_authorization ::
  "authorized_action \<Rightarrow> action \<Rightarrow> pystr \<Rightarrow> pystr \<Rightarrow> pystr \<Rightarrow> data_classification \<Rightarrow> unit res" where
  "require_authorization a act k i owner c = and_then (resource k i owner c) (\<lambda>expected.
     if auth_action a \<noteq> act \<or> auth_resource a \<noteq> expected then Inl PermissionDenied else Inr ())"

definition add_audit :: "audit_event \<Rightarrow> app_db \<Rightarrow> app_db" where
  "add_audit e s = s\<lparr>store := (store s)\<lparr>outbox_audit := outbox_audit (store s) @ [e]\<rparr>\<rparr>"

definition audit_of :: "pystr \<Rightarrow> authorized_action \<Rightarrow> pystr \<Rightarrow> pystr \<Rightarrow> audit_event" where
  "audit_of t a outcome reason = \<lparr>au_at = t, au_actor = auth_actor a, au_action = action_value (auth_action a),
     au_kind = resource_kind (auth_resource a), au_resource = resource_id (auth_resource a),
     au_outcome = outcome, au_reason = reason\<rparr>"

definition audit :: "app_env \<Rightarrow> authorized_action \<Rightarrow> pystr \<Rightarrow> pystr \<Rightarrow> unit app" where
  "audit env a outcome reason = bind (of_res (dump_time (a_tz env) (authorized_at a)))
     (\<lambda>t. writes (add_audit (audit_of t a outcome reason)))"

definition completed :: pystr where
  "completed = lit ''completed''"

text \<open>
  The shape of every write: one statement and its audit event in a transaction; an insert turns an
  IntegrityError into a ConflictError, an update or a deletion of other than one row raises \<open>missing\<close>.
  The column texts are computed before: a naive time raises the same exception and leaves the tables as they are.
\<close>

definition insert_audited :: "app_env \<Rightarrow> 'r table \<Rightarrow> (app_db \<Rightarrow> 'r \<Rightarrow> bool) \<Rightarrow> 'r \<Rightarrow> authorized_action \<Rightarrow> unit app" where
  "insert_audited env tab allowed r a =
     raise_conflict (app_transaction (seq (insert_row tab allowed r) (audit env a completed [])))"

definition change_audited :: "app_env \<Rightarrow> 'r table \<Rightarrow> ('r \<Rightarrow> bool) \<Rightarrow> ('r \<Rightarrow> bool) \<Rightarrow> ('r \<Rightarrow> 'r) \<Rightarrow> err
    \<Rightarrow> authorized_action \<Rightarrow> pystr \<Rightarrow> unit app" where
  "change_audited env tab checks p f missing a reason =
     app_transaction (bind (change_rows tab checks p f) (\<lambda>changed.
       seq (check (changed \<noteq> 1) missing) (audit env a completed reason)))"

definition remove_audited :: "app_env \<Rightarrow> 'r table \<Rightarrow> ('r \<Rightarrow> bool) \<Rightarrow> err \<Rightarrow> authorized_action \<Rightarrow> unit app" where
  "remove_audited env tab p missing a =
     app_transaction (bind (remove_rows tab p) (\<lambda>changed.
       seq (check (changed \<noteq> 1) missing) (audit env a completed [])))"

section \<open>Column values\<close>

definition dump_time_opt :: "tzdb \<Rightarrow> datetime option \<Rightarrow> pystr option res" where
  "dump_time_opt db v = (case v of None \<Rightarrow> Inr None | Some t \<Rightarrow> and_then (dump_time db t) (\<lambda>x. Inr (Some x)))"

text \<open>\<^verbatim>\<open>_load_datetime\<close>, without and with a time zone; \<^verbatim>\<open>ZoneInfo(key)\<close> raises for an unknown key.\<close>

definition load_time :: "pystr \<Rightarrow> datetime res" where
  "load_time s = and_then (fromisoformat_utc s) (\<lambda>t. Inr (utc t))"

definition load_time_opt :: "pystr option \<Rightarrow> datetime option res" where
  "load_time_opt v = (case v of None \<Rightarrow> Inr None | Some s \<Rightarrow> and_then (load_time s) (\<lambda>t. Inr (Some t)))"

definition zone_info :: "tzdb \<Rightarrow> pystr \<Rightarrow> tzinfo res" where
  "zone_info db z = (if z_known db z then Inr (ZoneInfo z) else Inl KeyErr)"

definition load_time_in :: "tzdb \<Rightarrow> pystr \<Rightarrow> pystr \<Rightarrow> datetime res" where
  "load_time_in db z s = and_then (load_time s) (\<lambda>t. and_then (zone_info db z) (\<lambda>tz. Inr (astimezone db t tz)))"

definition load_time_in_opt :: "tzdb \<Rightarrow> pystr \<Rightarrow> pystr option \<Rightarrow> datetime option res" where
  "load_time_in_opt db z v =
     (case v of None \<Rightarrow> Inr None | Some s \<Rightarrow> and_then (load_time_in db z s) (\<lambda>t. Inr (Some t)))"

text \<open>Action links as JSON; the JSON text is its value.\<close>

definition dump_action_links :: "action_link list \<Rightarrow> json" where
  "dump_action_links ls = JArr (map (\<lambda>l. JObj [(lit ''label'', JStr (link_label l)), (lit ''url'', JStr (link_url l))]) ls)"

definition load_action_link :: "urlsplit \<Rightarrow> json \<Rightarrow> action_link res" where
  "load_action_link split j = and_then (json_first [json_get (lit ''label'') j]) (\<lambda>l.
     and_then (json_first [json_get (lit ''url'') j]) (\<lambda>u.
       new_action_link split \<lparr>link_label = l, link_url = u\<rparr>))"

fun is_object :: "json \<Rightarrow> bool" where
  "is_object (JObj kvs) = True"
| "is_object _ = False"

definition load_action_links :: "urlsplit \<Rightarrow> json \<Rightarrow> action_link list res" where
  "load_action_links split j = (case j of
       JArr xs \<Rightarrow> if length xs > 8 then Inl ValidationError
                 else map_res (load_action_link split) (filter is_object xs)
     | _ \<Rightarrow> Inl ValidationError)"

text \<open>
  \<^verbatim>\<open>sorted\<close> with Python's comparison \<open>lt\<close> of the keys: stable insertion, which is what a stable sort returns for
  a comparison that is a strict weak order.
\<close>

fun insert_by :: "('a \<Rightarrow> 'a \<Rightarrow> bool) \<Rightarrow> 'a \<Rightarrow> 'a list \<Rightarrow> 'a list" where
  "insert_by lt x [] = [x]"
| "insert_by lt x (y # ys) = (if lt x y then x # y # ys else y # insert_by lt x ys)"

definition sorted_by :: "('a \<Rightarrow> 'a \<Rightarrow> bool) \<Rightarrow> 'a list \<Rightarrow> 'a list" where
  "sorted_by lt xs = foldl (\<lambda>ys x. insert_by lt x ys) [] xs"

text \<open>Tuples of a time and an id.\<close>

definition time_id_less :: "tzdb \<Rightarrow> datetime \<times> pystr \<Rightarrow> datetime \<times> pystr \<Rightarrow> bool" where
  "time_id_less db a b \<longleftrightarrow> (if dt_eq db (fst a) (fst b) then snd a < snd b else dt_less db (fst a) (fst b))"

section \<open>Lemmas\<close>

lemma unique_key_eq: "unique_key key rs \<Longrightarrow> r \<in> set rs \<Longrightarrow> r' \<in> set rs \<Longrightarrow> key r = key r' \<Longrightarrow> r = r'"
  by (auto simp: unique_key_def distinct_map dest: inj_onD)

lemma find_row_added:
  "find_row key k (rs @ [r]) = (case find_row key k rs of None \<Rightarrow> if key r = k then Some r else None | Some x \<Rightarrow> Some x)"
  unfolding find_row_append by (simp add: find_row_def split: option.split)

lemma find_row_removed: "find_row key j (filter (\<lambda>r. key r \<noteq> i) rs) = (if j = i then None else find_row key j rs)"
  by (induction rs) (auto simp: find_row_def)

lemma is_ok_Inr: "is_ok m \<longleftrightarrow> (\<exists>x. m = Inr x)"
  by (cases m) simp_all

lemma is_ok_and_then: "is_ok (and_then m f) \<longleftrightarrow> (\<exists>x. m = Inr x \<and> is_ok (f x))"
  by (cases m) simp_all

lemma app_transaction_Inr: "app_transaction m s = (t, Inr x) \<longleftrightarrow> m s = (t, Inr x)"
  by (simp add: app_transaction_def atomically_Inr)

lemma app_transaction_Inl: "app_transaction m s = (t, Inl e) \<longleftrightarrow> (\<exists>u. m s = (u, Inl e)) \<and> t = s"
  by (auto simp: app_transaction_def atomically_Inl)

lemma raise_conflict_Inr: "raise_conflict m s = (t, Inr x) \<longleftrightarrow> m s = (t, Inr x)"
  by (auto simp: raise_conflict_def split: prod.splits sum.splits)

lemma raise_conflict_Inl:
  "raise_conflict m s = (t, Inl e) \<longleftrightarrow> (\<exists>e'. m s = (t, Inl e') \<and> e = (if e' = IntegrityErr then ConflictError else e'))"
  by (auto simp: raise_conflict_def split: prod.splits sum.splits)

lemma insert_row_run:
  "insert_row tab ok r s = (if ok s r then (on_rows tab (\<lambda>rs. rs @ [r]) s, Inr ()) else (s, Inl IntegrityErr))"
  by (simp add: insert_row_def)

lemma insert_or_ignore_run:
  "insert_or_ignore tab skipped known r s = (if skipped s r then (s, Inr ())
     else if known s r then (on_rows tab (\<lambda>rs. rs @ [r]) s, Inr ()) else (s, Inl IntegrityErr))"
  by (simp add: insert_or_ignore_def)

lemma require_authorization_Inr:
  "require_authorization a act k i owner c = Inr u \<longleftrightarrow>
     auth_action a = act \<and> auth_resource a = mk_resource k i owner c
     \<and> \<not> blank k \<and> \<not> blank i \<and> \<not> blank owner"
  by (auto simp: require_authorization_def resource_def mk_resource_def new_resource_ref_def and_then_def guarded_def
      split: if_splits)

lemma audit_run:
  "audit env a outcome reason s = (if aware (authorized_at a)
     then (add_audit (audit_of (time_text (a_tz env) (authorized_at a)) a outcome reason) s, Inr ())
     else (s, Inl ValidationError))"
  by (simp add: audit_def dump_time_def guarded_def op_simps)

abbreviation audited :: "app_env \<Rightarrow> authorized_action \<Rightarrow> pystr \<Rightarrow> app_db \<Rightarrow> app_db" where
  "audited env a reason \<equiv> add_audit (audit_of (time_text (a_tz env) (authorized_at a)) a completed reason)"

lemma insert_audited_run:
  "insert_audited env tab allowed r a s =
     (if \<not> allowed s r then (s, Inl ConflictError)
      else if \<not> aware (authorized_at a) then (s, Inl ValidationError)
      else (audited env a [] (on_rows tab (\<lambda>rs. rs @ [r]) s), Inr ()))"
  by (simp add: insert_audited_def raise_conflict_def app_transaction_def atomically_def seq_def bind_def insert_row_def
      audit_run)

lemma change_audited_run:
  "change_audited env tab checks p f missing a reason s =
     (if \<not> list_all (\<lambda>r. p r \<longrightarrow> checks (f r)) (rows tab s) then (s, Inl IntegrityErr)
      else if count_where p (rows tab s) \<noteq> 1 then (s, Inl missing)
      else if \<not> aware (authorized_at a) then (s, Inl ValidationError)
      else (audited env a reason (on_rows tab (update_where p f) s), Inr ()))"
  by (simp add: change_audited_def app_transaction_def atomically_def seq_def bind_def change_rows_def check_def audit_run)

lemma remove_audited_run:
  "remove_audited env tab p missing a s =
     (if count_where p (rows tab s) \<noteq> 1 then (s, Inl missing)
      else if \<not> aware (authorized_at a) then (s, Inl ValidationError)
      else (audited env a [] (on_rows tab (filter (\<lambda>r. \<not> p r)) s), Inr ()))"
  by (simp add: remove_audited_def app_transaction_def atomically_def seq_def bind_def remove_rows_def check_def audit_run)

lemma require_authorization_run:
  assumes "\<not> blank k" "\<not> blank i" "\<not> blank owner"
  shows "require_authorization a act k i owner c =
     (if auth_action a = act \<and> auth_resource a = mk_resource k i owner c then Inr () else Inl PermissionDenied)"
  using assms by (simp add: require_authorization_def resource_def mk_resource_def new_resource_ref_def guarded_def)

lemma dump_time_Inr: "dump_time db t = Inr x \<longleftrightarrow> aware t \<and> x = time_text db t"
  by (auto simp: dump_time_def guarded_def)

lemma load_dumped:
  "in_range (instant db t) \<Longrightarrow> load_time (time_text db t) = Inr (utc (instant db t))"
  by (simp add: load_time_def fromisoformat_isoformat and_then_def)

lemma load_dumped_opt:
  assumes "dump_time_opt db v = Inr w" "\<forall>t. v = Some t \<longrightarrow> in_range (instant db t)"
  shows "load_time_opt w = Inr (map_option (\<lambda>t. utc (instant db t)) v)"
  using assms by (cases v) (auto simp: dump_time_opt_def load_time_opt_def and_then_def load_dumped dump_time_Inr
      dump_time_def guarded_def split: sum.splits if_splits)

lemma load_dumped_links:
  assumes "\<And>l. l \<in> set ls \<Longrightarrow> new_action_link split l = Inr l" "length ls \<le> 8"
  shows "load_action_links split (dump_action_links ls) = Inr ls"
proof -
  have one: "load_action_link split (JObj [(lit ''label'', JStr (link_label l)), (lit ''url'', JStr (link_url l))]) = Inr l"
    if l: "l \<in> set ls" for l
  proof -
    have "link_label l \<noteq> []" "link_url l \<noteq> []" and "new_action_link split l = Inr l"
      using assms(1)[OF l] by (auto simp: new_action_link_def guarded_def blank_def split: if_splits)
    then show ?thesis by (cases l) (simp add: load_action_link_def lit_def and_then_def)
  qed
  have "filter is_object (map (\<lambda>l. JObj [(lit ''label'', JStr (link_label l)), (lit ''url'', JStr (link_url l))]) ls)
      = map (\<lambda>l. JObj [(lit ''label'', JStr (link_label l)), (lit ''url'', JStr (link_url l))]) ls"
    by (simp add: filter_id_conv)
  then show ?thesis using assms(2) one
    by (auto simp: load_action_links_def dump_action_links_def map_res_map intro!: map_res_id)
qed

lemma map_res_Inr_in: "map_res f xs = Inr ys \<Longrightarrow> y \<in> set ys \<Longrightarrow> \<exists>x \<in> set xs. f x = Inr y"
  by (induction xs arbitrary: ys) (auto split: sum.splits)

lemma new_action_link_Inr: "new_action_link split u = Inr l \<Longrightarrow> l = u"
  unfolding new_action_link_def by (drule guarded_InrD) simp

lemma loaded_links:
  assumes "load_action_links split j = Inr ls" "l \<in> set ls"
  shows "new_action_link split l = Inr l"
proof -
  obtain x where "load_action_link split x = Inr l"
    using assms map_res_Inr_in[of "load_action_link split" _ ls l]
    by (cases j) (auto simp: load_action_links_def split: if_splits)
  then obtain u where "new_action_link split u = Inr l" unfolding load_action_link_def and_then_Inr by blast
  then show ?thesis using new_action_link_Inr by metis
qed

lemma set_insert_by [simp]: "set (insert_by lt x ys) = insert x (set ys)"
  by (induction ys) auto

lemma set_sorted_by [simp]: "set (sorted_by lt xs) = set xs"
proof -
  have "set (foldl (\<lambda>ys x. insert_by lt x ys) zs xs) = set xs \<union> set zs" for zs
    by (induction xs arbitrary: zs) auto
  then show ?thesis by (simp add: sorted_by_def)
qed

text \<open>What every table gives its repository.\<close>

locale db_table =
  fixes tab :: "'r table" and key :: "'r \<Rightarrow> pystr"
  assumes rows_on_rows: "rows tab (on_rows tab f s) = f (rows tab s)"
    and store_on_rows: "store (on_rows tab f s) = store s"
    and rows_add_audit: "rows tab (add_audit e s) = rows tab s"
begin

lemma rows_after:
  "rows tab (audited env a reason (on_rows tab g s)) = g (rows tab s)"
  by (simp add: rows_add_audit rows_on_rows)

end

section \<open>A concrete store\<close>

text \<open>Two users, u the owner of what is written and v, and no rows.\<close>

definition sample_app_env :: app_env where
  "sample_app_env = \<lparr>a_tz = utc_only, a_split = (\<lambda>u. None), a_rrule_ok = (\<lambda>r. False), a_rrule = no_rrule,
     a_sha256 = (\<lambda>x. x), a_word = (\<lambda>c. c > 64), a_fts = (\<lambda>q rs. rs)\<rparr>"

definition sample_app_db :: app_db where
  "sample_app_db = \<lparr>store = \<lparr>deliveries = [], dead_letters = [], outbox_audit = [], known_users = [lit ''u'', lit ''v'']\<rparr>,
     t_users = [], t_roles = [], t_bindings = [], t_identities = [], t_sessions = [], t_acl = [], t_tasks = [],
     t_reminders = [], t_agenda = [], t_rules = [], t_exceptions = [], t_notifications = [], t_anniversaries = [],
     t_briefings = [], t_default_leads = [], t_item_leads = [], t_routes = [], t_jobs = [], t_runs = [],
     t_notes = [], t_categories = [], t_blocks = [], t_fields = [], t_attachments = [], t_tags = [], t_resource_tags = [],
     t_fts = [], t_members = [], t_activations = [], t_links = [], t_admin_sessions = [], t_credentials = [],
     t_logins = [], t_challenges = [], t_plans = [], t_usage = [], t_calls = []\<rparr>"

definition sample_auth :: "action \<Rightarrow> pystr \<Rightarrow> pystr \<Rightarrow> authorized_action" where
  "sample_auth act k i = \<lparr>auth_actor = lit ''u'', auth_action = act,
     auth_resource = mk_resource k i (lit ''u'') PERSONAL, authorized_at = utc 0\<rparr>"

lemma sample_store_simps:
  "a_tz sample_app_env = utc_only" "t_acl sample_app_db = []" "t_tasks sample_app_db = []" "t_reminders sample_app_db = []"
  "auth_action (sample_auth act k i) = act" "auth_actor (sample_auth act k i) = lit ''u''"
  "auth_resource (sample_auth act k i) = mk_resource k i (lit ''u'') PERSONAL" "authorized_at (sample_auth act k i) = utc 0"
  "user_exists sample_app_db (lit ''u'')" "user_exists sample_app_db (lit ''v'')" "aware (utc n)"
  "new_resource_ref (mk_resource (lit ''task'') (lit ''t'') (lit ''u'') PERSONAL)
     = Inr (mk_resource (lit ''task'') (lit ''t'') (lit ''u'') PERSONAL)"
  "in_range (instant db (utc 0))" "\<not> blank (lit ''u'')" "\<not> blank (lit ''t'')"
  by (simp_all add: sample_app_env_def sample_app_db_def sample_auth_def user_exists_def aware_def utc_def
      new_resource_ref_def mk_resource_def guarded_def blank_def lit_def py_space_def instant_def in_range_def)

end
