(* ===== verification/TaskStore.thy ===== *)
theory TaskStore
  imports AppStore "HOL-Library.Option_ord"
begin

text \<open>
  \<^verbatim>\<open>TaskRepository\<close> of \<^verbatim>\<open>repositories.py\<close>: how a task is written to and read from its row, and the
  methods create, get, update, list_for_owner and delete.
\<close>

section \<open>Rows\<close>

fun task_status_value :: "task_status \<Rightarrow> pystr" where
  "task_status_value TASK_PENDING = lit ''pending''"
| "task_status_value TASK_IN_PROGRESS = lit ''in_progress''"
| "task_status_value TASK_COMPLETED = lit ''completed''"
| "task_status_value TASK_CANCELLED = lit ''cancelled''"
| "task_status_value TASK_ARCHIVED = lit ''archived''"

definition all_task_status :: "task_status list" where
  "all_task_status = [TASK_PENDING, TASK_IN_PROGRESS, TASK_COMPLETED, TASK_CANCELLED, TASK_ARCHIVED]"

definition tasks :: "task_row table" where
  "tasks = \<lparr>rows = t_tasks, on_rows = t_tasks_update\<rparr>"

text \<open>The checks of the table, and with them its primary key and foreign keys for a new row.\<close>

definition task_checks :: "task_row \<Rightarrow> bool" where
  "task_checks r \<longleftrightarrow> tk_status r \<in> set (map task_status_value all_task_status)
     \<and> 0 \<le> tk_priority r \<and> tk_priority r \<le> 4 \<and> ordinary_class (tk_class r) \<and> 0 < tk_version r"

definition task_allowed :: "app_db \<Rightarrow> task_row \<Rightarrow> bool" where
  "task_allowed s r \<longleftrightarrow> tk_id r \<notin> tk_id ` set (t_tasks s) \<and> user_exists s (tk_owner r)
     \<and> user_or_null s (tk_creator r) \<and> task_checks r"

definition task_from_row :: "task_row \<Rightarrow> task res" where
  "task_from_row r =
     and_then (enum_of task_status_value all_task_status (tk_status r)) (\<lambda>status.
     and_then (load_time_opt (tk_due r)) (\<lambda>due.
     and_then (classification_of (tk_class r)) (\<lambda>c.
     and_then (load_time (tk_created r)) (\<lambda>created.
     and_then (load_time (tk_updated r)) (\<lambda>updated.
       new_task \<lparr>task_id = tk_id r, task_owner = tk_owner r, task_title = tk_title r,
         task_creator = Some (case tk_creator r of Some u \<Rightarrow> u | None \<Rightarrow> tk_owner r),
         task_status = status, priority = tk_priority r, due_at = due, task_description = tk_description r,
         task_classification = c, task_version = tk_version r, task_created_at = Some created,
         task_updated_at = Some updated\<rparr>)))))"

section \<open>Methods\<close>

definition new_task_row :: "pystr option \<Rightarrow> pystr \<Rightarrow> task \<Rightarrow> task_row" where
  "new_task_row due now_text t =
     \<lparr>tk_id = task_id t, tk_owner = task_owner t, tk_creator = task_creator t, tk_title = task_title t,
      tk_description = task_description t, tk_status = task_status_value (task_status t), tk_priority = priority t,
      tk_due = due, tk_class = classification_value (task_classification t), tk_version = task_version t,
      tk_created = now_text, tk_updated = now_text\<rparr>"

definition set_task_columns :: "pystr option \<Rightarrow> pystr \<Rightarrow> task \<Rightarrow> task_row \<Rightarrow> task_row" where
  "set_task_columns due now_text t r = r\<lparr>tk_title := task_title t, tk_description := task_description t,
     tk_status := task_status_value (task_status t), tk_priority := priority t, tk_due := due,
     tk_class := classification_value (task_classification t), tk_version := task_version t,
     tk_updated := now_text\<rparr>"

definition task_create :: "app_env \<Rightarrow> task \<Rightarrow> authorized_action \<Rightarrow> task app" where
  "task_create env t a =
     seq (of_res (require_authorization a CREATE (lit ''task'') (task_id t) (task_owner t) (task_classification t)))
    (bind (of_res (new_task (t\<lparr>task_version := 1, task_created_at := Some (authorized_at a),
        task_updated_at := Some (authorized_at a)\<rparr>))) (\<lambda>stored.
     bind (of_res (dump_time_opt (a_tz env) (due_at stored))) (\<lambda>due.
     bind (of_res (dump_time (a_tz env) (authorized_at a))) (\<lambda>now_text.
     seq (insert_audited env tasks task_allowed (new_task_row due now_text stored) a)
       (ret stored)))))"

definition task_get :: "pystr \<Rightarrow> task option app" where
  "task_get i = bind (fetch_one tasks (\<lambda>r. tk_id r = i)) (\<lambda>row. case row of
       None \<Rightarrow> ret None
     | Some r \<Rightarrow> bind (of_res (task_from_row r)) (\<lambda>t. ret (Some t)))"

definition task_update :: "app_env \<Rightarrow> task \<Rightarrow> int \<Rightarrow> authorized_action \<Rightarrow> task app" where
  "task_update env t expected_version a =
     seq (of_res (require_authorization a UPDATE (lit ''task'') (task_id t) (task_owner t) (task_classification t)))
    (seq (check (task_version t \<noteq> expected_version + 1) ValidationError)
    (bind (of_res (new_task (t\<lparr>task_updated_at := Some (authorized_at a)\<rparr>))) (\<lambda>stored.
     bind (of_res (dump_time_opt (a_tz env) (due_at stored))) (\<lambda>due.
     bind (of_res (dump_time (a_tz env) (authorized_at a))) (\<lambda>now_text.
     seq (change_audited env tasks task_checks
         (\<lambda>r. tk_id r = task_id stored \<and> tk_owner r = task_owner stored \<and> tk_version r = expected_version)
         (set_task_columns due now_text stored) ConcurrencyConflict a [])
       (ret stored))))))"

text \<open>\<^verbatim>\<open>ORDER BY due_at IS NULL, due_at, priority DESC, created_at\<close>.\<close>

definition task_order :: "task_row \<Rightarrow> bool \<times> pystr option \<times> int \<times> pystr" where
  "task_order r = (tk_due r = None, tk_due r, - tk_priority r, tk_created r)"

definition task_list_for_owner :: "pystr \<Rightarrow> task list app" where
  "task_list_for_owner owner =
     bind (reads (\<lambda>s. sort_key task_order (filter (\<lambda>r. tk_owner r = owner) (t_tasks s))))
       (\<lambda>rs. of_res (map_res task_from_row rs))"

definition task_delete :: "app_env \<Rightarrow> pystr \<Rightarrow> authorized_action \<Rightarrow> unit app" where
  "task_delete env i a =
     seq (of_res (require_authorization a DELETE (lit ''task'') i (resource_owner (auth_resource a))
        (resource_classification (auth_resource a))))
    (remove_audited env tasks (\<lambda>r. tk_id r = i \<and> tk_owner r = resource_owner (auth_resource a)) NotFoundError a)"

section \<open>The store as a map\<close>

text \<open>What \<^verbatim>\<open>get\<close> finds under each id.\<close>

definition task_map :: "app_db \<Rightarrow> pystr \<Rightarrow> task option" where
  "task_map s i = (case find_row tk_id i (t_tasks s) of None \<Rightarrow> None
     | Some r \<Rightarrow> (case task_from_row r of Inl e \<Rightarrow> None | Inr t \<Rightarrow> Some t))"

definition tasks_ok :: "app_db \<Rightarrow> bool" where
  "tasks_ok s \<longleftrightarrow> unique_key tk_id (t_tasks s) \<and> list_all (\<lambda>r. is_ok (task_from_row r)) (t_tasks s)"

text \<open>A task in the form it has when it is read back: times in UTC, the creator filled in.\<close>

definition in_utc :: "tzdb \<Rightarrow> datetime \<Rightarrow> datetime" where
  "in_utc db t = utc (instant db t)"

definition stored_task :: "app_env \<Rightarrow> datetime \<Rightarrow> task \<Rightarrow> task" where
  "stored_task env at t = t\<lparr>task_creator := Some (case task_creator t of Some u \<Rightarrow> u | None \<Rightarrow> task_owner t),
     due_at := map_option (in_utc (a_tz env)) (due_at t), task_version := 1,
     task_created_at := Some (in_utc (a_tz env) at), task_updated_at := Some (in_utc (a_tz env) at)\<rparr>"

text \<open>The columns an update writes, over what was stored.\<close>

definition merged_task :: "app_env \<Rightarrow> datetime \<Rightarrow> task \<Rightarrow> task \<Rightarrow> task" where
  "merged_task env at old t = old\<lparr>task_title := task_title t, task_description := task_description t,
     task_status := task_status t, priority := priority t, due_at := map_option (in_utc (a_tz env)) (due_at t),
     task_classification := task_classification t, task_version := task_version t,
     task_updated_at := Some (in_utc (a_tz env) at)\<rparr>"

text \<open>
  The abstract store: a map from ids to tasks, creation of a fresh id, compare-and-swap on the version, removal.
\<close>

datatype task_call = TaskCreate task | TaskUpdate task int | TaskDelete pystr

fun call_resource :: "authorized_action \<Rightarrow> task_call \<Rightarrow> action \<times> resource_ref" where
  "call_resource a (TaskCreate t) = (CREATE, mk_resource (lit ''task'') (task_id t) (task_owner t) (task_classification t))"
| "call_resource a (TaskUpdate t v) = (UPDATE, mk_resource (lit ''task'') (task_id t) (task_owner t) (task_classification t))"
| "call_resource a (TaskDelete i) = (DELETE, mk_resource (lit ''task'') i (resource_owner (auth_resource a))
     (resource_classification (auth_resource a)))"

fun task_spec :: "app_env \<Rightarrow> (pystr \<Rightarrow> bool) \<Rightarrow> authorized_action \<Rightarrow> task_call \<Rightarrow> (pystr \<Rightarrow> task option)
    \<Rightarrow> (pystr \<Rightarrow> task option) \<times> unit res" where
  "task_spec env user a (TaskCreate t) m =
     (if m (task_id t) \<noteq> None \<or> \<not> user (task_owner t) \<or> (case task_creator t of None \<Rightarrow> False | Some u \<Rightarrow> \<not> user u)
      then (m, Inl ConflictError)
      else (m(task_id t \<mapsto> stored_task env (authorized_at a) t), Inr ()))"
| "task_spec env user a (TaskUpdate t v) m =
     (if task_version t \<noteq> v + 1 then (m, Inl ValidationError)
      else case m (task_id t) of
         None \<Rightarrow> (m, Inl ConcurrencyConflict)
       | Some old \<Rightarrow> if task_owner old = task_owner t \<and> task_version old = v
           then (m(task_id t \<mapsto> merged_task env (authorized_at a) old t), Inr ())
           else (m, Inl ConcurrencyConflict))"
| "task_spec env user a (TaskDelete i) m = (case m i of
         None \<Rightarrow> (m, Inl NotFoundError)
       | Some old \<Rightarrow> if task_owner old = resource_owner (auth_resource a) then (m(i := None), Inr ())
           else (m, Inl NotFoundError))"

fun task_run :: "app_env \<Rightarrow> authorized_action \<Rightarrow> task_call \<Rightarrow> unit app" where
  "task_run env a (TaskCreate t) = bind (task_create env t a) (\<lambda>_. ret ())"
| "task_run env a (TaskUpdate t v) = bind (task_update env t v a) (\<lambda>_. ret ())"
| "task_run env a (TaskDelete i) = task_delete env i a"

section \<open>Lemmas\<close>

interpretation task_rows: db_table tasks tk_id
  by unfold_locales (simp_all add: tasks_def add_audit_def)

lemma task_status_round_trip: "enum_of task_status_value all_task_status (task_status_value st) = Inr st"
  by (cases st) (simp_all add: enum_of_def all_task_status_def lit_def)

lemma task_from_row_Inr:
  "task_from_row r = Inr t \<longleftrightarrow> (\<exists>status due c created updated.
     enum_of task_status_value all_task_status (tk_status r) = Inr status \<and> load_time_opt (tk_due r) = Inr due
     \<and> classification_of (tk_class r) = Inr c \<and> load_time (tk_created r) = Inr created
     \<and> load_time (tk_updated r) = Inr updated \<and> task_wf t
     \<and> t = \<lparr>task_id = tk_id r, task_owner = tk_owner r, task_title = tk_title r,
         task_creator = Some (case tk_creator r of Some u \<Rightarrow> u | None \<Rightarrow> tk_owner r),
         task_status = status, priority = tk_priority r, due_at = due, task_description = tk_description r,
         task_classification = c, task_version = tk_version r, task_created_at = Some created,
         task_updated_at = Some updated\<rparr>)"
  unfolding task_from_row_def and_then_Inr new_task_Inr by blast

lemma task_from_row_fields:
  "task_from_row r = Inr t \<Longrightarrow> task_id t = tk_id r \<and> task_owner t = tk_owner r \<and> task_version t = tk_version r \<and> task_wf t"
  by (auto simp: task_from_row_Inr)

lemma task_map_ok:
  assumes "tasks_ok s" "find_row tk_id i (t_tasks s) = Some r"
  obtains t where "task_from_row r = Inr t" "task_map s i = Some t" "task_id t = i" "task_owner t = tk_owner r"
    "task_version t = tk_version r" "task_wf t"
proof -
  have "r \<in> set (t_tasks s)" "tk_id r = i" using find_row_SomeD[OF assms(2)] by auto
  then obtain t where t: "task_from_row r = Inr t" using assms(1) by (auto simp: tasks_ok_def list_all_iff is_ok_Inr)
  show ?thesis
    by (rule that[OF t]) (use task_from_row_fields[OF t] t assms(2) \<open>tk_id r = i\<close> in \<open>simp_all add: task_map_def\<close>)
qed

lemma task_map_None: "tasks_ok s \<Longrightarrow> task_map s i = None \<longleftrightarrow> i \<notin> tk_id ` set (t_tasks s)"
  by (metis find_row_None_iff not_None_eq task_map_ok task_map_def option.simps(4) option.distinct(1))

text \<open>A written row reads back as the task in its stored form.\<close>

lemma read_new_row:
  assumes "task_wf t" "task_version t = 1" "dump_time_opt (a_tz env) (due_at t) = Inr due"
    "\<forall>d. due_at t = Some d \<longrightarrow> in_range (instant (a_tz env) d)" "in_range (instant (a_tz env) at)"
  shows "task_from_row (new_task_row due (time_text (a_tz env) at) t) = Inr (stored_task env at t)"
proof -
  have "load_time_opt due = Inr (map_option (in_utc (a_tz env)) (due_at t))"
    using load_dumped_opt[OF assms(3,4)] by (simp add: in_utc_def[abs_def])
  moreover have "task_wf (stored_task env at t)"
    using assms(1) by (auto simp: task_wf_iff stored_task_def blank_opt_def naive_opt_def in_utc_def aware_def utc_def
        split: option.splits)
  ultimately show ?thesis
    using assms(2) load_dumped[OF assms(5)]
    by (simp add: task_from_row_Inr new_task_row_def task_status_round_trip stored_task_def in_utc_def split: option.split)
qed

lemma read_changed_row:
  assumes "task_from_row r = Inr old" "task_wf t" "dump_time_opt (a_tz env) (due_at t) = Inr due"
    "\<forall>d. due_at t = Some d \<longrightarrow> in_range (instant (a_tz env) d)" "in_range (instant (a_tz env) at)"
  shows "task_from_row (set_task_columns due (time_text (a_tz env) at) t r) = Inr (merged_task env at old t)"
proof -
  have "load_time_opt due = Inr (map_option (in_utc (a_tz env)) (due_at t))"
    using load_dumped_opt[OF assms(3,4)] by (simp add: in_utc_def[abs_def])
  moreover have "task_wf (merged_task env at old t)"
    using assms(1,2) by (auto simp: task_from_row_Inr task_wf_iff merged_task_def blank_opt_def naive_opt_def in_utc_def
        aware_def utc_def split: option.splits)
  ultimately show ?thesis
    using assms(1) load_dumped[OF assms(5)]
    by (auto simp: task_from_row_Inr set_task_columns_def task_status_round_trip merged_task_def in_utc_def
        cong: option.case_cong)
qed

text \<open>How the methods run on task objects.\<close>

definition authorizes :: "authorized_action \<Rightarrow> task_call \<Rightarrow> bool" where
  "authorizes a c \<longleftrightarrow> (auth_action a, auth_resource a) = call_resource a c"

fun call_ok :: "app_env \<Rightarrow> task_call \<Rightarrow> bool" where
  "call_ok env (TaskCreate t) = (task_wf t \<and> (\<forall>d. due_at t = Some d \<longrightarrow> in_range (instant (a_tz env) d)))"
| "call_ok env (TaskUpdate t v) = (task_wf t \<and> (\<forall>d. due_at t = Some d \<longrightarrow> in_range (instant (a_tz env) d)))"
| "call_ok env (TaskDelete i) = (\<not> blank i)"

lemma due_text:
  assumes "task_wf t"
  obtains due where "dump_time_opt db (due_at t) = Inr due"
  using assms by (cases "due_at t")
    (auto simp: task_wf_iff naive_opt_def dump_time_opt_def dump_time_def guarded_def)

lemma task_kind [simp]: "\<not> blank (lit ''task'')"
  by (simp add: lit_def blank_def py_space_def)

lemma task_create_run:
  assumes "task_wf t" "aware (authorized_at a)" "dump_time_opt (a_tz env) (due_at t) = Inr due"
  defines "stored \<equiv> t\<lparr>task_version := 1, task_created_at := Some (authorized_at a), task_updated_at := Some (authorized_at a)\<rparr>"
  defines "r \<equiv> new_task_row due (time_text (a_tz env) (authorized_at a)) stored"
  shows "task_create env t a s = (if \<not> authorizes a (TaskCreate t) then (s, Inl PermissionDenied)
     else if \<not> task_allowed s r then (s, Inl ConflictError)
     else (audited env a [] (on_rows tasks (\<lambda>rs. rs @ [r]) s), Inr stored))"
proof -
  have "task_wf stored" using assms(1) by (auto simp: task_wf_iff stored_def)
  then have "new_task stored = Inr stored" by (rule new_task_wf)
  moreover have "\<not> blank (task_id t)" "\<not> blank (task_owner t)" using assms(1) by (auto simp: task_wf_iff)
  ultimately show ?thesis
    using assms(2,3) unfolding task_create_def r_def stored_def
    by (simp add: require_authorization_run authorizes_def seq_def bind_def op_run insert_audited_run
        dump_time_def guarded_def)
qed

lemma task_update_run:
  fixes v :: int
  assumes "task_wf t" "aware (authorized_at a)" "dump_time_opt (a_tz env) (due_at t) = Inr due"
  defines "stored \<equiv> t\<lparr>task_updated_at := Some (authorized_at a)\<rparr>"
  defines "p \<equiv> (\<lambda>r. tk_id r = task_id t \<and> tk_owner r = task_owner t \<and> tk_version r = v)"
    and "f \<equiv> set_task_columns due (time_text (a_tz env) (authorized_at a)) t"
  shows "task_update env t v a s = (if \<not> authorizes a (TaskUpdate t v) then (s, Inl PermissionDenied)
     else if task_version t \<noteq> v + 1 then (s, Inl ValidationError)
     else if count_where p (t_tasks s) \<noteq> 1 then (s, Inl ConcurrencyConflict)
     else (audited env a [] (on_rows tasks (update_where p f) s), Inr stored))"
proof -
  have "task_wf stored" using assms(1) by (auto simp: task_wf_iff stored_def)
  then have n: "new_task stored = Inr stored" by (rule new_task_wf)
  have "\<not> blank (task_id t)" "\<not> blank (task_owner t)" using assms(1) by (auto simp: task_wf_iff)
  moreover have "task_checks (f r)" for r
    using assms(1) by (cases "task_status t"; cases "task_classification t")
      (auto simp: task_checks_def f_def set_task_columns_def task_wf_iff all_task_status_def ordinary_class_def)
  moreover have "set_task_columns due now_text stored = set_task_columns due now_text t" for now_text
    by (simp add: fun_eq_iff set_task_columns_def stored_def)
  ultimately show ?thesis
    using assms(2,3) n unfolding task_update_def p_def f_def
    by (simp add: require_authorization_run authorizes_def seq_def bind_def op_run change_audited_run
        dump_time_def guarded_def stored_def tasks_def list.pred_True)
qed

lemma task_delete_run:
  assumes "aware (authorized_at a)" "\<not> blank i" "\<not> blank (resource_owner (auth_resource a))"
  defines "p \<equiv> (\<lambda>r. tk_id r = i \<and> tk_owner r = resource_owner (auth_resource a))"
  shows "task_delete env i a s = (if \<not> authorizes a (TaskDelete i) then (s, Inl PermissionDenied)
     else if count_where p (t_tasks s) \<noteq> 1 then (s, Inl NotFoundError)
     else (audited env a [] (on_rows tasks (filter (\<lambda>r. \<not> p r)) s), Inr ()))"
  using assms unfolding task_delete_def
  by (simp add: require_authorization_run authorizes_def seq_def bind_def op_run remove_audited_run tasks_def)

lemma count_tasks:
  assumes "tasks_ok s" "\<And>r. p r \<Longrightarrow> tk_id r = i"
  shows "count_where p (t_tasks s) = 1 \<longleftrightarrow> (\<exists>r. find_row tk_id i (t_tasks s) = Some r \<and> p r)"
  using count_where_key[of tk_id "t_tasks s" p i] assms by (auto simp: tasks_ok_def split: option.split)

lemma task_map_find: "find_row tk_id i (t_tasks s) = Some r \<Longrightarrow> task_from_row r = Inr t \<Longrightarrow> task_map s i = Some t"
  by (simp add: task_map_def)

text \<open>The three ways a write changes the map.\<close>

lemma map_after_insert:
  assumes "tasks_ok s" "task_map s (tk_id r) = None" "task_from_row r = Inr t"
    and s'_def: "s' = audited env a reason (on_rows tasks (\<lambda>rs. rs @ [r]) s)"
  shows "tasks_ok s' \<and> task_map s' = (task_map s)(tk_id r \<mapsto> t)"
proof -
  have new: "tk_id r \<notin> tk_id ` set (t_tasks s)" using assms(1,2) task_map_None by blast
  have rows: "t_tasks s' = t_tasks s @ [r]"
    using task_rows.rows_after[of env a reason "\<lambda>rs. rs @ [r]" s] by (simp add: s'_def tasks_def)
  have "task_map s' i = ((task_map s)(tk_id r \<mapsto> t)) i" for i
    using find_row_None_iff[of tk_id "tk_id r" "t_tasks s"] new assms(3)
    by (simp add: task_map_def rows find_row_added split: option.split)
  then show ?thesis using assms(1,3) new rows by (auto simp: tasks_ok_def unique_key_def)
qed

lemma map_after_update:
  assumes "tasks_ok s" "\<And>r. tk_id (f r) = tk_id r" "find_row tk_id i (t_tasks s) = Some r" "p r"
    "\<And>r'. p r' \<Longrightarrow> tk_id r' = i" "task_from_row (f r) = Inr t"
    and s'_def: "s' = audited env a reason (on_rows tasks (update_where p f) s)"
  shows "tasks_ok s' \<and> task_map s' = (task_map s)(i \<mapsto> t)"
proof -
  have rows: "t_tasks s' = update_where p f (t_tasks s)"
    using task_rows.rows_after[of env a reason "update_where p f" s] by (simp add: s'_def tasks_def)
  have only: "r' = r" if "r' \<in> set (t_tasks s)" "p r'" for r'
    using that assms(1,5) find_row_SomeD[OF assms(3)] unique_key_eq[of tk_id "t_tasks s" r' r] by (simp add: tasks_ok_def)
  have "task_map s' j = ((task_map s)(i \<mapsto> t)) j" for j
    using assms(2-6) by (cases "j = i")
      (auto simp: task_map_def rows find_row_update_where dest: find_row_SomeD split: option.split)
  moreover have "list_all (\<lambda>r. is_ok (task_from_row r)) (t_tasks s')"
    using assms(1,6) only by (auto simp: tasks_ok_def rows update_where_def list_all_iff)
  ultimately show ?thesis
    using assms(1,2) by (auto simp: tasks_ok_def rows unique_key_def map_key_update_where)
qed

lemma map_after_remove:
  assumes "tasks_ok s" "find_row tk_id i (t_tasks s) = Some r" "p r" "\<And>r'. p r' \<Longrightarrow> tk_id r' = i"
    and s'_def: "s' = audited env a reason (on_rows tasks (filter (\<lambda>r. \<not> p r)) s)"
  shows "tasks_ok s' \<and> task_map s' = (task_map s)(i := None)"
proof -
  have rows: "t_tasks s' = filter (\<lambda>r. \<not> p r) (t_tasks s)"
    using task_rows.rows_after[of env a reason "filter (\<lambda>r. \<not> p r)" s] by (simp add: s'_def tasks_def)
  have iff: "p r' \<longleftrightarrow> tk_id r' = i" if "r' \<in> set (t_tasks s)" for r'
    using that assms(1,3,4) find_row_SomeD[OF assms(2)] unique_key_eq[of tk_id "t_tasks s" r' r] by (auto simp: tasks_ok_def)
  have eq: "filter (\<lambda>r. \<not> p r) (t_tasks s) = filter (\<lambda>r. tk_id r \<noteq> i) (t_tasks s)"
    using iff by (auto intro: filter_cong)
  have "task_map s' = (task_map s)(i := None)" by (simp add: task_map_def rows eq fun_eq_iff find_row_removed)
  then show ?thesis
    using assms(1) by (auto simp: tasks_ok_def rows unique_key_def list_all_iff distinct_map_filter)
qed

lemma audit_log_after:
  "outbox_audit (store (audited env a reason (on_rows tasks g s))) = outbox_audit (store s)
     @ [audit_of (time_text (a_tz env) (authorized_at a)) a completed reason]"
  by (simp add: add_audit_def tasks_def)

section \<open>Properties\<close>

text \<open>What a call must leave: the map and result of the specification, and one audit event if it returned.\<close>

definition call_refines :: "app_env \<Rightarrow> authorized_action \<Rightarrow> task_call \<Rightarrow> app_db \<Rightarrow> bool" where
  "call_refines env a c s \<longleftrightarrow> (case task_run env a c s of (t, r) \<Rightarrow>
     (task_map t, r) = (if authorizes a c then task_spec env (user_exists s) a c (task_map s)
        else (task_map s, Inl PermissionDenied))
     \<and> tasks_ok t
     \<and> outbox_audit (store t) = outbox_audit (store s) @ (if is_ok r
          then [audit_of (time_text (a_tz env) (authorized_at a)) a completed []] else []))"

lemma create_refines:
  assumes "tasks_ok s" "call_ok env (TaskCreate t)" "aware (authorized_at a)" "in_range (instant (a_tz env) (authorized_at a))"
  shows "call_refines env a (TaskCreate t) s"
proof -
  have wf: "task_wf t" using assms(2) by simp
  obtain due where due: "dump_time_opt (a_tz env) (due_at t) = Inr due" by (rule due_text[OF wf])
  let ?st = "t\<lparr>task_version := 1, task_created_at := Some (authorized_at a), task_updated_at := Some (authorized_at a)\<rparr>"
  let ?r = "new_task_row due (time_text (a_tz env) (authorized_at a)) ?st"
  have "task_wf ?st" using wf by (simp add: task_wf_iff)
  then have read: "task_from_row ?r = Inr (stored_task env (authorized_at a) t)"
    using read_new_row[of ?st env due "authorized_at a"] due assms(2,4)
    by (simp add: stored_task_def cong: option.case_cong)
  have checks: "task_checks ?r"
    using wf by (cases "task_status t"; cases "task_classification t")
      (auto simp: task_checks_def new_task_row_def task_wf_iff all_task_status_def ordinary_class_def)
  have allowed: "task_allowed s ?r \<longleftrightarrow> task_map s (task_id t) = None \<and> user_exists s (task_owner t)
      \<and> user_or_null s (task_creator t)"
    using checks task_map_None[OF assms(1)] by (simp add: task_allowed_def new_task_row_def)
  have id: "tk_id ?r = task_id t" by (simp add: new_task_row_def)
  show ?thesis
    using map_after_insert[OF assms(1) _ read refl] allowed assms(1) unfolding id
    by (auto simp: call_refines_def bind_def task_create_run[OF wf assms(3) due] op_run audit_log_after
        user_or_null_def split: option.splits)
qed

lemma update_refines:
  assumes "tasks_ok s" "call_ok env (TaskUpdate t v)" "aware (authorized_at a)" "in_range (instant (a_tz env) (authorized_at a))"
  shows "call_refines env a (TaskUpdate t v) s"
proof -
  have wf: "task_wf t" using assms(2) by simp
  obtain due where due: "dump_time_opt (a_tz env) (due_at t) = Inr due" by (rule due_text[OF wf])
  let ?f = "set_task_columns due (time_text (a_tz env) (authorized_at a)) t"
  let ?p = "\<lambda>r. tk_id r = task_id t \<and> tk_owner r = task_owner t \<and> tk_version r = v"
  have count: "count_where ?p (t_tasks s) = 1 \<longleftrightarrow> (\<exists>r. find_row tk_id (task_id t) (t_tasks s) = Some r \<and> ?p r)"
    by (rule count_tasks[OF assms(1)]) simp
  have ids: "tk_id (?f r) = tk_id r" for r by (simp add: set_task_columns_def)
  show ?thesis
  proof (cases "find_row tk_id (task_id t) (t_tasks s)")
    case None
    then show ?thesis
      using assms(1) count by (auto simp: call_refines_def bind_def task_update_run[OF wf assms(3) due] op_run task_map_def)
  next
    case (Some r)
    obtain old where old: "task_from_row r = Inr old" "task_map s (task_id t) = Some old"
      "task_owner old = tk_owner r" "task_version old = tk_version r"
      by (rule task_map_ok[OF assms(1) Some])
    have "tk_id r = task_id t" using find_row_SomeD[OF Some] by simp
    then have p: "?p r \<longleftrightarrow> task_owner old = task_owner t \<and> task_version old = v" using old by auto
    have read: "task_from_row (?f r) = Inr (merged_task env (authorized_at a) old t)"
      using read_changed_row[OF old(1) wf due _ assms(4)] assms(2) by simp
    have "?p r \<Longrightarrow> tasks_ok (audited env a [] (on_rows tasks (update_where ?p ?f) s))
        \<and> task_map (audited env a [] (on_rows tasks (update_where ?p ?f) s))
          = (task_map s)(task_id t \<mapsto> merged_task env (authorized_at a) old t)"
      by (rule map_after_update[where i = "task_id t" and f = ?f and p = ?p, OF assms(1) ids Some _ _ read refl]) simp_all
    then show ?thesis
      using assms(1) count Some old(2) p
      by (auto simp: call_refines_def bind_def task_update_run[OF wf assms(3) due] op_run audit_log_after)
  qed
qed

lemma delete_refines:
  assumes "tasks_ok s" "call_ok env (TaskDelete i)" "aware (authorized_at a)" "\<not> blank (resource_owner (auth_resource a))"
  shows "call_refines env a (TaskDelete i) s"
proof -
  let ?p = "\<lambda>r. tk_id r = i \<and> tk_owner r = resource_owner (auth_resource a)"
  have nb: "\<not> blank i" using assms(2) by simp
  have count: "count_where ?p (t_tasks s) = 1 \<longleftrightarrow> (\<exists>r. find_row tk_id i (t_tasks s) = Some r \<and> ?p r)"
    by (rule count_tasks[OF assms(1)]) simp
  show ?thesis
  proof (cases "find_row tk_id i (t_tasks s)")
    case None
    then show ?thesis
      using assms(1) count by (auto simp: call_refines_def task_delete_run[OF assms(3) nb assms(4)] task_map_def)
  next
    case (Some r)
    obtain old where old: "task_map s i = Some old" "task_owner old = tk_owner r" by (rule task_map_ok[OF assms(1) Some])
    have "tk_id r = i" using find_row_SomeD[OF Some] by simp
    then show ?thesis
      using assms(1) count Some old map_after_remove[OF assms(1) Some, of ?p, OF _ _ refl]
      by (auto simp: call_refines_def task_delete_run[OF assms(3) nb assms(4)] audit_log_after)
  qed
qed

text \<open>
  C8. The task repository refines a map with compare-and-swap: on a store whose rows all read back,
  creating, updating and deleting a task act on the map from ids to stored tasks exactly as the
  specification says. A call whose capability is for another action or resource is refused and
  changes nothing, a creation needs a fresh id and known users, an update succeeds only on the
  stored owner and version and writes the mutable columns only, a deletion only on the stored
  owner, every refusal leaves the map as it was, and the audit log grows by exactly one event
  exactly when the call returns.
\<close>

theorem task_store_refines:
  assumes "tasks_ok s" "call_ok env c" "aware (authorized_at a)" "in_range (instant (a_tz env) (authorized_at a))"
    and "\<not> blank (resource_owner (auth_resource a))"
  shows "case task_run env a c s of (t, r) \<Rightarrow>
     (task_map t, r) = (if authorizes a c then task_spec env (user_exists s) a c (task_map s)
        else (task_map s, Inl PermissionDenied))
     \<and> tasks_ok t
     \<and> outbox_audit (store t) = outbox_audit (store s) @ (if is_ok r
          then [audit_of (time_text (a_tz env) (authorized_at a)) a completed []] else [])"
  unfolding call_refines_def[symmetric]
proof (cases c)
  case (TaskCreate t)
  then show "call_refines env a c s" using create_refines assms by blast
next
  case (TaskUpdate t v)
  then show "call_refines env a c s" using update_refines assms by blast
next
  case (TaskDelete i)
  then show "call_refines env a c s" using delete_refines assms by blast
qed

lemma sample_create_authorized: "authorizes (sample_auth CREATE (lit ''task'') (lit ''t'')) (TaskCreate sample_task)"
  by (simp add: authorizes_def sample_store_simps sample_task_def)

lemma sample_tasks_ok: "tasks_ok sample_app_db" "task_map sample_app_db i = None"
  by (simp_all add: tasks_ok_def unique_key_def sample_store_simps task_map_def find_row_def)

lemma sample_task_fields:
  "task_id sample_task = lit ''t''" "task_owner sample_task = lit ''u''" "task_creator sample_task = None"
  "outbox_audit (store sample_app_db) = []"
  by (simp_all add: sample_task_def sample_app_db_def)

theorem task_store_refines_witness:
  "\<exists>t. task_run sample_app_env (sample_auth CREATE (lit ''task'') (lit ''t'')) (TaskCreate sample_task) sample_app_db = (t, Inr ())
     \<and> task_map t (lit ''t'') = Some (stored_task sample_app_env (utc 0) sample_task) \<and> length (outbox_audit (store t)) = 1"
proof -
  let ?a = "sample_auth CREATE (lit ''task'') (lit ''t'')"
  have ok: "call_ok sample_app_env (TaskCreate sample_task)" using sample_task_wf by (simp add: sample_task_def)
  have env: "aware (authorized_at ?a)" "in_range (instant (a_tz sample_app_env) (authorized_at ?a))"
    "\<not> blank (resource_owner (auth_resource ?a))"
    by (simp_all add: sample_store_simps mk_resource_def)
  obtain t r where run: "task_run sample_app_env ?a (TaskCreate sample_task) sample_app_db = (t, r)" by fastforce
  show ?thesis
    using task_store_refines[OF sample_tasks_ok(1) ok env, unfolded run] sample_create_authorized run
    by (auto simp: sample_tasks_ok sample_store_simps sample_task_fields simp del: task_run.simps)
qed

end
