(* ===== verification/UserStore.thy ===== *)
theory UserStore
  imports AppStore
begin

text \<open>
  \<^verbatim>\<open>GrantRepository\<close> and \<^verbatim>\<open>UserRepository\<close> of \<^verbatim>\<open>repositories.py\<close>: explicit grants, the grant lookup of the
  policy engine, members, the singleton administrator role and external identities.
\<close>

section \<open>Tables\<close>

definition acl :: "acl_row table" where
  "acl = \<lparr>rows = t_acl, on_rows = t_acl_update\<rparr>"

definition users :: "user_row table" where
  "users = \<lparr>rows = t_users, on_rows = t_users_update\<rparr>"

definition bindings :: "role_binding table" where
  "bindings = \<lparr>rows = t_bindings, on_rows = t_bindings_update\<rparr>"

definition identities :: "identity_row table" where
  "identities = \<lparr>rows = t_identities, on_rows = t_identities_update\<rparr>"

definition sessions :: "session_row table" where
  "sessions = \<lparr>rows = t_sessions, on_rows = t_sessions_update\<rparr>"

section \<open>Grants\<close>

definition acl_matches :: "resource_ref \<Rightarrow> pystr \<Rightarrow> action \<Rightarrow> acl_row \<Rightarrow> bool" where
  "acl_matches res subject act r \<longleftrightarrow> acl_kind r = resource_kind res \<and> acl_resource r = resource_id res
     \<and> acl_subject r = subject \<and> acl_action r = action_value act"

definition has_grant :: "app_db \<Rightarrow> grant_lookup" where
  "has_grant s actor act res \<longleftrightarrow> find (acl_matches res actor act) (t_acl s) \<noteq> None"

text \<open>The check of grant and revoke: the capability's own resource, the action GRANT.\<close>

definition require_grant :: "authorized_action \<Rightarrow> unit res" where
  "require_grant a = require_authorization a GRANT (resource_kind (auth_resource a)) (resource_id (auth_resource a))
     (resource_owner (auth_resource a)) (resource_classification (auth_resource a))"

text \<open>INSERT OR IGNORE: an existing grant is kept; missing users break the foreign keys.\<close>

definition grant :: "app_env \<Rightarrow> pystr \<Rightarrow> action \<Rightarrow> authorized_action \<Rightarrow> unit app" where
  "grant env subject act a =
     seq (of_res (require_grant a))
    (bind (of_res (dump_time (a_tz env) (authorized_at a))) (\<lambda>now_text.
     app_transaction
      (bind (reads (\<lambda>s. has_grant s subject act (auth_resource a))) (\<lambda>present.
       seq (if present then ret ()
            else insert_row acl (\<lambda>s r. user_exists s (acl_subject r) \<and> user_exists s (acl_granted_by r))
              \<lparr>acl_kind = resource_kind (auth_resource a), acl_resource = resource_id (auth_resource a),
               acl_subject = subject, acl_action = action_value act, acl_granted_by = auth_actor a,
               acl_created = now_text\<rparr>)
         (audit env a completed [])))))"

definition revoke :: "app_env \<Rightarrow> pystr \<Rightarrow> action \<Rightarrow> authorized_action \<Rightarrow> bool app" where
  "revoke env subject act a =
     seq (of_res (require_grant a))
    (app_transaction
      (bind (remove_rows acl (acl_matches (auth_resource a) subject act)) (\<lambda>changed.
       seq (audit env a (if changed \<noteq> 0 then completed else lit ''not_found'') [])
         (ret (changed = 1)))))"

section \<open>Users\<close>

fun user_status_value :: "user_status \<Rightarrow> pystr" where
  "user_status_value USER_ACTIVE = lit ''active''"
| "user_status_value USER_DISABLED = lit ''disabled''"

definition user_allowed :: "app_db \<Rightarrow> user_row \<Rightarrow> bool" where
  "user_allowed s r \<longleftrightarrow> \<not> user_exists s (us_id r) \<and> us_status r \<in> {lit ''active'', lit ''disabled''}"

definition register_id :: "pystr \<Rightarrow> app_db \<Rightarrow> app_db" where
  "register_id i s = s\<lparr>store := (store s)\<lparr>known_users := known_users (store s) @ [i]\<rparr>\<rparr>"

text \<open>Inserting a user also adds its id to the ids other tables refer to.\<close>

definition user_create :: "app_env \<Rightarrow> user \<Rightarrow> authorized_action \<Rightarrow> user app" where
  "user_create env u a =
     seq (of_res (require_authorization a CREATE (lit ''user'') (user_id u) (user_id u) PERSONAL))
    (bind (of_res (dump_time (a_tz env) (user_created_at u))) (\<lambda>created.
     seq (raise_conflict (app_transaction
       (seq (insert_row users user_allowed
           \<lparr>us_id = user_id u, us_name = display_name u, us_status = user_status_value (user_status u),
            us_created = created\<rparr>)
        (seq (writes (register_id (user_id u)))
          (audit env a completed [])))))
      (ret u)))"

definition user_from_row :: "user_row \<Rightarrow> user res" where
  "user_from_row r = and_then (load_time (us_created r)) (\<lambda>created.
     and_then (enum_of user_status_value [USER_ACTIVE, USER_DISABLED] (us_status r)) (\<lambda>status.
       new_user \<lparr>user_id = us_id r, display_name = us_name r, user_status = status, user_created_at = created\<rparr>))"

definition user_get :: "pystr \<Rightarrow> user option app" where
  "user_get i = bind (fetch_one users (\<lambda>r. us_id r = i)) (\<lambda>row. case row of
       None \<Rightarrow> ret None
     | Some r \<Rightarrow> bind (of_res (user_from_row r)) (\<lambda>u. ret (Some u)))"

text \<open>\<^verbatim>\<open>rename\<close> does not compare the capability with the member it renames.\<close>

definition user_rename :: "app_env \<Rightarrow> pystr \<Rightarrow> pystr \<Rightarrow> authorized_action \<Rightarrow> user option app" where
  "user_rename env i name a =
     (let cleaned = py_join [32] (py_split name) in
      seq (check (cleaned = [] \<or> length cleaned > 40) ValidationError)
     (bind (app_transaction
         (bind (change_rows users (\<lambda>r. True) (\<lambda>r. us_id r = i) (\<lambda>r. r\<lparr>us_name := cleaned\<rparr>)) (\<lambda>changed.
          if changed = 0 then ret False else seq (audit env a completed []) (ret True)))) (\<lambda>found.
      if found then user_get i else ret None)))"

definition has_role :: "pystr \<Rightarrow> pystr \<Rightarrow> bool app" where
  "has_role u role = bind (fetch_one bindings (\<lambda>r. rb_user r = u \<and> rb_role r = role)) (\<lambda>row. ret (row \<noteq> None))"

definition PROJECT_ADMIN :: pystr where
  "PROJECT_ADMIN = lit ''project_admin''"

definition assign_project_admin_if_vacant :: "app_env \<Rightarrow> pystr \<Rightarrow> datetime \<Rightarrow> bool app" where
  "assign_project_admin_if_vacant env u now =
     seq (of_res (require_aware now))
    (app_transaction
      (bind (fetch_one bindings (\<lambda>r. rb_role r = PROJECT_ADMIN)) (\<lambda>existing.
       case existing of
         Some r \<Rightarrow> ret (rb_user r = u)
       | None \<Rightarrow>
          bind (fetch_one users (\<lambda>r. us_id r = u \<and> us_status r = lit ''active'')) (\<lambda>active_user.
          seq (check (active_user = None) ValidationError)
         (bind (of_res (dump_time (a_tz env) now)) (\<lambda>now_text.
          seq (insert_row bindings (\<lambda>s r. PROJECT_ADMIN \<in> set (t_roles s))
              \<lparr>rb_user = u, rb_role = PROJECT_ADMIN, rb_created = now_text\<rparr>)
         (seq (writes (add_audit \<lparr>au_at = now_text, au_actor = u, au_action = lit ''grant'', au_kind = lit ''role'',
              au_resource = PROJECT_ADMIN, au_outcome = completed, au_reason = lit ''bootstrap''\<rparr>))
          (ret True))))))))"

section \<open>External identities\<close>

definition identity_allowed :: "app_db \<Rightarrow> identity_row \<Rightarrow> bool" where
  "identity_allowed s r \<longleftrightarrow> xi_id r \<notin> xi_id ` set (t_identities s)
     \<and> (xi_channel r, xi_account r, xi_opaque r)
         \<notin> (\<lambda>x. (xi_channel x, xi_account x, xi_opaque x)) ` set (t_identities s)
     \<and> user_exists s (xi_user r) \<and> starts_with (xi_subject r) (lit ''enc:'')"

definition bind_identity :: "app_env \<Rightarrow> external_identity \<Rightarrow> authorized_action \<Rightarrow> external_identity app" where
  "bind_identity env x a =
     seq (of_res (require_authorization a CREATE (lit ''external_identity'') (identity_id x) (identity_user_id x) PERSONAL))
    (bind (of_res (dump_time (a_tz env) (identity_created_at x))) (\<lambda>created.
     seq (insert_audited env identities identity_allowed
         \<lparr>xi_id = identity_id x, xi_user = identity_user_id x, xi_channel = identity_channel x,
          xi_account = identity_channel_account x, xi_subject = enc_value (encrypted_subject x),
          xi_opaque = opaque_ref x, xi_created = created\<rparr> a)
       (ret x)))"

definition identity_from_row :: "identity_row \<Rightarrow> external_identity res" where
  "identity_from_row r = and_then (load_time (xi_created r)) (\<lambda>created.
     and_then (new_encrypted_identifier \<lparr>enc_value = xi_subject r\<rparr>) (\<lambda>subject.
       new_external_identity \<lparr>identity_id = xi_id r, identity_user_id = xi_user r, identity_channel = xi_channel r,
         identity_channel_account = xi_account r, encrypted_subject = subject, opaque_ref = xi_opaque r,
         identity_created_at = created\<rparr>))"

definition identity_by_opaque_ref :: "pystr \<Rightarrow> pystr \<Rightarrow> pystr \<Rightarrow> external_identity option app" where
  "identity_by_opaque_ref channel account ref =
     bind (fetch_one identities (\<lambda>r. xi_channel r = channel \<and> xi_account r = account \<and> xi_opaque r = ref)) (\<lambda>row.
       case row of None \<Rightarrow> ret None | Some r \<Rightarrow> bind (of_res (identity_from_row r)) (\<lambda>x. ret (Some x)))"

definition list_identities :: "pystr \<Rightarrow> external_identity list app" where
  "list_identities u = bind (reads (\<lambda>s. sort_key (\<lambda>r. (xi_channel r, xi_account r, xi_opaque r))
       (filter (\<lambda>r. xi_user r = u) (t_identities s)))) (\<lambda>rs. of_res (map_res identity_from_row rs))"

text \<open>
  Removing an identity revokes its open sessions, and deleting its row deletes them
  (\<^verbatim>\<open>ON DELETE CASCADE\<close>).
\<close>

definition unbind_identity :: "app_env \<Rightarrow> pystr \<Rightarrow> authorized_action \<Rightarrow> bool app" where
  "unbind_identity env i a =
     seq (of_res (require_authorization a DELETE (lit ''external_identity'') i (resource_owner (auth_resource a)) PERSONAL))
    (app_transaction
      (bind (fetch_one identities (\<lambda>r. xi_id r = i)) (\<lambda>row. case row of
         None \<Rightarrow> seq (audit env a (lit ''not_found'') []) (ret False)
       | Some r \<Rightarrow>
          seq (check (xi_user r \<noteq> resource_owner (auth_resource a)) PermissionDenied)
         (bind (of_res (dump_time (a_tz env) (authorized_at a))) (\<lambda>now_text.
          bind (change_rows sessions (\<lambda>c. True) (\<lambda>c. cs_identity c = i \<and> cs_revoked c = None)
              (\<lambda>c. c\<lparr>cs_revoked := Some now_text\<rparr>)) (\<lambda>_.
          bind (remove_rows identities (\<lambda>x. xi_id x = i)) (\<lambda>_.
          bind (remove_rows sessions (\<lambda>c. cs_identity c = i)) (\<lambda>_.
          seq (audit env a completed []) (ret True)))))))))"

section \<open>Properties\<close>

definition admins :: "app_db \<Rightarrow> role_binding list" where
  "admins s = filter (\<lambda>r. rb_role r = PROJECT_ADMIN) (t_bindings s)"

lemma assign_admin_run:
  assumes "aware now"
  shows "assign_project_admin_if_vacant env u now s =
     (case find (\<lambda>r. rb_role r = PROJECT_ADMIN) (t_bindings s) of
        Some r \<Rightarrow> (s, Inr (rb_user r = u))
      | None \<Rightarrow> if find (\<lambda>r. us_id r = u \<and> us_status r = lit ''active'') (t_users s) = None then (s, Inl ValidationError)
          else if PROJECT_ADMIN \<notin> set (t_roles s) then (s, Inl IntegrityErr)
          else (add_audit \<lparr>au_at = time_text (a_tz env) now, au_actor = u, au_action = lit ''grant'', au_kind = lit ''role'',
                  au_resource = PROJECT_ADMIN, au_outcome = completed, au_reason = lit ''bootstrap''\<rparr>
                 (t_bindings_update (\<lambda>rs. rs @ [\<lparr>rb_user = u, rb_role = PROJECT_ADMIN,
                     rb_created = time_text (a_tz env) now\<rparr>]) s), Inr True))"
  using assms
  by (simp add: assign_project_admin_if_vacant_def require_aware_def guarded_def app_transaction_def atomically_def
      seq_def bind_def op_run fetch_one_def bindings_def users_def insert_row_def dump_time_def split: option.split)

lemma find_filter: "find p xs = (case filter p xs of [] \<Rightarrow> None | x # ys \<Rightarrow> Some x)"
  by (induction xs) simp_all

text \<open>
  The bootstrap role is assigned once: with at most one administrator, a call leaves at most one,
  an existing administrator is never replaced, and the call returns True exactly when it returns
  and the member is the administrator afterwards.
\<close>

lemma admin_never_replaced:
  assumes "length (admins s) \<le> 1" "aware now" "assign_project_admin_if_vacant env u now s = (t, r)"
  shows "length (admins t) \<le> 1 \<and> (admins s \<noteq> [] \<longrightarrow> t = s)
    \<and> (is_ok r \<longrightarrow> r = Inr (u \<in> rb_user ` set (admins t)))"
  using assms(1,3) unfolding assign_admin_run[OF assms(2)] find_filter[of "\<lambda>r. rb_role r = PROJECT_ADMIN"] admins_def[symmetric]
  by (cases "admins s") (auto simp: admins_def add_audit_def image_iff split: if_splits)

lemma action_value_inj: "action_value a = action_value b \<longleftrightarrow> a = b"
  by (cases a; cases b) (simp_all add: lit_def)

lemma has_grant_iff: "has_grant s actor act res \<longleftrightarrow> (\<exists>r \<in> set (t_acl s). acl_matches res actor act r)"
  by (auto simp: has_grant_def find_None_iff)

lemma require_grant_run:
  "new_resource_ref (auth_resource a) = Inr (auth_resource a) \<Longrightarrow>
     require_grant a = (if auth_action a = GRANT then Inr () else Inl PermissionDenied)"
  by (cases "auth_resource a") (auto simp: require_grant_def require_authorization_def resource_def mk_resource_def)

text \<open>The lookup after one entry was added or removed.\<close>

definition entry_of :: "authorized_action \<Rightarrow> pystr \<Rightarrow> action \<Rightarrow> pystr \<Rightarrow> action \<Rightarrow> resource_ref \<Rightarrow> bool" where
  "entry_of a subject act u x res \<longleftrightarrow> u = subject \<and> x = act \<and> resource_kind res = resource_kind (auth_resource a)
     \<and> resource_id res = resource_id (auth_resource a)"

lemma grant_run:
  assumes "new_resource_ref (auth_resource a) = Inr (auth_resource a)" "aware (authorized_at a)"
    "user_exists s subject" "user_exists s (auth_actor a)" "auth_action a = GRANT"
  shows "snd (grant env subject act a s) = Inr () \<and> t_acl (fst (grant env subject act a s)) =
     (if has_grant s subject act (auth_resource a) then t_acl s else t_acl s @
       [\<lparr>acl_kind = resource_kind (auth_resource a), acl_resource = resource_id (auth_resource a),
         acl_subject = subject, acl_action = action_value act, acl_granted_by = auth_actor a,
         acl_created = time_text (a_tz env) (authorized_at a)\<rparr>])"
  using assms by (simp add: grant_def require_grant_run seq_def bind_def op_run dump_time_def guarded_def
      app_transaction_def atomically_def insert_row_def acl_def audit_run add_audit_def)

text \<open>
  The grant table is exact: under a capability for GRANT, a grant returns and adds exactly the
  subject's action on the capability's resource to what the policy engine's lookup accepts, a
  revocation returns and removes exactly that, whether or not it was there; under a capability for
  another action both are refused and nothing changes.
\<close>

lemma grants_exact:
  assumes "new_resource_ref (auth_resource a) = Inr (auth_resource a)" "aware (authorized_at a)"
    and "user_exists s subject" "user_exists s (auth_actor a)"
    and "grant env subject act a s = (t, r)" "revoke env subject act a s = (t', r')"
  shows "if auth_action a = GRANT
     then r = Inr () \<and> is_ok r'
       \<and> (\<forall>u x res. has_grant t u x res = (has_grant s u x res \<or> entry_of a subject act u x res))
       \<and> (\<forall>u x res. has_grant t' u x res = (has_grant s u x res \<and> \<not> entry_of a subject act u x res))
     else (t, r) = (s, Inl PermissionDenied) \<and> (t', r') = (s, Inl PermissionDenied)"
proof (cases "auth_action a = GRANT")
  case True
  note g = grant_run[OF assms(1-4) True, of env act, unfolded assms(5), simplified]
  have added: "has_grant t u x res = (has_grant s u x res \<or> entry_of a subject act u x res)" for u x res
    using g by (auto simp: has_grant_iff acl_matches_def entry_of_def action_value_inj split: if_splits)
  have removed: "t_acl t' = filter (\<lambda>r. \<not> acl_matches (auth_resource a) subject act r) (t_acl s) \<and> is_ok r'"
    using assms(2,6) True
    by (auto simp: revoke_def require_grant_run[OF assms(1)] seq_def bind_def op_run app_transaction_def atomically_def
        remove_rows_def acl_def audit_run add_audit_def)
  then have "has_grant t' u x res = (has_grant s u x res \<and> \<not> entry_of a subject act u x res)" for u x res
    by (auto simp: has_grant_iff acl_matches_def entry_of_def action_value_inj)
  then show ?thesis using True g added removed by auto
next
  case False
  then show ?thesis
    using assms(5,6) by (auto simp: grant_def revoke_def require_grant_run[OF assms(1)] seq_def bind_def op_run)
qed

lemma grants_exact_example:
  "\<exists>t t'. grant sample_app_env (lit ''v'') READ (sample_auth GRANT (lit ''task'') (lit ''t'')) sample_app_db = (t, Inr ())
     \<and> has_grant t (lit ''v'') READ (mk_resource (lit ''task'') (lit ''t'') (lit ''u'') PERSONAL)
     \<and> revoke sample_app_env (lit ''v'') READ (sample_auth GRANT (lit ''task'') (lit ''t'')) sample_app_db = (t', Inr False)"
proof -
  let ?a = "sample_auth GRANT (lit ''task'') (lit ''t'')"
  obtain t r where g: "grant sample_app_env (lit ''v'') READ ?a sample_app_db = (t, r)" by fastforce
  obtain t' r' where v: "revoke sample_app_env (lit ''v'') READ ?a sample_app_db = (t', r')" by fastforce
  have "r = Inr ()" "\<forall>u x res. has_grant t u x res = (has_grant sample_app_db u x res \<or> entry_of ?a (lit ''v'') READ u x res)"
    using grants_exact[OF _ _ _ _ g v] by (simp_all add: sample_store_simps)
  moreover have "r' = Inr False"
    using v by (simp add: revoke_def require_grant_run sample_store_simps seq_def bind_def op_run app_transaction_def
        atomically_def remove_rows_def acl_def audit_run count_where_def)
  ultimately show ?thesis
    using g v by (auto simp: entry_of_def sample_auth_def mk_resource_def)
qed

end
