(* ===== verification/ServiceContext.thy ===== *)
theory ServiceContext
  imports UserStore
begin

text \<open>
  What every use case of \<^verbatim>\<open>ZhixuServices\<close> (\<^verbatim>\<open>src/zhixu/application/services.py\<close>) starts with: the context
  stamped with the clock's time, the owner of what is created and the owners that are read, and the
  policy check against the stored grants, as \<^verbatim>\<open>runtime/api.py\<close> composes it
  (\<^verbatim>\<open>PolicyEngine(grants.has_grant)\<close>). Readings of the clock and new ids are arguments.
\<close>

definition scoped_context :: "command_context \<Rightarrow> datetime \<Rightarrow> command_context app" where
  "scoped_context ctx now = of_res (new_command_context (ctx\<lparr>context_now := Some now\<rparr>))"

definition create_owner :: "command_context \<Rightarrow> bool \<Rightarrow> pystr" where
  "create_owner ctx private = (case shared_owner_user_id ctx of
       Some shared \<Rightarrow> if \<not> private then shared else actor_user_id ctx
     | None \<Rightarrow> actor_user_id ctx)"

definition read_owners :: "command_context \<Rightarrow> pystr list" where
  "read_owners ctx = (if request_channel ctx = GROUP_CHAT then readable_shared_owner_user_ids ctx
     else actor_user_id ctx # readable_shared_owner_user_ids ctx)"

definition require_access :: "command_context \<Rightarrow> action \<Rightarrow> pystr \<Rightarrow> pystr \<Rightarrow> pystr \<Rightarrow> data_classification
    \<Rightarrow> authorized_action app" where
  "require_access ctx act k i owner c = bind (of_res (resource k i owner c)) (\<lambda>r.
     bind (reads (\<lambda>s. policy_require (has_grant s) ctx act r)) of_res)"

definition require_creator_or_manager :: "command_context \<Rightarrow> pystr \<Rightarrow> pystr option \<Rightarrow> unit res" where
  "require_creator_or_manager ctx owner creator =
     (if actor_user_id ctx = owner then Inr ()
      else if Some (actor_user_id ctx) = creator then Inr ()
      else if roles ctx \<inter> {lit ''group_owner'', lit ''project_admin''} \<noteq> {} then Inr ()
      else Inl PermissionDenied)"

text \<open>\<^verbatim>\<open>rename_user\<close>: the acting member renames itself.\<close>

definition rename_user :: "app_env \<Rightarrow> pystr \<Rightarrow> command_context \<Rightarrow> datetime \<Rightarrow> user option app" where
  "rename_user env name ctx now =
     bind (scoped_context ctx now) (\<lambda>scoped.
     bind (require_access scoped UPDATE (lit ''user'') (actor_user_id scoped) (actor_user_id scoped) PERSONAL) (\<lambda>a.
       user_rename env (actor_user_id scoped) name a))"

definition PLACEHOLDER_DISPLAY_NAMES :: "pystr list" where
  "PLACEHOLDER_DISPLAY_NAMES = [lit ''QQ group member'', lit ''Shared group workspace'']"

text \<open>\<^verbatim>\<open>creator_names\<close> over the distinct non-empty ids, as the list of its dict's items.\<close>

fun creator_names_of :: "pystr list \<Rightarrow> (pystr \<times> pystr) list app" where
  "creator_names_of [] = ret []"
| "creator_names_of (i # is) = bind (user_get i) (\<lambda>u. bind (creator_names_of is) (\<lambda>rest. ret (case u of
      None \<Rightarrow> rest
    | Some x \<Rightarrow> (let name = py_strip (display_name x) in
        if name \<noteq> [] \<and> name \<notin> set PLACEHOLDER_DISPLAY_NAMES then (i, name) # rest else rest))))"

definition creator_names :: "pystr list \<Rightarrow> (pystr \<times> pystr) list app" where
  "creator_names user_ids = creator_names_of (remdups (filter (\<lambda>i. i \<noteq> []) user_ids))"

section \<open>Lemmas\<close>

lemma new_command_context_Inr: "new_command_context c = Inr c' \<Longrightarrow> c' = c"
  unfolding new_command_context_def by (drule guarded_InrD) simp

lemma scoped_context_Inr:
  "scoped_context ctx now s = (t, Inr c) \<longleftrightarrow> t = s \<and> new_command_context (ctx\<lparr>context_now := Some now\<rparr>) = Inr c"
  by (auto simp: scoped_context_def op_run)

lemma scoped_context_state: "fst (scoped_context ctx now s) = s"
  by (simp add: scoped_context_def op_run)

lemma require_access_state: "fst (require_access ctx act k i owner c s) = s"
  by (simp add: require_access_def bind_def op_run split: sum.split)

lemma require_access_Inr:
  assumes "require_access ctx act k i owner c s = (t, Inr a)"
  shows "t = s" "auth_action a = act" "auth_resource a = mk_resource k i owner c" "auth_actor a = actor_user_id ctx"
    "context_now ctx = Some (authorized_at a)" "may_access (has_grant s) ctx act (mk_resource k i owner c)"
    "\<not> blank k \<and> \<not> blank i \<and> \<not> blank owner" "policy_require (has_grant s) ctx act (mk_resource k i owner c) = Inr a"
proof -
  have r: "resource k i owner c = Inr (mk_resource k i owner c)" and p: "policy_require (has_grant s) ctx act (mk_resource k i owner c) = Inr a"
    and "t = s"
    using assms by (auto simp: require_access_def bind_Inr op_run resource_def mk_resource_def new_resource_ref_def guarded_Inr
        split: if_splits)
  then show "t = s" "policy_require (has_grant s) ctx act (mk_resource k i owner c) = Inr a" by simp_all
  show "\<not> blank k \<and> \<not> blank i \<and> \<not> blank owner"
    using r by (auto simp: resource_def mk_resource_def new_resource_ref_def guarded_Inr split: if_splits)
  show "auth_action a = act" "auth_resource a = mk_resource k i owner c" "auth_actor a = actor_user_id ctx"
    "context_now ctx = Some (authorized_at a)" "may_access (has_grant s) ctx act (mk_resource k i owner c)"
    using p by (auto simp: policy_require_Inr)
qed

text \<open>The time of a method is the clock's, which the context constructor has checked.\<close>

lemma scoped_now:
  assumes "new_command_context (ctx\<lparr>context_now := Some now\<rparr>) = Inr current"
  shows "context_now current = Some now" "aware now" "actor_user_id current = actor_user_id ctx"
proof -
  have "current = ctx\<lparr>context_now := Some now\<rparr>" by (rule new_command_context_Inr[OF assms])
  then show "context_now current = Some now" "aware now" "actor_user_id current = actor_user_id ctx"
    using assms by (auto simp: new_command_context_def guarded_def split: if_splits)
qed

end
