(* ===== verification/AgendaStore.thy ===== *)
theory AgendaStore
  imports AppStore
begin

text \<open>
  \<^verbatim>\<open>AgendaRepository\<close> and \<^verbatim>\<open>AgendaNotificationRepository\<close> of \<^verbatim>\<open>repositories.py\<close>: items with their recurrence
  rules and exceptions, the expansion of an owner's calendar, and the notification rules of items.
\<close>

section \<open>Tables\<close>

definition agenda :: "agenda_row table" where
  "agenda = \<lparr>rows = t_agenda, on_rows = t_agenda_update\<rparr>"

definition recurrence_rules :: "rule_row table" where
  "recurrence_rules = \<lparr>rows = t_rules, on_rows = t_rules_update\<rparr>"

definition recurrence_exceptions :: "exception_row table" where
  "recurrence_exceptions = \<lparr>rows = t_exceptions, on_rows = t_exceptions_update\<rparr>"

definition notifications :: "notification_row table" where
  "notifications = \<lparr>rows = t_notifications, on_rows = t_notifications_update\<rparr>"

definition agenda_checks :: "agenda_row \<Rightarrow> bool" where
  "agenda_checks r \<longleftrightarrow> ordinary_class (gr_class r) \<and> 0 < gr_version r"

definition agenda_allowed :: "app_db \<Rightarrow> agenda_row \<Rightarrow> bool" where
  "agenda_allowed s r \<longleftrightarrow> gr_id r \<notin> gr_id ` set (t_agenda s) \<and> user_exists s (gr_owner r)
     \<and> user_or_null s (gr_creator r) \<and> agenda_checks r"

section \<open>Items\<close>

definition rule_of_item :: "app_env \<Rightarrow> app_db \<Rightarrow> pystr \<Rightarrow> recurrence_rule option res" where
  "rule_of_item env s i = (case find (\<lambda>q. rr_item q = i) (t_rules s) of
       None \<Rightarrow> Inr None
     | Some q \<Rightarrow> and_then (new_recurrence_rule (a_tz env) (a_rrule_ok env)
           \<lparr>rrule_value = rr_text q, rrule_timezone = rr_timezone q\<rparr>) (\<lambda>x. Inr (Some x)))"

definition agenda_from_row :: "app_env \<Rightarrow> app_db \<Rightarrow> agenda_row \<Rightarrow> agenda_item res" where
  "agenda_from_row env s r =
     and_then (rule_of_item env s (gr_id r)) (\<lambda>rule.
     and_then (load_time_in (a_tz env) (gr_timezone r) (gr_start r)) (\<lambda>start.
     and_then (load_time_in (a_tz env) (gr_timezone r) (gr_end r)) (\<lambda>finish.
     and_then (load_time (gr_created r)) (\<lambda>created.
     and_then (load_time (gr_updated r)) (\<lambda>updated.
     and_then (load_action_links (a_split env) (gr_links r)) (\<lambda>links.
     and_then (classification_of (gr_class r)) (\<lambda>c.
       new_agenda_item (a_tz env) \<lparr>ag_id = gr_id r, ag_owner = gr_owner r, ag_title = gr_title r, start_at = start,
         end_at = finish, ag_timezone = gr_timezone r,
         ag_creator = Some (case gr_creator r of Some u \<Rightarrow> u | None \<Rightarrow> gr_owner r), all_day = gr_all_day r,
         ag_description = gr_description r, ag_action_links = links, ag_classification = c, recurrence = rule,
         ag_version = gr_version r, ag_created_at = Some created, ag_updated_at = Some updated\<rparr>)))))))"

text \<open>The rule of an item is removed, or inserted or replaced.\<close>

definition write_recurrence :: "agenda_item \<Rightarrow> unit app" where
  "write_recurrence item = (case recurrence item of
       None \<Rightarrow> bind (remove_rows recurrence_rules (\<lambda>q. rr_item q = ag_id item)) (\<lambda>_. ret ())
     | Some rule \<Rightarrow> bind (fetch_one recurrence_rules (\<lambda>q. rr_item q = ag_id item)) (\<lambda>present.
         if present = None
         then insert_row recurrence_rules (\<lambda>s q. True)
           \<lparr>rr_item = ag_id item, rr_text = rrule_value rule, rr_timezone = rrule_timezone rule\<rparr>
         else bind (change_rows recurrence_rules (\<lambda>q. True) (\<lambda>q. rr_item q = ag_id item)
             (\<lambda>q. q\<lparr>rr_text := rrule_value rule, rr_timezone := rrule_timezone rule\<rparr>)) (\<lambda>_. ret ())))"

definition agenda_create :: "app_env \<Rightarrow> agenda_item \<Rightarrow> authorized_action \<Rightarrow> agenda_item app" where
  "agenda_create env item a =
     seq (of_res (require_authorization a CREATE (lit ''agenda'') (ag_id item) (ag_owner item) (ag_classification item)))
    (bind (of_res (new_agenda_item (a_tz env) (item\<lparr>ag_version := 1, ag_created_at := Some (authorized_at a),
        ag_updated_at := Some (authorized_at a)\<rparr>))) (\<lambda>stored.
     bind (of_res (dump_time (a_tz env) (start_at stored))) (\<lambda>start.
     bind (of_res (dump_time (a_tz env) (end_at stored))) (\<lambda>finish.
     bind (of_res (dump_time (a_tz env) (authorized_at a))) (\<lambda>now_text.
     seq (raise_conflict (app_transaction
        (seq (insert_row agenda agenda_allowed
            \<lparr>gr_id = ag_id stored, gr_owner = ag_owner stored, gr_creator = ag_creator stored,
             gr_title = ag_title stored, gr_description = ag_description stored,
             gr_links = dump_action_links (ag_action_links stored), gr_start = start, gr_end = finish,
             gr_timezone = ag_timezone stored, gr_all_day = all_day stored,
             gr_class = classification_value (ag_classification stored), gr_version = ag_version stored,
             gr_created = now_text, gr_updated = now_text\<rparr>)
        (seq (write_recurrence stored)
          (audit env a completed [])))))
       (ret stored))))))"

definition agenda_get :: "app_env \<Rightarrow> pystr \<Rightarrow> agenda_item option app" where
  "agenda_get env i = bind (fetch_one agenda (\<lambda>r. gr_id r = i)) (\<lambda>row. case row of
       None \<Rightarrow> ret None
     | Some r \<Rightarrow> bind (reads (\<lambda>s. agenda_from_row env s r)) (\<lambda>x. bind (of_res x) (\<lambda>item. ret (Some item))))"

definition agenda_rows :: "app_env \<Rightarrow> (app_db \<Rightarrow> agenda_row \<Rightarrow> bool) \<Rightarrow> agenda_item list app" where
  "agenda_rows env p = bind (reads (\<lambda>s. map_res (agenda_from_row env s)
     (sort_key (\<lambda>r. (gr_start r, gr_id r)) (filter (p s) (t_agenda s))))) of_res"

definition agenda_list_for_owner :: "app_env \<Rightarrow> pystr \<Rightarrow> agenda_item list app" where
  "agenda_list_for_owner env owner = agenda_rows env (\<lambda>s r. gr_owner r = owner)"

definition agenda_list_scheduled :: "app_env \<Rightarrow> datetime \<Rightarrow> datetime \<Rightarrow> agenda_item list app" where
  "agenda_list_scheduled env window_start window_end =
     bind (of_res (dump_time (a_tz env) window_end)) (\<lambda>latest.
     bind (of_res (dump_time (a_tz env) window_start)) (\<lambda>earliest.
     agenda_rows env (\<lambda>s r. gr_start r \<le> latest \<and> (gr_id r \<in> rr_item ` set (t_rules s) \<or> earliest \<le> gr_end r))))"

definition agenda_update :: "app_env \<Rightarrow> agenda_item \<Rightarrow> int \<Rightarrow> authorized_action \<Rightarrow> agenda_item app" where
  "agenda_update env item expected_version a =
     seq (of_res (require_authorization a UPDATE (lit ''agenda'') (ag_id item) (ag_owner item) (ag_classification item)))
    (seq (check (ag_version item \<noteq> expected_version + 1) ValidationError)
    (bind (of_res (new_agenda_item (a_tz env) (item\<lparr>ag_updated_at := Some (authorized_at a)\<rparr>))) (\<lambda>stored.
     bind (of_res (dump_time (a_tz env) (start_at stored))) (\<lambda>start.
     bind (of_res (dump_time (a_tz env) (end_at stored))) (\<lambda>finish.
     bind (of_res (dump_time (a_tz env) (authorized_at a))) (\<lambda>now_text.
     seq (app_transaction
        (bind (change_rows agenda agenda_checks
            (\<lambda>r. gr_id r = ag_id stored \<and> gr_owner r = ag_owner stored \<and> gr_version r = expected_version)
            (\<lambda>r. r\<lparr>gr_title := ag_title stored, gr_description := ag_description stored,
               gr_links := dump_action_links (ag_action_links stored), gr_start := start, gr_end := finish,
               gr_timezone := ag_timezone stored, gr_all_day := all_day stored,
               gr_class := classification_value (ag_classification stored), gr_version := ag_version stored,
               gr_updated := now_text\<rparr>)) (\<lambda>changed.
         seq (check (changed \<noteq> 1) ConcurrencyConflict)
        (seq (write_recurrence stored)
          (audit env a completed [])))))
       (ret stored)))))))"

text \<open>
  Deleting an item deletes its rule, its exceptions, its notification rules and its lead times
  (\<^verbatim>\<open>ON DELETE CASCADE\<close>).
\<close>

definition cascade_agenda :: "pystr \<Rightarrow> app_db \<Rightarrow> app_db" where
  "cascade_agenda i s = s\<lparr>t_rules := filter (\<lambda>q. rr_item q \<noteq> i) (t_rules s),
     t_exceptions := filter (\<lambda>x. rx_item x \<noteq> i) (t_exceptions s),
     t_notifications := filter (\<lambda>n. nn_item n \<noteq> i) (t_notifications s),
     t_item_leads := filter (\<lambda>l. ld_key l \<noteq> i) (t_item_leads s)\<rparr>"

definition agenda_delete :: "app_env \<Rightarrow> pystr \<Rightarrow> authorized_action \<Rightarrow> unit app" where
  "agenda_delete env i a =
     seq (check (resource_id (auth_resource a) \<noteq> i) PermissionDenied)
    (seq (of_res (require_authorization a DELETE (lit ''agenda'') i (resource_owner (auth_resource a))
        (resource_classification (auth_resource a))))
    (app_transaction
       (bind (remove_rows agenda (\<lambda>r. gr_id r = i \<and> gr_owner r = resource_owner (auth_resource a))) (\<lambda>changed.
        seq (writes (if changed = 0 then id else cascade_agenda i))
       (seq (check (changed \<noteq> 1) NotFoundError)
         (audit env a completed []))))))"

section \<open>Exceptions and occurrences\<close>

fun exception_action_value :: "exception_action \<Rightarrow> pystr" where
  "exception_action_value EXC_CANCEL = lit ''cancel''"
| "exception_action_value EXC_REPLACE = lit ''replace''"

definition exception_checks :: "exception_row \<Rightarrow> bool" where
  "exception_checks x \<longleftrightarrow>
     (rx_action x = exception_action_value EXC_CANCEL \<and> rx_start x = None \<and> rx_end x = None)
     \<or> (rx_action x = exception_action_value EXC_REPLACE \<and> rx_start x \<noteq> None \<and> rx_end x \<noteq> None)"

definition add_exception :: "app_env \<Rightarrow> pystr \<Rightarrow> recurrence_exception \<Rightarrow> authorized_action \<Rightarrow> unit app" where
  "add_exception env i x a =
     seq (of_res (require_authorization a UPDATE (lit ''agenda'') i (resource_owner (auth_resource a))
        (resource_classification (auth_resource a))))
    (app_transaction
       (bind (fetch_one agenda (\<lambda>r. gr_id r = i)) (\<lambda>exists.
        seq (check (exists = None) NotFoundError)
       (bind (of_res (dump_time (a_tz env) (occurrence_at x))) (\<lambda>at.
        bind (of_res (dump_time_opt (a_tz env) (replacement_start x))) (\<lambda>start.
        bind (of_res (dump_time_opt (a_tz env) (replacement_end x))) (\<lambda>finish.
        bind (fetch_one recurrence_exceptions (\<lambda>q. rx_item q = i \<and> rx_at q = at)) (\<lambda>present.
        seq (if present = None
             then insert_row recurrence_exceptions (\<lambda>s. exception_checks)
               \<lparr>rx_item = i, rx_at = at, rx_action = exception_action_value (exc_action x), rx_start = start, rx_end = finish\<rparr>
             else bind (change_rows recurrence_exceptions exception_checks (\<lambda>q. rx_item q = i \<and> rx_at q = at)
               (\<lambda>q. q\<lparr>rx_action := exception_action_value (exc_action x), rx_start := start, rx_end := finish\<rparr>)) (\<lambda>_. ret ()))
          (audit env a completed [])))))))))"

definition exception_from_row :: "app_env \<Rightarrow> pystr \<Rightarrow> exception_row \<Rightarrow> recurrence_exception res" where
  "exception_from_row env z q =
     and_then (load_time_in (a_tz env) z (rx_at q)) (\<lambda>at.
     and_then (load_time_in_opt (a_tz env) z (rx_start q)) (\<lambda>start.
     and_then (load_time_in_opt (a_tz env) z (rx_end q)) (\<lambda>finish.
     and_then (enum_of exception_action_value [EXC_CANCEL, EXC_REPLACE] (rx_action q)) (\<lambda>act.
       new_recurrence_exception (a_tz env) \<lparr>occurrence_at = at, exc_action = act, replacement_start = start,
         replacement_end = finish\<rparr>))))"

definition exceptions_of :: "app_env \<Rightarrow> app_db \<Rightarrow> agenda_item \<Rightarrow> recurrence_exception list res" where
  "exceptions_of env s item = map_res (exception_from_row env (ag_timezone item))
     (sort_key rx_at (filter (\<lambda>q. rx_item q = ag_id item) (t_exceptions s)))"

definition expand_row :: "app_env \<Rightarrow> app_db \<Rightarrow> datetime \<Rightarrow> datetime \<Rightarrow> agenda_row \<Rightarrow> agenda_occurrence list res" where
  "expand_row env s window_start window_end r =
     and_then (agenda_from_row env s r) (\<lambda>item.
     and_then (exceptions_of env s item) (\<lambda>xs.
       occurrences_between (a_tz env) (a_rrule env) item window_start window_end xs))"

definition agenda_occurrences :: "app_env \<Rightarrow> pystr \<Rightarrow> datetime \<Rightarrow> datetime \<Rightarrow> agenda_occurrence list app" where
  "agenda_occurrences env owner window_start window_end =
     seq (of_res (require_aware window_start))
    (seq (of_res (require_aware window_end))
    (bind (reads (\<lambda>s. map_res (expand_row env s window_start window_end)
        (sort_key (\<lambda>r. (gr_start r, gr_id r)) (filter (\<lambda>r. gr_owner r = owner
          \<and> (gr_id r \<in> rr_item ` set (t_rules s)
             \<or> (time_text (a_tz env) window_start < gr_end r \<and> gr_start r < time_text (a_tz env) window_end)))
          (t_agenda s))))) (\<lambda>found.
     bind (of_res found) (\<lambda>result.
     ret (sorted_by (\<lambda>x y. time_id_less (a_tz env) (occ_start x, occ_item_id x) (occ_start y, occ_item_id y))
       (concat result))))))"

section \<open>Notification rules\<close>

text \<open>\<^verbatim>\<open>time.isoformat(timespec="minutes")\<close> and \<^verbatim>\<open>time.fromisoformat\<close> on the text it writes.\<close>

definition dump_minutes :: "pytime \<Rightarrow> pystr" where
  "dump_minutes t = take 5 (iso_clock (tod t))"

definition load_minutes :: "pystr \<Rightarrow> pytime res" where
  "load_minutes s = (let h = take 2 s; m = take 2 (drop 3 s) in
     if length s = 5 \<and> all_digits h \<and> all_digits m \<and> s ! 2 = 58 \<and> digits_value h < 24 \<and> digits_value m < 60
     then Inr \<lparr>tod = int (digits_value h) * us_hour + int (digits_value m) * us_minute, tod_tz = None\<rparr>
     else Inl ValueErr)"

definition notification_checks :: "notification_row \<Rightarrow> bool" where
  "notification_checks n \<longleftrightarrow> -366 \<le> nn_offset n \<and> nn_offset n \<le> 366 \<and> ordinary_class (nn_class n)"

definition notification_allowed :: "app_db \<Rightarrow> notification_row \<Rightarrow> bool" where
  "notification_allowed s n \<longleftrightarrow> nn_id n \<notin> nn_id ` set (t_notifications s) \<and> nn_item n \<in> gr_id ` set (t_agenda s)
     \<and> user_exists s (nn_owner n) \<and> user_exists s (nn_creator n) \<and> notification_checks n"

definition notification_from_row :: "app_env \<Rightarrow> notification_row \<Rightarrow> agenda_notification_rule res" where
  "notification_from_row env n =
     and_then (load_time (nn_created n)) (\<lambda>created.
     and_then (load_minutes (nn_time n)) (\<lambda>at.
     and_then (load_action_links (a_split env) (nn_links n)) (\<lambda>links.
     and_then (classification_of (nn_class n)) (\<lambda>c.
       new_agenda_notification_rule (a_tz env) \<lparr>nr_id = nn_id n, nr_agenda_item_id = nn_item n, nr_owner = nn_owner n,
         nr_creator = nn_creator n, nr_target_ref = nn_target n, nr_time_of_day = at, day_offset = nn_offset n,
         nr_text = nn_text n, nr_timezone = nn_timezone n, nr_action_links = links, nr_classification = c,
         nr_enabled = nn_enabled n, nr_created_at = Some created\<rparr>))))"

definition notification_create :: "app_env \<Rightarrow> agenda_notification_rule \<Rightarrow> authorized_action
    \<Rightarrow> agenda_notification_rule app" where
  "notification_create env n a =
     seq (of_res (require_authorization a CREATE (lit ''agenda_notification'') (nr_id n) (nr_owner n) (nr_classification n)))
    (bind (of_res (new_agenda_notification_rule (a_tz env) (n\<lparr>nr_created_at := Some (authorized_at a)\<rparr>))) (\<lambda>stored.
     seq (raise_conflict (app_transaction
        (bind (fetch_one agenda (\<lambda>r. gr_id r = nr_agenda_item_id stored)) (\<lambda>item. case item of
            None \<Rightarrow> throw NotFoundError
          | Some r \<Rightarrow>
             seq (check (gr_owner r \<noteq> nr_owner stored) PermissionDenied)
            (bind (of_res (dump_time (a_tz env) (authorized_at a))) (\<lambda>now_text.
             seq (insert_row notifications notification_allowed
                 \<lparr>nn_id = nr_id stored, nn_item = nr_agenda_item_id stored, nn_owner = nr_owner stored,
                  nn_creator = nr_creator stored, nn_target = nr_target_ref stored,
                  nn_time = dump_minutes (nr_time_of_day stored), nn_offset = day_offset stored,
                  nn_text = nr_text stored, nn_timezone = nr_timezone stored,
                  nn_links = dump_action_links (nr_action_links stored),
                  nn_class = classification_value (nr_classification stored), nn_enabled = nr_enabled stored,
                  nn_created = now_text\<rparr>)
               (audit env a completed [])))))))
       (ret stored)))"

definition notification_get :: "app_env \<Rightarrow> pystr \<Rightarrow> agenda_notification_rule option app" where
  "notification_get env i = bind (fetch_one notifications (\<lambda>n. nn_id n = i)) (\<lambda>row. case row of
       None \<Rightarrow> ret None | Some n \<Rightarrow> bind (of_res (notification_from_row env n)) (\<lambda>x. ret (Some x)))"

definition notification_update :: "app_env \<Rightarrow> agenda_notification_rule \<Rightarrow> authorized_action
    \<Rightarrow> agenda_notification_rule app" where
  "notification_update env n a =
     seq (of_res (require_authorization a UPDATE (lit ''agenda_notification'') (nr_id n) (nr_owner n) (nr_classification n)))
    (seq (change_audited env notifications notification_checks (\<lambda>r. nn_id r = nr_id n)
        (\<lambda>r. r\<lparr>nn_target := nr_target_ref n, nn_time := dump_minutes (nr_time_of_day n), nn_offset := day_offset n,
           nn_text := nr_text n, nn_timezone := nr_timezone n, nn_class := classification_value (nr_classification n),
           nn_enabled := nr_enabled n\<rparr>) NotFoundError a [])
      (ret n))"

definition notification_delete :: "app_env \<Rightarrow> pystr \<Rightarrow> authorized_action \<Rightarrow> unit app" where
  "notification_delete env i a =
     seq (of_res (require_authorization a DELETE (lit ''agenda_notification'') i (resource_owner (auth_resource a))
        (resource_classification (auth_resource a))))
    (remove_audited env notifications (\<lambda>r. nn_id r = i) NotFoundError a)"

definition notification_list_enabled :: "app_env \<Rightarrow> agenda_notification_rule list app" where
  "notification_list_enabled env = bind (reads (\<lambda>s. map_res (notification_from_row env)
     (sort_key (\<lambda>n. (nn_owner n, nn_item n, nn_id n)) (filter nn_enabled (t_notifications s))))) of_res"

end
