(* ===== verification/ReminderStore.thy ===== *)
theory ReminderStore
  imports AppStore
begin

text \<open>
  \<^verbatim>\<open>ReminderRepository\<close> of \<^verbatim>\<open>repositories.py\<close>: rows, create, get, list_for_owner, cancel, acknowledge,
  snooze, and \<^verbatim>\<open>enqueue_due\<close>, which moves due reminders into the outbox, with the card it writes
  (\<^verbatim>\<open>src/zhixu/application/labels.py\<close>). Text outside ASCII is given by its code points.
\<close>

section \<open>Rows\<close>

fun reminder_status_value :: "reminder_status \<Rightarrow> pystr" where
  "reminder_status_value REM_PENDING = lit ''pending''"
| "reminder_status_value REM_FIRED = lit ''fired''"
| "reminder_status_value REM_CANCELLED = lit ''cancelled''"

fun missed_policy_value :: "missed_reminder_policy \<Rightarrow> pystr" where
  "missed_policy_value MISSED_FIRE = lit ''fire''"
| "missed_policy_value MISSED_SKIP = lit ''skip''"

definition all_reminder_status :: "reminder_status list" where
  "all_reminder_status = [REM_PENDING, REM_FIRED, REM_CANCELLED]"

abbreviation st_pending :: pystr where "st_pending \<equiv> reminder_status_value REM_PENDING"
abbreviation st_fired :: pystr where "st_fired \<equiv> reminder_status_value REM_FIRED"
abbreviation st_cancelled :: pystr where "st_cancelled \<equiv> reminder_status_value REM_CANCELLED"

definition reminders :: "reminder_row table" where
  "reminders = \<lparr>rows = t_reminders, on_rows = t_reminders_update\<rparr>"

definition reminder_checks :: "reminder_row \<Rightarrow> bool" where
  "reminder_checks r \<longleftrightarrow> rm_status r \<in> {st_pending, st_fired, st_cancelled}
     \<and> rm_policy r \<in> {missed_policy_value MISSED_FIRE, missed_policy_value MISSED_SKIP}
     \<and> ordinary_class (rm_class r) \<and> 0 < rm_version r \<and> (rm_kind r = None) = (rm_related r = None)"

definition reminder_allowed :: "app_db \<Rightarrow> reminder_row \<Rightarrow> bool" where
  "reminder_allowed s r \<longleftrightarrow> rm_id r \<notin> rm_id ` set (t_reminders s) \<and> user_exists s (rm_owner r)
     \<and> user_or_null s (rm_creator r) \<and> reminder_checks r"

definition reminder_from_row :: "app_env \<Rightarrow> reminder_row \<Rightarrow> reminder res" where
  "reminder_from_row env r =
     and_then (load_time (rm_fire_at r)) (\<lambda>fire.
     and_then (load_action_links (a_split env) (rm_links r)) (\<lambda>links.
     and_then (enum_of reminder_status_value all_reminder_status (rm_status r)) (\<lambda>status.
     and_then (enum_of missed_policy_value [MISSED_FIRE, MISSED_SKIP] (rm_policy r)) (\<lambda>policy.
     and_then (classification_of (rm_class r)) (\<lambda>c.
     and_then (load_time_opt (rm_start r)) (\<lambda>start.
     and_then (load_time (rm_created r)) (\<lambda>created.
     and_then (load_time (rm_updated r)) (\<lambda>updated.
       new_reminder (a_tz env) \<lparr>rem_id = rm_id r, rem_owner = rm_owner r, rem_title = rm_title r, fire_at = fire,
         rem_target_ref = rm_target r,
         rem_creator = Some (case rm_creator r of Some u \<Rightarrow> u | None \<Rightarrow> rm_owner r), rem_action_links = links,
         rem_status = status, missed_policy = policy, rem_classification = c, related_kind = rm_kind r,
         related_id = rm_related r, related_start_at = start, rem_timezone = rm_timezone r,
         rem_version = rm_version r, rem_created_at = Some created, rem_updated_at = Some updated\<rparr>))))))))"

section \<open>Methods\<close>

definition new_reminder_row :: "pystr \<Rightarrow> pystr option \<Rightarrow> pystr \<Rightarrow> reminder \<Rightarrow> reminder_row" where
  "new_reminder_row fire start now_text r =
     \<lparr>rm_id = rem_id r, rm_owner = rem_owner r, rm_creator = rem_creator r, rm_title = rem_title r, rm_fire_at = fire,
      rm_target = rem_target_ref r, rm_status = reminder_status_value (rem_status r),
      rm_policy = missed_policy_value (missed_policy r), rm_class = classification_value (rem_classification r),
      rm_kind = related_kind r, rm_related = related_id r, rm_start = start, rm_timezone = rem_timezone r,
      rm_links = dump_action_links (rem_action_links r), rm_version = rem_version r, rm_created = now_text,
      rm_updated = now_text\<rparr>"

definition reminder_create :: "app_env \<Rightarrow> reminder \<Rightarrow> authorized_action \<Rightarrow> reminder app" where
  "reminder_create env r a =
     seq (of_res (require_authorization a CREATE (lit ''reminder'') (rem_id r) (rem_owner r) (rem_classification r)))
    (bind (of_res (new_reminder (a_tz env) (r\<lparr>rem_version := 1, rem_created_at := Some (authorized_at a),
        rem_updated_at := Some (authorized_at a)\<rparr>))) (\<lambda>stored.
     bind (of_res (dump_time (a_tz env) (fire_at stored))) (\<lambda>fire.
     bind (of_res (dump_time_opt (a_tz env) (related_start_at stored))) (\<lambda>start.
     bind (of_res (dump_time (a_tz env) (authorized_at a))) (\<lambda>now_text.
     seq (insert_audited env reminders reminder_allowed (new_reminder_row fire start now_text stored) a)
       (ret stored))))))"

definition reminder_get :: "app_env \<Rightarrow> pystr \<Rightarrow> reminder option app" where
  "reminder_get env i = bind (fetch_one reminders (\<lambda>r. rm_id r = i)) (\<lambda>row. case row of
       None \<Rightarrow> ret None
     | Some r \<Rightarrow> bind (of_res (reminder_from_row env r)) (\<lambda>x. ret (Some x)))"

definition reminder_order :: "reminder_row \<Rightarrow> nat \<times> pystr \<times> pystr" where
  "reminder_order r = (if rm_status r = st_pending then 0 else if rm_status r = st_fired then 1 else 2,
     rm_fire_at r, rm_id r)"

definition reminder_list_for_owner :: "app_env \<Rightarrow> pystr \<Rightarrow> reminder list app" where
  "reminder_list_for_owner env owner =
     bind (reads (\<lambda>s. sort_key reminder_order (filter (\<lambda>r. rm_owner r = owner) (t_reminders s))))
       (\<lambda>rs. of_res (map_res (reminder_from_row env) rs))"

text \<open>
  The three user actions on a reminder read it, compare the capability with it, change the row in
  an allowed status at the expected version, and read the result.
\<close>

definition change_reminder :: "app_env \<Rightarrow> pystr \<Rightarrow> (pystr \<Rightarrow> reminder_row \<Rightarrow> reminder_row) \<Rightarrow> pystr list \<Rightarrow> int
    \<Rightarrow> authorized_action \<Rightarrow> pystr \<Rightarrow> reminder app" where
  "change_reminder env i f from expected_version a reason =
     bind (reminder_get env i) (\<lambda>found. case found of
       None \<Rightarrow> throw NotFoundError
     | Some existing \<Rightarrow>
        seq (of_res (require_authorization a UPDATE (lit ''reminder'') (rem_id existing) (rem_owner existing)
              (rem_classification existing)))
       (bind (of_res (dump_time (a_tz env) (authorized_at a))) (\<lambda>now_text.
        seq (change_audited env reminders reminder_checks
              (\<lambda>r. rm_id r = i \<and> rm_version r = expected_version \<and> rm_status r \<in> set from)
              (f now_text) ConflictError a reason)
       (bind (reminder_get env i) (\<lambda>updated. case updated of
           None \<Rightarrow> throw AssertionErr | Some r \<Rightarrow> ret r)))))"

definition set_status :: "pystr \<Rightarrow> pystr \<Rightarrow> reminder_row \<Rightarrow> reminder_row" where
  "set_status st now_text r = r\<lparr>rm_status := st, rm_version := rm_version r + 1, rm_updated := now_text\<rparr>"

definition reminder_cancel :: "app_env \<Rightarrow> pystr \<Rightarrow> int \<Rightarrow> authorized_action \<Rightarrow> reminder app" where
  "reminder_cancel env i v a = change_reminder env i (set_status st_cancelled) [st_pending, st_fired] v a (lit ''cancelled'')"

definition reminder_acknowledge :: "app_env \<Rightarrow> pystr \<Rightarrow> int \<Rightarrow> authorized_action \<Rightarrow> reminder app" where
  "reminder_acknowledge env i v a = change_reminder env i (set_status st_cancelled) [st_fired] v a (lit ''acknowledged'')"

definition reminder_snooze :: "app_env \<Rightarrow> pystr \<Rightarrow> datetime \<Rightarrow> int \<Rightarrow> authorized_action \<Rightarrow> reminder app" where
  "reminder_snooze env i fire v a =
     seq (of_res (require_aware fire))
    (seq (check (dt_le (a_tz env) fire (authorized_at a)) ValidationError)
      (change_reminder env i
        (\<lambda>now_text r. (set_status st_pending now_text r)\<lparr>rm_fire_at := time_text (a_tz env) fire\<rparr>)
        [st_fired] v a (lit ''snoozed'')))"

section \<open>The card\<close>

function collapse_spaces :: "pystr \<Rightarrow> pystr" where
  "collapse_spaces [] = []"
| "collapse_spaces (c # s) = (if py_space c then 32 # collapse_spaces (dropWhile py_space s) else c # collapse_spaces s)"
  by pat_completeness auto
termination
  by (relation "measure length") (auto intro: le_imp_less_Suc length_dropWhile_le)

definition markdown_special :: "nat \<Rightarrow> bool" where
  "markdown_special c \<longleftrightarrow> c \<in> set (lit ''`*_{}[]()#+-.!>|'') \<or> c = 92"

definition escape_markdown_text :: "pystr \<Rightarrow> pystr" where
  "escape_markdown_text value =
     concat (map (\<lambda>c. if markdown_special c then [92, c] else [c]) (py_strip (collapse_spaces value)))"

definition WEEKDAYS :: "pystr list" where
  "WEEKDAYS = [[0x4E00], [0x4E8C], [0x4E09], [0x56DB], [0x4E94], [0x516D], [0x65E5]]"

text \<open>Floor division of the seconds by 60; the gap is kept in microseconds.\<close>

definition humanise_gap :: "micros \<Rightarrow> pystr" where
  "humanise_gap gap =
     (let minutes = gap div us_minute; still = [0x8FD8, 0x6709, 32]
      in if minutes \<le> 0 then [0x73B0, 0x5728, 0x5F00, 0x59CB]
         else if minutes < 60 then still @ dec minutes @ [32, 0x5206, 0x949F]
         else if minutes < 24 * 60 then
           (let hours = minutes div 60; rest = minutes mod 60
            in still @ dec hours @ [32, 0x5C0F, 0x65F6] @ (if rest \<noteq> 0 then [32] @ dec rest @ [32, 0x5206, 0x949F] else []))
         else
           (let days = minutes div (24 * 60); hours = minutes mod (24 * 60) div 60
            in still @ dec days @ [32, 0x5929] @ (if hours \<noteq> 0 then [32] @ dec hours @ [32, 0x5C0F, 0x65F6] else [])))"

definition DEFAULT_ZONE :: pystr where
  "DEFAULT_ZONE = lit ''Asia/Shanghai''"

definition DEFAULT_ZONE_LABEL :: pystr where
  "DEFAULT_ZONE_LABEL = [0x5317, 0x4EAC, 0x65F6, 0x95F4]"

definition zone_label :: "pystr \<Rightarrow> pystr" where
  "zone_label z = (if z = lit ''Asia/Shanghai'' then DEFAULT_ZONE_LABEL
     else if z = lit ''Asia/Hong_Kong'' then [0x9999, 0x6E2F, 0x65F6, 0x95F4] else z)"

definition timezone_of :: "tzdb \<Rightarrow> reminder \<Rightarrow> tzinfo \<times> pystr" where
  "timezone_of db r = (case rem_timezone r of
       None \<Rightarrow> (ZoneInfo DEFAULT_ZONE, DEFAULT_ZONE_LABEL)
     | Some z \<Rightarrow> if z_known db z then (ZoneInfo z, zone_label z) else (ZoneInfo DEFAULT_ZONE, DEFAULT_ZONE_LABEL))"

definition hour_minute :: "datetime \<Rightarrow> pystr" where
  "hour_minute t = take 5 (iso_clock (wall_time t))"

definition date_hour_minute :: "datetime \<Rightarrow> pystr" where
  "date_hour_minute t = iso_date (wall_date t) @ [32] @ hour_minute t"

definition card_field :: "pystr \<times> pystr \<Rightarrow> pystr" where
  "card_field lv = lit ''**'' @ fst lv @ [0xFF1A] @ lit ''** `'' @ filter (\<lambda>c. c \<noteq> 96) (snd lv) @ [96]"

definition card :: "pystr \<Rightarrow> (pystr \<times> pystr) list \<Rightarrow> pystr \<Rightarrow> pystr" where
  "card title pairs footer = py_join [10] ([lit ''# '' @ title] @ concat (map (\<lambda>f. [[], card_field f]) pairs)
     @ (if footer \<noteq> [] then [[], lit ''> '' @ footer] else []))"

text \<open>\<^verbatim>\<open>escape_markdown\<close> and \<^verbatim>\<open>local_moment\<close> of the shared labels.\<close>

definition escape_markdown :: "pystr \<Rightarrow> pystr" where
  "escape_markdown value = concat (map (\<lambda>c. if markdown_special c then [92, c] else [c]) value)"

definition local_moment :: "tzdb \<Rightarrow> datetime \<Rightarrow> tzinfo \<Rightarrow> bool \<Rightarrow> pystr" where
  "local_moment db value zone with_weekday =
     (let here = astimezone db value zone; stamp = date_hour_minute here
      in if with_weekday then stamp @ [32, 0x5468] @ WEEKDAYS ! nat (weekday (wall_date here)) else stamp)"

definition reminder_notification_text :: "app_env \<Rightarrow> reminder \<Rightarrow> pystr" where
  "reminder_notification_text env r =
     (let zone = fst (timezone_of (a_tz env) r); label = snd (timezone_of (a_tz env) r);
          local_fire_at = astimezone (a_tz env) (fire_at r) zone;
          first = ([0x4E8B, 0x9879], escape_markdown_text (rem_title r));
          pairs = (case related_start_at r of
            Some start \<Rightarrow>
              (let starts_at = astimezone (a_tz env) start zone;
                   gap = dt_sub (a_tz env) start (fire_at r);
                   same_day = (wall_date starts_at = wall_date local_fire_at);
                   moment = (if same_day then hour_minute starts_at else date_hour_minute starts_at)
               in [first,
                   ([0x5F00, 0x59CB], moment @ [32, 0x5468] @ WEEKDAYS ! nat (weekday (wall_date starts_at))
                      @ (if same_day then [0xFF08, 0x4ECA, 0x5929, 0xFF09] else []) @ [0xFF08] @ label @ [0xFF09]),
                   ([0x8DDD, 0x5F00, 0x59CB], humanise_gap gap)])
          | None \<Rightarrow> [first, ([0x65F6, 0x95F4], date_hour_minute local_fire_at @ [0xFF08] @ label @ [0xFF09])])
      in card [0x65E5, 0x7A0B, 0x63D0, 0x9192] pairs [])"

section \<open>Reading the outbox\<close>

text \<open>\<^verbatim>\<open>OutboxRepository\<close>: the number of deliveries, and the columns of those that wait.\<close>

record pending_delivery =
  pd_id :: pystr
  pd_key :: pystr
  pd_owner :: pystr
  pd_target :: pystr
  pd_kind :: pystr
  pd_payload :: json
  pd_class :: int
  pd_priority :: int
  pd_status :: outbox_status
  pd_attempts :: int
  pd_max_attempts :: int
  pd_next_attempt :: pystr

definition outbox_count :: "nat app" where
  "outbox_count = reads (\<lambda>s. length (deliveries (store s)))"

definition outbox_list_pending :: "pending_delivery list app" where
  "outbox_list_pending = reads (\<lambda>s. map (\<lambda>r. \<lparr>pd_id = ob_id r, pd_key = ob_key r, pd_owner = ob_owner r, pd_target = ob_target r,
       pd_kind = ob_kind r, pd_payload = ob_payload r, pd_class = ob_class r, pd_priority = ob_priority r,
       pd_status = ob_status r, pd_attempts = ob_attempts r, pd_max_attempts = ob_max_attempts r,
       pd_next_attempt = ob_next_attempt r\<rparr>)
     (sort_key (\<lambda>r. (ob_priority r, ob_created r, ob_id r)) (filter (\<lambda>r. ob_status r = OB_PENDING) (deliveries (store s)))))"

section \<open>Moving due reminders into the outbox\<close>

definition command_button :: "pystr \<Rightarrow> pystr \<Rightarrow> message_button" where
  "command_button label act = \<lparr>btn_label = label, btn_action = act, btn_kind = BTN_COMMAND\<rparr>"

definition reminder_buttons :: "reminder \<Rightarrow> message_button list" where
  "reminder_buttons r =
     map (\<lambda>l. \<lparr>btn_label = link_label l, btn_action = link_url l, btn_kind = BTN_OPEN_URL\<rparr>) (rem_action_links r)
     @ map (\<lambda>m. command_button (dec m @ [0x5206, 0x949F])
          ([47, 0x63D0, 0x9192, 0x7A0D, 0x540E, 32] @ rem_id r @ [32] @ dec m @ [0x5206, 0x949F])) [5, 15, 30, 60]
     @ [command_button [0x5B8C, 0x6210] ([47, 0x63D0, 0x9192, 0x5B8C, 0x6210, 32] @ rem_id r),
        command_button [0x53D6, 0x6D88] ([47, 0x53D6, 0x6D88, 0x63D0, 0x9192, 32] @ rem_id r)]"

definition reminder_payload :: "app_env \<Rightarrow> reminder \<Rightarrow> json" where
  "reminder_payload env r = JObj [(lit ''text'', JStr (reminder_notification_text env r)),
     (lit ''reminder_id'', JStr (rem_id r)), (lit ''buttons'', JArr (map button_json (reminder_buttons r))),
     (lit ''attachment_url'', JNull)]"

text \<open>\<^verbatim>\<open>ORDER BY last_seen_at DESC LIMIT 1\<close>: the first row with the greatest text.\<close>

fun latest_route :: "route_row list \<Rightarrow> route_row option" where
  "latest_route [] = None"
| "latest_route (r # rs) = (case latest_route rs of None \<Rightarrow> Some r
     | Some q \<Rightarrow> if rt_seen q \<le> rt_seen r then Some r else Some q)"

definition route_of :: "app_db \<Rightarrow> pystr \<Rightarrow> route_row option" where
  "route_of s target = latest_route (filter (\<lambda>r. rt_opaque r = target) (t_routes s))"

definition reminder_key :: "tzdb \<Rightarrow> reminder \<Rightarrow> pystr" where
  "reminder_key db r = lit ''reminder:'' @ rem_id r @ [58] @ time_text db (fire_at r)"

definition reminder_delivery :: "app_env \<Rightarrow> pystr \<Rightarrow> route_row option \<Rightarrow> reminder \<Rightarrow> outbox_row" where
  "reminder_delivery env now_text target r =
     (let key = reminder_key (a_tz env) r in
     \<lparr>ob_id = lit ''out_'' @ take 24 (a_sha256 env key), ob_key = key, ob_owner = rem_owner r,
      ob_target = rem_target_ref r, ob_kind = lit ''text'', ob_payload = reminder_payload env r,
      ob_class = classification_value (rem_classification r), ob_priority = 10, ob_status = OB_PENDING,
      ob_attempts = 0, ob_max_attempts = 5, ob_next_attempt = now_text, ob_last_error = [],
      ob_created = now_text, ob_updated = now_text,
      ob_channel = (case target of None \<Rightarrow> [] | Some t \<Rightarrow> rt_channel t),
      ob_account = (case target of None \<Rightarrow> [] | Some t \<Rightarrow> rt_account t),
      lease_owner = [], lease_token = [], lease_expires = None, ob_provider_id = []\<rparr>)"

definition add_delivery :: "outbox_row \<Rightarrow> app_db \<Rightarrow> app_db" where
  "add_delivery d s = s\<lparr>store := (store s)\<lparr>deliveries := deliveries (store s) @ [d]\<rparr>\<rparr>"

definition insert_delivery :: "outbox_row \<Rightarrow> nat app" where
  "insert_delivery d s =
     (if insert_ignored (store s) d then (s, Inr 0)
      else if \<not> user_exists s (ob_owner d) then (s, Inl IntegrityErr)
      else (add_delivery d s, Inr 1))"

definition scheduler_event :: "pystr \<Rightarrow> string \<Rightarrow> pystr \<Rightarrow> string \<Rightarrow> audit_event" where
  "scheduler_event now_text act i reason = \<lparr>au_at = now_text, au_actor = lit ''service:scheduler'', au_action = lit act,
     au_kind = lit ''reminder'', au_resource = i, au_outcome = completed, au_reason = lit reason\<rparr>"

definition mark_reminder :: "pystr \<Rightarrow> pystr \<Rightarrow> pystr \<Rightarrow> nat app" where
  "mark_reminder st now_text i =
     change_rows reminders reminder_checks (\<lambda>r. rm_id r = i \<and> rm_status r = st_pending) (set_status st now_text)"

definition enqueue_row :: "app_env \<Rightarrow> datetime \<Rightarrow> int \<Rightarrow> reminder_row \<Rightarrow> nat app" where
  "enqueue_row env now late_grace_seconds row =
     (let now_text = time_text (a_tz env) now in
      bind (of_res (reminder_from_row env row)) (\<lambda>r.
      if missed_policy r = MISSED_SKIP \<and> dt_sub (a_tz env) now (fire_at r) > late_grace_seconds * us_second
      then bind (mark_reminder st_cancelled now_text (rem_id r)) (\<lambda>_.
           seq (writes (add_audit (scheduler_event now_text ''skip'' (rem_id r) ''missed_policy''))) (ret 0))
      else bind (reads (\<lambda>s. route_of s (rem_target_ref r))) (\<lambda>target.
           bind (insert_delivery (reminder_delivery env now_text target r)) (\<lambda>inserted.
           bind (mark_reminder st_fired now_text (rem_id r)) (\<lambda>_.
           seq (writes (add_audit (scheduler_event now_text ''enqueue'' (rem_id r) ''''))) (ret inserted))))))"

fun sum_each :: "('a \<Rightarrow> nat app) \<Rightarrow> 'a list \<Rightarrow> nat app" where
  "sum_each f [] = ret 0"
| "sum_each f (x # xs) = bind (f x) (\<lambda>n. bind (sum_each f xs) (\<lambda>m. ret (n + m)))"

definition due_rows :: "pystr \<Rightarrow> app_db \<Rightarrow> reminder_row list" where
  "due_rows now_text s = sort_key (\<lambda>r. (rm_fire_at r, rm_id r))
     (filter (\<lambda>r. rm_status r = st_pending \<and> rm_fire_at r \<le> now_text) (t_reminders s))"

definition enqueue_due :: "app_env \<Rightarrow> datetime \<Rightarrow> int \<Rightarrow> nat app" where
  "enqueue_due env now late_grace_seconds =
     seq (of_res (require_aware now))
    (seq (check (late_grace_seconds < 0) ValidationError)
    (app_transaction
      (bind (reads (due_rows (time_text (a_tz env) now)))
        (sum_each (enqueue_row env now late_grace_seconds)))))"

section \<open>Lemmas\<close>

interpretation reminder_rows: db_table reminders rm_id
  by unfold_locales (simp_all add: reminders_def add_audit_def)

definition reminder_row_ok :: "app_env \<Rightarrow> app_db \<Rightarrow> reminder_row \<Rightarrow> bool" where
  "reminder_row_ok env s r \<longleftrightarrow> is_ok (reminder_from_row env r) \<and> reminder_checks r \<and> user_exists s (rm_owner r)"

definition reminders_ok :: "app_env \<Rightarrow> app_db \<Rightarrow> bool" where
  "reminders_ok env s \<longleftrightarrow> unique_key rm_id (t_reminders s) \<and> list_all (reminder_row_ok env s) (t_reminders s)"

text \<open>What a due reminder becomes, and the delivery it is due.\<close>

definition skipped :: "app_env \<Rightarrow> datetime \<Rightarrow> int \<Rightarrow> reminder \<Rightarrow> bool" where
  "skipped env now grace r \<longleftrightarrow> missed_policy r = MISSED_SKIP \<and> dt_sub (a_tz env) now (fire_at r) > grace * us_second"

definition read_row :: "app_env \<Rightarrow> reminder_row \<Rightarrow> reminder" where
  "read_row env row = (case reminder_from_row env row of Inr r \<Rightarrow> r | Inl e \<Rightarrow> undefined)"

definition settle_row :: "app_env \<Rightarrow> datetime \<Rightarrow> int \<Rightarrow> reminder_row \<Rightarrow> reminder_row" where
  "settle_row env now grace row = set_status
     (if skipped env now grace (read_row env row) then st_cancelled else st_fired) (time_text (a_tz env) now) row"

definition delivery_of :: "app_env \<Rightarrow> datetime \<Rightarrow> app_db \<Rightarrow> reminder_row \<Rightarrow> outbox_row" where
  "delivery_of env now s row = reminder_delivery env (time_text (a_tz env) now)
     (route_of s (rem_target_ref (read_row env row))) (read_row env row)"

lemma reminder_from_row_fields:
  "reminder_from_row env row = Inr r \<Longrightarrow> rem_id r = rm_id row \<and> rem_owner r = rm_owner row
     \<and> rem_target_ref r = rm_target row \<and> rem_version r = rm_version row
     \<and> reminder_status_value (rem_status r) = rm_status row
     \<and> (\<exists>t. fromisoformat_utc (rm_fire_at row) = Inr t \<and> fire_at r = utc t)"
  unfolding reminder_from_row_def and_then_Inr new_reminder_def guarded_Inr
  by (auto simp: enum_of_def load_time_def and_then_Inr find_Some_iff split: option.splits)

lemma status_values_distinct [simp]:
  "st_pending \<noteq> st_fired" "st_pending \<noteq> st_cancelled" "st_fired \<noteq> st_pending" "st_cancelled \<noteq> st_pending"
  "st_fired \<noteq> st_cancelled" "st_cancelled \<noteq> st_fired"
  by (simp_all add: lit_def)

declare reminder_status_value.simps [simp del]

lemma set_status_simps [simp]:
  "rm_id (set_status st n r) = rm_id r" "rm_status (set_status st n r) = st"
  "rm_version (set_status st n r) = rm_version r + 1" "rm_fire_at (set_status st n r) = rm_fire_at r"
  "rm_owner (set_status st n r) = rm_owner r"
  by (simp_all add: set_status_def)

lemma set_status_checks:
  "reminder_checks r \<Longrightarrow> st \<in> {st_pending, st_fired, st_cancelled} \<Longrightarrow> reminder_checks (set_status st n r)"
  by (auto simp: reminder_checks_def set_status_def)

lemma mark_reminder_run:
  assumes "list_all reminder_checks (t_reminders s)" "st \<in> {st_pending, st_fired, st_cancelled}"
    and "unique_key rm_id (t_reminders s)" "x \<in> set (t_reminders s)" "rm_status x = st_pending"
  shows "mark_reminder st n (rm_id x) s =
     (t_reminders_update (update_where (\<lambda>r. r = x) (set_status st n)) s,
      Inr (count_where (\<lambda>r. rm_id r = rm_id x \<and> rm_status r = st_pending) (t_reminders s)))"
proof -
  have "(rm_id r = rm_id x \<and> rm_status r = st_pending) = (r = x)" if "r \<in> set (t_reminders s)" for r
    using that assms(3-5) unique_key_eq[of rm_id "t_reminders s" r x] by auto
  then have "update_where (\<lambda>r. rm_id r = rm_id x \<and> rm_status r = st_pending) (set_status st n) (t_reminders s)
      = update_where (\<lambda>r. r = x) (set_status st n) (t_reminders s)"
    by (auto simp: update_where_def)
  then have "t_reminders_update (update_where (\<lambda>r. rm_id r = rm_id x \<and> rm_status r = st_pending) (set_status st n)) s
      = t_reminders_update (update_where (\<lambda>r. r = x) (set_status st n)) s"
    by (cases s) simp
  then show ?thesis
    using assms(1,2) set_status_checks
    by (auto simp: mark_reminder_def change_rows_def reminders_def list_all_iff)
qed

lemma add_delivery_simps [simp]:
  "t_reminders (add_delivery d s) = t_reminders s" "t_routes (add_delivery d s) = t_routes s"
  "known_users (store (add_delivery d s)) = known_users (store s)"
  "deliveries (store (add_delivery d s)) = deliveries (store s) @ [d]"
  by (simp_all add: add_delivery_def)

lemma add_audit_simps [simp]:
  "t_reminders (add_audit e s) = t_reminders s" "t_routes (add_audit e s) = t_routes s"
  "known_users (store (add_audit e s)) = known_users (store s)"
  "deliveries (store (add_audit e s)) = deliveries (store s)"
  by (simp_all add: add_audit_def)

lemma read_row_eq: "is_ok (reminder_from_row env x) \<Longrightarrow> reminder_from_row env x = Inr (read_row env x)"
  by (auto simp: read_row_def is_ok_Inr)

lemma read_row_fields:
  "is_ok (reminder_from_row env x) \<Longrightarrow> rem_id (read_row env x) = rm_id x \<and> rem_owner (read_row env x) = rm_owner x
     \<and> rem_target_ref (read_row env x) = rm_target x"
  using reminder_from_row_fields[OF read_row_eq] by blast

lemma enqueue_row_run:
  fixes now :: datetime and grace :: int
  assumes "reminders_ok env s" "x \<in> set (t_reminders s)" "rm_status x = st_pending"
  defines "upd \<equiv> t_reminders_update (update_where (\<lambda>r. r = x) (settle_row env now grace))"
    and "d \<equiv> delivery_of env now s x"
  shows "\<exists>e. enqueue_row env now grace x s =
     (if skipped env now grace (read_row env x) then (add_audit e (upd s), Inr 0)
      else if insert_ignored (store s) d then (add_audit e (upd s), Inr 0)
      else (add_audit e (upd (add_delivery d s)), Inr 1))"
proof -
  have ok: "is_ok (reminder_from_row env x)" "user_exists s (rm_owner x)"
    and checks: "list_all reminder_checks (t_reminders s)" "unique_key rm_id (t_reminders s)"
    using assms(1,2) by (auto simp: reminders_ok_def reminder_row_ok_def list_all_iff)
  note fields = read_row_fields[OF ok(1)]
  have upd: "t_reminders_update (update_where (\<lambda>r. r = x) (set_status
        (if skipped env now grace (read_row env x) then st_cancelled else st_fired) (time_text (a_tz env) now))) u = upd u" for u
    by (cases u) (auto simp: upd_def update_where_def settle_row_def)
  have mark: "mark_reminder st (time_text (a_tz env) now) (rm_id x) u = (t_reminders_update
        (update_where (\<lambda>r. r = x) (set_status st (time_text (a_tz env) now))) u,
        Inr (count_where (\<lambda>r. rm_id r = rm_id x \<and> rm_status r = st_pending) (t_reminders s)))"
    if "st \<in> {st_pending, st_fired, st_cancelled}" "t_reminders u = t_reminders s" for st u
    using mark_reminder_run[of u st x] that checks assms(2,3) by simp
  have owner: "user_exists s (ob_owner d)"
    using ok(2) fields by (simp add: d_def delivery_of_def reminder_delivery_def Let_def)
  have d: "reminder_delivery env (time_text (a_tz env) now) (route_of s (rm_target x)) (read_row env x) = d"
    using fields by (simp add: d_def delivery_of_def)
  show ?thesis
  proof (cases "skipped env now grace (read_row env x)")
    case True
    then show ?thesis
      using upd[of s] mark[of st_cancelled s] fields
      by (simp add: enqueue_row_def Let_def read_row_eq[OF ok(1)] skipped_def[symmetric] seq_def bind_def op_run) blast
  next
    case False
    then show ?thesis
      using upd[of s] upd[of "add_delivery d s"] mark[of st_fired s] mark[of st_fired "add_delivery d s"] fields owner d
      by (cases "insert_ignored (store s) d"; simp add: enqueue_row_def Let_def read_row_eq[OF ok(1)]
          skipped_def[symmetric] seq_def bind_def op_run insert_delivery_def) blast+
  qed
qed

lemma settled_row_reads:
  assumes "is_ok (reminder_from_row env x)" "in_range (instant (a_tz env) now)"
  shows "is_ok (reminder_from_row env (set_status (reminder_status_value st) (time_text (a_tz env) now) x))"
proof -
  have "enum_of reminder_status_value all_reminder_status (reminder_status_value st) = Inr st"
    by (cases st) (simp_all add: enum_of_def all_reminder_status_def reminder_status_value.simps lit_def)
  then show ?thesis
    using assms(1) load_dumped[OF assms(2)]
    unfolding reminder_from_row_def is_ok_and_then new_reminder_def is_ok_guarded
    by (auto simp: set_status_def cong: option.case_cong)
qed

lemma settle_row_ok:
  assumes "reminder_row_ok env s x" "in_range (instant (a_tz env) now)"
  shows "reminder_row_ok env s (settle_row env now grace x)"
  using assms settled_row_reads set_status_checks by (auto simp: reminder_row_ok_def settle_row_def)

lemma settle_row_simps [simp]:
  "rm_id (settle_row env now grace x) = rm_id x" "rm_owner (settle_row env now grace x) = rm_owner x"
  "rm_status (settle_row env now grace x) \<noteq> st_pending"
  by (simp_all add: settle_row_def)

lemma reminders_ok_update:
  assumes "reminders_ok env s" "in_range (instant (a_tz env) now)"
    and "t_reminders u = update_where p (settle_row env now grace) (t_reminders s)"
    and "known_users (store u) = known_users (store s)"
  shows "reminders_ok env u"
proof -
  have "reminder_row_ok env u r = reminder_row_ok env s r" for r
    using assms(4) by (simp add: reminder_row_ok_def user_exists_def)
  then show ?thesis
    using assms(1,3) settle_row_ok[OF _ assms(2)] set_update_where[of p "settle_row env now grace" "t_reminders s"]
    by (auto simp: reminders_ok_def list_all_iff)
qed

lemma insert_ignored_mono:
  "insert_ignored s d \<Longrightarrow> set (deliveries s) \<subseteq> set (deliveries u) \<Longrightarrow> insert_ignored u d"
  by (auto simp: insert_ignored_def)

lemma delivery_of_cong: "t_routes u = t_routes s \<Longrightarrow> delivery_of env now u x = delivery_of env now s x"
  by (simp add: delivery_of_def route_of_def)

text \<open>The effect of the loop on the rows it is given.\<close>

definition loop_effect :: "app_env \<Rightarrow> datetime \<Rightarrow> int \<Rightarrow> reminder_row list \<Rightarrow> app_db \<Rightarrow> app_db \<Rightarrow> outbox_row list \<Rightarrow> bool" where
  "loop_effect env now grace xs s t new \<longleftrightarrow>
     t_reminders t = update_where (\<lambda>r. r \<in> set xs) (settle_row env now grace) (t_reminders s)
     \<and> deliveries (store t) = deliveries (store s) @ new
     \<and> t_routes t = t_routes s \<and> known_users (store t) = known_users (store s)
     \<and> set new \<subseteq> delivery_of env now s ` {x \<in> set xs. \<not> skipped env now grace (read_row env x)}
     \<and> (\<forall>x \<in> set xs. \<not> skipped env now grace (read_row env x) \<longrightarrow> insert_ignored (store t) (delivery_of env now s x))
     \<and> (unique_key ob_id (deliveries (store s)) \<and> unique_key ob_key (deliveries (store s))
        \<longrightarrow> unique_key ob_id (deliveries (store t)) \<and> unique_key ob_key (deliveries (store t)))"

lemma loop_effect_one:
  assumes "reminders_ok env s" "x \<in> set (t_reminders s)" "rm_status x = st_pending"
  obtains t new where "enqueue_row env now grace x s = (t, Inr (length new))" "loop_effect env now grace [x] s t new"
proof -
  obtain e where e: "enqueue_row env now grace x s =
     (let upd = t_reminders_update (update_where (\<lambda>r. r = x) (settle_row env now grace)); d = delivery_of env now s x
      in if skipped env now grace (read_row env x) then (add_audit e (upd s), Inr 0)
      else if insert_ignored (store s) d then (add_audit e (upd s), Inr 0)
      else (add_audit e (upd (add_delivery d s)), Inr 1))"
    using enqueue_row_run[OF assms] by (auto simp: Let_def)
  let ?new = "if skipped env now grace (read_row env x) \<or> insert_ignored (store s) (delivery_of env now s x) then []
     else [delivery_of env now s x]"
  obtain t where "enqueue_row env now grace x s = (t, Inr (length ?new))" "loop_effect env now grace [x] s t ?new"
    using e by (cases "skipped env now grace (read_row env x)"; cases "insert_ignored (store s) (delivery_of env now s x)")
      (auto simp: loop_effect_def Let_def insert_ignored_def unique_key_def)
  then show thesis by (rule that)
qed

lemma loop_effect_Cons:
  assumes "loop_effect env now grace [x] s u n1" "loop_effect env now grace xs u t n2" "rm_id x \<notin> rm_id ` set xs"
  shows "loop_effect env now grace (x # xs) s t (n1 @ n2)"
proof -
  have same: "delivery_of env now u y = delivery_of env now s y" for y
    using assms(1) by (intro delivery_of_cong) (simp add: loop_effect_def)
  have "settle_row env now grace x \<notin> set xs" using assms(3) by (metis image_eqI settle_row_simps(1))
  then have rows: "t_reminders t = update_where (\<lambda>r. r \<in> set (x # xs)) (settle_row env now grace) (t_reminders s)"
    using assms(1,2) by (auto simp: loop_effect_def update_where_def)
  have "insert_ignored (store t) (delivery_of env now s y)"
    if "y \<in> set (x # xs)" "\<not> skipped env now grace (read_row env y)" for y
    using that assms(1,2) insert_ignored_mono[of "store u" _ "store t"] by (auto simp: loop_effect_def same)
  moreover have "set (n1 @ n2) \<subseteq> delivery_of env now s ` {y \<in> set (x # xs). \<not> skipped env now grace (read_row env y)}"
    using assms(1,2) by (auto simp: loop_effect_def same)
  moreover have "deliveries (store t) = deliveries (store s) @ n1 @ n2" "t_routes t = t_routes s"
    "known_users (store t) = known_users (store s)"
    using assms(1,2) by (simp_all add: loop_effect_def)
  moreover have "unique_key ob_id (deliveries (store s)) \<and> unique_key ob_key (deliveries (store s))
      \<longrightarrow> unique_key ob_id (deliveries (store t)) \<and> unique_key ob_key (deliveries (store t))"
    using assms(1,2) unfolding loop_effect_def by blast
  ultimately show ?thesis using rows unfolding loop_effect_def by blast
qed

lemma loop_effect_all:
  assumes "in_range (instant (a_tz env) now)"
  shows "reminders_ok env s \<Longrightarrow> distinct (map rm_id xs) \<Longrightarrow> \<forall>x \<in> set xs. x \<in> set (t_reminders s) \<and> rm_status x = st_pending
     \<Longrightarrow> \<exists>t new. sum_each (enqueue_row env now grace) xs s = (t, Inr (length new)) \<and> loop_effect env now grace xs s t new"
proof (induction xs arbitrary: s)
  case Nil
  then show ?case by (auto simp: op_run loop_effect_def update_where_def)
next
  case (Cons x xs)
  obtain u n1 where u: "enqueue_row env now grace x s = (u, Inr (length n1))" "loop_effect env now grace [x] s u n1"
    by (rule loop_effect_one[of env s x now grace]) (use Cons.prems in auto)
  have "reminders_ok env u"
    using reminders_ok_update[OF Cons.prems(1) assms] u(2) by (auto simp: loop_effect_def)
  moreover have "\<forall>y \<in> set xs. y \<in> set (t_reminders u) \<and> rm_status y = st_pending"
    using Cons.prems(2,3) u(2) by (auto simp: loop_effect_def update_where_def)
  moreover have "distinct (map rm_id xs)" using Cons.prems(2) by simp
  ultimately have "\<exists>t new. sum_each (enqueue_row env now grace) xs u = (t, Inr (length new)) \<and> loop_effect env now grace xs u t new"
    by (intro Cons.IH)
  then obtain t n2 where t: "sum_each (enqueue_row env now grace) xs u = (t, Inr (length n2))"
    "loop_effect env now grace xs u t n2"
    by blast
  have "sum_each (enqueue_row env now grace) (x # xs) s = (t, Inr (length (n1 @ n2)))"
    using u(1) t(1) by (simp add: bind_def op_run)
  moreover have "loop_effect env now grace (x # xs) s t (n1 @ n2)"
    using loop_effect_Cons[OF u(2) t(2)] Cons.prems(2) by simp
  ultimately show ?case by blast
qed

lemma due_rows_ok:
  assumes "unique_key rm_id (t_reminders s)"
  shows "distinct (map rm_id (due_rows n s))"
    and "x \<in> set (due_rows n s) \<longleftrightarrow> x \<in> set (t_reminders s) \<and> rm_status x = st_pending \<and> rm_fire_at x \<le> n"
proof -
  have "distinct (map rm_id (filter (\<lambda>r. rm_status r = st_pending \<and> rm_fire_at r \<le> n) (t_reminders s)))"
    using assms by (simp add: unique_key_def distinct_map_filter)
  then show "distinct (map rm_id (due_rows n s))"
    unfolding due_rows_def by (metis (no_types, lifting) distinct_map distinct_sort set_sort)
  show "x \<in> set (due_rows n s) \<longleftrightarrow> x \<in> set (t_reminders s) \<and> rm_status x = st_pending \<and> rm_fire_at x \<le> n"
    by (auto simp: due_rows_def)
qed

definition is_due :: "app_env \<Rightarrow> datetime \<Rightarrow> reminder_row \<Rightarrow> bool" where
  "is_due env now r \<longleftrightarrow> rm_status r = st_pending \<and> rm_fire_at r \<le> time_text (a_tz env) now"

lemma enqueue_due_run:
  assumes "reminders_ok env s" "aware now" "in_range (instant (a_tz env) now)" "0 \<le> grace"
  obtains t new where "enqueue_due env now grace s = (t, Inr (length new))"
    "loop_effect env now grace (due_rows (time_text (a_tz env) now) s) s t new"
    "t_reminders t = update_where (is_due env now) (settle_row env now grace) (t_reminders s)"
proof -
  have u: "unique_key rm_id (t_reminders s)" using assms(1) by (simp add: reminders_ok_def)
  obtain t new where run: "sum_each (enqueue_row env now grace) (due_rows (time_text (a_tz env) now) s) s = (t, Inr (length new))"
    and eff: "loop_effect env now grace (due_rows (time_text (a_tz env) now) s) s t new"
    using loop_effect_all[OF assms(3,1) due_rows_ok(1)[OF u], of "time_text (a_tz env) now" grace] due_rows_ok(2)[OF u]
    by blast
  have "t_reminders t = update_where (is_due env now) (settle_row env now grace) (t_reminders s)"
    using eff due_rows_ok(2)[OF u] by (auto simp: loop_effect_def update_where_def is_due_def)
  moreover have "enqueue_due env now grace s = (t, Inr (length new))"
    using assms(2,4) run
    by (simp add: enqueue_due_def require_aware_def guarded_def seq_def bind_def op_run app_transaction_def atomically_def)
  ultimately show thesis using eff that by blast
qed

lemma new_reminder_Inr: "new_reminder db r = Inr r' \<Longrightarrow> r' = r"
  unfolding new_reminder_def by (drule guarded_InrD) simp

lemma read_row_object:
  assumes "is_ok (reminder_from_row env x)"
  shows "new_reminder (a_tz env) (read_row env x) = Inr (read_row env x)"
    and "l \<in> set (rem_action_links (read_row env x)) \<Longrightarrow> new_action_link (a_split env) l = Inr l"
proof -
  obtain r0 ls where r: "new_reminder (a_tz env) r0 = Inr (read_row env x)" "rem_action_links r0 = ls"
    "load_action_links (a_split env) (rm_links x) = Inr ls"
    using read_row_eq[OF assms] unfolding reminder_from_row_def and_then_Inr by (elim exE conjE) (rule that, assumption, simp_all)
  then show "new_reminder (a_tz env) (read_row env x) = Inr (read_row env x)" using new_reminder_Inr[OF r(1)] by simp
  show "new_action_link (a_split env) l = Inr l" if "l \<in> set (rem_action_links (read_row env x))"
    using loaded_links[OF r(3)] r(2) new_reminder_Inr[OF r(1)] that by simp
qed

lemma reminder_class: "new_reminder db r = Inr r \<Longrightarrow> rem_classification r \<in> {PUBLIC, PERSONAL, CONFIDENTIAL}"
  by (cases "rem_classification r") (auto simp: new_reminder_def guarded_Inr split: if_splits)

lemma ordinary_delivery:
  "is_ok (reminder_from_row env x) \<Longrightarrow> 0 \<le> ob_class (delivery_of env now s x) \<and> ob_class (delivery_of env now s x) \<le> 2"
  using reminder_class[OF read_row_object(1), of env x]
  by (auto simp: delivery_of_def reminder_delivery_def Let_def)

text \<open>The message a routed reminder's delivery is read back as.\<close>

definition reminder_message :: "app_env \<Rightarrow> route_row \<Rightarrow> reminder \<Rightarrow> outbound_message" where
  "reminder_message env rt r = \<lparr>msg_channel = rt_channel rt, msg_channel_account = rt_account rt,
     msg_target_ref = rem_target_ref r, msg_kind = MSG_TEXT, msg_text = reminder_notification_text env r,
     msg_buttons = reminder_buttons r, attachment_url = None, reply_context_ref = [],
     msg_classification = rem_classification r, msg_calendar_preview = None, msg_daily_agenda_preview = None\<rparr>"

lemma dec_not_blank: "\<not> blank (dec m @ [0x5206, 0x949F])"
  by (simp add: blank_def py_space_def)

lemma reminder_buttons_ok:
  assumes "\<not> blank (rem_id r)" "\<And>l. l \<in> set (rem_action_links r) \<Longrightarrow> new_action_link split l = Inr l"
  shows "map_res button_of_json (map button_json (reminder_buttons r)) = Inr (reminder_buttons r)"
proof -
  have "\<not> blank (link_label l) \<and> \<not> blank (link_url l)" if "l \<in> set (rem_action_links r)" for l
    using assms(2)[OF that] by (auto simp: new_action_link_def guarded_Inr split: if_splits)
  then have "new_message_button b = Inr b" if "b \<in> set (reminder_buttons r)" for b
    using that assms(1)
    by (auto simp: reminder_buttons_def command_button_def new_message_button_def guarded_def)
      (auto simp: blank_def py_space_def)
  then show ?thesis unfolding map_res_map by (intro map_res_id) (simp add: button_round_trip)
qed

lemma join_starts: "\<exists>rest. py_join sep (x # xs) = x @ rest"
  by (cases xs) auto

lemma card_starts: "\<exists>rest. card title ps footer = lit ''# '' @ rest"
  using join_starts[of "[10]" "lit ''# '' @ title" "concat (map (\<lambda>f. [[], card_field f]) ps)
     @ (if footer \<noteq> [] then [[], lit ''> '' @ footer] else [])"]
  unfolding card_def by fastforce

lemma notification_not_blank: "\<not> blank (reminder_notification_text env r)" "reminder_notification_text env r \<noteq> []"
proof -
  obtain ps where "reminder_notification_text env r = card [0x65E5, 0x7A0B, 0x63D0, 0x9192] ps []"
    by (simp add: reminder_notification_text_def Let_def)
  then obtain rest where "reminder_notification_text env r = lit ''# '' @ rest" using card_starts by metis
  then show "\<not> blank (reminder_notification_text env r)" "reminder_notification_text env r \<noteq> []"
    by (simp_all add: lit_def blank_def py_space_def)
qed

lemma delivery_message:
  assumes "is_ok (reminder_from_row env x)"
  shows "message_from_row (delivery_of env now s x) = (case route_of s (rm_target x) of
       None \<Rightarrow> Inl ValidationError
     | Some rt \<Rightarrow> if blank (rt_channel rt) \<or> blank (rt_account rt) then Inl ValidationError
                  else Inr (reminder_message env rt (read_row env x)))"
proof -
  let ?r = "read_row env x"
  note fields = read_row_fields[OF assms]
  have obj: "new_reminder (a_tz env) ?r = Inr ?r" by (rule read_row_object(1)[OF assms])
  then have nb: "\<not> blank (rem_id ?r)" "\<not> blank (rem_target_ref ?r)"
    by (auto simp: new_reminder_def guarded_Inr split: if_splits)
  have buttons: "map_res button_of_json (map button_json (reminder_buttons ?r)) = Inr (reminder_buttons ?r)"
    using reminder_buttons_ok[OF nb(1)] read_row_object(2)[OF assms] by blast
  have get: "json_get (lit ''text'') (reminder_payload env ?r) = Some (JStr (reminder_notification_text env ?r))"
    "json_get (lit ''buttons'') (reminder_payload env ?r) = Some (JArr (map button_json (reminder_buttons ?r)))"
    "json_get (lit ''attachment_url'') (reminder_payload env ?r) = Some JNull"
    "json_get (lit ''calendar_preview'') (reminder_payload env ?r) = None"
    "json_get (lit ''daily_agenda_preview'') (reminder_payload env ?r) = None"
    "json_get (lit ''reply_context_ref'') (reminder_payload env ?r) = None"
    by (simp_all add: reminder_payload_def lit_def)
  have kind: "message_kind_of (lit ''text'') = Inr MSG_TEXT"
    using kind_round_trip[of MSG_TEXT] by simp
  have not_high: "\<not> rem_classification ?r > CONFIDENTIAL"
    using reminder_class[OF obj] by (auto simp: less_data_classification_def)
  have "message_from_columns chan account (rem_target_ref ?r) (lit ''text'') (reminder_payload env ?r)
        (classification_value (rem_classification ?r)) =
      (if blank chan \<or> blank account then Inl ValidationError
       else Inr \<lparr>msg_channel = chan, msg_channel_account = account, msg_target_ref = rem_target_ref ?r,
         msg_kind = MSG_TEXT, msg_text = reminder_notification_text env ?r, msg_buttons = reminder_buttons ?r,
         attachment_url = None, reply_context_ref = [], msg_classification = rem_classification ?r,
         msg_calendar_preview = None, msg_daily_agenda_preview = None\<rparr>)" for chan account
    using nb notification_not_blank[of env ?r] not_high
    by (simp add: message_from_columns_def kind get buttons url_of_json_def calendar_of_json_def daily_of_json_def
        new_outbound_message_def guarded_def)
  then show ?thesis
    using fields by (simp add: message_from_row_def delivery_of_def reminder_delivery_def Let_def reminder_message_def
        blank_def split: option.split)
qed

section \<open>Properties\<close>

text \<open>
  C12. Due reminders are settled exactly once: on a store whose reminders read back, the scheduler's call
  returns; every pending reminder whose time has come is fired, or cancelled when it may be skipped
  and is later than the grace period, with its version raised, and no other row changes; only new
  deliveries are added, each for a fired reminder, and each fired reminder has a delivery under its
  idempotency key (or under the delivery id derived from it); calling again at the same time adds
  and changes nothing.
\<close>

theorem due_reminders_settled:
  assumes "reminders_ok env s" "aware now" "in_range (instant (a_tz env) now)" "0 \<le> grace"
  shows "\<exists>t new. enqueue_due env now grace s = (t, Inr (length new))
     \<and> t_reminders t = update_where (is_due env now) (settle_row env now grace) (t_reminders s)
     \<and> deliveries (store t) = deliveries (store s) @ new
     \<and> (\<forall>d \<in> set new. \<exists>x \<in> set (t_reminders s). is_due env now x \<and> \<not> skipped env now grace (read_row env x)
          \<and> d = delivery_of env now s x)
     \<and> (\<forall>x \<in> set (t_reminders s). is_due env now x \<and> \<not> skipped env now grace (read_row env x)
          \<longrightarrow> (\<exists>d \<in> set (deliveries (store t)). ob_key d = ob_key (delivery_of env now s x)
                 \<or> ob_id d = ob_id (delivery_of env now s x)))
     \<and> enqueue_due env now grace t = (t, Inr 0)"
proof -
  have u: "unique_key rm_id (t_reminders s)" and reads: "\<forall>x \<in> set (t_reminders s). is_ok (reminder_from_row env x)"
    using assms(1) by (auto simp: reminders_ok_def reminder_row_ok_def list_all_iff)
  obtain t new where t: "enqueue_due env now grace s = (t, Inr (length new))"
    "loop_effect env now grace (due_rows (time_text (a_tz env) now) s) s t new"
    "t_reminders t = update_where (is_due env now) (settle_row env now grace) (t_reminders s)"
    by (rule enqueue_due_run[OF assms])
  have due: "x \<in> set (due_rows (time_text (a_tz env) now) s) \<longleftrightarrow> x \<in> set (t_reminders s) \<and> is_due env now x" for x
    using due_rows_ok(2)[OF u] by (simp add: is_due_def)
  have "filter (is_due env now) (t_reminders t) = []"
    by (auto simp: t(3) update_where_def filter_empty_conv is_due_def)
  then have "due_rows (time_text (a_tz env) now) t = []" by (simp add: due_rows_def is_due_def[abs_def])
  then have again: "enqueue_due env now grace t = (t, Inr 0)"
    using assms(2,4) by (simp add: enqueue_due_def require_aware_def guarded_def seq_def bind_def op_run
        app_transaction_def atomically_def)
  have found: "\<exists>d \<in> set (deliveries (store t)). ob_key d = ob_key (delivery_of env now s x)
        \<or> ob_id d = ob_id (delivery_of env now s x)"
    if x: "x \<in> set (t_reminders s)" "is_due env now x" "\<not> skipped env now grace (read_row env x)" for x
  proof -
    have "insert_ignored (store t) (delivery_of env now s x)" using t(2) x due by (auto simp: loop_effect_def)
    then show ?thesis using ordinary_delivery[of env x now s] reads x(1) by (auto simp: insert_ignored_def)
  qed
  show ?thesis
    by (rule exI[of _ t], rule exI[of _ new])
      (use t again found due in \<open>auto simp: loop_effect_def\<close>)
qed

text \<open>
  A reminder whose target no channel route knows is lost: the scheduler fires it and counts it as
  enqueued, but its delivery carries an empty channel, so no delivery worker with named channels
  ever claims it, and a claim without an account filter raises on it. The reminder itself is no
  longer pending and is not tried again when the route appears.
\<close>

lemma unrouted_reminder_lost:
  assumes "reminders_ok env s" "aware now" "in_range (instant (a_tz env) now)" "0 \<le> grace"
    and "t_reminders s = [x]" "deliveries (store s) = []" "is_due env now x" "\<not> skipped env now grace (read_row env x)"
    and "route_of s (rm_target x) = None"
  shows "\<exists>t d. enqueue_due env now grace s = (t, Inr 1) \<and> map rm_status (t_reminders t) = [st_fired]
     \<and> deliveries (store t) = [d] \<and> message_from_row d = Inl ValidationError
     \<and> (\<forall>accounts. list_all (\<lambda>(c, a). \<not> blank c) accounts \<longrightarrow> \<not> in_accounts (Some accounts) d)"
proof -
  have ok: "is_ok (reminder_from_row env x)" using assms(1,5) by (simp add: reminders_ok_def reminder_row_ok_def)
  obtain t new where t: "enqueue_due env now grace s = (t, Inr (length new))"
    "loop_effect env now grace (due_rows (time_text (a_tz env) now) s) s t new"
    "t_reminders t = update_where (is_due env now) (settle_row env now grace) (t_reminders s)"
    by (rule enqueue_due_run[OF assms(1-4)])
  let ?d = "delivery_of env now s x"
  have due: "due_rows (time_text (a_tz env) now) s = [x]" using assms(5,7) by (simp add: due_rows_def is_due_def)
  have "insert_ignored (store t) ?d" "set new \<subseteq> {?d}" "deliveries (store t) = new"
    "unique_key ob_id (deliveries (store t))"
    using t(2) assms(6,8) by (auto simp: due loop_effect_def unique_key_def)
  moreover from this have "new \<noteq> []" using ordinary_delivery[OF ok, of now s] by (auto simp: insert_ignored_def)
  ultimately have new: "new = [?d]" "deliveries (store t) = [?d]"
    by (cases new; cases "tl new"; auto simp: unique_key_def)+
  have "message_from_row ?d = Inl ValidationError" using delivery_message[OF ok] assms(9) by simp
  moreover have "\<not> in_accounts (Some accounts) ?d" if "list_all (\<lambda>(c, a). \<not> blank c) accounts" for accounts
    using that assms(9) read_row_fields[OF ok]
    by (auto simp: in_accounts_def delivery_of_def reminder_delivery_def Let_def list_all_iff blank_def)
  moreover have "map rm_status (t_reminders t) = [st_fired]"
    using assms(5,7,8) by (simp add: t(3) update_where_def settle_row_def)
  ultimately show ?thesis using t(1) new by auto
qed

text \<open>One pending reminder of u at the epoch, to a target without a route.\<close>

definition sample_reminder :: reminder where
  "sample_reminder = \<lparr>rem_id = lit ''r'', rem_owner = lit ''u'', rem_title = lit ''call'', fire_at = utc 0,
     rem_target_ref = lit ''c'', rem_creator = None, rem_action_links = [], rem_status = REM_PENDING,
     missed_policy = MISSED_FIRE, rem_classification = PERSONAL, related_kind = None, related_id = None,
     related_start_at = None, rem_timezone = None, rem_version = 1, rem_created_at = None, rem_updated_at = None\<rparr>"

definition sample_reminder_row :: reminder_row where
  "sample_reminder_row = new_reminder_row (time_text utc_only (utc 0)) None (time_text utc_only (utc 0)) sample_reminder"

definition reminder_db :: app_db where
  "reminder_db = sample_app_db\<lparr>t_reminders := [sample_reminder_row]\<rparr>"

lemma sample_row_reads: "\<exists>r. reminder_from_row sample_app_env sample_reminder_row = Inr r \<and> missed_policy r = MISSED_FIRE"
proof -
  have t: "load_time (time_text utc_only (utc 0)) = Inr (utc (instant utc_only (utc 0)))"
    by (rule load_dumped) (simp add: sample_store_simps)
  show ?thesis
    by (simp add: reminder_from_row_def sample_reminder_row_def new_reminder_row_def sample_reminder_def t
        load_action_links_def dump_action_links_def enum_of_def all_reminder_status_def load_time_opt_def
        sample_app_env_def new_reminder_def guarded_def blank_def blank_opt_def naive_opt_def lit_def py_space_def
        sample_store_simps(11) classification_of_def)
qed

lemma reminder_db_ok:
  "reminders_ok sample_app_env reminder_db" "is_due sample_app_env (utc 0) sample_reminder_row"
  "\<not> skipped sample_app_env (utc 0) g (read_row sample_app_env sample_reminder_row)"
  "t_reminders reminder_db = [sample_reminder_row]" "deliveries (store reminder_db) = []"
  "route_of reminder_db (rm_target sample_reminder_row) = None"
  using sample_row_reads
  by (auto simp: reminders_ok_def reminder_row_ok_def reminder_db_def unique_key_def user_exists_def sample_app_db_def
      reminder_checks_def ordinary_class_def is_due_def skipped_def read_row_def sample_reminder_row_def
      new_reminder_row_def sample_reminder_def route_of_def sample_app_env_def)

theorem due_reminders_settled_witness:
  "\<exists>t n. enqueue_due sample_app_env (utc 0) 300 reminder_db = (t, Inr n)
     \<and> t_reminders t = [settle_row sample_app_env (utc 0) 300 sample_reminder_row]
     \<and> enqueue_due sample_app_env (utc 0) 300 t = (t, Inr 0)"
  using due_reminders_settled[OF reminder_db_ok(1), of "utc 0" 300] reminder_db_ok(2)
  by (auto simp: reminder_db_ok sample_store_simps update_where_def)

lemma unrouted_reminder_lost_example:
  "\<exists>t d. enqueue_due sample_app_env (utc 0) 300 reminder_db = (t, Inr 1) \<and> deliveries (store t) = [d]
     \<and> message_from_row d = Inl ValidationError"
  using unrouted_reminder_lost[OF reminder_db_ok(1) _ _ _ reminder_db_ok(4,5,2,3,6), of 300]
  by (auto simp: sample_store_simps)

end
