(* ===== verification/BriefingStore.thy ===== *)
theory BriefingStore
  imports ReminderStore AgendaStore
begin

text \<open>
  \<^verbatim>\<open>AnniversaryRepository\<close>, \<^verbatim>\<open>DailyBriefingRepository\<close>, \<^verbatim>\<open>NotificationLeadRepository\<close> and
  \<^verbatim>\<open>ScheduledJobRepository\<close> of \<^verbatim>\<open>repositories.py\<close>.
\<close>

section \<open>Tables\<close>

definition anniversaries :: "anniversary_row table" where
  "anniversaries = \<lparr>rows = t_anniversaries, on_rows = t_anniversaries_update\<rparr>"

definition briefings :: "briefing_row table" where
  "briefings = \<lparr>rows = t_briefings, on_rows = t_briefings_update\<rparr>"

definition default_leads :: "lead_row table" where
  "default_leads = \<lparr>rows = t_default_leads, on_rows = t_default_leads_update\<rparr>"

definition item_leads :: "lead_row table" where
  "item_leads = \<lparr>rows = t_item_leads, on_rows = t_item_leads_update\<rparr>"

definition jobs :: "job_row table" where
  "jobs = \<lparr>rows = t_jobs, on_rows = t_jobs_update\<rparr>"

definition job_runs :: "run_row table" where
  "job_runs = \<lparr>rows = t_runs, on_rows = t_runs_update\<rparr>"

text \<open>\<^verbatim>\<open>date.fromisoformat\<close> on the text \<^verbatim>\<open>date.isoformat\<close> writes.\<close>

definition load_date :: "pystr \<Rightarrow> date res" where
  "load_date s = (let y = take 4 s; m = take 2 (drop 5 s); d = take 2 (drop 8 s);
       v = mk_date (int (digits_value y)) (int (digits_value m)) (int (digits_value d))
     in if length s = 10 \<and> s ! 4 = 45 \<and> s ! 7 = 45 \<and> all_digits y \<and> all_digits m \<and> all_digits d \<and> valid_date v
        then Inr v else Inl ValueErr)"

section \<open>Anniversaries\<close>

fun important_day_kind_value :: "important_day_kind \<Rightarrow> pystr" where
  "important_day_kind_value KIND_ANNIVERSARY = lit ''anniversary''"
| "important_day_kind_value KIND_BIRTHDAY = lit ''birthday''"

fun calendar_system_value :: "calendar_system \<Rightarrow> pystr" where
  "calendar_system_value SOLAR = lit ''solar''"
| "calendar_system_value LUNAR = lit ''lunar''"

definition anniversary_checks :: "anniversary_row \<Rightarrow> bool" where
  "anniversary_checks r \<longleftrightarrow> ordinary_class (an_class r)
     \<and> an_kind r \<in> set (map important_day_kind_value [KIND_ANNIVERSARY, KIND_BIRTHDAY])
     \<and> an_calendar r \<in> set (map calendar_system_value [SOLAR, LUNAR])
     \<and> (case an_month r of None \<Rightarrow> True | Some m \<Rightarrow> 1 \<le> m \<and> m \<le> 12)
     \<and> (case an_day r of None \<Rightarrow> True | Some d \<Rightarrow> 1 \<le> d \<and> d \<le> 30)"

definition anniversary_allowed :: "app_db \<Rightarrow> anniversary_row \<Rightarrow> bool" where
  "anniversary_allowed s r \<longleftrightarrow> an_id r \<notin> an_id ` set (t_anniversaries s) \<and> user_exists s (an_owner r)
     \<and> user_exists s (an_creator r) \<and> anniversary_checks r"

definition anniversary_from_row :: "app_env \<Rightarrow> anniversary_row \<Rightarrow> anniversary res" where
  "anniversary_from_row env r =
     and_then (load_time (an_created r)) (\<lambda>created.
     and_then (load_date (an_anchor r)) (\<lambda>anchor.
     and_then (enum_of important_day_kind_value [KIND_ANNIVERSARY, KIND_BIRTHDAY] (an_kind r)) (\<lambda>kind.
     and_then (enum_of calendar_system_value [SOLAR, LUNAR] (an_calendar r)) (\<lambda>calendar.
     and_then (classification_of (an_class r)) (\<lambda>c.
       new_anniversary (a_tz env) \<lparr>ann_id = an_id r, ann_owner = an_owner r, ann_creator = an_creator r,
         ann_title = an_title r, anchor_date = anchor, ann_timezone = an_timezone r, ann_kind = kind,
         ann_calendar = calendar, lunar_month = an_month r, lunar_day = an_day r, lunar_leap = an_leap r,
         advance_days = an_advance r, ann_classification = c, ann_created_at = Some created\<rparr>)))))"

definition set_anniversary_columns :: "anniversary \<Rightarrow> anniversary_row \<Rightarrow> anniversary_row" where
  "set_anniversary_columns x r = r\<lparr>an_title := ann_title x, an_anchor := iso_date (anchor_date x),
     an_timezone := ann_timezone x, an_class := classification_value (ann_classification x),
     an_kind := important_day_kind_value (ann_kind x), an_calendar := calendar_system_value (ann_calendar x),
     an_month := lunar_month x, an_day := lunar_day x, an_leap := lunar_leap x, an_advance := advance_days x\<rparr>"

definition anniversary_create :: "app_env \<Rightarrow> anniversary \<Rightarrow> authorized_action \<Rightarrow> anniversary app" where
  "anniversary_create env x a =
     seq (of_res (require_authorization a CREATE (lit ''anniversary'') (ann_id x) (ann_owner x) (ann_classification x)))
    (bind (of_res (new_anniversary (a_tz env) (x\<lparr>ann_created_at := Some (authorized_at a)\<rparr>))) (\<lambda>stored.
     bind (of_res (dump_time (a_tz env) (authorized_at a))) (\<lambda>now_text.
     seq (insert_audited env anniversaries anniversary_allowed (set_anniversary_columns stored
         \<lparr>an_id = ann_id stored, an_owner = ann_owner stored, an_creator = ann_creator stored, an_title = [],
          an_anchor = [], an_timezone = [], an_class = 0, an_created = now_text, an_kind = [], an_calendar = [],
          an_month = None, an_day = None, an_leap = False, an_advance = []\<rparr>) a)
       (ret stored))))"

definition anniversary_get :: "app_env \<Rightarrow> pystr \<Rightarrow> anniversary option app" where
  "anniversary_get env i = bind (fetch_one anniversaries (\<lambda>r. an_id r = i)) (\<lambda>row. case row of
       None \<Rightarrow> ret None | Some r \<Rightarrow> bind (of_res (anniversary_from_row env r)) (\<lambda>x. ret (Some x)))"

definition anniversary_update :: "app_env \<Rightarrow> anniversary \<Rightarrow> authorized_action \<Rightarrow> anniversary app" where
  "anniversary_update env x a =
     seq (of_res (require_authorization a UPDATE (lit ''anniversary'') (ann_id x) (ann_owner x) (ann_classification x)))
    (seq (change_audited env anniversaries anniversary_checks (\<lambda>r. an_id r = ann_id x) (set_anniversary_columns x)
        NotFoundError a [])
      (ret x))"

definition anniversary_delete :: "app_env \<Rightarrow> pystr \<Rightarrow> authorized_action \<Rightarrow> unit app" where
  "anniversary_delete env i a =
     seq (of_res (require_authorization a DELETE (lit ''anniversary'') i (resource_owner (auth_resource a))
        (resource_classification (auth_resource a))))
    (remove_audited env anniversaries (\<lambda>r. an_id r = i) NotFoundError a)"

definition anniversary_list_for_owner :: "app_env \<Rightarrow> pystr \<Rightarrow> anniversary list app" where
  "anniversary_list_for_owner env owner = bind (reads (\<lambda>s. map_res (anniversary_from_row env)
     (sort_key (\<lambda>r. (an_anchor r, an_id r)) (filter (\<lambda>r. an_owner r = owner) (t_anniversaries s))))) of_res"

section \<open>Daily briefings\<close>

definition briefing_checks :: "briefing_row \<Rightarrow> bool" where
  "briefing_checks r \<longleftrightarrow> ordinary_class (bf_class r)"

definition briefing_allowed :: "app_db \<Rightarrow> briefing_row \<Rightarrow> bool" where
  "briefing_allowed s r \<longleftrightarrow> bf_id r \<notin> bf_id ` set (t_briefings s) \<and> user_exists s (bf_owner r)
     \<and> user_exists s (bf_creator r) \<and> briefing_checks r"

definition load_date_opt :: "pystr option \<Rightarrow> date option res" where
  "load_date_opt v = (case v of None \<Rightarrow> Inr None | Some s \<Rightarrow> and_then (load_date s) (\<lambda>d. Inr (Some d)))"

definition briefing_from_row :: "app_env \<Rightarrow> briefing_row \<Rightarrow> daily_briefing res" where
  "briefing_from_row env r =
     and_then (load_time (bf_created r)) (\<lambda>created.
     and_then (load_time (bf_updated r)) (\<lambda>updated.
     and_then (load_minutes (bf_time r)) (\<lambda>at.
     and_then (classification_of (bf_class r)) (\<lambda>c.
     and_then (load_date_opt (bf_last_sent r)) (\<lambda>sent.
       new_daily_briefing (a_tz env) \<lparr>br_id = bf_id r, br_owner = bf_owner r, br_creator = bf_creator r,
         br_target_ref = bf_target r, time_of_day = at, br_timezone = bf_timezone r, br_classification = c,
         br_enabled = bf_enabled r, last_sent_on = sent, br_created_at = Some created,
         br_updated_at = Some updated\<rparr>)))))"

definition briefing_create :: "app_env \<Rightarrow> daily_briefing \<Rightarrow> authorized_action \<Rightarrow> daily_briefing app" where
  "briefing_create env b a =
     seq (of_res (require_authorization a CREATE (lit ''daily_briefing'') (br_id b) (br_owner b) (br_classification b)))
    (bind (of_res (new_daily_briefing (a_tz env) (b\<lparr>br_created_at := Some (authorized_at a),
        br_updated_at := Some (authorized_at a)\<rparr>))) (\<lambda>stored.
     bind (of_res (dump_time (a_tz env) (authorized_at a))) (\<lambda>now_text.
     seq (insert_audited env briefings briefing_allowed
         \<lparr>bf_id = br_id stored, bf_owner = br_owner stored, bf_creator = br_creator stored,
          bf_target = br_target_ref stored, bf_time = dump_minutes (time_of_day stored),
          bf_timezone = br_timezone stored, bf_class = classification_value (br_classification stored),
          bf_enabled = br_enabled stored, bf_last_sent = None, bf_created = now_text, bf_updated = now_text\<rparr> a)
       (ret stored))))"

definition briefing_get :: "app_env \<Rightarrow> pystr \<Rightarrow> daily_briefing option app" where
  "briefing_get env i = bind (fetch_one briefings (\<lambda>r. bf_id r = i)) (\<lambda>row. case row of
       None \<Rightarrow> ret None | Some r \<Rightarrow> bind (of_res (briefing_from_row env r)) (\<lambda>b. ret (Some b)))"

definition briefing_update :: "app_env \<Rightarrow> daily_briefing \<Rightarrow> authorized_action \<Rightarrow> datetime \<Rightarrow> daily_briefing app" where
  "briefing_update env b a now =
     seq (of_res (require_authorization a UPDATE (lit ''daily_briefing'') (br_id b) (br_owner b) (br_classification b)))
    (bind (of_res (dump_time (a_tz env) now)) (\<lambda>now_text.
     seq (change_audited env briefings briefing_checks (\<lambda>r. bf_id r = br_id b)
        (\<lambda>r. r\<lparr>bf_target := br_target_ref b, bf_time := dump_minutes (time_of_day b), bf_timezone := br_timezone b,
           bf_class := classification_value (br_classification b), bf_enabled := br_enabled b,
           bf_updated := now_text\<rparr>) NotFoundError a [])
       (of_res (new_daily_briefing (a_tz env) (b\<lparr>br_updated_at := Some now\<rparr>)))))"

definition briefing_delete :: "app_env \<Rightarrow> pystr \<Rightarrow> authorized_action \<Rightarrow> unit app" where
  "briefing_delete env i a =
     seq (of_res (require_authorization a DELETE (lit ''daily_briefing'') i (resource_owner (auth_resource a))
        (resource_classification (auth_resource a))))
    (remove_audited env briefings (\<lambda>r. bf_id r = i) NotFoundError a)"

definition briefing_list_for_owner :: "app_env \<Rightarrow> pystr \<Rightarrow> daily_briefing list app" where
  "briefing_list_for_owner env owner = bind (reads (\<lambda>s. map_res (briefing_from_row env)
     (sort_key (\<lambda>r. (bf_time r, bf_id r)) (filter (\<lambda>r. bf_owner r = owner) (t_briefings s))))) of_res"

fun due_briefings :: "app_env \<Rightarrow> datetime \<Rightarrow> briefing_row list \<Rightarrow> (daily_briefing \<times> date) list res" where
  "due_briefings env now [] = Inr []"
| "due_briefings env now (r # rs) =
     and_then (briefing_from_row env r) (\<lambda>b.
     and_then (zone_info (a_tz env) (br_timezone b)) (\<lambda>z.
       let moment = astimezone (a_tz env) now z in
       and_then (due_briefings env now rs) (\<lambda>rest.
         Inr (if wall_time moment < tod (time_of_day b) \<or> last_sent_on b = Some (wall_date moment) then rest
              else (b, wall_date moment) # rest))))"

definition briefing_due :: "app_env \<Rightarrow> datetime \<Rightarrow> (daily_briefing \<times> date) list app" where
  "briefing_due env now =
     seq (of_res (require_aware now))
    (bind (reads (\<lambda>s. due_briefings env now (sort_key bf_id (filter bf_enabled (t_briefings s))))) of_res)"

definition briefing_mark_sent :: "app_env \<Rightarrow> pystr \<Rightarrow> date \<Rightarrow> datetime \<Rightarrow> unit app" where
  "briefing_mark_sent env i sent_on now =
     seq (of_res (require_aware now))
    (app_transaction
       (bind (change_rows briefings briefing_checks (\<lambda>r. bf_id r = i \<and> bf_enabled r)
          (\<lambda>r. r\<lparr>bf_last_sent := Some (iso_date sent_on), bf_updated := time_text (a_tz env) now\<rparr>)) (\<lambda>_. ret ())))"

definition briefing_default_target :: "pystr \<Rightarrow> pystr option app" where
  "briefing_default_target owner = reads (\<lambda>s. case sort_key (\<lambda>r. (bf_time r, bf_id r))
       (filter (\<lambda>r. bf_owner r = owner \<and> bf_enabled r) (t_briefings s)) of
     [] \<Rightarrow> None | r # rs \<Rightarrow> Some (bf_target r))"

definition briefing_target_channel :: "pystr \<Rightarrow> (pystr \<times> pystr) option app" where
  "briefing_target_channel target = reads (\<lambda>s. map_option (\<lambda>r. (rt_channel r, rt_account r)) (route_of s target))"

section \<open>Lead times\<close>

definition lead_default_for :: "pystr \<Rightarrow> int list option app" where
  "lead_default_for owner = reads (\<lambda>s. map_option ld_minutes (find_row ld_key owner (t_default_leads s)))"

definition lead_override_for :: "pystr \<Rightarrow> int list option app" where
  "lead_override_for item = reads (\<lambda>s. map_option ld_minutes (find_row ld_key item (t_item_leads s)))"

text \<open>\<^verbatim>\<open>INSERT \<dots> ON CONFLICT DO UPDATE\<close>: the stored row gets the new minutes, or a row is added.\<close>

definition upsert_leads :: "lead_row table \<Rightarrow> (app_db \<Rightarrow> bool) \<Rightarrow> lead_row \<Rightarrow> unit app" where
  "upsert_leads tab known r = app_transaction
     (bind (fetch_one tab (\<lambda>q. ld_key q = ld_key r)) (\<lambda>present.
      if present = None then insert_row tab (\<lambda>s q. known s) r
      else bind (change_rows tab (\<lambda>q. True) (\<lambda>q. ld_key q = ld_key r)
          (\<lambda>q. q\<lparr>ld_minutes := ld_minutes r, ld_updated := ld_updated r\<rparr>)) (\<lambda>_. ret ())))"

definition lead_set_default :: "app_env \<Rightarrow> pystr \<Rightarrow> int list \<Rightarrow> datetime \<Rightarrow> int list app" where
  "lead_set_default env owner minutes now =
     bind (of_res (normalise_lead_minutes minutes)) (\<lambda>normalised.
     bind (of_res (dump_time (a_tz env) now)) (\<lambda>now_text.
     seq (upsert_leads default_leads (\<lambda>s. user_exists s owner)
         \<lparr>ld_key = owner, ld_owner = owner, ld_minutes = normalised, ld_updated = now_text\<rparr>)
       (ret normalised)))"

definition lead_set_override :: "app_env \<Rightarrow> pystr \<Rightarrow> pystr \<Rightarrow> int list \<Rightarrow> datetime \<Rightarrow> int list app" where
  "lead_set_override env item owner minutes now =
     bind (of_res (normalise_lead_minutes minutes)) (\<lambda>normalised.
     bind (of_res (dump_time (a_tz env) now)) (\<lambda>now_text.
     seq (upsert_leads item_leads (\<lambda>s. item \<in> gr_id ` set (t_agenda s) \<and> user_exists s owner)
         \<lparr>ld_key = item, ld_owner = owner, ld_minutes = normalised, ld_updated = now_text\<rparr>)
       (ret normalised)))"

definition lead_clear_override :: "pystr \<Rightarrow> unit app" where
  "lead_clear_override item = app_transaction (bind (remove_rows item_leads (\<lambda>q. ld_key q = item)) (\<lambda>_. ret ()))"

definition lead_resolve :: "pystr \<Rightarrow> pystr \<Rightarrow> int list app" where
  "lead_resolve item owner =
     bind (lead_override_for item) (\<lambda>override. case override of
       Some ms \<Rightarrow> ret ms
     | None \<Rightarrow> bind (lead_default_for owner) (\<lambda>d. case d of
         None \<Rightarrow> ret DEFAULT_NOTIFICATION_LEAD_MINUTES | Some ms \<Rightarrow> ret ms))"

section \<open>Scheduled jobs\<close>

fun job_run_status_value :: "job_run_status \<Rightarrow> pystr" where
  "job_run_status_value JOB_PENDING = lit ''pending''"
| "job_run_status_value JOB_RUNNING = lit ''running''"
| "job_run_status_value JOB_COMPLETED = lit ''completed''"
| "job_run_status_value JOB_FAILED = lit ''failed''"
| "job_run_status_value JOB_SKIPPED = lit ''skipped''"

definition job_from_row :: "app_env \<Rightarrow> job_row \<Rightarrow> scheduled_job res" where
  "job_from_row env r =
     and_then (load_time (jb_created r)) (\<lambda>created.
     and_then (load_time (jb_updated r)) (\<lambda>updated.
       new_scheduled_job (a_tz env) (a_rrule_ok env) \<lparr>job_id = jb_id r, job_owner = jb_owner r, job_kind = jb_kind r,
         schedule_spec = jb_spec r, job_timezone = jb_timezone r, job_enabled = jb_enabled r,
         job_created_at = Some created, job_updated_at = Some updated\<rparr>))"

definition run_from_row :: "run_row \<Rightarrow> job_run res" where
  "run_from_row r =
     and_then (load_time (jr_for r)) (\<lambda>at.
     and_then (enum_of job_run_status_value [JOB_PENDING, JOB_RUNNING, JOB_COMPLETED, JOB_FAILED, JOB_SKIPPED]
        (jr_status r)) (\<lambda>status.
     and_then (load_time_opt (jr_started r)) (\<lambda>started.
     and_then (load_time_opt (jr_completed r)) (\<lambda>finished.
       new_job_run \<lparr>run_id = jr_id r, run_job_id = jr_job r, scheduled_for = at, run_status = status,
         started_at = started, completed_at = finished, run_error_code = jr_error r\<rparr>))))"

definition job_create :: "app_env \<Rightarrow> scheduled_job \<Rightarrow> authorized_action \<Rightarrow> scheduled_job app" where
  "job_create env j a =
     seq (of_res (require_authorization a CREATE (lit ''scheduled_job'') (job_id j) (job_owner j) PERSONAL))
    (bind (of_res (new_scheduled_job (a_tz env) (a_rrule_ok env) (j\<lparr>job_created_at := Some (authorized_at a),
        job_updated_at := Some (authorized_at a)\<rparr>))) (\<lambda>stored.
     bind (of_res (dump_time (a_tz env) (authorized_at a))) (\<lambda>now_text.
     seq (insert_audited env jobs (\<lambda>s r. jb_id r \<notin> jb_id ` set (t_jobs s) \<and> user_exists s (jb_owner r))
         \<lparr>jb_id = job_id stored, jb_owner = job_owner stored, jb_kind = job_kind stored, jb_spec = schedule_spec stored,
          jb_timezone = job_timezone stored, jb_enabled = job_enabled stored, jb_created = now_text,
          jb_updated = now_text\<rparr> a)
       (ret stored))))"

definition job_get :: "app_env \<Rightarrow> pystr \<Rightarrow> scheduled_job option app" where
  "job_get env i = bind (fetch_one jobs (\<lambda>r. jb_id r = i)) (\<lambda>row. case row of
       None \<Rightarrow> ret None | Some r \<Rightarrow> bind (of_res (job_from_row env r)) (\<lambda>j. ret (Some j)))"

text \<open>INSERT OR IGNORE by the id derived from the job and the time; the run found is returned.\<close>

definition create_run :: "app_env \<Rightarrow> scheduled_job \<Rightarrow> datetime \<Rightarrow> authorized_action \<Rightarrow> (job_run \<times> bool) app" where
  "create_run env j at a =
     seq (of_res (require_aware at))
    (seq (of_res (require_authorization a UPDATE (lit ''scheduled_job'') (job_id j) (job_owner j) PERSONAL))
    (bind (of_res (dump_time (a_tz env) at)) (\<lambda>scheduled_text.
     let i = lit ''run_'' @ take 24 (a_sha256 env (job_id j @ [58] @ scheduled_text)) in
     app_transaction
       (bind (reads (\<lambda>s. i \<in> jr_id ` set (t_runs s)
            \<or> (job_id j, scheduled_text) \<in> (\<lambda>r. (jr_job r, jr_for r)) ` set (t_runs s))) (\<lambda>present.
        seq (if present then ret ()
             else insert_row job_runs (\<lambda>s r. jr_job r \<in> jb_id ` set (t_jobs s))
               \<lparr>jr_id = i, jr_job = job_id j, jr_for = scheduled_text, jr_status = job_run_status_value JOB_PENDING,
                jr_started = None, jr_completed = None, jr_error = []\<rparr>)
       (bind (fetch_one job_runs (\<lambda>r. jr_job r = job_id j \<and> jr_for r = scheduled_text)) (\<lambda>row. case row of
            None \<Rightarrow> throw AssertionErr
          | Some r \<Rightarrow> seq (if present then ret () else audit env a completed [])
              (bind (of_res (run_from_row r)) (\<lambda>x. ret (x, \<not> present)))))))))) "

end
