(* ===== verification/NoteStore.thy ===== *)
theory NoteStore
  imports AppStore
begin

text \<open>
  \<^verbatim>\<open>NoteRepository\<close> of \<^verbatim>\<open>src/zhixu/adapters/storage/sqlite/repositories.py\<close>: a note is a row with a
  category from a tree, content blocks with fields, attachments, tags and an entry of the full-text index;
  a write replaces all of them in one transaction, a read puts the entity together again.
\<close>

definition note_table :: "note_row table" where
  "note_table = \<lparr>rows = t_notes, on_rows = t_notes_update\<rparr>"

definition category_table :: "category_row table" where
  "category_table = \<lparr>rows = t_categories, on_rows = t_categories_update\<rparr>"

definition block_table :: "block_row table" where
  "block_table = \<lparr>rows = t_blocks, on_rows = t_blocks_update\<rparr>"

definition field_table :: "field_row table" where
  "field_table = \<lparr>rows = t_fields, on_rows = t_fields_update\<rparr>"

definition attachment_table :: "attachment_row table" where
  "attachment_table = \<lparr>rows = t_attachments, on_rows = t_attachments_update\<rparr>"

definition tag_table :: "tag_row table" where
  "tag_table = \<lparr>rows = t_tags, on_rows = t_tags_update\<rparr>"

definition resource_tag_table :: "resource_tag_row table" where
  "resource_tag_table = \<lparr>rows = t_resource_tags, on_rows = t_resource_tags_update\<rparr>"

definition fts_table :: "fts_row table" where
  "fts_table = \<lparr>rows = t_fts, on_rows = t_fts_update\<rparr>"

section \<open>Constraints\<close>

text \<open>\<^verbatim>\<open>length(trim(x)) > 0\<close>, where \<^verbatim>\<open>trim\<close> removes spaces.\<close>

definition trimmed :: "pystr \<Rightarrow> bool" where
  "trimmed s \<longleftrightarrow> list_ex (\<lambda>c. c \<noteq> 32) s"

definition note_exists :: "app_db \<Rightarrow> pystr \<Rightarrow> bool" where
  "note_exists s i \<longleftrightarrow> i \<in> no_id ` set (t_notes s)"

definition category_or_null :: "app_db \<Rightarrow> pystr option \<Rightarrow> bool" where
  "category_or_null s i = (case i of None \<Rightarrow> True | Some c \<Rightarrow> c \<in> nc_id ` set (t_categories s))"

definition note_checks :: "note_row \<Rightarrow> bool" where
  "note_checks r \<longleftrightarrow> ordinary_class (no_class r) \<and> 0 < no_version r \<and> (trimmed (no_title r) \<or> trimmed (no_body r))"

definition note_allowed :: "app_db \<Rightarrow> note_row \<Rightarrow> bool" where
  "note_allowed s r \<longleftrightarrow> \<not> note_exists s (no_id r) \<and> user_exists s (no_owner r) \<and> user_or_null s (no_creator r)
     \<and> category_or_null s (no_category r) \<and> note_checks r"

definition block_allowed :: "app_db \<Rightarrow> block_row \<Rightarrow> bool" where
  "block_allowed s r \<longleftrightarrow> nb_id r \<notin> nb_id ` set (t_blocks s) \<and> note_exists s (nb_note r)
     \<and> (nb_note r, nb_name r) \<notin> (\<lambda>q. (nb_note q, nb_name q)) ` set (t_blocks s) \<and> trimmed (nb_name r)"

definition field_allowed :: "app_db \<Rightarrow> field_row \<Rightarrow> bool" where
  "field_allowed s r \<longleftrightarrow> nf_block r \<in> nb_id ` set (t_blocks s)
     \<and> (nf_block r, nf_name r) \<notin> (\<lambda>q. (nf_block q, nf_name q)) ` set (t_fields s)
     \<and> trimmed (nf_name r) \<and> trimmed (nf_value r)"

definition attachment_allowed :: "app_db \<Rightarrow> attachment_row \<Rightarrow> bool" where
  "attachment_allowed s r \<longleftrightarrow> note_exists s (nt_note r)
     \<and> (nt_note r, nt_id r) \<notin> (\<lambda>q. (nt_note q, nt_id q)) ` set (t_attachments s)
     \<and> 0 \<le> nt_size r \<and> nt_size r \<le> 10737418240"

definition resource_tag_allowed :: "app_db \<Rightarrow> resource_tag_row \<Rightarrow> bool" where
  "resource_tag_allowed s r \<longleftrightarrow> r \<notin> set (t_resource_tags s) \<and> rg_tag r \<in> tg_id ` set (t_tags s)"

section \<open>Reading a note\<close>

definition UNCATEGORIZED :: pystr where
  "UNCATEGORIZED = [0x672A, 0x5206, 0x7C7B]"

text \<open>
  The recursive query from a category to its root, the root's name first. A parent is another row, so the number of rows
  bounds the length of the way up.
\<close>

fun category_names :: "nat \<Rightarrow> category_row list \<Rightarrow> pystr option \<Rightarrow> pystr list" where
  "category_names 0 rs p = []"
| "category_names (Suc n) rs None = []"
| "category_names (Suc n) rs (Some i) = (case find_row nc_id i rs of None \<Rightarrow> []
     | Some r \<Rightarrow> category_names n rs (nc_parent r) @ [nc_name r])"

definition read_category_path :: "app_db \<Rightarrow> pystr option \<Rightarrow> pystr list" where
  "read_category_path s c = (case c of None \<Rightarrow> [UNCATEGORIZED]
     | Some i \<Rightarrow> if i = [] then [UNCATEGORIZED]
         else let names = category_names (length (t_categories s)) (t_categories s) (Some i)
              in if names = [] then [UNCATEGORIZED] else names)"

definition read_tags :: "app_db \<Rightarrow> pystr \<Rightarrow> pystr list" where
  "read_tags s i = sort (concat (map (\<lambda>t. map (\<lambda>_. tg_name t)
     (filter (\<lambda>r. rg_kind r = lit ''note'' \<and> rg_resource r = i \<and> rg_tag r = tg_id t) (t_resource_tags s))) (t_tags s)))"

definition read_attachments :: "app_db \<Rightarrow> pystr \<Rightarrow> note_attachment list res" where
  "read_attachments s i = map_res (\<lambda>r. new_note_attachment \<lparr>att_id = nt_id r, att_filename = nt_filename r,
       att_media_type = nt_media r, att_size_bytes = nt_size r, att_content_ref = nt_ref r\<rparr>)
     (sort_key nt_id (filter (\<lambda>r. nt_note r = i) (t_attachments s)))"

definition read_block :: "app_db \<Rightarrow> block_row \<Rightarrow> note_content_block res" where
  "read_block s b = and_then (map_res (\<lambda>f. new_note_field \<lparr>field_name = nf_name f, field_value = nf_value f\<rparr>)
       (sort_key (\<lambda>f. (nf_position f, nf_name f)) (filter (\<lambda>f. nf_block f = nb_id b) (t_fields s))))
     (\<lambda>fs. new_note_content_block \<lparr>block_name = nb_name b, block_body = nb_body b, block_fields = fs, block_id = nb_id b\<rparr>)"

definition read_blocks :: "app_db \<Rightarrow> pystr \<Rightarrow> note_content_block list res" where
  "read_blocks s i = map_res (read_block s) (sort_key (\<lambda>b. (nb_position b, nb_id b)) (filter (\<lambda>b. nb_note b = i) (t_blocks s)))"

definition note_from_row :: "app_db \<Rightarrow> note_row \<Rightarrow> note_entity res" where
  "note_from_row s r =
     and_then (read_blocks s (no_id r)) (\<lambda>bs.
     and_then (read_attachments s (no_id r)) (\<lambda>atts.
     and_then (classification_of (no_class r)) (\<lambda>c.
     and_then (load_time (no_created r)) (\<lambda>created.
     and_then (load_time (no_updated r)) (\<lambda>updated.
       new_note \<lparr>note_id = no_id r, note_owner = no_owner r, note_title = no_title r, note_body = no_body r,
         category_path = read_category_path s (no_category r), content_blocks = bs,
         note_creator = Some (case no_creator r of Some u \<Rightarrow> u | None \<Rightarrow> no_owner r), note_tags = read_tags s (no_id r),
         note_attachments = atts, note_classification = c, note_version = no_version r, note_created_at = Some created,
         note_updated_at = Some updated\<rparr>)))))"

definition note_get :: "pystr \<Rightarrow> note_entity option app" where
  "note_get i = bind (fetch_one note_table (\<lambda>r. no_id r = i)) (\<lambda>row. case row of
       None \<Rightarrow> ret None
     | Some r \<Rightarrow> bind (reads (\<lambda>s. note_from_row s r)) (\<lambda>x. bind (of_res x) (\<lambda>n. ret (Some n))))"

text \<open>\<^verbatim>\<open>ORDER BY updated_at DESC,id\<close>: by id, then stably by the time, latest first.\<close>

definition latest_first :: "note_row list \<Rightarrow> note_row list" where
  "latest_first rs = rev (sort_key no_updated (rev (sort_key no_id rs)))"

definition note_list_for_owner :: "pystr \<Rightarrow> note_entity list app" where
  "note_list_for_owner owner = bind (reads (\<lambda>s. map_res (note_from_row s)
     (latest_first (filter (\<lambda>r. no_owner r = owner) (t_notes s))))) of_res"

section \<open>Writing a note\<close>

definition next_tag_id :: "app_db \<Rightarrow> nat" where
  "next_tag_id s = Suc (fold max (map tg_id (t_tags s)) 0)"

definition write_tag :: "note_entity \<Rightarrow> pystr \<Rightarrow> unit app" where
  "write_tag n t =
     bind (reads next_tag_id) (\<lambda>k.
     seq (insert_or_ignore tag_table (\<lambda>s r. (tg_owner r, tg_name r) \<in> (\<lambda>q. (tg_owner q, tg_name q)) ` set (t_tags s))
            (\<lambda>s r. user_exists s (tg_owner r)) \<lparr>tg_id = k, tg_owner = note_owner n, tg_name = t\<rparr>)
    (bind (fetch_one tag_table (\<lambda>r. tg_owner r = note_owner n \<and> tg_name r = t)) (\<lambda>row. case row of
        None \<Rightarrow> throw AssertionErr
      | Some r \<Rightarrow> insert_row resource_tag_table resource_tag_allowed
          \<lparr>rg_kind = lit ''note'', rg_resource = note_id n, rg_tag = tg_id r\<rparr>)))"

definition write_tags :: "note_entity \<Rightarrow> unit app" where
  "write_tags n = bind (remove_rows resource_tag_table (\<lambda>r. rg_kind r = lit ''note'' \<and> rg_resource r = note_id n)) (\<lambda>_.
     each (write_tag n) (note_tags n))"

definition write_attachments :: "note_entity \<Rightarrow> unit app" where
  "write_attachments n = bind (remove_rows attachment_table (\<lambda>r. nt_note r = note_id n)) (\<lambda>_.
     each (\<lambda>a. insert_row attachment_table attachment_allowed
       \<lparr>nt_note = note_id n, nt_id = att_id a, nt_filename = att_filename a, nt_media = att_media_type a,
        nt_size = att_size_bytes a, nt_ref = att_content_ref a\<rparr>) (note_attachments n))"

definition category_key :: "app_env \<Rightarrow> pystr \<Rightarrow> pystr option \<Rightarrow> pystr \<Rightarrow> pystr" where
  "category_key env owner parent name = lit ''category_'' @ take 32 (a_sha256 env
     (py_join [31] [owner, (case parent of None \<Rightarrow> [] | Some p \<Rightarrow> p), name]))"

fun ensure_category_path :: "app_env \<Rightarrow> pystr \<Rightarrow> pystr \<Rightarrow> pystr option \<Rightarrow> pystr list \<Rightarrow> pystr option app" where
  "ensure_category_path env owner created_at parent [] = ret parent"
| "ensure_category_path env owner created_at parent (raw_name # names) =
     (let name = py_strip raw_name; here = (\<lambda>r. nc_owner r = owner \<and> nc_parent r = parent \<and> nc_name r = name)
      in seq (insert_or_ignore category_table
           (\<lambda>s r. nc_id r \<in> nc_id ` set (t_categories s) \<or> list_ex here (t_categories s) \<or> \<not> trimmed (nc_name r))
           (\<lambda>s r. user_exists s (nc_owner r) \<and> category_or_null s (nc_parent r))
           \<lparr>nc_id = category_key env owner parent name, nc_owner = owner, nc_parent = parent, nc_name = name,
            nc_created = created_at\<rparr>)
        (bind (fetch_one category_table here) (\<lambda>row. case row of
             None \<Rightarrow> throw AssertionErr
           | Some r \<Rightarrow> ensure_category_path env owner created_at (Some (nc_id r)) names)))"

definition write_block :: "note_entity \<Rightarrow> pystr \<Rightarrow> pystr \<Rightarrow> nat \<times> note_content_block \<Rightarrow> unit app" where
  "write_block n created_at updated_at b = (case b of (position, block) \<Rightarrow>
     seq (insert_row block_table block_allowed
         \<lparr>nb_id = block_id block, nb_note = note_id n, nb_name = block_name block, nb_body = block_body block,
          nb_position = position, nb_created = created_at, nb_updated = updated_at\<rparr>)
       (each (\<lambda>(k, f). insert_row field_table field_allowed
          \<lparr>nf_block = block_id block, nf_name = field_name f, nf_value = field_value f, nf_position = k\<rparr>)
         (enumerate 0 (block_fields block))))"

definition drop_blocks :: "pystr \<Rightarrow> app_db \<Rightarrow> app_db" where
  "drop_blocks i s = (let gone = nb_id ` set (filter (\<lambda>b. nb_note b = i) (t_blocks s))
     in s\<lparr>t_blocks := filter (\<lambda>b. nb_note b \<noteq> i) (t_blocks s), t_fields := filter (\<lambda>f. nf_block f \<notin> gone) (t_fields s)\<rparr>)"

definition write_content_blocks :: "note_entity \<Rightarrow> pystr \<Rightarrow> pystr \<Rightarrow> unit app" where
  "write_content_blocks n created_at updated_at =
     seq (writes (drop_blocks (note_id n)))
       (each (write_block n created_at updated_at) (enumerate 0 (content_blocks n)))"

definition fts_text :: "note_entity \<Rightarrow> pystr" where
  "fts_text n = py_join [10] (category_path n @ [note_body n]
     @ concat (map (\<lambda>b. [block_name b, block_body b] @ concat (map (\<lambda>f. [field_name f, field_value f]) (block_fields b)))
         (content_blocks n)))"

definition write_fts :: "note_entity \<Rightarrow> unit app" where
  "write_fts n = writes (t_fts_update (\<lambda>rs. filter (\<lambda>r. ft_note r \<noteq> note_id n) rs
     @ [\<lparr>ft_note = note_id n, ft_owner = note_owner n, ft_title = note_title n, ft_body = fts_text n\<rparr>]))"

text \<open>What create and update write beside the row of the note.\<close>

definition write_parts :: "note_entity \<Rightarrow> pystr \<Rightarrow> pystr \<Rightarrow> unit app" where
  "write_parts n created_at updated_at =
     seq (write_tags n) (seq (write_attachments n) (seq (write_content_blocks n created_at updated_at) (write_fts n)))"

text \<open>\<^verbatim>\<open>note.created_at or note.updated_at\<close>.\<close>

definition first_time :: "datetime option \<Rightarrow> datetime option \<Rightarrow> datetime res" where
  "first_time a b = (case a of Some t \<Rightarrow> Inr t | None \<Rightarrow> (case b of Some t \<Rightarrow> Inr t | None \<Rightarrow> Inl AssertionErr))"

definition note_path :: "app_env \<Rightarrow> note_entity \<Rightarrow> pystr option app" where
  "note_path env n =
     bind (of_res (first_time (note_created_at n) (note_updated_at n))) (\<lambda>t.
     bind (of_res (dump_time (a_tz env) t)) (\<lambda>created_at.
     bind (ensure_category_path env (note_owner n) created_at None (category_path n)) (\<lambda>p.
       seq (check (p = None) AssertionErr) (ret p))))"

definition sorted_tags :: "note_entity \<Rightarrow> pystr list" where
  "sorted_tags n = sort (remdups (note_tags n))"

definition note_create :: "app_env \<Rightarrow> note_entity \<Rightarrow> authorized_action \<Rightarrow> note_entity app" where
  "note_create env n a =
     seq (of_res (require_authorization a CREATE (lit ''note'') (note_id n) (note_owner n) (note_classification n)))
    (bind (of_res (new_note (n\<lparr>note_tags := sorted_tags n, note_version := 1, note_created_at := Some (authorized_at a),
        note_updated_at := Some (authorized_at a)\<rparr>))) (\<lambda>stored.
     seq (raise_conflict (app_transaction
        (bind (note_path env stored) (\<lambda>category.
         bind (of_res (dump_time (a_tz env) (authorized_at a))) (\<lambda>now_text.
         seq (insert_row note_table note_allowed
           \<lparr>no_id = note_id stored, no_owner = note_owner stored, no_creator = note_creator stored,
            no_title = note_title stored, no_body = note_body stored,
            no_class = classification_value (note_classification stored), no_version = note_version stored,
            no_created = now_text, no_updated = now_text, no_category = category\<rparr>)
        (seq (write_parts stored now_text now_text)
          (audit env a completed [])))))))
       (ret stored)))"

definition set_note_columns :: "pystr \<Rightarrow> pystr option \<Rightarrow> note_entity \<Rightarrow> note_row \<Rightarrow> note_row" where
  "set_note_columns now_text category n r = r\<lparr>no_title := note_title n, no_body := note_body n,
     no_class := classification_value (note_classification n), no_version := note_version n, no_updated := now_text,
     no_category := category\<rparr>"

definition note_update :: "app_env \<Rightarrow> note_entity \<Rightarrow> int \<Rightarrow> authorized_action \<Rightarrow> note_entity app" where
  "note_update env n expected_version a =
     seq (of_res (require_authorization a UPDATE (lit ''note'') (note_id n) (note_owner n) (note_classification n)))
    (seq (check (note_version n \<noteq> expected_version + 1) ValidationError)
    (bind (of_res (new_note (n\<lparr>note_tags := sorted_tags n, note_updated_at := Some (authorized_at a)\<rparr>))) (\<lambda>stored.
     seq (app_transaction
        (bind (note_path env stored) (\<lambda>category.
         bind (of_res (dump_time (a_tz env) (authorized_at a))) (\<lambda>now_text.
         bind (change_rows note_table note_checks
            (\<lambda>r. no_id r = note_id stored \<and> no_owner r = note_owner stored \<and> no_version r = expected_version)
            (set_note_columns now_text category stored)) (\<lambda>changed.
         seq (check (changed \<noteq> 1) ConcurrencyConflict)
        (bind (of_res (and_then (first_time (note_created_at stored) (note_updated_at stored)) (dump_time (a_tz env))))
          (\<lambda>created_at.
         seq (write_parts stored created_at now_text)
           (audit env a completed []))))))))
       (ret stored))))"

text \<open>The deletion of a note takes its attachments, blocks and fields with it; its tag links stay.\<close>

definition note_delete :: "app_env \<Rightarrow> pystr \<Rightarrow> authorized_action \<Rightarrow> unit app" where
  "note_delete env i a =
     seq (of_res (require_authorization a DELETE (lit ''note'') i (resource_owner (auth_resource a))
        (resource_classification (auth_resource a))))
    (app_transaction
       (bind (remove_rows note_table (\<lambda>r. no_id r = i \<and> no_owner r = resource_owner (auth_resource a))) (\<lambda>changed.
        seq (writes (\<lambda>s. if changed = 0 then s else drop_blocks i (t_attachments_update (filter (\<lambda>r. nt_note r \<noteq> i)) s)))
       (seq (check (changed \<noteq> 1) NotFoundError)
       (seq (writes (t_fts_update (filter (\<lambda>r. ft_note r \<noteq> i))))
         (audit env a completed []))))))"

section \<open>Search\<close>

text \<open>\<^verbatim>\<open>re.findall(r"\w+", query)\<close>.\<close>

function words :: "(nat \<Rightarrow> bool) \<Rightarrow> pystr \<Rightarrow> pystr list" where
  "words w s = (case dropWhile (\<lambda>c. \<not> w c) s of [] \<Rightarrow> []
     | c # cs \<Rightarrow> (c # takeWhile w cs) # words w (dropWhile w cs))"
  by pat_completeness auto

termination
proof (relation "measure (\<lambda>(w, s). length s)")
  fix w :: "nat \<Rightarrow> bool" and s c cs
  assume "dropWhile (\<lambda>c. \<not> w c) s = c # cs"
  then have "length (c # cs) \<le> length s" by (metis length_dropWhile_le)
  then show "((w, dropWhile w cs), (w, s)) \<in> measure (\<lambda>(w, s). length s)"
    using length_dropWhile_le[of w cs] by simp
qed simp

declare words.simps [simp del]

definition match_expression :: "(nat \<Rightarrow> bool) \<Rightarrow> pystr \<Rightarrow> pystr" where
  "match_expression w query = py_join (lit '' AND '')
     (map (\<lambda>t. [34] @ concat (map (\<lambda>c. if c = 34 then [34, 34] else [c]) t) @ [34] @ lit ''*'') (words w query))"

definition note_search :: "app_env \<Rightarrow> pystr \<Rightarrow> pystr \<Rightarrow> int \<Rightarrow> note_entity list app" where
  "note_search env owner query limit =
     seq (check (\<not> (1 \<le> limit \<and> limit \<le> 100)) ValidationError)
       (if words (a_word env) query = [] then ret []
        else bind (reads (\<lambda>s. map_res (note_from_row s) (concat (map (\<lambda>m.
            case find (\<lambda>r. no_id r = ft_note m \<and> no_owner r = owner) (t_notes s) of None \<Rightarrow> [] | Some r \<Rightarrow> [r])
          (take (nat limit) (filter (\<lambda>m. ft_owner m = owner) (a_fts env (match_expression (a_word env) query) (t_fts s)))))))) of_res)"

section \<open>The category tree\<close>

text \<open>Ids are unique, and a parent was inserted before its children.\<close>

definition categories_wf :: "category_row list \<Rightarrow> bool" where
  "categories_wf rs \<longleftrightarrow> unique_key nc_id rs
     \<and> (\<forall>j < length rs. nc_id (rs ! j) \<noteq> [] \<and> (\<forall>p. nc_parent (rs ! j) = Some p \<longrightarrow> p \<in> nc_id ` set (take j rs)))"

definition path_names :: "category_row list \<Rightarrow> pystr option \<Rightarrow> pystr list" where
  "path_names rs p = category_names (length rs) rs p"

lemma category_names_None [simp]: "category_names n rs None = []"
  by (cases n) simp_all

lemma find_row_nth: "unique_key key rs \<Longrightarrow> j < length rs \<Longrightarrow> find_row key (key (rs ! j)) rs = Some (rs ! j)"
  by (simp add: find_row_Some_iff)

lemma enough_fuel:
  assumes "categories_wf rs" "j < length rs" "j < n" "j < m"
  shows "category_names n rs (Some (nc_id (rs ! j))) = category_names m rs (Some (nc_id (rs ! j)))"
  using assms(2-)
proof (induction j arbitrary: n m rule: less_induct)
  case (less j)
  obtain n' m' where nm: "n = Suc n'" "m = Suc m'" using less.prems(2,3) by (cases n; cases m) auto
  have u: "unique_key nc_id rs" using assms(1) by (simp add: categories_wf_def)
  have "category_names n' rs (nc_parent (rs ! j)) = category_names m' rs (nc_parent (rs ! j))"
  proof (cases "nc_parent (rs ! j)")
    case (Some p)
    then have "p \<in> nc_id ` set (take j rs)" using assms(1) less.prems(1) by (auto simp: categories_wf_def)
    then obtain k where k: "k < j" "p = nc_id (rs ! k)" by (auto simp: in_set_conv_nth)
    with less.IH[of k n' m'] less.prems nm Some show ?thesis by simp
  qed simp
  then show ?case by (simp add: nm find_row_nth[OF u less.prems(1)])
qed

lemma path_names_step:
  assumes "categories_wf rs" "r \<in> set rs"
  shows "path_names rs (Some (nc_id r)) = path_names rs (nc_parent r) @ [nc_name r]"
proof -
  obtain j where j: "j < length rs" "r = rs ! j" using assms(2) by (auto simp: in_set_conv_nth)
  obtain n where n: "length rs = Suc n" using j(1) by (cases "length rs") auto
  have u: "unique_key nc_id rs" using assms(1) by (simp add: categories_wf_def)
  have "category_names n rs (nc_parent r) = category_names (length rs) rs (nc_parent r)"
  proof (cases "nc_parent r")
    case (Some p)
    then have "p \<in> nc_id ` set (take j rs)" using assms(1) j by (auto simp: categories_wf_def)
    then obtain k where k: "k < j" "p = nc_id (rs ! k)" using j(1) by (auto simp: in_set_conv_nth)
    with enough_fuel[OF assms(1), of k n "length rs"] j(1) n Some show ?thesis by simp
  qed simp
  then show ?thesis using j by (simp add: path_names_def n find_row_nth[OF u j(1)])
qed

lemma categories_wf_append:
  assumes "categories_wf rs" "nc_id r \<notin> nc_id ` set rs" "nc_id r \<noteq> []" "\<And>p. nc_parent r = Some p \<Longrightarrow> p \<in> nc_id ` set rs"
  shows "categories_wf (rs @ [r])"
  unfolding categories_wf_def
proof (intro conjI allI impI)
  show "unique_key nc_id (rs @ [r])" using assms(1,2) by (auto simp: categories_wf_def unique_key_def)
  fix j assume j: "j < length (rs @ [r])"
  show "nc_id ((rs @ [r]) ! j) \<noteq> []" using assms(1,3) j by (auto simp: categories_wf_def nth_append less_Suc_eq)
  fix p assume "nc_parent ((rs @ [r]) ! j) = Some p"
  then show "p \<in> nc_id ` set (take j (rs @ [r]))"
    using assms(1,4) j by (auto simp: categories_wf_def nth_append less_Suc_eq split: if_splits)
qed

lemma category_names_append:
  assumes "categories_wf rs" "\<And>i. p = Some i \<Longrightarrow> i \<in> nc_id ` set rs"
  shows "category_names n (rs @ [r]) p = category_names n rs p"
  using assms(2)
proof (induction n arbitrary: p)
  case 0
  then show ?case by simp
next
  case (Suc n)
  show ?case
  proof (cases p)
    case (Some i)
    then obtain x where x: "find_row nc_id i rs = Some x" "x \<in> set rs"
      using Suc.prems find_row_None_iff[of nc_id i rs] find_row_SomeD by (cases "find_row nc_id i rs") fastforce+
    have "q \<in> nc_id ` set rs" if "nc_parent x = Some q" for q
    proof -
      obtain j where "j < length rs" "x = rs ! j" using x(2) by (auto simp: in_set_conv_nth)
      then have "q \<in> nc_id ` set (take j rs)" using assms(1) that by (simp add: categories_wf_def)
      then show ?thesis using set_take_subset[of j rs] by blast
    qed
    then have "category_names n (rs @ [r]) (nc_parent x) = category_names n rs (nc_parent x)" by (rule Suc.IH)
    then show ?thesis using x Some by (simp add: find_row_append)
  qed simp
qed

lemma path_names_append:
  assumes "categories_wf rs" "\<And>i. p = Some i \<Longrightarrow> i \<in> nc_id ` set rs"
  shows "path_names (rs @ [r]) p = path_names rs p"
proof (cases p)
  case (Some i)
  then obtain j where j: "j < length rs" "i = nc_id (rs ! j)" using assms(2) by (auto simp: in_set_conv_nth)
  have "category_names (Suc (length rs)) rs (Some i) = category_names (length rs) rs (Some i)"
    unfolding j(2) by (rule enough_fuel) (use assms(1) j in auto)
  then show ?thesis using category_names_append[OF assms, of p "Suc (length rs)"] Some by (simp add: path_names_def del: category_names.simps)
qed (simp add: path_names_def)

text \<open>What making sure of a category path leaves: the tree has grown, and the returned category lies at the path.\<close>

definition grown_tree :: "app_db \<Rightarrow> app_db \<Rightarrow> bool" where
  "grown_tree s t \<longleftrightarrow> (\<exists>xs. t = s\<lparr>t_categories := t_categories s @ xs\<rparr>)"

lemma ensure_category_path_Inr:
  assumes "ensure_category_path env owner c parent ns s = (t, Inr cat)" "categories_wf (t_categories s)"
    and "\<And>p. parent = Some p \<Longrightarrow> p \<in> nc_id ` set (t_categories s)"
  shows "grown_tree s t \<and> categories_wf (t_categories t) \<and> (\<forall>i. cat = Some i \<longrightarrow> i \<in> nc_id ` set (t_categories t))
    \<and> (ns \<noteq> [] \<longrightarrow> cat \<noteq> None)
    \<and> path_names (t_categories t) cat = path_names (t_categories s) parent @ map py_strip ns"
  using assms
proof (induction env owner c parent ns arbitrary: s rule: ensure_category_path.induct)
  case (1 env owner c parent)
  then show ?case by (auto simp: op_run grown_tree_def intro!: exI[of _ "[]"])
next
  case (2 env owner c parent x ns)
  let ?name = "py_strip x" and ?rs = "t_categories s"
  let ?r = "\<lparr>nc_id = category_key env owner parent ?name, nc_owner = owner, nc_parent = parent, nc_name = ?name, nc_created = c\<rparr>"
  let ?here = "\<lambda>r. nc_owner r = owner \<and> nc_parent r = parent \<and> nc_name r = ?name"
  obtain u r where u: "insert_or_ignore category_table
       (\<lambda>s r. nc_id r \<in> nc_id ` set (t_categories s) \<or> list_ex ?here (t_categories s) \<or> \<not> trimmed (nc_name r))
       (\<lambda>s r. user_exists s (nc_owner r) \<and> category_or_null s (nc_parent r)) ?r s = (u, Inr ())"
    and r: "find ?here (t_categories u) = Some r"
    and rest: "ensure_category_path env owner c (Some (nc_id r)) ns u = (t, Inr cat)"
    using 2(2) by (auto simp: Let_def seq_Inr bind_Inr op_run fetch_one_def category_table_def split: option.splits)
  have tree: "u = s \<or> u = s\<lparr>t_categories := ?rs @ [?r]\<rparr> \<and> nc_id ?r \<notin> nc_id ` set ?rs"
    using u by (auto simp: insert_or_ignore_run category_table_def split: if_splits)
  have ne: "nc_id ?r \<noteq> []" by (simp add: category_key_def lit_def)
  have wf: "categories_wf (t_categories u)"
    using tree
  proof
    assume "u = s\<lparr>t_categories := ?rs @ [?r]\<rparr> \<and> nc_id ?r \<notin> nc_id ` set ?rs"
    with categories_wf_append[OF 2(3), of ?r] ne 2(4) show ?thesis by simp
  qed (use 2(3) in simp)
  have parent: "path_names (t_categories u) parent = path_names ?rs parent"
    using tree path_names_append[OF 2(3), of parent ?r] 2(4) by auto
  have mem: "r \<in> set (t_categories u)" "?here r" using r by (auto simp: find_Some_iff)
  have "path_names (t_categories u) (Some (nc_id r)) = path_names ?rs parent @ [?name]"
    using path_names_step[OF wf mem(1)] parent mem(2) by simp
  moreover have "grown_tree s u" using tree by (auto simp: grown_tree_def intro: exI[of _ "[]"])
  moreover have "cat \<noteq> None" if "ns = []" using rest that by (auto simp: op_run)
  moreover have "grown_tree u t" "categories_wf (t_categories t)" "\<forall>i. cat = Some i \<longrightarrow> i \<in> nc_id ` set (t_categories t)"
    "ns \<noteq> [] \<longrightarrow> cat \<noteq> None"
    "path_names (t_categories t) cat = path_names (t_categories u) (Some (nc_id r)) @ map py_strip ns"
    using 2(1)[OF refl refl rest wf] mem(1) by simp_all
  moreover have "grown_tree s t" using \<open>grown_tree s u\<close> \<open>grown_tree u t\<close> by (auto simp: grown_tree_def)
  ultimately show ?case by (cases "ns = []") simp_all
qed

section \<open>The parts of a note\<close>

definition tags_wf :: "app_db \<Rightarrow> bool" where
  "tags_wf s \<longleftrightarrow> distinct (map tg_id (t_tags s)) \<and> distinct (map (\<lambda>t. (tg_owner t, tg_name t)) (t_tags s))
     \<and> distinct (t_resource_tags s) \<and> (\<forall>r \<in> set (t_resource_tags s). rg_tag r \<in> tg_id ` set (t_tags s))"

definition blocks_wf :: "app_db \<Rightarrow> bool" where
  "blocks_wf s \<longleftrightarrow> distinct (map nb_id (t_blocks s)) \<and> (\<forall>f \<in> set (t_fields s). nf_block f \<in> nb_id ` set (t_blocks s))"

definition link :: "pystr \<Rightarrow> nat \<Rightarrow> resource_tag_row" where
  "link i k = \<lparr>rg_kind = lit ''note'', rg_resource = i, rg_tag = k\<rparr>"

definition linked :: "app_db \<Rightarrow> pystr \<Rightarrow> tag_row set" where
  "linked s i = {t \<in> set (t_tags s). link i (tg_id t) \<in> set (t_resource_tags s)}"

lemma next_tag_id_fresh: "t \<in> set (t_tags s) \<Longrightarrow> tg_id t < next_tag_id s"
proof -
  have "x \<in> set xs \<or> x \<le> m \<Longrightarrow> x \<le> fold max xs m" for x m and xs :: "nat list"
    by (induction xs arbitrary: m) (auto simp: le_max_iff_disj)
  then show "t \<in> set (t_tags s) \<Longrightarrow> tg_id t < next_tag_id s" by (simp add: next_tag_id_def less_Suc_eq_le)
qed

lemma write_tag_Inr:
  assumes "write_tag n x s = (t, Inr ())" "tags_wf s"
  shows "(\<exists>xs ys. t = s\<lparr>t_tags := t_tags s @ xs, t_resource_tags := t_resource_tags s @ ys\<rparr>) \<and> tags_wf t
    \<and> (\<exists>r \<in> set (t_tags t). tg_owner r = note_owner n \<and> tg_name r = x \<and> linked t (note_id n) = insert r (linked s (note_id n)))"
proof -
  let ?same = "\<lambda>r. tg_owner r = note_owner n \<and> tg_name r = x"
  let ?r = "\<lparr>tg_id = next_tag_id s, tg_owner = note_owner n, tg_name = x\<rparr>"
  obtain u r where u: "insert_or_ignore tag_table (\<lambda>s r. (tg_owner r, tg_name r) \<in> (\<lambda>q. (tg_owner q, tg_name q)) ` set (t_tags s))
            (\<lambda>s r. user_exists s (tg_owner r)) ?r s = (u, Inr ())"
    and r: "find ?same (t_tags u) = Some r" and ins: "insert_row resource_tag_table resource_tag_allowed (link (note_id n) (tg_id r)) u = (t, Inr ())"
    using assms(1) unfolding write_tag_def bind_Inr seq_Inr
    by (auto simp: op_run fetch_one_def tag_table_def link_def split: option.splits)
  have rm: "r \<in> set (t_tags u)" "?same r" using r by (auto simp: find_Some_iff)
  have u': "u = s \<or> u = s\<lparr>t_tags := t_tags s @ [?r]\<rparr> \<and> (note_owner n, x) \<notin> (\<lambda>q. (tg_owner q, tg_name q)) ` set (t_tags s)"
    using u by (auto simp: insert_or_ignore_run tag_table_def split: if_splits)
  have t: "t = u\<lparr>t_resource_tags := t_resource_tags u @ [link (note_id n) (tg_id r)]\<rparr>" "link (note_id n) (tg_id r) \<notin> set (t_resource_tags u)"
    using ins by (auto simp: insert_row_def resource_tag_allowed_def resource_tag_table_def split: if_splits)
  have wf: "tags_wf u" and same: "linked u (note_id n) = linked s (note_id n)" "t_resource_tags u = t_resource_tags s"
    using u'
  proof (atomize (full), elim disjE conjE)
    assume "u = s" then show "tags_wf u \<and> linked u (note_id n) = linked s (note_id n) \<and> t_resource_tags u = t_resource_tags s"
      using assms(2) by simp
  next
    assume n: "u = s\<lparr>t_tags := t_tags s @ [?r]\<rparr>" "(note_owner n, x) \<notin> (\<lambda>q. (tg_owner q, tg_name q)) ` set (t_tags s)"
    have f: "next_tag_id s \<notin> tg_id ` set (t_tags s)" using next_tag_id_fresh[of _ s] by fastforce
    then have "link (note_id n) (next_tag_id s) \<notin> set (t_resource_tags s)" using assms(2) by (auto simp: tags_wf_def link_def)
    then show "tags_wf u \<and> linked u (note_id n) = linked s (note_id n) \<and> t_resource_tags u = t_resource_tags s"
      using assms(2) n f by (auto simp: tags_wf_def linked_def)
  qed
  have "linked t (note_id n) = insert r (linked u (note_id n))"
    using rm(1) wf t by (auto simp: linked_def link_def tags_wf_def distinct_map dest: inj_onD)
  moreover have "tags_wf t" using wf t rm(1) by (auto simp: tags_wf_def link_def)
  moreover have "\<exists>xs ys. t = s\<lparr>t_tags := t_tags s @ xs, t_resource_tags := t_resource_tags s @ ys\<rparr>"
  proof -
    from u' show ?thesis
    proof (elim disjE conjE)
      assume "u = s"
      then have "t = s\<lparr>t_tags := t_tags s @ [], t_resource_tags := t_resource_tags s @ [link (note_id n) (tg_id r)]\<rparr>" using t(1) by simp
      then show ?thesis by blast
    next
      assume "u = s\<lparr>t_tags := t_tags s @ [?r]\<rparr>"
      then have "t = s\<lparr>t_tags := t_tags s @ [?r], t_resource_tags := t_resource_tags s @ [link (note_id n) (tg_id r)]\<rparr>" using t(1) by simp
      then show ?thesis by blast
    qed
  qed
  moreover have "r \<in> set (t_tags t)" using rm(1) t(1) by simp
  ultimately show ?thesis using rm(2) unfolding same(1) by blast
qed

lemma each_write_tag_Inr:
  assumes "each (write_tag n) xs s = (t, Inr ())" "tags_wf s"
  shows "(\<exists>as bs. t = s\<lparr>t_tags := t_tags s @ as, t_resource_tags := t_resource_tags s @ bs\<rparr>) \<and> tags_wf t
    \<and> tg_name ` linked t (note_id n) = tg_name ` linked s (note_id n) \<union> set xs
    \<and> ((\<forall>r \<in> linked s (note_id n). tg_owner r = note_owner n) \<longrightarrow> (\<forall>r \<in> linked t (note_id n). tg_owner r = note_owner n))"
  using assms
proof (induction xs arbitrary: s)
  case Nil
  then have ts: "t = s" by (simp add: op_run)
  have same: "\<exists>as bs. s = s\<lparr>t_tags := t_tags s @ as, t_resource_tags := t_resource_tags s @ bs\<rparr>" by (rule exI[of _ "[]"])+ simp
  show ?case unfolding ts by (intro conjI, rule same, rule Nil(2), simp, rule impI, assumption)
next
  case (Cons x xs)
  obtain u where u: "write_tag n x s = (u, Inr ())" "each (write_tag n) xs u = (t, Inr ())" using Cons.prems(1) by (auto simp: seq_Inr)
  from write_tag_Inr[OF u(1) Cons.prems(2)] obtain as bs r where
    1: "u = s\<lparr>t_tags := t_tags s @ as, t_resource_tags := t_resource_tags s @ bs\<rparr>" "tags_wf u"
       "tg_owner r = note_owner n" "tg_name r = x" "linked u (note_id n) = insert r (linked s (note_id n))" by blast
  from Cons.IH[OF u(2) 1(2)] obtain as' bs' where
    2: "t = u\<lparr>t_tags := t_tags u @ as', t_resource_tags := t_resource_tags u @ bs'\<rparr>" "tags_wf t"
       "tg_name ` linked t (note_id n) = tg_name ` linked u (note_id n) \<union> set xs"
       "(\<forall>r \<in> linked u (note_id n). tg_owner r = note_owner n) \<longrightarrow> (\<forall>r \<in> linked t (note_id n). tg_owner r = note_owner n)" by blast
  have "t = s\<lparr>t_tags := t_tags s @ (as @ as'), t_resource_tags := t_resource_tags s @ (bs @ bs')\<rparr>" using 1(1) 2(1) by simp
  then have "\<exists>as bs. t = s\<lparr>t_tags := t_tags s @ as, t_resource_tags := t_resource_tags s @ bs\<rparr>" by blast
  moreover have "tg_name ` linked t (note_id n) = tg_name ` linked s (note_id n) \<union> set (x # xs)"
    unfolding 2(3) 1(5) using 1(4) by auto
  moreover have "\<forall>r \<in> linked t (note_id n). tg_owner r = note_owner n" if "\<forall>r \<in> linked s (note_id n). tg_owner r = note_owner n"
    using 2(4) that 1(3) unfolding 1(5) by simp
  ultimately show ?case using 2(2) by blast
qed

lemma read_tags_linked:
  assumes "tags_wf s" "\<forall>r \<in> linked s i. tg_owner r = owner"
  shows "read_tags s i = sorted_list_of_set (tg_name ` linked s i)"
proof -
  have one: "filter (\<lambda>r. rg_kind r = lit ''note'' \<and> rg_resource r = i \<and> rg_tag r = k) rs = (if link i k \<in> set rs then [link i k] else [])"
    if "distinct rs" for k rs
    using that
  proof (induction rs)
    case (Cons r rs)
    have "rg_kind r = lit ''note'' \<and> rg_resource r = i \<and> rg_tag r = k \<longleftrightarrow> r = link i k" by (cases r) (auto simp: link_def)
    with Cons show ?case by auto
  qed simp
  have flat: "concat (map (\<lambda>t. map (\<lambda>_. tg_name t) (filter (\<lambda>r. rg_kind r = lit ''note'' \<and> rg_resource r = i \<and> rg_tag r = tg_id t)
      (t_resource_tags s))) ts) = map tg_name (filter (\<lambda>t. link i (tg_id t) \<in> set (t_resource_tags s)) ts)" for ts
    using one assms(1) by (induction ts) (auto simp: tags_wf_def)
  have set: "set (filter (\<lambda>t. link i (tg_id t) \<in> set (t_resource_tags s)) (t_tags s)) = linked s i" by (auto simp: linked_def)
  have "inj_on tg_name (linked s i)"
  proof (rule inj_onI)
    fix a b assume ab: "a \<in> linked s i" "b \<in> linked s i" "tg_name a = tg_name b"
    then have "(tg_owner a, tg_name a) = (tg_owner b, tg_name b)" using assms(2) by simp
    moreover have "inj_on (\<lambda>t. (tg_owner t, tg_name t)) (set (t_tags s))" using assms(1) by (simp add: tags_wf_def distinct_map)
    ultimately show "a = b" using ab by (auto simp: linked_def dest: inj_onD)
  qed
  moreover have "distinct (t_tags s)" using assms(1) by (simp add: tags_wf_def distinct_map)
  ultimately have "distinct (map tg_name (filter (\<lambda>t. link i (tg_id t) \<in> set (t_resource_tags s)) (t_tags s)))"
    by (simp add: distinct_map linked_def)
  then have "sort (map tg_name (filter (\<lambda>t. link i (tg_id t) \<in> set (t_resource_tags s)) (t_tags s)))
      = sorted_list_of_set (tg_name ` linked s i)"
    by (metis distinct_remdups_id set set_map sorted_list_of_set_sort_remdups)
  then show ?thesis by (simp add: read_tags_def flat)
qed

lemma write_tags_Inr:
  assumes "write_tags n s = (t, Inr ())" "tags_wf s"
  shows "(\<exists>ts rs. t = s\<lparr>t_tags := ts, t_resource_tags := rs\<rparr>) \<and> tags_wf t \<and> read_tags t (note_id n) = sorted_tags n"
proof -
  let ?u = "s\<lparr>t_resource_tags := filter (\<lambda>r. \<not> (rg_kind r = lit ''note'' \<and> rg_resource r = note_id n)) (t_resource_tags s)\<rparr>"
  have e: "each (write_tag n) (note_tags n) ?u = (t, Inr ())"
    using assms(1) by (cases s) (simp add: write_tags_def bind_def remove_rows_def resource_tag_table_def)
  have wf: "tags_wf ?u" using assms(2) by (auto simp: tags_wf_def)
  have none: "linked ?u (note_id n) = {}" by (auto simp: linked_def link_def)
  from each_write_tag_Inr[OF e wf] obtain as bs where
    1: "t = ?u\<lparr>t_tags := t_tags ?u @ as, t_resource_tags := t_resource_tags ?u @ bs\<rparr>" "tags_wf t"
    "tg_name ` linked t (note_id n) = set (note_tags n)" "\<forall>r \<in> linked t (note_id n). tg_owner r = note_owner n"
    using none by auto
  have "t = s\<lparr>t_tags := t_tags ?u @ as, t_resource_tags := t_resource_tags ?u @ bs\<rparr>" using 1(1) by simp
  moreover have "read_tags t (note_id n) = sorted_tags n"
    using read_tags_linked[OF 1(2,4)] 1(3) by (simp add: sorted_tags_def sorted_list_of_set_sort_remdups)
  ultimately show ?thesis using 1(2) by blast
qed

end
