(* ===== verification/Commands.thy ===== *)
theory Commands
  imports ServiceContext AgendaStore BriefingStore NoteStore
begin

text \<open>
  The typed commands and queries of \<^verbatim>\<open>src/zhixu/application/commands.py\<close> and
  \<^verbatim>\<open>src/zhixu/application/queries.py\<close>, one record per dataclass. A field that a caller leaves out
  arrives with its default.
\<close>

section \<open>Tasks\<close>

record create_task_command =
  ctk_title :: pystr
  ctk_description :: pystr
  ctk_priority :: int
  ctk_due_at :: "datetime option"
  ctk_classification :: data_classification
  ctk_private :: bool

record update_task_command =
  utk_task_id :: pystr
  utk_expected_version :: int
  utk_title :: pystr
  utk_description :: pystr
  utk_priority :: int
  utk_due_at :: "datetime option"
  utk_classification :: data_classification

record delete_task_command =
  dtk_task_id :: pystr

record transition_task_command =
  ttk_task_id :: pystr
  ttk_expected_version :: int
  ttk_status :: task_status

record postpone_task_command =
  ptk_task_id :: pystr
  ptk_expected_version :: int
  ptk_due_at :: datetime

record list_tasks_query =
  include_archived :: bool

section \<open>Reminders\<close>

record create_reminder_command =
  crm_title :: pystr
  crm_fire_at :: datetime
  crm_target_ref :: pystr
  crm_action_links :: "action_link list"
  crm_missed_policy :: missed_reminder_policy
  crm_classification :: data_classification
  crm_related_kind :: "pystr option"
  crm_related_id :: "pystr option"
  crm_related_start_at :: "datetime option"
  crm_private :: bool

record cancel_reminder_command =
  xrm_reminder_id :: pystr

record acknowledge_reminder_command =
  arm_reminder_id :: pystr

record snooze_reminder_command =
  srm_reminder_id :: pystr
  srm_fire_at :: datetime

record list_reminders_query =
  include_inactive :: bool

section \<open>Agenda\<close>

record create_agenda_command =
  cag_title :: pystr
  cag_start_at :: datetime
  cag_end_at :: datetime
  cag_timezone :: pystr
  cag_description :: pystr
  cag_action_links :: "action_link list"
  cag_all_day :: bool
  cag_recurrence_rule :: "pystr option"
  cag_classification :: data_classification
  cag_private :: bool

record update_agenda_command =
  uag_item_id :: pystr
  uag_expected_version :: int
  uag_title :: pystr
  uag_start_at :: datetime
  uag_end_at :: datetime
  uag_timezone :: pystr
  uag_description :: pystr
  uag_action_links :: "action_link list"
  uag_all_day :: bool
  uag_recurrence_rule :: "pystr option"
  uag_classification :: data_classification

record delete_agenda_command =
  dag_item_id :: pystr

record set_agenda_exception_command =
  sae_item_id :: pystr
  sae_occurrence_at :: datetime
  sae_action :: exception_action
  sae_replacement_start :: "datetime option"
  sae_replacement_end :: "datetime option"

record create_agenda_notification_command =
  can_agenda_item_id :: pystr
  can_time_of_day :: pytime
  can_day_offset :: int
  can_text :: pystr
  can_timezone :: pystr
  can_target_ref :: pystr
  can_action_links :: "action_link list"
  can_classification :: data_classification

record update_agenda_notification_command =
  uan_rule_id :: pystr
  uan_text :: "pystr option"
  uan_time_of_day :: "pytime option"
  uan_day_offset :: "int option"
  uan_target_ref :: "pystr option"
  uan_timezone :: "pystr option"
  uan_enabled :: "bool option"
  uan_classification :: "data_classification option"

record delete_agenda_notification_command =
  dan_rule_id :: pystr

record set_notification_leads_command =
  snl_lead_minutes :: "int list"
  snl_agenda_item_id :: "pystr option"

record agenda_between_query =
  abq_window_start :: datetime
  abq_window_end :: datetime

section \<open>Important days and daily briefings\<close>

record create_anniversary_command =
  cay_title :: pystr
  cay_anchor_date :: date
  cay_timezone :: pystr
  cay_kind :: important_day_kind
  cay_calendar :: calendar_system
  cay_lunar_month :: "int option"
  cay_lunar_day :: "int option"
  cay_lunar_leap :: bool
  cay_advance_days :: "int list option"
  cay_classification :: data_classification
  cay_private :: bool
  cay_allow_duplicate :: bool

record update_anniversary_command =
  uay_anniversary_id :: pystr
  uay_title :: "pystr option"
  uay_anchor_date :: "date option"
  uay_kind :: "important_day_kind option"
  uay_calendar :: "calendar_system option"
  uay_lunar_month :: "int option"
  uay_lunar_day :: "int option"
  uay_lunar_leap :: "bool option"
  uay_advance_days :: "int list option"
  uay_timezone :: "pystr option"
  uay_classification :: "data_classification option"

record delete_anniversary_command =
  day_anniversary_id :: pystr

record create_daily_briefing_command =
  cdb_time_of_day :: pytime
  cdb_timezone :: pystr
  cdb_target_ref :: pystr
  cdb_classification :: data_classification
  cdb_private :: bool

record update_daily_briefing_command =
  udb_briefing_id :: pystr
  udb_time_of_day :: "pytime option"
  udb_target_ref :: "pystr option"
  udb_timezone :: "pystr option"
  udb_enabled :: "bool option"
  udb_classification :: "data_classification option"

record delete_daily_briefing_command =
  ddb_briefing_id :: pystr

section \<open>Notes\<close>

record create_note_command =
  cno_title :: pystr
  cno_body :: pystr
  cno_category_path :: "pystr list"
  cno_content_blocks :: "note_content_block list"
  cno_tags :: "pystr list"
  cno_attachments :: "note_attachment list"
  cno_classification :: data_classification
  cno_private :: bool

record update_note_command =
  uno_note_id :: pystr
  uno_expected_version :: int
  uno_title :: pystr
  uno_body :: pystr
  uno_tags :: "pystr list"
  uno_attachments :: "note_attachment list"
  uno_classification :: data_classification

record delete_note_command =
  dno_note_id :: pystr

record add_note_content_block_command =
  abk_note_id :: pystr
  abk_name :: pystr
  abk_body :: pystr
  abk_fields :: "note_field list"

record move_note_category_command =
  mvc_note_id :: pystr
  mvc_category_path :: "pystr list"

record search_notes_query =
  sno_text :: pystr
  sno_limit :: int

section \<open>Fields left as they are\<close>

text \<open>
  \<^verbatim>\<open>x or y\<close> for an optional text, where the empty text is false, and \<^verbatim>\<open>x if x is not None else y\<close>.
  A date, a time and an enum member are always true, so \<^verbatim>\<open>or\<close> on them is the second form.
\<close>

definition text_or :: "pystr option \<Rightarrow> pystr \<Rightarrow> pystr" where
  "text_or x y = (case x of None \<Rightarrow> y | Some v \<Rightarrow> if v = [] then y else v)"

definition given_or :: "'a option \<Rightarrow> 'a \<Rightarrow> 'a" where
  "given_or x y = (case x of None \<Rightarrow> y | Some v \<Rightarrow> v)"

text \<open>The row a command names, or NotFoundError.\<close>

definition require_found :: "'a option app \<Rightarrow> 'a app" where
  "require_found m = bind m (\<lambda>found. case found of None \<Rightarrow> throw NotFoundError | Some x \<Rightarrow> ret x)"

lemma require_found_Inr: "require_found m s = (t, Inr x) \<longleftrightarrow> m s = (t, Inr (Some x))"
  by (auto simp: require_found_def bind_Inr op_run split: option.splits)

section \<open>Reading several owners\<close>

text \<open>\<^verbatim>\<open>for owner in owners: require \<dots>; items.extend(\<dots>)\<close> and \<^verbatim>\<open>for item in items: require \<dots>\<close>.\<close>

fun gather :: "('a \<Rightarrow> 'b list app) \<Rightarrow> 'a list \<Rightarrow> 'b list app" where
  "gather f [] = ret []"
| "gather f (x # xs) = bind (f x) (\<lambda>ys. bind (gather f xs) (\<lambda>zs. ret (ys @ zs)))"

definition require_read :: "command_context \<Rightarrow> pystr \<Rightarrow> pystr \<Rightarrow> pystr \<Rightarrow> data_classification \<Rightarrow> unit app" where
  "require_read ctx k i owner c = bind (require_access ctx READ k i owner c) (\<lambda>_. ret ())"

lemma map_res_in: "map_res f xs = Inr ys \<Longrightarrow> x \<in> set xs \<Longrightarrow> \<exists>y \<in> set ys. f x = Inr y"
  by (induction xs arbitrary: ys) (auto split: sum.splits)

lemma find_row_unique: "unique_key key rs \<Longrightarrow> r \<in> set rs \<Longrightarrow> find_row key (key r) rs = Some r"
proof -
  assume u: "unique_key key rs" and r: "r \<in> set rs"
  obtain r' where r': "find_row key (key r) rs = Some r'" using r find_row_None_iff[of key "key r" rs] by (cases "find_row key (key r) rs") auto
  then show ?thesis using unique_key_eq[OF u _ r] find_row_SomeD[OF r'] by auto
qed

text \<open>What gathering and checking leave: the store as it was, every part's result, every check passed.\<close>

lemma gather_Inr:
  assumes "gather f xs s = (w, Inr zs)" "\<And>x. fst (f x s) = s"
  shows "w = s \<and> (\<forall>z. z \<in> set zs \<longleftrightarrow> (\<exists>x \<in> set xs. \<exists>ys. f x s = (s, Inr ys) \<and> z \<in> set ys))
    \<and> (\<forall>x \<in> set xs. \<exists>ys. f x s = (s, Inr ys))"
  using assms(1)
proof (induction xs arbitrary: zs)
  case Nil
  then show ?case by (simp add: op_run)
next
  case (Cons x xs)
  then obtain ys rest u where f: "f x s = (s, Inr ys)" and g: "gather f xs s = (w, Inr rest)" and zs: "zs = ys @ rest"
    using assms(2)[of x] by (auto simp: bind_Inr op_run)
  then show ?case using Cons.IH[OF g] by auto
qed

lemma each_Inr:
  assumes "each f xs s = (w, Inr ())" "\<And>x. fst (f x s) = s"
  shows "w = s \<and> (\<forall>x \<in> set xs. f x s = (s, Inr ()))"
  using assms(1)
proof (induction xs)
  case Nil
  then show ?case by (simp add: op_run)
next
  case (Cons x xs)
  then have "f x s = (s, Inr ())" "each f xs s = (w, Inr ())" using assms(2)[of x] by (auto simp: seq_Inr)
  then show ?case using Cons.IH by auto
qed

lemma require_read_state: "fst (require_read ctx k i owner c s) = s"
  using require_access_state[of ctx READ k i owner c s] by (auto simp: require_read_def bind_def op_run split: prod.split sum.split)

lemma require_read_Inr:
  "require_read ctx k i owner c s = (w, Inr u) \<Longrightarrow> w = s \<and>
     (\<exists>a. policy_require (has_grant s) ctx READ (mk_resource k i owner c) = Inr a)"
  unfolding require_read_def bind_Inr using require_access_Inr(8) by (fastforce simp: op_run dest: require_access_Inr(1))

text \<open>The context of a concrete request, by u over a chat channel.\<close>

definition owner_ctx :: command_context where
  "owner_ctx = \<lparr>actor_user_id = lit ''u'', roles = {}, shared_owner_user_id = None, readable_shared_owner_user_ids = [],
     authentication = AUTH_CHANNEL, request_channel = PRIVATE_CHAT, confirmed = False, context_now = None\<rparr>"

lemma owner_context: "new_command_context (owner_ctx\<lparr>context_now := Some (utc 0)\<rparr>)
    = Inr (owner_ctx\<lparr>context_now := Some (utc 0)\<rparr>)"
  by (simp add: owner_ctx_def new_command_context_def guarded_def blank_def lit_def py_space_def aware_def utc_def)

end
