(* ===== verification/TaskService.thy ===== *)
theory TaskService
  imports TaskStore Commands
begin

text \<open>
  The task methods of \<^verbatim>\<open>ZhixuServices\<close> (\<^verbatim>\<open>src/zhixu/application/services.py\<close>). A change of a task reads it
  in one transaction and writes it in another; \<open>change_found\<close> is what follows the read, so that a
  theorem can let other work happen in between. \<open>now\<close> is the clock at the start of a method,
  \<open>later\<close> its second reading.
\<close>

section \<open>Methods\<close>

definition create_task :: "app_env \<Rightarrow> pystr \<Rightarrow> datetime \<Rightarrow> create_task_command \<Rightarrow> command_context \<Rightarrow> task app" where
  "create_task env i now c ctx =
     bind (scoped_context ctx now) (\<lambda>current.
     bind (of_res (new_task \<lparr>task_id = i, task_owner = create_owner current (ctk_private c), task_title = ctk_title c,
         task_creator = Some (actor_user_id current), task_status = TASK_PENDING, priority = ctk_priority c,
         due_at = ctk_due_at c, task_description = ctk_description c, task_classification = ctk_classification c,
         task_version = 1, task_created_at = None, task_updated_at = None\<rparr>)) (\<lambda>t.
     bind (require_access current CREATE (lit ''task'') (task_id t) (task_owner t) (task_classification t)) (\<lambda>a.
       task_create env t a)))"

text \<open>The three changes: the checks and the write after the task was found.\<close>

definition change_task :: "app_env \<Rightarrow> datetime \<Rightarrow> command_context \<Rightarrow> int \<Rightarrow> (task \<Rightarrow> task res)
    \<Rightarrow> (task \<Rightarrow> task \<Rightarrow> data_classification) \<Rightarrow> task \<Rightarrow> task app" where
  "change_task env now ctx expected_version change required t =
     seq (check (task_version t \<noteq> expected_version) ConcurrencyConflict)
    (bind (scoped_context ctx now) (\<lambda>current.
     bind (of_res (change t)) (\<lambda>updated.
     bind (require_access current UPDATE (lit ''task'') (task_id t) (task_owner t) (required t updated)) (\<lambda>a.
       task_update env updated expected_version a))))"

definition updated_fields :: "update_task_command \<Rightarrow> task \<Rightarrow> task res" where
  "updated_fields c t = new_task (t\<lparr>task_title := utk_title c, task_description := utk_description c,
     priority := utk_priority c, due_at := utk_due_at c, task_classification := utk_classification c,
     task_version := utk_expected_version c + 1\<rparr>)"

datatype task_request =
    UpdateTask update_task_command
  | TransitionTask transition_task_command
  | PostponeTask postpone_task_command

fun request_task :: "task_request \<Rightarrow> pystr" where
  "request_task (UpdateTask c) = utk_task_id c"
| "request_task (TransitionTask c) = ttk_task_id c"
| "request_task (PostponeTask c) = ptk_task_id c"

fun request_version :: "task_request \<Rightarrow> int" where
  "request_version (UpdateTask c) = utk_expected_version c"
| "request_version (TransitionTask c) = ttk_expected_version c"
| "request_version (PostponeTask c) = ptk_expected_version c"

fun requested_change :: "datetime \<Rightarrow> task_request \<Rightarrow> task \<Rightarrow> task res" where
  "requested_change later (UpdateTask c) t = updated_fields c t"
| "requested_change later (TransitionTask c) t = task_transition t (ttk_status c) later"
| "requested_change later (PostponeTask c) t = task_postpone t (ptk_due_at c) later"

text \<open>\<^verbatim>\<open>update_task\<close> names the new classification in its resource, the others the stored one.\<close>

fun required_class :: "task_request \<Rightarrow> task \<Rightarrow> task \<Rightarrow> data_classification" where
  "required_class (UpdateTask c) t updated = task_classification updated"
| "required_class (TransitionTask c) t updated = task_classification t"
| "required_class (PostponeTask c) t updated = task_classification t"

definition change_found :: "app_env \<Rightarrow> datetime \<Rightarrow> datetime \<Rightarrow> task_request \<Rightarrow> command_context \<Rightarrow> task \<Rightarrow> task app" where
  "change_found env now later q ctx =
     change_task env now ctx (request_version q) (requested_change later q) (required_class q)"

definition task_change :: "app_env \<Rightarrow> datetime \<Rightarrow> datetime \<Rightarrow> task_request \<Rightarrow> command_context \<Rightarrow> task app" where
  "task_change env now later q ctx =
     bind (require_found (task_get (request_task q))) (change_found env now later q ctx)"

definition update_task :: "app_env \<Rightarrow> datetime \<Rightarrow> update_task_command \<Rightarrow> command_context \<Rightarrow> task app" where
  "update_task env now c ctx = task_change env now now (UpdateTask c) ctx"

definition transition_task :: "app_env \<Rightarrow> datetime \<Rightarrow> datetime \<Rightarrow> transition_task_command \<Rightarrow> command_context \<Rightarrow> task app" where
  "transition_task env now later c ctx = task_change env now later (TransitionTask c) ctx"

definition postpone_task :: "app_env \<Rightarrow> datetime \<Rightarrow> datetime \<Rightarrow> postpone_task_command \<Rightarrow> command_context \<Rightarrow> task app" where
  "postpone_task env now later c ctx = task_change env now later (PostponeTask c) ctx"

definition delete_task :: "app_env \<Rightarrow> datetime \<Rightarrow> delete_task_command \<Rightarrow> command_context \<Rightarrow> unit app" where
  "delete_task env now c ctx =
     bind (require_found (task_get (dtk_task_id c))) (\<lambda>t.
     bind (scoped_context ctx now) (\<lambda>current.
     bind (require_access current DELETE (lit ''task'') (task_id t) (task_owner t) (task_classification t)) (\<lambda>a.
       task_delete env (task_id t) a)))"

definition list_tasks :: "datetime \<Rightarrow> list_tasks_query \<Rightarrow> command_context \<Rightarrow> task list app" where
  "list_tasks now q ctx =
     bind (scoped_context ctx now) (\<lambda>current.
     bind (gather (\<lambda>owner. seq (require_read current (lit ''task_collection'') owner owner PERSONAL)
        (task_list_for_owner owner)) (read_owners current)) (\<lambda>ts.
     seq (each (\<lambda>t. require_read current (lit ''task'') (task_id t) (task_owner t) (task_classification t)) ts)
       (ret (if include_archived q then ts else filter (\<lambda>t. task_status t \<noteq> TASK_ARCHIVED) ts))))"

section \<open>Lemmas\<close>

lemma task_get_run:
  assumes "tasks_ok s"
  shows "task_get i s = (s, Inr (task_map s i))"
proof (cases "find_row tk_id i (t_tasks s)")
  case None
  then show ?thesis by (simp add: task_get_def fetch_one_def tasks_def op_simps task_map_def find_row_def)
next
  case (Some r)
  obtain t where "task_from_row r = Inr t" "task_map s i = Some t" by (rule task_map_ok[OF assms Some])
  then show ?thesis using Some by (simp add: task_get_def fetch_one_def tasks_def op_simps find_row_def)
qed

lemma requested_change_Inr:
  assumes "requested_change later q t = Inr u" "task_version t = request_version q"
  shows "task_id u = task_id t \<and> task_owner u = task_owner t \<and> task_wf u \<and> task_version u = request_version q + 1"
proof -
  have "\<exists>x. u = x \<and> new_task x = Inr x \<and> task_id x = task_id t \<and> task_owner x = task_owner t
      \<and> task_version x = request_version q + 1"
    using assms by (cases q)
      (auto simp: updated_fields_def task_transition_def task_postpone_def new_task_Inr split: option.splits)
  then show ?thesis by (auto simp: new_task_Inr)
qed

lemma task_update_Inr:
  assumes "tasks_ok s" "task_wf x" "\<forall>d. due_at x = Some d \<longrightarrow> in_range (instant (a_tz env) d)"
    "aware (authorized_at a)" "in_range (instant (a_tz env) (authorized_at a))"
    and run: "task_update env x v a s = (w, Inr y)"
  shows "authorizes a (TaskUpdate x v) \<and> task_version x = v + 1 \<and> tasks_ok w
    \<and> y = x\<lparr>task_updated_at := Some (authorized_at a)\<rparr>
    \<and> (\<exists>old. task_map s (task_id x) = Some old \<and> task_owner old = task_owner x \<and> task_version old = v
        \<and> task_map w = (task_map s)(task_id x \<mapsto> merged_task env (authorized_at a) old x))"
proof -
  obtain due where due: "dump_time_opt (a_tz env) (due_at x) = Inr due" by (rule due_text[OF assms(2)])
  have ok: "authorizes a (TaskUpdate x v)" "task_version x = v + 1" "y = x\<lparr>task_updated_at := Some (authorized_at a)\<rparr>"
    using run unfolding task_update_run[OF assms(2,4) due] by (auto split: if_splits)
  have "call_refines env a (TaskUpdate x v) s" using update_refines assms by simp
  moreover have "task_run env a (TaskUpdate x v) s = (w, Inr ())" by (simp add: bind_def run op_run)
  ultimately show ?thesis using ok
    by (auto simp: call_refines_def simp del: task_run.simps split: option.splits if_splits)
qed

lemma change_task_Inr:
  "change_task env now ctx v f req t s = (w, Inr y) \<longleftrightarrow> task_version t = v
     \<and> (\<exists>current x a. new_command_context (ctx\<lparr>context_now := Some now\<rparr>) = Inr current \<and> f t = Inr x
        \<and> require_access current UPDATE (lit ''task'') (task_id t) (task_owner t) (req t x) s = (s, Inr a)
        \<and> task_update env x v a s = (w, Inr y))"
  unfolding change_task_def seq_Inr bind_Inr scoped_context_Inr
  using require_access_state[of _ UPDATE "lit ''task''" "task_id t" "task_owner t" _ s]
  by (auto simp: op_run split: if_splits) (metis fst_conv)+

lemma change_swaps:
  assumes "tasks_ok s" "in_range (instant (a_tz env) now)"
    and "change_found env now later q ctx t s = (w, Inr x)"
    and "\<forall>d. due_at x = Some d \<longrightarrow> in_range (instant (a_tz env) d)"
  shows "\<exists>old. task_map s (task_id t) = Some old \<and> task_version old = request_version q
    \<and> task_owner old = task_owner t \<and> task_version x = request_version q + 1
    \<and> task_map w = (task_map s)(task_id t \<mapsto> merged_task env now old x) \<and> tasks_ok w"
proof -
  obtain current u a where v: "task_version t = request_version q"
    and c: "new_command_context (ctx\<lparr>context_now := Some now\<rparr>) = Inr current" and u: "requested_change later q t = Inr u"
    and a: "require_access current UPDATE (lit ''task'') (task_id t) (task_owner t) (required_class q t u) s = (s, Inr a)"
    and run: "task_update env u (request_version q) a s = (w, Inr x)"
    using assms(3) unfolding change_found_def change_task_Inr by blast
  have at: "authorized_at a = now" using require_access_Inr(5)[OF a] scoped_now(1)[OF c] by simp
  note ch = requested_change_Inr[OF u v]
  have u_wf: "task_wf u" and a_aware: "aware (authorized_at a)" and a_in: "in_range (instant (a_tz env) (authorized_at a))"
    using ch scoped_now(2)[OF c] assms(2) by (simp_all add: at)
  obtain due where due: "dump_time_opt (a_tz env) (due_at u) = Inr due" by (rule due_text[OF u_wf])
  have x: "x = u\<lparr>task_updated_at := Some now\<rparr>"
    using run unfolding task_update_run[OF u_wf a_aware due] by (auto simp: at split: if_splits)
  have "\<forall>d. due_at u = Some d \<longrightarrow> in_range (instant (a_tz env) d)" using assms(4) x by simp
  note up = task_update_Inr[OF assms(1) u_wf this a_aware a_in run]
  have m: "merged_task env now old u = merged_task env now old x" for old by (simp add: merged_task_def x)
  show ?thesis using up ch unfolding at m by (auto simp: x)
qed

section \<open>Properties\<close>

text \<open>
  C7. No task change is lost: whatever other work did to the store between the read of a task and
  the write of the change, an update, transition or postponement returns only if the stored task
  still has the owner and exactly the version that the command expected; then it replaces that task by
  the changed one with the next version and leaves every other task as it is.
\<close>

theorem task_change_no_lost_update:
  assumes "tasks_ok s" "in_range (instant (a_tz env) now)"
    and "change_found env now later q ctx t s = (w, Inr x)"
    and "\<forall>d. due_at x = Some d \<longrightarrow> in_range (instant (a_tz env) d)"
  shows "\<exists>old. task_map s (task_id t) = Some old \<and> task_version old = request_version q
    \<and> task_owner old = task_owner t \<and> task_version x = request_version q + 1
    \<and> task_map w = (task_map s)(task_id t \<mapsto> merged_task env now old x) \<and> tasks_ok w"
  using change_swaps[OF assms] .

lemma task_change_Inr:
  assumes "tasks_ok s"
  shows "task_change env now later q ctx s = (w, Inr x) \<longleftrightarrow>
    (\<exists>t. task_map s (request_task q) = Some t \<and> change_found env now later q ctx t s = (w, Inr x))"
  by (auto simp: task_change_def require_found_def bind_def task_get_run[OF assms] op_run split: option.splits)

lemma stale_request:
  assumes "tasks_ok s" "task_map s (request_task q) = Some t" "task_version t \<noteq> request_version q"
  shows "task_change env now later q ctx s = (s, Inl ConcurrencyConflict)"
  using assms by (simp add: task_change_def require_found_def bind_def seq_def task_get_run op_run change_found_def
      change_task_def)

text \<open>
  Of two changes that expect the same version of a task only one succeeds: after an update,
  transition or postponement returned, every further one that expects the version it was given is
  refused with ConcurrencyConflict and changes nothing, whoever asks and whatever it would change.
\<close>

lemma second_writer_refused:
  assumes "tasks_ok s" "in_range (instant (a_tz env) now)"
    and "task_change env now later q ctx s = (w, Inr x)"
    and "\<forall>d. due_at x = Some d \<longrightarrow> in_range (instant (a_tz env) d)"
    and "request_task q' = request_task q" "request_version q' = request_version q"
  shows "task_change env now' later' q' ctx' w = (w, Inl ConcurrencyConflict)"
proof -
  obtain t where t: "task_map s (request_task q) = Some t" and run: "change_found env now later q ctx t s = (w, Inr x)"
    using assms(3) task_change_Inr[OF assms(1)] by blast
  have id: "task_id t = request_task q" using t assms(1) task_map_ok by (fastforce simp: task_map_def split: option.splits)
  obtain old where "task_version x = request_version q + 1" "tasks_ok w"
    "task_map w = (task_map s)(task_id t \<mapsto> merged_task env now old x)"
    using change_swaps[OF assms(1,2) run assms(4)] by blast
  then have "task_map w (request_task q') = Some (merged_task env now old x)"
    "task_version (merged_task env now old x) \<noteq> request_version q'"
    using id assms(5,6) by (simp_all add: merged_task_def)
  then show ?thesis by (rule stale_request[OF \<open>tasks_ok w\<close>])
qed

lemma required_class_updated:
  "requested_change later q t = Inr u \<Longrightarrow> required_class q t u = task_classification u"
  by (cases q) (auto simp: updated_fields_def task_transition_def task_postpone_def new_task_Inr split: option.splits)

lemma task_change_runs:
  assumes "tasks_ok s" and t: "task_map s (request_task q) = Some t" and v: "task_version t = request_version q"
    and c: "new_command_context (ctx\<lparr>context_now := Some now\<rparr>) = Inr current" and u: "requested_change later q t = Inr u"
    and p: "policy_require (has_grant s) current UPDATE
        (mk_resource (lit ''task'') (task_id t) (task_owner t) (task_classification u)) = Inr a"
  shows "\<exists>w. task_change env now later q ctx s = (w, Inr (u\<lparr>task_updated_at := Some now\<rparr>))"
proof -
  note ch = requested_change_Inr[OF u v]
  have u_wf: "task_wf u" using ch by blast
  have r: "resource (lit ''task'') (task_id t) (task_owner t) (task_classification u)
      = Inr (mk_resource (lit ''task'') (task_id t) (task_owner t) (task_classification u))"
    using ch u_wf by (simp add: resource_def mk_resource_def new_resource_ref_def guarded_def task_wf_iff)
  have a: "require_access current UPDATE (lit ''task'') (task_id t) (task_owner t) (required_class q t u) s = (s, Inr a)"
    using p r by (simp add: require_access_def required_class_updated[OF u] op_simps bind_def)
  have at: "authorized_at a = now" using require_access_Inr(5)[OF a] scoped_now(1)[OF c] by simp
  obtain due where due: "dump_time_opt (a_tz env) (due_at u) = Inr due" by (rule due_text[OF u_wf])
  obtain r where row: "find_row tk_id (request_task q) (t_tasks s) = Some r"
    using t by (auto simp: task_map_def split: option.splits)
  have f: "task_id t = request_task q" "task_owner t = tk_owner r" "task_version t = tk_version r"
    by (rule task_map_ok[OF assms(1) row]; use t in simp)+
  have "count_where (\<lambda>r. tk_id r = task_id u \<and> tk_owner r = task_owner u \<and> tk_version r = request_version q) (t_tasks s) = 1"
    by (subst count_tasks[OF assms(1), where i = "request_task q"]) (use row f ch v find_row_SomeD[OF row] in auto)
  moreover have "authorizes a (TaskUpdate u (request_version q))"
    using require_access_Inr(1-3)[OF a] ch by (simp add: authorizes_def required_class_updated[OF u])
  ultimately have "\<exists>w. task_update env u (request_version q) a s = (w, Inr (u\<lparr>task_updated_at := Some now\<rparr>))"
    using scoped_now(2)[OF c] ch by (simp add: task_update_run[OF u_wf _ due] at)
  then show ?thesis using c u a v t
    by (auto simp: task_change_Inr[OF assms(1)] change_found_def change_task_Inr)
qed

text \<open>
  An update can lower the classification of a confidential task without the step-up
  authentication that confidential data requires: the owner of a confidential task, signed in over a
  chat channel, is refused an UPDATE of that task by the policy, yet an update that sets the
  classification to personal or public is authorized for the new classification and carried out, and
  the stored task is no longer confidential.
\<close>

lemma declassified_without_step_up:
  assumes "tasks_ok s" "in_range (instant (a_tz env) now)"
    and "task_map s (utk_task_id c) = Some t" "task_version t = utk_expected_version c"
    and "task_classification t = CONFIDENTIAL" "utk_classification c \<in> {PUBLIC, PERSONAL}" "utk_due_at c = None"
    and "actor_user_id ctx = task_owner t" "authentication ctx = AUTH_CHANNEL"
    and "is_ok (new_command_context (ctx\<lparr>context_now := Some now\<rparr>))" "is_ok (updated_fields c t)"
  shows "policy_require (has_grant s) (ctx\<lparr>context_now := Some now\<rparr>) UPDATE
      (mk_resource (lit ''task'') (task_id t) (task_owner t) (task_classification t)) = Inl PermissionDenied
    \<and> (\<exists>w x t'. update_task env now c ctx s = (w, Inr x) \<and> task_map w (utk_task_id c) = Some t'
        \<and> task_classification t' = utk_classification c)"
proof
  show "policy_require (has_grant s) (ctx\<lparr>context_now := Some now\<rparr>) UPDATE
      (mk_resource (lit ''task'') (task_id t) (task_owner t) (task_classification t)) = Inl PermissionDenied"
    using assms(5,8,9) by (simp add: policy_require_def mk_resource_def Let_def)
next
  obtain current where c: "new_command_context (ctx\<lparr>context_now := Some now\<rparr>) = Inr current"
    using assms(10) by (auto simp: is_ok_Inr)
  have cur: "current = ctx\<lparr>context_now := Some now\<rparr>" by (rule new_command_context_Inr[OF c])
  obtain u where u: "requested_change now (UpdateTask c) t = Inr u" using assms(11) by (auto simp: is_ok_Inr)
  have uf: "task_classification u = utk_classification c" "due_at u = None"
    using u assms(7) by (auto simp: updated_fields_def new_task_Inr)
  let ?r = "mk_resource (lit ''task'') (task_id t) (task_owner t) (task_classification u)"
  have "policy_require (has_grant s) current UPDATE ?r
      = Inr \<lparr>auth_actor = actor_user_id ctx, auth_action = UPDATE, auth_resource = ?r, authorized_at = now\<rparr>"
    using assms(6,8) uf by (auto simp: policy_require_Inr may_access_def cur mk_resource_def)
  then obtain w where w: "task_change env now now (UpdateTask c) ctx s = (w, Inr (u\<lparr>task_updated_at := Some now\<rparr>))"
    using task_change_runs[OF assms(1) _ _ c u] assms(3,4) by fastforce
  then obtain t0 where "task_map s (utk_task_id c) = Some t0"
    and run: "change_found env now now (UpdateTask c) ctx t0 s = (w, Inr (u\<lparr>task_updated_at := Some now\<rparr>))"
    using task_change_Inr[OF assms(1)] by auto
  then have "t0 = t" using assms(3) by simp
  have id: "task_id t = utk_task_id c"
    using assms(1,3) task_map_ok by (fastforce simp: task_map_def split: option.splits)
  have "\<exists>t'. task_map w (utk_task_id c) = Some t' \<and> task_classification t' = utk_classification c"
    using change_swaps[OF assms(1,2) run] uf id \<open>t0 = t\<close> by (auto simp: merged_task_def)
  then show "\<exists>w x t'. update_task env now c ctx s = (w, Inr x) \<and> task_map w (utk_task_id c) = Some t'
      \<and> task_classification t' = utk_classification c"
    using w unfolding update_task_def by blast
qed

lemma task_map_SomeD:
  assumes "task_map s i = Some t"
  shows "\<exists>r. find_row tk_id i (t_tasks s) = Some r \<and> task_from_row r = Inr t"
proof (cases "find_row tk_id i (t_tasks s)")
  case (Some r)
  then show ?thesis using assms by (cases "task_from_row r") (simp_all add: task_map_def)
qed (use assms in \<open>simp add: task_map_def\<close>)

lemma list_for_owner_Inr:
  assumes "tasks_ok s" "task_list_for_owner owner s = (w, Inr ts)"
  shows "w = s \<and> (\<forall>t. t \<in> set ts \<longleftrightarrow> (\<exists>i. task_map s i = Some t) \<and> task_owner t = owner)"
proof -
  have m: "map_res task_from_row (sort_key task_order (filter (\<lambda>r. tk_owner r = owner) (t_tasks s))) = Inr ts" and "w = s"
    using assms(2) by (auto simp: task_list_for_owner_def bind_Inr op_run)
  have "t \<in> set ts \<longleftrightarrow> (\<exists>r \<in> set (t_tasks s). tk_owner r = owner \<and> task_from_row r = Inr t)" for t
    using map_res_Inr_in[OF m] map_res_in[OF m] by fastforce
  moreover have "(\<exists>r \<in> set (t_tasks s). tk_owner r = owner \<and> task_from_row r = Inr t)
      \<longleftrightarrow> (\<exists>i. task_map s i = Some t) \<and> task_owner t = owner" for t
  proof
    assume "\<exists>r \<in> set (t_tasks s). tk_owner r = owner \<and> task_from_row r = Inr t"
    then obtain r where r: "r \<in> set (t_tasks s)" "tk_owner r = owner" "task_from_row r = Inr t" by blast
    then have "find_row tk_id (tk_id r) (t_tasks s) = Some r" using assms(1) by (simp add: tasks_ok_def find_row_unique)
    then show "(\<exists>i. task_map s i = Some t) \<and> task_owner t = owner"
      using r task_from_row_fields[OF r(3)] task_map_find by metis
  next
    assume "(\<exists>i. task_map s i = Some t) \<and> task_owner t = owner"
    then obtain i r where "find_row tk_id i (t_tasks s) = Some r" "task_from_row r = Inr t" "task_owner t = owner"
      using task_map_SomeD by blast
    then show "\<exists>r \<in> set (t_tasks s). tk_owner r = owner \<and> task_from_row r = Inr t"
      using find_row_SomeD task_from_row_fields by metis
  qed
  ultimately show ?thesis using \<open>w = s\<close> by blast
qed

text \<open>
  Listing is complete and authorised: the list holds exactly the stored tasks of the owners that
  the caller reads, archived ones only on request; reading changes nothing; and the policy granted
  READ on every task that is listed.
\<close>

lemma list_tasks_exact:
  assumes "tasks_ok s" "list_tasks now q ctx s = (w, Inr ts)"
  shows "w = s \<and> (\<forall>t. t \<in> set ts \<longleftrightarrow> (\<exists>i. task_map s i = Some t) \<and> task_owner t \<in> set (read_owners ctx)
        \<and> (include_archived q \<or> task_status t \<noteq> TASK_ARCHIVED))
    \<and> (\<forall>t \<in> set ts. \<exists>a. policy_require (has_grant s) (ctx\<lparr>context_now := Some now\<rparr>) READ
        (mk_resource (lit ''task'') (task_id t) (task_owner t) (task_classification t)) = Inr a)"
proof -
  let ?ctx = "ctx\<lparr>context_now := Some now\<rparr>"
  let ?f = "\<lambda>owner. seq (require_read ?ctx (lit ''task_collection'') owner owner PERSONAL) (task_list_for_owner owner)"
  let ?g = "\<lambda>t. require_read ?ctx (lit ''task'') (task_id t) (task_owner t) (task_classification t)"
  have state: "fst (?f owner s) = s" for owner
    using require_read_state[of ?ctx "lit ''task_collection''" owner owner PERSONAL s]
    by (auto simp: seq_def bind_def task_list_for_owner_def op_run split: prod.split sum.split)
  obtain zs u v where g: "gather ?f (read_owners ?ctx) s = (u, Inr zs)" and e: "each ?g zs u = (v, Inr ())"
    and ts: "ts = (if include_archived q then zs else filter (\<lambda>t. task_status t \<noteq> TASK_ARCHIVED) zs)" "w = v"
    using assms(2) by (auto simp: list_tasks_def bind_Inr seq_Inr scoped_context_Inr op_run dest!: new_command_context_Inr)
  note G = gather_Inr[OF g state]
  then have e': "each ?g zs s = (v, Inr ())" using e by simp
  note E = each_Inr[OF e' require_read_state]
  have owner: "?f x s = (s, Inr ys) \<Longrightarrow> z \<in> set ys \<longleftrightarrow> (\<exists>i. task_map s i = Some z) \<and> task_owner z = x" for x ys z
    unfolding seq_Inr using list_for_owner_Inr[OF assms(1)] require_read_Inr by blast
  have all: "z \<in> set zs \<longleftrightarrow> (\<exists>i. task_map s i = Some z) \<and> task_owner z \<in> set (read_owners ctx)" for z
    using G owner by (fastforce simp: read_owners_def)
  have "\<forall>t \<in> set zs. \<exists>a. policy_require (has_grant s) ?ctx READ
        (mk_resource (lit ''task'') (task_id t) (task_owner t) (task_classification t)) = Inr a"
    using E require_read_Inr by blast
  then show ?thesis using all E ts by auto
qed

section \<open>A concrete store\<close>

definition confidential_task :: task where
  "confidential_task = sample_task\<lparr>task_classification := CONFIDENTIAL\<rparr>"

definition task_db :: app_db where
  "task_db = sample_app_db\<lparr>t_tasks := [new_task_row None (time_text utc_only (utc 0)) confidential_task]\<rparr>"

definition publish_command :: update_task_command where
  "publish_command = \<lparr>utk_task_id = lit ''t'', utk_expected_version = 1, utk_title = lit ''write'', utk_description = [],
     utk_priority = 2, utk_due_at = None, utk_classification = PUBLIC\<rparr>"

lemma task_db_reads:
  "task_from_row (new_task_row None (time_text utc_only (utc 0)) confidential_task)
     = Inr (stored_task sample_app_env (utc 0) confidential_task)"
proof -
  have "task_wf confidential_task" using sample_task_wf by (simp add: confidential_task_def task_wf_iff)
  then show ?thesis
    using read_new_row[of confidential_task sample_app_env None "utc 0"]
    by (simp add: sample_store_simps confidential_task_def sample_task_def dump_time_opt_def)
qed

lemma task_db_ok: "tasks_ok task_db" "task_map task_db (lit ''t'') = Some (stored_task sample_app_env (utc 0) confidential_task)"
  using task_db_reads
  by (simp_all add: tasks_ok_def task_db_def unique_key_def task_map_def find_row_def new_task_row_def confidential_task_def
      sample_task_def)

lemma publish_fields:
  "is_ok (updated_fields publish_command (stored_task sample_app_env (utc 0) confidential_task))"
  by (simp add: is_ok_Inr updated_fields_def new_task_Inr task_wf_iff publish_command_def stored_task_def
      confidential_task_def sample_task_def blank_def lit_def py_space_def naive_opt_def blank_opt_def)

lemma publish_side:
  "utk_task_id publish_command = lit ''t''" "utk_expected_version publish_command = 1" "utk_due_at publish_command = None"
  "utk_classification publish_command = PUBLIC" "actor_user_id owner_ctx = lit ''u''" "authentication owner_ctx = AUTH_CHANNEL"
  "task_version (stored_task env at x) = 1" "task_owner (stored_task env at x) = task_owner x"
  "task_classification (stored_task env at x) = task_classification x" "task_id (stored_task env at x) = task_id x"
  "task_owner confidential_task = lit ''u''" "task_classification confidential_task = CONFIDENTIAL"
  "task_id confidential_task = lit ''t''"
  by (simp_all add: publish_command_def owner_ctx_def stored_task_def confidential_task_def sample_task_def)

lemma declassified_without_step_up_example:
  "\<exists>w x t'. update_task sample_app_env (utc 0) publish_command owner_ctx task_db = (w, Inr x)
     \<and> task_map w (lit ''t'') = Some t' \<and> task_classification t' = PUBLIC"
  using declassified_without_step_up[OF task_db_ok(1), of sample_app_env "utc 0" publish_command
      "stored_task sample_app_env (utc 0) confidential_task" owner_ctx]
  by (simp add: publish_side sample_store_simps(13) task_db_ok publish_fields owner_context)

lemma publish_runs:
  "\<exists>w x. task_change sample_app_env (utc 0) (utc 0) (UpdateTask publish_command) owner_ctx task_db = (w, Inr x)
     \<and> (\<forall>d. due_at x = Some d \<longrightarrow> in_range (instant (a_tz sample_app_env) d))"
proof -
  obtain u where u: "requested_change (utc 0) (UpdateTask publish_command) (stored_task sample_app_env (utc 0) confidential_task) = Inr u"
    using publish_fields by (auto simp: is_ok_Inr)
  then have d: "task_classification u = PUBLIC" "due_at u = None"
    by (auto simp: updated_fields_def new_task_Inr publish_command_def)
  let ?r = "mk_resource (lit ''task'') (lit ''t'') (lit ''u'') PUBLIC"
  have "policy_require (has_grant task_db) (owner_ctx\<lparr>context_now := Some (utc 0)\<rparr>) UPDATE ?r
      = Inr \<lparr>auth_actor = lit ''u'', auth_action = UPDATE, auth_resource = ?r, authorized_at = utc 0\<rparr>"
    by (simp add: policy_require_Inr may_access_def mk_resource_def owner_ctx_def)
  then show ?thesis
    using task_change_runs[OF task_db_ok(1) _ _ owner_context u] task_db_ok(2) d by (fastforce simp: publish_side)
qed

theorem task_change_no_lost_update_witness:
  "\<exists>w x old. task_map task_db (lit ''t'') = Some old \<and> task_version old = 1 \<and> task_version x = 2
     \<and> task_map w = (task_map task_db)(lit ''t'' \<mapsto> merged_task sample_app_env (utc 0) old x)"
proof -
  obtain w x where run: "task_change sample_app_env (utc 0) (utc 0) (UpdateTask publish_command) owner_ctx task_db = (w, Inr x)"
    and due: "\<forall>d. due_at x = Some d \<longrightarrow> in_range (instant (a_tz sample_app_env) d)"
    using publish_runs by blast
  then obtain t where t: "task_map task_db (lit ''t'') = Some t"
    and c: "change_found sample_app_env (utc 0) (utc 0) (UpdateTask publish_command) owner_ctx t task_db = (w, Inr x)"
    using task_change_Inr[OF task_db_ok(1)] by (auto simp: publish_side)
  obtain old where "task_map task_db (task_id t) = Some old" "task_version old = 1" "task_version x = 2"
    "task_map w = (task_map task_db)(task_id t \<mapsto> merged_task sample_app_env (utc 0) old x)"
    using task_change_no_lost_update[OF task_db_ok(1) sample_store_simps(13) c due] by (auto simp: publish_side)
  moreover have "task_id t = lit ''t''" using t by (auto simp: publish_side task_db_ok(2))
  ultimately show ?thesis by auto
qed

definition step_up_ctx :: command_context where
  "step_up_ctx = owner_ctx\<lparr>authentication := AUTH_STEP_UP, context_now := Some (utc 0)\<rparr>"

lemma step_up_context: "scoped_context step_up_ctx (utc 0) s = (s, Inr step_up_ctx)"
  by (simp add: scoped_context_def op_run step_up_ctx_def owner_ctx_def new_command_context_def guarded_def blank_def
      lit_def py_space_def aware_def utc_def)

lemma step_up_read:
  assumes "\<not> blank k" "\<not> blank i" "c \<noteq> SECRET" "c \<noteq> PROHIBITED"
  shows "require_read step_up_ctx k i (lit ''u'') c s = (s, Inr ())"
proof -
  have "policy_require (has_grant s) step_up_ctx READ (mk_resource k i (lit ''u'') c)
      = Inr \<lparr>auth_actor = lit ''u'', auth_action = READ, auth_resource = mk_resource k i (lit ''u'') c, authorized_at = utc 0\<rparr>"
    using assms by (cases c) (auto simp: policy_require_Inr may_access_def mk_resource_def step_up_ctx_def owner_ctx_def)
  moreover have "resource k i (lit ''u'') c = Inr (mk_resource k i (lit ''u'') c)"
    using assms sample_store_simps(14) by (simp add: resource_def mk_resource_def new_resource_ref_def guarded_def)
  ultimately show ?thesis by (simp add: require_read_def require_access_def bind_def op_run)
qed

lemma list_runs:
  "list_tasks (utc 0) \<lparr>include_archived = False\<rparr> step_up_ctx task_db
     = (task_db, Inr [stored_task sample_app_env (utc 0) confidential_task])"
proof -
  let ?t = "stored_task sample_app_env (utc 0) confidential_task"
  have owners: "read_owners step_up_ctx = [lit ''u'']"
    by (simp add: read_owners_def step_up_ctx_def owner_ctx_def)
  have rows: "task_list_for_owner (lit ''u'') task_db = (task_db, Inr [?t])"
    using task_db_reads by (simp add: task_list_for_owner_def bind_def op_run task_db_def new_task_row_def
        publish_side confidential_task_def sample_task_def)
  have reads: "require_read step_up_ctx (lit ''task_collection'') (lit ''u'') (lit ''u'') PERSONAL task_db = (task_db, Inr ())"
      "require_read step_up_ctx (lit ''task'') (lit ''t'') (lit ''u'') CONFIDENTIAL task_db = (task_db, Inr ())"
    by (rule step_up_read; simp add: lit_def blank_def py_space_def)+
  have "task_status ?t = TASK_PENDING" by (simp add: stored_task_def confidential_task_def sample_task_def)
  then show ?thesis
    using rows reads by (simp add: list_tasks_def bind_def seq_def step_up_context owners op_run publish_side)
qed

end
