(* ===== verification/ReminderService.thy ===== *)
theory ReminderService
  imports Commands
begin

text \<open>
  The reminder methods of \<^verbatim>\<open>ZhixuServices\<close>: create, acknowledge, cancel, snooze, list, and the times at
  which a reminder is announced ahead (\<^verbatim>\<open>reminder_lead_times\<close>).
\<close>

definition create_reminder :: "app_env \<Rightarrow> pystr \<Rightarrow> datetime \<Rightarrow> create_reminder_command \<Rightarrow> command_context \<Rightarrow> reminder app" where
  "create_reminder env i now c ctx =
     bind (scoped_context ctx now) (\<lambda>current.
     bind (of_res (new_reminder (a_tz env) \<lparr>rem_id = i, rem_owner = create_owner current (crm_private c),
         rem_title = crm_title c, fire_at = crm_fire_at c, rem_target_ref = crm_target_ref c,
         rem_creator = Some (actor_user_id current), rem_action_links = crm_action_links c, rem_status = REM_PENDING,
         missed_policy = crm_missed_policy c, rem_classification = crm_classification c,
         related_kind = crm_related_kind c, related_id = crm_related_id c, related_start_at = crm_related_start_at c,
         rem_timezone = None, rem_version = 1, rem_created_at = None, rem_updated_at = None\<rparr>)) (\<lambda>r.
     bind (require_access current CREATE (lit ''reminder'') (rem_id r) (rem_owner r) (rem_classification r)) (\<lambda>a.
       reminder_create env r a)))"

text \<open>The user actions: the reminder is found, the caller checked, and the repository acts on the version read.\<close>

definition on_reminder :: "app_env \<Rightarrow> datetime \<Rightarrow> pystr \<Rightarrow> (command_context \<Rightarrow> reminder \<Rightarrow> unit res)
    \<Rightarrow> (reminder \<Rightarrow> authorized_action \<Rightarrow> reminder app) \<Rightarrow> command_context \<Rightarrow> reminder app" where
  "on_reminder env now i permitted act ctx =
     bind (require_found (reminder_get env i)) (\<lambda>r.
     bind (scoped_context ctx now) (\<lambda>current.
     seq (of_res (permitted current r))
    (bind (require_access current UPDATE (lit ''reminder'') (rem_id r) (rem_owner r) (rem_classification r)) (\<lambda>a.
       act r a))))"

definition acknowledge_reminder :: "app_env \<Rightarrow> datetime \<Rightarrow> acknowledge_reminder_command \<Rightarrow> command_context \<Rightarrow> reminder app" where
  "acknowledge_reminder env now c = on_reminder env now (arm_reminder_id c) (\<lambda>current r. Inr ())
     (\<lambda>r a. reminder_acknowledge env (rem_id r) (rem_version r) a)"

definition cancel_reminder :: "app_env \<Rightarrow> datetime \<Rightarrow> cancel_reminder_command \<Rightarrow> command_context \<Rightarrow> reminder app" where
  "cancel_reminder env now c = on_reminder env now (xrm_reminder_id c)
     (\<lambda>current r. require_creator_or_manager current (rem_owner r) (rem_creator r))
     (\<lambda>r a. reminder_cancel env (rem_id r) (rem_version r) a)"

definition snooze_reminder :: "app_env \<Rightarrow> datetime \<Rightarrow> snooze_reminder_command \<Rightarrow> command_context \<Rightarrow> reminder app" where
  "snooze_reminder env now c = on_reminder env now (srm_reminder_id c) (\<lambda>current r. Inr ())
     (\<lambda>r a. reminder_snooze env (rem_id r) (srm_fire_at c) (rem_version r) a)"

definition list_reminders :: "app_env \<Rightarrow> datetime \<Rightarrow> list_reminders_query \<Rightarrow> command_context \<Rightarrow> reminder list app" where
  "list_reminders env now q ctx =
     bind (scoped_context ctx now) (\<lambda>current.
     bind (gather (reminder_list_for_owner env) (read_owners current)) (\<lambda>rs.
     seq (each (\<lambda>r. require_read current (lit ''reminder'') (rem_id r) (rem_owner r) (rem_classification r)) rs)
       (ret (if include_inactive q then rs else filter (\<lambda>r. rem_status r \<in> {REM_PENDING, REM_FIRED}) rs))))"

definition REMINDER_LEAD_THRESHOLD :: micros where
  "REMINDER_LEAD_THRESHOLD = 2 * us_hour"

definition lead_moments :: "tzdb \<Rightarrow> datetime \<Rightarrow> datetime \<Rightarrow> int list \<Rightarrow> datetime list" where
  "lead_moments db now fire leads =
     filter (\<lambda>moment. dt_less db now moment) (map (\<lambda>m. dt_add fire (- (m * us_minute))) (filter (\<lambda>m. 0 < m) leads))"

definition reminder_lead_times :: "app_env \<Rightarrow> datetime \<Rightarrow> datetime \<Rightarrow> command_context \<Rightarrow> datetime list app" where
  "reminder_lead_times env now fire ctx =
     bind (scoped_context ctx now) (\<lambda>current.
     if dt_sub (a_tz env) fire now \<le> REMINDER_LEAD_THRESHOLD then ret []
     else bind (lead_default_for (create_owner current False)) (\<lambda>d.
       ret (lead_moments (a_tz env) now fire (case d of None \<Rightarrow> DEFAULT_NOTIFICATION_LEAD_MINUTES | Some ms \<Rightarrow> ms))))"

section \<open>User actions\<close>

datatype reminder_request =
    AcknowledgeReminder acknowledge_reminder_command
  | CancelReminder cancel_reminder_command
  | SnoozeReminder snooze_reminder_command

fun reminder_action :: "app_env \<Rightarrow> datetime \<Rightarrow> reminder_request \<Rightarrow> command_context \<Rightarrow> reminder app" where
  "reminder_action env now (AcknowledgeReminder c) ctx = acknowledge_reminder env now c ctx"
| "reminder_action env now (CancelReminder c) ctx = cancel_reminder env now c ctx"
| "reminder_action env now (SnoozeReminder c) ctx = snooze_reminder env now c ctx"

fun requested_reminder :: "reminder_request \<Rightarrow> pystr" where
  "requested_reminder (AcknowledgeReminder c) = arm_reminder_id c"
| "requested_reminder (CancelReminder c) = xrm_reminder_id c"
| "requested_reminder (SnoozeReminder c) = srm_reminder_id c"

text \<open>The statuses an action starts from, what it makes of the row and what else it demands.\<close>

fun starts_from :: "reminder_request \<Rightarrow> reminder_status list" where
  "starts_from (AcknowledgeReminder c) = [REM_FIRED]"
| "starts_from (CancelReminder c) = [REM_PENDING, REM_FIRED]"
| "starts_from (SnoozeReminder c) = [REM_FIRED]"

fun moved_row :: "tzdb \<Rightarrow> datetime \<Rightarrow> reminder_request \<Rightarrow> reminder_row \<Rightarrow> reminder_row" where
  "moved_row db now (AcknowledgeReminder c) = set_status st_cancelled (time_text db now)"
| "moved_row db now (CancelReminder c) = set_status st_cancelled (time_text db now)"
| "moved_row db now (SnoozeReminder c) =
     (\<lambda>r. (set_status st_pending (time_text db now) r)\<lparr>rm_fire_at := time_text db (srm_fire_at c)\<rparr>)"

fun further_demand :: "tzdb \<Rightarrow> datetime \<Rightarrow> command_context \<Rightarrow> reminder_request \<Rightarrow> reminder \<Rightarrow> bool" where
  "further_demand db now ctx (AcknowledgeReminder c) r = True"
| "further_demand db now ctx (CancelReminder c) r =
     (actor_user_id ctx = rem_owner r \<or> Some (actor_user_id ctx) = rem_creator r
      \<or> roles ctx \<inter> {lit ''group_owner'', lit ''project_admin''} \<noteq> {})"
| "further_demand db now ctx (SnoozeReminder c) r = (\<not> dt_le db (srm_fire_at c) now)"

lemma require_creator_or_manager_Inr:
  "require_creator_or_manager ctx owner creator = Inr u \<longleftrightarrow>
     actor_user_id ctx = owner \<or> Some (actor_user_id ctx) = creator
     \<or> roles ctx \<inter> {lit ''group_owner'', lit ''project_admin''} \<noteq> {}"
  by (simp add: require_creator_or_manager_def)

lemma reminder_get_Inr:
  "reminder_get env i s = (w, Inr (Some r)) \<longleftrightarrow> w = s
     \<and> (\<exists>row. find_row rm_id i (t_reminders s) = Some row \<and> reminder_from_row env row = Inr r)"
  by (auto simp: reminder_get_def fetch_one_def reminders_def bind_def op_run find_row_def split: option.splits sum.splits)

lemma on_reminder_Inr:
  assumes "on_reminder env now i permitted act ctx s = (w, Inr x)"
  obtains row r current a where "find_row rm_id i (t_reminders s) = Some row" "reminder_from_row env row = Inr r"
    "new_command_context (ctx\<lparr>context_now := Some now\<rparr>) = Inr current" "current = ctx\<lparr>context_now := Some now\<rparr>"
    "permitted current r = Inr ()"
    "require_access current UPDATE (lit ''reminder'') (rem_id r) (rem_owner r) (rem_classification r) s = (s, Inr a)"
    "act r a s = (w, Inr x)" "authorized_at a = now" "aware now"
proof -
  obtain r current a u where g: "reminder_get env i s = (s, Inr (Some r))"
    and c: "new_command_context (ctx\<lparr>context_now := Some now\<rparr>) = Inr current" and p: "permitted current r = Inr ()"
    and q: "require_access current UPDATE (lit ''reminder'') (rem_id r) (rem_owner r) (rem_classification r) s = (u, Inr a)"
    and act: "act r a u = (w, Inr x)"
  proof -
    let ?rest = "\<lambda>r current. bind (require_access current UPDATE (lit ''reminder'') (rem_id r) (rem_owner r) (rem_classification r)) (act r)"
    obtain u1 r where g1: "reminder_get env i s = (u1, Inr (Some r))" and "bind (scoped_context ctx now) (\<lambda>current.
        seq (of_res (permitted current r)) (?rest r current)) u1 = (w, Inr x)"
      using assms unfolding on_reminder_def bind_Inr[of "require_found (reminder_get env i)"] require_found_Inr by blast
    moreover have "u1 = s" using g1 by (simp add: reminder_get_Inr)
    ultimately obtain current where c: "new_command_context (ctx\<lparr>context_now := Some now\<rparr>) = Inr current"
      and "seq (of_res (permitted current r)) (?rest r current) s = (w, Inr x)"
      unfolding bind_Inr[of "scoped_context ctx now"] scoped_context_Inr by blast
    then have "permitted current r = Inr ()" "?rest r current s = (w, Inr x)" by (auto simp: seq_Inr op_run)
    then show ?thesis using that g1 c \<open>u1 = s\<close> unfolding bind_Inr by blast
  qed
  have cur: "current = ctx\<lparr>context_now := Some now\<rparr>" by (rule new_command_context_Inr[OF c])
  have "aware now" using c by (auto simp: new_command_context_def guarded_def split: if_splits)
  moreover have "u = s" "authorized_at a = now"
    using require_access_Inr(1)[OF q] require_access_Inr(5)[OF q] by (simp_all add: cur)
  ultimately show ?thesis using g c cur p q act that by (auto simp: reminder_get_Inr)
qed

lemma change_reminder_Inr:
  assumes "change_reminder env i f from v a reason s = (w, Inr r)" "unique_key rm_id (t_reminders s)" "\<And>n x. rm_id (f n x) = rm_id x"
  shows "\<exists>row. find_row rm_id i (t_reminders s) = Some row \<and> rm_version row = v \<and> rm_status row \<in> set from
    \<and> w = audited env a reason (on_rows reminders (update_where (\<lambda>x. rm_id x = i) (f (time_text (a_tz env) (authorized_at a)))) s)
    \<and> reminder_from_row env (f (time_text (a_tz env) (authorized_at a)) row) = Inr r"
proof -
  let ?p = "\<lambda>x. rm_id x = i \<and> rm_version x = v \<and> rm_status x \<in> set from"
  let ?n = "time_text (a_tz env) (authorized_at a)"
  obtain u where ch: "change_audited env reminders reminder_checks ?p (f ?n) ConflictError a reason s = (u, Inr ())"
    and g: "reminder_get env i u = (w, Inr (Some r))"
  proof -
    obtain u1 found where g1: "reminder_get env i s = (u1, Inr found)" and rest: "(case found of None \<Rightarrow> throw NotFoundError
       | Some existing \<Rightarrow>
        seq (of_res (require_authorization a UPDATE (lit ''reminder'') (rem_id existing) (rem_owner existing)
              (rem_classification existing)))
       (bind (of_res (dump_time (a_tz env) (authorized_at a))) (\<lambda>now_text.
        seq (change_audited env reminders reminder_checks ?p (f now_text) ConflictError a reason)
       (bind (reminder_get env i) (\<lambda>updated. case updated of None \<Rightarrow> throw AssertionErr | Some r \<Rightarrow> ret r))))) u1 = (w, Inr r)"
      using assms(1) unfolding change_reminder_def bind_Inr by blast
    obtain e where e: "found = Some e" using rest by (cases found) (simp_all add: op_run)
    then have "u1 = s" using g1 by (simp add: reminder_get_Inr)
    then have "seq (change_audited env reminders reminder_checks ?p (f ?n) ConflictError a reason)
       (bind (reminder_get env i) (\<lambda>updated. case updated of None \<Rightarrow> throw AssertionErr | Some r \<Rightarrow> ret r)) s = (w, Inr r)"
      using rest unfolding e option.case seq_Inr[of "of_res _"] bind_Inr[of "of_res _"] by (auto simp: op_run dump_time_Inr)
    then obtain u y v' where ch: "change_audited env reminders reminder_checks ?p (f ?n) ConflictError a reason s = (u, Inr ())"
      and g: "reminder_get env i u = (v', Inr y)" "(case y of None \<Rightarrow> throw AssertionErr | Some r \<Rightarrow> ret r) v' = (w, Inr r)"
      unfolding seq_Inr bind_Inr by blast
    then have "y = Some r" "v' = w" by (cases y; simp add: op_run)+
    then show ?thesis using that ch g by simp
  qed
  have u: "u = audited env a reason (on_rows reminders (update_where ?p (f ?n)) s)"
    and "count_where ?p (t_reminders s) = 1"
    using ch by (auto simp: change_audited_run reminders_def split: if_splits)
  then have "(case find_row rm_id i (t_reminders s) of None \<Rightarrow> 0 | Some r \<Rightarrow> if ?p r then 1 else 0) = (1::nat)"
    using count_where_key[of rm_id "t_reminders s" ?p i, OF assms(2)] by simp
  then obtain row where row: "find_row rm_id i (t_reminders s) = Some row" "?p row"
    by (cases "find_row rm_id i (t_reminders s)") (simp_all split: if_splits)
  have "?p x \<longleftrightarrow> rm_id x = i" if "x \<in> set (t_reminders s)" for x
    using that row find_row_SomeD[OF row(1)] unique_key_eq[OF assms(2), of x row] by auto
  then have "update_where ?p (f ?n) (t_reminders s) = update_where (\<lambda>x. rm_id x = i) (f ?n) (t_reminders s)"
    by (auto simp: update_where_def)
  then have w: "u = audited env a reason (on_rows reminders (update_where (\<lambda>x. rm_id x = i) (f ?n)) s)"
    by (cases s) (simp add: u reminders_def)
  have "t_reminders u = update_where (\<lambda>x. rm_id x = i) (f ?n) (t_reminders s)"
    by (simp add: w reminders_def)
  then have "find_row rm_id i (t_reminders u) = Some (f ?n row)"
    using row(1) find_row_SomeD[OF row(1)] assms(3) by (simp add: find_row_update_where)
  then show ?thesis using g row w by (auto simp: reminder_get_Inr)
qed

lemma on_reminder_exact:
  assumes "unique_key rm_id (t_reminders s)" and run: "on_reminder env now i permitted act ctx s = (w, Inr x)"
    and f: "\<And>n y. rm_id (f n y) = rm_id y"
    and act: "\<And>r a. authorized_at a = now \<Longrightarrow> act r a s = (w, Inr x) \<Longrightarrow> demand
        \<and> change_reminder env (rem_id r) f (map reminder_status_value sts) (rem_version r) a reason s = (w, Inr x)"
  shows "demand \<and> (\<exists>row r. find_row rm_id i (t_reminders s) = Some row \<and> reminder_from_row env row = Inr r
    \<and> rem_status r \<in> set sts \<and> permitted (ctx\<lparr>context_now := Some now\<rparr>) r = Inr ()
    \<and> (\<exists>a. policy_require (has_grant s) (ctx\<lparr>context_now := Some now\<rparr>) UPDATE
         (mk_resource (lit ''reminder'') (rem_id r) (rem_owner r) (rem_classification r)) = Inr a)
    \<and> t_reminders w = update_where (\<lambda>y. rm_id y = i) (f (time_text (a_tz env) now)) (t_reminders s)
    \<and> deliveries (store w) = deliveries (store s)
    \<and> reminder_from_row env (f (time_text (a_tz env) now) row) = Inr x)"
proof -
  obtain row r current a where row: "find_row rm_id i (t_reminders s) = Some row" and r: "reminder_from_row env row = Inr r"
    and cur: "current = ctx\<lparr>context_now := Some now\<rparr>" and p: "permitted current r = Inr ()"
    and q: "require_access current UPDATE (lit ''reminder'') (rem_id r) (rem_owner r) (rem_classification r) s = (s, Inr a)"
    and go: "act r a s = (w, Inr x)" and at: "authorized_at a = now"
    by (rule on_reminder_Inr[OF run])
  have i: "rem_id r = i" and st: "reminder_status_value (rem_status r) = rm_status row"
    using reminder_from_row_fields[OF r] find_row_SomeD[OF row] by auto
  have ch: "change_reminder env i f (map reminder_status_value sts) (rem_version r) a reason s = (w, Inr x)" and d: demand
    using act[OF at go] i by simp_all
  have "rm_status row \<in> reminder_status_value ` set sts" and w: "t_reminders w = update_where (\<lambda>y. rm_id y = i) (f (time_text (a_tz env) now)) (t_reminders s)"
    "deliveries (store w) = deliveries (store s)" "reminder_from_row env (f (time_text (a_tz env) now) row) = Inr x"
    using change_reminder_Inr[OF ch assms(1) f] row at by (auto simp: reminders_def add_audit_def)
  moreover have "reminder_status_value a = reminder_status_value b \<Longrightarrow> a = b" for a b
    by (cases a; cases b) simp_all
  ultimately have "rem_status r \<in> set sts" using st by force
  then show ?thesis using row r p cur d w require_access_Inr(8)[OF q] by blast
qed

text \<open>
  C24. The user actions on reminders are exact: acknowledging or snoozing needs a fired reminder,
  cancelling a pending or fired one and its creator or a manager, snoozing a time in the future;
  the policy granted UPDATE on the reminder; and an action that returns changes the row of that
  reminder only, to the cancelled status or to pending at the new time, with the next version, and
  returns what is then stored. Deliveries stay as they are.
\<close>

theorem reminder_action_exact:
  assumes "unique_key rm_id (t_reminders s)" "reminder_action env now q ctx s = (w, Inr x)"
  shows "\<exists>row r. find_row rm_id (requested_reminder q) (t_reminders s) = Some row \<and> reminder_from_row env row = Inr r
    \<and> rem_status r \<in> set (starts_from q) \<and> further_demand (a_tz env) now ctx q r
    \<and> (\<exists>a. policy_require (has_grant s) (ctx\<lparr>context_now := Some now\<rparr>) UPDATE
         (mk_resource (lit ''reminder'') (rem_id r) (rem_owner r) (rem_classification r)) = Inr a)
    \<and> t_reminders w = update_where (\<lambda>y. rm_id y = requested_reminder q) (moved_row (a_tz env) now q) (t_reminders s)
    \<and> deliveries (store w) = deliveries (store s)
    \<and> reminder_from_row env (moved_row (a_tz env) now q row) = Inr x"
proof (cases q)
  case (AcknowledgeReminder c)
  then have "on_reminder env now (arm_reminder_id c) (\<lambda>current r. Inr ())
      (\<lambda>r a. reminder_acknowledge env (rem_id r) (rem_version r) a) ctx s = (w, Inr x)"
    using assms(2) by (simp add: acknowledge_reminder_def)
  note * = on_reminder_exact[where f = "set_status st_cancelled" and sts = "[REM_FIRED]" and demand = True, OF assms(1) this,
      where reason = "lit ''acknowledged''"]
  show ?thesis using * by (simp add: AcknowledgeReminder reminder_acknowledge_def)
next
  case (CancelReminder c)
  then have "on_reminder env now (xrm_reminder_id c) (\<lambda>current r. require_creator_or_manager current (rem_owner r) (rem_creator r))
      (\<lambda>r a. reminder_cancel env (rem_id r) (rem_version r) a) ctx s = (w, Inr x)"
    using assms(2) by (simp add: cancel_reminder_def)
  note * = on_reminder_exact[where f = "set_status st_cancelled" and sts = "[REM_PENDING, REM_FIRED]" and demand = True,
      OF assms(1) this, where reason = "lit ''cancelled''"]
  show ?thesis using * by (simp add: CancelReminder reminder_cancel_def require_creator_or_manager_Inr)
next
  case (SnoozeReminder c)
  then have "on_reminder env now (srm_reminder_id c) (\<lambda>current r. Inr ())
      (\<lambda>r a. reminder_snooze env (rem_id r) (srm_fire_at c) (rem_version r) a) ctx s = (w, Inr x)"
    using assms(2) by (simp add: snooze_reminder_def)
  moreover have "reminder_snooze env (rem_id r) (srm_fire_at c) (rem_version r) a s = (w, Inr x) \<Longrightarrow> authorized_at a = now \<Longrightarrow>
      \<not> dt_le (a_tz env) (srm_fire_at c) now \<and> change_reminder env (rem_id r)
        (\<lambda>n y. (set_status st_pending n y)\<lparr>rm_fire_at := time_text (a_tz env) (srm_fire_at c)\<rparr>)
        (map reminder_status_value [REM_FIRED]) (rem_version r) a (lit ''snoozed'') s = (w, Inr x)" for r a
    by (auto simp: reminder_snooze_def seq_Inr op_run split: if_splits)
  ultimately have "\<not> dt_le (a_tz env) (srm_fire_at c) now \<and> (\<exists>row r. find_row rm_id (srm_reminder_id c) (t_reminders s) = Some row
    \<and> reminder_from_row env row = Inr r \<and> rem_status r \<in> set [REM_FIRED] \<and> Inr () = (Inr () :: unit res)
    \<and> (\<exists>a. policy_require (has_grant s) (ctx\<lparr>context_now := Some now\<rparr>) UPDATE
         (mk_resource (lit ''reminder'') (rem_id r) (rem_owner r) (rem_classification r)) = Inr a)
    \<and> t_reminders w = update_where (\<lambda>y. rm_id y = srm_reminder_id c) (moved_row (a_tz env) now q) (t_reminders s)
    \<and> deliveries (store w) = deliveries (store s)
    \<and> reminder_from_row env (moved_row (a_tz env) now q row) = Inr x)"
    unfolding SnoozeReminder moved_row.simps by (intro on_reminder_exact[OF assms(1)]) auto
  then show ?thesis by (auto simp: SnoozeReminder)
qed

lemma sample_cancel_runs:
  "\<exists>w x. reminder_action sample_app_env (utc 0) (CancelReminder \<lparr>xrm_reminder_id = lit ''r''\<rparr>) owner_ctx reminder_db = (w, Inr x)"
proof -
  let ?ctx = "owner_ctx\<lparr>context_now := Some (utc 0)\<rparr>"
  let ?n = "time_text (a_tz sample_app_env) (utc 0)"
  obtain r where r: "reminder_from_row sample_app_env sample_reminder_row = Inr r" using sample_row_reads by blast
  have rows: "t_reminders reminder_db = [sample_reminder_row]" by (simp add: reminder_db_ok)
  have row: "rm_id sample_reminder_row = lit ''r''" "rm_owner sample_reminder_row = lit ''u''" "rm_version sample_reminder_row = 1"
    "rm_status sample_reminder_row = st_pending"
    by (simp_all add: sample_reminder_row_def new_reminder_row_def sample_reminder_def)
  have f: "rem_id r = lit ''r''" "rem_owner r = lit ''u''" "rem_version r = 1" using reminder_from_row_fields[OF r] row by simp_all
  have c: "rem_classification r \<in> {PUBLIC, PERSONAL, CONFIDENTIAL}" "rem_classification r = PERSONAL"
    using r by (auto simp: reminder_from_row_def and_then_Inr sample_reminder_row_def new_reminder_row_def sample_reminder_def
        classification_of_def new_reminder_Inr dest!: new_reminder_Inr)
  let ?a = "\<lparr>auth_actor = lit ''u'', auth_action = UPDATE, auth_resource = mk_resource (lit ''reminder'') (lit ''r'') (lit ''u'') PERSONAL,
      authorized_at = utc 0\<rparr>"
  have a: "require_access ?ctx UPDATE (lit ''reminder'') (lit ''r'') (lit ''u'') PERSONAL reminder_db = (reminder_db, Inr ?a)"
    by (simp add: require_access_def resource_def new_resource_ref_def mk_resource_def guarded_def blank_def lit_def py_space_def
        op_simps policy_require_def owner_ctx_def bind_def)
  have checks: "reminder_checks (set_status st_cancelled ?n sample_reminder_row)"
    using set_status_checks reminder_db_ok(1) rows by (simp add: reminders_ok_def reminder_row_ok_def)
  obtain r' where r': "reminder_from_row sample_app_env (set_status st_cancelled ?n sample_reminder_row) = Inr r'"
    using settled_row_reads[of sample_app_env sample_reminder_row "utc 0" REM_CANCELLED] r
    by (auto simp: is_ok_Inr sample_store_simps)
  have g: "reminder_get sample_app_env (lit ''r'') reminder_db = (reminder_db, Inr (Some r))"
    using r rows row by (simp add: reminder_get_Inr find_row_def)
  have auth: "require_authorization ?a UPDATE (lit ''reminder'') (lit ''r'') (lit ''u'') PERSONAL = Inr ()"
    by (simp add: require_authorization_Inr lit_def blank_def py_space_def)
  let ?w = "audited sample_app_env ?a (lit ''cancelled'') (on_rows reminders (update_where (\<lambda>x. rm_id x = lit ''r'' \<and> rm_version x = 1
      \<and> rm_status x \<in> set [st_pending, st_fired]) (set_status st_cancelled ?n)) reminder_db)"
  have g2: "reminder_get sample_app_env (lit ''r'') ?w = (?w, Inr (Some r'))"
    using r' rows row by (simp add: reminder_get_Inr find_row_def reminders_def add_audit_def update_where_def)
  have "reminder_cancel sample_app_env (lit ''r'') 1 ?a reminder_db = (?w, Inr r')"
    using g g2 checks rows row
    by (simp add: reminder_cancel_def change_reminder_def bind_def seq_def op_run f c(2) auth change_audited_run dump_time_def
        guarded_def reminders_def count_where_def sample_store_simps(11))
  then show ?thesis
    using a g by (simp add: cancel_reminder_def on_reminder_def require_found_def bind_def seq_def op_run scoped_context_def owner_context
        f c(2) require_creator_or_manager_def owner_ctx_def[THEN arg_cong, of actor_user_id])
qed

theorem reminder_action_exact_witness:
  "\<exists>w x. reminder_action sample_app_env (utc 0) (CancelReminder \<lparr>xrm_reminder_id = lit ''r''\<rparr>) owner_ctx reminder_db = (w, Inr x)
     \<and> t_reminders w = [set_status st_cancelled (time_text utc_only (utc 0)) sample_reminder_row]"
proof -
  have u: "unique_key rm_id (t_reminders reminder_db)" using reminder_db_ok(1) by (simp add: reminders_ok_def)
  obtain w x where run: "reminder_action sample_app_env (utc 0) (CancelReminder \<lparr>xrm_reminder_id = lit ''r''\<rparr>) owner_ctx reminder_db = (w, Inr x)"
    using sample_cancel_runs by blast
  have "rm_id sample_reminder_row = lit ''r''" by (simp add: sample_reminder_row_def new_reminder_row_def sample_reminder_def)
  then show ?thesis using reminder_action_exact[OF u run] run
    by (auto simp: reminder_db_ok update_where_def sample_store_simps(1))
qed

end
