(* ===== verification/AgendaService.thy ===== *)
theory AgendaService
  imports Commands
begin

text \<open>
  The calendar methods of \<^verbatim>\<open>ZhixuServices\<close>: agenda items with their exceptions, the notification rules of
  an item, lead times, and the two ways of reading the calendar.
\<close>

section \<open>Items\<close>

text \<open>\<^verbatim>\<open>RecurrenceRule(command.recurrence_rule, command.timezone) if command.recurrence_rule else None\<close>.\<close>

definition command_rule :: "app_env \<Rightarrow> pystr option \<Rightarrow> pystr \<Rightarrow> recurrence_rule option res" where
  "command_rule env rule z = (case rule of
       None \<Rightarrow> Inr None
     | Some v \<Rightarrow> if v = [] then Inr None
         else and_then (new_recurrence_rule (a_tz env) (a_rrule_ok env) \<lparr>rrule_value = v, rrule_timezone = z\<rparr>)
           (\<lambda>r. Inr (Some r)))"

definition create_agenda :: "app_env \<Rightarrow> pystr \<Rightarrow> datetime \<Rightarrow> create_agenda_command \<Rightarrow> command_context \<Rightarrow> agenda_item app" where
  "create_agenda env i now c ctx =
     bind (scoped_context ctx now) (\<lambda>current.
     bind (of_res (command_rule env (cag_recurrence_rule c) (cag_timezone c))) (\<lambda>rule.
     bind (of_res (new_agenda_item (a_tz env) \<lparr>ag_id = i, ag_owner = create_owner current (cag_private c),
         ag_title = cag_title c, start_at = cag_start_at c, end_at = cag_end_at c, ag_timezone = cag_timezone c,
         ag_creator = Some (actor_user_id current), all_day = cag_all_day c, ag_description = cag_description c,
         ag_action_links = cag_action_links c, ag_classification = cag_classification c, recurrence = rule,
         ag_version = 1, ag_created_at = None, ag_updated_at = None\<rparr>)) (\<lambda>item.
     bind (require_access current CREATE (lit ''agenda'') (ag_id item) (ag_owner item) (ag_classification item)) (\<lambda>a.
       agenda_create env item a))))"

definition update_agenda :: "app_env \<Rightarrow> datetime \<Rightarrow> update_agenda_command \<Rightarrow> command_context \<Rightarrow> agenda_item app" where
  "update_agenda env now c ctx =
     bind (require_found (agenda_get env (uag_item_id c))) (\<lambda>existing.
     seq (check (ag_version existing \<noteq> uag_expected_version c) ConcurrencyConflict)
    (bind (scoped_context ctx now) (\<lambda>current.
     bind (of_res (command_rule env (uag_recurrence_rule c) (uag_timezone c))) (\<lambda>rule.
     bind (of_res (new_agenda_item (a_tz env) (existing\<lparr>ag_title := uag_title c, ag_description := uag_description c,
         ag_action_links := uag_action_links c, start_at := uag_start_at c, end_at := uag_end_at c,
         ag_timezone := uag_timezone c, all_day := uag_all_day c, ag_classification := uag_classification c,
         recurrence := rule, ag_version := uag_expected_version c + 1\<rparr>))) (\<lambda>updated.
     bind (require_access current UPDATE (lit ''agenda'') (ag_id updated) (ag_owner updated) (ag_classification updated)) (\<lambda>a.
       agenda_update env updated (uag_expected_version c) a))))))"

text \<open>Deleting an item first cancels the pending reminders that announce it, each in its own transaction.\<close>

definition announces :: "agenda_item \<Rightarrow> reminder \<Rightarrow> bool" where
  "announces item r \<longleftrightarrow> related_kind r = Some (lit ''agenda'') \<and> related_id r = Some (ag_id item) \<and> rem_status r = REM_PENDING"

definition cancel_announcement :: "app_env \<Rightarrow> command_context \<Rightarrow> agenda_item \<Rightarrow> reminder \<Rightarrow> unit app" where
  "cancel_announcement env current item r = (if \<not> announces item r then ret ()
     else bind (require_access current UPDATE (lit ''reminder'') (rem_id r) (rem_owner r) (rem_classification r)) (\<lambda>a.
       bind (reminder_cancel env (rem_id r) (rem_version r) a) (\<lambda>_. ret ())))"

definition delete_agenda :: "app_env \<Rightarrow> datetime \<Rightarrow> delete_agenda_command \<Rightarrow> command_context \<Rightarrow> unit app" where
  "delete_agenda env now c ctx =
     bind (require_found (agenda_get env (dag_item_id c))) (\<lambda>existing.
     bind (scoped_context ctx now) (\<lambda>current.
     seq (of_res (require_creator_or_manager current (ag_owner existing) (ag_creator existing)))
    (bind (require_access current DELETE (lit ''agenda'') (ag_id existing) (ag_owner existing) (ag_classification existing)) (\<lambda>a.
     bind (reminder_list_for_owner env (ag_owner existing)) (\<lambda>rs.
     seq (each (cancel_announcement env current existing) rs)
       (agenda_delete env (ag_id existing) a))))))"

definition set_agenda_exception :: "app_env \<Rightarrow> datetime \<Rightarrow> set_agenda_exception_command \<Rightarrow> command_context \<Rightarrow> unit app" where
  "set_agenda_exception env now c ctx =
     bind (require_found (agenda_get env (sae_item_id c))) (\<lambda>existing.
     bind (scoped_context ctx now) (\<lambda>current.
     bind (require_access current UPDATE (lit ''agenda'') (ag_id existing) (ag_owner existing) (ag_classification existing)) (\<lambda>a.
     bind (of_res (new_recurrence_exception (a_tz env) \<lparr>occurrence_at = sae_occurrence_at c, exc_action = sae_action c,
         replacement_start = sae_replacement_start c, replacement_end = sae_replacement_end c\<rparr>)) (\<lambda>x.
       add_exception env (ag_id existing) x a))))"

section \<open>Notification rules and lead times\<close>

definition create_agenda_notification :: "app_env \<Rightarrow> pystr \<Rightarrow> datetime \<Rightarrow> create_agenda_notification_command \<Rightarrow> command_context
    \<Rightarrow> agenda_notification_rule app" where
  "create_agenda_notification env i now c ctx =
     bind (require_found (agenda_get env (can_agenda_item_id c))) (\<lambda>item.
     bind (scoped_context ctx now) (\<lambda>current.
     bind (of_res (new_agenda_notification_rule (a_tz env) \<lparr>nr_id = i, nr_agenda_item_id = ag_id item, nr_owner = ag_owner item,
         nr_creator = actor_user_id current, nr_target_ref = can_target_ref c, nr_time_of_day = can_time_of_day c,
         day_offset = can_day_offset c, nr_text = can_text c, nr_timezone = can_timezone c,
         nr_action_links = can_action_links c, nr_classification = max (ag_classification item) (can_classification c),
         nr_enabled = True, nr_created_at = None\<rparr>)) (\<lambda>rule.
     bind (require_access current CREATE (lit ''agenda_notification'') (nr_id rule) (nr_owner rule) (nr_classification rule)) (\<lambda>a.
       notification_create env rule a))))"

definition update_agenda_notification :: "app_env \<Rightarrow> datetime \<Rightarrow> update_agenda_notification_command \<Rightarrow> command_context
    \<Rightarrow> agenda_notification_rule app" where
  "update_agenda_notification env now c ctx =
     bind (require_found (notification_get env (uan_rule_id c))) (\<lambda>existing.
     bind (scoped_context ctx now) (\<lambda>current.
     bind (of_res (new_agenda_notification_rule (a_tz env) (existing\<lparr>nr_text := text_or (uan_text c) (nr_text existing),
         nr_time_of_day := given_or (uan_time_of_day c) (nr_time_of_day existing),
         day_offset := given_or (uan_day_offset c) (day_offset existing),
         nr_target_ref := text_or (uan_target_ref c) (nr_target_ref existing),
         nr_timezone := text_or (uan_timezone c) (nr_timezone existing),
         nr_enabled := given_or (uan_enabled c) (nr_enabled existing),
         nr_classification := given_or (uan_classification c) (nr_classification existing)\<rparr>))) (\<lambda>updated.
     bind (require_access current UPDATE (lit ''agenda_notification'') (nr_id updated) (nr_owner updated)
         (nr_classification updated)) (\<lambda>a.
       notification_update env updated a))))"

definition delete_agenda_notification :: "app_env \<Rightarrow> datetime \<Rightarrow> delete_agenda_notification_command \<Rightarrow> command_context \<Rightarrow> unit app" where
  "delete_agenda_notification env now c ctx =
     bind (require_found (notification_get env (dan_rule_id c))) (\<lambda>existing.
     bind (scoped_context ctx now) (\<lambda>current.
     bind (require_access current DELETE (lit ''agenda_notification'') (nr_id existing) (nr_owner existing)
         (nr_classification existing)) (\<lambda>a.
       notification_delete env (nr_id existing) a)))"

definition set_notification_leads :: "app_env \<Rightarrow> datetime \<Rightarrow> set_notification_leads_command \<Rightarrow> command_context \<Rightarrow> int list app" where
  "set_notification_leads env now c ctx =
     bind (scoped_context ctx now) (\<lambda>current. let owner = create_owner current False in
     case snl_agenda_item_id c of
       None \<Rightarrow> bind (require_access current UPDATE (lit ''notification_lead'') owner owner PERSONAL) (\<lambda>a.
         lead_set_default env owner (snl_lead_minutes c) now)
     | Some i \<Rightarrow> bind (require_found (agenda_get env i)) (\<lambda>item.
         bind (require_access current UPDATE (lit ''agenda'') (ag_id item) (ag_owner item) (ag_classification item)) (\<lambda>a.
           lead_set_override env (ag_id item) (ag_owner item) (snl_lead_minutes c) now)))"

section \<open>Reading\<close>

definition require_collection :: "command_context \<Rightarrow> pystr \<Rightarrow> unit app" where
  "require_collection current owner = require_read current (lit ''agenda_collection'') owner owner PERSONAL"

definition require_item :: "command_context \<Rightarrow> agenda_item \<Rightarrow> unit app" where
  "require_item current item = require_read current (lit ''agenda'') (ag_id item) (ag_owner item) (ag_classification item)"

text \<open>Each item is looked up and checked at its first occurrence.\<close>

fun check_occurrences :: "app_env \<Rightarrow> command_context \<Rightarrow> pystr list \<Rightarrow> agenda_occurrence list \<Rightarrow> unit app" where
  "check_occurrences env current checked [] = ret ()"
| "check_occurrences env current checked (x # xs) =
     (if occ_item_id x \<in> set checked then check_occurrences env current checked xs
      else bind (require_found (agenda_get env (occ_item_id x))) (\<lambda>item.
        seq (require_item current item) (check_occurrences env current (ag_id item # checked) xs)))"

definition agenda_between :: "app_env \<Rightarrow> datetime \<Rightarrow> agenda_between_query \<Rightarrow> command_context \<Rightarrow> agenda_occurrence list app" where
  "agenda_between env now q ctx =
     bind (scoped_context ctx now) (\<lambda>current.
     bind (gather (\<lambda>owner. seq (require_collection current owner)
         (agenda_occurrences env owner (abq_window_start q) (abq_window_end q))) (read_owners current)) (\<lambda>found.
     let occurrences = sorted_by (\<lambda>x y. time_id_less (a_tz env) (occ_start x, occ_item_id x) (occ_start y, occ_item_id y)) found
     in seq (check_occurrences env current [] occurrences) (ret occurrences)))"

definition list_agenda_items :: "app_env \<Rightarrow> datetime \<Rightarrow> command_context \<Rightarrow> agenda_item list app" where
  "list_agenda_items env now ctx =
     bind (scoped_context ctx now) (\<lambda>current.
     bind (gather (\<lambda>owner. seq (require_collection current owner)
         (bind (agenda_list_for_owner env owner) (\<lambda>items. seq (each (require_item current) items) (ret items))))
       (read_owners current)) (\<lambda>items.
     ret (sorted_by (\<lambda>x y. time_id_less (a_tz env) (start_at x, ag_id x) (start_at y, ag_id y)) items)))"

section \<open>Reading back\<close>

text \<open>A time as it is read: through UTC, in the zone of the item.\<close>

definition in_zone :: "tzdb \<Rightarrow> pystr \<Rightarrow> datetime \<Rightarrow> datetime" where
  "in_zone db z t = astimezone db (utc (instant db t)) (ZoneInfo z)"

definition item_read_back :: "app_env \<Rightarrow> datetime \<Rightarrow> agenda_item \<Rightarrow> agenda_item" where
  "item_read_back env at item = item\<lparr>ag_creator := Some (case ag_creator item of Some u \<Rightarrow> u | None \<Rightarrow> ag_owner item),
     start_at := in_zone (a_tz env) (ag_timezone item) (start_at item),
     end_at := in_zone (a_tz env) (ag_timezone item) (end_at item),
     ag_version := 1, ag_created_at := Some (utc (instant (a_tz env) at)), ag_updated_at := Some (utc (instant (a_tz env) at))\<rparr>"

definition item_row :: "app_env \<Rightarrow> datetime \<Rightarrow> agenda_item \<Rightarrow> agenda_row" where
  "item_row env at item = \<lparr>gr_id = ag_id item, gr_owner = ag_owner item, gr_creator = ag_creator item,
     gr_title = ag_title item, gr_description = ag_description item, gr_links = dump_action_links (ag_action_links item),
     gr_start = time_text (a_tz env) (start_at item), gr_end = time_text (a_tz env) (end_at item),
     gr_timezone = ag_timezone item, gr_all_day = all_day item,
     gr_class = classification_value (ag_classification item), gr_version = 1,
     gr_created = time_text (a_tz env) at, gr_updated = time_text (a_tz env) at\<rparr>"

definition rule_row_of :: "agenda_item \<Rightarrow> rule_row option" where
  "rule_row_of item = map_option (\<lambda>r. \<lparr>rr_item = ag_id item, rr_text = rrule_value r, rr_timezone = rrule_timezone r\<rparr>)
     (recurrence item)"

lemma find_update_where: "find p xs = Some x \<Longrightarrow> p (f x) \<Longrightarrow> find p (update_where p f xs) = Some (f x)"
  by (induction xs) (auto simp: update_where_def split: if_splits)

lemma find_append: "find p (xs @ ys) = (case find p xs of None \<Rightarrow> find p ys | Some x \<Rightarrow> Some x)"
  by (induction xs) auto

lemma write_recurrence_run:
  assumes "write_recurrence item s = (t, r)"
  shows "r = Inr () \<and> find (\<lambda>q. rr_item q = ag_id item) (t_rules t) = rule_row_of item
    \<and> t_agenda t = t_agenda s \<and> store t = store s \<and> t_acl t = t_acl s"
proof (cases "recurrence item")
  case None
  then show ?thesis using assms
    by (auto simp: write_recurrence_def remove_rows_def recurrence_rules_def bind_def op_run rule_row_of_def find_None_iff)
next
  case (Some rule)
  let ?p = "\<lambda>q. rr_item q = ag_id item"
  show ?thesis
  proof (cases "find ?p (t_rules s)")
    case None
    then show ?thesis using assms Some
      by (auto simp: write_recurrence_def fetch_one_def insert_row_def recurrence_rules_def bind_def op_run rule_row_of_def
          find_append)
  next
    case (Some q)
    then have "rr_item q = ag_id item" by (auto simp: find_Some_iff)
    then show ?thesis using assms Some \<open>recurrence item = Some rule\<close> find_update_where[OF Some]
      by (auto simp: write_recurrence_def fetch_one_def change_rows_def recurrence_rules_def bind_def op_run rule_row_of_def
          list.pred_True)
  qed
qed

lemma new_agenda_item_Inr:
  "new_agenda_item db x = Inr y \<Longrightarrow> y = x"
  unfolding new_agenda_item_def by (drule guarded_InrD) simp

lemma new_agenda_item_ok:
  "new_agenda_item db x = Inr x \<longleftrightarrow> \<not> blank (ag_id x) \<and> \<not> blank (ag_owner x) \<and> \<not> blank (ag_title x) \<and> \<not> blank_opt (ag_creator x)
     \<and> aware (start_at x) \<and> aware (end_at x) \<and> z_known db (ag_timezone x) \<and> \<not> dt_le db (end_at x) (start_at x)
     \<and> 1 \<le> ag_version x \<and> \<not> naive_opt (ag_created_at x) \<and> \<not> naive_opt (ag_updated_at x)
     \<and> \<not> not_ordinary (ag_classification x) \<and> length (ag_action_links x) \<le> 8
     \<and> (\<forall>r. recurrence x = Some r \<longrightarrow> rrule_timezone r = ag_timezone x)"
  unfolding new_agenda_item_def guarded_self[symmetric] is_ok_guarded by (auto split: option.splits)

lemma agenda_create_Inr:
  assumes "agenda_create env item a s = (t, Inr stored)"
  shows "new_agenda_item (a_tz env) stored = Inr stored
    \<and> stored = item\<lparr>ag_version := 1, ag_created_at := Some (authorized_at a), ag_updated_at := Some (authorized_at a)\<rparr>
    \<and> find (\<lambda>r. gr_id r = ag_id item) (t_agenda t) = Some (item_row env (authorized_at a) item)
    \<and> find (\<lambda>q. rr_item q = ag_id item) (t_rules t) = rule_row_of item"
proof -
  let ?at = "authorized_at a"
  let ?st = "item\<lparr>ag_version := 1, ag_created_at := Some ?at, ag_updated_at := Some ?at\<rparr>"
  obtain start finish now_text where n: "new_agenda_item (a_tz env) ?st = Inr stored"
    and "dump_time (a_tz env) (start_at stored) = Inr start" "dump_time (a_tz env) (end_at stored) = Inr finish"
      "dump_time (a_tz env) ?at = Inr now_text"
    and tr: "raise_conflict (app_transaction (seq (insert_row agenda agenda_allowed
            \<lparr>gr_id = ag_id stored, gr_owner = ag_owner stored, gr_creator = ag_creator stored,
             gr_title = ag_title stored, gr_description = ag_description stored,
             gr_links = dump_action_links (ag_action_links stored), gr_start = start, gr_end = finish,
             gr_timezone = ag_timezone stored, gr_all_day = all_day stored,
             gr_class = classification_value (ag_classification stored), gr_version = ag_version stored,
             gr_created = now_text, gr_updated = now_text\<rparr>)
        (seq (write_recurrence stored) (audit env a completed [])))) s = (t, Inr ())"
    using assms unfolding agenda_create_def by (auto simp: seq_Inr bind_Inr op_run)
  have st: "stored = ?st" by (rule new_agenda_item_Inr[OF n])
  obtain u v where ins: "insert_row agenda agenda_allowed (item_row env ?at item) s = (u, Inr ())"
    and w: "write_recurrence stored u = (v, Inr ())" and au: "audit env a completed [] v = (t, Inr ())"
    using tr \<open>dump_time (a_tz env) (start_at stored) = Inr start\<close> \<open>dump_time (a_tz env) (end_at stored) = Inr finish\<close>
      \<open>dump_time (a_tz env) ?at = Inr now_text\<close>
    unfolding raise_conflict_Inr app_transaction_Inr seq_Inr dump_time_Inr by (auto simp: item_row_def st)
  have u: "gr_id (item_row env ?at item) \<notin> gr_id ` set (t_agenda s)" "u = on_rows agenda (\<lambda>rs. rs @ [item_row env ?at item]) s"
    using ins by (auto simp: insert_row_def agenda_allowed_def split: if_splits)
  note wr = write_recurrence_run[OF w]
  have id: "gr_id (item_row env ?at item) = ag_id item" by (simp add: item_row_def)
  have "find (\<lambda>r. gr_id r = ag_id item) (t_agenda s) = None"
    using u(1) unfolding id by (force simp: find_None_iff)
  moreover have "t = audited env a [] v" using au by (auto simp: audit_run split: if_splits)
  ultimately show ?thesis
    using n wr u(2) id by (auto simp: st find_append agenda_def add_audit_def rule_row_of_def)
qed

lemma rule_reads_back:
  assumes "find (\<lambda>q. rr_item q = ag_id item) (t_rules t) = rule_row_of item"
    and "\<forall>r. recurrence item = Some r \<longrightarrow> new_recurrence_rule (a_tz env) (a_rrule_ok env) r = Inr r"
  shows "rule_of_item env t (ag_id item) = Inr (recurrence item)"
proof -
  have eta: "\<lparr>rrule_value = rrule_value r, rrule_timezone = rrule_timezone r\<rparr> = r" for r :: recurrence_rule by (cases r) simp
  show ?thesis
    using assms by (cases "recurrence item") (auto simp: rule_of_item_def rule_row_of_def and_then_def eta)
qed

lemma item_row_reads:
  assumes "new_agenda_item (a_tz env) (item\<lparr>ag_version := 1, ag_created_at := Some at, ag_updated_at := Some at\<rparr>)
      = Inr (item\<lparr>ag_version := 1, ag_created_at := Some at, ag_updated_at := Some at\<rparr>)"
    and "rule_of_item env t (ag_id item) = Inr (recurrence item)"
    and "\<forall>l \<in> set (ag_action_links item). new_action_link (a_split env) l = Inr l"
    and "in_range (instant (a_tz env) (start_at item))" "in_range (instant (a_tz env) (end_at item))"
      "in_range (instant (a_tz env) at)"
  shows "agenda_from_row env t (item_row env at item) =
    (if dt_wall (in_zone (a_tz env) (ag_timezone item) (start_at item)) < dt_wall (in_zone (a_tz env) (ag_timezone item) (end_at item))
     then Inr (item_read_back env at item) else Inl ValidationError)"
proof -
  let ?x = "item\<lparr>ag_version := 1, ag_created_at := Some at, ag_updated_at := Some at\<rparr>" and ?y = "item_read_back env at item"
  let ?later = "dt_wall (in_zone (a_tz env) (ag_timezone item) (start_at item)) < dt_wall (in_zone (a_tz env) (ag_timezone item) (end_at item))"
  note ok = assms(1)[unfolded new_agenda_item_ok[of _ ?x]]
  have z: "z_known (a_tz env) (ag_timezone item)" and links: "length (ag_action_links item) \<le> 8"
    using ok by simp_all
  have times: "load_time_in (a_tz env) (ag_timezone item) (time_text (a_tz env) x) = Inr (in_zone (a_tz env) (ag_timezone item) x)"
    if "in_range (instant (a_tz env) x)" for x
    using load_dumped[OF that] z by (simp add: load_time_in_def zone_info_def in_zone_def)
  have cls: "classification_of (classification_value k) = Inr k" for k by (cases k) (simp_all add: classification_of_def)
  have order: "dt_le (a_tz env) (end_at ?y) (start_at ?y) \<longleftrightarrow> \<not> ?later"
    by (simp add: item_read_back_def dt_le_def dt_sub_def in_zone_def astimezone_def utc_def Let_def not_less)
  have fields: "ag_id ?y = ag_id item" "ag_owner ?y = ag_owner item" "ag_title ?y = ag_title item" "\<not> blank_opt (ag_creator ?y)"
    "aware (start_at ?y)" "aware (end_at ?y)" "ag_timezone ?y = ag_timezone item"
    using ok by (auto simp: item_read_back_def in_zone_def astimezone_def aware_def utc_def blank_opt_def Let_def split: option.split)
  have "new_agenda_item (a_tz env) ?y = (if ?later then Inr ?y else Inl ValidationError)"
  proof (cases ?later)
    case True
    have "new_agenda_item (a_tz env) ?y = Inr ?y"
      unfolding new_agenda_item_ok order fields
      using ok True fields(4-6) by (simp add: item_read_back_def aware_def utc_def naive_opt_def)
    then show ?thesis using True by simp
  next
    case False
    have "new_agenda_item (a_tz env) ?y = Inl ValidationError"
      unfolding new_agenda_item_def order fields using ok False fields(4-6) by (simp add: guarded_def)
    then show ?thesis using False by simp
  qed
  moreover have "\<lparr>ag_id = ag_id item, ag_owner = ag_owner item, ag_title = ag_title item,
      start_at = in_zone (a_tz env) (ag_timezone item) (start_at item), end_at = in_zone (a_tz env) (ag_timezone item) (end_at item),
      ag_timezone = ag_timezone item, ag_creator = Some (case ag_creator item of Some u \<Rightarrow> u | None \<Rightarrow> ag_owner item),
      all_day = all_day item, ag_description = ag_description item, ag_action_links = ag_action_links item,
      ag_classification = ag_classification item, recurrence = recurrence item, ag_version = 1,
      ag_created_at = Some (utc (instant (a_tz env) at)), ag_updated_at = Some (utc (instant (a_tz env) at))\<rparr> = ?y"
    by (simp add: item_read_back_def)
  ultimately show ?thesis
    using assms(2) times[OF assms(4)] times[OF assms(5)] load_dumped[OF assms(6)] load_dumped_links[of "ag_action_links item"] assms(3) links cls
    by (simp add: agenda_from_row_def item_row_def cong: option.case_cong)
qed

text \<open>
  C36. A created calendar item reads back exactly when it is in order on its own wall clock: after a
  creation returned, reading the item gives what was stored, with its rule and links, the start and
  the end in the item's zone and the creator filled in, if the end is later than the start on the
  clock of that zone. Otherwise, which happens when the end falls into the repeated hour of a clock
  change and the two were compared as instants on creation, every later read of the item raises.
\<close>

theorem agenda_read_back:
  assumes "agenda_create env item a s = (t, Inr stored)"
    and "\<forall>r. recurrence item = Some r \<longrightarrow> new_recurrence_rule (a_tz env) (a_rrule_ok env) r = Inr r"
    and "\<forall>l \<in> set (ag_action_links item). new_action_link (a_split env) l = Inr l"
    and "in_range (instant (a_tz env) (start_at item))" "in_range (instant (a_tz env) (end_at item))"
      "in_range (instant (a_tz env) (authorized_at a))"
  shows "agenda_get env (ag_id item) t = (t,
    if dt_wall (in_zone (a_tz env) (ag_timezone item) (start_at item)) < dt_wall (in_zone (a_tz env) (ag_timezone item) (end_at item))
    then Inr (Some (item_read_back env (authorized_at a) item)) else Inl ValidationError)"
proof -
  note cr = agenda_create_Inr[OF assms(1)]
  have "agenda_from_row env t (item_row env (authorized_at a) item) =
    (if dt_wall (in_zone (a_tz env) (ag_timezone item) (start_at item)) < dt_wall (in_zone (a_tz env) (ag_timezone item) (end_at item))
     then Inr (item_read_back env (authorized_at a) item) else Inl ValidationError)"
    using cr rule_reads_back[OF _ assms(2)] by (intro item_row_reads[OF _ _ assms(3-6)]) auto
  then show ?thesis using cr by (auto simp: agenda_get_def fetch_one_def agenda_def bind_def op_run)
qed

text \<open>A zone whose clocks go back by an hour two hours after the epoch, and an item across the change.\<close>

definition clock_change :: tzdb where
  "clock_change = \<lparr>z_known = (\<lambda>z. True), z_offset_utc = (\<lambda>z t. if t < 2 * us_hour then us_hour else 0),
     z_fold_utc = (\<lambda>z t. 2 * us_hour \<le> t \<and> t < 3 * us_hour),
     z_offset_wall = (\<lambda>z w f. if w < 2 * us_hour \<or> (w < 3 * us_hour \<and> \<not> f) then us_hour else 0)\<rparr>"

definition change_env :: app_env where
  "change_env = sample_app_env\<lparr>a_tz := clock_change\<rparr>"

definition night_item :: agenda_item where
  "night_item = \<lparr>ag_id = lit ''g'', ag_owner = lit ''u'', ag_title = lit ''shift'', start_at = utc (90 * us_minute),
     end_at = utc (135 * us_minute), ag_timezone = lit ''Z'', ag_creator = None, all_day = False, ag_description = [],
     ag_action_links = [], ag_classification = PERSONAL, recurrence = None, ag_version = 1, ag_created_at = None,
     ag_updated_at = None\<rparr>"

lemma utc_instant: "instant db (utc n) = n"
  by (simp add: instant_def utc_def)

lemma night_item_created:
  "\<exists>t stored. agenda_create change_env night_item (sample_auth CREATE (lit ''agenda'') (lit ''g'')) sample_app_db = (t, Inr stored)"
proof -
  let ?a = "sample_auth CREATE (lit ''agenda'') (lit ''g'')"
  let ?st = "night_item\<lparr>ag_version := 1, ag_created_at := Some (utc 0), ag_updated_at := Some (utc 0)\<rparr>"
  have n: "new_agenda_item (a_tz change_env) ?st = Inr ?st"
    unfolding new_agenda_item_ok
    by (simp add: night_item_def change_env_def clock_change_def blank_def blank_opt_def naive_opt_def lit_def py_space_def
        dt_le_def dt_sub_def aware_def utc_def)
  have auth: "require_authorization ?a CREATE (lit ''agenda'') (lit ''g'') (lit ''u'') PERSONAL = Inr ()"
    by (simp add: require_authorization_Inr sample_store_simps lit_def blank_def py_space_def)
  have allowed: "agenda_allowed sample_app_db (item_row change_env (utc 0) night_item)"
    using sample_store_simps(9)
    by (simp add: agenda_allowed_def item_row_def night_item_def user_or_null_def agenda_checks_def ordinary_class_def sample_app_db_def)
  have aw: "aware (utc n)" for n by (simp add: aware_def utc_def)
  have st: "recurrence ?st = None" "ag_id night_item = lit ''g''" "ag_owner night_item = lit ''u''" "ag_classification night_item = PERSONAL"
    "start_at night_item = utc (90 * us_minute)" "end_at night_item = utc (135 * us_minute)"
    by (simp_all add: night_item_def)
  have at: "authorized_at ?a = utc 0" by (simp add: sample_store_simps)
  obtain v where w: "write_recurrence ?st (on_rows agenda (\<lambda>rs. rs @ [item_row change_env (utc 0) night_item]) sample_app_db) = (v, Inr ())"
    using write_recurrence_run by (metis surj_pair)
  have "raise_conflict (app_transaction (seq (insert_row agenda agenda_allowed (item_row change_env (utc 0) night_item))
      (seq (write_recurrence ?st) (audit change_env ?a completed [])))) sample_app_db = (audited change_env ?a [] v, Inr ())"
    using allowed w by (simp add: raise_conflict_def app_transaction_def atomically_def seq_def bind_def insert_row_def audit_run at aw)
  then show ?thesis
    using n auth unfolding agenda_create_def at st
    by (simp add: seq_def bind_def op_run dump_time_def guarded_def aw st item_row_def)
qed

theorem agenda_read_back_witness:
  "\<exists>t stored. agenda_create change_env night_item (sample_auth CREATE (lit ''agenda'') (lit ''g'')) sample_app_db = (t, Inr stored)
     \<and> agenda_get change_env (lit ''g'') t = (t, Inl ValidationError)"
proof -
  obtain t stored where cr: "agenda_create change_env night_item (sample_auth CREATE (lit ''agenda'') (lit ''g'')) sample_app_db
      = (t, Inr stored)" using night_item_created by blast
  have f: "ag_id night_item = lit ''g''" "recurrence night_item = None" "ag_action_links night_item = []"
    "start_at night_item = utc (90 * us_minute)" "end_at night_item = utc (135 * us_minute)"
    by (simp_all add: night_item_def)
  have "\<not> dt_wall (in_zone clock_change z (utc (90 * us_minute))) < dt_wall (in_zone clock_change z (utc (135 * us_minute)))" for z
    by (simp add: in_zone_def astimezone_def utc_instant clock_change_def Let_def) (simp add: utc_def)
  then show ?thesis
    using agenda_read_back[OF cr] cr
    by (simp add: f utc_instant sample_store_simps in_range_def change_env_def)
qed

end
