(* ===== verification/BriefingService.thy ===== *)
theory BriefingService
  imports Commands
begin

text \<open>
  The methods of \<^verbatim>\<open>ZhixuServices\<close> for important days, with the search for duplicates, and for daily
  briefings.
\<close>

section \<open>Duplicates\<close>

definition DEFAULT_ANNIVERSARY_ADVANCE_DAYS :: "int list" where
  "DEFAULT_ANNIVERSARY_ADVANCE_DAYS = [30, 15, 7]"

definition DEFAULT_BIRTHDAY_ADVANCE_DAYS :: "int list" where
  "DEFAULT_BIRTHDAY_ADVANCE_DAYS = [7, 3, 1]"

fun default_advance_days :: "important_day_kind \<Rightarrow> int list" where
  "default_advance_days KIND_BIRTHDAY = DEFAULT_BIRTHDAY_ADVANCE_DAYS"
| "default_advance_days KIND_ANNIVERSARY = DEFAULT_ANNIVERSARY_ADVANCE_DAYS"

text \<open>
  The title without white space after \<open>nfkc\<close>, which stands for
  \<^verbatim>\<open>unicodedata.normalize("NFKC", value).casefold()\<close>.
\<close>

definition important_day_title_key :: "(pystr \<Rightarrow> pystr) \<Rightarrow> pystr \<Rightarrow> pystr" where
  "important_day_title_key nfkc value = filter (\<lambda>c. \<not> py_space c) (nfkc value)"

text \<open>The date that recurs, and for an anniversary the year it is counted from.\<close>

datatype day_key = SolarKey int int "int option" | LunarKey "int option" "int option" bool "int option"

definition important_day_date_key :: "calendar_system \<Rightarrow> important_day_kind \<Rightarrow> date \<Rightarrow> int option \<Rightarrow> int option \<Rightarrow> bool \<Rightarrow> day_key" where
  "important_day_date_key calendar kind anchor m d leap =
     (let counted = (if kind = KIND_ANNIVERSARY then Some (year anchor) else None) in
      case calendar of LUNAR \<Rightarrow> LunarKey m d leap counted | SOLAR \<Rightarrow> SolarKey (month anchor) (day anchor) counted)"

definition same_day :: "(pystr \<Rightarrow> pystr) \<Rightarrow> create_anniversary_command \<Rightarrow> anniversary \<Rightarrow> bool" where
  "same_day nfkc c x \<longleftrightarrow> ann_kind x = cay_kind c \<and> ann_calendar x = cay_calendar c
     \<and> important_day_title_key nfkc (ann_title x) = important_day_title_key nfkc (cay_title c)
     \<and> important_day_date_key (ann_calendar x) (ann_kind x) (anchor_date x) (lunar_month x) (lunar_day x) (lunar_leap x)
       = important_day_date_key (cay_calendar c) (cay_kind c) (cay_anchor_date c) (cay_lunar_month c) (cay_lunar_day c) (cay_lunar_leap c)"

definition find_matching_anniversary :: "app_env \<Rightarrow> (pystr \<Rightarrow> pystr) \<Rightarrow> datetime \<Rightarrow> create_anniversary_command \<Rightarrow> command_context
    \<Rightarrow> anniversary option app" where
  "find_matching_anniversary env nfkc now c ctx =
     bind (scoped_context ctx now) (\<lambda>current.
     bind (anniversary_list_for_owner env (create_owner current (cay_private c))) (\<lambda>xs.
     case find (same_day nfkc c) xs of
       None \<Rightarrow> ret None
     | Some x \<Rightarrow> seq (require_read current (lit ''anniversary'') (ann_id x) (ann_owner x) (ann_classification x))
         (ret (Some x))))"

section \<open>Important days\<close>

definition create_anniversary :: "app_env \<Rightarrow> (pystr \<Rightarrow> pystr) \<Rightarrow> pystr \<Rightarrow> datetime \<Rightarrow> datetime \<Rightarrow> create_anniversary_command
    \<Rightarrow> command_context \<Rightarrow> anniversary app" where
  "create_anniversary env nfkc i now later c ctx =
     bind (scoped_context ctx now) (\<lambda>current.
     bind (find_matching_anniversary env nfkc later c current) (\<lambda>duplicate.
     seq (check (duplicate \<noteq> None \<and> \<not> (confirmed current \<and> cay_allow_duplicate c)) ConfirmationRequired)
    (bind (of_res (new_anniversary (a_tz env) \<lparr>ann_id = i, ann_owner = create_owner current (cay_private c),
         ann_creator = actor_user_id current, ann_title = cay_title c, anchor_date = cay_anchor_date c,
         ann_timezone = cay_timezone c, ann_kind = cay_kind c, ann_calendar = cay_calendar c,
         lunar_month = cay_lunar_month c, lunar_day = cay_lunar_day c, lunar_leap = cay_lunar_leap c,
         advance_days = given_or (cay_advance_days c) (default_advance_days (cay_kind c)),
         ann_classification = cay_classification c, ann_created_at = None\<rparr>)) (\<lambda>x.
     bind (require_access current CREATE (lit ''anniversary'') (ann_id x) (ann_owner x) (ann_classification x)) (\<lambda>a.
       anniversary_create env x a)))))"

text \<open>A change of the calendar carries its own date; without one the given parts replace the stored ones.\<close>

definition updated_anniversary :: "update_anniversary_command \<Rightarrow> anniversary \<Rightarrow> anniversary" where
  "updated_anniversary c x =
     (let (m, d, leap) = (case uay_calendar c of
          Some _ \<Rightarrow> (uay_lunar_month c, uay_lunar_day c, given_or (uay_lunar_leap c) False)
        | None \<Rightarrow> (if uay_lunar_month c \<noteq> None then uay_lunar_month c else lunar_month x,
                  if uay_lunar_day c \<noteq> None then uay_lunar_day c else lunar_day x,
                  given_or (uay_lunar_leap c) (lunar_leap x)))
      in x\<lparr>ann_title := text_or (uay_title c) (ann_title x), anchor_date := given_or (uay_anchor_date c) (anchor_date x),
           ann_kind := given_or (uay_kind c) (ann_kind x), ann_calendar := given_or (uay_calendar c) (ann_calendar x),
           lunar_month := m, lunar_day := d, lunar_leap := leap,
           advance_days := given_or (uay_advance_days c) (advance_days x),
           ann_timezone := text_or (uay_timezone c) (ann_timezone x),
           ann_classification := given_or (uay_classification c) (ann_classification x)\<rparr>)"

definition update_anniversary :: "app_env \<Rightarrow> datetime \<Rightarrow> update_anniversary_command \<Rightarrow> command_context \<Rightarrow> anniversary app" where
  "update_anniversary env now c ctx =
     bind (require_found (anniversary_get env (uay_anniversary_id c))) (\<lambda>existing.
     bind (scoped_context ctx now) (\<lambda>current.
     bind (of_res (new_anniversary (a_tz env) (updated_anniversary c existing))) (\<lambda>updated.
     bind (require_access current UPDATE (lit ''anniversary'') (ann_id updated) (ann_owner updated) (ann_classification updated)) (\<lambda>a.
       anniversary_update env updated a))))"

definition delete_anniversary :: "app_env \<Rightarrow> datetime \<Rightarrow> delete_anniversary_command \<Rightarrow> command_context \<Rightarrow> unit app" where
  "delete_anniversary env now c ctx =
     bind (require_found (anniversary_get env (day_anniversary_id c))) (\<lambda>existing.
     bind (scoped_context ctx now) (\<lambda>current.
     bind (require_access current DELETE (lit ''anniversary'') (ann_id existing) (ann_owner existing) (ann_classification existing)) (\<lambda>a.
       anniversary_delete env (ann_id existing) a)))"

definition list_anniversaries :: "app_env \<Rightarrow> datetime \<Rightarrow> command_context \<Rightarrow> anniversary list app" where
  "list_anniversaries env now ctx =
     bind (scoped_context ctx now) (\<lambda>current.
     bind (gather (anniversary_list_for_owner env) (read_owners current)) (\<lambda>xs.
     seq (each (\<lambda>x. require_read current (lit ''anniversary'') (ann_id x) (ann_owner x) (ann_classification x)) xs)
       (ret xs)))"

section \<open>Daily briefings\<close>

definition create_daily_briefing :: "app_env \<Rightarrow> pystr \<Rightarrow> datetime \<Rightarrow> create_daily_briefing_command \<Rightarrow> command_context
    \<Rightarrow> daily_briefing app" where
  "create_daily_briefing env i now c ctx =
     bind (scoped_context ctx now) (\<lambda>current.
     bind (of_res (new_daily_briefing (a_tz env) \<lparr>br_id = i, br_owner = create_owner current (cdb_private c),
         br_creator = actor_user_id current, br_target_ref = cdb_target_ref c, time_of_day = cdb_time_of_day c,
         br_timezone = cdb_timezone c, br_classification = cdb_classification c, br_enabled = True, last_sent_on = None,
         br_created_at = None, br_updated_at = None\<rparr>)) (\<lambda>b.
     bind (require_access current CREATE (lit ''daily_briefing'') (br_id b) (br_owner b) (br_classification b)) (\<lambda>a.
       briefing_create env b a)))"

definition update_daily_briefing :: "app_env \<Rightarrow> datetime \<Rightarrow> update_daily_briefing_command \<Rightarrow> command_context
    \<Rightarrow> daily_briefing app" where
  "update_daily_briefing env now c ctx =
     bind (require_found (briefing_get env (udb_briefing_id c))) (\<lambda>existing.
     bind (scoped_context ctx now) (\<lambda>current.
     bind (of_res (new_daily_briefing (a_tz env) (existing\<lparr>time_of_day := given_or (udb_time_of_day c) (time_of_day existing),
         br_target_ref := text_or (udb_target_ref c) (br_target_ref existing),
         br_timezone := text_or (udb_timezone c) (br_timezone existing),
         br_enabled := given_or (udb_enabled c) (br_enabled existing),
         br_classification := given_or (udb_classification c) (br_classification existing)\<rparr>))) (\<lambda>updated.
     bind (require_access current UPDATE (lit ''daily_briefing'') (br_id updated) (br_owner updated) (br_classification updated)) (\<lambda>a.
       briefing_update env updated a now))))"

definition delete_daily_briefing :: "app_env \<Rightarrow> datetime \<Rightarrow> delete_daily_briefing_command \<Rightarrow> command_context \<Rightarrow> unit app" where
  "delete_daily_briefing env now c ctx =
     bind (require_found (briefing_get env (ddb_briefing_id c))) (\<lambda>existing.
     bind (scoped_context ctx now) (\<lambda>current.
     bind (require_access current DELETE (lit ''daily_briefing'') (br_id existing) (br_owner existing) (br_classification existing)) (\<lambda>a.
       briefing_delete env (br_id existing) a)))"

definition list_daily_briefings :: "app_env \<Rightarrow> datetime \<Rightarrow> command_context \<Rightarrow> daily_briefing list app" where
  "list_daily_briefings env now ctx =
     bind (scoped_context ctx now) (\<lambda>current.
     bind (gather (briefing_list_for_owner env) (read_owners current)) (\<lambda>bs.
     seq (each (\<lambda>b. require_read current (lit ''daily_briefing'') (br_id b) (br_owner b) (br_classification b)) bs)
       (ret bs)))"

end
