(* ===== verification/NoteRows.thy ===== *)
theory NoteRows
  imports NoteStore
begin

text \<open>
  What the writes of \<^verbatim>\<open>NoteRepository\<close> leave in the tables of a note and what a read makes of it: attachments, blocks
  with their fields, tags, the category path, and then the whole entity after a creation and after an update.
\<close>

section \<open>Rows of the parts\<close>

lemma insert_row_Inr: "insert_row tab ok r s = (t, Inr ()) \<longleftrightarrow> ok s r \<and> t = on_rows tab (\<lambda>rs. rs @ [r]) s"
  by (auto simp: insert_row_def)

lemma part_tables:
  "on_rows attachment_table f s = s\<lparr>t_attachments := f (t_attachments s)\<rparr>"
  "on_rows block_table g s = s\<lparr>t_blocks := g (t_blocks s)\<rparr>"
  "on_rows field_table h s = s\<lparr>t_fields := h (t_fields s)\<rparr>"
  by (cases s; simp add: attachment_table_def block_table_def field_table_def)+

lemma insort_key_map: "insort_key f (h x) (map h xs) = map h (insort_key (\<lambda>x. f (h x)) x xs)"
  by (induction xs) simp_all

lemma sort_key_map: "sort_key f (map h xs) = map h (sort_key (\<lambda>x. f (h x)) xs)"
  by (induction xs) (simp_all add: insort_key_map)

lemma rows_written:
  assumes "each (\<lambda>x. insert_row tab ok (f x)) xs s = (t, Inr ())"
    and "\<And>g h s. on_rows tab g (on_rows tab h s) = on_rows tab (\<lambda>rs. g (h rs)) s" "\<And>s. on_rows tab (\<lambda>rs. rs) s = s"
  shows "t = on_rows tab (\<lambda>rs. rs @ map f xs) s"
  using assms(1)
proof (induction xs arbitrary: s)
  case Nil
  then show ?case by (simp add: op_run assms(3))
next
  case (Cons x xs)
  from Cons.prems have "each (\<lambda>x. insert_row tab ok (f x)) xs (on_rows tab (\<lambda>rs. rs @ [f x]) s) = (t, Inr ())"
    by (simp add: seq_Inr insert_row_Inr)
  from Cons.IH[OF this] show ?case by (simp add: assms(2))
qed

definition attachment_of :: "attachment_row \<Rightarrow> note_attachment" where
  "attachment_of r = \<lparr>att_id = nt_id r, att_filename = nt_filename r, att_media_type = nt_media r, att_size_bytes = nt_size r,
     att_content_ref = nt_ref r\<rparr>"

lemma write_attachments_Inr:
  assumes "write_attachments n s = (t, Inr ())" "\<forall>a \<in> set (note_attachments n). new_note_attachment a = Inr a"
  shows "(\<exists>as. t = s\<lparr>t_attachments := as\<rparr>) \<and> read_attachments t (note_id n) = Inr (sort_key att_id (note_attachments n))"
proof -
  let ?f = "\<lambda>a. \<lparr>nt_note = note_id n, nt_id = att_id a, nt_filename = att_filename a, nt_media = att_media_type a,
        nt_size = att_size_bytes a, nt_ref = att_content_ref a\<rparr>"
  let ?u = "s\<lparr>t_attachments := filter (\<lambda>r. nt_note r \<noteq> note_id n) (t_attachments s)\<rparr>"
  have "each (\<lambda>a. insert_row attachment_table attachment_allowed (?f a)) (note_attachments n) ?u = (t, Inr ())"
    using assms(1) by (simp add: write_attachments_def bind_def remove_rows_def part_tables)
  from rows_written[OF this] have t: "t = s\<lparr>t_attachments := t_attachments ?u @ map ?f (note_attachments n)\<rparr>"
    by (simp add: part_tables)
  have rows: "filter (\<lambda>r. nt_note r = note_id n) (t_attachments t) = map ?f (note_attachments n)"
    by (simp add: t filter_map comp_def)
  have again: "attachment_of (?f a) = a" for a by (cases a) (simp add: attachment_of_def)
  have "map_res (\<lambda>r. new_note_attachment (attachment_of r)) (sort_key nt_id (map ?f xs)) = Inr (sort_key att_id xs)"
    if "\<forall>a \<in> set xs. new_note_attachment a = Inr a" for xs
  proof -
    have "sort_key nt_id (map ?f xs) = map ?f (sort_key att_id xs)" by (simp add: sort_key_map comp_def)
    then have "map attachment_of (sort_key nt_id (map ?f xs)) = sort_key att_id xs" by (simp add: again comp_def)
    moreover have "map_res (\<lambda>r. new_note_attachment (attachment_of r)) rs = map_res new_note_attachment (map attachment_of rs)" for rs
      by (simp add: map_res_map comp_def)
    moreover have "map_res new_note_attachment (sort_key att_id xs) = Inr (sort_key att_id xs)"
      by (rule map_res_id) (use that in simp)
    ultimately show ?thesis by simp
  qed
  then show ?thesis using assms(2) t unfolding read_attachments_def rows by (auto simp: attachment_of_def)
qed

text \<open>The rows of a block and its fields.\<close>

definition block_row_of :: "note_entity \<Rightarrow> pystr \<Rightarrow> pystr \<Rightarrow> nat \<times> note_content_block \<Rightarrow> block_row" where
  "block_row_of n created updated x = \<lparr>nb_id = block_id (snd x), nb_note = note_id n, nb_name = block_name (snd x),
     nb_body = block_body (snd x), nb_position = fst x, nb_created = created, nb_updated = updated\<rparr>"

definition field_row_of :: "note_content_block \<Rightarrow> nat \<times> note_field \<Rightarrow> field_row" where
  "field_row_of b x = \<lparr>nf_block = block_id b, nf_name = field_name (snd x), nf_value = field_value (snd x), nf_position = fst x\<rparr>"

definition field_rows :: "note_content_block \<Rightarrow> field_row list" where
  "field_rows b = map (field_row_of b) (enumerate 0 (block_fields b))"

lemma write_block_Inr:
  assumes "write_block n c u x s = (t, Inr ())"
  shows "block_id (snd x) \<notin> nb_id ` set (t_blocks s)
    \<and> t = s\<lparr>t_blocks := t_blocks s @ [block_row_of n c u x], t_fields := t_fields s @ field_rows (snd x)\<rparr>"
proof -
  obtain k b where x: "x = (k, b)" by (cases x)
  from assms have ok: "block_allowed s (block_row_of n c u x)" and
    "each (\<lambda>y. insert_row field_table field_allowed (field_row_of b y)) (enumerate 0 (block_fields b))
      (s\<lparr>t_blocks := t_blocks s @ [block_row_of n c u x]\<rparr>) = (t, Inr ())"
    by (auto simp: x write_block_def seq_Inr insert_row_Inr part_tables block_row_of_def field_row_of_def case_prod_beta')
  from rows_written[OF this(2)] have "t = s\<lparr>t_blocks := t_blocks s @ [block_row_of n c u x], t_fields := t_fields s @ field_rows b\<rparr>"
    by (simp add: part_tables field_rows_def)
  then show ?thesis using ok by (simp add: x block_allowed_def block_row_of_def)
qed

lemma blocks_written:
  assumes "each (write_block n c u) xs s = (t, Inr ())"
  shows "t = s\<lparr>t_blocks := t_blocks s @ map (block_row_of n c u) xs, t_fields := t_fields s @ concat (map (\<lambda>x. field_rows (snd x)) xs)\<rparr>
    \<and> distinct (map (\<lambda>x. block_id (snd x)) xs) \<and> (\<forall>x \<in> set xs. block_id (snd x) \<notin> nb_id ` set (t_blocks s))"
  using assms
proof (induction xs arbitrary: s)
  case Nil
  then show ?case by (simp add: op_run)
next
  case (Cons x xs)
  let ?u = "s\<lparr>t_blocks := t_blocks s @ [block_row_of n c u x], t_fields := t_fields s @ field_rows (snd x)\<rparr>"
  from Cons.prems obtain v where v: "write_block n c u x s = (v, Inr ())" "each (write_block n c u) xs v = (t, Inr ())"
    by (auto simp: seq_Inr)
  note w = write_block_Inr[OF v(1)]
  from v(2) w have "each (write_block n c u) xs ?u = (t, Inr ())" by simp
  from Cons.IH[OF this] w show ?case by (auto simp: block_row_of_def)
qed

lemma enumerate_sorted: "sorted (map (\<lambda>x. (fst x, g (snd x))) (enumerate k xs))"
proof (induction xs arbitrary: k)
  case (Cons x xs)
  have "k < fst y" if y: "y \<in> set (enumerate (Suc k) xs)" for y
    using in_set_enumerate_eq[THEN iffD1, OF y] by linarith
  with Cons show ?case by (auto simp: less_le_not_le)
qed simp

lemma fields_of_block:
  assumes "distinct (map (\<lambda>x. block_id (snd x)) xs)" "x \<in> set xs"
  shows "filter (\<lambda>f. nf_block f = block_id (snd x)) (concat (map (\<lambda>x. field_rows (snd x)) xs)) = field_rows (snd x)"
  using assms
proof (induction xs)
  case (Cons y ys)
  have here: "filter (\<lambda>f. nf_block f = i) (field_rows b) = (if i = block_id b then field_rows b else [])" for i b
    by (auto simp: field_rows_def field_row_of_def filter_map comp_def)
  have none: "filter (\<lambda>f. nf_block f = i) (concat (map (\<lambda>x. field_rows (snd x)) zs)) = []"
    if "i \<notin> (\<lambda>x. block_id (snd x)) ` set zs" for i zs
    using that by (induction zs) (auto simp: here)
  show ?case
  proof (cases "x = y")
    case True
    then show ?thesis using Cons.prems none[of "block_id (snd y)" ys] by (simp add: here)
  next
    case False
    then have m: "x \<in> set ys" using Cons.prems(2) by simp
    have "block_id (snd y) \<notin> (\<lambda>x. block_id (snd x)) ` set ys" using Cons.prems(1) by simp
    with m have "block_id (snd x) \<noteq> block_id (snd y)" by (metis imageI)
    with m show ?thesis using Cons by (simp add: here)
  qed
qed simp

definition block_object :: "note_content_block \<Rightarrow> bool" where
  "block_object b \<longleftrightarrow> new_note_content_block b = Inr b \<and> (\<forall>f \<in> set (block_fields b). new_note_field f = Inr f)"

lemma read_written_block:
  assumes "block_object b" "filter (\<lambda>f. nf_block f = block_id b) (t_fields s) = field_rows b"
  shows "read_block s (block_row_of n c u (k, b)) = Inr b"
proof -
  have order: "sort_key (\<lambda>f. (nf_position f, nf_name f)) (field_rows b) = field_rows b"
    using enumerate_sorted[of field_name 0 "block_fields b"]
    by (intro sort_key_id_if_sorted) (simp add: field_rows_def field_row_of_def comp_def)
  have whole: "\<lparr>block_name = block_name b, block_body = block_body b, block_fields = block_fields b, block_id = block_id b\<rparr> = b"
    by (cases b) simp
  have field: "\<lparr>field_name = field_name f, field_value = field_value f\<rparr> = f" for f :: note_field by (cases f) simp
  have "map_res (\<lambda>f. new_note_field \<lparr>field_name = nf_name f, field_value = nf_value f\<rparr>) (field_rows b)
      = map_res (\<lambda>x. new_note_field (snd x)) (enumerate 0 (block_fields b))"
    by (simp add: field_rows_def field_row_of_def map_res_map field)
  also have "\<dots> = Inr (map snd (enumerate 0 (block_fields b)))"
    by (rule map_res_all_Inr) (use assms(1) in \<open>auto simp: block_object_def in_set_enumerate_eq\<close>)
  also have "map snd (enumerate 0 (block_fields b)) = block_fields b" by simp
  finally show ?thesis using assms(1)
    by (simp add: read_block_def block_row_of_def assms(2) order block_object_def whole)
qed

lemma write_content_blocks_Inr:
  assumes "write_content_blocks n c u s = (t, Inr ())" "blocks_wf s" "\<forall>b \<in> set (content_blocks n). block_object b"
  shows "(\<exists>bs fs. t = s\<lparr>t_blocks := bs, t_fields := fs\<rparr>) \<and> blocks_wf t \<and> read_blocks t (note_id n) = Inr (content_blocks n)"
proof -
  let ?d = "drop_blocks (note_id n) s" and ?xs = "enumerate 0 (content_blocks n)"
  have "each (write_block n c u) ?xs ?d = (t, Inr ())"
    using assms(1) by (simp add: write_content_blocks_def op_simps)
  from blocks_written[OF this] have t: "t = ?d\<lparr>t_blocks := t_blocks ?d @ map (block_row_of n c u) ?xs,
        t_fields := t_fields ?d @ concat (map (\<lambda>x. field_rows (snd x)) ?xs)\<rparr>"
    and ids: "distinct (map (\<lambda>x. block_id (snd x)) ?xs)" and new: "\<And>x. x \<in> set ?xs \<Longrightarrow> block_id (snd x) \<notin> nb_id ` set (t_blocks ?d)"
    by blast+
  have d: "distinct (map nb_id (t_blocks ?d))" using assms(2) by (simp add: drop_blocks_def Let_def blocks_wf_def distinct_map_filter)
  have df: "nf_block f \<in> nb_id ` set (t_blocks ?d)" if "f \<in> set (t_fields ?d)" for f
  proof -
    have "f \<in> set (t_fields s)" and kept: "nf_block f \<notin> nb_id ` {b \<in> set (t_blocks s). nb_note b = note_id n}"
      using that by (simp_all add: drop_blocks_def Let_def)
    then obtain b where "b \<in> set (t_blocks s)" "nf_block f = nb_id b" using assms(2) by (auto simp: blocks_wf_def)
    then show ?thesis using kept by (auto simp: drop_blocks_def Let_def)
  qed
  have tb: "t_blocks t = t_blocks ?d @ map (block_row_of n c u) ?xs"
    and tf: "t_fields t = t_fields ?d @ concat (map (\<lambda>x. field_rows (snd x)) ?xs)" by (simp_all add: t)
  have frame: "\<exists>bs fs. t = s\<lparr>t_blocks := bs, t_fields := fs\<rparr>" unfolding t by (auto simp: drop_blocks_def Let_def)
  have nb: "map nb_id (map (block_row_of n c u) ?xs) = map (\<lambda>x. block_id (snd x)) ?xs" by (simp add: block_row_of_def)
  have "blocks_wf t"
    unfolding blocks_wf_def
  proof
    show "distinct (map nb_id (t_blocks t))"
      unfolding tb map_append nb distinct_append
    proof (intro conjI d ids)
      show "set (map nb_id (t_blocks ?d)) \<inter> set (map (\<lambda>x. block_id (snd x)) ?xs) = {}"
        unfolding set_map
      proof (rule equals0I, elim IntE imageE)
        fix y b x assume "y = nb_id b" "b \<in> set (t_blocks ?d)" "y = block_id (snd x)" "x \<in> set ?xs"
        then show False using new[of x] by (metis imageI)
      qed
    qed
    have "nf_block f \<in> nb_id ` set (t_blocks t)" if f: "f \<in> set (t_fields t)" for f
    proof (cases "f \<in> set (t_fields ?d)")
      case True
      from df[OF this] show ?thesis unfolding tb set_append image_Un by (rule UnI1)
    next
      case False
      then obtain x where x: "x \<in> set ?xs" "f \<in> set (field_rows (snd x))" using f unfolding tf by auto
      from x(2) have "nf_block f = nb_id (block_row_of n c u x)" by (auto simp: field_rows_def field_row_of_def block_row_of_def)
      moreover have "block_row_of n c u x \<in> set (t_blocks t)" unfolding tb set_append set_map using x(1) by blast
      ultimately show ?thesis by (rule image_eqI)
    qed
    then show "\<forall>f \<in> set (t_fields t). nf_block f \<in> nb_id ` set (t_blocks t)" ..
  qed
  moreover have "read_blocks t (note_id n) = Inr (content_blocks n)"
  proof -
    have "filter (\<lambda>b. nb_note b = note_id n) (t_blocks t) = map (block_row_of n c u) ?xs"
      unfolding tb by (auto simp: drop_blocks_def Let_def block_row_of_def filter_map comp_def)
    moreover have "sort_key (\<lambda>b. (nb_position b, nb_id b)) (map (block_row_of n c u) ?xs) = map (block_row_of n c u) ?xs"
      using enumerate_sorted[of block_id 0 "content_blocks n"]
      by (intro sort_key_id_if_sorted) (simp add: block_row_of_def comp_def)
    moreover have "map_res (\<lambda>x. read_block t (block_row_of n c u x)) ?xs = Inr (map snd ?xs)"
    proof (rule map_res_all_Inr)
      fix x assume x: "x \<in> set ?xs"
      then have "snd x \<in> set (map snd ?xs)" unfolding set_map by (rule imageI)
      then have "snd x \<in> set (content_blocks n)" by simp
      with assms(3) have b: "block_object (snd x)" ..
      have "\<not> nf_block f = block_id (snd x)" if "f \<in> set (t_fields ?d)" for f using df[OF that] new[OF x] by metis
      then have "filter (\<lambda>f. nf_block f = block_id (snd x)) (t_fields ?d) = []" by (simp add: filter_empty_conv)
      then have "filter (\<lambda>f. nf_block f = block_id (snd x)) (t_fields t) = field_rows (snd x)"
        unfolding tf using fields_of_block[OF ids x] by simp
      from read_written_block[OF b this, of n c u "fst x"] show "read_block t (block_row_of n c u x) = Inr (snd x)" by simp
    qed
    ultimately show ?thesis by (simp add: read_blocks_def map_res_map)
  qed
  ultimately show ?thesis using frame by blast
qed

section \<open>A written note reads back\<close>

text \<open>The attachments, blocks and fields of an entity were checked when they were built.\<close>

definition parts_ok :: "note_entity \<Rightarrow> bool" where
  "parts_ok n \<longleftrightarrow> list_all (\<lambda>x. new_note_attachment x = Inr x) (note_attachments n) \<and> list_all block_object (content_blocks n)"

definition parts_read :: "app_db \<Rightarrow> note_entity \<Rightarrow> bool" where
  "parts_read s n \<longleftrightarrow> read_tags s (note_id n) = sorted_tags n
     \<and> read_attachments s (note_id n) = Inr (sort_key att_id (note_attachments n))
     \<and> read_blocks s (note_id n) = Inr (content_blocks n)"

lemma write_parts_Inr:
  assumes "write_parts n c u s = (t, Inr ())" "tags_wf s" "blocks_wf s" "parts_ok n"
  shows "t_notes t = t_notes s \<and> t_categories t = t_categories s \<and> tags_wf t \<and> blocks_wf t \<and> parts_read t n"
proof -
  obtain s1 s2 s3 where w: "write_tags n s = (s1, Inr ())" "write_attachments n s1 = (s2, Inr ())"
    "write_content_blocks n c u s2 = (s3, Inr ())" "write_fts n s3 = (t, Inr ())"
    using assms(1) unfolding write_parts_def seq_Inr by blast
  obtain ts rs where 1: "s1 = s\<lparr>t_tags := ts, t_resource_tags := rs\<rparr>" "tags_wf s1" "read_tags s1 (note_id n) = sorted_tags n"
    using write_tags_Inr[OF w(1) assms(2)] by blast
  have "\<forall>x \<in> set (note_attachments n). new_note_attachment x = Inr x" and b: "\<forall>b \<in> set (content_blocks n). block_object b"
    using assms(4) by (simp_all add: parts_ok_def list_all_iff)
  with write_attachments_Inr[OF w(2)] obtain ys where
    2: "s2 = s1\<lparr>t_attachments := ys\<rparr>" "read_attachments s2 (note_id n) = Inr (sort_key att_id (note_attachments n))" by blast
  have "blocks_wf s2" using assms(3) by (simp add: 1(1) 2(1) blocks_wf_def)
  from write_content_blocks_Inr[OF w(3) this b] obtain bs fs where
    3: "s3 = s2\<lparr>t_blocks := bs, t_fields := fs\<rparr>" "blocks_wf s3" "read_blocks s3 (note_id n) = Inr (content_blocks n)" by blast
  have fts: "t_fts_update f s3 = s3\<lparr>t_fts := f (t_fts s3)\<rparr>" for f by (cases s3) simp
  have "\<exists>f. t = t_fts_update f s3" using w(4) unfolding write_fts_def op_run by blast
  then obtain f where "t = t_fts_update f s3" ..
  with fts[of f] have 4: "t = s3\<lparr>t_fts := f (t_fts s3)\<rparr>" by simp
  have eqs: "t_notes t = t_notes s" "t_categories t = t_categories s" "t_tags t = t_tags s1" "t_resource_tags t = t_resource_tags s1"
    "t_attachments t = t_attachments s2" "t_blocks t = t_blocks s3" "t_fields t = t_fields s3"
    by (simp_all add: 1(1) 2(1) 3(1) 4)
  have read: "read_block t = read_block s3" by (rule ext) (simp add: read_block_def eqs)
  show ?thesis
  proof (intro conjI eqs)
    show "tags_wf t" "blocks_wf t" using 1(2) 3(2) by (simp_all add: tags_wf_def blocks_wf_def eqs)
    show "parts_read t n" using 1(3) 2(2) 3(3) unfolding parts_read_def
      by (simp add: read_tags_def read_attachments_def read_blocks_def eqs read)
  qed
qed

text \<open>The entity that a read makes of a written note: names of categories stripped, attachments by id, the time of the write in UTC.\<close>

definition note_read_back :: "app_env \<Rightarrow> datetime \<Rightarrow> datetime \<Rightarrow> note_entity \<Rightarrow> note_entity" where
  "note_read_back env created at n = n\<lparr>category_path := map py_strip (category_path n),
     note_creator := Some (case note_creator n of Some u \<Rightarrow> u | None \<Rightarrow> note_owner n),
     note_tags := sorted_tags n, note_attachments := sort_key att_id (note_attachments n),
     note_created_at := Some created, note_updated_at := Some (utc (instant (a_tz env) at))\<rparr>"

lemma blank_strip: "blank (py_strip s) \<longleftrightarrow> blank s"
proof -
  have "list_all P (dropWhile P xs) \<longleftrightarrow> list_all P xs" for P and xs :: pystr by (induction xs) auto
  then show ?thesis by (simp add: blank_def py_strip_def list.pred_set)
qed

lemma length_strip: "length (py_strip s) \<le> length s"
  unfolding py_strip_def length_rev by (metis le_trans length_dropWhile_le length_rev)

lemma new_note_Inr:
  "new_note n = Inr m \<longleftrightarrow> m = n \<and> \<not> blank (note_id n) \<and> \<not> blank (note_owner n) \<and> \<not> blank_opt (note_creator n)
     \<and> \<not> (blank (note_title n) \<and> blank (note_body n)) \<and> category_path n \<noteq> [] \<and> length (category_path n) \<le> 8
     \<and> (\<forall>p \<in> set (category_path n). \<not> blank p \<and> length p \<le> 80)
     \<and> distinct (filter (\<lambda>i. i \<noteq> []) (map block_id (content_blocks n))) \<and> 1 \<le> note_version n
     \<and> \<not> naive_opt (note_created_at n) \<and> \<not> naive_opt (note_updated_at n) \<and> (\<forall>x \<in> set (note_tags n). \<not> blank x)
     \<and> distinct (note_tags n) \<and> distinct (map att_id (note_attachments n)) \<and> \<not> not_ordinary (note_classification n)"
proof -
  have "new_note n = Inr m \<longleftrightarrow> m = n \<and> is_ok (new_note n)"
    unfolding new_note_def using guarded_self[of _ n] by (auto dest: guarded_InrD)
  then show ?thesis by (simp add: new_note_def is_ok_guarded list_ex_iff not_le not_less Ball_def)
qed

lemma read_back_note:
  assumes "new_note n = Inr n" "aware created"
  shows "new_note (note_read_back env created at n) = Inr (note_read_back env created at n)"
proof -
  note wf = assms(1)[unfolded new_note_Inr]
  have "distinct (map att_id (sort_key att_id (note_attachments n)))" using wf by (simp add: distinct_map)
  moreover have "\<forall>p \<in> set (map py_strip (category_path n)). \<not> blank p \<and> length p \<le> 80"
  proof -
    have "\<forall>p \<in> set (category_path n). \<not> blank p \<and> length p \<le> 80" using wf by blast
    then show ?thesis using le_trans[OF length_strip] by (simp add: blank_strip)
  qed
  moreover have "aware (utc k)" for k by (simp add: aware_def utc_def)
  moreover have "set (sorted_tags n) = set (note_tags n)" "distinct (sorted_tags n)" by (simp_all add: sorted_tags_def)
  moreover have "\<not> blank_opt (Some (case note_creator n of None \<Rightarrow> note_owner n | Some u \<Rightarrow> u))"
    using wf by (simp add: blank_opt_def split: option.splits)
  ultimately show ?thesis using wf assms(2) unfolding new_note_Inr by (simp add: note_read_back_def naive_opt_def)
qed

lemma read_note:
  assumes "new_note n = Inr n" "aware created" "in_range (instant (a_tz env) at)" "parts_read t n"
    and row: "no_id r = note_id n" "no_owner r = note_owner n" "no_title r = note_title n" "no_body r = note_body n"
      "no_class r = classification_value (note_classification n)" "no_version r = note_version n"
      "(case no_creator r of Some u \<Rightarrow> u | None \<Rightarrow> note_owner n) = (case note_creator n of Some u \<Rightarrow> u | None \<Rightarrow> note_owner n)"
      "load_time (no_created r) = Inr created" "no_updated r = time_text (a_tz env) at" "no_category r = Some i"
    and path: "i \<noteq> []" "path_names (t_categories t) (Some i) = map py_strip (category_path n)"
  shows "note_from_row t r = Inr (note_read_back env created at n)"
proof -
  have "category_path n \<noteq> []" using assms(1) by (simp add: new_note_Inr)
  then have p: "read_category_path t (Some i) = map py_strip (category_path n)"
    using path by (simp add: read_category_path_def path_names_def Let_def)
  have parts: "read_tags t (note_id n) = sorted_tags n" "read_blocks t (note_id n) = Inr (content_blocks n)"
    "read_attachments t (note_id n) = Inr (sort_key att_id (note_attachments n))" using assms(4) by (simp_all add: parts_read_def)
  have whole: "\<lparr>note_id = note_id n, note_owner = note_owner n, note_title = note_title n, note_body = note_body n,
         category_path = map py_strip (category_path n), content_blocks = content_blocks n,
         note_creator = Some (case note_creator n of Some u \<Rightarrow> u | None \<Rightarrow> note_owner n), note_tags = sorted_tags n,
         note_attachments = sort_key att_id (note_attachments n), note_classification = note_classification n,
         note_version = note_version n, note_created_at = Some created,
         note_updated_at = Some (utc (instant (a_tz env) at))\<rparr> = note_read_back env created at n"
    by (cases n) (simp add: note_read_back_def cong: option.case_cong)
  show ?thesis
    unfolding note_from_row_def row p parts
    using read_back_note[OF assms(1,2)] load_dumped[OF assms(3)] whole by (simp add: and_then_def)
qed

text \<open>What every write keeps.\<close>

definition notes_ok :: "app_db \<Rightarrow> bool" where
  "notes_ok s \<longleftrightarrow> unique_key no_id (t_notes s) \<and> categories_wf (t_categories s) \<and> tags_wf s \<and> blocks_wf s"

text \<open>Making sure of the category path of a note.\<close>

lemma note_path_Inr:
  assumes "note_path env n s = (t, Inr cat)" "notes_ok s" "category_path n \<noteq> []"
  shows "\<exists>i. cat = Some i \<and> i \<noteq> [] \<and> path_names (t_categories t) cat = map py_strip (category_path n) \<and> notes_ok t
    \<and> t_notes t = t_notes s"
proof -
  obtain c where e: "ensure_category_path env (note_owner n) c None (category_path n) s = (t, Inr cat)"
    using assms(1) by (auto simp: note_path_def bind_Inr seq_Inr op_run split: if_splits)
  have wf: "categories_wf (t_categories s)" using assms(2) by (simp add: notes_ok_def)
  note p = ensure_category_path_Inr[OF e wf]
  have g: "grown_tree s t" and c: "categories_wf (t_categories t)" "\<forall>i. cat = Some i \<longrightarrow> i \<in> nc_id ` set (t_categories t)"
    "cat \<noteq> None" "path_names (t_categories t) cat = map py_strip (category_path n)"
    using p assms(3) by (simp_all add: path_names_def)
  then obtain i where i: "cat = Some i" "i \<in> nc_id ` set (t_categories t)" by auto
  then have "i \<noteq> []" using c(1) by (auto simp: categories_wf_def in_set_conv_nth)
  moreover have "notes_ok t" "t_notes t = t_notes s"
    using g c(1) assms(2) by (auto simp: grown_tree_def notes_ok_def tags_wf_def blocks_wf_def)
  ultimately show ?thesis using i(1) c(4) by blast
qed

lemma notes_ok_after_parts:
  assumes "write_parts n c u s = (t, Inr ())" "notes_ok s" "parts_ok n"
  shows "notes_ok t \<and> parts_read t n \<and> t_notes t = t_notes s \<and> t_categories t = t_categories s"
  using write_parts_Inr[OF assms(1) _ _ assms(3)] assms(2) by (simp add: notes_ok_def)

lemma audit_keeps_notes:
  assumes "audit env a outcome reason s = (t, Inr ())"
  shows "notes_ok t = notes_ok s" "parts_read t n = parts_read s n" "t_notes t = t_notes s" "t_categories t = t_categories s"
    "aware (authorized_at a)"
proof -
  have t: "t = add_audit (audit_of (time_text (a_tz env) (authorized_at a)) a outcome reason) s" and "aware (authorized_at a)"
    using assms by (simp_all add: audit_run split: if_splits)
  have same: "t_notes t = t_notes s" "t_categories t = t_categories s" "t_tags t = t_tags s" "t_resource_tags t = t_resource_tags s"
    "t_attachments t = t_attachments s" "t_blocks t = t_blocks s" "t_fields t = t_fields s"
    by (simp_all add: t add_audit_def)
  have "read_block t = read_block s" by (rule ext) (simp add: read_block_def same)
  then show "notes_ok t = notes_ok s" "parts_read t n = parts_read s n" "t_notes t = t_notes s" "t_categories t = t_categories s"
    by (simp_all add: notes_ok_def tags_wf_def blocks_wf_def parts_read_def read_tags_def read_attachments_def read_blocks_def same)
  show "aware (authorized_at a)" by fact
qed

lemma note_get_found:
  assumes "unique_key no_id (t_notes s)" "r \<in> set (t_notes s)" "note_from_row s r = Inr n"
  shows "note_get (no_id r) s = (s, Inr (Some n))"
proof -
  have "find_row no_id (no_id r) (t_notes s) = Some r" using assms(1,2) by (simp add: find_row_Some_iff)
  then show ?thesis using assms(3)
    by (simp add: note_get_def fetch_one_def note_table_def find_row_def op_run bind_run)
qed

lemma note_get_Inr:
  assumes "note_get i s = (s, Inr (Some old))"
  obtains r where "find_row no_id i (t_notes s) = Some r" "note_from_row s r = Inr old"
  using assms by (auto simp: note_get_def bind_Inr op_run fetch_one_def note_table_def find_row_def split: option.splits)

lemma note_from_row_fields:
  assumes "note_from_row s r = Inr n"
  shows "note_id n = no_id r" "note_owner n = no_owner r" "note_version n = no_version r"
    "note_creator n = Some (case no_creator r of Some u \<Rightarrow> u | None \<Rightarrow> no_owner r)"
    "\<exists>c. load_time (no_created r) = Inr c \<and> note_created_at n = Some c"
  using assms by (auto simp: note_from_row_def and_then_Inr new_note_Inr)

lemma load_time_aware: "load_time x = Inr d \<Longrightarrow> aware d"
  by (auto simp: load_time_def and_then_Inr aware_def utc_def)

lemma note_update_Inr:
  assumes run: "note_update env n v a s = (t, Inr stored)" and ok: "notes_ok s" "parts_ok n"
    and at: "in_range (instant (a_tz env) (authorized_at a))"
    and old: "note_get (note_id n) s = (s, Inr (Some old))" "note_creator n = note_creator old" "note_created_at old = Some created"
  shows "notes_ok t \<and> note_owner n = note_owner old \<and> note_version old = v \<and> note_version n = v + 1
    \<and> stored = n\<lparr>note_tags := sorted_tags n, note_updated_at := Some (authorized_at a)\<rparr>
    \<and> note_get (note_id n) t = (t, Inr (Some (note_read_back env created (authorized_at a) stored)))"
proof -
  let ?st = "n\<lparr>note_tags := sorted_tags n, note_updated_at := Some (authorized_at a)\<rparr>"
  from run have st: "new_note ?st = Inr stored" and ver: "note_version n = v + 1"
    unfolding note_update_def seq_Inr bind_Inr op_run by (auto split: if_splits)
  then have stored: "stored = ?st" by (simp add: new_note_Inr)
  let ?p = "\<lambda>r. no_id r = note_id stored \<and> no_owner r = note_owner stored \<and> no_version r = v"
  from run obtain s1 s2 s3 cat now_text created_text where
    path: "note_path env stored s = (s1, Inr cat)" and now: "dump_time (a_tz env) (authorized_at a) = Inr now_text"
    and upd: "change_rows note_table note_checks ?p (set_note_columns now_text cat stored) s1 = (s2, Inr 1)"
    and parts: "write_parts stored created_text now_text s2 = (s3, Inr ())"
    and audit: "audit env a completed [] s3 = (t, Inr ())"
    unfolding note_update_def seq_Inr bind_Inr op_run app_transaction_Inr st by (auto split: if_splits)
  let ?f = "set_note_columns now_text cat stored"
  have wf: "new_note stored = Inr stored" using st stored by simp
  then have ne: "category_path stored \<noteq> []" by (simp add: new_note_Inr)
  obtain i where 1: "cat = Some i" "i \<noteq> []" "path_names (t_categories s1) cat = map py_strip (category_path stored)"
    "notes_ok s1" "t_notes s1 = t_notes s" using note_path_Inr[OF path ok(1) ne] by blast
  have tab: "on_rows note_table f s1 = s1\<lparr>t_notes := f (t_notes s1)\<rparr>" for f by (cases s1) (simp add: note_table_def)
  have 2: "s2 = s1\<lparr>t_notes := update_where ?p ?f (t_notes s)\<rparr>" and one: "count_where ?p (t_notes s) = 1"
    using upd[unfolded change_rows_def tab] 1(5) by (simp_all add: note_table_def split: if_splits)
  obtain r where r: "find_row no_id (note_id n) (t_notes s) = Some r" "note_from_row s r = Inr old" by (rule note_get_Inr[OF old(1)])
  note rd = find_row_SomeD[OF r(1)] and fields = note_from_row_fields[OF r(2)]
  have u: "unique_key no_id (t_notes s)" using ok(1) by (simp add: notes_ok_def)
  have same: "note_id stored = note_id n" by (simp add: stored)
  have "count_where ?p (t_notes s) = (if ?p r then 1 else 0)"
    using count_where_key[OF u, of ?p "note_id n"] r(1) same by simp
  then have pr: "?p r" using one by presburger
  have ok2: "notes_ok s2" using 1(4,5) unfolding 2
    by (simp add: notes_ok_def unique_key_def tags_wf_def blocks_wf_def map_key_update_where set_note_columns_def)
  have "parts_ok stored" using ok(2) by (simp add: parts_ok_def stored)
  from notes_ok_after_parts[OF parts ok2 this]
  have 3: "notes_ok s3" "parts_read s3 stored" "t_notes s3 = t_notes s2" "t_categories s3 = t_categories s1"
    using 2 by simp_all
  note a = audit_keeps_notes[OF audit]
  have tt: "now_text = time_text (a_tz env) (authorized_at a)" using now by (simp add: dump_time_Inr)
  have "path_names (t_categories t) (Some i) = map py_strip (category_path stored)" using 1 3(4) a(4) by simp
  moreover have "parts_read t stored" using 3(2) a(2) by simp
  moreover have c: "load_time (no_created r) = Inr created" using fields(5) old(3) by auto
  moreover have "(case no_creator r of Some u \<Rightarrow> u | None \<Rightarrow> note_owner stored)
      = (case note_creator stored of Some u \<Rightarrow> u | None \<Rightarrow> note_owner stored)"
    using fields(4) old(2) pr by (simp add: stored cong: option.case_cong)
  ultimately have "note_from_row t (?f r) = Inr (note_read_back env created (authorized_at a) stored)"
    using wf at 1(1,2) pr load_time_aware[OF c] by (intro read_note[of stored]) (simp_all add: tt set_note_columns_def stored)
  moreover have "?f r \<in> set (t_notes t)" using a(3) 3(3) 2 rd(1) pr by (auto simp: update_where_def)
  moreover have nt: "notes_ok t" using 3(1) a(1) by simp
  ultimately show ?thesis using note_get_found[of t "?f r"] stored pr fields ver
    by (simp add: notes_ok_def set_note_columns_def)
qed

section \<open>Properties\<close>

text \<open>
  C37. A created note reads back as it was given: after a creation that returned, a read by the note's id
  finds the note with its title, body, content blocks and fields in their order, its tags sorted and without duplicates,
  its attachments by id, the names of its category path stripped, its creator (the owner if none was named), version 1 and
  the time of the write in UTC; and the category tree, tags and blocks of the store stay well-formed.
\<close>

theorem note_create_reads_back:
  assumes run: "note_create env n a s = (t, Inr stored)" and ok: "notes_ok s" "parts_ok n"
    and at: "in_range (instant (a_tz env) (authorized_at a))"
  defines "now \<equiv> utc (instant (a_tz env) (authorized_at a))"
  shows "notes_ok t \<and> stored = n\<lparr>note_tags := sorted_tags n, note_version := 1, note_created_at := Some (authorized_at a),
        note_updated_at := Some (authorized_at a)\<rparr>
    \<and> note_get (note_id n) t = (t, Inr (Some (note_read_back env now (authorized_at a) stored)))"
proof -
  let ?st = "n\<lparr>note_tags := sorted_tags n, note_version := 1, note_created_at := Some (authorized_at a),
        note_updated_at := Some (authorized_at a)\<rparr>"
  from run have st: "new_note ?st = Inr stored"
    unfolding note_create_def seq_Inr bind_Inr op_run by blast
  then have stored: "stored = ?st" by (simp add: new_note_Inr)
  from run obtain s1 s2 s3 cat now_text where
    path: "note_path env stored s = (s1, Inr cat)" and now: "dump_time (a_tz env) (authorized_at a) = Inr now_text"
    and ins: "insert_row note_table note_allowed
           \<lparr>no_id = note_id stored, no_owner = note_owner stored, no_creator = note_creator stored,
            no_title = note_title stored, no_body = note_body stored,
            no_class = classification_value (note_classification stored), no_version = note_version stored,
            no_created = now_text, no_updated = now_text, no_category = cat\<rparr> s1 = (s2, Inr ())"
    and parts: "write_parts stored now_text now_text s2 = (s3, Inr ())"
    and audit: "audit env a completed [] s3 = (t, Inr ())"
    unfolding note_create_def seq_Inr bind_Inr op_run raise_conflict_Inr app_transaction_Inr st by auto
  let ?r = "\<lparr>no_id = note_id stored, no_owner = note_owner stored, no_creator = note_creator stored,
            no_title = note_title stored, no_body = note_body stored,
            no_class = classification_value (note_classification stored), no_version = note_version stored,
            no_created = now_text, no_updated = now_text, no_category = cat\<rparr>"
  have wf: "new_note stored = Inr stored" using st stored by simp
  then have ne: "category_path stored \<noteq> []" by (simp add: new_note_Inr)
  obtain i where 1: "cat = Some i" "i \<noteq> []" "path_names (t_categories s1) cat = map py_strip (category_path stored)"
    "notes_ok s1" using note_path_Inr[OF path ok(1) ne] by blast
  have tab: "on_rows note_table f s1 = s1\<lparr>t_notes := f (t_notes s1)\<rparr>" for f by (cases s1) (simp add: note_table_def)
  have 2: "s2 = s1\<lparr>t_notes := t_notes s1 @ [?r]\<rparr>" "no_id ?r \<notin> no_id ` set (t_notes s1)"
    using ins by (simp_all add: insert_row_Inr tab note_allowed_def note_exists_def)
  have ok2: "notes_ok s2" using 1(4) 2(2) unfolding 2(1) by (simp add: notes_ok_def unique_key_def tags_wf_def blocks_wf_def)
  have "parts_ok stored" using ok(2) by (simp add: parts_ok_def stored)
  from notes_ok_after_parts[OF parts ok2 this]
  have 3: "notes_ok s3" "parts_read s3 stored" "t_notes s3 = t_notes s2" "t_categories s3 = t_categories s1"
    using 2(1) by simp_all
  note a = audit_keeps_notes[OF audit]
  have tt: "now_text = time_text (a_tz env) (authorized_at a)" using now by (simp add: dump_time_Inr)
  have "path_names (t_categories t) (Some i) = map py_strip (category_path stored)" using 1 3(4) a(4) by simp
  moreover have "parts_read t stored" using 3(2) a(2) by simp
  moreover have "load_time (no_created ?r) = Inr now" using load_dumped[OF at] by (simp add: tt now_def)
  ultimately have read: "note_from_row t ?r = Inr (note_read_back env now (authorized_at a) stored)"
    using wf at 1(1,2) by (intro read_note[of stored]) (simp_all add: now_def aware_def utc_def tt)
  moreover have "?r \<in> set (t_notes t)" using a(3) 3(3) 2(1) by simp
  moreover have nt: "notes_ok t" using 3(1) a(1) by simp
  ultimately show ?thesis using note_get_found[of t ?r] stored by (simp add: notes_ok_def)
qed

text \<open>A note with a path of two categories, a block with a field and two tags.\<close>

definition sample_block :: note_content_block where
  "sample_block = \<lparr>block_name = lit ''b'', block_body = lit ''old'',
     block_fields = [\<lparr>field_name = lit ''f'', field_value = lit ''1''\<rparr>], block_id = lit ''k''\<rparr>"

definition sample_note :: note_entity where
  "sample_note = \<lparr>note_id = lit ''n'', note_owner = lit ''u'', note_title = lit ''t'', note_body = lit ''old'',
     category_path = [lit ''x'', lit '' y ''], content_blocks = [sample_block], note_creator = None,
     note_tags = [lit ''b'', lit ''a''], note_attachments = [], note_classification = PERSONAL, note_version = 7,
     note_created_at = None, note_updated_at = None\<rparr>"

definition sample_stored :: note_entity where
  "sample_stored = sample_note\<lparr>note_tags := [lit ''a'', lit ''b''], note_version := 1, note_created_at := Some (utc 0),
     note_updated_at := Some (utc 0)\<rparr>"

lemma sample_note_fields:
  "new_note sample_stored = Inr sample_stored" "sorted_tags sample_note = [lit ''a'', lit ''b'']"
  "note_created_at sample_stored = Some (utc 0)" "note_owner sample_stored = lit ''u''"
  "category_path sample_stored = [lit ''x'', lit '' y '']" "parts_ok sample_note" "notes_ok sample_app_db"
  by (simp_all add: new_note_Inr sample_stored_def sample_note_def sample_block_def lit_def blank_def py_space_def
      blank_opt_def naive_opt_def aware_def utc_def sorted_tags_def parts_ok_def block_object_def new_note_content_block_def
      new_note_field_def guarded_def notes_ok_def sample_app_db_def unique_key_def categories_wf_def tags_wf_def blocks_wf_def)

lemma sample_tables:
  "t_notes sample_app_db = []" "t_tags sample_app_db = []" "t_resource_tags sample_app_db = []"
  "t_attachments sample_app_db = []" "t_blocks sample_app_db = []" "t_fields sample_app_db = []" "t_fts sample_app_db = []"
  "known_users (store sample_app_db) = [lit ''u'', lit ''v'']"
  by (simp_all add: sample_app_db_def)

lemma note_tables:
  "on_rows note_table f1 s = s\<lparr>t_notes := f1 (t_notes s)\<rparr>" "on_rows tag_table f2 s = s\<lparr>t_tags := f2 (t_tags s)\<rparr>"
  "on_rows resource_tag_table f3 s = s\<lparr>t_resource_tags := f3 (t_resource_tags s)\<rparr>"
  "rows note_table = t_notes" "rows tag_table = t_tags" "rows resource_tag_table = t_resource_tags"
  "rows attachment_table = t_attachments"
  by (cases s; simp add: note_table_def tag_table_def resource_tag_table_def attachment_table_def)+

lemma sample_path:
  fixes x defines "k \<equiv> category_key sample_app_env (lit ''u'') (Some (category_key sample_app_env (lit ''u'') None (lit ''x''))) (lit ''y'')"
  shows "\<exists>t. ensure_category_path sample_app_env (lit ''u'') x None [lit ''x'', lit '' y ''] sample_app_db
    = (sample_app_db\<lparr>t_categories := t\<rparr>, Inr (Some k)) \<and> k \<in> nc_id ` set t"
  unfolding k_def
  apply (rule exI, rule conjI)
   apply (simp add: Let_def seq_def bind_def insert_or_ignore_def fetch_one_def op_run category_table_def sample_app_env_def sample_app_db_def
     category_key_def user_exists_def category_or_null_def trimmed_def lit_def py_strip_def py_space_def py_join.simps)
  apply (simp add: Let_def seq_def bind_def insert_or_ignore_def fetch_one_def op_run category_table_def sample_app_env_def sample_app_db_def
     category_key_def user_exists_def category_or_null_def trimmed_def lit_def py_strip_def py_space_def py_join.simps)
  done

lemmas note_writes = write_parts_def write_tags_def write_attachments_def write_content_blocks_def write_fts_def write_tag_def
  write_block_def drop_blocks_def remove_rows_def insert_row_def insert_or_ignore_def fetch_one_def next_tag_id_def enumerate_eq_zip
  seq_def bind_def op_run note_tables part_tables

lemmas note_constraints = note_allowed_def note_exists_def user_exists_def user_or_null_def category_or_null_def note_checks_def
  trimmed_def resource_tag_allowed_def block_allowed_def field_allowed_def ordinary_class_def

lemma sample_create_ok:
  "is_ok (snd (note_create sample_app_env sample_note (sample_auth CREATE (lit ''note'') (lit ''n'')) sample_app_db))"
proof -
  let ?k = "category_key sample_app_env (lit ''u'') (Some (category_key sample_app_env (lit ''u'') None (lit ''x''))) (lit ''y'')"
  let ?a = "sample_auth CREATE (lit ''note'') (lit ''n'')"
  have stored: "new_note (sample_note\<lparr>note_tags := sorted_tags sample_note, note_version := 1, note_created_at := Some (utc 0),
     note_updated_at := Some (utc 0)\<rparr>) = Inr sample_stored"
    using sample_note_fields(1) by (simp add: sample_note_fields(2) sample_stored_def)
  have auth: "require_authorization ?a CREATE (lit ''note'') (note_id sample_note) (note_owner sample_note)
      (note_classification sample_note) = Inr ()"
    by (simp add: require_authorization_run lit_def blank_def py_space_def sample_note_def sample_auth_def)
  obtain t where e: "ensure_category_path sample_app_env (lit ''u'') (time_text utc_only (utc 0)) None [lit ''x'', lit '' y '']
      sample_app_db = (sample_app_db\<lparr>t_categories := t\<rparr>, Inr (Some ?k))" and k: "?k \<in> nc_id ` set t"
    using sample_path[of "time_text utc_only (utc 0)"] by blast
  have path: "note_path sample_app_env sample_stored sample_app_db = (sample_app_db\<lparr>t_categories := t\<rparr>, Inr (Some ?k))"
    by (simp add: note_path_def first_time_def sample_note_fields dump_time_def guarded_def sample_store_simps op_run bind_run seq_run e
        del: ensure_category_path.simps)
  show ?thesis
    using k
    apply (simp add: note_create_def auth sample_store_simps stored raise_conflict_def app_transaction_def atomically_def seq_def
        bind_def op_run path dump_time_def guarded_def audit_run)
    apply (simp add: note_writes note_constraints lit_def sample_tables sample_stored_def sample_note_def sample_block_def)
    done
qed

theorem note_create_reads_back_witness:
  "\<exists>t n. note_create sample_app_env sample_note (sample_auth CREATE (lit ''note'') (lit ''n'')) sample_app_db = (t, Inr n)
     \<and> notes_ok t \<and> note_get (lit ''n'') t = (t, Inr (Some (note_read_back sample_app_env (utc 0) (utc 0) n)))
     \<and> category_path (note_read_back sample_app_env (utc 0) (utc 0) n) = [lit ''x'', lit ''y'']"
proof -
  let ?a = "sample_auth CREATE (lit ''note'') (lit ''n'')"
  obtain t n where run: "note_create sample_app_env sample_note ?a sample_app_db = (t, Inr n)"
    using sample_create_ok by (cases "note_create sample_app_env sample_note ?a sample_app_db") (auto simp: is_ok_Inr)
  have at: "in_range (instant (a_tz sample_app_env) (authorized_at ?a))" by (simp add: sample_store_simps)
  have zero: "utc (instant db (utc 0)) = utc 0" for db by (simp add: instant_def utc_def)
  note p = note_create_reads_back[OF run sample_note_fields(7,6) at]
  have "category_path n = [lit ''x'', lit '' y '']" using p by (simp add: sample_note_def)
  then have "category_path (note_read_back sample_app_env (utc 0) (utc 0) n) = [lit ''x'', lit ''y'']"
    by (simp add: note_read_back_def lit_def py_strip_def py_space_def)
  moreover have "note_id sample_note = lit ''n''" by (simp add: sample_note_def)
  ultimately show ?thesis using run p by (simp add: sample_store_simps zero)
qed

end
