(* ===== verification/NoteService.thy ===== *)
theory NoteService
  imports Commands NoteRows
begin

text \<open>
  The note use cases of \<^verbatim>\<open>ZhixuServices\<close> (\<^verbatim>\<open>src/zhixu/application/services.py\<close>). The id factory is called for
  the blocks in their order and for the note: \<open>block_ids\<close> and \<open>i\<close> are what it returns.
\<close>

section \<open>Commands\<close>

definition DEFAULT_BLOCK_NAME :: pystr where
  "DEFAULT_BLOCK_NAME = [0x9ED8, 0x8BA4, 0x5185, 0x5BB9]"

definition proposed_blocks :: "create_note_command \<Rightarrow> note_content_block list res" where
  "proposed_blocks c = (if cno_content_blocks c \<noteq> [] then Inr (cno_content_blocks c)
     else and_then (new_note_content_block
         \<lparr>block_name = DEFAULT_BLOCK_NAME, block_body = cno_body c, block_fields = [], block_id = []\<rparr>) (\<lambda>b. Inr [b]))"

definition identified_blocks :: "(nat \<Rightarrow> pystr) \<Rightarrow> note_content_block list \<Rightarrow> note_content_block list res" where
  "identified_blocks block_ids bs = map_res (\<lambda>(k, b). if block_id b \<noteq> [] then Inr b
     else new_note_content_block (b\<lparr>block_id := block_ids k\<rparr>)) (enumerate 0 bs)"

definition create_note :: "app_env \<Rightarrow> (nat \<Rightarrow> pystr) \<Rightarrow> pystr \<Rightarrow> datetime \<Rightarrow> create_note_command \<Rightarrow> command_context
    \<Rightarrow> note_entity app" where
  "create_note env block_ids i now c ctx =
     bind (scoped_context ctx now) (\<lambda>current.
     bind (of_res (and_then (proposed_blocks c) (identified_blocks block_ids))) (\<lambda>bs.
     bind (of_res (new_note \<lparr>note_id = i, note_owner = create_owner current (cno_private c), note_title = cno_title c,
         note_body = cno_body c, category_path = cno_category_path c, content_blocks = bs,
         note_creator = Some (actor_user_id current), note_tags = cno_tags c, note_attachments = cno_attachments c,
         note_classification = cno_classification c, note_version = 1, note_created_at = None, note_updated_at = None\<rparr>)) (\<lambda>n.
     bind (require_access current CREATE (lit ''note'') (note_id n) (note_owner n) (note_classification n)) (\<lambda>a.
       note_create env n a))))"

text \<open>
  The shape of the three changes of a note: read it, check the request against it, build the changed note, ask the policy
  with the classification \<open>required\<close>, and write at the version that was read.
\<close>

definition change_note :: "app_env \<Rightarrow> datetime \<Rightarrow> command_context \<Rightarrow> pystr \<Rightarrow> (note_entity \<Rightarrow> (bool \<times> err) list)
    \<Rightarrow> (note_entity \<Rightarrow> note_entity res) \<Rightarrow> (note_entity \<Rightarrow> note_entity \<Rightarrow> data_classification) \<Rightarrow> note_entity app" where
  "change_note env now ctx i refused change required =
     bind (require_found (note_get i)) (\<lambda>n.
     seq (of_res (guarded (refused n) ()))
    (bind (scoped_context ctx now) (\<lambda>current.
     bind (of_res (change n)) (\<lambda>updated.
     bind (require_access current UPDATE (lit ''note'') (note_id n) (note_owner n) (required n updated)) (\<lambda>a.
       note_update env updated (note_version n) a)))))"

definition add_note_content_block :: "app_env \<Rightarrow> pystr \<Rightarrow> datetime \<Rightarrow> add_note_content_block_command \<Rightarrow> command_context
    \<Rightarrow> note_entity app" where
  "add_note_content_block env i now c ctx = change_note env now ctx (abk_note_id c)
     (\<lambda>n. [(list_ex (\<lambda>b. block_name b = abk_name c) (content_blocks n), ValidationError)])
     (\<lambda>n. and_then (new_note_content_block
         \<lparr>block_name = abk_name c, block_body = abk_body c, block_fields = abk_fields c, block_id = i\<rparr>)
       (\<lambda>b. new_note (n\<lparr>content_blocks := content_blocks n @ [b], note_version := note_version n + 1\<rparr>)))
     (\<lambda>n updated. note_classification n)"

definition move_note_category :: "app_env \<Rightarrow> datetime \<Rightarrow> move_note_category_command \<Rightarrow> command_context \<Rightarrow> note_entity app" where
  "move_note_category env now c ctx = change_note env now ctx (mvc_note_id c) (\<lambda>n. [])
     (\<lambda>n. new_note (n\<lparr>category_path := mvc_category_path c, note_version := note_version n + 1\<rparr>))
     (\<lambda>n updated. note_classification n)"

definition update_note :: "app_env \<Rightarrow> datetime \<Rightarrow> update_note_command \<Rightarrow> command_context \<Rightarrow> note_entity app" where
  "update_note env now c ctx = change_note env now ctx (uno_note_id c)
     (\<lambda>n. [(note_version n \<noteq> uno_expected_version c, ConcurrencyConflict)])
     (\<lambda>n. new_note (n\<lparr>note_title := uno_title c, note_body := uno_body c, note_tags := uno_tags c,
        note_attachments := uno_attachments c, note_classification := uno_classification c,
        note_version := uno_expected_version c + 1\<rparr>))
     (\<lambda>n updated. note_classification updated)"

definition delete_note :: "app_env \<Rightarrow> datetime \<Rightarrow> delete_note_command \<Rightarrow> command_context \<Rightarrow> unit app" where
  "delete_note env now c ctx =
     bind (require_found (note_get (dno_note_id c))) (\<lambda>n.
     bind (scoped_context ctx now) (\<lambda>current.
     bind (require_access current DELETE (lit ''note'') (note_id n) (note_owner n) (note_classification n)) (\<lambda>a.
       note_delete env (note_id n) a)))"

section \<open>Queries\<close>

definition require_note :: "command_context \<Rightarrow> note_entity \<Rightarrow> unit app" where
  "require_note current n = require_read current (lit ''note'') (note_id n) (note_owner n) (note_classification n)"

definition search_notes :: "app_env \<Rightarrow> datetime \<Rightarrow> search_notes_query \<Rightarrow> command_context \<Rightarrow> note_entity list app" where
  "search_notes env now q ctx =
     bind (scoped_context ctx now) (\<lambda>current.
     bind (gather (\<lambda>owner. seq (require_read current (lit ''note_collection'') owner owner PERSONAL)
        (note_search env owner (sno_text q) (sno_limit q))) (read_owners current)) (\<lambda>found.
     let ns = take (nat (sno_limit q)) found in seq (each (require_note current) ns) (ret ns)))"

definition list_notes :: "datetime \<Rightarrow> int \<Rightarrow> command_context \<Rightarrow> note_entity list app" where
  "list_notes now limit ctx =
     seq (check (\<not> (1 \<le> limit \<and> limit \<le> 100)) ValidationError)
    (bind (scoped_context ctx now) (\<lambda>current.
     bind (gather (\<lambda>owner. seq (require_read current (lit ''note_collection'') owner owner PERSONAL)
        (bind (note_list_for_owner owner) (\<lambda>ns. seq (each (require_note current) ns) (ret ns)))) (read_owners current)) (\<lambda>ns.
     ret (take (nat limit) ns))))"

section \<open>Lemmas\<close>

lemma note_get_state: "fst (note_get i s) = s"
  by (simp add: note_get_def fetch_one_def bind_def op_run split: option.split sum.split)

lemma note_get_same: "note_get i s = (t, r) \<Longrightarrow> t = s"
  using note_get_state[of i s] by simp

lemma change_note_Inr:
  assumes "change_note env now ctx i refused change required s = (t, Inr m)"
  shows "\<exists>n current updated a. note_get i s = (s, Inr (Some n)) \<and> guarded (refused n) () = Inr ()
    \<and> new_command_context (ctx\<lparr>context_now := Some now\<rparr>) = Inr current \<and> change n = Inr updated
    \<and> require_access current UPDATE (lit ''note'') (note_id n) (note_owner n) (required n updated) s = (s, Inr a)
    \<and> note_update env updated (note_version n) a s = (t, Inr m)"
proof -
  obtain n u where n: "note_get i s = (u, Inr (Some n))"
    and rest: "seq (of_res (guarded (refused n) ()))
      (bind (scoped_context ctx now) (\<lambda>current. bind (of_res (change n)) (\<lambda>updated.
       bind (require_access current UPDATE (lit ''note'') (note_id n) (note_owner n) (required n updated)) (\<lambda>a.
         note_update env updated (note_version n) a)))) u = (t, Inr m)"
    using assms unfolding change_note_def bind_Inr require_found_Inr by blast
  have u: "u = s" by (rule note_get_same[OF n])
  obtain current updated a v where 1: "guarded (refused n) () = Inr ()"
    "new_command_context (ctx\<lparr>context_now := Some now\<rparr>) = Inr current" "change n = Inr updated"
    "require_access current UPDATE (lit ''note'') (note_id n) (note_owner n) (required n updated) s = (v, Inr a)"
    "note_update env updated (note_version n) a v = (t, Inr m)"
    using rest unfolding u seq_Inr bind_Inr scoped_context_Inr by (auto simp: op_run)
  have "v = s" by (rule require_access_Inr(1)[OF 1(4)])
  with 1 n u show ?thesis by blast
qed

lemma read_block_object:
  assumes "read_block s r = Inr b"
  shows "block_object b"
proof -
  obtain fs where fs: "map_res (\<lambda>f. new_note_field \<lparr>field_name = nf_name f, field_value = nf_value f\<rparr>)
       (sort_key (\<lambda>f. (nf_position f, nf_name f)) (filter (\<lambda>f. nf_block f = nb_id r) (t_fields s))) = Inr fs"
    and b: "new_note_content_block \<lparr>block_name = nb_name r, block_body = nb_body r, block_fields = fs, block_id = nb_id r\<rparr> = Inr b"
    using assms by (auto simp: read_block_def and_then_Inr)
  have same: "b = \<lparr>block_name = nb_name r, block_body = nb_body r, block_fields = fs, block_id = nb_id r\<rparr>"
    using guarded_InrD[OF b[unfolded new_note_content_block_def]] by simp
  have "new_note_field f = Inr f" if f: "f \<in> set fs" for f
  proof -
    obtain x where x: "new_note_field x = Inr f" using map_res_Inr_in[OF fs f] by blast
    have "f = x" using guarded_InrD[OF x[unfolded new_note_field_def]] by simp
    with x show ?thesis by simp
  qed
  then show ?thesis using b same by (simp add: block_object_def)
qed

lemma read_parts_ok:
  assumes "note_from_row s r = Inr n"
  shows "parts_ok n"
proof -
  have bs: "read_blocks s (no_id r) = Inr (content_blocks n)" and atts: "read_attachments s (no_id r) = Inr (note_attachments n)"
    using assms by (auto simp: note_from_row_def and_then_Inr new_note_Inr)
  have "block_object b" if "b \<in> set (content_blocks n)" for b
    using map_res_Inr_in[OF bs[unfolded read_blocks_def] that] read_block_object by blast
  moreover have "new_note_attachment y = Inr y" if y: "y \<in> set (note_attachments n)" for y
  proof -
    obtain x where x: "new_note_attachment x = Inr y" using map_res_Inr_in[OF atts[unfolded read_attachments_def] y] by blast
    have "y = x" using guarded_InrD[OF x[unfolded new_note_attachment_def]] by simp
    with x show ?thesis by simp
  qed
  ultimately show ?thesis by (simp add: parts_ok_def list_all_iff)
qed

section \<open>Properties\<close>

text \<open>
  An edit of a note changes its title, body, tags, attachments and class but never its content blocks: after an
  update that returned, the note reads back with the new title and body, the next version, the same owner,
  creator and time of creation, and with exactly the content blocks it had before. A note made without
  blocks holds its body in a default block (see below), so that block keeps the old text after the edit.
\<close>

lemma note_update_keeps_blocks:
  assumes "notes_ok s" "in_range (instant (a_tz env) now)"
    and "list_all (\<lambda>x. new_note_attachment x = Inr x) (uno_attachments c)"
    and "update_note env now c ctx s = (t, Inr m)"
  shows "\<exists>old shown. note_get (uno_note_id c) s = (s, Inr (Some old)) \<and> note_get (uno_note_id c) t = (t, Inr (Some shown))
    \<and> notes_ok t \<and> note_version old = uno_expected_version c \<and> note_version shown = uno_expected_version c + 1
    \<and> note_title shown = uno_title c \<and> note_body shown = uno_body c \<and> note_tags shown = sort (remdups (uno_tags c))
    \<and> note_owner shown = note_owner old \<and> note_creator shown = note_creator old
    \<and> note_created_at shown = note_created_at old \<and> content_blocks shown = content_blocks old"
proof -
  obtain old current updated a where old: "note_get (uno_note_id c) s = (s, Inr (Some old))"
    and same: "guarded [(note_version old \<noteq> uno_expected_version c, ConcurrencyConflict)] () = Inr ()"
    and cur: "new_command_context (ctx\<lparr>context_now := Some now\<rparr>) = Inr current"
    and up: "new_note (old\<lparr>note_title := uno_title c, note_body := uno_body c, note_tags := uno_tags c,
        note_attachments := uno_attachments c, note_classification := uno_classification c,
        note_version := uno_expected_version c + 1\<rparr>) = Inr updated"
    and acc: "require_access current UPDATE (lit ''note'') (note_id old) (note_owner old) (note_classification updated) s = (s, Inr a)"
    and run: "note_update env updated (note_version old) a s = (t, Inr m)"
    using change_note_Inr[OF assms(4)[unfolded update_note_def]] by blast
  have v: "note_version old = uno_expected_version c" using same by (simp add: guarded_Inr split: if_splits)
  let ?u = "old\<lparr>note_title := uno_title c, note_body := uno_body c, note_tags := uno_tags c,
        note_attachments := uno_attachments c, note_classification := uno_classification c,
        note_version := uno_expected_version c + 1\<rparr>"
  have updated: "updated = ?u" using up by (simp add: new_note_Inr)
  obtain r where r: "find_row no_id (uno_note_id c) (t_notes s) = Some r" "note_from_row s r = Inr old"
    by (rule note_get_Inr[OF old])
  have id: "note_id updated = uno_note_id c" using find_row_SomeD[OF r(1)] note_from_row_fields(1)[OF r(2)] by (simp add: updated)
  have at: "authorized_at a = now" using require_access_Inr(5)[OF acc] scoped_now(1)[OF cur] by simp
  obtain created where created: "note_created_at old = Some created" using note_from_row_fields(5)[OF r(2)] by blast
  have parts: "parts_ok updated" using read_parts_ok[OF r(2)] assms(3) by (simp add: updated parts_ok_def)
  have inr: "in_range (instant (a_tz env) (authorized_at a))" using assms(2) by (simp add: at)
  have cr: "note_creator updated = note_creator old" by (simp add: updated)
  obtain w where w: "note_creator old = Some w" using note_from_row_fields(4)[OF r(2)] by blast
  note p = note_update_Inr[OF run assms(1) parts inr old[folded id] cr created]
  have tags: "sort (remdups (sort (remdups xs))) = sort (remdups xs)" for xs :: "pystr list"
    by (simp add: distinct_remdups_id sorted_sort_id)
  show ?thesis
    by (rule exI[of _ old], rule exI[of _ "note_read_back env created (authorized_at a) m"],
        use p old v id created w tags in \<open>simp add: note_read_back_def sorted_tags_def updated cong: option.case_cong\<close>)
qed

text \<open>
  A note made without content blocks gets one: if the creation returns, the body was not blank and the stored note
  has exactly one block, with the default name and the body of the note. If the body is blank the creation fails with a validation
  error and leaves the store as it was, whatever the title: the default block of an empty body is not valid, although a
  note with a title and no body is.
\<close>

lemma note_without_blocks:
  assumes "cno_content_blocks c = []" "is_ok (new_command_context (ctx\<lparr>context_now := Some now\<rparr>))"
    and "block_ids 0 \<noteq> []"
  shows "(blank (cno_body c) \<longrightarrow> create_note env block_ids i now c ctx s = (s, Inl ValidationError))
    \<and> (\<forall>t n. create_note env block_ids i now c ctx s = (t, Inr n) \<longrightarrow> content_blocks n
        = [\<lparr>block_name = DEFAULT_BLOCK_NAME, block_body = cno_body c, block_fields = [], block_id = block_ids 0\<rparr>])"
proof -
  let ?b = "\<lparr>block_name = DEFAULT_BLOCK_NAME, block_body = cno_body c, block_fields = [], block_id = []\<rparr>"
  obtain current where cur: "new_command_context (ctx\<lparr>context_now := Some now\<rparr>) = Inr current"
    using assms(2) by (auto simp: is_ok_Inr)
  have sc: "scoped_context ctx now s = (s, Inr current)" by (simp add: scoped_context_Inr cur)
  have "create_note env block_ids i now c ctx s = (s, Inl ValidationError)" if "blank (cno_body c)"
  proof -
    have "new_note_content_block ?b = Inl ValidationError"
      using that by (simp add: new_note_content_block_def guarded_def DEFAULT_BLOCK_NAME_def blank_def py_space_def)
    then show ?thesis by (simp add: create_note_def bind_def sc proposed_blocks_def assms(1) and_then_def op_run)
  qed
  moreover have "content_blocks n = [?b\<lparr>block_id := block_ids 0\<rparr>]" if run: "create_note env block_ids i now c ctx s = (t, Inr n)" for t n
  proof -
    have blocks: "bs = [?b\<lparr>block_id := block_ids 0\<rparr>]" if "and_then (proposed_blocks c) (identified_blocks block_ids) = Inr bs" for bs
      using that assms(1) by (auto simp: proposed_blocks_def identified_blocks_def and_then_Inr new_note_content_block_def
          dest!: guarded_InrD split: sum.splits)
    obtain bs n0 x a u where bs: "and_then (proposed_blocks c) (identified_blocks block_ids) = Inr bs"
      and new: "new_note \<lparr>note_id = i, note_owner = create_owner x (cno_private c), note_title = cno_title c,
         note_body = cno_body c, category_path = cno_category_path c, content_blocks = bs,
         note_creator = Some (actor_user_id x), note_tags = cno_tags c, note_attachments = cno_attachments c,
         note_classification = cno_classification c, note_version = 1, note_created_at = None, note_updated_at = None\<rparr> = Inr n0"
      and create: "note_create env n0 a u = (t, Inr n)"
      using run unfolding create_note_def bind_Inr op_run by blast
    have n0: "content_blocks n0 = bs" using new by (simp add: new_note_Inr)
    have "content_blocks n = content_blocks n0"
      using create unfolding note_create_def seq_Inr bind_Inr op_run by (auto simp: new_note_Inr)
    then show ?thesis using blocks[OF bs] n0 by simp
  qed
  ultimately show ?thesis by simp
qed

lemma title_only_note_refused:
  "create_note sample_app_env (\<lambda>k. lit ''k'') (lit ''n'') (utc 0) \<lparr>cno_title = lit ''t'', cno_body = [],
       cno_category_path = [UNCATEGORIZED], cno_content_blocks = [], cno_tags = [], cno_attachments = [],
       cno_classification = PERSONAL, cno_private = False\<rparr> owner_ctx sample_app_db = (sample_app_db, Inl ValidationError)
    \<and> is_ok (new_note (sample_stored\<lparr>note_title := lit ''t'', note_body := [], content_blocks := []\<rparr>))"
proof -
  let ?c = "\<lparr>cno_title = lit ''t'', cno_body = [], cno_category_path = [UNCATEGORIZED], cno_content_blocks = [], cno_tags = [],
     cno_attachments = [], cno_classification = PERSONAL, cno_private = False\<rparr>"
  have "new_note (sample_stored\<lparr>note_title := lit ''t'', note_body := [], content_blocks := []\<rparr>)
      = Inr (sample_stored\<lparr>note_title := lit ''t'', note_body := [], content_blocks := []\<rparr>)"
    using sample_note_fields(1) by (simp add: new_note_Inr lit_def blank_def py_space_def)
  moreover have "is_ok (new_command_context (owner_ctx\<lparr>context_now := Some (utc 0)\<rparr>))" by (simp add: owner_context)
  ultimately show ?thesis
    using note_without_blocks[where c = ?c and ctx = owner_ctx and now = "utc 0" and block_ids = "\<lambda>k. lit ''k''"
        and env = sample_app_env and i = "lit ''n''" and s = sample_app_db]
    by (simp add: lit_def blank_def)
qed

text \<open>A store with one note of u, which has one content block.\<close>

definition note_db :: app_db where
  "note_db = sample_app_db\<lparr>
     t_notes := [\<lparr>no_id = lit ''n'', no_owner = lit ''u'', no_creator = None, no_title = lit ''t'', no_body = lit ''old'',
       no_class = classification_value PERSONAL, no_version = 1, no_created = isoformat_utc 0, no_updated = isoformat_utc 0,
       no_category = Some (lit ''c'')\<rparr>],
     t_categories := [\<lparr>nc_id = lit ''c'', nc_owner = lit ''u'', nc_parent = None, nc_name = lit ''x'', nc_created = isoformat_utc 0\<rparr>],
     t_blocks := [\<lparr>nb_id = lit ''k'', nb_note = lit ''n'', nb_name = lit ''b'', nb_body = lit ''old'', nb_position = 0,
       nb_created = isoformat_utc 0, nb_updated = isoformat_utc 0\<rparr>]\<rparr>"

definition edit_note :: update_note_command where
  "edit_note = \<lparr>uno_note_id = lit ''n'', uno_expected_version = 1, uno_title = lit ''t'', uno_body = lit ''new'', uno_tags = [],
     uno_attachments = [], uno_classification = PERSONAL\<rparr>"

definition note_of_db :: note_entity where
  "note_of_db = \<lparr>note_id = lit ''n'', note_owner = lit ''u'', note_title = lit ''t'', note_body = lit ''old'',
     category_path = [lit ''x''], content_blocks = [\<lparr>block_name = lit ''b'', block_body = lit ''old'', block_fields = [],
     block_id = lit ''k''\<rparr>], note_creator = Some (lit ''u''), note_tags = [], note_attachments = [],
     note_classification = PERSONAL, note_version = 1, note_created_at = Some (utc 0), note_updated_at = Some (utc 0)\<rparr>"

lemma note_db_ok: "notes_ok note_db"
  by (simp add: note_db_def sample_app_db_def notes_ok_def unique_key_def categories_wf_def tags_wf_def blocks_wf_def lit_def)

lemma note_db_get: "note_get (lit ''n'') note_db = (note_db, Inr (Some note_of_db))"
proof -
  have time: "load_time (isoformat_utc 0) = Inr (utc 0)"
    using load_dumped[of utc_only "utc 0"] by (simp add: instant_def utc_def in_range_def)
  have cls: "classification_of 1 = Inr PERSONAL" by (simp add: classification_of_def)
  have valid: "new_note note_of_db = Inr note_of_db"
    by (simp add: new_note_Inr note_of_db_def lit_def blank_def py_space_def blank_opt_def naive_opt_def sample_store_simps)
  show ?thesis
    by (simp add: valid[unfolded note_of_db_def lit_def, simplified] note_get_def fetch_one_def note_tables bind_def op_run note_from_row_def read_blocks_def read_block_def
        read_attachments_def read_tags_def read_category_path_def time cls and_then_def note_of_db_def note_db_def
        sample_tables new_note_content_block_def guarded_def Let_def find_row_def lit_def blank_def py_space_def blank_opt_def
        naive_opt_def sample_store_simps)
qed

lemma edit_note_ok: "is_ok (snd (update_note sample_app_env (utc 0) edit_note owner_ctx note_db))"
proof -
  let ?n = "note_of_db\<lparr>note_body := lit ''new'', note_version := 2\<rparr>"
  let ?st = "?n\<lparr>note_updated_at := Some (utc 0)\<rparr>"
  let ?a = "\<lparr>auth_actor = lit ''u'', auth_action = UPDATE, auth_resource = mk_resource (lit ''note'') (lit ''n'') (lit ''u'') PERSONAL,
     authorized_at = utc 0\<rparr>"
  have new: "new_note ?n = Inr ?n" "new_note ?st = Inr ?st"
    by (simp_all add: new_note_Inr note_of_db_def lit_def blank_def py_space_def blank_opt_def naive_opt_def aware_def utc_def)
  have pol: "policy_require (has_grant note_db) (owner_ctx\<lparr>context_now := Some (utc 0)\<rparr>) UPDATE
      (mk_resource (lit ''note'') (lit ''n'') (lit ''u'') PERSONAL) = Inr ?a"
    by (simp add: policy_require_Inr may_access_def owner_ctx_def mk_resource_def)
  have acc: "require_access (owner_ctx\<lparr>context_now := Some (utc 0)\<rparr>) UPDATE (lit ''note'') (lit ''n'') (lit ''u'') PERSONAL note_db
      = (note_db, Inr ?a)"
    using pol by (simp add: require_access_def bind_def op_run resource_def new_resource_ref_def mk_resource_def guarded_def lit_def
        blank_def py_space_def)
  have fields: "note_id note_of_db = lit ''n''" "note_owner note_of_db = lit ''u''" "note_version note_of_db = 1"
    "note_of_db\<lparr>note_title := lit ''t'', note_body := lit ''new'', note_tags := [], note_attachments := [],
      note_classification := PERSONAL, note_version := 2\<rparr> = ?n" "note_created_at note_of_db = Some (utc 0)"
    "category_path note_of_db = [lit ''x'']" "note_classification note_of_db = PERSONAL" "note_tags note_of_db = []"
    by (simp_all add: note_of_db_def)
  have path: "note_path sample_app_env ?st note_db = (note_db, Inr (Some (lit ''c'')))"
    by (simp add: note_path_def first_time_def fields dump_time_def guarded_def op_run bind_def seq_def Let_def sample_store_simps
        insert_or_ignore_def fetch_one_def category_table_def note_db_def lit_def py_strip_def py_space_def)
  have auth: "require_authorization ?a UPDATE (lit ''note'') (lit ''n'') (lit ''u'') PERSONAL = Inr ()"
    by (simp add: require_authorization_run lit_def blank_def py_space_def)
  have st: "new_note (?n\<lparr>note_tags := sorted_tags ?n, note_updated_at := Some (utc 0)\<rparr>) = Inr ?st"
  proof -
    have "?n\<lparr>note_tags := sorted_tags ?n, note_updated_at := Some (utc 0)\<rparr> = ?st" by (simp add: sorted_tags_def note_of_db_def)
    then show ?thesis using new(2) by simp
  qed
  have upd: "is_ok (snd (note_update sample_app_env ?n 1 ?a note_db))"
    apply (simp add: note_update_def auth fields st bind_def seq_def op_run app_transaction_def atomically_def path
        sample_store_simps dump_time_def guarded_def first_time_def and_then_def audit_run)
    apply (simp add: change_rows_def note_tables note_db_def sample_tables note_of_db_def lit_def set_note_columns_def
        update_where_def count_where_def note_writes note_constraints)
    done
  show ?thesis
    using upd by (simp add: update_note_def change_note_def require_found_def bind_def seq_def op_run edit_note_def note_db_get
        scoped_context_def owner_context fields new(1) acc guarded_def)
qed

lemma note_update_keeps_blocks_example:
  "\<exists>t m shown. update_note sample_app_env (utc 0) edit_note owner_ctx note_db = (t, Inr m)
     \<and> note_get (lit ''n'') t = (t, Inr (Some shown)) \<and> note_body shown = lit ''new''
     \<and> map block_body (content_blocks shown) = [lit ''old'']"
proof -
  obtain t m where run: "update_note sample_app_env (utc 0) edit_note owner_ctx note_db = (t, Inr m)"
    using edit_note_ok by (cases "update_note sample_app_env (utc 0) edit_note owner_ctx note_db") (auto simp: is_ok_Inr)
  have at: "in_range (instant (a_tz sample_app_env) (utc 0))" by (simp add: sample_store_simps)
  have atts: "list_all (\<lambda>x. new_note_attachment x = Inr x) (uno_attachments edit_note)" by (simp add: edit_note_def)
  have "content_blocks note_of_db = [\<lparr>block_name = lit ''b'', block_body = lit ''old'', block_fields = [], block_id = lit ''k''\<rparr>]"
    by (simp add: note_of_db_def)
  then show ?thesis
    using note_update_keeps_blocks[OF note_db_ok at atts run] run note_db_get by (auto simp: edit_note_def)
qed

end
