(* ===== verification/Accounting.thy ===== *)
theory Accounting
  imports TaskService ReminderService AgendaService BriefingService NoteService
begin

text \<open>
  Which audit events the writes leave: a small calculus in which every repository write is followed
  once, and the services are composed from it. An operation tracks a predicate on events if every
  run of it either changes nothing and raises, or leaves the grants as they are and appends events to
  the audit log, at least one, all of which satisfy the predicate.
\<close>

section \<open>The calculus\<close>

definition event_log :: "app_db \<Rightarrow> audit_event list" where
  "event_log s = outbox_audit (store s)"

definition grown :: "(audit_event \<Rightarrow> bool) \<Rightarrow> app_db \<Rightarrow> app_db \<Rightarrow> bool" where
  "grown P s t \<longleftrightarrow> t_acl t = t_acl s \<and> (\<exists>es. es \<noteq> [] \<and> event_log t = event_log s @ es \<and> list_all P es)"

definition still :: "'a app \<Rightarrow> bool" where
  "still m \<longleftrightarrow> (\<forall>s. fst (m s) = s)"

definition tracks :: "acl_row list \<Rightarrow> (audit_event \<Rightarrow> bool) \<Rightarrow> 'a app \<Rightarrow> bool" where
  "tracks A P m \<longleftrightarrow> (\<forall>s t r. t_acl s = A \<longrightarrow> m s = (t, r) \<longrightarrow> grown P s t \<or> (t = s \<and> \<not> is_ok r))"

definition follows :: "acl_row list \<Rightarrow> (audit_event \<Rightarrow> bool) \<Rightarrow> 'a app \<Rightarrow> bool" where
  "follows A P m \<longleftrightarrow> (\<forall>s t r. t_acl s = A \<longrightarrow> m s = (t, r) \<longrightarrow> grown P s t \<or> t = s)"

text \<open>Statements of a transaction before its audit event, and the transaction with it.\<close>

definition quiet :: "'a app \<Rightarrow> bool" where
  "quiet m \<longleftrightarrow> keeps_ok (\<lambda>s t. t_acl t = t_acl s \<and> store t = store s) m"

definition ends_with :: "(audit_event \<Rightarrow> bool) \<Rightarrow> 'a app \<Rightarrow> bool" where
  "ends_with P m \<longleftrightarrow> keeps_ok (grown P) m"

named_theorems still_rules and tracks_rules

lemma stillD: "still m \<Longrightarrow> m s = (t, r) \<Longrightarrow> t = s"
  unfolding still_def by (metis fst_conv)

lemma still_pure [still_rules]:
  "still (ret x)" "still (throw e)" "still (of_res r)" "still (reads f)" "still (check b e)" "still (fetch_one tab p)"
  by (simp_all add: still_def op_run fetch_one_def)

lemma still_bind [still_rules]: "still m \<Longrightarrow> (\<And>x. still (f x)) \<Longrightarrow> still (bind m f)"
  unfolding still_def bind_def by (auto split: prod.split sum.split) (metis fst_conv)+

lemma still_seq [still_rules]: "still m \<Longrightarrow> still n \<Longrightarrow> still (seq m n)"
  unfolding seq_def by (rule still_bind)

lemma still_option [still_rules]: "still f \<Longrightarrow> (\<And>x. still (g x)) \<Longrightarrow> still (case v of None \<Rightarrow> f | Some x \<Rightarrow> g x)"
  by (cases v) simp_all

lemma still_require [still_rules]: "still (require_access ctx act k i owner c)" "still (require_read ctx k i owner c)"
  using require_access_state require_read_state by (simp_all add: still_def)

lemma still_found [still_rules]: "still m \<Longrightarrow> still (require_found m)"
  unfolding require_found_def by (intro still_rules)

lemma grown_trans: "grown P s t \<Longrightarrow> grown P t u \<Longrightarrow> grown P s u"
  unfolding grown_def by (metis append_assoc append_is_Nil_conv list_all_append)

lemma tracks_weaken: "tracks A P m \<Longrightarrow> (\<And>e. P e \<Longrightarrow> Q e) \<Longrightarrow> tracks A Q m"
  unfolding tracks_def grown_def by (metis (no_types, lifting) list.pred_mono_strong)

lemma tracks_before:
  assumes "still m" "\<And>x. tracks A P (f x)"
  shows "tracks A P (bind m f)"
  unfolding tracks_def
proof (intro allI impI)
  fix s t r
  assume s: "t_acl s = A" and run: "bind m f s = (t, r)"
  obtain q where m: "m s = (s, q)" using stillD[OF assms(1)] by (metis surj_pair)
  show "grown P s t \<or> t = s \<and> \<not> is_ok r"
  proof (cases q)
    case (Inl e)
    then show ?thesis using run m by (auto simp: bind_def)
  next
    case (Inr x)
    then have "f x s = (t, r)" using run m by (simp add: bind_def)
    then show ?thesis using assms(2) s unfolding tracks_def by blast
  qed
qed

lemma tracks_after:
  assumes "tracks A P m" "\<And>x. still (f x)"
  shows "tracks A P (bind m f)"
  unfolding tracks_def
proof (intro allI impI)
  fix s t r
  assume s: "t_acl s = A" and run: "bind m f s = (t, r)"
  obtain u q where m: "m s = (u, q)" by fastforce
  then have "grown P s u \<or> u = s \<and> \<not> is_ok q" using assms(1) s unfolding tracks_def by blast
  moreover have "t = u \<and> (is_ok r \<longrightarrow> is_ok q)"
    using run m stillD[OF assms(2)] by (cases q) (auto simp: bind_def)
  ultimately show "grown P s t \<or> t = s \<and> \<not> is_ok r" by blast
qed

lemma tracks_seq_before: "still m \<Longrightarrow> tracks A P n \<Longrightarrow> tracks A P (seq m n)"
  unfolding seq_def by (rule tracks_before)

lemma tracks_seq_after: "tracks A P m \<Longrightarrow> still n \<Longrightarrow> tracks A P (seq m n)"
  unfolding seq_def by (rule tracks_after)

lemma tracks_throw: "tracks A P (throw e)"
  by (simp add: tracks_def op_run)

lemma tracks_option: "tracks A P f \<Longrightarrow> (\<And>x. tracks A P (g x)) \<Longrightarrow> tracks A P (case v of None \<Rightarrow> f | Some x \<Rightarrow> g x)"
  by (cases v) simp_all

lemma tracks_follow:
  assumes "follows A P m" "tracks A P n"
  shows "tracks A P (seq m n)"
  unfolding tracks_def
proof (intro allI impI)
  fix s t r
  assume s: "t_acl s = A" and run: "seq m n s = (t, r)"
  obtain u q where m: "m s = (u, q)" by fastforce
  then have u: "grown P s u \<or> u = s" using assms(1) s unfolding follows_def by blast
  then have "t_acl u = A" using s by (auto simp: grown_def)
  show "grown P s t \<or> t = s \<and> \<not> is_ok r"
  proof (cases q)
    case (Inl e)
    then show ?thesis using run m u by (auto simp: seq_def bind_def)
  next
    case (Inr x)
    then have "n u = (t, r)" using run m by (simp add: seq_def bind_def)
    then have "grown P u t \<or> t = u \<and> \<not> is_ok r" using assms(2) \<open>t_acl u = A\<close> unfolding tracks_def by blast
    then show ?thesis using u grown_trans by blast
  qed
qed

lemma follows_tracks: "tracks A P m \<Longrightarrow> follows A P m"
  unfolding tracks_def follows_def by blast

lemma follows_ret: "follows A P (ret x)"
  by (simp add: follows_def op_run)

lemma follows_seq:
  assumes "follows A P m" "follows A P n"
  shows "follows A P (seq m n)"
  unfolding follows_def
proof (intro allI impI)
  fix s t r
  assume s: "t_acl s = A" and run: "seq m n s = (t, r)"
  obtain u q where m: "m s = (u, q)" by fastforce
  then have u: "grown P s u \<or> u = s" using assms(1) s unfolding follows_def by blast
  then have "t_acl u = A" using s by (auto simp: grown_def)
  then have "grown P u t \<or> t = u"
    using run m assms(2) unfolding follows_def by (cases q) (auto simp: seq_def bind_def)
  then show "grown P s t \<or> t = s" using u grown_trans by blast
qed

lemma follows_each: "(\<And>x. follows A P (f x)) \<Longrightarrow> follows A P (each f xs)"
  by (induction xs) (simp_all add: follows_ret follows_seq)

section \<open>Transactions\<close>

lemma quiet_pure: "quiet (ret x)" "quiet (throw e)" "quiet (of_res r)" "quiet (reads f)" "quiet (check b e)" "quiet (fetch_one tab p)"
  unfolding quiet_def fetch_one_def by (rule keeps_ok_pure; simp add: reflp_def)+

lemma quiet_bind: "quiet m \<Longrightarrow> (\<And>x. quiet (f x)) \<Longrightarrow> quiet (bind m f)"
  unfolding quiet_def by (rule keeps_ok_bind) (auto simp: transp_def)

lemma quiet_if: "quiet m \<Longrightarrow> quiet n \<Longrightarrow> quiet (if b then m else n)"
  by simp

lemma quiet_option: "quiet f \<Longrightarrow> (\<And>x. quiet (g x)) \<Longrightarrow> quiet (case v of None \<Rightarrow> f | Some x \<Rightarrow> g x)"
  by (cases v) simp_all

text \<open>A table apart from the grants and the outbox.\<close>

definition plain :: "'r table \<Rightarrow> bool" where
  "plain tab \<longleftrightarrow> (\<forall>f s. t_acl (on_rows tab f s) = t_acl s \<and> store (on_rows tab f s) = store s)"

lemma plain_tables:
  "plain tasks" "plain reminders" "plain agenda" "plain recurrence_rules" "plain recurrence_exceptions"
  "plain notifications" "plain anniversaries" "plain briefings"
  by (simp_all add: plain_def tasks_def reminders_def agenda_def recurrence_rules_def recurrence_exceptions_def
      notifications_def anniversaries_def briefings_def)

lemma quiet_statements:
  "plain tab \<Longrightarrow> quiet (insert_row tab ok r)" "plain tab \<Longrightarrow> quiet (change_rows tab checks p f)"
  "plain tab \<Longrightarrow> quiet (remove_rows tab p)"
  by (auto simp: quiet_def keeps_ok_def plain_def insert_row_def change_rows_def remove_rows_def split: if_splits)

lemma ends_bind: "quiet m \<Longrightarrow> (\<And>x. ends_with P (f x)) \<Longrightarrow> ends_with P (bind m f)"
  unfolding quiet_def ends_with_def keeps_ok_def bind_Inr grown_def event_log_def by force

lemma ends_seq: "quiet m \<Longrightarrow> ends_with P n \<Longrightarrow> ends_with P (seq m n)"
  unfolding seq_def by (rule ends_bind)

lemma ends_option: "ends_with P f \<Longrightarrow> (\<And>x. ends_with P (g x)) \<Longrightarrow> ends_with P (case v of None \<Rightarrow> f | Some x \<Rightarrow> g x)"
  by (cases v) simp_all

lemma ends_throw: "ends_with P (throw e)"
  by (simp add: ends_with_def keeps_ok_def op_run)

text \<open>The event of a capability.\<close>

definition entry_by :: "app_env \<Rightarrow> authorized_action \<Rightarrow> audit_event \<Rightarrow> bool" where
  "entry_by env a e \<longleftrightarrow> (\<exists>reason. e = audit_of (time_text (a_tz env) (authorized_at a)) a completed reason)"

lemma ends_audit: "ends_with (entry_by env a) (audit env a completed reason)"
  unfolding ends_with_def keeps_ok_def
  by (auto simp: audit_run grown_def event_log_def add_audit_def entry_by_def split: if_splits)

lemma tracks_transaction: "ends_with P m \<Longrightarrow> tracks A P (app_transaction m)"
  unfolding tracks_def ends_with_def keeps_ok_def
proof (intro allI impI)
  fix s t r
  assume e: "\<forall>s t x. m s = (t, Inr x) \<longrightarrow> grown P s t" and run: "app_transaction m s = (t, r)"
  show "grown P s t \<or> t = s \<and> \<not> is_ok r"
    using run e by (cases r) (auto simp: app_transaction_Inr app_transaction_Inl)
qed

lemma tracks_raise_conflict:
  assumes "tracks A P m"
  shows "tracks A P (raise_conflict m)"
  unfolding tracks_def
proof (intro allI impI)
  fix s t r
  assume s: "t_acl s = A" and run: "raise_conflict m s = (t, r)"
  show "grown P s t \<or> t = s \<and> \<not> is_ok r"
  proof (cases r)
    case (Inl e)
    then obtain e' where "m s = (t, Inl e')" using run by (auto simp: raise_conflict_Inl)
    then show ?thesis using assms s Inl by (fastforce simp: tracks_def)
  next
    case (Inr x)
    then have "m s = (t, Inr x)" using run by (simp add: raise_conflict_Inr)
    then show ?thesis using assms s Inr by (fastforce simp: tracks_def)
  qed
qed

lemmas quiet_rules = quiet_pure quiet_bind quiet_if quiet_option quiet_statements plain_tables

lemma tracks_audited:
  assumes "plain tab"
  shows "tracks A (entry_by env a) (insert_audited env tab ok r a)"
    "tracks A (entry_by env a) (change_audited env tab checks p f missing a reason)"
    "tracks A (entry_by env a) (remove_audited env tab p missing a)"
proof -
  show "tracks A (entry_by env a) (insert_audited env tab ok r a)" unfolding insert_audited_def
    by (intro tracks_raise_conflict tracks_transaction ends_seq quiet_statements ends_audit assms)
  show "tracks A (entry_by env a) (change_audited env tab checks p f missing a reason)" unfolding change_audited_def
    by (intro tracks_transaction ends_seq ends_bind quiet_statements quiet_pure ends_audit assms)
  show "tracks A (entry_by env a) (remove_audited env tab p missing a)" unfolding remove_audited_def
    by (intro tracks_transaction ends_seq ends_bind quiet_statements quiet_pure ends_audit assms)
qed

lemma tracks_final:
  assumes "plain tab" "still n"
  shows "tracks A (entry_by env a) (seq (insert_audited env tab ok r a) n)"
    "tracks A (entry_by env a) (seq (change_audited env tab checks p f missing a reason) n)"
  by (rule tracks_seq_after tracks_audited assms)+

text \<open>A transaction of several statements followed by a result.\<close>

lemma tracks_final_transaction:
  assumes "ends_with P m" "still n"
  shows "tracks A P (seq (raise_conflict (app_transaction m)) n)" "tracks A P (seq (app_transaction m) n)"
  by (rule tracks_seq_after tracks_raise_conflict tracks_transaction assms)+

lemmas track_steps = tracks_final tracks_audited tracks_final_transaction tracks_transaction tracks_seq_before tracks_before
  tracks_option tracks_throw still_pure still_option still_bind still_seq plain_tables
lemmas end_steps = ends_seq ends_bind ends_option ends_throw ends_audit quiet_rules

section \<open>The repositories\<close>

lemma still_gets [still_rules]:
  "still (task_get i)" "still (reminder_get env i)" "still (agenda_get env i)" "still (notification_get env i)"
  "still (anniversary_get env i)" "still (briefing_get env i)" "still (reminder_list_for_owner env owner)"
  "still (anniversary_list_for_owner env owner)"
  unfolding task_get_def reminder_get_def agenda_get_def notification_get_def anniversary_get_def briefing_get_def
    reminder_list_for_owner_def anniversary_list_for_owner_def
  by (rule still_rules)+

lemma task_writes:
  "tracks A (entry_by env a) (task_create env t a)" "tracks A (entry_by env a) (task_update env t v a)"
  "tracks A (entry_by env a) (task_delete env i a)"
  unfolding task_create_def task_update_def task_delete_def by (rule track_steps)+

lemma change_reminder_writes: "tracks A (entry_by env a) (change_reminder env i f from v a reason)"
  unfolding change_reminder_def by (rule still_gets track_steps)+

lemma reminder_writes:
  "tracks A (entry_by env a) (reminder_create env r a)" "tracks A (entry_by env a) (reminder_cancel env i v a)"
  "tracks A (entry_by env a) (reminder_acknowledge env i v a)" "tracks A (entry_by env a) (reminder_snooze env i fire v a)"
  unfolding reminder_create_def reminder_cancel_def reminder_acknowledge_def reminder_snooze_def
  by (rule change_reminder_writes track_steps)+

lemma write_recurrence_quiet: "quiet (write_recurrence item)"
  using write_recurrence_run by (fastforce simp: quiet_def keeps_ok_def)

lemma cascade_quiet: "quiet (writes (if n = 0 then id else cascade_agenda i))"
  by (simp add: quiet_def keeps_ok_def op_run cascade_agenda_def)

lemma quiet_seq: "quiet m \<Longrightarrow> quiet n \<Longrightarrow> quiet (seq m n)"
  unfolding seq_def by (rule quiet_bind)

lemma agenda_writes:
  "tracks A (entry_by env a) (agenda_create env item a)" "tracks A (entry_by env a) (agenda_update env item v a)"
  "tracks A (entry_by env a) (agenda_delete env i a)" "tracks A (entry_by env a) (add_exception env i x a)"
  unfolding agenda_create_def agenda_update_def agenda_delete_def add_exception_def
  by (rule write_recurrence_quiet cascade_quiet track_steps end_steps)+

lemma notification_writes:
  "tracks A (entry_by env a) (notification_create env n a)" "tracks A (entry_by env a) (notification_update env n a)"
  "tracks A (entry_by env a) (notification_delete env i a)"
  unfolding notification_create_def notification_update_def notification_delete_def
  by (rule track_steps end_steps)+

lemma briefing_writes:
  "tracks A (entry_by env a) (anniversary_create env x a)" "tracks A (entry_by env a) (anniversary_update env x a)"
  "tracks A (entry_by env a) (anniversary_delete env i a)" "tracks A (entry_by env a) (briefing_create env b a)"
  "tracks A (entry_by env a) (briefing_update env b a now)" "tracks A (entry_by env a) (briefing_delete env i a)"
  unfolding anniversary_create_def anniversary_update_def anniversary_delete_def briefing_create_def briefing_update_def
    briefing_delete_def
  by (rule track_steps)+

text \<open>Notes: every part of a note is written before the event.\<close>

lemma note_get_still: "still (note_get i)"
  unfolding note_get_def by (rule still_rules)+

lemma plain_note_tables:
  "plain note_table" "plain category_table" "plain attachment_table" "plain block_table" "plain field_table" "plain tag_table"
  "plain resource_tag_table"
  by (simp_all add: plain_def note_table_def category_table_def attachment_table_def block_table_def field_table_def tag_table_def
      resource_tag_table_def)

lemma quiet_insert_or_ignore: "plain tab \<Longrightarrow> quiet (insert_or_ignore tab p q r)"
  by (auto simp: quiet_def keeps_ok_def plain_def insert_or_ignore_def split: if_splits)

lemma quiet_writes: "(\<And>s. t_acl (h s) = t_acl s \<and> store (h s) = store s) \<Longrightarrow> quiet (writes h)"
  by (simp add: quiet_def keeps_ok_def op_run)

lemma quiet_each: "(\<And>x. quiet (f x)) \<Longrightarrow> quiet (each f xs)"
  by (induction xs) (simp_all add: quiet_pure quiet_seq)

lemma quiet_path: "quiet (ensure_category_path env owner c parent ns)"
proof (induction env owner c parent ns rule: ensure_category_path.induct)
  case 1
  show ?case by (simp add: quiet_pure)
next
  case (2 env owner c parent x ns)
  show ?case unfolding ensure_category_path.simps Let_def
    by (rule quiet_seq quiet_insert_or_ignore plain_note_tables quiet_bind quiet_option quiet_pure 2 refl)+
qed

lemma quiet_note_path: "quiet (note_path env n)"
  unfolding note_path_def by (rule quiet_path quiet_bind quiet_seq quiet_pure)+

lemma quiet_write_tag: "quiet (write_tag n x)"
  unfolding write_tag_def
  by (rule quiet_seq quiet_bind quiet_option quiet_pure quiet_insert_or_ignore quiet_statements plain_note_tables)+

lemma quiet_write_block: "quiet (write_block n c u b)"
proof (cases b)
  case (Pair k x)
  show ?thesis unfolding write_block_def Pair prod.case
    by (rule quiet_seq quiet_each quiet_statements plain_note_tables | simp only: case_prod_beta)+
qed

lemma quiet_write_parts: "quiet (write_parts n c u)"
proof -
  have "t_acl (drop_blocks i s) = t_acl s \<and> store (drop_blocks i s) = store s" for i s by (simp add: drop_blocks_def Let_def)
  then show ?thesis
    unfolding write_parts_def write_tags_def write_attachments_def write_content_blocks_def write_fts_def
    by (intro quiet_seq quiet_bind quiet_each quiet_write_tag quiet_write_block quiet_statements plain_note_tables quiet_writes) simp_all
qed

lemma quiet_note_cascade:
  "quiet (writes (\<lambda>s. if n = 0 then s else drop_blocks i (t_attachments_update f s)))" "quiet (writes (t_fts_update g))"
  by (simp_all add: quiet_def keeps_ok_def op_run drop_blocks_def Let_def)

lemma note_store_writes:
  "tracks A (entry_by env a) (note_create env n a)" "tracks A (entry_by env a) (note_update env n v a)"
  "tracks A (entry_by env a) (note_delete env i a)"
  unfolding note_create_def note_update_def note_delete_def
  by (rule quiet_write_parts quiet_note_path quiet_note_cascade plain_note_tables track_steps end_steps)+

end
