(* ===== verification/CommandBus.thy ===== *)
theory CommandBus
  imports Accounting
begin

text \<open>
  The command bus that \<^verbatim>\<open>ZhixuServices.command_bus\<close> registers, as one function from a command to its
  handler, and what every command keeps. \<open>now\<close> and \<open>later\<close> are the first and the second reading of the
  clock in a method, \<open>i\<close> the id its id factory makes, \<open>ids\<close> the ids it makes for the blocks of a note.
\<close>

datatype command =
    CreateAgenda create_agenda_command
  | CreateAgendaNotification create_agenda_notification_command
  | CreateAnniversary create_anniversary_command
  | SetNotificationLeads set_notification_leads_command
  | UpdateAnniversary update_anniversary_command
  | DeleteAnniversary delete_anniversary_command
  | UpdateDailyBriefing update_daily_briefing_command
  | DeleteDailyBriefing delete_daily_briefing_command
  | UpdateAgendaNotification update_agenda_notification_command
  | DeleteAgendaNotification delete_agenda_notification_command
  | CreateDailyBriefing create_daily_briefing_command
  | UpdateAgenda update_agenda_command
  | DeleteAgenda delete_agenda_command
  | SetAgendaException set_agenda_exception_command
  | CreateTask create_task_command
  | DeleteTask delete_task_command
  | ChangeTask task_request
  | CreateNote create_note_command
  | AddNoteContentBlock add_note_content_block_command
  | MoveNoteCategory move_note_category_command
  | UpdateNote update_note_command
  | DeleteNote delete_note_command
  | CreateReminder create_reminder_command
  | ChangeReminder reminder_request

datatype outcome =
    AgendaResult agenda_item
  | NotificationResult agenda_notification_rule
  | AnniversaryResult anniversary
  | BriefingResult daily_briefing
  | TaskResult task
  | ReminderResult reminder
  | NoteResult note_entity
  | LeadsResult "int list"
  | NoResult unit

definition giving :: "('a \<Rightarrow> 'b) \<Rightarrow> 'a app \<Rightarrow> 'b app" where
  "giving f m = bind m (\<lambda>x. ret (f x))"

fun execute :: "app_env \<Rightarrow> (pystr \<Rightarrow> pystr) \<Rightarrow> (nat \<Rightarrow> pystr) \<Rightarrow> pystr \<Rightarrow> datetime \<Rightarrow> datetime \<Rightarrow> command \<Rightarrow> command_context \<Rightarrow> outcome app" where
  "execute env nfkc ids i now later (CreateAgenda c) ctx = giving AgendaResult (create_agenda env i now c ctx)"
| "execute env nfkc ids i now later (CreateAgendaNotification c) ctx =
     giving NotificationResult (create_agenda_notification env i now c ctx)"
| "execute env nfkc ids i now later (CreateAnniversary c) ctx =
     giving AnniversaryResult (create_anniversary env nfkc i now later c ctx)"
| "execute env nfkc ids i now later (SetNotificationLeads c) ctx = giving LeadsResult (set_notification_leads env now c ctx)"
| "execute env nfkc ids i now later (UpdateAnniversary c) ctx = giving AnniversaryResult (update_anniversary env now c ctx)"
| "execute env nfkc ids i now later (DeleteAnniversary c) ctx = giving NoResult (delete_anniversary env now c ctx)"
| "execute env nfkc ids i now later (UpdateDailyBriefing c) ctx = giving BriefingResult (update_daily_briefing env now c ctx)"
| "execute env nfkc ids i now later (DeleteDailyBriefing c) ctx = giving NoResult (delete_daily_briefing env now c ctx)"
| "execute env nfkc ids i now later (UpdateAgendaNotification c) ctx =
     giving NotificationResult (update_agenda_notification env now c ctx)"
| "execute env nfkc ids i now later (DeleteAgendaNotification c) ctx = giving NoResult (delete_agenda_notification env now c ctx)"
| "execute env nfkc ids i now later (CreateDailyBriefing c) ctx = giving BriefingResult (create_daily_briefing env i now c ctx)"
| "execute env nfkc ids i now later (UpdateAgenda c) ctx = giving AgendaResult (update_agenda env now c ctx)"
| "execute env nfkc ids i now later (DeleteAgenda c) ctx = giving NoResult (delete_agenda env now c ctx)"
| "execute env nfkc ids i now later (SetAgendaException c) ctx = giving NoResult (set_agenda_exception env now c ctx)"
| "execute env nfkc ids i now later (CreateTask c) ctx = giving TaskResult (create_task env i now c ctx)"
| "execute env nfkc ids i now later (DeleteTask c) ctx = giving NoResult (delete_task env now c ctx)"
| "execute env nfkc ids i now later (ChangeTask q) ctx = giving TaskResult (task_change env now later q ctx)"
| "execute env nfkc ids i now later (CreateNote c) ctx = giving NoteResult (create_note env ids i now c ctx)"
| "execute env nfkc ids i now later (AddNoteContentBlock c) ctx = giving NoteResult (add_note_content_block env i now c ctx)"
| "execute env nfkc ids i now later (MoveNoteCategory c) ctx = giving NoteResult (move_note_category env now c ctx)"
| "execute env nfkc ids i now later (UpdateNote c) ctx = giving NoteResult (update_note env now c ctx)"
| "execute env nfkc ids i now later (DeleteNote c) ctx = giving NoResult (delete_note env now c ctx)"
| "execute env nfkc ids i now later (CreateReminder c) ctx = giving ReminderResult (create_reminder env i now c ctx)"
| "execute env nfkc ids i now later (ChangeReminder q) ctx = giving ReminderResult (reminder_action env now q ctx)"

section \<open>Lemmas\<close>

text \<open>The grants in a list of rows, and the capabilities and events that the policy allows with them.\<close>

definition grants_in :: "acl_row list \<Rightarrow> grant_lookup" where
  "grants_in A actor act res \<longleftrightarrow> find (acl_matches res actor act) A \<noteq> None"

definition permitted :: "acl_row list \<Rightarrow> command_context \<Rightarrow> datetime \<Rightarrow> authorized_action \<Rightarrow> bool" where
  "permitted A ctx now a \<longleftrightarrow>
     policy_require (grants_in A) (ctx\<lparr>context_now := Some now\<rparr>) (auth_action a) (auth_resource a) = Inr a"

definition permitted_event :: "app_env \<Rightarrow> acl_row list \<Rightarrow> command_context \<Rightarrow> datetime \<Rightarrow> audit_event \<Rightarrow> bool" where
  "permitted_event env A ctx now e \<longleftrightarrow>
     (\<exists>a reason. permitted A ctx now a \<and> e = audit_of (time_text (a_tz env) now) a completed reason)"

lemma has_grant_in: "has_grant s = grants_in (t_acl s)"
  by (simp add: has_grant_def[abs_def] grants_in_def[abs_def])

lemma permitted_now: "permitted A ctx now a \<Longrightarrow> authorized_at a = now"
  by (auto simp: permitted_def policy_require_Inr)

lemma tracks_permitted:
  assumes "permitted A ctx now a" "tracks A (entry_by env a) m"
  shows "tracks A (permitted_event env A ctx now) m"
  by (rule tracks_weaken[OF assms(2)]) (use assms(1) permitted_now in \<open>auto simp: entry_by_def permitted_event_def\<close>)

lemma tracks_scoped:
  assumes "\<And>current. current = ctx\<lparr>context_now := Some now\<rparr> \<Longrightarrow> tracks A P (f current)"
  shows "tracks A P (bind (scoped_context ctx now) f)"
proof (cases "new_command_context (ctx\<lparr>context_now := Some now\<rparr>)")
  case (Inl e)
  then show ?thesis by (simp add: tracks_def bind_def scoped_context_def op_run)
next
  case (Inr current)
  then have "tracks A P (f current)" using assms new_command_context_Inr by blast
  then show ?thesis using Inr by (simp add: tracks_def bind_def scoped_context_def op_run)
qed

lemma tracks_require:
  assumes "current = ctx\<lparr>context_now := Some now\<rparr>" "\<And>a. permitted A ctx now a \<Longrightarrow> tracks A P (f a)"
  shows "tracks A P (bind (require_access current act k i owner c) f)"
  unfolding tracks_def
proof (intro allI impI)
  fix s t r
  assume s: "t_acl s = A" and run: "bind (require_access current act k i owner c) f s = (t, r)"
  obtain q where m: "require_access current act k i owner c s = (s, q)"
    using require_access_state[of current act k i owner c s] by (metis surj_pair fst_conv)
  show "grown P s t \<or> t = s \<and> \<not> is_ok r"
  proof (cases q)
    case (Inl e)
    then show ?thesis using run m by (auto simp: bind_def)
  next
    case (Inr a)
    have "permitted A ctx now a"
      using require_access_Inr(2,3,8)[OF m[unfolded Inr]] s by (simp add: permitted_def has_grant_in assms(1))
    then have "tracks A P (f a)" by (rule assms(2))
    moreover have "f a s = (t, r)" using run m Inr by (simp add: bind_def)
    ultimately show ?thesis using s unfolding tracks_def by blast
  qed
qed

lemma still_given: "still (of_res r)" "still (check b e)"
  by (rule still_pure)+

lemma tracks_require_found: "still m \<Longrightarrow> (\<And>x. tracks A P (f x)) \<Longrightarrow> tracks A P (bind (require_found m) f)"
  by (rule tracks_before[OF still_found])

lemmas service_steps = tracks_scoped tracks_require_found tracks_require tracks_seq_before tracks_before still_given still_gets

lemma still_find_matching: "still (find_matching_anniversary env nfkc later c ctx)"
proof -
  have "still (scoped_context ctx later)" by (simp add: still_def scoped_context_state)
  then show ?thesis unfolding find_matching_anniversary_def
    by (intro still_bind still_option still_seq still_pure still_require still_gets)
qed

text \<open>The handlers with one write: after the checks, a repository write under a permitted capability.\<close>

lemma write_handlers:
  "tracks A (permitted_event env A ctx now) (create_agenda env i now c1 ctx)"
  "tracks A (permitted_event env A ctx now) (update_agenda env now c2 ctx)"
  "tracks A (permitted_event env A ctx now) (set_agenda_exception env now c3 ctx)"
  "tracks A (permitted_event env A ctx now) (create_agenda_notification env i now c4 ctx)"
  "tracks A (permitted_event env A ctx now) (update_agenda_notification env now c5 ctx)"
  "tracks A (permitted_event env A ctx now) (delete_agenda_notification env now c6 ctx)"
  "tracks A (permitted_event env A ctx now) (update_anniversary env now c7 ctx)"
  "tracks A (permitted_event env A ctx now) (delete_anniversary env now c8 ctx)"
  "tracks A (permitted_event env A ctx now) (create_daily_briefing env i now c9 ctx)"
  "tracks A (permitted_event env A ctx now) (update_daily_briefing env now c10 ctx)"
  "tracks A (permitted_event env A ctx now) (delete_daily_briefing env now c11 ctx)"
  "tracks A (permitted_event env A ctx now) (create_task env i now c12 ctx)"
  "tracks A (permitted_event env A ctx now) (delete_task env now c13 ctx)"
  "tracks A (permitted_event env A ctx now) (create_reminder env i now c14 ctx)"
  unfolding create_agenda_def update_agenda_def set_agenda_exception_def create_agenda_notification_def
    update_agenda_notification_def delete_agenda_notification_def update_anniversary_def delete_anniversary_def
    create_daily_briefing_def update_daily_briefing_def delete_daily_briefing_def create_task_def delete_task_def
    create_reminder_def
  by (rule service_steps refl | assumption | erule tracks_permitted | rule agenda_writes notification_writes briefing_writes task_writes reminder_writes)+

lemmas write_steps = agenda_writes notification_writes briefing_writes task_writes reminder_writes

lemma create_anniversary_writes:
  "tracks A (permitted_event env A ctx now) (create_anniversary env nfkc i now later c ctx)"
  unfolding create_anniversary_def
  by (rule still_find_matching service_steps refl | assumption | erule tracks_permitted | rule write_steps)+

lemma task_change_writes: "tracks A (permitted_event env A ctx now) (task_change env now later q ctx)"
  unfolding task_change_def change_found_def change_task_def
  by (rule service_steps refl | assumption | erule tracks_permitted | rule write_steps)+

lemma change_note_writes: "tracks A (permitted_event env A ctx now) (change_note env now ctx i refused change required)"
  unfolding change_note_def
  by (rule note_get_still service_steps refl | assumption | erule tracks_permitted | rule note_store_writes)+

lemma note_commands_write:
  "tracks A (permitted_event env A ctx now) (create_note env ids i now c1 ctx)"
  "tracks A (permitted_event env A ctx now) (add_note_content_block env i now c2 ctx)"
  "tracks A (permitted_event env A ctx now) (move_note_category env now c3 ctx)"
  "tracks A (permitted_event env A ctx now) (update_note env now c4 ctx)"
  "tracks A (permitted_event env A ctx now) (delete_note env now c5 ctx)"
proof -
  show "tracks A (permitted_event env A ctx now) (create_note env ids i now c1 ctx)" unfolding create_note_def
    by (rule service_steps refl | assumption | erule tracks_permitted | rule note_store_writes)+
  show "tracks A (permitted_event env A ctx now) (delete_note env now c5 ctx)" unfolding delete_note_def
    by (rule note_get_still service_steps refl | assumption | erule tracks_permitted | rule note_store_writes)+
qed (simp_all only: add_note_content_block_def move_note_category_def update_note_def change_note_writes)

lemma on_reminder_writes:
  assumes "\<And>r a. tracks A (entry_by env a) (act r a)"
  shows "tracks A (permitted_event env A ctx now) (on_reminder env now i check_user act ctx)"
  unfolding on_reminder_def
  by (rule service_steps refl | assumption | erule tracks_permitted | rule assms)+

lemma reminder_action_writes: "tracks A (permitted_event env A ctx now) (reminder_action env now q ctx)"
  by (cases q; simp add: acknowledge_reminder_def cancel_reminder_def snooze_reminder_def;
      rule on_reminder_writes; rule write_steps)

lemma cancel_announcement_writes:
  assumes "current = ctx\<lparr>context_now := Some now\<rparr>"
  shows "follows A (permitted_event env A ctx now) (cancel_announcement env current item r)"
proof (cases "announces item r")
  case True
  have "tracks A (permitted_event env A ctx now) (bind (require_access current UPDATE (lit ''reminder'') (rem_id r) (rem_owner r)
      (rem_classification r)) (\<lambda>a. bind (reminder_cancel env (rem_id r) (rem_version r) a) (\<lambda>_. ret ())))"
    by (rule tracks_require assms | erule tracks_permitted | rule tracks_after write_steps still_pure)+
  then show ?thesis using True by (simp add: cancel_announcement_def follows_tracks)
qed (simp add: cancel_announcement_def follows_ret)

lemma delete_agenda_writes: "tracks A (permitted_event env A ctx now) (delete_agenda env now c ctx)"
  unfolding delete_agenda_def
  by (rule tracks_follow follows_each service_steps refl | erule cancel_announcement_writes | assumption
      | erule tracks_permitted | rule write_steps)+

text \<open>Lead times are written without an event.\<close>

definition unlogged :: "app_db \<Rightarrow> app_db \<Rightarrow> bool" where
  "unlogged s t \<longleftrightarrow> t_acl t = t_acl s \<and> store t = store s"

lemma unlogged_order: "reflp unlogged" "transp unlogged"
  by (auto simp: unlogged_def reflp_def transp_def)

lemma keeps_still: "still m \<Longrightarrow> keeps unlogged m"
  by (simp add: still_def keeps_def unlogged_def)

lemma keeps_branches:
  "keeps R m \<Longrightarrow> keeps R n \<Longrightarrow> keeps R (if b then m else n)"
  "keeps R f \<Longrightarrow> (\<And>x. keeps R (g x)) \<Longrightarrow> keeps R (case v of None \<Rightarrow> f | Some x \<Rightarrow> g x)"
  by (auto split: option.split)

lemma upsert_unlogged:
  assumes "plain tab"
  shows "keeps unlogged (upsert_leads tab known r)"
proof -
  have step: "keeps unlogged (fetch_one tab p)" "keeps unlogged (insert_row tab ok r)" "keeps unlogged (change_rows tab ch q f)" for p ok ch q f
    using assms by (auto simp: keeps_def unlogged_def plain_def fetch_one_def insert_row_def change_rows_def op_run)
  have "keeps unlogged (bind (fetch_one tab (\<lambda>q. ld_key q = ld_key r)) (\<lambda>present.
      if present = None then insert_row tab (\<lambda>s q. known s) r
      else bind (change_rows tab (\<lambda>q. True) (\<lambda>q. ld_key q = ld_key r)
          (\<lambda>q. q\<lparr>ld_minutes := ld_minutes r, ld_updated := ld_updated r\<rparr>)) (\<lambda>_. ret ())))"
    by (rule step keeps_branches keeps_bind unlogged_order keeps_pure)+
  then show ?thesis unfolding upsert_leads_def app_transaction_def
    by (rule keeps_atomically) (simp add: unlogged_def)
qed

lemma leads_unlogged: "keeps unlogged (set_notification_leads env now c ctx)"
proof -
  have plain: "plain default_leads" "plain item_leads" by (simp_all add: plain_def default_leads_def item_leads_def)
  have set: "keeps unlogged (lead_set_default env o1 ms now)" "keeps unlogged (lead_set_override env i o1 ms now)" for o1 ms i
    unfolding lead_set_default_def lead_set_override_def
    by (rule keeps_bind keeps_seq unlogged_order keeps_pure upsert_unlogged plain)+
  have scoped: "still (scoped_context ctx now)" by (simp add: still_def scoped_context_state)
  show ?thesis unfolding set_notification_leads_def Let_def
    by (rule set keeps_still[OF scoped] keeps_still[OF still_require(1)] keeps_still[OF still_found[OF still_gets(3)]]
        keeps_branches keeps_bind unlogged_order)+
qed

lemma keeps_giving:
  assumes "keeps unlogged m"
  shows "keeps unlogged (giving f m)"
  unfolding giving_def by (rule keeps_bind unlogged_order keeps_pure assms)+

lemma tracks_giving: "tracks A P m \<Longrightarrow> tracks A P (giving f m)"
  unfolding giving_def by (erule tracks_after) (rule still_pure)

lemma execute_tracks:
  assumes "\<And>c. q \<noteq> SetNotificationLeads c"
  shows "tracks A (permitted_event env A ctx now) (execute env nfkc ids i now later q ctx)"
  by (cases q) (use assms in \<open>simp_all add: tracks_giving write_handlers create_anniversary_writes task_change_writes reminder_action_writes
      delete_agenda_writes note_commands_write\<close>)

section \<open>Properties\<close>



end
