(* ===== verification/QueryBus.thy ===== *)
theory QueryBus
  imports CommandBus
begin

text \<open>
  The query bus that \<^verbatim>\<open>ZhixuServices.query_bus\<close> registers, as one function from a query to its handler, and
  what an answer may hold. \<open>now\<close> is the clock at the start of a query.
\<close>

datatype query =
    AgendaBetween agenda_between_query
  | ListAgendaItems
  | ListTasks list_tasks_query
  | SearchNotes search_notes_query
  | ListNotes int
  | ListReminders list_reminders_query
  | ListAnniversaries
  | ListDailyBriefings

datatype reply =
    OccurrencesReply "agenda_occurrence list"
  | ItemsReply "agenda_item list"
  | TasksReply "task list"
  | NotesReply "note_entity list"
  | RemindersReply "reminder list"
  | AnniversariesReply "anniversary list"
  | BriefingsReply "daily_briefing list"

fun ask :: "app_env \<Rightarrow> datetime \<Rightarrow> query \<Rightarrow> command_context \<Rightarrow> reply app" where
  "ask env now (AgendaBetween q) ctx = giving OccurrencesReply (agenda_between env now q ctx)"
| "ask env now ListAgendaItems ctx = giving ItemsReply (list_agenda_items env now ctx)"
| "ask env now (ListTasks q) ctx = giving TasksReply (list_tasks now q ctx)"
| "ask env now (SearchNotes q) ctx = giving NotesReply (search_notes env now q ctx)"
| "ask env now (ListNotes limit) ctx = giving NotesReply (list_notes now limit ctx)"
| "ask env now (ListReminders q) ctx = giving RemindersReply (list_reminders env now q ctx)"
| "ask env now ListAnniversaries ctx = giving AnniversariesReply (list_anniversaries env now ctx)"
| "ask env now ListDailyBriefings ctx = giving BriefingsReply (list_daily_briefings env now ctx)"

section \<open>What a caller may read\<close>

definition may_read :: "app_db \<Rightarrow> command_context \<Rightarrow> pystr \<Rightarrow> pystr \<Rightarrow> pystr \<Rightarrow> data_classification \<Rightarrow> bool" where
  "may_read s current k i owner c \<longleftrightarrow> is_ok (policy_require (has_grant s) current READ (mk_resource k i owner c))"

text \<open>An occurrence is read through its item.\<close>

definition may_read_item :: "app_env \<Rightarrow> app_db \<Rightarrow> command_context \<Rightarrow> pystr \<Rightarrow> bool" where
  "may_read_item env s current i \<longleftrightarrow> (case snd (agenda_get env i s) of
       Inr (Some item) \<Rightarrow> may_read s current (lit ''agenda'') (ag_id item) (ag_owner item) (ag_classification item)
     | _ \<Rightarrow> False)"

fun may_see :: "app_env \<Rightarrow> app_db \<Rightarrow> command_context \<Rightarrow> reply \<Rightarrow> bool" where
  "may_see env s current (OccurrencesReply xs) = list_all (\<lambda>x. may_read_item env s current (occ_item_id x)) xs"
| "may_see env s current (ItemsReply xs) =
     list_all (\<lambda>x. may_read s current (lit ''agenda'') (ag_id x) (ag_owner x) (ag_classification x)) xs"
| "may_see env s current (TasksReply xs) =
     list_all (\<lambda>x. may_read s current (lit ''task'') (task_id x) (task_owner x) (task_classification x)) xs"
| "may_see env s current (NotesReply xs) =
     list_all (\<lambda>x. may_read s current (lit ''note'') (note_id x) (note_owner x) (note_classification x)) xs"
| "may_see env s current (RemindersReply xs) =
     list_all (\<lambda>x. may_read s current (lit ''reminder'') (rem_id x) (rem_owner x) (rem_classification x)) xs"
| "may_see env s current (AnniversariesReply xs) =
     list_all (\<lambda>x. may_read s current (lit ''anniversary'') (ann_id x) (ann_owner x) (ann_classification x)) xs"
| "may_see env s current (BriefingsReply xs) =
     list_all (\<lambda>x. may_read s current (lit ''daily_briefing'') (br_id x) (br_owner x) (br_classification x)) xs"

section \<open>Lemmas\<close>

text \<open>An operation discloses what \<open>Q\<close> allows if it changes nothing and every result satisfies \<open>Q\<close>.\<close>

definition discloses :: "(app_db \<Rightarrow> 'a \<Rightarrow> bool) \<Rightarrow> 'a app \<Rightarrow> bool" where
  "discloses Q m \<longleftrightarrow> (\<forall>s t r. m s = (t, r) \<longrightarrow> t = s \<and> (\<forall>x. r = Inr x \<longrightarrow> Q s x))"

lemma discloses_weaken: "discloses Q m \<Longrightarrow> (\<And>s x. Q s x \<Longrightarrow> R s x) \<Longrightarrow> discloses R m"
  by (auto simp: discloses_def)

lemma discloses_bind:
  assumes "discloses Q m" "\<And>x. discloses (\<lambda>s y. Q s x \<longrightarrow> R s y) (f x)"
  shows "discloses R (bind m f)"
  unfolding discloses_def
proof (intro allI impI)
  fix s t r
  assume run: "bind m f s = (t, r)"
  obtain u q where m: "m s = (u, q)" by fastforce
  then have u: "u = s" and q: "\<And>x. q = Inr x \<Longrightarrow> Q s x" using assms(1) by (simp_all add: discloses_def)
  show "t = s \<and> (\<forall>x. r = Inr x \<longrightarrow> R s x)"
  proof (cases q)
    case (Inl e)
    then show ?thesis using run m u by (auto simp: bind_def)
  next
    case (Inr x)
    then have "f x s = (t, r)" using run m u by (simp add: bind_def)
    then show ?thesis using assms(2)[of x] q[OF Inr] by (simp add: discloses_def)
  qed
qed

lemma discloses_still: "still m \<Longrightarrow> discloses (\<lambda>s x. True) m"
  using stillD by (auto simp: discloses_def)

lemma discloses_after:
  assumes "still m" "\<And>x. discloses R (f x)"
  shows "discloses R (bind m f)"
  by (rule discloses_bind[OF discloses_still[OF assms(1)]]) (use assms(2) in simp)

lemma discloses_ret: "(\<And>s. Q s x) \<Longrightarrow> discloses Q (ret x)"
  by (simp add: discloses_def op_run)

lemma discloses_giving: "discloses (\<lambda>s x. Q s (f x)) m \<Longrightarrow> discloses Q (giving f m)"
  unfolding giving_def by (erule discloses_bind) (simp add: discloses_def op_run)

lemma still_each [still_rules]: "(\<And>x. still (f x)) \<Longrightarrow> still (each f xs)"
  by (induction xs) (simp_all add: still_pure still_seq)

lemma still_gather [still_rules]: "(\<And>x. still (f x)) \<Longrightarrow> still (gather f xs)"
  by (induction xs) (simp_all add: still_pure still_bind)

lemma still_scoped: "still (scoped_context ctx now)"
  by (simp add: still_def scoped_context_state)

lemma require_read_discloses:
  "discloses (\<lambda>s u. may_read s current k i owner c) (require_read current k i owner c)"
  unfolding discloses_def
proof (intro allI impI)
  fix s t r
  assume run: "require_read current k i owner c s = (t, r)"
  have "t = s" using require_read_state[of current k i owner c s] by (simp add: run)
  moreover have "may_read s current k i owner c" if "r = Inr x" for x
    using require_read_Inr[OF run[unfolded that]] by (auto simp: may_read_def)
  ultimately show "t = s \<and> (\<forall>x. r = Inr x \<longrightarrow> may_read s current k i owner c)" by blast
qed

lemma each_discloses:
  assumes "\<And>x. discloses (\<lambda>s u. P s x) (f x)"
  shows "discloses (\<lambda>s u. list_all (P s) xs) (each f xs)"
proof (induction xs)
  case Nil
  show ?case by (simp add: discloses_ret)
next
  case (Cons x xs)
  have "discloses (\<lambda>s u. list_all (P s) (x # xs)) (bind (f x) (\<lambda>_. each f xs))"
    by (rule discloses_bind[OF assms]) (rule discloses_weaken[OF Cons.IH], simp)
  then show ?case by (simp add: seq_def)
qed

text \<open>The common ending: check every entity that was found, return some of them.\<close>

lemma checked_discloses:
  assumes "\<And>x. discloses (\<lambda>s u. P s x) (f x)" "set (h xs) \<subseteq> set xs"
  shows "discloses (\<lambda>s ys. list_all (P s) ys) (seq (each f xs) (ret (h xs)))"
  unfolding seq_def
  by (rule discloses_bind[OF each_discloses[where P = P, OF assms(1)]])
    (use assms(2) in \<open>auto simp: discloses_def op_run list_all_iff\<close>)

lemma gather_discloses:
  assumes "\<And>x. discloses (\<lambda>s ys. list_all (P s) ys) (f x)"
  shows "discloses (\<lambda>s ys. list_all (P s) ys) (gather f xs)"
proof (induction xs)
  case Nil
  show ?case by (simp add: discloses_ret)
next
  case (Cons x xs)
  show ?case unfolding gather.simps
    by (rule discloses_bind[OF assms], rule discloses_bind[OF Cons.IH]) (simp add: discloses_def op_run)
qed

lemma scoped_discloses:
  assumes "\<And>current. current = ctx\<lparr>context_now := Some now\<rparr> \<Longrightarrow> discloses Q (f current)"
  shows "discloses Q (bind (scoped_context ctx now) f)"
proof (cases "new_command_context (ctx\<lparr>context_now := Some now\<rparr>)")
  case (Inl e)
  then show ?thesis by (simp add: discloses_def bind_def scoped_context_def op_run)
next
  case (Inr current)
  then have "discloses Q (f current)" using assms new_command_context_Inr by blast
  then show ?thesis using Inr by (simp add: discloses_def bind_def scoped_context_def op_run)
qed

text \<open>The lists of the repositories read only.\<close>

lemma still_lists [still_rules]:
  "still (task_list_for_owner owner)" "still (briefing_list_for_owner env owner)" "still (agenda_list_for_owner env owner)"
  "still (note_list_for_owner owner)" "still (agenda_occurrences env owner a b)" "still (note_search env owner text limit)"
  unfolding task_list_for_owner_def briefing_list_for_owner_def agenda_list_for_owner_def agenda_rows_def note_list_for_owner_def
    agenda_occurrences_def note_search_def
  by (simp_all add: still_rules)

lemma agenda_get_id: "agenda_get env i s = (t, Inr (Some item)) \<Longrightarrow> ag_id item = i"
  by (auto simp: agenda_get_def fetch_one_def bind_Inr op_run agenda_from_row_def and_then_Inr agenda_def find_Some_iff
      dest!: new_agenda_item_Inr split: option.splits)

text \<open>Every occurrence is checked through its item, an item once.\<close>

lemma check_occurrences_discloses:
  assumes "check_occurrences env current checked xs s = (t, r)" "\<forall>i \<in> set checked. may_read_item env s current i"
  shows "t = s \<and> (r = Inr () \<longrightarrow> list_all (\<lambda>x. may_read_item env s current (occ_item_id x)) xs)"
  using assms
proof (induction env current checked xs rule: check_occurrences.induct)
  case (1 env current checked)
  then show ?case by (simp add: op_run)
next
  case (2 env current checked x xs)
  show ?case
  proof (cases "occ_item_id x \<in> set checked")
    case True
    then show ?thesis using 2 by auto
  next
    case False
    let ?i = "occ_item_id x"
    obtain q where get: "agenda_get env ?i s = (s, q)" using stillD[OF still_gets(3)] by (metis surj_pair)
    show ?thesis
    proof (cases "\<exists>item. q = Inr (Some item)")
      case found: True
      then obtain item where q: "q = Inr (Some item)" by blast
      have id: "ag_id item = ?i" using agenda_get_id get q by blast
      obtain p where req: "require_item current item s = (s, p)"
        using require_read_state[of current "lit ''agenda''" "ag_id item" "ag_owner item" "ag_classification item" s]
        unfolding require_item_def by (metis surj_pair fst_conv)
      show ?thesis
      proof (cases p)
        case (Inl e)
        then show ?thesis using 2(3) False get q req by (auto simp: require_found_def bind_def seq_def op_run)
      next
        case (Inr u)
        have "may_read s current (lit ''agenda'') (ag_id item) (ag_owner item) (ag_classification item)"
          using require_read_discloses req Inr unfolding require_item_def discloses_def by blast
        then have ok: "may_read_item env s current ?i" by (simp add: may_read_item_def get q)
        have "check_occurrences env current (ag_id item # checked) xs s = (t, r)"
          using 2(3) False get q req Inr by (simp add: require_found_def bind_def seq_def op_run)
        then have "t = s \<and> (r = Inr () \<longrightarrow> list_all (\<lambda>x. may_read_item env s current (occ_item_id x)) xs)"
          using 2(2)[OF False, of item] 2(4) ok id by simp
        then show ?thesis using ok by simp
      qed
    next
      case False': False
      then show ?thesis using 2(3) False get
        by (cases q) (auto simp: require_found_def bind_def op_run split: option.splits)
    qed
  qed
qed

lemma check_occurrences_set:
  "discloses (\<lambda>s u. list_all (\<lambda>x. may_read_item env s current (occ_item_id x)) xs) (check_occurrences env current [] xs)"
  using check_occurrences_discloses unfolding discloses_def by fastforce

lemma still_require_item [still_rules]: "still (require_item current item)" "still (require_collection current owner)"
    "still (require_note current n)"
  unfolding require_item_def require_collection_def require_note_def by (rule still_rules)+

text \<open>The handlers that gather first and check what they found.\<close>

lemma gathered_discloses:
  assumes "\<And>owner. still (f owner)" "\<And>x. discloses (\<lambda>s u. P s x) (g x)" "\<And>xs. set (h xs) \<subseteq> set xs"
  shows "discloses (\<lambda>s ys. list_all (P s) ys) (bind (gather f owners) (\<lambda>xs. seq (each g xs) (ret (h xs))))"
  by (rule discloses_after[OF still_gather[OF assms(1)] checked_discloses[OF assms(2,3)]])

lemma tasks_disclosed:
  "discloses (\<lambda>s x. may_see env s (ctx\<lparr>context_now := Some now\<rparr>) (TasksReply x)) (list_tasks now q ctx)"
  unfolding list_tasks_def may_see.simps
  by (rule scoped_discloses, simp only:, rule gathered_discloses, rule still_rules, (rule still_rules)+,
      rule require_read_discloses, auto)

lemma reminders_disclosed:
  "discloses (\<lambda>s x. may_see env s (ctx\<lparr>context_now := Some now\<rparr>) (RemindersReply x)) (list_reminders env now q ctx)"
  unfolding list_reminders_def may_see.simps
  by (rule scoped_discloses, simp only:, rule gathered_discloses, rule still_gets, rule require_read_discloses, auto)

lemma days_disclosed:
  "discloses (\<lambda>s x. may_see env s (ctx\<lparr>context_now := Some now\<rparr>) (AnniversariesReply x)) (list_anniversaries env now ctx)"
  unfolding list_anniversaries_def may_see.simps
  by (rule scoped_discloses, simp only:, rule gathered_discloses[where h = "\<lambda>xs. xs"], rule still_gets, rule require_read_discloses, simp)

lemma briefings_disclosed:
  "discloses (\<lambda>s x. may_see env s (ctx\<lparr>context_now := Some now\<rparr>) (BriefingsReply x)) (list_daily_briefings env now ctx)"
  unfolding list_daily_briefings_def may_see.simps
  by (rule scoped_discloses, simp only:, rule gathered_discloses[where h = "\<lambda>xs. xs"], rule still_lists, rule require_read_discloses, simp)

lemma require_note_discloses:
  "discloses (\<lambda>s u. may_read s current (lit ''note'') (note_id n) (note_owner n) (note_classification n)) (require_note current n)"
  unfolding require_note_def by (rule require_read_discloses)

lemma found_notes_disclosed:
  "discloses (\<lambda>s x. may_see env s (ctx\<lparr>context_now := Some now\<rparr>) (NotesReply x)) (search_notes env now q ctx)"
  unfolding search_notes_def may_see.simps Let_def
  by (rule scoped_discloses, simp only:, rule discloses_after, (rule still_rules)+,
      rule checked_discloses[where h = "\<lambda>xs. xs", OF require_note_discloses], simp)

text \<open>The handlers that check while they gather.\<close>

lemma checked_gather_discloses:
  assumes "\<And>owner. still (f owner)" "\<And>owner. still (l owner)" "\<And>x. discloses (\<lambda>s u. P s x) (g x)" "\<And>xs. set (h xs) \<subseteq> set xs"
  shows "discloses (\<lambda>s ys. list_all (P s) ys)
    (bind (gather (\<lambda>owner. seq (f owner) (bind (l owner) (\<lambda>xs. seq (each g xs) (ret xs)))) owners) (\<lambda>xs. ret (h xs)))"
proof (rule discloses_bind)
  have "discloses (\<lambda>s ys. list_all (P s) ys) (seq (each g xs) (ret xs))" for xs
    by (rule checked_discloses[where h = "\<lambda>xs. xs", OF assms(3)]) simp
  then have "discloses (\<lambda>s ys. list_all (P s) ys) (seq (f owner) (bind (l owner) (\<lambda>xs. seq (each g xs) (ret xs))))" for owner
    unfolding seq_def[of "f owner"] by (intro discloses_after assms(1,2))
  then show "discloses (\<lambda>s ys. list_all (P s) ys)
      (gather (\<lambda>owner. seq (f owner) (bind (l owner) (\<lambda>xs. seq (each g xs) (ret xs)))) owners)" by (rule gather_discloses)
  show "discloses (\<lambda>s ys. list_all (P s) xs \<longrightarrow> list_all (P s) ys) (ret (h xs))" for xs
    by (rule discloses_ret) (use assms(4)[of xs] in \<open>auto simp: list_all_iff\<close>)
qed

lemma notes_disclosed:
  "discloses (\<lambda>s x. may_see env s (ctx\<lparr>context_now := Some now\<rparr>) (NotesReply x)) (list_notes now limit ctx)"
  unfolding list_notes_def may_see.simps seq_def[of "check b e" for b e]
  by (rule discloses_after[OF still_pure(5)], rule scoped_discloses, simp only:, rule checked_gather_discloses,
      rule still_rules, rule still_lists, rule require_note_discloses, auto dest: in_set_takeD)

lemma items_disclosed:
  "discloses (\<lambda>s x. may_see env s (ctx\<lparr>context_now := Some now\<rparr>) (ItemsReply x)) (list_agenda_items env now ctx)"
  unfolding list_agenda_items_def may_see.simps
  by (rule scoped_discloses, simp only:, rule checked_gather_discloses, rule still_rules, rule still_lists,
      unfold require_item_def, rule require_read_discloses, simp)

lemma occurrences_disclosed:
  "discloses (\<lambda>s x. may_see env s (ctx\<lparr>context_now := Some now\<rparr>) (OccurrencesReply x)) (agenda_between env now q ctx)"
  unfolding agenda_between_def may_see.simps Let_def seq_def[of "check_occurrences e c [] xs" for e c xs]
proof (rule scoped_discloses, simp only:, rule discloses_after, (rule still_rules)+, rule discloses_bind[OF check_occurrences_set])
  show "discloses (\<lambda>s y. list_all (\<lambda>x. may_read_item env s current (occ_item_id x)) xs \<longrightarrow>
      list_all (\<lambda>x. may_read_item env s current (occ_item_id x)) y) (ret xs)" for current xs
    by (rule discloses_ret) simp
qed

section \<open>Properties\<close>

text \<open>
  C2. A query discloses nothing that the policy would not let the caller read: whatever it asks for and however it
  ends, the store stays as it was, and every task, note, reminder, agenda item, important day and
  briefing of an answer, and the item behind every occurrence, is one that the policy engine allows the
  caller to READ at that time with the grants of that store.
\<close>

theorem replies_readable:
  assumes "ask env now q ctx s = (t, r)"
  shows "t = s \<and> (\<forall>x. r = Inr x \<longrightarrow> may_see env s (ctx\<lparr>context_now := Some now\<rparr>) x)"
proof -
  let ?c = "ctx\<lparr>context_now := Some now\<rparr>"
  have "discloses (\<lambda>s x. may_see env s ?c x) (ask env now q ctx)"
    by (cases q; simp only: ask.simps; rule discloses_giving;
        rule occurrences_disclosed items_disclosed tasks_disclosed found_notes_disclosed notes_disclosed reminders_disclosed
          days_disclosed briefings_disclosed)
  then show ?thesis using assms unfolding discloses_def by blast
qed

theorem replies_readable_witness:
  "ask sample_app_env (utc 0) (ListTasks \<lparr>include_archived = False\<rparr>) step_up_ctx task_db
       = (task_db, Inr (TasksReply [stored_task sample_app_env (utc 0) confidential_task]))
     \<and> may_read task_db (step_up_ctx\<lparr>context_now := Some (utc 0)\<rparr>) (lit ''task'') (lit ''t'') (lit ''u'') CONFIDENTIAL"
proof -
  have run: "ask sample_app_env (utc 0) (ListTasks \<lparr>include_archived = False\<rparr>) step_up_ctx task_db
       = (task_db, Inr (TasksReply [stored_task sample_app_env (utc 0) confidential_task]))"
    by (simp add: giving_def bind_def list_runs op_run)
  then show ?thesis using replies_readable[OF run] by (simp add: publish_side)
qed

end
