(* ===== verification/Scheduler.thy ===== *)
theory Scheduler
  imports BriefingStore
begin

text \<open>
  The clock-driven schedulers of \<^verbatim>\<open>src/zhixu/application/scheduler.py\<close>: the reminder tick, the
  notification rules and lead times that materialise as reminders, and the daily briefing. \<open>now\<close> is the
  reading of the clock at the start of a tick.
\<close>

section \<open>Materialised reminders\<close>

definition reminder_tick :: "app_env \<Rightarrow> datetime \<Rightarrow> int \<Rightarrow> nat app" where
  "reminder_tick env now late_grace_seconds = enqueue_due env now late_grace_seconds"

text \<open>\<^verbatim>\<open>try: create \<dots> except ConflictError: continue\<close>, with its subclasses, counting what was created.\<close>

definition unless_conflict :: "'a app \<Rightarrow> nat app" where
  "unless_conflict m s = (case m s of
       (t, Inl e) \<Rightarrow> (t, if e \<in> {ConflictError, ConcurrencyConflict, InvalidTransition} then Inr 0 else Inl e)
     | (t, Inr x) \<Rightarrow> (t, Inr 1))"

definition scheduled_id :: "app_env \<Rightarrow> pystr \<Rightarrow> pystr" where
  "scheduled_id env identity = lit ''reminder_'' @ take 32 (a_sha256 env identity)"

definition notification_authorization :: "reminder \<Rightarrow> datetime \<Rightarrow> authorized_action res" where
  "notification_authorization r now =
     and_then (resource (lit ''reminder'') (rem_id r) (rem_owner r) (rem_classification r)) (\<lambda>res.
       Inr \<lparr>auth_actor = lit ''service:agenda-notification'', auth_action = CREATE, auth_resource = res, authorized_at = now\<rparr>)"

text \<open>A reminder is made once: under the id derived from its identity.\<close>

definition materialize :: "app_env \<Rightarrow> datetime \<Rightarrow> reminder \<Rightarrow> nat app" where
  "materialize env now r =
     bind (reminder_get env (rem_id r)) (\<lambda>present. case present of
       Some _ \<Rightarrow> ret 0
     | None \<Rightarrow> bind (of_res (new_reminder (a_tz env) r)) (\<lambda>r.
         bind (of_res (notification_authorization r now)) (\<lambda>a. unless_conflict (reminder_create env r a))))"

definition rule_reminder :: "app_env \<Rightarrow> agenda_notification_rule \<Rightarrow> datetime \<Rightarrow> agenda_occurrence \<Rightarrow> reminder" where
  "rule_reminder env rule local_now x =
     \<lparr>rem_id = scheduled_id env (nr_id rule @ [58] @ time_text (a_tz env) (occ_start x)), rem_owner = nr_owner rule,
      rem_title = nr_text rule,
      fire_at = combine (wall_date local_now) (tod (nr_time_of_day rule)) False (Some (ZoneInfo (nr_timezone rule))),
      rem_target_ref = nr_target_ref rule, rem_creator = Some (nr_creator rule), rem_action_links = nr_action_links rule,
      rem_status = REM_PENDING, missed_policy = MISSED_FIRE, rem_classification = nr_classification rule,
      related_kind = Some (lit ''agenda''), related_id = Some (nr_agenda_item_id rule), related_start_at = None,
      rem_timezone = Some (nr_timezone rule), rem_version = 1, rem_created_at = None, rem_updated_at = None\<rparr>"

definition materialize_rule :: "app_env \<Rightarrow> datetime \<Rightarrow> agenda_notification_rule \<Rightarrow> nat app" where
  "materialize_rule env now rule =
     bind (of_res (zone_info (a_tz env) (nr_timezone rule))) (\<lambda>z.
     let local_now = astimezone (a_tz env) now z;
         start = combine (date_add (wall_date local_now) (- day_offset rule)) 0 False (Some z)
     in if wall_time local_now < tod (nr_time_of_day rule) then ret 0
        else bind (agenda_occurrences env (nr_owner rule) start (dt_add start us_day)) (\<lambda>xs.
          sum_each (\<lambda>x. materialize env now (rule_reminder env rule local_now x))
            (filter (\<lambda>x. occ_item_id x = nr_agenda_item_id rule) xs)))"

definition notification_tick :: "app_env \<Rightarrow> datetime \<Rightarrow> nat app" where
  "notification_tick env now = bind (notification_list_enabled env) (sum_each (materialize_rule env now))"

definition lead_identity :: "tzdb \<Rightarrow> agenda_item \<Rightarrow> agenda_occurrence \<Rightarrow> int \<Rightarrow> pystr" where
  "lead_identity db item x minutes = lit ''lead:'' @ ag_id item @ [58] @ time_text db (occ_start x) @ [58] @ dec minutes"

definition lead_reminder :: "app_env \<Rightarrow> agenda_item \<Rightarrow> agenda_occurrence \<Rightarrow> pystr \<Rightarrow> int \<Rightarrow> reminder" where
  "lead_reminder env item x target minutes =
     \<lparr>rem_id = scheduled_id env (lead_identity (a_tz env) item x minutes), rem_owner = ag_owner item,
      rem_title = (if occ_title x \<noteq> [] then occ_title x else ag_title item),
      fire_at = dt_add (occ_start x) (- (minutes * us_minute)), rem_target_ref = target,
      rem_creator = Some (case ag_creator item of Some u \<Rightarrow> if u \<noteq> [] then u else ag_owner item | None \<Rightarrow> ag_owner item),
      rem_action_links = [], rem_status = REM_PENDING, missed_policy = MISSED_FIRE,
      rem_classification = ag_classification item, related_kind = Some (lit ''agenda''), related_id = Some (ag_id item),
      related_start_at = Some (occ_start x), rem_timezone = Some (ag_timezone item), rem_version = 1,
      rem_created_at = None, rem_updated_at = None\<rparr>"

definition materialize_lead :: "app_env \<Rightarrow> datetime \<Rightarrow> agenda_item \<Rightarrow> pystr \<Rightarrow> agenda_occurrence \<Rightarrow> int \<Rightarrow> nat app" where
  "materialize_lead env now item target x minutes =
     (if dt_less (a_tz env) (dt_add (occ_start x) (- (minutes * us_minute))) now then ret 0
      else materialize env now (lead_reminder env item x target minutes))"

definition lead_item :: "app_env \<Rightarrow> datetime \<Rightarrow> datetime \<Rightarrow> agenda_item \<Rightarrow> nat app" where
  "lead_item env now window_end item =
     (if all_day item then ret 0
      else bind (lead_resolve (ag_id item) (ag_owner item)) (\<lambda>ms. if ms = [] then ret 0
      else bind (briefing_default_target (ag_owner item)) (\<lambda>target. case target of
          None \<Rightarrow> ret 0
        | Some t \<Rightarrow> if t = [] then ret 0
            else bind (agenda_occurrences env (ag_owner item) now window_end) (\<lambda>xs.
              sum_each (\<lambda>x. sum_each (materialize_lead env now item t x) ms)
                (filter (\<lambda>x. occ_item_id x = ag_id item) xs)))))"

definition lead_tick :: "app_env \<Rightarrow> datetime \<Rightarrow> int \<Rightarrow> nat app" where
  "lead_tick env now horizon_days =
     (let window_end = dt_add now (horizon_days * us_day) in
      bind (agenda_list_scheduled env now window_end) (sum_each (lead_item env now window_end)))"

text \<open>The horizon of the worker process, which takes the default.\<close>

definition HORIZON_DAYS :: int where
  "HORIZON_DAYS = 2"

section \<open>The text of a daily briefing\<close>

definition month_day :: "date \<Rightarrow> pystr" where
  "month_day d = padded 2 (nat (month d)) @ [0x6708] @ padded 2 (nat (day d)) @ [0x65E5]"

definition important_day_lines :: "anniversary \<Rightarrow> date \<Rightarrow> pystr list res" where
  "important_day_lines a today =
     (let title = escape_markdown_text (ann_title a); bold = lit ''**''; today_is = [0x4ECA, 0x5929, 0x662F];
          elapsed = (if counts_elapsed_days a \<and> toordinal (anchor_date a) \<le> toordinal today
            then [today_is @ [32] @ title @ [0x7684, 0x7B2C, 32] @ bold @ dec (day_number a today) @ bold @ [32, 0x5929, 0x3002]]
            else [])
      in and_then (occurrence_in a (year today)) (\<lambda>occurrence.
      if occurrence = Some today then
        (let years = elapsed_years a today in
         Inr ((if ann_kind a = KIND_BIRTHDAY
               then [0x1F382, 32] @ today_is @ [32] @ title @ [32, 0x7684, 0x751F, 0x65E5]
                 @ (if years > 0 then [0xFF08] @ dec years @ [32, 0x5C81, 0xFF09] else []) @ [0x3002]
               else if years > 0
               then [0x1F389, 32] @ today_is @ [32] @ title @ [32, 0x7684, 32] @ bold @ dec years @ bold
                 @ [32, 0x5468, 0x5E74, 0x3002]
               else [0x1F389, 32] @ today_is @ [32] @ title @ [0x3002]) # elapsed))
      else and_then (advance_notice_for a today) (\<lambda>upcoming. case upcoming of
          None \<Rightarrow> Inr elapsed
        | Some (when, remaining) \<Rightarrow>
            (let years = elapsed_years a when;
                 rest = bold @ dec remaining @ bold @ [32, 0x5929, 0xFF08] @ month_day when @ [0xFF09, 0x3002]
             in Inr ((if ann_kind a = KIND_BIRTHDAY
                      then [0x1F382, 32] @ title @ [32, 0x7684, 0x751F, 0x65E5, 0x8FD8, 0x6709, 32] @ rest
                      else if years > 0
                      then [0x1F389, 32] @ title @ [32, 0x7684, 32] @ dec years @ [32, 0x5468, 0x5E74, 0x8FD8, 0x6709, 32] @ rest
                      else [0x1F389, 32] @ title @ [32, 0x8FD8, 0x6709, 32] @ rest) # elapsed)))))"

definition minute_of :: "tzdb \<Rightarrow> datetime \<Rightarrow> tzinfo \<Rightarrow> int" where
  "minute_of db t z = wall_time (astimezone db t z) div us_minute"

definition PREVIEW_TITLE_LIMIT :: nat where
  "PREVIEW_TITLE_LIMIT = 40"

definition preview_title :: "pystr \<Rightarrow> pystr" where
  "preview_title value = (let collapsed = py_strip (collapse_spaces value) in
     if length collapsed \<le> PREVIEW_TITLE_LIMIT then collapsed else take (PREVIEW_TITLE_LIMIT - 1) collapsed @ [0x2026])"

text \<open>\<open>max\<close> and \<open>min\<close> of two times return the first unless the second is greater or smaller.\<close>

definition preview_bounds :: "tzdb \<Rightarrow> datetime \<Rightarrow> datetime \<Rightarrow> datetime \<Rightarrow> datetime \<Rightarrow> tzinfo \<Rightarrow> int \<times> int" where
  "preview_bounds db begins ends day_start day_end z =
     (let s = astimezone db begins z; e = astimezone db ends z;
          clipped_start = (if dt_less db s day_start then day_start else s);
          clipped_end = (if dt_less db day_end e then day_end else e);
          opens = dt_sub db clipped_start day_start div us_minute;
          closes = dt_sub db clipped_end day_start div us_minute
      in (max 0 opens, min 1440 (max (opens + 1) closes)))"

definition CLOCK_ON_THE_HOUR :: nat where
  "CLOCK_ON_THE_HOUR = 0x1F550"

definition CLOCK_HALF_PAST :: nat where
  "CLOCK_HALF_PAST = 0x1F55C"

definition agenda_mark :: "datetime \<Rightarrow> pystr" where
  "agenda_mark when = (let h = wall_time when div us_hour; m = wall_time when div us_minute mod 60;
       hour = (if h mod 12 = 0 then 12 else h mod 12)
     in [(if m \<ge> 30 then CLOCK_HALF_PAST else CLOCK_ON_THE_HOUR) + nat hour - 1])"

section \<open>The briefing tick\<close>

text \<open>What a briefing shows: occurrences of its day, reminders of its day, the important days, all below confidential.\<close>

definition safe_occurrences :: "app_env \<Rightarrow> agenda_occurrence list \<Rightarrow> agenda_occurrence list app" where
  "safe_occurrences env xs = foldr (\<lambda>x rest. bind (agenda_get env (occ_item_id x)) (\<lambda>item.
     bind rest (\<lambda>ys. ret (case item of None \<Rightarrow> ys | Some i \<Rightarrow> if ag_classification i < CONFIDENTIAL then x # ys else ys))))
     xs (ret [])"

definition briefing_reminders :: "app_env \<Rightarrow> tzinfo \<Rightarrow> datetime \<Rightarrow> datetime \<Rightarrow> reminder list \<Rightarrow> reminder list" where
  "briefing_reminders env z day_start day_end rs = filter (\<lambda>r. rem_status r \<in> {REM_PENDING, REM_FIRED}
     \<and> dt_le (a_tz env) day_start (astimezone (a_tz env) (fire_at r) z)
     \<and> dt_less (a_tz env) (astimezone (a_tz env) (fire_at r) z) day_end
     \<and> rem_classification r < CONFIDENTIAL) rs"

definition schedule_lines :: "app_env \<Rightarrow> tzinfo \<Rightarrow> agenda_occurrence list \<Rightarrow> reminder list \<Rightarrow> pystr list" where
  "schedule_lines env z occurrences rs =
     (let entry = (\<lambda>t mark title. lit ''- `'' @ hour_minute t @ [96, 32] @ mark @ [32] @ escape_markdown_text title);
          lines = map (\<lambda>x. let t = astimezone (a_tz env) (occ_start x) z in (occ_start x, entry t (agenda_mark t) (occ_title x))) occurrences
            @ map (\<lambda>r. (fire_at r, entry (astimezone (a_tz env) (fire_at r) z) [0x23F0] (rem_title r))) rs
      in map snd (sorted_by (\<lambda>a b. dt_less (a_tz env) (fst a) (fst b)) lines))"

definition briefing_text :: "app_env \<Rightarrow> tzinfo \<Rightarrow> date \<Rightarrow> anniversary list \<Rightarrow> agenda_occurrence list \<Rightarrow> reminder list \<Rightarrow> pystr res" where
  "briefing_text env z today anns occurrences rs =
     and_then (map_res (\<lambda>a. important_day_lines a today) anns) (\<lambda>days.
     let schedule = schedule_lines env z occurrences rs in
     Inr (py_join [10] ([lit ''# '' @ dec (year today) @ [0x5E74] @ month_day today @ [32, 0xB7, 32, 0x6BCF, 0x65E5, 0x7B80, 0x62A5]]
       @ concat (map (\<lambda>line. [[], line]) (concat days))
       @ [[], lit ''## '' @ [0x4ECA, 0x65E5, 0x65E5, 0x7A0B]]
       @ (if schedule \<noteq> [] then schedule
          else [lit ''> '' @ [0x4ECA, 0x5929, 0x6CA1, 0x6709, 0x65E5, 0x7A0B, 0x6216, 0x63D0, 0x9192, 0x3002]]))))"

definition preview_entries :: "app_env \<Rightarrow> tzinfo \<Rightarrow> datetime \<Rightarrow> datetime \<Rightarrow> agenda_occurrence list \<Rightarrow> reminder list \<Rightarrow> preview_entry list" where
  "preview_entries env z day_start day_end occurrences rs = sort
     (map (\<lambda>x. case preview_bounds (a_tz env) (occ_start x) (occ_end x) day_start day_end z of
         (opens, closes) \<Rightarrow> (opens, closes, lit ''agenda'', preview_title (occ_title x))) occurrences
      @ map (\<lambda>r. let m = minute_of (a_tz env) (fire_at r) z in (m, min 1440 (m + 15), lit ''reminder'', preview_title (rem_title r)))
          (filter (\<lambda>r. minute_of (a_tz env) (fire_at r) z < 1440) rs))"

definition briefing_buttons :: "message_button list" where
  "briefing_buttons = map (\<lambda>(l, a). \<lparr>btn_label = l, btn_action = a, btn_kind = BTN_COMMAND\<rparr>)
     [([0x4ECA, 0x5929], [47, 0x4ECA, 0x5929]), ([0x6708, 0x5386], [47, 0x65E5, 0x5386]),
      ([0x5F85, 0x529E], [47, 0x5F85, 0x529E]), ([0x63D0, 0x9192], [47, 0x63D0, 0x9192])]"

definition briefing_message :: "app_env \<Rightarrow> daily_briefing \<Rightarrow> date \<Rightarrow> pystr \<times> pystr \<Rightarrow> tzinfo \<Rightarrow> datetime \<Rightarrow> datetime \<Rightarrow> anniversary list
    \<Rightarrow> agenda_occurrence list \<Rightarrow> reminder list \<Rightarrow> outbound_message res" where
  "briefing_message env b today channel z day_start day_end anns occurrences rs =
     and_then (briefing_text env z today anns occurrences rs) (\<lambda>body.
     and_then (map_res new_message_button briefing_buttons) (\<lambda>buttons.
     and_then (new_daily_agenda_preview \<lparr>dap_year = year today, dap_month = month today, dap_day = day today,
         dap_entries = preview_entries env z day_start day_end occurrences rs,
         anniversary_day_numbers = map (\<lambda>a. day_number a today) anns\<rparr>) (\<lambda>preview.
       new_outbound_message \<lparr>msg_channel = fst channel, msg_channel_account = snd channel, msg_target_ref = br_target_ref b,
         msg_kind = MSG_BUTTON, msg_text = body, msg_buttons = buttons, attachment_url = None, reply_context_ref = [],
         msg_classification = br_classification b, msg_calendar_preview = None, msg_daily_agenda_preview = Some preview\<rparr>)))"

definition app_enqueue :: "app_env \<Rightarrow> pystr \<Rightarrow> pystr \<Rightarrow> pystr \<Rightarrow> outbound_message \<Rightarrow> datetime \<Rightarrow> int \<Rightarrow> int \<Rightarrow> pystr \<Rightarrow> bool app" where
  "app_enqueue env delivery_id key owner m now prio max_attempts actor s =
     (case enqueue (a_tz env) (store s) delivery_id key owner m now prio max_attempts actor of
        (o1, r) \<Rightarrow> (s\<lparr>store := o1\<rparr>, r))"

definition send_briefing :: "app_env \<Rightarrow> datetime \<Rightarrow> daily_briefing \<times> date \<Rightarrow> nat app" where
  "send_briefing env now due = (case due of (b, today) \<Rightarrow>
     bind (briefing_target_channel (br_target_ref b)) (\<lambda>channel. case channel of
       None \<Rightarrow> ret 0
     | Some ch \<Rightarrow>
        bind (of_res (zone_info (a_tz env) (br_timezone b))) (\<lambda>z.
        let day_start = combine today 0 False (Some z); day_end = dt_add day_start us_day in
        bind (agenda_occurrences env (br_owner b) day_start day_end) (\<lambda>occurrences.
        bind (reminder_list_for_owner env (br_owner b)) (\<lambda>all_reminders.
        let rs = briefing_reminders env z day_start day_end all_reminders in
        bind (anniversary_list_for_owner env (br_owner b)) (\<lambda>all_days.
        let anns = filter (\<lambda>a. ann_classification a < CONFIDENTIAL) all_days in
        bind (safe_occurrences env occurrences) (\<lambda>xs.
        bind (of_res (briefing_message env b today ch z day_start day_end anns xs rs)) (\<lambda>m.
        let key = lit ''daily-briefing:'' @ br_id b @ [58] @ iso_date today in
        bind (app_enqueue env (lit ''delivery_'' @ take 32 (a_sha256 env key)) key (br_owner b) m now 20 5
            (lit ''service:daily-briefing'')) (\<lambda>created.
        seq (briefing_mark_sent env (br_id b) today now) (ret (if created then 1 else 0)))))))))))"

definition briefing_tick :: "app_env \<Rightarrow> datetime \<Rightarrow> nat app" where
  "briefing_tick env now = bind (briefing_due env now) (sum_each (send_briefing env now))"

section \<open>Lemmas\<close>

lemma new_reminder_cases: "new_reminder db r = Inr r \<or> (\<exists>e. new_reminder db r = Inl e)"
  by (simp add: new_reminder_def guarded_def split: option.split)

lemma reminder_create_run:
  "reminder_create env r a s = (t, res) \<Longrightarrow> (case res of Inl e \<Rightarrow> t = s
     | Inr x \<Rightarrow> \<exists>start. t = audited env a [] (on_rows reminders (\<lambda>rs. rs @ [new_reminder_row (time_text (a_tz env) (fire_at r))
          start (time_text (a_tz env) (authorized_at a)) x]) s)
        \<and> dump_time_opt (a_tz env) (related_start_at r) = Inr start
        \<and> x = r\<lparr>rem_version := 1, rem_created_at := Some (authorized_at a), rem_updated_at := Some (authorized_at a)\<rparr>)"
  using new_reminder_cases[of "a_tz env" "r\<lparr>rem_version := 1, rem_created_at := Some (authorized_at a),
      rem_updated_at := Some (authorized_at a)\<rparr>"]
  unfolding reminder_create_def seq_def bind_def op_run insert_audited_run
  by (auto split: sum.splits if_splits simp: dump_time_Inr)

lemma reminder_get_keeps: "fst (reminder_get env i s) = s"
  by (simp add: reminder_get_def fetch_one_def bind_def op_run split: option.split sum.split)

lemma reminder_get_absent:
  "reminder_get env i s = (t, Inr None) \<longleftrightarrow> t = s \<and> i \<notin> rm_id ` set (t_reminders s)"
proof -
  have "find (\<lambda>r. rm_id r = i) (t_reminders s) = None \<longleftrightarrow> i \<notin> rm_id ` set (t_reminders s)"
    by (auto simp: find_None_iff)
  then show ?thesis
    by (auto simp: reminder_get_def fetch_one_def reminders_def bind_def op_run split: option.split sum.split)
qed

text \<open>What a reminder that was made leaves behind.\<close>

definition made :: "app_env \<Rightarrow> datetime \<Rightarrow> reminder \<Rightarrow> app_db \<Rightarrow> app_db \<Rightarrow> bool" where
  "made env now r s t \<longleftrightarrow> rem_id r \<notin> rm_id ` set (t_reminders s)
     \<and> (\<exists>row. t_reminders t = t_reminders s @ [row] \<and> rm_id row = rem_id r \<and> rm_owner row = rem_owner r
          \<and> rm_fire_at row = time_text (a_tz env) (fire_at r) \<and> rm_target row = rem_target_ref r
          \<and> rm_status row = reminder_status_value (rem_status r) \<and> rm_related row = related_id r
          \<and> rm_class row = classification_value (rem_classification r))
     \<and> outbox_audit (store t) = outbox_audit (store s) @ [\<lparr>au_at = time_text (a_tz env) now,
          au_actor = lit ''service:agenda-notification'', au_action = lit ''create'', au_kind = lit ''reminder'',
          au_resource = rem_id r, au_outcome = completed, au_reason = []\<rparr>]"

lemma notification_authorization_Inr:
  "notification_authorization r now = Inr a \<Longrightarrow> a = \<lparr>auth_actor = lit ''service:agenda-notification'', auth_action = CREATE,
     auth_resource = mk_resource (lit ''reminder'') (rem_id r) (rem_owner r) (rem_classification r), authorized_at = now\<rparr>"
  by (auto simp: notification_authorization_def resource_def new_resource_ref_def and_then_Inr guarded_def mk_resource_def
      split: if_splits)

lemma materialize_run:
  assumes "materialize env now r s = (t, res)"
  shows "(t = s \<and> res \<noteq> Inr 1) \<or> (res = Inr 1 \<and> made env now r s t)"
proof -
  obtain g where get: "reminder_get env (rem_id r) s = (s, g)" using reminder_get_keeps[of env "rem_id r" s] by (cases "reminder_get env (rem_id r) s") simp
  show ?thesis
  proof (cases "g = Inr None")
    case False
    then show ?thesis using assms get by (cases g) (auto simp: materialize_def bind_def op_run split: option.splits)
  next
    case True
    then have absent: "rem_id r \<notin> rm_id ` set (t_reminders s)" using get by (simp add: reminder_get_absent)
    show ?thesis
    proof (cases "\<exists>a. new_reminder (a_tz env) r = Inr r \<and> notification_authorization r now = Inr a")
      case False
      then show ?thesis using assms get True
        by (auto simp: materialize_def bind_def op_run split: sum.splits dest: new_reminder_Inr)
    next
      case True': True
      then obtain a where a: "new_reminder (a_tz env) r = Inr r" "notification_authorization r now = Inr a" by blast
      note a' = notification_authorization_Inr[OF a(2)]
      obtain u v where c: "reminder_create env r a s = (u, v)" by fastforce
      then have m: "materialize env now r s = unless_conflict (\<lambda>_. (u, v)) s"
        using get True a by (simp add: materialize_def bind_def op_run unless_conflict_def)
      show ?thesis
      proof (cases v)
        case (Inl e)
        then show ?thesis using m assms reminder_create_run[OF c] by (auto simp: unless_conflict_def split: if_splits)
      next
        case (Inr x)
        then have "t = u" "res = Inr 1" using m assms by (auto simp: unless_conflict_def)
        moreover have "made env now r s u" using reminder_create_run[OF c] Inr absent a'
          by (auto simp: made_def reminders_def new_reminder_row_def add_audit_def audit_of_def mk_resource_def)
        ultimately show ?thesis by blast
      qed
    qed
  qed
qed

lemma materialize_present:
  assumes "rem_id r \<in> rm_id ` set (t_reminders s)"
  shows "fst (materialize env now r s) = s \<and> snd (materialize env now r s) \<noteq> Inr 1"
  using materialize_run[of env now r s] assms by (cases "materialize env now r s") (auto simp: made_def)

lemma new_recurrence_exception_Inr: "new_recurrence_exception db y = Inr x \<Longrightarrow> y = x"
  by (simp add: new_recurrence_exception_def guarded_Inr)

lemma exception_from_row_Inr: "exception_from_row env z q = Inr x \<Longrightarrow> new_recurrence_exception (a_tz env) x = Inr x"
  unfolding exception_from_row_def and_then_Inr by (auto dest: new_recurrence_exception_Inr)

lemma exceptions_of_ok: "exceptions_of env s item = Inr xs \<Longrightarrow> exceptions_ok (a_tz env) xs"
  unfolding exceptions_of_def exceptions_ok_def list_all_iff
  by (auto dest!: map_res_Inr_in exception_from_row_Inr)

lemma expand_row_before:
  assumes "expand_row env s ws we r = Inr xs" "x \<in> set xs"
  shows "dt_less (a_tz env) (occ_start x) we"
proof -
  obtain item exs where e: "exceptions_ok (a_tz env) exs" and o: "occurrences_between (a_tz env) (a_rrule env) item ws we exs = Inr xs"
    using assms(1) exceptions_of_ok unfolding expand_row_def and_then_Inr by blast
  from o have "aware ws" "aware we" "dt_less (a_tz env) ws we"
    by (auto simp: occurrences_between_def  not_dt_le[symmetric] split: if_splits)
  from occurrences_between_eq[OF e this] o assms(2) show ?thesis
    by (auto simp: and_then_Inr dest: contribution_overlaps)
qed

lemma agenda_occurrences_before:
  assumes "agenda_occurrences env owner ws we s = (t, Inr xs)" "x \<in> set xs"
  shows "t = s" "dt_less (a_tz env) (occ_start x) we"
proof -
  obtain rs ys where rs: "t = s" "map_res (expand_row env s ws we) rs = Inr ys" "set xs = set (concat ys)"
    using assms(1) unfolding agenda_occurrences_def seq_Inr bind_Inr by (auto simp: op_run)
  show "t = s" by (rule rs(1))
  obtain y where "y \<in> set ys" "x \<in> set y" using rs(3) assms(2) by auto
  with map_res_Inr_in[OF rs(2)] expand_row_before show "dt_less (a_tz env) (occ_start x) we" by blast
qed

text \<open>No clock of the time zone database is ever moved by more than \<open>k\<close>.\<close>

definition clock_moves_at_most :: "tzdb \<Rightarrow> micros \<Rightarrow> bool" where
  "clock_moves_at_most db k \<longleftrightarrow> (\<forall>z w f w' f'. \<bar>offset_of db z w f - offset_of db z w' f'\<bar> \<le> k)"

lemma far_lead_in_the_past:
  assumes "clock_moves_at_most db k" "0 \<le> k" "dt_tz now = Some TzUTC" "dt_less db x (dt_add now n)" "n + k \<le> m"
  shows "dt_less db (dt_add x (- m)) now"
proof (cases "dt_tz x = Some TzUTC")
  case True
  then show ?thesis using assms by (simp add: dt_less_def dt_sub_def dt_add_def)
next
  case False
  have shift: "instant db (dt_add x (- m)) \<le> instant db x - m + k"
  proof (cases "dt_tz x")
    case (Some z)
    have "\<bar>offset_of db z (dt_wall x) (dt_fold x) - offset_of db z (dt_wall x - m) False\<bar> \<le> k"
      using assms(1) by (simp add: clock_moves_at_most_def)
    with Some show ?thesis by (simp add: instant_def dt_add_def)
  qed (use assms(2) in \<open>simp add: instant_def dt_add_def\<close>)
  have "instant db (dt_add now n) = instant db now + n"
    using assms(3) by (simp add: instant_def dt_add_def)
  with shift False assms(3,4,5) show ?thesis by (auto simp: dt_less_def dt_sub_def dt_add_def)
qed

section \<open>Properties\<close>

text \<open>
  C13. A lead time before an occurrence is announced at most once, and not after its moment: the pass
  leaves the database as it is and counts nothing, or, when the moment has not passed and no reminder
  has the id derived from the item, the occurrence and the lead, it adds one pending reminder of the item's
  owner to the given target at that moment with the item's classification, and one audit event of the scheduler.
  As long as that row exists, in whatever status, later passes change nothing.
\<close>

theorem lead_announced_once:
  assumes "materialize_lead env now item target x minutes s = (t, res)"
  defines "fire \<equiv> dt_add (occ_start x) (- (minutes * us_minute))" and "r \<equiv> lead_reminder env item x target minutes"
  shows "(t = s \<and> res \<noteq> Inr 1)
     \<or> (res = Inr 1 \<and> \<not> dt_less (a_tz env) fire now \<and> made env now r s t \<and> fire_at r = fire \<and> rem_status r = REM_PENDING
        \<and> rem_owner r = ag_owner item \<and> rem_classification r = ag_classification item \<and> rem_target_ref r = target
        \<and> related_id r = Some (ag_id item)
        \<and> (\<forall>u later. rm_id ` set (t_reminders t) \<subseteq> rm_id ` set (t_reminders u) \<longrightarrow>
             (\<exists>res'. materialize_lead env later item target x minutes u = (u, res') \<and> res' \<noteq> Inr 1)))"
proof -
  have later: "\<exists>res'. materialize_lead env later item target x minutes u = (u, res') \<and> res' \<noteq> Inr 1"
    if "made env now r s t" "rm_id ` set (t_reminders t) \<subseteq> rm_id ` set (t_reminders u)" for u later
  proof -
    have "rem_id r \<in> rm_id ` set (t_reminders u)" using that by (auto simp: made_def)
    from materialize_present[OF this, of env later] show ?thesis
      by (cases "materialize env later r u") (auto simp: materialize_lead_def r_def op_run)
  qed
  have "(t = s \<and> res \<noteq> Inr 1) \<or> (res = Inr 1 \<and> \<not> dt_less (a_tz env) fire now \<and> made env now r s t)"
    using assms(1) materialize_run[of env now r s t res]
    by (auto simp: materialize_lead_def fire_def r_def op_run split: if_splits)
  moreover have "fire_at r = fire" "rem_status r = REM_PENDING" "rem_owner r = ag_owner item"
    "rem_classification r = ag_classification item" "rem_target_ref r = target" "related_id r = Some (ag_id item)"
    by (simp_all add: r_def lead_reminder_def fire_def)
  ultimately show ?thesis using later by blast
qed

text \<open>
  Lead times longer than the horizon are never announced: the tick expands only the occurrences that begin
  before the horizon, and for these a lead of the horizon's length (and the most a clock is ever moved) lies in
  the past, so that no pass ever makes its reminder. The worker's horizon is two days, while leads up to a year
  are accepted.
\<close>

lemma lead_beyond_horizon_never_announced:
  assumes "clock_moves_at_most (a_tz env) k" "0 \<le> k" "dt_tz now = Some TzUTC"
    and "agenda_occurrences env (ag_owner item) now (dt_add now (HORIZON_DAYS * us_day)) s = (t, Inr xs)" "x \<in> set xs"
    and "HORIZON_DAYS * us_day + k \<le> minutes * us_minute"
  shows "materialize_lead env now item target x minutes u = (u, Inr 0)"
  using far_lead_in_the_past[OF assms(1-3) agenda_occurrences_before(2)[OF assms(4,5)] assms(6)]
  by (simp add: materialize_lead_def op_run)

lemma important_days_total:
  assumes "\<exists>a \<in> set anns. date_diff today (anchor_date a) < 0"
  shows "\<exists>e. briefing_message env b today ch z ds de anns occs rs = Inl e"
proof -
  have "new_daily_agenda_preview \<lparr>dap_year = year today, dap_month = month today, dap_day = day today,
     dap_entries = es, anniversary_day_numbers = map (\<lambda>a. day_number a today) anns\<rparr> \<noteq> Inr p" for es p
    using assms by (auto simp: new_daily_agenda_preview_def guarded_def list_ex_iff day_number_def)
  then have "\<not> is_ok (briefing_message env b today ch z ds de anns occs rs)"
    by (simp add: briefing_message_def is_ok_and_then)
  then show ?thesis by (cases "briefing_message env b today ch z ds de anns occs rs") simp_all
qed

lemma read_only:
  "fst (briefing_target_channel i s) = s" "fst (agenda_occurrences env owner ws we s) = s"
  "fst (reminder_list_for_owner env owner s) = s" "fst (agenda_get env i s) = s"
  by (simp_all add: briefing_target_channel_def agenda_occurrences_def reminder_list_for_owner_def agenda_get_def
      fetch_one_def bind_def seq_def op_run split: option.split sum.split)

lemma safe_occurrences_read_only: "fst (safe_occurrences env xs s) = s"
proof (induction xs)
  case Nil
  then show ?case by (simp add: safe_occurrences_def op_run)
next
  case (Cons x xs)
  have step: "safe_occurrences env (x # xs) = bind (agenda_get env (occ_item_id x)) (\<lambda>item.
     bind (safe_occurrences env xs) (\<lambda>ys. ret (case item of None \<Rightarrow> ys | Some i \<Rightarrow>
       if ag_classification i < CONFIDENTIAL then x # ys else ys)))" by (simp add: safe_occurrences_def)
  show ?case using Cons read_only(4)[of env "occ_item_id x" s]
    by (cases "agenda_get env (occ_item_id x) s"; cases "safe_occurrences env xs s")
      (auto simp: step bind_def op_run split: sum.splits)
qed

lemma send_briefing_raises:
  assumes "route_of s (br_target_ref b) \<noteq> None"
    and "anniversary_list_for_owner env (br_owner b) s = (s, Inr anns)"
    and "a \<in> set anns" "ann_classification a < CONFIDENTIAL" "date_diff today (anchor_date a) < 0"
  shows "\<exists>e. send_briefing env now (b, today) s = (s, Inl e)"
proof -
  obtain ch where ch: "briefing_target_channel (br_target_ref b) s = (s, Inr (Some ch))"
    using assms(1) by (auto simp: briefing_target_channel_def op_run)
  have bad: "\<exists>e. briefing_message env b today ch z ds de (filter (\<lambda>a. ann_classification a < CONFIDENTIAL) anns) occs rs = Inl e"
    for z ds de occs rs
    by (rule important_days_total) (use assms(3-5) in auto)
  show ?thesis
  proof (cases "zone_info (a_tz env) (br_timezone b)")
    case (Inl e)
    then show ?thesis by (simp add: send_briefing_def op_simps ch)
  next
    case (Inr z)
    define ds where "ds = combine today 0 False (Some z)"
    define de where "de = dt_add ds us_day"
    obtain r1 where o: "agenda_occurrences env (br_owner b) ds de s = (s, r1)"
      using read_only(2)[of env "br_owner b" ds de s] by (cases "agenda_occurrences env (br_owner b) ds de s") simp
    obtain r2 where q: "reminder_list_for_owner env (br_owner b) s = (s, r2)"
      using read_only(3)[of env "br_owner b" s] by (cases "reminder_list_for_owner env (br_owner b) s") simp
    have safe: "\<exists>r3. safe_occurrences env xs s = (s, r3)" for xs
      using safe_occurrences_read_only[of env xs s] by (cases "safe_occurrences env xs s") simp
    show ?thesis
    proof (cases r1)
      case (Inl e)
      then show ?thesis using o by (simp add: send_briefing_def op_simps ch Inr Let_def ds_def de_def)
    next
      case (Inr xs)
      note r1 = this
      show ?thesis
      proof (cases r2)
        case (Inl e)
        then show ?thesis using o q r1 \<open>zone_info _ _ = _\<close> by (simp add: send_briefing_def op_simps ch Let_def ds_def de_def)
      next
        case (Inr rs)
        obtain r3 where r3: "safe_occurrences env xs s = (s, r3)" using safe by blast
        show ?thesis
        proof (cases r3)
          case (Inl e)
          then show ?thesis using o q r1 Inr r3 \<open>zone_info _ _ = _\<close> assms(2)
            by (simp add: send_briefing_def op_simps ch Let_def ds_def de_def)
        next
          case (Inr ys)
          obtain e where "briefing_message env b today ch z ds de (filter (\<lambda>a. ann_classification a < CONFIDENTIAL) anns)
              ys (briefing_reminders env z ds de rs) = Inl e" using bad by blast
          then show ?thesis using o q r1 r3 Inr \<open>r2 = Inr rs\<close> \<open>zone_info _ _ = _\<close> assms(2)
            by (simp add: send_briefing_def op_simps ch Let_def ds_def de_def)
        qed
      qed
    qed
  qed
qed

text \<open>
  An important day that lies in the future stops the daily briefings: when the first briefing due belongs to
  a user with an unconfidential important day whose date is after the briefing's day, the tick raises, the
  database is as it was, and so no briefing is sent, that day's or any later one's, while the day is in the future.
\<close>

lemma future_day_stops_briefings:
  assumes "briefing_due env now s = (s, Inr ((b, today) # rest))"
    and "route_of s (br_target_ref b) \<noteq> None"
    and "anniversary_list_for_owner env (br_owner b) s = (s, Inr anns)"
    and "a \<in> set anns" "ann_classification a < CONFIDENTIAL" "date_diff today (anchor_date a) < 0"
  shows "\<exists>e. briefing_tick env now s = (s, Inl e)"
  using send_briefing_raises[OF assms(2-6), of now] assms(1) by (auto simp: briefing_tick_def op_simps)

section \<open>A lead time and an important day\<close>

text \<open>A morning, an item of the next day, and a wedding in summer in a database with a briefing at eight.\<close>

definition morning :: datetime where
  "morning = utc (9 * us_hour)"

definition exam_row :: agenda_row where
  "exam_row = \<lparr>gr_id = lit ''g'', gr_owner = lit ''u'', gr_creator = None, gr_title = lit ''exam'', gr_description = [],
     gr_links = JArr [], gr_start = isoformat_utc (33 * us_hour), gr_end = isoformat_utc (34 * us_hour),
     gr_timezone = lit ''UTC'', gr_all_day = False, gr_class = 1, gr_version = 1,
     gr_created = isoformat_utc 0, gr_updated = isoformat_utc 0\<rparr>"

definition exam_db :: app_db where
  "exam_db = sample_app_db\<lparr>t_agenda := [exam_row]\<rparr>"

definition exam_item :: agenda_item where
  "exam_item = sample_item\<lparr>ag_id := lit ''g'', ag_title := lit ''exam'', start_at := utc (33 * us_hour), end_at := utc (34 * us_hour)\<rparr>"

definition exam :: agenda_occurrence where
  "exam = \<lparr>occ_item_id = lit ''g'', occ_start = utc (33 * us_hour)\<lparr>dt_tz := Some (ZoneInfo (lit ''UTC''))\<rparr>,
     occ_end = utc (34 * us_hour)\<lparr>dt_tz := Some (ZoneInfo (lit ''UTC''))\<rparr>,
     occ_title = lit ''exam'', occ_replaced = False, occ_creator = Some (lit ''u'')\<rparr>"

lemma sample_times:
  assumes "0 \<le> n" "n < 100 * us_day"
  shows "in_range n" "load_time (isoformat_utc n) = Inr (utc n)" "instant db (utc n) = n"
  using assms by (simp_all add: load_time_def fromisoformat_isoformat in_range_def instant_def utc_def)

lemma exam_listed: "agenda_occurrences sample_app_env (ag_owner exam_item) morning (dt_add morning (HORIZON_DAYS * us_day)) exam_db
    = (exam_db, Inr [exam])"
proof -
  have w: "dt_add morning (HORIZON_DAYS * us_day) = utc (57 * us_hour)"
    by (simp add: morning_def dt_add_def utc_def HORIZON_DAYS_def)
  have z: "astimezone utc_only (utc n) (ZoneInfo (lit ''UTC'')) = utc n\<lparr>dt_tz := Some (ZoneInfo (lit ''UTC''))\<rparr>" for n
    by (simp add: astimezone_def utc_def instant_def utc_only_def)
  have texts: "isoformat_utc (9 * us_hour) < isoformat_utc (34 * us_hour)" "isoformat_utc (33 * us_hour) < isoformat_utc (57 * us_hour)"
    by (simp_all add: isoformat_utc_less_iff sample_times)
  have item: "agenda_from_row sample_app_env exam_db exam_row = Inr (exam_item\<lparr>
      start_at := occ_start exam, end_at := occ_end exam, ag_creator := Some (lit ''u''), ag_created_at := Some (utc 0),
      ag_updated_at := Some (utc 0)\<rparr>)"
    by (simp add: agenda_from_row_def rule_of_item_def exam_row_def exam_db_def sample_app_db_def sample_store_simps
        load_time_in_def sample_times zone_info_def load_action_links_def classification_of_def new_agenda_item_def
        guarded_def exam_item_def exam_def sample_item_def astimezone_def instant_def blank_def blank_opt_def naive_opt_def aware_def utc_def
        dt_le_def dt_sub_def lit_def py_space_def utc_only_def)
  have exc: "exceptions_of sample_app_env exam_db i = Inr []" for i
    by (simp add: exceptions_of_def exam_db_def sample_app_db_def)
  have occ: "occurrences_between utc_only (a_rrule sample_app_env) (exam_item\<lparr>start_at := occ_start exam, end_at := occ_end exam,
      ag_creator := Some (lit ''u''), ag_created_at := Some (utc 0), ag_updated_at := Some (utc 0)\<rparr>) morning (utc (57 * us_hour)) []
      = Inr [exam]"
    by (simp add: occurrences_between_def morning_def aware_def utc_def dt_le_def dt_sub_def item_starts_def exam_item_def
        exam_def sample_item_def dt_add_def item_duration_def exception_for_def instant_def utc_only_def)
  have rows: "t_agenda exam_db = [exam_row]" "gr_owner exam_row = lit ''u''" "gr_end exam_row = isoformat_utc (34 * us_hour)"
    "gr_start exam_row = isoformat_utc (33 * us_hour)" "ag_owner exam_item = lit ''u''" "instant db morning = 9 * us_hour"
    "aware morning" for db
    by (simp_all add: exam_db_def exam_row_def exam_item_def sample_item_def morning_def aware_def utc_def instant_def)
  show ?thesis unfolding w
    by (simp add: agenda_occurrences_def require_aware_def guarded_def op_simps sample_store_simps(1,11) rows texts[simplified]
        sample_times(3) expand_row_def item exc occ[simplified] sorted_by_def)
qed

lemma exam_made: "\<exists>t. materialize_lead sample_app_env morning exam_item (lit ''c'') exam 60 exam_db = (t, Inr 1)"
proof -
  let ?r = "lead_reminder sample_app_env exam_item exam (lit ''c'') 60"
  have id: "\<not> blank (scheduled_id env i)" for env i
    by (simp add: scheduled_id_def blank_def lit_def py_space_def)
  have new: "new_reminder utc_only (?r\<lparr>rem_created_at := c, rem_updated_at := u\<rparr>) = Inr (?r\<lparr>rem_created_at := c, rem_updated_at := u\<rparr>)"
    if "\<not> naive_opt c" "\<not> naive_opt u" for c u
    using that id by (simp add: new_reminder_def guarded_def lead_reminder_def exam_item_def sample_item_def exam_def
        blank_def lit_def py_space_def blank_opt_def aware_def dt_add_def utc_def naive_opt_def utc_only_def)
  have auth: "notification_authorization ?r morning = Inr \<lparr>auth_actor = lit ''service:agenda-notification'',
      auth_action = CREATE, auth_resource = mk_resource (lit ''reminder'') (rem_id ?r) (rem_owner ?r) (rem_classification ?r),
      authorized_at = morning\<rparr>"
    using id by (simp add: notification_authorization_def resource_def new_resource_ref_def mk_resource_def guarded_def
        lead_reminder_def exam_item_def sample_item_def blank_def lit_def py_space_def)
  have cur: "aware morning" "\<not> naive_opt (Some morning)" "dt_less utc_only (dt_add (occ_start exam) (- (60 * us_minute))) morning = False"
    by (simp_all add: aware_def morning_def utc_def naive_opt_def exam_def dt_less_def dt_sub_def dt_add_def instant_def utc_only_def)
  have get: "reminder_get sample_app_env i exam_db = (exam_db, Inr None)" for i
    by (simp add: reminder_get_absent exam_db_def sample_app_db_def)
  have allowed: "reminder_allowed exam_db (new_reminder_row f st n (?r\<lparr>rem_version := 1, rem_created_at := c, rem_updated_at := u\<rparr>))" for f st n c u
    using sample_store_simps(9)
    by (simp add: reminder_allowed_def new_reminder_row_def lead_reminder_def exam_item_def sample_item_def exam_db_def
        sample_app_db_def reminder_checks_def ordinary_class_def user_exists_def user_or_null_def reminder_status_value.simps)
  have r: "rem_version ?r = 1" "rem_created_at ?r = None" "rem_updated_at ?r = None" "related_start_at ?r = Some (occ_start exam)"
    "fire_at ?r = dt_add (occ_start exam) (- (60 * us_minute))" "aware (occ_start exam)" "aware (dt_add (occ_start exam) k)" for k
    by (simp_all add: lead_reminder_def aware_def exam_def utc_def dt_add_def)
  have same: "?r\<lparr>rem_version := 1\<rparr> = ?r" "?r\<lparr>rem_created_at := None, rem_updated_at := None\<rparr> = ?r"
    by (simp_all add: lead_reminder_def)
  have "new_reminder utc_only ?r = Inr ?r" using new[of None None] by (simp add: same naive_opt_def)
  moreover have "\<exists>t x. reminder_create sample_app_env ?r \<lparr>auth_actor = lit ''service:agenda-notification'',
      auth_action = CREATE, auth_resource = mk_resource (lit ''reminder'') (rem_id ?r) (rem_owner ?r) (rem_classification ?r),
      authorized_at = morning\<rparr> exam_db = (t, Inr x)"
  proof -
    have nb: "\<not> blank (rem_id ?r)" "\<not> blank (rem_owner ?r)" "\<not> blank (lit ''reminder'')"
      using id by (simp_all add: lead_reminder_def exam_item_def sample_item_def blank_def lit_def py_space_def)
    have st: "fire_at (?r\<lparr>rem_created_at := c, rem_updated_at := u\<rparr>) = dt_add (occ_start exam) (- (60 * us_minute))"
      "related_start_at (?r\<lparr>rem_created_at := c, rem_updated_at := u\<rparr>) = Some (occ_start exam)" for c u
      using r by simp_all
    have allow: "reminder_allowed exam_db (new_reminder_row f st n (?r\<lparr>rem_created_at := c, rem_updated_at := u\<rparr>))" for f st n c u
      using allowed same by simp
    show ?thesis
      unfolding reminder_create_def seq_def bind_def op_run
      using new[of "Some morning" "Some morning"] allow nb cur r
      by (simp add: require_authorization_run sample_store_simps(1) same(1) st dump_time_def guarded_def dump_time_opt_def
          insert_audited_run op_run)
  qed
  ultimately show ?thesis
    by (auto simp: materialize_lead_def sample_store_simps(1) cur[simplified] cur materialize_def op_simps get auth unless_conflict_def)
qed

theorem lead_announced_once_witness:
  "\<exists>t. materialize_lead sample_app_env morning exam_item (lit ''c'') exam 60 exam_db = (t, Inr 1)
     \<and> (\<forall>later. \<exists>res. materialize_lead sample_app_env later exam_item (lit ''c'') exam 60 t = (t, res) \<and> res \<noteq> Inr 1)"
proof -
  obtain t where t: "materialize_lead sample_app_env morning exam_item (lit ''c'') exam 60 exam_db = (t, Inr 1)"
    using exam_made by blast
  from lead_announced_once[OF t] t show ?thesis by blast
qed

lemma lead_beyond_horizon_never_announced_example:
  "agenda_occurrences sample_app_env (lit ''u'') morning (dt_add morning (HORIZON_DAYS * us_day)) exam_db = (exam_db, Inr [exam])
   \<and> materialize_lead sample_app_env morning exam_item (lit ''c'') exam 2880 exam_db = (exam_db, Inr 0)"
proof -
  have "clock_moves_at_most (a_tz sample_app_env) 0"
    unfolding clock_moves_at_most_def
  proof (intro allI)
    fix z w f w' f'
    show "\<bar>offset_of (a_tz sample_app_env) z w f - offset_of (a_tz sample_app_env) z w' f'\<bar> \<le> 0"
      by (cases z) (simp_all add: sample_store_simps(1) utc_only_def)
  qed
  from lead_beyond_horizon_never_announced[OF this _ _ exam_listed, of exam 2880 "lit ''c''" exam_db] exam_listed show ?thesis
    by (simp add: morning_def utc_def HORIZON_DAYS_def exam_item_def sample_item_def)
qed

definition wedding_row :: anniversary_row where
  "wedding_row = \<lparr>an_id = lit ''d'', an_owner = lit ''u'', an_creator = lit ''u'', an_title = lit ''wedding'',
     an_anchor = lit ''0001-06-01'', an_timezone = lit ''UTC'', an_class = 1, an_created = isoformat_utc 0,
     an_kind = lit ''anniversary'', an_calendar = lit ''solar'', an_month = None, an_day = None, an_leap = False,
     an_advance = []\<rparr>"

definition wedding :: anniversary where
  "wedding = \<lparr>ann_id = lit ''d'', ann_owner = lit ''u'', ann_creator = lit ''u'', ann_title = lit ''wedding'',
     anchor_date = mk_date 1 6 1, ann_timezone = lit ''UTC'', ann_kind = KIND_ANNIVERSARY, ann_calendar = SOLAR,
     lunar_month = None, lunar_day = None, lunar_leap = False, advance_days = [], ann_classification = PERSONAL,
     ann_created_at = Some (utc 0)\<rparr>"

definition briefing_row_at_eight :: briefing_row where
  "briefing_row_at_eight = \<lparr>bf_id = lit ''b'', bf_owner = lit ''u'', bf_creator = lit ''u'', bf_target = lit ''c'',
     bf_time = lit ''08:00'', bf_timezone = lit ''UTC'', bf_class = 1, bf_enabled = True, bf_last_sent = None,
     bf_created = isoformat_utc 0, bf_updated = isoformat_utc 0\<rparr>"

definition wedding_db :: app_db where
  "wedding_db = sample_app_db\<lparr>t_anniversaries := [wedding_row], t_briefings := [briefing_row_at_eight],
     t_routes := [\<lparr>rt_channel = lit ''qq'', rt_account = lit ''1'', rt_opaque = lit ''c'', rt_kind = lit ''private'',
       rt_enabled = True, rt_owner = Some (lit ''u''), rt_mode = GM_DISABLED, rt_shared = None, rt_seen = isoformat_utc 0\<rparr>]\<rparr>"

definition briefing_at_eight :: daily_briefing where
  "briefing_at_eight = \<lparr>br_id = lit ''b'', br_owner = lit ''u'', br_creator = lit ''u'', br_target_ref = lit ''c'',
     time_of_day = \<lparr>tod = 8 * us_hour, tod_tz = None\<rparr>, br_timezone = lit ''UTC'', br_classification = PERSONAL,
     br_enabled = True, last_sent_on = None, br_created_at = Some (utc 0), br_updated_at = Some (utc 0)\<rparr>"

lemma wedding_listed: "anniversary_list_for_owner sample_app_env (lit ''u'') wedding_db = (wedding_db, Inr [wedding])"
proof -
  have d: "load_date (lit ''0001-06-01'') = Inr (mk_date 1 6 1)" by code_simp
  have "anniversary_from_row sample_app_env wedding_row = Inr wedding"
    by (simp add: anniversary_from_row_def wedding_row_def wedding_def d sample_times enum_of_def lit_def classification_of_def
        sample_store_simps(1) new_anniversary_def guarded_def blank_def py_space_def naive_opt_def MAXIMUM_ADVANCE_ENTRIES_def
        utc_only_def aware_def utc_def d[unfolded lit_def, simplified])
  then show ?thesis
    by (simp add: anniversary_list_for_owner_def op_simps wedding_db_def wedding_row_def[THEN arg_cong, of an_owner])
qed

lemma briefing_listed: "briefing_due sample_app_env morning wedding_db = (wedding_db, Inr [(briefing_at_eight, mk_date 1 1 1)])"
proof -
  have m: "load_minutes (lit ''08:00'') = Inr \<lparr>tod = 8 * us_hour, tod_tz = None\<rparr>" by code_simp
  have d: "wall_date (astimezone utc_only morning (ZoneInfo (lit ''UTC''))) = mk_date 1 1 1"
    "wall_time (astimezone utc_only morning (ZoneInfo (lit ''UTC''))) = 9 * us_hour"
    by code_simp+
  have "briefing_from_row sample_app_env briefing_row_at_eight = Inr briefing_at_eight"
    by (simp add: briefing_from_row_def briefing_row_at_eight_def briefing_at_eight_def m sample_times classification_of_def
        load_date_opt_def sample_store_simps(1) new_daily_briefing_def guarded_def blank_def py_space_def naive_opt_def lit_def
        utc_only_def aware_def utc_def m[unfolded lit_def, simplified])
  moreover have "bf_enabled briefing_row_at_eight" "aware morning" "br_timezone briefing_at_eight = lit ''UTC''"
    "tod (time_of_day briefing_at_eight) = 8 * us_hour" "last_sent_on briefing_at_eight = None"
    "zone_info utc_only (lit ''UTC'') = Inr (ZoneInfo (lit ''UTC''))"
    by (simp_all add: briefing_row_at_eight_def briefing_at_eight_def aware_def morning_def utc_def zone_info_def utc_only_def)
  ultimately show ?thesis using d
    by (simp add: briefing_due_def require_aware_def guarded_def seq_def op_simps wedding_db_def Let_def sample_store_simps(1))
qed

lemma future_day_stops_briefings_example:
  "\<exists>e. briefing_tick sample_app_env morning wedding_db = (wedding_db, Inl e)"
proof (rule future_day_stops_briefings[OF briefing_listed])
  show "anniversary_list_for_owner sample_app_env (br_owner briefing_at_eight) wedding_db = (wedding_db, Inr [wedding])"
    using wedding_listed by (simp add: briefing_at_eight_def)
  show "route_of wedding_db (br_target_ref briefing_at_eight) \<noteq> None"
    by (simp add: route_of_def wedding_db_def briefing_at_eight_def)
  show "wedding \<in> set [wedding]" by simp
  show "ann_classification wedding < CONFIDENTIAL" by (simp add: wedding_def)
  show "date_diff (mk_date 1 1 1) (anchor_date wedding) < 0" by code_simp
qed

end
