(* ===== verification/StoreSteps.thy ===== *)
theory StoreSteps
  imports UserStore
begin

text \<open>
  How the statements of a repository keep a relation between the database before and after: the rules by
  which an invariant of one table passes through methods that write to other tables.
\<close>

named_theorems keeping "operations that keep a relation, by the form of the operation"

abbreviation same :: "(app_db \<Rightarrow> 'a) \<Rightarrow> app_db \<Rightarrow> app_db \<Rightarrow> bool" where
  "same f \<equiv> \<lambda>s t. f t = f s"

lemma same_preorder [simp, intro]: "reflp (same f)" "transp (same f)"
  by (simp_all add: reflp_def transp_def)

lemma implies_preorder [simp, intro]: "reflp (\<lambda>s t. P s \<longrightarrow> P t)" "transp (\<lambda>s t. P s \<longrightarrow> P t)"
  by (auto simp: reflp_def transp_def)

lemma keeps_statement [keeping]:
  assumes "reflp R" "\<And>g s. R s (on_rows tab g s)"
  shows "keeps R (insert_row tab ok r)" "keeps R (change_rows tab ch p f)" "keeps R (remove_rows tab p)"
    "keeps R (insert_or_ignore tab dup known r)"
  using assms by (simp_all add: keeps_def insert_row_def change_rows_def remove_rows_def insert_or_ignore_def reflp_def)

lemma keeps_fetch_one [keeping]: "reflp R \<Longrightarrow> keeps R (fetch_one tab p)"
  by (simp add: fetch_one_def keeps_pure)

lemma keeps_app_transaction [keeping]: "reflp R \<Longrightarrow> keeps R m \<Longrightarrow> keeps R (app_transaction m)"
  unfolding app_transaction_def by (rule keeps_atomically) (simp_all add: reflp_def)

lemmas keeps_parts [keeping] = keeps_pure keeps_writes keeps_bind keeps_seq keeps_each

lemma keeps_implies: "keeps (same f) m \<Longrightarrow> (\<And>s t. f t = f s \<Longrightarrow> R s t) \<Longrightarrow> keeps R m"
  by (simp add: keeps_def)

lemma keeps_later:
  assumes "(\<lambda>s t. step s t)\<^sup>*\<^sup>* s t" "\<And>s t. step s t \<Longrightarrow> P s \<Longrightarrow> P t" "P s"
  shows "P t"
  using assms(1,3) by (induction rule: rtranclp_induct) (auto intro: assms(2))

text \<open>When a statement returns, and what it has done then.\<close>

lemma statement_Inr:
  "ret x s = (t, Inr y) \<longleftrightarrow> t = s \<and> y = x" "throw e s = (t, Inr y) \<longleftrightarrow> False"
  "of_res r s = (t, Inr y) \<longleftrightarrow> t = s \<and> r = Inr y" "reads f s = (t, Inr z) \<longleftrightarrow> t = s \<and> z = f s"
  "writes h s = (t, Inr v) \<longleftrightarrow> t = h s" "check c e s = (t, Inr v) \<longleftrightarrow> t = s \<and> \<not> c"
  by (auto simp: op_run)

lemma table_statement_Inr:
  "insert_row tab allowed r s = (t, Inr v) \<longleftrightarrow> allowed s r \<and> t = on_rows tab (\<lambda>rs. rs @ [r]) s"
  "change_rows tab checks p f s = (t, Inr n) \<longleftrightarrow> list_all (\<lambda>r. p r \<longrightarrow> checks (f r)) (rows tab s)
     \<and> t = on_rows tab (update_where p f) s \<and> n = count_where p (rows tab s)"
  "remove_rows tab p s = (t, Inr n) \<longleftrightarrow> t = on_rows tab (filter (\<lambda>r. \<not> p r)) s \<and> n = count_where p (rows tab s)"
  "fetch_one tab p s = (t, Inr x) \<longleftrightarrow> t = s \<and> x = find p (rows tab s)"
  "insert_or_ignore tab dup known r s = (t, Inr v) \<longleftrightarrow> t = (if dup s r then s else on_rows tab (\<lambda>rs. rs @ [r]) s)
     \<and> (dup s r \<or> known s r)"
  by (auto simp: insert_row_def change_rows_def remove_rows_def fetch_one_def op_run insert_or_ignore_def)

lemmas run_Inr = seq_Inr bind_Inr app_transaction_Inr statement_Inr table_statement_Inr ex_simps simp_thms

lemma checked_transaction_Inl: "seq (of_res c) (app_transaction m) s = (t, Inl e) \<Longrightarrow> t = s"
  by (auto simp: seq_Inl app_transaction_Inl op_run)

lemma find_updated:
  "(\<And>r. q (f r) \<longleftrightarrow> q r) \<Longrightarrow> find q (update_where p f xs) = map_option (\<lambda>r. if p r then f r else r) (find q xs)"
  by (induction xs) (auto simp: update_where_def)

lemma find_appended: "find q (xs @ ys) = (case find q xs of None \<Rightarrow> find q ys | Some x \<Rightarrow> Some x)"
  by (induction xs) auto

lemma utc_instants: "instant db (utc n) = n" "instant db (dt_add (utc n) k) = n + k"
  by (simp_all add: instant_def utc_def dt_add_def)

lemma utc_times: "dt_sub db (utc a) (utc b) = a - b" "dt_less db (utc a) (utc b) = (a < b)" "dt_le db (utc a) (utc b) = (a \<le> b)"
  by (simp_all add: dt_less_def dt_le_def dt_sub_def utc_def)

lemma aware_utc: "aware (utc n)" "aware (dt_add (utc n) k)"
  by (simp_all add: aware_def utc_def dt_add_def)

lemma add_audit_tables [simp]:
  "t_routes (add_audit e s) = t_routes s" "t_members (add_audit e s) = t_members s"
  "t_activations (add_audit e s) = t_activations s" "t_links (add_audit e s) = t_links s" "t_users (add_audit e s) = t_users s"
  "t_plans (add_audit e s) = t_plans s" "t_usage (add_audit e s) = t_usage s" "t_calls (add_audit e s) = t_calls s"
  "t_admin_sessions (add_audit e s) = t_admin_sessions s" "t_credentials (add_audit e s) = t_credentials s"
  "t_logins (add_audit e s) = t_logins s" "t_challenges (add_audit e s) = t_challenges s" "t_identities (add_audit e s) = t_identities s"
  "t_sessions (add_audit e s) = t_sessions s"
  "outbox_audit (store (add_audit e s)) = outbox_audit (store s) @ [e]" "known_users (store (add_audit e s)) = known_users (store s)"
  by (simp_all add: add_audit_def)

lemma filter_single:
  assumes "distinct xs" "r \<in> set xs" "P r" "\<And>q. q \<in> set xs \<Longrightarrow> P q \<Longrightarrow> q = r"
  shows "filter P xs = [r]"
proof -
  have "x \<in> set (filter P xs) \<longleftrightarrow> x = r" for x using assms(2,3) assms(4)[of x] by auto
  then have one: "set (filter P xs) = {r}" by blast
  have "length (filter P xs) = 1" using distinct_card[OF distinct_filter[OF assms(1)], of P] unfolding one by simp
  then obtain y where "filter P xs = [y]" by (auto simp: length_Suc_conv)
  then show ?thesis using one by simp
qed

end
