(* ===== verification/RouteStore.thy ===== *)
theory RouteStore
  imports StoreSteps
begin

text \<open>
  \<^verbatim>\<open>ChannelRouteStore\<close> of \<^verbatim>\<open>src/zhixu/adapters/storage/sqlite/channel_routes.py\<close>: who owns a conversation, in
  which mode a group works and who its members are, and the one-time codes that activate a group and
  link a private identity. The codes' hashes and the random part of a workspace's id are arguments.
\<close>

record channel_route =
  route_channel :: pystr
  route_account :: pystr
  route_opaque_ref :: pystr
  route_kind :: pystr
  route_enabled :: bool
  route_owner :: "pystr option"
  route_mode :: group_mode
  route_shared :: "pystr option"
  route_members :: "pystr list"
  route_seen :: datetime

definition routes :: "route_row table" where
  "routes = \<lparr>rows = t_routes, on_rows = t_routes_update\<rparr>"

definition members :: "member_row table" where
  "members = \<lparr>rows = t_members, on_rows = t_members_update\<rparr>"

definition activations :: "activation_row table" where
  "activations = \<lparr>rows = t_activations, on_rows = t_activations_update\<rparr>"

definition private_links :: "link_row table" where
  "private_links = \<lparr>rows = t_links, on_rows = t_links_update\<rparr>"

text \<open>The key of a route, and the rows of a route.\<close>

type_synonym route_key = "pystr \<times> pystr \<times> pystr"

definition key_of_route :: "route_row \<Rightarrow> route_key" where
  "key_of_route r = (rt_channel r, rt_account r, rt_opaque r)"

definition key_of_member :: "member_row \<Rightarrow> route_key" where
  "key_of_member m = (mb_channel m, mb_account m, mb_opaque m)"

definition find_route :: "route_key \<Rightarrow> route_row option app" where
  "find_route k = fetch_one routes (\<lambda>r. key_of_route r = k)"

section \<open>Routes\<close>

definition observe :: "app_env \<Rightarrow> route_key \<Rightarrow> pystr \<Rightarrow> datetime \<Rightarrow> unit app" where
  "observe env k kind now = (case k of (channel, account, ref) \<Rightarrow>
     seq (of_res (require_aware now))
    (seq (check (kind \<notin> {lit ''private'', lit ''group'', lit ''channel'', lit ''actor''}) ValidationError)
    (seq (check (list_ex blank [channel, account, ref]) ValidationError)
    (app_transaction (bind (find_route k) (\<lambda>row. let seen = time_text (a_tz env) now in
       if row = None
       then insert_row routes (\<lambda>s r. True) \<lparr>rt_channel = channel, rt_account = account, rt_opaque = ref, rt_kind = kind,
              rt_enabled = False, rt_owner = None, rt_mode = GM_DISABLED, rt_shared = None, rt_seen = seen\<rparr>
       else bind (change_rows routes (\<lambda>r. True) (\<lambda>r. key_of_route r = k) (\<lambda>r. r\<lparr>rt_kind := kind, rt_seen := seen\<rparr>))
              (\<lambda>_. ret ())))))))"

definition commands_enabled :: "route_key \<Rightarrow> bool app" where
  "commands_enabled k = bind (find_route k) (\<lambda>row. ret (case row of None \<Rightarrow> False | Some r \<Rightarrow> rt_enabled r))"

definition members_of :: "app_db \<Rightarrow> route_key \<Rightarrow> pystr list" where
  "members_of s k = sort (map mb_user (filter (\<lambda>m. key_of_member m = k) (t_members s)))"

definition route_get :: "route_key \<Rightarrow> channel_route option app" where
  "route_get k = bind (find_route k) (\<lambda>row. case row of
       None \<Rightarrow> ret None
     | Some r \<Rightarrow> bind (reads (\<lambda>s. members_of s k)) (\<lambda>ms. bind (of_res (load_time (rt_seen r))) (\<lambda>seen.
         ret (Some \<lparr>route_channel = rt_channel r, route_account = rt_account r, route_opaque_ref = rt_opaque r,
           route_kind = rt_kind r, route_enabled = rt_enabled r, route_owner = rt_owner r, route_mode = rt_mode r,
           route_shared = rt_shared r, route_members = ms, route_seen = seen\<rparr>))))"

definition is_member :: "route_key \<Rightarrow> pystr \<Rightarrow> bool app" where
  "is_member k u = bind (fetch_one members (\<lambda>m. key_of_member m = k \<and> mb_user m = u)) (\<lambda>row. ret (row \<noteq> None))"

definition shared_owners :: "app_db \<Rightarrow> pystr \<Rightarrow> pystr list" where
  "shared_owners s u = sort (remdups (concat (map (\<lambda>m. map (\<lambda>r. the (rt_shared r))
       (filter (\<lambda>r. key_of_route r = key_of_member m \<and> rt_enabled r \<and> rt_mode r = GM_INTERNAL \<and> rt_shared r \<noteq> None) (t_routes s)))
     (filter (\<lambda>m. mb_user m = u) (t_members s)))))"

definition shared_owners_for_member :: "pystr \<Rightarrow> pystr list app" where
  "shared_owners_for_member u = reads (\<lambda>s. shared_owners s u)"

definition route_order :: "route_row list \<Rightarrow> route_row list" where
  "route_order rs = rev (sort_key rt_seen (rev (sort_key key_of_route rs)))"

fun gather_routes :: "route_row list \<Rightarrow> channel_route list app" where
  "gather_routes [] = ret []"
| "gather_routes (r # rs) = bind (route_get (key_of_route r)) (\<lambda>x. bind (gather_routes rs) (\<lambda>xs.
     ret (case x of None \<Rightarrow> xs | Some y \<Rightarrow> y # xs)))"

definition route_list :: "int \<Rightarrow> channel_route list app" where
  "route_list limit =
     seq (check (\<not> (1 \<le> limit \<and> limit \<le> 500)) ValidationError)
    (bind (reads (\<lambda>s. take (nat limit) (route_order (t_routes s)))) gather_routes)"

section \<open>Activation codes\<close>

definition activation_allowed :: "app_db \<Rightarrow> activation_row \<Rightarrow> bool" where
  "activation_allowed s r \<longleftrightarrow> av_hash r \<notin> av_hash ` set (t_activations s) \<and> user_exists s (av_user r) \<and> av_mode r \<noteq> GM_DISABLED"

definition issue_activation :: "app_env \<Rightarrow> pystr \<Rightarrow> pystr \<Rightarrow> pystr \<Rightarrow> pystr \<Rightarrow> group_mode \<Rightarrow> datetime \<Rightarrow> datetime \<Rightarrow> unit app" where
  "issue_activation env code_hash u channel account mode expires_at now =
     seq (of_res (require_aware expires_at))
    (seq (of_res (require_aware now))
    (seq (check (mode = GM_DISABLED) ValidationError)
    (app_transaction
      (bind (remove_rows activations (\<lambda>r. av_user r = u \<and> av_channel r = channel \<and> av_account r = account \<and> av_consumed r = None)) (\<lambda>_.
       insert_row activations activation_allowed \<lparr>av_hash = code_hash, av_user = u, av_channel = channel, av_account = account,
         av_mode = mode, av_expires = time_text (a_tz env) expires_at, av_consumed = None,
         av_created = time_text (a_tz env) now\<rparr>)))))"

definition consume_activation :: "app_env \<Rightarrow> pystr \<Rightarrow> pystr \<Rightarrow> pystr \<Rightarrow> datetime \<Rightarrow> (pystr \<times> group_mode) option app" where
  "consume_activation env code_hash channel account now =
     seq (of_res (require_aware now))
       (let now_text = time_text (a_tz env) now in
        app_transaction (bind (fetch_one activations (\<lambda>r. av_hash r = code_hash \<and> av_channel r = channel \<and> av_account r = account
            \<and> av_consumed r = None \<and> now_text < av_expires r)) (\<lambda>row. case row of
          None \<Rightarrow> ret None
        | Some r \<Rightarrow> bind (change_rows activations (\<lambda>_. True) (\<lambda>q. av_hash q = code_hash \<and> av_consumed q = None)
            (\<lambda>q. q\<lparr>av_consumed := Some now_text\<rparr>)) (\<lambda>changed.
              ret (if changed \<noteq> 1 then None else Some (av_user r, av_mode r))))))"

section \<open>Members\<close>

definition member_known :: "app_db \<Rightarrow> member_row \<Rightarrow> bool" where
  "member_known s m \<longleftrightarrow> user_exists s (mb_user m) \<and> user_exists s (mb_added_by m) \<and> key_of_member m \<in> key_of_route ` set (t_routes s)"

definition ensure_member :: "route_key \<Rightarrow> pystr \<Rightarrow> pystr \<Rightarrow> pystr \<Rightarrow> unit app" where
  "ensure_member k u by at = (case k of (channel, account, ref) \<Rightarrow>
     insert_or_ignore members (\<lambda>s m. (key_of_member m, mb_user m) \<in> (\<lambda>q. (key_of_member q, mb_user q)) ` set (t_members s)) member_known
       \<lparr>mb_channel = channel, mb_account = account, mb_opaque = ref, mb_user = u, mb_added_by = by, mb_created = at\<rparr>)"

definition add_member :: "app_env \<Rightarrow> channel_route \<Rightarrow> pystr \<Rightarrow> pystr \<Rightarrow> datetime \<Rightarrow> unit app" where
  "add_member env route u by now =
     seq (of_res (require_aware now))
    (seq (check (route_mode route \<noteq> GM_INTERNAL) ValidationError)
    (app_transaction (ensure_member (route_channel route, route_account route, route_opaque_ref route) u by (time_text (a_tz env) now))))"

section \<open>Linking a private identity\<close>

definition link_event :: "pystr \<Rightarrow> pystr \<Rightarrow> string \<Rightarrow> pystr \<Rightarrow> pystr \<Rightarrow> string \<Rightarrow> audit_event" where
  "link_event at actor act code_hash outcome reason = \<lparr>au_at = at, au_actor = actor, au_action = lit act,
     au_kind = lit ''private_link_challenge'', au_resource = code_hash, au_outcome = outcome, au_reason = lit reason\<rparr>"

definition issue_private_link :: "app_env \<Rightarrow> pystr \<Rightarrow> pystr \<Rightarrow> pystr \<Rightarrow> pystr \<Rightarrow> datetime \<Rightarrow> datetime \<Rightarrow> unit app" where
  "issue_private_link env code_hash channel account actor expires_at now =
     seq (of_res (require_aware expires_at))
    (seq (of_res (require_aware now))
    (let old = time_text (a_tz env) (dt_add now (- us_day)); at = time_text (a_tz env) now in
     app_transaction
      (bind (remove_rows private_links (\<lambda>r. pl_expires r < old
          \<or> pl_channel r = channel \<and> pl_account r = account \<and> pl_actor r = actor \<and> pl_consumed r = None)) (\<lambda>_.
       seq (insert_row private_links (\<lambda>s r. pl_hash r \<notin> pl_hash ` set (t_links s))
          \<lparr>pl_hash = code_hash, pl_channel = channel, pl_account = account, pl_actor = actor,
           pl_expires = time_text (a_tz env) expires_at, pl_consumed = None, pl_created = at\<rparr>)
        (writes (add_audit (link_event at (lit ''service:registration'') ''create'' code_hash completed ''self_service'')))))))"

definition failed_links :: "app_db \<Rightarrow> pystr \<Rightarrow> pystr \<Rightarrow> nat" where
  "failed_links s u since = length (filter (\<lambda>e. au_actor e = u \<and> au_kind e = lit ''private_link_challenge''
     \<and> au_outcome e = lit ''denied'' \<and> since \<le> au_at e) (outbox_audit (store s)))"

definition deny_link :: "pystr \<Rightarrow> pystr \<Rightarrow> pystr \<Rightarrow> pystr option app" where
  "deny_link now_text u code_hash =
     seq (writes (add_audit (link_event now_text u ''use'' code_hash (lit ''denied'') ''invalid_or_expired''))) (ret None)"

definition accept_link :: "pystr \<Rightarrow> pystr \<Rightarrow> pystr \<Rightarrow> link_row \<Rightarrow> pystr option app" where
  "accept_link now_text u code_hash r =
     bind (change_rows private_links (\<lambda>_. True) (\<lambda>q. pl_hash q = code_hash \<and> pl_consumed q = None)
         (\<lambda>q. q\<lparr>pl_consumed := Some now_text\<rparr>)) (\<lambda>changed.
       if changed \<noteq> 1 then ret None
       else seq (writes (add_audit (link_event now_text u ''update'' code_hash completed ''identity_bound'')))
         (ret (Some (pl_actor r))))"

definition consume_private_link :: "app_env \<Rightarrow> pystr \<Rightarrow> pystr \<Rightarrow> pystr \<Rightarrow> pystr \<Rightarrow> datetime \<Rightarrow> pystr option app" where
  "consume_private_link env code_hash channel account u now =
     seq (of_res (require_aware now))
    (let now_text = time_text (a_tz env) now; since = time_text (a_tz env) (dt_add now (- (10 * us_minute))) in
     app_transaction
      (bind (reads (\<lambda>s. failed_links s u since)) (\<lambda>failed.
       if 5 \<le> failed then ret None
       else bind (fetch_one private_links (\<lambda>r. pl_hash r = code_hash \<and> pl_channel r = channel \<and> pl_account r = account
            \<and> pl_consumed r = None \<and> now_text < pl_expires r)) (\<lambda>row. case row of
          None \<Rightarrow> deny_link now_text u code_hash
        | Some r \<Rightarrow> accept_link now_text u code_hash r))))"

section \<open>Enabling a route\<close>

text \<open>The mode and the workspace that a request leads to, making the workspace's user where a group needs one.\<close>

definition SHARED_NAME :: pystr where
  "SHARED_NAME = lit ''Shared group workspace''"

definition group_target :: "pystr \<Rightarrow> bool \<Rightarrow> group_mode option \<Rightarrow> pystr \<Rightarrow> route_row \<Rightarrow> (group_mode \<times> pystr option) app" where
  "group_target workspace enabled mode at r =
     (let m = (if enabled then (case mode of None \<Rightarrow> GM_INTERNAL | Some m \<Rightarrow> m) else GM_DISABLED) in
      if m = GM_INTERNAL \<and> rt_shared r = None
      then seq (insert_row users user_allowed \<lparr>us_id = workspace, us_name = SHARED_NAME, us_status = lit ''active'', us_created = at\<rparr>)
          (seq (writes (register_id workspace)) (ret (m, Some workspace)))
      else ret (m, rt_shared r))"

definition other_target :: "group_mode option \<Rightarrow> pystr list option \<Rightarrow> (group_mode \<times> pystr option) app" where
  "other_target mode chosen =
     seq (check (mode \<notin> {None, Some GM_DISABLED} \<or> (chosen \<noteq> None \<and> chosen \<noteq> Some [])) ValidationError) (ret (GM_DISABLED, None))"

definition set_route :: "bool \<Rightarrow> pystr \<Rightarrow> group_mode \<Rightarrow> pystr option \<Rightarrow> route_row \<Rightarrow> route_row" where
  "set_route enabled actor mode shared r = r\<lparr>rt_enabled := enabled, rt_owner := (if enabled then Some actor else rt_owner r),
     rt_mode := mode, rt_shared := (case rt_shared r of None \<Rightarrow> shared | Some w \<Rightarrow> Some w)\<rparr>"

definition write_members :: "route_key \<Rightarrow> pystr \<Rightarrow> pystr list option \<Rightarrow> pystr \<Rightarrow> unit app" where
  "write_members k actor chosen at =
     (let wanted = sort (remdups (actor # (case chosen of None \<Rightarrow> [] | Some us \<Rightarrow> us))) in
      seq (if chosen = None then ret ()
           else bind (remove_rows members (\<lambda>m. key_of_member m = k \<and> mb_user m \<notin> set wanted)) (\<lambda>_. ret ()))
        (each (\<lambda>u. bind (fetch_one users (\<lambda>r. us_id r = u \<and> us_status r = lit ''active'')) (\<lambda>row.
           seq (check (row = None) ValidationError) (ensure_member k u actor at))) wanted))"

definition set_commands_enabled :: "app_env \<Rightarrow> pystr \<Rightarrow> route_key \<Rightarrow> bool \<Rightarrow> pystr \<Rightarrow> datetime \<Rightarrow> group_mode option
    \<Rightarrow> pystr list option \<Rightarrow> bool app" where
  "set_commands_enabled env workspace k enabled actor now mode chosen =
     seq (of_res (require_aware now))
    (let at = time_text (a_tz env) now in
     app_transaction
      (bind (find_route k) (\<lambda>row.
       seq (check (case row of None \<Rightarrow> False | Some r \<Rightarrow> rt_owner r \<noteq> None \<and> rt_owner r \<noteq> Some actor) PermissionDenied)
      (bind (case row of None \<Rightarrow> ret (GM_DISABLED, None)
          | Some r \<Rightarrow> if rt_kind r = lit ''group'' then group_target workspace enabled mode at r else other_target mode chosen)
        (\<lambda>(m, shared).
       seq (check (m \<noteq> GM_INTERNAL \<and> chosen \<noteq> None \<and> chosen \<noteq> Some []) ValidationError)
      (bind (reads (\<lambda>s. enabled \<and> \<not> user_exists s actor \<and> row \<noteq> None)) (\<lambda>unknown.
       seq (check unknown IntegrityErr)
      (bind (change_rows routes (\<lambda>_. True) (\<lambda>r. key_of_route r = k) (set_route enabled actor m shared)) (\<lambda>changed.
       seq (if changed \<noteq> 0 \<and> (case row of None \<Rightarrow> False | Some r \<Rightarrow> rt_kind r = lit ''group'')
            then if m = GM_INTERNAL then write_members k actor chosen at
                 else bind (remove_rows members (\<lambda>q. key_of_member q = k)) (\<lambda>_. ret ())
            else ret ())
      (seq (writes (add_audit \<lparr>au_at = at, au_actor = actor, au_action = lit ''update'', au_kind = lit ''channel_route'',
             au_resource = snd (snd k), au_outcome = (if changed \<noteq> 0 then completed else lit ''not_found''),
             au_reason = (if enabled then lit ''commands_enabled'' else lit ''commands_disabled'')\<rparr>))
        (ret (changed = 1))))))))))))"

section \<open>What each operation keeps\<close>

lemmas route_tables = routes_def members_def activations_def private_links_def users_def

lemma register_id_tables [simp]:
  "t_routes (register_id i s) = t_routes s" "t_members (register_id i s) = t_members s"
  "t_activations (register_id i s) = t_activations s" "t_links (register_id i s) = t_links s" "t_users (register_id i s) = t_users s"
  "outbox_audit (store (register_id i s)) = outbox_audit (store s)" "known_users (store (register_id i s)) = known_users (store s) @ [i]"
  by (simp_all add: register_id_def)

lemma keeps_target [keeping]:
  assumes "reflp R" "transp R" "\<And>g s. R s (t_users_update g s)" "\<And>s. R s (register_id workspace s)"
  shows "keeps R (group_target workspace enabled mode at r)" "keeps R (other_target mode chosen)"
  using assms unfolding group_target_def other_target_def Let_def by (auto intro!: keeping simp: users_def)

lemma keeps_write_members [keeping]:
  assumes "reflp R" "transp R" "\<And>g s. R s (t_members_update g s)"
  shows "keeps R (ensure_member k u by at)" "keeps R (write_members k actor chosen at)"
  using assms unfolding write_members_def ensure_member_def Let_def
  by (auto intro!: keeping simp: members_def split: prod.split)

lemma keeps_set_commands_enabled [keeping]:
  assumes "reflp R" "transp R" "\<And>g s. R s (t_users_update g s)" "\<And>s. R s (register_id workspace s)"
    "\<And>g s. R s (t_members_update g s)" "\<And>g s. R s (t_routes_update g s)" "\<And>e s. R s (add_audit e s)"
  shows "keeps R (set_commands_enabled env workspace k enabled actor now mode chosen)"
  using assms unfolding set_commands_enabled_def Let_def
  by (auto intro!: keeping simp: routes_def members_def find_route_def split: prod.split option.split)

lemma keeps_activation:
  assumes "reflp R" "transp R" "\<And>g s. R s (t_activations_update g s)"
  shows "keeps R (issue_activation env h u channel account mode expires now)"
    "keeps R (consume_activation env h channel account now)"
  using assms unfolding issue_activation_def consume_activation_def Let_def
  by (auto intro!: keeping simp: activations_def split: option.split)

lemma keeps_private_link:
  assumes "reflp R" "transp R" "\<And>g s. R s (t_links_update g s)" "\<And>e s. R s (add_audit e s)"
  shows "keeps R (issue_private_link env h channel account actor expires now)"
    "keeps R (consume_private_link env h channel account u now)"
  using assms unfolding issue_private_link_def consume_private_link_def accept_link_def deny_link_def Let_def
  by (auto intro!: keeping simp: private_links_def split: option.split)

lemma keeps_observe:
  assumes "reflp R" "transp R" "\<And>g s. R s (t_routes_update g s)"
  shows "keeps R (observe env k kind now)"
  using assms unfolding observe_def Let_def
  by (auto intro!: keeping simp: routes_def find_route_def split: prod.split)

lemma keeps_add_member:
  assumes "reflp R" "transp R" "\<And>g s. R s (t_members_update g s)"
  shows "keeps R (add_member env route u by now)"
  using assms unfolding add_member_def by (auto intro!: keeping)

section \<open>Histories\<close>

text \<open>The writes of the store, with any arguments and however they end.\<close>

inductive route_step :: "app_env \<Rightarrow> app_db \<Rightarrow> app_db \<Rightarrow> bool" for env where
  observing: "observe env k kind now s = (t, r) \<Longrightarrow> route_step env s t"
| switching: "set_commands_enabled env w k enabled actor now mode chosen s = (t, b) \<Longrightarrow> route_step env s t"
| joining: "add_member env route u by now s = (t, r) \<Longrightarrow> route_step env s t"
| issuing: "issue_activation env h u channel account m expires now s = (t, r) \<Longrightarrow> route_step env s t"
| activating: "consume_activation env h channel account now s = (t, x) \<Longrightarrow> route_step env s t"
| offering: "issue_private_link env h channel account actor expires now s = (t, r) \<Longrightarrow> route_step env s t"
| linking: "consume_private_link env h channel account u now s = (t, y) \<Longrightarrow> route_step env s t"

definition route_later :: "app_env \<Rightarrow> app_db \<Rightarrow> app_db \<Rightarrow> bool" where
  "route_later env = (route_step env)\<^sup>*\<^sup>*"

definition spent :: "pystr \<Rightarrow> app_db \<Rightarrow> bool" where
  "spent h s \<longleftrightarrow> h \<in> set (map av_hash (t_activations s))
     \<and> (\<forall>r \<in> set (t_activations s). av_hash r = h \<longrightarrow> av_consumed r \<noteq> None)"

lemma spent_statements:
  "keeps (\<lambda>s t. spent h s \<longrightarrow> spent h t) (remove_rows activations
      (\<lambda>r. av_user r = u \<and> av_channel r = channel \<and> av_account r = account \<and> av_consumed r = None))"
  "keeps (\<lambda>s t. spent h s \<longrightarrow> spent h t) (insert_row activations activation_allowed r)"
  "keeps (\<lambda>s t. spent h s \<longrightarrow> spent h t) (change_rows activations ch p (\<lambda>q. q\<lparr>av_consumed := Some n\<rparr>))"
proof -
  show "keeps (\<lambda>s t. spent h s \<longrightarrow> spent h t) (remove_rows activations
      (\<lambda>r. av_user r = u \<and> av_channel r = channel \<and> av_account r = account \<and> av_consumed r = None))"
    by (fastforce simp: keeps_def remove_rows_def activations_def spent_def)
  show "keeps (\<lambda>s t. spent h s \<longrightarrow> spent h t) (insert_row activations activation_allowed r)"
    by (force simp: keeps_def insert_row_def activations_def spent_def activation_allowed_def)
  show "keeps (\<lambda>s t. spent h s \<longrightarrow> spent h t) (change_rows activations ch p (\<lambda>q. q\<lparr>av_consumed := Some n\<rparr>))"
    by (simp add: keeps_def change_rows_def activations_def spent_def del: set_map) (auto simp: set_update_where)
qed

lemma spent_kept:
  "keeps (\<lambda>s t. spent h s \<longrightarrow> spent h t) (issue_activation env c u channel account mode expires now)"
  "keeps (\<lambda>s t. spent h s \<longrightarrow> spent h t) (consume_activation env c channel account now)"
  "keeps (\<lambda>s t. spent h s \<longrightarrow> spent h t) (observe env k kind now)"
  "keeps (\<lambda>s t. spent h s \<longrightarrow> spent h t) (set_commands_enabled env w k enabled actor now gm chosen)"
  "keeps (\<lambda>s t. spent h s \<longrightarrow> spent h t) (add_member env route u by now)"
  "keeps (\<lambda>s t. spent h s \<longrightarrow> spent h t) (issue_private_link env c channel account actor expires now)"
  "keeps (\<lambda>s t. spent h s \<longrightarrow> spent h t) (consume_private_link env c channel account u now)"
proof -
  show "keeps (\<lambda>s t. spent h s \<longrightarrow> spent h t) (issue_activation env c u channel account mode expires now)"
    unfolding issue_activation_def by (intro keeping implies_preorder spent_statements)
  show "keeps (\<lambda>s t. spent h s \<longrightarrow> spent h t) (consume_activation env c channel account now)"
    unfolding consume_activation_def Let_def
    by (auto intro!: keeping spent_statements split: option.split)
qed (rule keeps_observe keeps_set_commands_enabled keeps_add_member keeps_private_link; simp add: spent_def)+

lemma spent_later: "route_later env s t \<Longrightarrow> spent h s \<Longrightarrow> spent h t"
  unfolding route_later_def
  by (erule keeps_later) (auto elim!: route_step.cases dest!: keepsD[OF spent_kept(1)] keepsD[OF spent_kept(2)]
    keepsD[OF spent_kept(3)] keepsD[OF spent_kept(4)] keepsD[OF spent_kept(5)] keepsD[OF spent_kept(6)] keepsD[OF spent_kept(7)])


lemma consume_activation_Some:
  assumes "consume_activation env h channel account now s = (t, Inr (Some (u, m)))"
  shows "spent h t" "\<exists>r \<in> set (t_activations s). av_hash r = h \<and> av_channel r = channel \<and> av_account r = account \<and> av_user r = u
    \<and> av_mode r = m \<and> av_consumed r = None \<and> time_text (a_tz env) now < av_expires r"
proof -
  let ?p = "\<lambda>r. av_hash r = h \<and> av_channel r = channel \<and> av_account r = account
      \<and> av_consumed r = None \<and> time_text (a_tz env) now < av_expires r"
  obtain r where r: "find ?p (t_activations s) = Some r" "av_user r = u" "av_mode r = m"
    and t: "t = t_activations_update (update_where (\<lambda>q. av_hash q = h \<and> av_consumed q = None)
        (\<lambda>q. q\<lparr>av_consumed := Some (time_text (a_tz env) now)\<rparr>)) s"
    using assms(1) unfolding consume_activation_def Let_def seq_Inr app_transaction_Inr
    by (auto simp: bind_Inr fetch_one_def op_run change_rows_def activations_def split: option.splits if_splits)
  have 1: "r \<in> set (t_activations s)" "?p r" using r(1) by (auto simp: find_Some_iff)
  then show "\<exists>r \<in> set (t_activations s). av_hash r = h \<and> av_channel r = channel \<and> av_account r = account \<and> av_user r = u
    \<and> av_mode r = m \<and> av_consumed r = None \<and> time_text (a_tz env) now < av_expires r" using r by blast
  have "h \<in> set (map av_hash (t_activations s))" using 1 by auto
  then show "spent h t" by (auto simp: t spent_def set_update_where)
qed

lemma consume_spent:
  assumes "spent h s" "aware now"
  shows "consume_activation env h channel account now s = (s, Inr None)"
proof -
  have "find (\<lambda>r. av_hash r = h \<and> av_channel r = channel \<and> av_account r = account
      \<and> av_consumed r = None \<and> time_text (a_tz env) now < av_expires r) (t_activations s) = None"
    using assms(1) by (auto simp: find_None_iff spent_def)
  then show ?thesis
    by (simp add: consume_activation_def Let_def seq_def bind_def op_run fetch_one_def activations_def
        require_aware_def guarded_def assms(2) app_transaction_def atomically_def)
qed

section \<open>Ownership\<close>

definition owner_of :: "app_db \<Rightarrow> route_key \<Rightarrow> pystr option" where
  "owner_of s k = Option.bind (find (\<lambda>r. key_of_route r = k) (t_routes s)) rt_owner"

abbreviation is_group :: "route_row option \<Rightarrow> bool" where
  "is_group row \<equiv> (case row of None \<Rightarrow> False | Some r \<Rightarrow> rt_kind r = lit ''group'')"

abbreviation target_of :: "pystr \<Rightarrow> bool \<Rightarrow> group_mode option \<Rightarrow> pystr list option \<Rightarrow> pystr \<Rightarrow> route_row option
    \<Rightarrow> (group_mode \<times> pystr option) app" where
  "target_of workspace enabled mode chosen at row \<equiv> (case row of None \<Rightarrow> ret (GM_DISABLED, None)
     | Some r \<Rightarrow> if rt_kind r = lit ''group'' then group_target workspace enabled mode at r else other_target mode chosen)"

text \<open>What a switch that returned has done, part by part.\<close>

lemma target_routes:
  assumes "target_of w enabled mode chosen at row s = (t, Inr x)"
  shows "t_routes t = t_routes s \<and> t_members t = t_members s"
proof -
  have "keeps (same (\<lambda>s. (t_routes s, t_members s))) (group_target w enabled mode at r)" for r
    by (rule keeps_target[OF same_preorder]) simp_all
  moreover have "keeps (same (\<lambda>s. (t_routes s, t_members s))) (other_target mode chosen)"
    by (rule keeps_target[OF same_preorder]) simp_all
  ultimately show ?thesis using assms
    by (cases row) (auto simp: statement_Inr split: if_splits dest: keepsD)
qed

lemma set_commands_enabled_Inr:
  assumes "set_commands_enabled env workspace k enabled actor now mode chosen s = (t, Inr b)"
    and "row = find (\<lambda>r. key_of_route r = k) (t_routes s)" "changed = count_where (\<lambda>r. key_of_route r = k) (t_routes s)"
  obtains m shared s1 s3 where
    "owner_of s k \<in> {None, Some actor}"
    "target_of workspace enabled mode chosen (time_text (a_tz env) now) row s = (s1, Inr (m, shared))"
    "m \<noteq> GM_INTERNAL \<longrightarrow> chosen = None \<or> chosen = Some []"
    "(if changed \<noteq> 0 \<and> is_group row then if m = GM_INTERNAL then write_members k actor chosen (time_text (a_tz env) now)
          else bind (remove_rows members (\<lambda>q. key_of_member q = k)) (\<lambda>_. ret ()) else ret ())
        (t_routes_update (update_where (\<lambda>r. key_of_route r = k) (set_route enabled actor m shared)) s1) = (s3, Inr ())"
    "\<exists>e. t = add_audit e s3" "b \<longleftrightarrow> changed = 1"
  using assms(1) unfolding set_commands_enabled_def Let_def find_route_def run_Inr split_paired_Ex prod.case
proof (elim exE conjE, goal_cases)
  case (1 u u1 row' u2 s1 m shared u3 u4 unknown u5 s2 changed' s3)
  have r: "row' = row" using 1(2,4,5) assms(2) by (simp add: routes_def)
  have target: "target_of workspace enabled mode chosen (time_text (a_tz env) now) row s = (s1, Inr (m, shared))"
    using 1(2,4,6,8) unfolding r by simp
  have u: "u5 = s1" using 1(9,11,13) by simp
  have s2: "s2 = t_routes_update (update_where (\<lambda>r. key_of_route r = k) (set_route enabled actor m shared)) s1"
    using 1(17) by (simp add: routes_def u)
  have c: "changed' = changed" using 1(18) target_routes[OF target] assms(3) by (simp add: routes_def u)
  show ?case
  proof (rule 1(1))
    show "owner_of s k \<in> {None, Some actor}" using 1(7) unfolding r owner_of_def assms(2)[symmetric] by (cases row) auto
    show "target_of workspace enabled mode chosen (time_text (a_tz env) now) row s = (s1, Inr (m, shared))" by (fact target)
    show "m \<noteq> GM_INTERNAL \<longrightarrow> chosen = None \<or> chosen = Some []" using 1(10) by blast
    show "(if changed \<noteq> 0 \<and> is_group row then if m = GM_INTERNAL then write_members k actor chosen (time_text (a_tz env) now)
          else bind (remove_rows members (\<lambda>q. key_of_member q = k)) (\<lambda>_. ret ()) else ret ())
        (t_routes_update (update_where (\<lambda>r. key_of_route r = k) (set_route enabled actor m shared)) s1) = (s3, Inr ())"
      using 1(16) unfolding r c s2 .
    show "\<exists>e. t = add_audit e s3" using 1(19) by blast
    show "b \<longleftrightarrow> changed = 1" using 1(20) unfolding c .
  qed
qed

lemma owner_kept_switch:
  "keeps (\<lambda>s t. owner_of s i = Some v \<longrightarrow> owner_of t i = Some v) (set_commands_enabled env w k enabled actor now mode chosen)"
  unfolding keeps_def
proof (intro allI impI)
  fix s
  assume o: "owner_of s i = Some v"
  obtain t r where run: "set_commands_enabled env w k enabled actor now mode chosen s = (t, r)" by fastforce
  show "owner_of (fst (set_commands_enabled env w k enabled actor now mode chosen s)) i = Some v"
  proof (cases r)
    case (Inl e)
    then have "t = s" using run unfolding set_commands_enabled_def Let_def by (auto dest: checked_transaction_Inl)
    then show ?thesis using run o by simp
  next
    case (Inr b)
    obtain row changed where rc: "row = find (\<lambda>r. key_of_route r = k) (t_routes s)"
      "changed = count_where (\<lambda>r. key_of_route r = k) (t_routes s)" by blast
    obtain m shared s1 s3 where f: "owner_of s k \<in> {None, Some actor}"
      "target_of w enabled mode chosen (time_text (a_tz env) now) row s = (s1, Inr (m, shared))"
      "(if changed \<noteq> 0 \<and> is_group row then if m = GM_INTERNAL then write_members k actor chosen (time_text (a_tz env) now)
          else bind (remove_rows members (\<lambda>q. key_of_member q = k)) (\<lambda>_. ret ()) else ret ())
        (t_routes_update (update_where (\<lambda>r. key_of_route r = k) (set_route enabled actor m shared)) s1) = (s3, Inr ())"
      "\<exists>e. t = add_audit e s3"
      by (rule set_commands_enabled_Inr[OF run[unfolded Inr] rc])
    have "t_routes s3 = update_where (\<lambda>r. key_of_route r = k) (set_route enabled actor m shared) (t_routes s1)"
      using f(3) keepsD[OF keeps_write_members(2)[OF same_preorder], of t_routes]
      by (fastforce simp: run_Inr members_def split: if_splits)
    then have "t_routes t = update_where (\<lambda>r. key_of_route r = k) (set_route enabled actor m shared) (t_routes s)"
      using f(4) target_routes[OF f(2)] by auto
    moreover have "key_of_route (set_route enabled actor m shared r) = key_of_route r" for r
      by (simp add: key_of_route_def set_route_def)
    ultimately have found: "find (\<lambda>r. key_of_route r = i) (t_routes t)
        = map_option (\<lambda>r. if key_of_route r = k then set_route enabled actor m shared r else r) (find (\<lambda>r. key_of_route r = i) (t_routes s))"
      by (simp add: find_updated)
    obtain r where r: "find (\<lambda>r. key_of_route r = i) (t_routes s) = Some r" "rt_owner r = Some v"
      using o by (auto simp: owner_of_def split: bind_splits)
    then have "key_of_route r = i" by (auto simp: find_Some_iff)
    moreover have "i = k \<Longrightarrow> actor = v" using f(1) o by auto
    ultimately have "owner_of t i = Some v" using found r by (auto simp: owner_of_def set_route_def)
    then show ?thesis using run by simp
  qed
qed

lemma owner_kept_observe: "keeps (\<lambda>s t. owner_of s i = Some v \<longrightarrow> owner_of t i = Some v) (observe env k kind now)"
proof -
  let ?R = "\<lambda>s t. owner_of s i = Some v \<longrightarrow> owner_of t i = Some v"
  have seen: "keeps ?R (change_rows routes (\<lambda>r. True) (\<lambda>r. key_of_route r = k) (\<lambda>r. r\<lparr>rt_kind := kind, rt_seen := x\<rparr>))" for k x
    unfolding keeps_def change_rows_def routes_def
    by (auto simp: owner_of_def find_updated key_of_route_def split: bind_splits if_splits)
  have fresh: "keeps ?R (insert_row routes (\<lambda>s r. True) r)" for r
    by (auto simp: keeps_def insert_row_def routes_def owner_of_def find_appended split: bind_splits option.splits)
  show ?thesis unfolding observe_def Let_def find_route_def
    by (cases k) (auto intro!: keeping seen fresh)
qed

lemma owner_kept:
  "keeps (\<lambda>s t. owner_of s i = Some v \<longrightarrow> owner_of t i = Some v) (issue_activation env c u channel account mode expires now)"
  "keeps (\<lambda>s t. owner_of s i = Some v \<longrightarrow> owner_of t i = Some v) (consume_activation env c channel account now)"
  "keeps (\<lambda>s t. owner_of s i = Some v \<longrightarrow> owner_of t i = Some v) (add_member env route u by now)"
  "keeps (\<lambda>s t. owner_of s i = Some v \<longrightarrow> owner_of t i = Some v) (issue_private_link env c channel account actor expires now)"
  "keeps (\<lambda>s t. owner_of s i = Some v \<longrightarrow> owner_of t i = Some v) (consume_private_link env c channel account u now)"
  by (rule keeps_activation keeps_add_member keeps_private_link; simp add: owner_of_def)+

lemma owner_later: "route_later env s t \<Longrightarrow> owner_of s i = Some v \<Longrightarrow> owner_of t i = Some v"
  unfolding route_later_def
  by (erule keeps_later) (auto elim!: route_step.cases dest!: keepsD[OF owner_kept(1)] keepsD[OF owner_kept(2)]
    keepsD[OF owner_kept(3)] keepsD[OF owner_kept(4)] keepsD[OF owner_kept(5)] keepsD[OF owner_kept_observe] keepsD[OF owner_kept_switch])

lemma switch_foreign:
  assumes "owner_of s k = Some v" "v \<noteq> actor" "aware now"
  shows "set_commands_enabled env w k enabled actor now mode chosen s = (s, Inl PermissionDenied)"
  using assms by (auto simp: set_commands_enabled_def Let_def seq_def bind_def op_run find_route_def fetch_one_def routes_def
      require_aware_def guarded_def app_transaction_def atomically_def owner_of_def split: bind_splits)

section \<open>Members of a group\<close>

definition member_set :: "app_db \<Rightarrow> route_key \<Rightarrow> pystr set" where
  "member_set s k = mb_user ` set (filter (\<lambda>m. key_of_member m = k) (t_members s))"

definition active_user :: "app_db \<Rightarrow> pystr \<Rightarrow> bool" where
  "active_user s u \<longleftrightarrow> (\<exists>r \<in> set (t_users s). us_id r = u \<and> us_status r = lit ''active'')"

lemma ensure_member_Inr:
  assumes "ensure_member k u by at s = (t, Inr v)"
  shows "member_set t i = (if i = k then insert u (member_set s k) else member_set s i)" "t_users t = t_users s"
proof -
  obtain m where m: "m = \<lparr>mb_channel = fst k, mb_account = fst (snd k), mb_opaque = snd (snd k), mb_user = u,
      mb_added_by = by, mb_created = at\<rparr>" by blast
  then have mk: "key_of_member m = k" "mb_user m = u" by (simp_all add: key_of_member_def)
  let ?dup = "(k, u) \<in> (\<lambda>q. (key_of_member q, mb_user q)) ` set (t_members s)"
  have t: "t = (if ?dup then s else t_members_update (\<lambda>rs. rs @ [m]) s)"
    using assms mk by (auto simp: m ensure_member_def table_statement_Inr members_def split: prod.splits)
  then show "t_users t = t_users s" by simp
  have dup: "?dup \<Longrightarrow> u \<in> member_set s k" by (auto simp: member_set_def)
  have new: "member_set (t_members_update (\<lambda>rs. rs @ [m]) s) i = (if i = k then insert u (member_set s k) else member_set s i)"
    using mk by (simp add: member_set_def)
  show "member_set t i = (if i = k then insert u (member_set s k) else member_set s i)"
    unfolding t using new dup by (cases ?dup) auto
qed

lemma each_member_Inr:
  assumes "each (\<lambda>u. bind (fetch_one users (\<lambda>r. us_id r = u \<and> us_status r = lit ''active'')) (\<lambda>row.
           seq (check (row = None) ValidationError) (ensure_member k u by at))) us s = (t, Inr v)"
  shows "member_set t i = (if i = k then set us \<union> member_set s k else member_set s i) \<and> t_users t = t_users s
    \<and> (\<forall>u \<in> set us. active_user s u)"
  using assms
proof (induction us arbitrary: s)
  case (Cons u us)
  obtain s1 where s1: "find (\<lambda>r. us_id r = u \<and> us_status r = lit ''active'') (t_users s) \<noteq> None"
    "ensure_member k u by at s = (s1, Inr ())" and rest: "each (\<lambda>u. bind (fetch_one users (\<lambda>r. us_id r = u \<and> us_status r = lit ''active''))
      (\<lambda>row. seq (check (row = None) ValidationError) (ensure_member k u by at))) us s1 = (t, Inr v)"
    using Cons.prems by (auto simp: run_Inr users_def)
  have "active_user s u" using s1(1) by (auto simp: active_user_def find_None_iff)
  then show ?case using Cons.IH[OF rest] ensure_member_Inr[OF s1(2)]
    by (auto simp: active_user_def)
qed (simp add: run_Inr)

lemma write_members_Inr:
  assumes "write_members k actor chosen at s = (t, Inr v)"
  shows "member_set t i = (if i \<noteq> k then member_set s i
      else insert actor (case chosen of None \<Rightarrow> member_set s k | Some us \<Rightarrow> set us))"
    "\<forall>u \<in> insert actor (case chosen of None \<Rightarrow> {} | Some us \<Rightarrow> set us). active_user s u"
proof -
  let ?w = "sort (remdups (actor # (case chosen of None \<Rightarrow> [] | Some us \<Rightarrow> us)))"
  obtain s1 where s1: "t_users s1 = t_users s"
      "member_set s1 i = (if chosen = None \<or> i \<noteq> k then member_set s i else member_set s k \<inter> set ?w)"
      "member_set s1 k = (if chosen = None then member_set s k else member_set s k \<inter> set ?w)"
    and rest: "each (\<lambda>u. bind (fetch_one users (\<lambda>r. us_id r = u \<and> us_status r = lit ''active'')) (\<lambda>row.
           seq (check (row = None) ValidationError) (ensure_member k u actor at))) ?w s1 = (t, Inr v)"
  proof (cases "chosen = None")
    case True
    then show thesis using assms that[of s] unfolding write_members_def Let_def by (auto simp: run_Inr)
  next
    case False
    let ?s = "t_members_update (filter (\<lambda>m. \<not> (key_of_member m = k \<and> mb_user m \<notin> set ?w))) s"
    show thesis
    proof (rule that[of ?s])
      show "each (\<lambda>u. bind (fetch_one users (\<lambda>r. us_id r = u \<and> us_status r = lit ''active'')) (\<lambda>row.
           seq (check (row = None) ValidationError) (ensure_member k u actor at))) ?w ?s = (t, Inr v)"
        using assms False unfolding write_members_def Let_def seq_Inr by (auto simp: run_Inr members_def)
    qed (use False in \<open>auto simp: member_set_def\<close>)
  qed
  have w: "set ?w = insert actor (case chosen of None \<Rightarrow> {} | Some us \<Rightarrow> set us)" by (cases chosen) auto
  have e: "member_set t i = (if i = k then set ?w \<union> member_set s1 k else member_set s1 i)" "\<forall>u \<in> set ?w. active_user s1 u"
    using each_member_Inr[OF rest] by auto
  show "member_set t i = (if i \<noteq> k then member_set s i
      else insert actor (case chosen of None \<Rightarrow> member_set s k | Some us \<Rightarrow> set us))"
    unfolding e(1) s1 w by (cases chosen) auto
  show "\<forall>u \<in> insert actor (case chosen of None \<Rightarrow> {} | Some us \<Rightarrow> set us). active_user s u"
    using e(2) s1(1) unfolding w by (auto simp: active_user_def)
qed

section \<open>Guessing link codes\<close>

text \<open>The texts of the times at which a user's attempts to use a link code were denied, in the order of the audit log.\<close>

definition denied_texts :: "app_db \<Rightarrow> pystr \<Rightarrow> pystr list" where
  "denied_texts s u = map au_at (filter (\<lambda>e. au_actor e = u \<and> au_kind e = lit ''private_link_challenge''
     \<and> au_outcome e = lit ''denied'') (outbox_audit (store s)))"

lemma failed_links_texts: "failed_links s u since = length (filter (\<lambda>x. since \<le> x) (denied_texts s u))"
  by (simp add: failed_links_def denied_texts_def filter_map o_def)

lemma denied_texts_link_event:
  "denied_texts (add_audit (link_event at actor act h outcome reason) s) u =
     denied_texts s u @ (if actor = u \<and> outcome = lit ''denied'' then [at] else [])"
  by (simp add: denied_texts_def link_event_def)

lemma denied_texts_links [simp]: "denied_texts (t_links_update g s) u = denied_texts s u"
  by (simp add: denied_texts_def)

lemma accept_link_run:
  "accept_link now_text u h r s = (let w = t_links_update (update_where (\<lambda>q. pl_hash q = h \<and> pl_consumed q = None)
            (\<lambda>q. q\<lparr>pl_consumed := Some now_text\<rparr>)) s
     in if count_where (\<lambda>q. pl_hash q = h \<and> pl_consumed q = None) (t_links s) \<noteq> 1 then (w, Inr None)
        else (add_audit (link_event now_text u ''update'' h completed ''identity_bound'') w, Inr (Some (pl_actor r))))"
  by (simp add: accept_link_def change_rows_def private_links_def bind_def seq_def op_run Let_def list_all_iff)

lemma deny_link_run:
  "deny_link now_text u h s = (add_audit (link_event now_text u ''use'' h (lit ''denied'') ''invalid_or_expired'') s, Inr None)"
  by (simp add: deny_link_def seq_def bind_def op_run)

lemma accept_link_Inr: "\<exists>t x. accept_link now_text u h r s = (t, Inr x)"
  unfolding accept_link_run Let_def by auto

lemma consume_private_link_run:
  "consume_private_link env h channel account v now s = (if \<not> aware now then (s, Inl ValidationError)
     else if 5 \<le> failed_links s v (time_text (a_tz env) (dt_add now (- (10 * us_minute)))) then (s, Inr None)
     else case find (\<lambda>r. pl_hash r = h \<and> pl_channel r = channel \<and> pl_account r = account \<and> pl_consumed r = None
         \<and> time_text (a_tz env) now < pl_expires r) (t_links s) of
       None \<Rightarrow> deny_link (time_text (a_tz env) now) v h s
     | Some r \<Rightarrow> accept_link (time_text (a_tz env) now) v h r s)"
proof -
  let ?find = "find (\<lambda>r. pl_hash r = h \<and> pl_channel r = channel \<and> pl_account r = account \<and> pl_consumed r = None
         \<and> time_text (a_tz env) now < pl_expires r) (t_links s)"
  have found: "fetch_one private_links (\<lambda>r. pl_hash r = h \<and> pl_channel r = channel \<and> pl_account r = account
      \<and> pl_consumed r = None \<and> time_text (a_tz env) now < pl_expires r) s = (s, Inr ?find)"
    by (simp add: fetch_one_def op_run private_links_def)
  obtain x where x: "?find = x" by blast
  show ?thesis
  proof (cases x)
    case None
    then show ?thesis using found unfolding x
      by (simp add: consume_private_link_def Let_def seq_def bind_def op_run require_aware_def guarded_def
        app_transaction_def atomically_def deny_link_run)
  next
    case (Some r)
    then show ?thesis using found accept_link_Inr[of "time_text (a_tz env) now" v h r s] unfolding x
      by (auto simp: consume_private_link_def Let_def seq_def bind_def op_run require_aware_def guarded_def
        app_transaction_def atomically_def)
  qed
qed

lemma consume_private_link_cases:
  assumes "consume_private_link env h channel account v now s = (t, r)"
  shows "denied_texts t u = denied_texts s u
     \<or> v = u \<and> failed_links s u (time_text (a_tz env) (dt_add now (- (10 * us_minute)))) < 5
       \<and> denied_texts t u = denied_texts s u @ [time_text (a_tz env) now]"
proof -
  have "completed \<noteq> lit ''denied''" by (simp add: completed_def lit_def)
  then show ?thesis using assms unfolding consume_private_link_run accept_link_run deny_link_run Let_def
    by (auto simp: denied_texts_link_event not_le split: option.splits if_splits)
qed

lemma link_limit_reached:
  assumes "5 \<le> failed_links s u (time_text (a_tz env) (dt_add now (- (10 * us_minute))))" "aware now"
  shows "consume_private_link env h channel account u now s = (s, Inr None)"
  using assms by (simp add: consume_private_link_def Let_def seq_def bind_def op_run require_aware_def guarded_def
      app_transaction_def atomically_def)

text \<open>
  Histories of a user's link attempts, each at its own UTC time and not before the one before it, with any other
  work in between that does not deny this user a link code.
\<close>

inductive link_history :: "app_env \<Rightarrow> pystr \<Rightarrow> micros \<Rightarrow> app_db \<Rightarrow> bool" for env u where
  start: "denied_texts s u = [] \<Longrightarrow> link_history env u 0 s"
| attempt: "link_history env u m s \<Longrightarrow> m \<le> n \<Longrightarrow> in_range n \<Longrightarrow> in_range (n - 10 * us_minute) \<Longrightarrow>
    consume_private_link env h channel account u (utc n) s = (t, r) \<Longrightarrow> link_history env u n t"
| other: "link_history env u m s \<Longrightarrow> denied_texts t u = denied_texts s u \<Longrightarrow> link_history env u m t"

definition spread :: "micros \<Rightarrow> micros list \<Rightarrow> bool" where
  "spread m xs \<longleftrightarrow> sorted xs \<and> (\<forall>x \<in> set xs. in_range x \<and> x \<le> m) \<and> (\<forall>i. i + 5 < length xs \<longrightarrow> xs ! i + 10 * us_minute < xs ! (i + 5))"

lemma spread_append:
  assumes "spread m xs" "m \<le> n" "in_range n" "length (filter (\<lambda>x. n - 10 * us_minute \<le> x) xs) < 5"
  shows "spread n (xs @ [n])"
proof -
  have s: "sorted xs" "\<forall>x \<in> set xs. in_range x \<and> x \<le> n" using assms(1,2) by (auto simp: spread_def)
  have last: "xs ! (length xs - 5) < n - 10 * us_minute" if "5 \<le> length xs"
  proof (rule ccontr)
    assume "\<not> xs ! (length xs - 5) < n - 10 * us_minute"
    have "n - 10 * us_minute \<le> x" if x: "x \<in> set (drop (length xs - 5) xs)" for x
    proof -
      obtain j where "j < length (drop (length xs - 5) xs)" "x = xs ! (length xs - 5 + j)"
        using x by (auto simp: in_set_conv_nth)
      then have "xs ! (length xs - 5) \<le> x" using sorted_nth_mono[OF s(1), of "length xs - 5" "length xs - 5 + j"] by simp
      then show ?thesis using \<open>\<not> xs ! (length xs - 5) < n - 10 * us_minute\<close> by simp
    qed
    then have "length (filter (\<lambda>x. n - 10 * us_minute \<le> x) (drop (length xs - 5) xs)) = 5"
      using that by (simp add: filter_id_conv)
    moreover have "length (filter (\<lambda>x. n - 10 * us_minute \<le> x) (drop (length xs - 5) xs)) \<le> length (filter (\<lambda>x. n - 10 * us_minute \<le> x) xs)"
      by (metis append_take_drop_id filter_append length_append le_add2)
    ultimately show False using assms(4) by simp
  qed
  have gap: "(xs @ [n]) ! i + 10 * us_minute < (xs @ [n]) ! (i + 5)" if "i + 5 < length (xs @ [n])" for i
  proof (cases "i + 5 < length xs")
    case True
    then show ?thesis using assms(1) by (simp add: spread_def nth_append)
  next
    case False
    then have "i + 5 = length xs" using that by simp
    then show ?thesis using last by (simp add: nth_append) (metis add_diff_cancel_right' le_add2 less_diff_eq)
  qed
  show ?thesis unfolding spread_def using s gap assms(3) by (auto simp: sorted_append)
qed

lemma link_history_spread:
  assumes "link_history env u m s"
  shows "\<exists>xs. denied_texts s u = map isoformat_utc xs \<and> spread m xs"
  using assms
proof (induction rule: link_history.induct)
  case (start s)
  then show ?case by (auto simp: spread_def intro: exI[of _ "[]"])
next
  case (attempt m s n h channel account t r)
  obtain xs where xs: "denied_texts s u = map isoformat_utc xs" "spread m xs" using attempt.IH by blast
  have later: "spread n xs" using xs(2) attempt.hyps(2) by (fastforce simp: spread_def)
  have len: "failed_links s u (time_text (a_tz env) (dt_add (utc n) (- (10 * us_minute))))
      = length (filter (\<lambda>x. n - 10 * us_minute \<le> x) xs)"
  proof -
    have "isoformat_utc (n - 10 * us_minute) \<le> isoformat_utc x \<longleftrightarrow> n - 10 * us_minute \<le> x" if "x \<in> set xs" for x
      using isoformat_utc_le_iff[OF attempt.hyps(4), of x] xs(2) that by (auto simp: spread_def)
    then show ?thesis by (simp add: failed_links_texts xs(1) utc_instants filter_map o_def cong: filter_cong)
  qed
  consider "denied_texts t u = denied_texts s u" | "length (filter (\<lambda>x. n - 10 * us_minute \<le> x) xs) < 5"
      "denied_texts t u = denied_texts s u @ [isoformat_utc n]"
    using consume_private_link_cases[OF attempt.hyps(5), of u] len by (auto simp: utc_instants)
  then show ?case
  proof cases
    case 1
    then show ?thesis using xs(1) later by auto
  next
    case 2
    then show ?thesis using spread_append[OF xs(2) attempt.hyps(2,3) 2(1)] xs(1) by (intro exI[of _ "xs @ [n]"]) simp
  qed
qed auto

lemma filter_prefix_bound:
  assumes "\<forall>y \<in> set (drop n xs). \<not> P y"
  shows "length (filter P xs) \<le> n"
proof -
  have "filter P xs = filter P (take n xs) @ filter P (drop n xs)" by (metis append_take_drop_id filter_append)
  moreover have "filter P (drop n xs) = []" using assms by (simp add: filter_empty_conv)
  ultimately have "length (filter P xs) \<le> length (take n xs)" by (metis append_Nil2 length_filter_le)
  then show ?thesis by simp
qed

lemma spread_window:
  assumes "spread m xs"
  shows "length (filter (\<lambda>x. w \<le> x \<and> x \<le> w + 10 * us_minute) xs) \<le> 5"
  using assms
proof (induction xs)
  case (Cons x xs)
  have gaps: "\<forall>i. i + 5 < length (x # xs) \<longrightarrow> (x # xs) ! i + 10 * us_minute < (x # xs) ! (i + 5)"
    using Cons.prems unfolding spread_def by blast
  have "xs ! i + 10 * us_minute < xs ! (i + 5)" if "i + 5 < length xs" for i
    using gaps[rule_format, of "Suc i"] that by (simp add: add.commute)
  then have tail: "spread m xs" using Cons.prems unfolding spread_def by simp
  show ?case
  proof (cases "w \<le> x \<and> x \<le> w + 10 * us_minute")
    case True
    have "\<not> y \<le> w + 10 * us_minute" if y: "y \<in> set (drop 5 (x # xs))" for y
    proof -
      obtain j where j: "j < length (drop 5 (x # xs))" "y = drop 5 (x # xs) ! j" using y unfolding in_set_conv_nth by auto
      then have "5 + j < length (x # xs)" "y = (x # xs) ! (5 + j)" by auto
      moreover have "(x # xs) ! 0 + 10 * us_minute < (x # xs) ! (0 + 5)"
        using gaps[rule_format, of 0] calculation(1) by simp
      moreover have "(x # xs) ! (0 + 5) \<le> (x # xs) ! (5 + j)"
        using sorted_nth_mono[of "x # xs" "0 + 5" "5 + j"] Cons.prems calculation(1) unfolding spread_def by simp
      ultimately show ?thesis using True by simp
    qed
    then show ?thesis by (intro filter_prefix_bound) blast
  next
    case False
    then show ?thesis using Cons.IH[OF tail] by auto
  qed
qed simp

section \<open>Properties\<close>

text \<open>
  C18. A group activation code works once and for good: when a code is accepted, it was issued by the returned user for this
  channel and account in the returned mode, unused and unexpired; and in every later history of the store,
  with new codes issued and groups switched, the same code is refused at every account and changes nothing.
\<close>

theorem activation_accepted_once:
  assumes "consume_activation env h channel account now s = (t, Inr (Some (u, m)))"
    and "route_later env t w" "aware later"
  shows "(\<exists>r \<in> set (t_activations s). av_hash r = h \<and> av_channel r = channel \<and> av_account r = account \<and> av_user r = u
      \<and> av_mode r = m \<and> av_consumed r = None \<and> time_text (a_tz env) now < av_expires r)
    \<and> consume_activation env h channel' account' later w = (w, Inr None)"
  using consume_activation_Some[OF assms(1)] consume_spent[OF spent_later[OF assms(2)] assms(3)] by blast

text \<open>
  C20. A conversation stays with its owner: once a user owns a route, no history of the store, other users' requests included,
  changes the owner, and every other user's request to switch the conversation is denied and changes nothing.
\<close>

theorem route_owner_stays:
  assumes "owner_of s k = Some v" "route_later env s t" "actor \<noteq> v" "aware now"
  shows "owner_of t k = Some v \<and> set_commands_enabled env w k enabled actor now mode chosen t = (t, Inl PermissionDenied)"
  using owner_later[OF assms(2,1)] switch_foreign assms(3,4) by metis

text \<open>
  C19. Guessing link codes is limited: in every history of a user's link attempts, other work in between, at most five
  attempts are denied in any ten minutes; and when five were denied in the ten minutes before, even a
  valid code is refused and nothing changes.
\<close>

theorem link_guesses_bounded:
  assumes "link_history env u m s" "in_range w" "in_range (w + 10 * us_minute)"
    and "in_range n" "in_range (n - 10 * us_minute)"
  shows "length (filter (\<lambda>x. isoformat_utc w \<le> x \<and> x \<le> isoformat_utc (w + 10 * us_minute)) (denied_texts s u)) \<le> 5
    \<and> (5 \<le> length (filter (\<lambda>x. isoformat_utc (n - 10 * us_minute) \<le> x) (denied_texts s u)) \<longrightarrow>
        consume_private_link env h channel account u (utc n) s = (s, Inr None))"
proof
  obtain xs where xs: "denied_texts s u = map isoformat_utc xs" "spread m xs" using link_history_spread[OF assms(1)] by blast
  have "isoformat_utc w \<le> isoformat_utc x \<and> isoformat_utc x \<le> isoformat_utc (w + 10 * us_minute)
      \<longleftrightarrow> w \<le> x \<and> x \<le> w + 10 * us_minute" if "x \<in> set xs" for x
    using isoformat_utc_le_iff[OF assms(2), of x] isoformat_utc_le_iff[OF _ assms(3), of x] xs(2) that by (auto simp: spread_def)
  then show "length (filter (\<lambda>x. isoformat_utc w \<le> x \<and> x \<le> isoformat_utc (w + 10 * us_minute)) (denied_texts s u)) \<le> 5"
    using spread_window[OF xs(2), of w] by (simp add: xs(1) filter_map o_def cong: filter_cong)
  have "aware (utc n)" by (simp add: aware_def utc_def)
  then show "5 \<le> length (filter (\<lambda>x. isoformat_utc (n - 10 * us_minute) \<le> x) (denied_texts s u)) \<longrightarrow>
      consume_private_link env h channel account u (utc n) s = (s, Inr None)"
    by (intro impI link_limit_reached) (simp_all add: failed_links_texts utc_instants)
qed

text \<open>
  C21. Switching a conversation sets exactly the members: when the switch of a group returns true, an internal group has the
  acting user and the chosen members, each of them an active user, or without a choice the members it had and the acting user;
  a group switched off or made public has no members; every other conversation keeps its members.
\<close>

theorem group_members_exact:
  assumes "set_commands_enabled env w k enabled actor now mode chosen s = (t, Inr True)"
    and "find (\<lambda>r. key_of_route r = k) (t_routes s) = Some r" "rt_kind r = lit ''group''"
  shows "member_set t i = (if i \<noteq> k then member_set s i
      else if enabled \<and> mode \<in> {None, Some GM_INTERNAL}
        then insert actor (case chosen of None \<Rightarrow> member_set s k | Some us \<Rightarrow> set us)
      else {})
    \<and> (enabled \<and> mode \<in> {None, Some GM_INTERNAL} \<longrightarrow>
        (\<forall>u \<in> insert actor (case chosen of None \<Rightarrow> {} | Some us \<Rightarrow> set us). active_user t u))"
proof -
  obtain m shared s1 s3 where f: "target_of w enabled mode chosen (time_text (a_tz env) now) (Some r) s = (s1, Inr (m, shared))"
    "m \<noteq> GM_INTERNAL \<longrightarrow> chosen = None \<or> chosen = Some []"
    "(if m = GM_INTERNAL then write_members k actor chosen (time_text (a_tz env) now)
          else bind (remove_rows members (\<lambda>q. key_of_member q = k)) (\<lambda>_. ret ()))
        (t_routes_update (update_where (\<lambda>r. key_of_route r = k) (set_route enabled actor m shared)) s1) = (s3, Inr ())"
    "\<exists>e. t = add_audit e s3"
    by (rule set_commands_enabled_Inr[OF assms(1) assms(2)[symmetric] refl]) (simp add: assms(3))
  have mode: "m = GM_INTERNAL \<longleftrightarrow> enabled \<and> mode \<in> {None, Some GM_INTERNAL}"
    using f(1) assms(3) by (auto simp: group_target_def Let_def run_Inr split: if_splits option.splits)
  let ?s2 = "t_routes_update (update_where (\<lambda>r. key_of_route r = k) (set_route enabled actor m shared)) s1"
  have same: "member_set ?s2 j = member_set s j" "member_set t j = member_set s3 j" for j
    using target_routes[OF f(1)] f(4) by (auto simp: member_set_def)
  show ?thesis
  proof (cases "m = GM_INTERNAL")
    case True
    then have written: "write_members k actor chosen (time_text (a_tz env) now) ?s2 = (s3, Inr ())" using f(3) by simp
    then have "t_users s3 = t_users ?s2" by (rule keepsD[OF keeps_write_members(2)[OF same_preorder], rotated]) simp
    then have "active_user t u \<longleftrightarrow> active_user ?s2 u" for u using f(4) by (auto simp: active_user_def)
    then show ?thesis using write_members_Inr[OF written] True unfolding same mode by simp
  next
    case False
    then have "s3 = t_members_update (filter (\<lambda>q. key_of_member q \<noteq> k)) ?s2" using f(3) by (simp add: run_Inr members_def)
    then have "member_set s3 i = (if i = k then {} else member_set ?s2 i)" by (auto simp: member_set_def)
    then show ?thesis using False unfolding same mode by auto
  qed
qed

section \<open>Witnesses\<close>

definition code_row :: activation_row where
  "code_row = \<lparr>av_hash = lit ''h'', av_user = lit ''u'', av_channel = lit ''qq'', av_account = lit ''1'', av_mode = GM_INTERNAL,
     av_expires = isoformat_utc us_day, av_consumed = None, av_created = isoformat_utc 0\<rparr>"

definition group_route :: route_row where
  "group_route = \<lparr>rt_channel = lit ''qq'', rt_account = lit ''1'', rt_opaque = lit ''g'', rt_kind = lit ''group'',
     rt_enabled = True, rt_owner = Some (lit ''u''), rt_mode = GM_INTERNAL, rt_shared = Some (lit ''w''), rt_seen = isoformat_utc 0\<rparr>"

abbreviation group_key :: route_key where
  "group_key \<equiv> (lit ''qq'', lit ''1'', lit ''g'')"

definition group_db :: app_db where
  "group_db = sample_app_db\<lparr>t_activations := [code_row], t_routes := [group_route],
     t_users := [\<lparr>us_id = lit ''u'', us_name = lit ''U'', us_status = lit ''active'', us_created = isoformat_utc 0\<rparr>,
       \<lparr>us_id = lit ''v'', us_name = lit ''V'', us_status = lit ''active'', us_created = isoformat_utc 0\<rparr>]\<rparr>"

lemma group_db_tables:
  "t_activations group_db = [code_row]" "t_routes group_db = [group_route]" "t_members group_db = []"
  "known_users (store group_db) = [lit ''u'', lit ''v'']" "denied_texts group_db u = []"
  by (simp_all add: group_db_def sample_app_db_def denied_texts_def)

lemma day_after: "isoformat_utc 0 < isoformat_utc us_day"
  by (subst isoformat_utc_less_iff) (simp_all add: in_range_def)

lemma code_accepted:
  "\<exists>t. consume_activation sample_app_env (lit ''h'') (lit ''qq'') (lit ''1'') (utc 0) group_db = (t, Inr (Some (lit ''u'', GM_INTERNAL)))"
  using day_after by (simp add: consume_activation_def Let_def seq_def bind_def op_run fetch_one_def activations_def change_rows_def
      require_aware_def guarded_def sample_store_simps app_transaction_def atomically_def group_db_tables code_row_def utc_instants
      count_where_def)

theorem activation_accepted_once_witness:
  "\<exists>t. consume_activation sample_app_env (lit ''h'') (lit ''qq'') (lit ''1'') (utc 0) group_db = (t, Inr (Some (lit ''u'', GM_INTERNAL)))
    \<and> consume_activation sample_app_env (lit ''h'') (lit ''qq'') (lit ''1'') (utc us_day) t = (t, Inr None)"
proof -
  obtain t where t: "consume_activation sample_app_env (lit ''h'') (lit ''qq'') (lit ''1'') (utc 0) group_db
      = (t, Inr (Some (lit ''u'', GM_INTERNAL)))" using code_accepted by blast
  show ?thesis
    using activation_accepted_once[OF t, of t "utc us_day"] t by (auto simp: route_later_def sample_store_simps)
qed

theorem route_owner_stays_witness:
  "set_commands_enabled sample_app_env (lit ''w2'') group_key False (lit ''v'') (utc 0) None None group_db = (group_db, Inl PermissionDenied)"
proof -
  have "owner_of group_db group_key = Some (lit ''u'')"
    by (simp add: owner_of_def group_db_tables group_route_def key_of_route_def)
  moreover have "lit ''v'' \<noteq> lit ''u''" by (simp add: lit_def)
  ultimately show ?thesis
    using route_owner_stays[of group_db group_key "lit ''u''" sample_app_env group_db "lit ''v''" "utc 0"]
    by (simp add: route_later_def sample_store_simps)
qed

theorem link_guesses_bounded_witness:
  "length (filter (\<lambda>x. isoformat_utc us_day \<le> x \<and> x \<le> isoformat_utc (us_day + 10 * us_minute))
     (denied_texts (fst (consume_private_link sample_app_env (lit ''h'') (lit ''qq'') (lit ''1'') (lit ''u'') (utc us_day) group_db))
       (lit ''u''))) \<le> 5"
proof -
  obtain t r where run: "consume_private_link sample_app_env (lit ''h'') (lit ''qq'') (lit ''1'') (lit ''u'') (utc us_day) group_db = (t, r)"
    by fastforce
  have "link_history sample_app_env (lit ''u'') us_day t"
    by (rule link_history.attempt[OF link_history.start[OF group_db_tables(5)] _ _ _ run]) (simp_all add: in_range_def)
  then show ?thesis using link_guesses_bounded[of sample_app_env "lit ''u''" us_day t us_day us_day] run by (simp add: in_range_def)
qed

lemma group_switched:
  "\<exists>t. set_commands_enabled sample_app_env (lit ''w2'') group_key True (lit ''u'') (utc 0) None (Some [lit ''v'']) group_db = (t, Inr True)"
proof -
  have names: "sort (remdups [lit ''u'', lit ''v'']) = [lit ''u'', lit ''v'']" "sort (remdups (lit ''u'' # [lit ''v''])) = [lit ''u'', lit ''v'']"
    by code_simp+
  have neq: "lit ''u'' \<noteq> lit ''v''" by (simp add: lit_def)
  have key: "key_of_route group_route = group_key" "rt_kind group_route = lit ''group''" "rt_shared group_route = Some (lit ''w'')"
    "rt_owner group_route = Some (lit ''u'')" by (simp_all add: group_route_def key_of_route_def)
  have target: "group_target (lit ''w2'') True None at group_route s = (s, Inr (GM_INTERNAL, Some (lit ''w'')))" for at s
    by (simp add: group_target_def Let_def key op_run)
  have key2: "key_of_route (set_route True (lit ''u'') m sh group_route) = group_key" for m sh
    by (simp add: set_route_def group_route_def key_of_route_def)
  have written: "\<exists>t. write_members group_key (lit ''u'') (Some [lit ''v'']) at
      (t_routes_update (update_where (\<lambda>r. key_of_route r = group_key) (set_route True (lit ''u'') GM_INTERNAL (Some (lit ''w'')))) group_db)
      = (t, Inr ())" for at
    by (simp add: write_members_def Let_def names seq_def bind_def op_run remove_rows_def members_def fetch_one_def users_def
        ensure_member_def insert_or_ignore_def member_known_def user_exists_def group_db_def sample_app_db_def key_of_member_def
        update_where_def key key2 neq neq[symmetric])
  show ?thesis
    using written[of "time_text (a_tz sample_app_env) (utc 0)"]
    by (auto simp: set_commands_enabled_def Let_def seq_def bind_def op_run find_route_def fetch_one_def routes_def change_rows_def
        require_aware_def guarded_def sample_store_simps app_transaction_def atomically_def group_db_tables key target user_exists_def
        count_where_def list_all_iff)
qed

theorem group_members_exact_witness:
  "\<exists>t. set_commands_enabled sample_app_env (lit ''w2'') group_key True (lit ''u'') (utc 0) None (Some [lit ''v'']) group_db = (t, Inr True)
    \<and> member_set t group_key = {lit ''u'', lit ''v''}"
proof -
  obtain t where t: "set_commands_enabled sample_app_env (lit ''w2'') group_key True (lit ''u'') (utc 0) None (Some [lit ''v'']) group_db
    = (t, Inr True)" using group_switched by blast
  have "find (\<lambda>r. key_of_route r = group_key) (t_routes group_db) = Some group_route"
    by (simp add: group_db_tables group_route_def key_of_route_def)
  then show ?thesis using group_members_exact[OF t, of group_route group_key] t by (auto simp: group_route_def)
qed

end
