(* ===== verification/PlanStore.thy ===== *)
theory PlanStore
  imports StoreSteps
begin

text \<open>
  \<^verbatim>\<open>PendingPlanStore\<close> of \<^verbatim>\<open>src/zhixu/adapters/storage/sqlite/pending_plans.py\<close>: the plans the assistant proposes in a
  conversation, which the user accepts, cancels or asks to revise. The random part of a plan's id is an argument.
\<close>

record stored_plan =
  plan_id :: pystr
  plan_actor :: pystr
  plan_target :: pystr
  plan_action :: pystr
  plan_payload :: pystr
  plan_state :: pystr
  plan_expires :: datetime

definition plans :: "plan_row table" where
  "plans = \<lparr>rows = t_plans, on_rows = t_plans_update\<rparr>"

definition PENDING :: pystr where "PENDING = lit ''pending''"

definition REVISING :: pystr where "REVISING = lit ''revising''"

definition ACCEPTED :: pystr where "ACCEPTED = lit ''accepted''"

text \<open>\<^verbatim>\<open>state IN ('pending','revising')\<close>.\<close>

definition open_plan :: "plan_row \<Rightarrow> bool" where
  "open_plan r \<longleftrightarrow> pp_state r \<in> {PENDING, REVISING}"

definition in_conversation :: "pystr \<Rightarrow> pystr \<Rightarrow> plan_row \<Rightarrow> bool" where
  "in_conversation actor target r \<longleftrightarrow> pp_actor r = actor \<and> pp_target r = target"

definition plan_of_row :: "plan_row \<Rightarrow> stored_plan res" where
  "plan_of_row r = and_then (load_time (pp_expires r)) (\<lambda>expires. Inr \<lparr>plan_id = pp_id r, plan_actor = pp_actor r,
     plan_target = pp_target r, plan_action = pp_action r, plan_payload = pp_payload r, plan_state = pp_state r,
     plan_expires = expires\<rparr>)"

definition read_plan :: "plan_row option \<Rightarrow> stored_plan option app" where
  "read_plan row = (case row of None \<Rightarrow> ret None | Some r \<Rightarrow> bind (of_res (plan_of_row r)) (\<lambda>p. ret (Some p)))"

definition plan_allowed :: "app_db \<Rightarrow> plan_row \<Rightarrow> bool" where
  "plan_allowed s r \<longleftrightarrow> pp_id r \<notin> pp_id ` set (t_plans s) \<and> user_exists s (pp_actor r)
     \<and> pp_state r \<in> {PENDING, REVISING, ACCEPTED}"

definition plan_put :: "app_env \<Rightarrow> pystr \<Rightarrow> pystr \<Rightarrow> pystr \<Rightarrow> pystr \<Rightarrow> pystr \<Rightarrow> datetime \<Rightarrow> micros \<Rightarrow> stored_plan app" where
  "plan_put env new_id actor target act payload now ttl =
     seq (of_res (require_aware now))
    (let expires = dt_add now ttl in
     seq (app_transaction
       (bind (change_rows plans (\<lambda>_. True) (\<lambda>r. in_conversation actor target r \<and> open_plan r) (\<lambda>r. r\<lparr>pp_state := ACCEPTED\<rparr>)) (\<lambda>_.
        insert_row plans plan_allowed \<lparr>pp_id = new_id, pp_actor = actor, pp_target = target, pp_action = act, pp_payload = payload,
          pp_state = PENDING, pp_created = time_text (a_tz env) now, pp_expires = time_text (a_tz env) expires\<rparr>)))
      (ret \<lparr>plan_id = new_id, plan_actor = actor, plan_target = target, plan_action = act, plan_payload = payload,
        plan_state = PENDING, plan_expires = expires\<rparr>))"

definition live_plan :: "pystr \<Rightarrow> pystr \<Rightarrow> pystr \<Rightarrow> plan_row \<Rightarrow> bool" where
  "live_plan actor target now_text r \<longleftrightarrow> in_conversation actor target r \<and> open_plan r \<and> now_text < pp_expires r"

definition plan_get :: "app_env \<Rightarrow> pystr \<Rightarrow> pystr \<Rightarrow> pystr \<Rightarrow> datetime \<Rightarrow> stored_plan option app" where
  "plan_get env i actor target now =
     seq (of_res (require_aware now))
    (bind (fetch_one plans (\<lambda>r. pp_id r = i \<and> live_plan actor target (time_text (a_tz env) now) r)) read_plan)"

text \<open>\<^verbatim>\<open>ORDER BY created_at DESC LIMIT 1\<close>; of rows created at the same time, the last one inserted.\<close>

fun newest :: "plan_row list \<Rightarrow> plan_row option" where
  "newest [] = None"
| "newest (r # rs) = (case newest rs of None \<Rightarrow> Some r | Some q \<Rightarrow> if pp_created q < pp_created r then Some r else Some q)"

definition plan_revising :: "app_env \<Rightarrow> pystr \<Rightarrow> pystr \<Rightarrow> datetime \<Rightarrow> stored_plan option app" where
  "plan_revising env actor target now =
     seq (of_res (require_aware now))
    (bind (reads (\<lambda>s. newest (filter (\<lambda>r. in_conversation actor target r \<and> pp_state r = REVISING
        \<and> time_text (a_tz env) now < pp_expires r) (t_plans s)))) read_plan)"

definition plan_current :: "app_env \<Rightarrow> pystr \<Rightarrow> pystr \<Rightarrow> datetime \<Rightarrow> stored_plan option app" where
  "plan_current env actor target now =
     seq (of_res (require_aware now))
    (bind (reads (\<lambda>s. newest (filter (live_plan actor target (time_text (a_tz env) now)) (t_plans s)))) read_plan)"

definition plan_update_payload :: "app_env \<Rightarrow> pystr \<Rightarrow> pystr \<Rightarrow> pystr \<Rightarrow> pystr \<Rightarrow> datetime \<Rightarrow> stored_plan option app" where
  "plan_update_payload env i actor target payload now =
     seq (of_res (require_aware now))
    (bind (app_transaction
       (bind (change_rows plans (\<lambda>_. True) (\<lambda>r. pp_id r = i \<and> live_plan actor target (time_text (a_tz env) now) r)
           (\<lambda>r. r\<lparr>pp_payload := payload\<rparr>)) (\<lambda>changed.
        if changed = 0 then ret None else fetch_one plans (\<lambda>r. pp_id r = i)))) read_plan)"

definition plan_reject :: "app_env \<Rightarrow> pystr \<Rightarrow> datetime \<Rightarrow> unit app" where
  "plan_reject env i now =
     seq (of_res (require_aware now))
    (app_transaction (bind (change_rows plans (\<lambda>_. True)
        (\<lambda>r. pp_id r = i \<and> pp_state r = PENDING \<and> time_text (a_tz env) now < pp_expires r)
        (\<lambda>r. r\<lparr>pp_state := REVISING\<rparr>)) (\<lambda>_. ret ())))"

definition plan_consume :: "pystr \<Rightarrow> datetime \<Rightarrow> bool app" where
  "plan_consume i now =
     seq (of_res (require_aware now))
    (app_transaction (bind (change_rows plans (\<lambda>_. True) (\<lambda>r. pp_id r = i \<and> open_plan r)
        (\<lambda>r. r\<lparr>pp_state := ACCEPTED\<rparr>)) (\<lambda>changed. ret (changed = 1))))"

section \<open>Histories\<close>

inductive plan_step :: "app_env \<Rightarrow> app_db \<Rightarrow> app_db \<Rightarrow> bool" for env where
  putting: "plan_put env new_id actor target act payload now ttl s = (t, p) \<Longrightarrow> plan_step env s t"
| rewriting: "plan_update_payload env i actor target payload now s = (t, x) \<Longrightarrow> plan_step env s t"
| rejecting: "plan_reject env i now s = (t, r) \<Longrightarrow> plan_step env s t"
| consuming: "plan_consume i now s = (t, b) \<Longrightarrow> plan_step env s t"

definition plan_later :: "app_env \<Rightarrow> app_db \<Rightarrow> app_db \<Rightarrow> bool" where
  "plan_later env = (plan_step env)\<^sup>*\<^sup>*"

text \<open>Ids are unique, and a conversation has at most one open plan.\<close>

definition plans_wf :: "plan_row list \<Rightarrow> bool" where
  "plans_wf rs \<longleftrightarrow> unique_key pp_id rs
     \<and> (\<forall>q \<in> set rs. \<forall>r \<in> set rs. open_plan q \<and> open_plan r \<and> pp_actor q = pp_actor r \<and> pp_target q = pp_target r
          \<longrightarrow> pp_id q = pp_id r)"

definition settled :: "pystr \<Rightarrow> app_db \<Rightarrow> bool" where
  "settled i s \<longleftrightarrow> i \<in> set (map pp_id (t_plans s)) \<and> (\<forall>r \<in> set (t_plans s). pp_id r = i \<longrightarrow> \<not> open_plan r)"

lemma state_distinct: "PENDING \<noteq> ACCEPTED" "REVISING \<noteq> ACCEPTED" "PENDING \<noteq> REVISING"
  by (simp_all add: PENDING_def REVISING_def ACCEPTED_def lit_def)

lemma open_plan_states [simp]:
  "\<not> open_plan (r\<lparr>pp_state := ACCEPTED\<rparr>)" "open_plan (r\<lparr>pp_payload := p\<rparr>) = open_plan r"
  "pp_state r = PENDING \<Longrightarrow> open_plan (r\<lparr>pp_state := REVISING\<rparr>) = open_plan r"
  using state_distinct by (auto simp: open_plan_def)

text \<open>What any write does to the table: some rows close, keep their key and stay closed, and at most one new plan is added.\<close>

definition plan_write :: "plan_row list \<Rightarrow> plan_row list \<Rightarrow> bool" where
  "plan_write rs ts \<longleftrightarrow> (\<exists>f new. ts = map f rs @ new
     \<and> (\<forall>r. pp_id (f r) = pp_id r \<and> pp_actor (f r) = pp_actor r \<and> pp_target (f r) = pp_target r \<and> (open_plan (f r) \<longrightarrow> open_plan r))
     \<and> length new \<le> 1 \<and> (\<forall>n \<in> set new. pp_id n \<notin> pp_id ` set rs
          \<and> (\<forall>r \<in> set rs. pp_actor r = pp_actor n \<and> pp_target r = pp_target n \<longrightarrow> \<not> open_plan (f r))))"

lemma plan_writeE:
  assumes "plan_write rs ts"
  obtains f new where "ts = map f rs @ new" "\<And>r. pp_id (f r) = pp_id r" "\<And>r. pp_actor (f r) = pp_actor r"
    "\<And>r. pp_target (f r) = pp_target r" "\<And>r. open_plan (f r) \<Longrightarrow> open_plan r" "length new \<le> 1"
    "\<And>n. n \<in> set new \<Longrightarrow> pp_id n \<notin> pp_id ` set rs"
    "\<And>n r. n \<in> set new \<Longrightarrow> r \<in> set rs \<Longrightarrow> pp_actor r = pp_actor n \<Longrightarrow> pp_target r = pp_target n \<Longrightarrow> \<not> open_plan (f r)"
proof -
  obtain f new where ts: "ts = map f rs @ new"
    and f: "\<forall>r. pp_id (f r) = pp_id r \<and> pp_actor (f r) = pp_actor r \<and> pp_target (f r) = pp_target r \<and> (open_plan (f r) \<longrightarrow> open_plan r)"
    and new: "length new \<le> 1" "\<forall>n \<in> set new. pp_id n \<notin> pp_id ` set rs
          \<and> (\<forall>r \<in> set rs. pp_actor r = pp_actor n \<and> pp_target r = pp_target n \<longrightarrow> \<not> open_plan (f r))"
    using assms unfolding plan_write_def by (elim exE conjE)
  note fr = f[rule_format]
  show thesis
  proof (rule that[OF ts _ _ _ _ new(1)])
    show "pp_id (f r) = pp_id r" "pp_actor (f r) = pp_actor r" "pp_target (f r) = pp_target r" for r
      using fr[of r] by simp_all
    show "open_plan r" if "open_plan (f r)" for r using fr[of r] that by simp
    show "pp_id n \<notin> pp_id ` set rs" if "n \<in> set new" for n using bspec[OF new(2) that] by simp
    show "\<not> open_plan (f r)" if "n \<in> set new" "r \<in> set rs" "pp_actor r = pp_actor n" "pp_target r = pp_target n" for n r
      using bspec[OF new(2) that(1)] that(2-4) by simp
  qed
qed

lemma plan_write_refl: "plan_write rs rs"
  unfolding plan_write_def by (intro exI[of _ "\<lambda>r. r"] exI[of _ "[]"]) simp

lemma plan_write_update:
  assumes "\<And>r. p r \<Longrightarrow> pp_id (f r) = pp_id r \<and> pp_actor (f r) = pp_actor r \<and> pp_target (f r) = pp_target r
    \<and> (open_plan (f r) \<longrightarrow> open_plan r)"
  shows "plan_write rs (update_where p f rs)"
  unfolding plan_write_def update_where_def using assms
  by (intro exI[of _ "\<lambda>r. if p r then f r else r"] exI[of _ "[]"]) auto

lemma plan_write_wf:
  assumes "plan_write rs ts" "plans_wf rs"
  shows "plans_wf ts"
proof (rule plan_writeE[OF assms(1)], goal_cases)
  case (1 f new)
  note ts = 1(1) and f = 1(2-5) and new = 1(6-8)
  have ids: "map pp_id ts = map pp_id rs @ map pp_id new" using f(1) unfolding ts by simp
  have "distinct (map pp_id new)" using new(1) by (cases new) auto
  moreover have "set (map pp_id rs) \<inter> set (map pp_id new) = {}" by (auto dest!: new(2)) (metis imageI)
  ultimately have "unique_key pp_id ts" using assms(2) unfolding ids plans_wf_def unique_key_def distinct_append by blast
  moreover have "pp_id q = pp_id r" if qr: "q \<in> set ts" "r \<in> set ts" "open_plan q" "open_plan r" "pp_actor q = pp_actor r"
      "pp_target q = pp_target r" for q r
  proof -
    have closed: "\<not> open_plan x" if x: "x \<in> set (map f rs)" and n: "n \<in> set new" "pp_actor x = pp_actor n" "pp_target x = pp_target n" for x n
    proof -
      obtain y where "y \<in> set rs" "x = f y" using x by auto
      then show ?thesis using new(3)[OF n(1), of y] f(2,3) n(2,3) by simp
    qed
    consider "q \<in> set new" "r \<in> set new" | "q \<in> set new" "r \<in> set (map f rs)" | "q \<in> set (map f rs)" "r \<in> set new"
      | a b where "a \<in> set rs" "b \<in> set rs" "q = f a" "r = f b" using qr(1,2) unfolding ts by auto
    then show ?thesis
    proof cases
      case 1
      then show ?thesis using new(1) by (cases new) auto
    next
      case 2
      then show ?thesis using closed[of r q] qr(4-6) by simp
    next
      case 3
      then show ?thesis using closed[of q r] qr(3,5,6) by simp
    next
      case 4
      then have "open_plan a" "open_plan b" "pp_actor a = pp_actor b" "pp_target a = pp_target b"
        using qr(3-6) f by (auto simp: f(2,3))
      then show ?thesis using assms(2) 4(1,2) unfolding 4(3,4) f(1) plans_wf_def by blast
    qed
  qed
  ultimately show ?thesis unfolding plans_wf_def by blast
qed

lemma plan_write_settled:
  assumes "plan_write (t_plans s) (t_plans t)" "settled i s"
  shows "settled i t"
proof (rule plan_writeE[OF assms(1)], goal_cases)
  case (1 f new)
  have i: "i \<in> pp_id ` set (t_plans s)" "\<And>r. r \<in> set (t_plans s) \<Longrightarrow> pp_id r = i \<Longrightarrow> \<not> open_plan r"
    using assms(2) by (auto simp: settled_def)
  have "\<not> open_plan r" if r: "r \<in> set (t_plans t)" "pp_id r = i" for r
  proof (cases "r \<in> set new")
    case True
    then show ?thesis using 1(7)[OF True] r(2) i(1) by simp
  next
    case False
    then obtain q where q: "q \<in> set (t_plans s)" "r = f q" using r(1) unfolding 1(1) by auto
    then show ?thesis using i(2)[of q] 1(5)[of q] r(2) 1(2)[of q] by auto
  qed
  moreover have "i \<in> set (map pp_id (t_plans t))" using i(1) 1(2) unfolding 1(1) by (simp add: image_image)
  ultimately show ?thesis unfolding settled_def by blast
qed

lemma put_write:
  assumes "plan_put env j actor target act payload now ttl s = (t, p)"
  shows "plan_write (t_plans s) (t_plans t)"
proof (cases p)
  case (Inl e)
  then have "t = s" using assms by (auto simp: plan_put_def Let_def seq_Inl app_transaction_Inl op_run)
  then show ?thesis by (simp add: plan_write_refl)
next
  case (Inr q)
  let ?p = "\<lambda>r. in_conversation actor target r \<and> open_plan r"
  let ?close = "\<lambda>r. r\<lparr>pp_state := ACCEPTED\<rparr>"
  obtain n where n: "n = \<lparr>pp_id = j, pp_actor = actor, pp_target = target, pp_action = act, pp_payload = payload,
          pp_state = PENDING, pp_created = time_text (a_tz env) now, pp_expires = time_text (a_tz env) (dt_add now ttl)\<rparr>" by blast
  have t: "t = t_plans_update (\<lambda>rs. rs @ [n]) (t_plans_update (update_where ?p ?close) s)"
      "plan_allowed (t_plans_update (update_where ?p ?close) s) n"
    using assms unfolding Inr plan_put_def Let_def run_Inr plans_def n by (elim exE conjE, simp)+
  have "pp_id n \<notin> set (map pp_id (update_where ?p ?close (t_plans s)))"
    using t(2) unfolding plan_allowed_def by (simp del: map_key_update_where)
  moreover have "map pp_id (update_where ?p ?close (t_plans s)) = map pp_id (t_plans s)" by (rule map_key_update_where) simp
  ultimately have fresh: "pp_id n \<notin> pp_id ` set (t_plans s)" by (metis list.set_map)
  have ts: "t_plans t = map (\<lambda>r. if ?p r then ?close r else r) (t_plans s) @ [n]" by (simp add: t(1) update_where_def)
  show ?thesis
    unfolding plan_write_def ts using fresh
    by (intro exI[of _ "\<lambda>r. if ?p r then ?close r else r"] exI[of _ "[n]"]) (auto simp: in_conversation_def n)
qed

lemma rewrite_write:
  assumes "plan_update_payload env i actor target payload now s = (t, x)"
  shows "plan_write (t_plans s) (t_plans t)"
proof -
  let ?p = "\<lambda>r. pp_id r = i \<and> live_plan actor target (time_text (a_tz env) now) r"
  have "t_plans t = t_plans s \<or> t_plans t = update_where ?p (\<lambda>r. r\<lparr>pp_payload := payload\<rparr>) (t_plans s)"
    using assms
    by (auto simp: plan_update_payload_def seq_def bind_def op_run app_transaction_def atomically_def change_rows_def plans_def
        fetch_one_def read_plan_def list_all_iff split: sum.splits if_splits option.splits)
  then show ?thesis using plan_write_refl plan_write_update[of ?p "\<lambda>r. r\<lparr>pp_payload := payload\<rparr>"] by auto
qed

lemma reject_write:
  assumes "plan_reject env i now s = (t, x)"
  shows "plan_write (t_plans s) (t_plans t)"
proof -
  let ?p = "\<lambda>r. pp_id r = i \<and> pp_state r = PENDING \<and> time_text (a_tz env) now < pp_expires r"
  have "t_plans t = t_plans s \<or> t_plans t = update_where ?p (\<lambda>r. r\<lparr>pp_state := REVISING\<rparr>) (t_plans s)"
    using assms
    by (auto simp: plan_reject_def seq_def bind_def op_run app_transaction_def atomically_def change_rows_def plans_def
        list_all_iff split: sum.splits)
  then show ?thesis using plan_write_refl plan_write_update[of ?p "\<lambda>r. r\<lparr>pp_state := REVISING\<rparr>"] by auto
qed

lemma plan_consume_run:
  "plan_consume i now s = (if \<not> aware now then (s, Inl ValidationError)
     else (t_plans_update (update_where (\<lambda>r. pp_id r = i \<and> open_plan r) (\<lambda>r. r\<lparr>pp_state := ACCEPTED\<rparr>)) s,
       Inr (count_where (\<lambda>r. pp_id r = i \<and> open_plan r) (t_plans s) = 1)))"
  by (simp add: plan_consume_def seq_def bind_def op_run require_aware_def guarded_def app_transaction_def atomically_def
      change_rows_def plans_def list_all_iff)

lemma consume_write: "plan_consume i now s = (t, b) \<Longrightarrow> plan_write (t_plans s) (t_plans t)"
  unfolding plan_consume_run by (auto simp: plan_write_refl intro!: plan_write_update split: if_splits)

lemma plan_step_write: "plan_step env s t \<Longrightarrow> plan_write (t_plans s) (t_plans t)"
  by (induction rule: plan_step.induct) (blast intro: put_write rewrite_write reject_write consume_write)+

lemma plan_later_wf: "plan_later env s t \<Longrightarrow> plans_wf (t_plans s) \<Longrightarrow> plans_wf (t_plans t)"
  unfolding plan_later_def by (erule keeps_later) (auto dest: plan_step_write plan_write_wf)

lemma plan_later_settled: "plan_later env s t \<Longrightarrow> settled i s \<Longrightarrow> settled i t"
  unfolding plan_later_def by (erule keeps_later) (auto dest: plan_step_write plan_write_settled)

lemma consume_settles:
  assumes "plan_consume i now s = (t, Inr True)"
  shows "settled i t"
proof -
  let ?p = "\<lambda>r. pp_id r = i \<and> open_plan r"
  have t: "t_plans t = update_where ?p (\<lambda>r. r\<lparr>pp_state := ACCEPTED\<rparr>) (t_plans s)" "count_where ?p (t_plans s) = 1"
    using assms unfolding plan_consume_run by (auto split: if_splits)
  have "0 < count_where ?p (t_plans s)" using t(2) by simp
  then obtain r where "r \<in> set (t_plans s)" "pp_id r = i" unfolding count_where_pos by blast
  moreover have "map pp_id (t_plans t) = map pp_id (t_plans s)" unfolding t(1) by (rule map_key_update_where) simp
  ultimately have "i \<in> set (map pp_id (t_plans t))" by auto
  moreover have "\<not> open_plan q" if "q \<in> set (t_plans t)" "pp_id q = i" for q
  proof -
    obtain x where "q = (if ?p x then x\<lparr>pp_state := ACCEPTED\<rparr> else x)" using \<open>q \<in> set (t_plans t)\<close> unfolding t(1) set_update_where by blast
    then show ?thesis using \<open>pp_id q = i\<close> by (cases "?p x") simp_all
  qed
  ultimately show ?thesis unfolding settled_def by blast
qed

lemma settled_refused:
  assumes "settled i s" "aware now"
  shows "plan_consume i now s = (s, Inr False)" "plan_get env i actor target now s = (s, Inr None)"
proof -
  have none: "\<not> (pp_id r = i \<and> open_plan r)" if "r \<in> set (t_plans s)" for r using assms(1) that by (auto simp: settled_def)
  then have "update_where (\<lambda>r. pp_id r = i \<and> open_plan r) (\<lambda>r. r\<lparr>pp_state := ACCEPTED\<rparr>) (t_plans s) = t_plans s"
    unfolding update_where_def by (intro map_idI) auto
  moreover have "count_where (\<lambda>r. pp_id r = i \<and> open_plan r) (t_plans s) = 0" using none by (auto simp: count_where_zero)
  ultimately show "plan_consume i now s = (s, Inr False)" using assms(2) unfolding plan_consume_run by (cases s) simp
  have "find (\<lambda>r. pp_id r = i \<and> live_plan actor target (time_text (a_tz env) now) r) (t_plans s) = None"
    using none by (auto simp: find_None_iff live_plan_def)
  then show "plan_get env i actor target now s = (s, Inr None)" using assms(2)
    by (simp add: plan_get_def seq_def bind_def op_run fetch_one_def plans_def read_plan_def require_aware_def guarded_def)
qed

lemma newest_None [simp]: "newest rs = None \<longleftrightarrow> rs = []"
  by (induction rs) (auto split: option.splits)

lemma newest_in: "newest rs = Some r \<Longrightarrow> r \<in> set rs"
  by (induction rs) (auto split: option.splits if_splits)

section \<open>Properties\<close>

text \<open>
  A plan is carried out at most once: when consuming a plan succeeds, then in every later history of the store, new
  plans, revisions and rewrites included, consuming it again fails and the plan is never shown again.
\<close>

lemma plan_accepted_once:
  assumes "plan_consume i now s = (t, Inr True)" "plan_later env t w" "aware later"
  shows "plan_consume i later w = (w, Inr False) \<and> plan_get env i actor target later w = (w, Inr None)"
  using settled_refused[OF plan_later_settled[OF assms(2) consume_settles[OF assms(1)]] assms(3)] by blast

text \<open>
  C22. A conversation has one plan at a time: in every history that starts without plans, the plan a conversation currently
  shows is exactly the one open plan of that user there that has not expired, and reading it by its id gives the same plan.
\<close>

theorem one_plan_per_conversation:
  assumes "plan_later env s t" "t_plans s = []" "aware now"
    and "r \<in> set (t_plans t)" "live_plan actor target (time_text (a_tz env) now) r"
  shows "plan_current env actor target now t = plan_get env (pp_id r) actor target now t
    \<and> plan_current env actor target now t = read_plan (Some r) t
    \<and> filter (\<lambda>q. in_conversation actor target q \<and> open_plan q) (t_plans t) = [r]"
proof -
  have "plans_wf (t_plans s)" by (simp add: assms(2) plans_wf_def unique_key_def)
  then have wf: "plans_wf (t_plans t)" by (rule plan_later_wf[OF assms(1)])
  let ?live = "live_plan actor target (time_text (a_tz env) now)"
  have r: "in_conversation actor target r" "open_plan r" using assms(5) by (auto simp: live_plan_def)
  have only: "q = r" if "q \<in> set (t_plans t)" "in_conversation actor target q" "open_plan q" for q
  proof -
    have "pp_actor q = pp_actor r" "pp_target q = pp_target r" using that(2) r(1) by (simp_all add: in_conversation_def)
    then have "pp_id q = pp_id r" using wf that(1,3) assms(4) r(2) unfolding plans_wf_def by blast
    then show ?thesis using wf that(1) assms(4) unique_key_eq[of pp_id "t_plans t" q r] by (simp add: plans_wf_def)
  qed
  have "distinct (t_plans t)" using wf by (auto simp: plans_wf_def unique_key_def distinct_map)
  then have single: "filter (\<lambda>q. in_conversation actor target q \<and> open_plan q) (t_plans t) = [r]"
    using r by (intro filter_single[OF _ assms(4)] only) simp_all
  obtain c where c: "newest (filter ?live (t_plans t)) = Some c"
  proof -
    have "newest (filter ?live (t_plans t)) \<noteq> None" unfolding newest_None using assms(4,5) by (simp add: filter_empty_conv) blast
    then show thesis using that by blast
  qed
  have "c = r" using newest_in[OF c] only[of c] by (simp add: live_plan_def)
  obtain g where g: "find (\<lambda>q. pp_id q = pp_id r \<and> ?live q) (t_plans t) = Some g"
  proof -
    have "find (\<lambda>q. pp_id q = pp_id r \<and> ?live q) (t_plans t) \<noteq> None" unfolding find_None_iff using assms(4,5) by blast
    then show thesis using that by blast
  qed
  have "g \<in> set (t_plans t)" "?live g" using g by (auto simp: find_Some_iff)
  then have "g = r" using only[of g] by (simp add: live_plan_def)
  show ?thesis using single c g \<open>c = r\<close> \<open>g = r\<close> assms(3)
    by (simp add: plan_current_def plan_get_def seq_def bind_def op_run fetch_one_def plans_def require_aware_def guarded_def)
qed

section \<open>Witnesses\<close>

definition planned_db :: app_db where
  "planned_db = sample_app_db\<lparr>t_plans := [\<lparr>pp_id = lit ''plan_1'', pp_actor = lit ''u'', pp_target = lit ''c'', pp_action = lit ''a'',
     pp_payload = [], pp_state = PENDING, pp_created = isoformat_utc 0, pp_expires = isoformat_utc us_day\<rparr>]\<rparr>"

abbreviation the_plan :: plan_row where
  "the_plan \<equiv> \<lparr>pp_id = lit ''plan_1'', pp_actor = lit ''u'', pp_target = lit ''c'', pp_action = lit ''a'', pp_payload = [],
     pp_state = PENDING, pp_created = isoformat_utc 0, pp_expires = isoformat_utc us_day\<rparr>"

lemma planned_once: "\<exists>t. plan_consume (lit ''plan_1'') (utc 0) planned_db = (t, Inr True)"
  unfolding plan_consume_run by (simp add: sample_store_simps planned_db_def count_where_def open_plan_def)

lemma plan_accepted_once_example:
  "\<exists>t. plan_consume (lit ''plan_1'') (utc 0) planned_db = (t, Inr True) \<and> plan_consume (lit ''plan_1'') (utc 0) t = (t, Inr False)"
proof -
  obtain t where t: "plan_consume (lit ''plan_1'') (utc 0) planned_db = (t, Inr True)" using planned_once by blast
  have "plan_later sample_app_env t t" by (simp add: plan_later_def)
  then show ?thesis using plan_accepted_once[OF t, of sample_app_env t "utc 0"] t by (auto simp: sample_store_simps)
qed

lemma day_later: "isoformat_utc 0 < isoformat_utc us_day"
  by (subst isoformat_utc_less_iff) (simp_all add: in_range_def)

lemma first_plan:
  "plan_put sample_app_env (lit ''plan_1'') (lit ''u'') (lit ''c'') (lit ''a'') [] (utc 0) us_day sample_app_db
     = (planned_db, Inr \<lparr>plan_id = lit ''plan_1'', plan_actor = lit ''u'', plan_target = lit ''c'', plan_action = lit ''a'',
        plan_payload = [], plan_state = PENDING, plan_expires = dt_add (utc 0) us_day\<rparr>)"
  by (simp add: plan_put_def Let_def seq_def bind_def op_run require_aware_def guarded_def sample_store_simps app_transaction_def
      atomically_def change_rows_def plans_def list_all_iff insert_row_def plan_allowed_def utc_instants planned_db_def
      update_where_def sample_app_db_def user_exists_def)

theorem one_plan_per_conversation_witness:
  "plan_current sample_app_env (lit ''u'') (lit ''c'') (utc 0) planned_db
     = plan_get sample_app_env (lit ''plan_1'') (lit ''u'') (lit ''c'') (utc 0) planned_db"
proof -
  have "plan_later sample_app_env sample_app_db planned_db"
    unfolding plan_later_def by (rule r_into_rtranclp, rule plan_step.putting, rule first_plan)
  moreover have "the_plan \<in> set (t_plans planned_db)" by (simp add: planned_db_def)
  moreover have "live_plan (lit ''u'') (lit ''c'') (time_text (a_tz sample_app_env) (utc 0)) the_plan"
    using day_later by (simp add: live_plan_def in_conversation_def open_plan_def utc_instants)
  ultimately show ?thesis
    using one_plan_per_conversation[of sample_app_env sample_app_db planned_db "utc 0" the_plan "lit ''u''" "lit ''c''"]
    by (simp add: sample_app_db_def sample_store_simps)
qed

end
