(* ===== verification/UsageStore.thy ===== *)
theory UsageStore
  imports StoreSteps
begin

text \<open>
  \<^verbatim>\<open>SQLiteLLMUsage\<close> of \<^verbatim>\<open>src/zhixu/adapters/storage/sqlite/llm_usage.py\<close> and the budget limit of
  \<^verbatim>\<open>src/zhixu/ports/llm.py\<close>: what each user has spent on a model by day and month, and the log of the calls. The
  clock's readings are arguments.
\<close>

record llm_budget_limit =
  lim_kind :: pystr
  lim_calls :: int
  lim_input :: int
  lim_output :: int

definition DAY :: pystr where "DAY = lit ''day''"

definition MONTH :: pystr where "MONTH = lit ''month''"

definition new_llm_budget_limit :: "llm_budget_limit \<Rightarrow> llm_budget_limit res" where
  "new_llm_budget_limit l = guarded [(lim_kind l \<notin> {DAY, MONTH}, ValueErr),
     (min (min (lim_calls l) (lim_input l)) (lim_output l) < 1, ValueErr)] l"

datatype llm_call_reason = SCHEDULE_PARSE | DETERMINISTIC_PARSER_MISS | NOTE_SUMMARY_REQUESTED | GENERAL_QUESTION

fun call_reason_value :: "llm_call_reason \<Rightarrow> pystr" where
  "call_reason_value SCHEDULE_PARSE = lit ''schedule_parse''"
| "call_reason_value DETERMINISTIC_PARSER_MISS = lit ''deterministic_parser_miss''"
| "call_reason_value NOTE_SUMMARY_REQUESTED = lit ''note_summary_requested''"
| "call_reason_value GENERAL_QUESTION = lit ''general_question''"

section \<open>Tables\<close>

definition usage :: "usage_row table" where
  "usage = \<lparr>rows = t_usage, on_rows = t_usage_update\<rparr>"

definition calls :: "call_row table" where
  "calls = \<lparr>rows = t_calls, on_rows = t_calls_update\<rparr>"

text \<open>The key of a usage row: owner, model, kind and start of the window.\<close>

type_synonym usage_key = "pystr \<times> pystr \<times> pystr \<times> pystr"

definition key_of_usage :: "usage_row \<Rightarrow> usage_key" where
  "key_of_usage r = (lu_owner r, lu_model r, lu_kind r, lu_start r)"

text \<open>\<^verbatim>\<open>_window_start\<close>: midnight of the UTC day, or of the first day of its month.\<close>

definition window_start :: "tzdb \<Rightarrow> datetime \<Rightarrow> pystr \<Rightarrow> pystr res" where
  "window_start db now kind = (let current = astimezone db now TzUTC; d = wall_date current in
     if kind = DAY then Inr (time_text db (combine d 0 False (Some TzUTC)))
     else if kind = MONTH then Inr (time_text db (combine (d\<lparr>day := 1\<rparr>) 0 False (Some TzUTC)))
     else Inl ValueErr)"

section \<open>Reserving a call\<close>

text \<open>Calls, input and output units a row holds; a missing row holds none.\<close>

definition usage_of :: "app_db \<Rightarrow> usage_key \<Rightarrow> int \<times> int \<times> int" where
  "usage_of s k = (case find (\<lambda>r. key_of_usage r = k) (t_usage s) of None \<Rightarrow> (0, 0, 0)
     | Some r \<Rightarrow> (lu_calls r, lu_input r, lu_output r))"

definition over_budget :: "int \<Rightarrow> llm_budget_limit \<Rightarrow> int \<times> int \<times> int \<Rightarrow> bool" where
  "over_budget est l u = (case u of (c, i, ou) \<Rightarrow> c + 1 > lim_calls l \<or> i + est > lim_input l \<or> ou \<ge> lim_output l)"

text \<open>The first loop: the windows' keys, or nothing when a limit leaves no room.\<close>

fun budget_windows :: "tzdb \<Rightarrow> datetime \<Rightarrow> pystr \<Rightarrow> pystr \<Rightarrow> int \<Rightarrow> llm_budget_limit list \<Rightarrow> usage_key list option app" where
  "budget_windows db now owner model est [] = ret (Some [])"
| "budget_windows db now owner model est (l # ls) =
     bind (of_res (window_start db now (lim_kind l))) (\<lambda>start.
     bind (reads (\<lambda>s. usage_of s (owner, model, lim_kind l, start))) (\<lambda>u.
       if over_budget est l u then ret None
       else bind (budget_windows db now owner model est ls) (\<lambda>ks.
         ret (map_option (\<lambda>ks. (owner, model, lim_kind l, start) # ks) ks))))"

text \<open>\<^verbatim>\<open>INSERT \<dots> ON CONFLICT DO UPDATE\<close>: the window's calls and input units grow.\<close>

definition count_call :: "int \<Rightarrow> usage_key \<Rightarrow> unit app" where
  "count_call est k = (case k of (owner, model, kind, start) \<Rightarrow>
     bind (fetch_one usage (\<lambda>r. key_of_usage r = k)) (\<lambda>row.
       if row = None
       then insert_row usage (\<lambda>s r. user_exists s (lu_owner r))
              \<lparr>lu_owner = owner, lu_model = model, lu_kind = kind, lu_start = start, lu_calls = 1, lu_input = est, lu_output = 0\<rparr>
       else bind (change_rows usage (\<lambda>_. True) (\<lambda>r. key_of_usage r = k)
              (\<lambda>r. r\<lparr>lu_calls := lu_calls r + 1, lu_input := lu_input r + est\<rparr>)) (\<lambda>_. ret ())))"

definition next_call_id :: "app_db \<Rightarrow> nat" where
  "next_call_id s = Suc (foldr max (map lc_id (t_calls s)) 0)"

definition call_allowed :: "app_db \<Rightarrow> call_row \<Rightarrow> bool" where
  "call_allowed s r \<longleftrightarrow> user_exists s (lc_owner r) \<and> 0 \<le> lc_estimated r"

definition CALL_RESERVED :: pystr where "CALL_RESERVED = lit ''reserved''"

definition llm_reserve :: "app_env \<Rightarrow> datetime \<Rightarrow> pystr \<Rightarrow> pystr \<Rightarrow> llm_call_reason \<Rightarrow> int \<Rightarrow> llm_budget_limit list \<Rightarrow> nat option app" where
  "llm_reserve env now owner model reason est limits =
     app_transaction (bind (budget_windows (a_tz env) now owner model est limits) (\<lambda>ks. case ks of
       None \<Rightarrow> ret None
     | Some ks \<Rightarrow> seq (each (count_call est) ks)
        (bind (reads next_call_id) (\<lambda>i.
         seq (insert_row calls call_allowed \<lparr>lc_id = i, lc_at = time_text (a_tz env) now, lc_owner = owner, lc_model = model,
             lc_reason = call_reason_value reason, lc_outcome = CALL_RESERVED, lc_estimated = est, lc_input = 0, lc_output = 0,
             lc_cached = 0\<rparr>)
           (ret (Some i))))))"

section \<open>Recording the result\<close>

definition CALL_COMPLETED :: pystr where "CALL_COMPLETED = lit ''completed''"

definition CALL_FAILED :: pystr where "CALL_FAILED = lit ''failed''"

definition charge_output :: "app_env \<Rightarrow> datetime \<Rightarrow> pystr \<Rightarrow> pystr \<Rightarrow> int \<Rightarrow> pystr \<Rightarrow> unit app" where
  "charge_output env now owner model units kind =
     bind (of_res (window_start (a_tz env) now kind)) (\<lambda>start.
     bind (change_rows usage (\<lambda>_. True) (\<lambda>r. key_of_usage r = (owner, model, kind, start))
         (\<lambda>r. r\<lparr>lu_output := lu_output r + units\<rparr>)) (\<lambda>_. ret ()))"

definition record_result :: "app_env \<Rightarrow> datetime \<Rightarrow> nat \<Rightarrow> pystr \<Rightarrow> pystr \<Rightarrow> pystr \<Rightarrow> int \<Rightarrow> int \<Rightarrow> int \<Rightarrow> unit app" where
  "record_result env now call_id owner model outcome input_units output_units cached_input_units =
     seq (check (outcome \<notin> {CALL_COMPLETED, CALL_FAILED}) ValueErr)
    (let recorded_output = (if outcome = CALL_COMPLETED then max 0 output_units else 0);
         recorded_input = (if outcome = CALL_COMPLETED then max 0 input_units else 0);
         recorded_cached = (if outcome = CALL_COMPLETED then min recorded_input (max 0 cached_input_units) else 0)
     in app_transaction
      (seq (if outcome = CALL_COMPLETED then each (charge_output env now owner model recorded_output) [DAY, MONTH] else ret ())
      (bind (change_rows calls (\<lambda>_. True)
          (\<lambda>r. lc_id r = call_id \<and> lc_owner r = owner \<and> lc_model r = model \<and> lc_outcome r = CALL_RESERVED)
          (\<lambda>r. r\<lparr>lc_outcome := outcome, lc_input := recorded_input, lc_output := recorded_output, lc_cached := recorded_cached\<rparr>))
        (\<lambda>changed. check (changed \<noteq> 1) RuntimeErr))))"

section \<open>How each part runs\<close>

lemma window_start_Inr: "(\<exists>x. window_start db now kind = Inr x) \<longleftrightarrow> kind \<in> {DAY, MONTH}"
  by (auto simp: window_start_def Let_def)

lemma day_month [simp]: "DAY \<noteq> MONTH"
  by (simp add: DAY_def MONTH_def lit_def)

definition limit_key :: "tzdb \<Rightarrow> datetime \<Rightarrow> pystr \<Rightarrow> pystr \<Rightarrow> llm_budget_limit \<Rightarrow> usage_key" where
  "limit_key db now owner model l = (owner, model, lim_kind l,
     case window_start db now (lim_kind l) of Inl e \<Rightarrow> [] | Inr x \<Rightarrow> x)"

lemma budget_windows_run:
  assumes "\<forall>l \<in> set ls. lim_kind l \<in> {DAY, MONTH}"
  shows "budget_windows db now owner model est ls s = (s, Inr
     (if \<exists>l \<in> set ls. over_budget est l (usage_of s (limit_key db now owner model l)) then None
      else Some (map (limit_key db now owner model) ls)))"
  using assms
proof (induction ls)
  case (Cons l ls)
  obtain start where "window_start db now (lim_kind l) = Inr start" using Cons.prems window_start_Inr[of db now "lim_kind l"] by auto
  then have k: "limit_key db now owner model l = (owner, model, lim_kind l, start)"
    and w: "window_start db now (lim_kind l) = Inr start" by (simp_all add: limit_key_def)
  show ?case using Cons by (simp add: w k bind_def op_run)
qed (simp add: op_run)

lemma usage_of_simps [simp]:
  "usage_of (t_calls_update f s) k = usage_of s k" "usage_of (add_audit e s) k = usage_of s k"
  by (simp_all add: usage_of_def)

lemma usage_of_inserted:
  assumes "find (\<lambda>r. key_of_usage r = k) (t_usage s) = None" "key_of_usage n = k"
  shows "usage_of (t_usage_update (\<lambda>rs. rs @ [n]) s) = (usage_of s)(k := (lu_calls n, lu_input n, lu_output n))"
proof
  fix j
  show "usage_of (t_usage_update (\<lambda>rs. rs @ [n]) s) j = ((usage_of s)(k := (lu_calls n, lu_input n, lu_output n))) j"
    using assms by (cases "j = k") (simp_all add: usage_of_def find_appended split: option.split)
qed

lemma usage_of_changed:
  assumes "\<And>r. key_of_usage (f r) = key_of_usage r"
  shows "usage_of (t_usage_update (update_where (\<lambda>r. key_of_usage r = k) f) s) j
    = (case find (\<lambda>r. key_of_usage r = j) (t_usage s) of None \<Rightarrow> (0, 0, 0)
       | Some r \<Rightarrow> if j = k then (lu_calls (f r), lu_input (f r), lu_output (f r)) else usage_of s j)"
proof -
  have "find (\<lambda>r. key_of_usage r = j) (update_where (\<lambda>r. key_of_usage r = k) f (t_usage s))
      = map_option (\<lambda>r. if key_of_usage r = k then f r else r) (find (\<lambda>r. key_of_usage r = j) (t_usage s))"
    by (rule find_updated) (simp add: assms)
  moreover have "find (\<lambda>r. key_of_usage r = j) (t_usage s) = Some r \<Longrightarrow> key_of_usage r = j" for r
    by (auto simp: find_Some_iff)
  ultimately show ?thesis by (auto simp: usage_of_def split: option.split)
qed

lemma count_call_run:
  assumes "user_exists s (fst k)"
  shows "\<exists>t. count_call est k s = (t, Inr ()) \<and> t_calls t = t_calls s \<and> store t = store s
    \<and> usage_of t = (usage_of s)(k := (case usage_of s k of (c, i, ou) \<Rightarrow> (c + 1, i + est, ou)))"
proof -
  obtain owner model kind start where k: "k = (owner, model, kind, start)" by (cases k) auto
  obtain row where row: "find (\<lambda>r. key_of_usage r = k) (t_usage s) = row" by blast
  show ?thesis
  proof (cases row)
    case None
    let ?n = "\<lparr>lu_owner = owner, lu_model = model, lu_kind = kind, lu_start = start, lu_calls = 1, lu_input = est, lu_output = 0\<rparr>"
    have run: "count_call est k s = (t_usage_update (\<lambda>rs. rs @ [?n]) s, Inr ())"
      using row assms unfolding None
      by (simp add: count_call_def k bind_def op_run fetch_one_def usage_def insert_row_def)
    have "usage_of s k = (0, 0, 0)" using row unfolding None by (simp add: usage_of_def)
    moreover have "usage_of (t_usage_update (\<lambda>rs. rs @ [?n]) s) = (usage_of s)(k := (1, est, 0))"
      using usage_of_inserted[OF row[unfolded None], of ?n] by (simp add: key_of_usage_def k)
    ultimately show ?thesis using run by simp
  next
    case (Some r)
    let ?f = "\<lambda>r. r\<lparr>lu_calls := lu_calls r + 1, lu_input := lu_input r + est\<rparr>"
    let ?t = "t_usage_update (update_where (\<lambda>r. key_of_usage r = k) ?f) s"
    have run: "count_call est k s = (?t, Inr ())"
      using row unfolding Some
      by (simp add: count_call_def k bind_def op_run fetch_one_def usage_def change_rows_def list_all_iff)
    have f: "key_of_usage (?f q) = key_of_usage q" for q by (simp add: key_of_usage_def)
    have uk: "usage_of s k = (lu_calls r, lu_input r, lu_output r)" using row unfolding Some by (simp add: usage_of_def)
    have "usage_of ?t j = ((usage_of s)(k := (lu_calls r + 1, lu_input r + est, lu_output r))) j" for j
    proof (cases "j = k")
      case True
      then show ?thesis using row unfolding usage_of_changed[of ?f k s j, OF f] Some by simp
    next
      case False
      then show ?thesis unfolding usage_of_changed[of ?f k s j, OF f] by (simp add: usage_of_def split: option.split)
    qed
    then have "usage_of ?t = (usage_of s)(k := (lu_calls r + 1, lu_input r + est, lu_output r))" by blast
    then show ?thesis using run uk by (intro exI[of _ ?t]) simp
  qed
qed

definition bump :: "int \<Rightarrow> int \<times> int \<times> int \<Rightarrow> int \<times> int \<times> int" where
  "bump est u = (case u of (c, i, ou) \<Rightarrow> (c + 1, i + est, ou))"

lemma each_count_run:
  assumes "\<forall>k \<in> set ks. user_exists s (fst k)" "distinct ks"
  shows "\<exists>t. each (count_call est) ks s = (t, Inr ()) \<and> t_calls t = t_calls s \<and> store t = store s
    \<and> (\<forall>j. usage_of t j = (if j \<in> set ks then bump est (usage_of s j) else usage_of s j))"
  using assms
proof (induction ks arbitrary: s)
  case (Cons k ks)
  obtain u where u: "count_call est k s = (u, Inr ())" "t_calls u = t_calls s" "store u = store s"
    "usage_of u = (usage_of s)(k := bump est (usage_of s k))"
    using count_call_run[of s k est] Cons.prems(1) by (auto simp: bump_def)
  have "\<forall>k \<in> set ks. user_exists u (fst k)" using Cons.prems(1) u(3) by (simp add: user_exists_def)
  then obtain t where t: "each (count_call est) ks u = (t, Inr ())" "t_calls t = t_calls u" "store t = store u"
    "\<forall>j. usage_of t j = (if j \<in> set ks then bump est (usage_of u j) else usage_of u j)"
    using Cons.IH[of u] Cons.prems(2) by auto
  show ?case
    using u t Cons.prems(2) by (intro exI[of _ t]) (simp add: seq_def bind_def)
qed (simp add: op_run)

text \<open>A reservation that is granted; every other outcome leaves the database as it was.\<close>

definition granted :: "app_env \<Rightarrow> datetime \<Rightarrow> pystr \<Rightarrow> pystr \<Rightarrow> llm_call_reason \<Rightarrow> int \<Rightarrow> llm_budget_limit list \<Rightarrow> app_db \<Rightarrow> app_db \<Rightarrow> bool" where
  "granted env now owner model reason est limits s t \<longleftrightarrow>
     (\<forall>l \<in> set limits. \<not> over_budget est l (usage_of s (limit_key (a_tz env) now owner model l)))
   \<and> (\<forall>j. usage_of t j = (if j \<in> limit_key (a_tz env) now owner model ` set limits then bump est (usage_of s j) else usage_of s j))
   \<and> t_calls t = t_calls s @ [\<lparr>lc_id = next_call_id s, lc_at = time_text (a_tz env) now, lc_owner = owner, lc_model = model,
       lc_reason = call_reason_value reason, lc_outcome = CALL_RESERVED, lc_estimated = est, lc_input = 0, lc_output = 0, lc_cached = 0\<rparr>]
   \<and> store t = store s"

definition good_limits :: "llm_budget_limit list \<Rightarrow> bool" where
  "good_limits ls \<longleftrightarrow> distinct (map lim_kind ls) \<and> (\<forall>l \<in> set ls. lim_kind l \<in> {DAY, MONTH})"

lemma limit_keys_distinct: "distinct (map lim_kind ls) \<Longrightarrow> distinct (map (limit_key db now owner model) ls)"
  by (auto simp: distinct_map inj_on_def limit_key_def)

lemma llm_reserve_known:
  assumes "good_limits limits" "user_exists s owner" "0 \<le> est"
  shows "if \<exists>l \<in> set limits. over_budget est l (usage_of s (limit_key (a_tz env) now owner model l))
    then llm_reserve env now owner model reason est limits s = (s, Inr None)
    else \<exists>t. llm_reserve env now owner model reason est limits s = (t, Inr (Some (next_call_id s)))
      \<and> granted env now owner model reason est limits s t"
proof (cases "\<exists>l \<in> set limits. over_budget est l (usage_of s (limit_key (a_tz env) now owner model l))")
  case True
  have "\<forall>l \<in> set limits. lim_kind l \<in> {DAY, MONTH}" using assms(1) by (simp add: good_limits_def)
  note run = budget_windows_run[OF this, of "a_tz env" now owner model est s]
  show ?thesis using True unfolding llm_reserve_def app_transaction_def atomically_def bind_def run by (simp add: op_run)
next
  case False
  have kinds: "\<forall>l \<in> set limits. lim_kind l \<in> {DAY, MONTH}" using assms(1) by (simp add: good_limits_def)
  let ?ks = "map (limit_key (a_tz env) now owner model) limits"
  have run: "budget_windows (a_tz env) now owner model est limits s = (s, Inr (Some ?ks))"
    unfolding budget_windows_run[OF kinds] using False by simp
  have "\<forall>k \<in> set ?ks. user_exists s (fst k)" using assms(2) by (auto simp: limit_key_def)
  moreover have "distinct ?ks" using assms(1) limit_keys_distinct by (auto simp: good_limits_def)
  ultimately obtain u where u: "each (count_call est) ?ks s = (u, Inr ())" "t_calls u = t_calls s" "store u = store s"
    "\<forall>j. usage_of u j = (if j \<in> set ?ks then bump est (usage_of s j) else usage_of s j)"
    using each_count_run by blast
  let ?n = "\<lparr>lc_id = next_call_id s, lc_at = time_text (a_tz env) now, lc_owner = owner, lc_model = model,
       lc_reason = call_reason_value reason, lc_outcome = CALL_RESERVED, lc_estimated = est, lc_input = 0, lc_output = 0, lc_cached = 0\<rparr>"
  let ?t = "t_calls_update (\<lambda>rs. rs @ [?n]) u"
  have "next_call_id u = next_call_id s" using u(2) by (simp add: next_call_id_def)
  moreover have "user_exists u owner" using assms(2) u(3) by (simp add: user_exists_def)
  ultimately have "llm_reserve env now owner model reason est limits s = (?t, Inr (Some (next_call_id s)))"
    unfolding llm_reserve_def app_transaction_def atomically_def bind_def run
    using u(1) assms(3) by (simp add: op_run seq_def bind_def insert_row_def calls_def call_allowed_def)
  moreover have "granted env now owner model reason est limits s ?t"
    using False u by (auto simp: granted_def)
  ultimately show ?thesis using False by auto
qed

lemma keeps_count_call [keeping]: "keeps (same store) (count_call est k)"
  unfolding count_call_def by (auto intro!: keeping simp: usage_def split: prod.split)

lemma llm_reserve_unknown:
  assumes "good_limits limits" "\<not> (user_exists s owner \<and> 0 \<le> est)" "llm_reserve env now owner model reason est limits s = (t, r)"
  shows "t = s \<and> (\<forall>i. r \<noteq> Inr (Some i))"
proof (cases r)
  case (Inl e)
  then show ?thesis using assms(3) by (auto simp: llm_reserve_def app_transaction_Inl)
next
  case (Inr x)
  have kinds: "\<forall>l \<in> set limits. lim_kind l \<in> {DAY, MONTH}" using assms(1) by (simp add: good_limits_def)
  show ?thesis
  proof (cases x)
    case None
    then show ?thesis using assms(3) Inr
      unfolding llm_reserve_def app_transaction_Inr bind_Inr budget_windows_run[OF kinds]
      by (auto simp: run_Inr split: option.splits if_splits)
  next
    case (Some i)
    obtain ks u n where c: "each (count_call est) ks s = (u, Inr ())" "call_allowed u n" "lc_owner n = owner" "lc_estimated n = est"
      using assms(3) Inr Some
      unfolding llm_reserve_def app_transaction_Inr bind_Inr budget_windows_run[OF kinds]
      by (auto simp: run_Inr calls_def split: option.splits if_splits)
    have "keeps (same store) (each (count_call est) ks)"
      by (rule keeps_each[OF same_preorder]) (rule keeps_count_call)
    from keepsD[OF this c(1)] have "store u = store s" .
    then have "user_exists s owner \<and> 0 \<le> est" using c(2-4) by (simp add: call_allowed_def user_exists_def)
    then show ?thesis using assms(2) by blast
  qed
qed

lemma llm_reserve_cases:
  assumes "llm_reserve env now owner model reason est limits s = (t, r)" "good_limits limits"
  shows "t = s \<and> (\<forall>i. r \<noteq> Inr (Some i))
    \<or> r = Inr (Some (next_call_id s)) \<and> granted env now owner model reason est limits s t"
proof (cases "user_exists s owner \<and> 0 \<le> est")
  case True
  then show ?thesis using llm_reserve_known[OF assms(2), of s owner est env now model reason] assms(1) by (auto split: if_splits)
next
  case False
  then show ?thesis using llm_reserve_unknown[OF assms(2) False assms(1)] by blast
qed

section \<open>Recording runs\<close>

definition charge :: "int \<Rightarrow> int \<times> int \<times> int \<Rightarrow> int \<times> int \<times> int" where
  "charge units u = (case u of (c, i, ou) \<Rightarrow> (c, i, ou + units))"

definition charged :: "app_env \<Rightarrow> datetime \<Rightarrow> pystr \<Rightarrow> pystr \<Rightarrow> pystr \<Rightarrow> usage_key" where
  "charged env now owner model kind = (owner, model, kind, case window_start (a_tz env) now kind of Inl e \<Rightarrow> [] | Inr x \<Rightarrow> x)"

definition has_usage :: "app_db \<Rightarrow> usage_key \<Rightarrow> bool" where
  "has_usage s k \<longleftrightarrow> find (\<lambda>r. key_of_usage r = k) (t_usage s) \<noteq> None"

lemma charge_output_run:
  assumes "kind \<in> {DAY, MONTH}"
  shows "\<exists>t. charge_output env now owner model units kind s = (t, Inr ()) \<and> t_calls t = t_calls s \<and> store t = store s
    \<and> (\<forall>j. has_usage t j = has_usage s j)
    \<and> (\<forall>j. usage_of t j = (if j = charged env now owner model kind \<and> has_usage s j then charge units (usage_of s j) else usage_of s j))"
proof -
  obtain start where start: "window_start (a_tz env) now kind = Inr start" using window_start_Inr[of "a_tz env" now kind] assms by blast
  let ?k = "charged env now owner model kind"
  have k: "?k = (owner, model, kind, start)" by (simp add: charged_def start)
  let ?f = "\<lambda>r. r\<lparr>lu_output := lu_output r + units\<rparr>"
  let ?t = "t_usage_update (update_where (\<lambda>r. key_of_usage r = ?k) ?f) s"
  have f: "key_of_usage (?f q) = key_of_usage q" for q by (simp add: key_of_usage_def)
  have run: "charge_output env now owner model units kind s = (?t, Inr ())"
    by (simp add: charge_output_def start op_simps bind_def op_run change_rows_def usage_def list_all_iff k)
  have "has_usage ?t j = has_usage s j" for j
    using find_updated[of "\<lambda>r. key_of_usage r = j" ?f "\<lambda>r. key_of_usage r = ?k" "t_usage s"] by (simp add: f has_usage_def)
  moreover have "usage_of ?t j = (if j = ?k \<and> has_usage s j then charge units (usage_of s j) else usage_of s j)" for j
    unfolding usage_of_changed[of ?f ?k s j, OF f] by (simp add: usage_of_def has_usage_def charge_def split: option.split)
  ultimately show ?thesis using run by (intro exI[of _ ?t]) simp
qed

text \<open>The event of a call, when it is still open: there is exactly one.\<close>

definition open_call :: "nat \<Rightarrow> pystr \<Rightarrow> pystr \<Rightarrow> call_row \<Rightarrow> bool" where
  "open_call i owner model r \<longleftrightarrow> lc_id r = i \<and> lc_owner r = owner \<and> lc_model r = model \<and> lc_outcome r = CALL_RESERVED"

definition closed_as :: "pystr \<Rightarrow> int \<Rightarrow> int \<Rightarrow> int \<Rightarrow> call_row \<Rightarrow> call_row" where
  "closed_as outcome i ou c r = r\<lparr>lc_outcome := outcome, lc_input := i, lc_output := ou, lc_cached := c\<rparr>"

lemma outcome_distinct [simp]:
  "CALL_COMPLETED \<noteq> CALL_FAILED" "CALL_FAILED \<noteq> CALL_COMPLETED" "CALL_RESERVED \<noteq> CALL_FAILED" "CALL_RESERVED \<noteq> CALL_COMPLETED"
  "CALL_FAILED \<noteq> CALL_RESERVED" "CALL_COMPLETED \<noteq> CALL_RESERVED"
  by (simp_all add: CALL_COMPLETED_def CALL_FAILED_def CALL_RESERVED_def lit_def)

lemma record_failed_run:
  "record_result env now i owner model CALL_FAILED a b c s = (if count_where (open_call i owner model) (t_calls s) = 1
     then (t_calls_update (update_where (open_call i owner model) (closed_as CALL_FAILED 0 0 0)) s, Inr ()) else (s, Inl RuntimeErr))"
proof -
  have o: "(\<lambda>r. lc_id r = i \<and> lc_owner r = owner \<and> lc_model r = model \<and> lc_outcome r = CALL_RESERVED) = open_call i owner model"
    and c: "(\<lambda>r. r\<lparr>lc_outcome := CALL_FAILED, lc_input := 0, lc_output := 0, lc_cached := 0\<rparr>) = closed_as CALL_FAILED 0 0 0"
    by (simp_all add: open_call_def closed_as_def fun_eq_iff)
  show ?thesis
    unfolding record_result_def Let_def o
    by (simp add: c seq_def bind_def op_run app_transaction_def atomically_def change_rows_def calls_def list_all_iff)
qed

lemma record_completed_run:
  assumes "count_where (open_call i owner model) (t_calls s) = 1"
  shows "\<exists>t. record_result env now i owner model CALL_COMPLETED a b c s = (t, Inr ()) \<and> store t = store s
    \<and> t_calls t = update_where (open_call i owner model) (closed_as CALL_COMPLETED (max 0 a) (max 0 b) (min (max 0 a) (max 0 c))) (t_calls s)
    \<and> (\<forall>j. usage_of t j = (if j \<in> {charged env now owner model DAY, charged env now owner model MONTH} \<and> has_usage s j
          then charge (max 0 b) (usage_of s j) else usage_of s j))"
proof -
  obtain u where u: "charge_output env now owner model (max 0 b) DAY s = (u, Inr ())" "t_calls u = t_calls s" "store u = store s"
    "\<forall>j. has_usage u j = has_usage s j"
    "\<forall>j. usage_of u j = (if j = charged env now owner model DAY \<and> has_usage s j then charge (max 0 b) (usage_of s j) else usage_of s j)"
    using charge_output_run[of DAY env now owner model "max 0 b" s] by blast
  obtain v where v: "charge_output env now owner model (max 0 b) MONTH u = (v, Inr ())" "t_calls v = t_calls u" "store v = store u"
    "\<forall>j. usage_of v j = (if j = charged env now owner model MONTH \<and> has_usage u j then charge (max 0 b) (usage_of u j) else usage_of u j)"
    using charge_output_run[of MONTH env now owner model "max 0 b" u] by blast
  have o: "(\<lambda>r. lc_id r = i \<and> lc_owner r = owner \<and> lc_model r = model \<and> lc_outcome r = CALL_RESERVED) = open_call i owner model"
    and f: "(\<lambda>r. r\<lparr>lc_outcome := CALL_COMPLETED, lc_input := x, lc_output := y, lc_cached := z\<rparr>) = closed_as CALL_COMPLETED x y z" for x y z
    by (simp_all add: open_call_def closed_as_def fun_eq_iff)
  let ?t = "t_calls_update (update_where (open_call i owner model)
      (closed_as CALL_COMPLETED (max 0 a) (max 0 b) (min (max 0 a) (max 0 c)))) v"
  have "record_result env now i owner model CALL_COMPLETED a b c s = (?t, Inr ())"
    unfolding record_result_def Let_def o
    using u(1,2) v(1,2) assms
    by (simp add: f seq_def bind_def op_run app_transaction_def atomically_def change_rows_def calls_def list_all_iff)
  moreover have "usage_of ?t j = (if j \<in> {charged env now owner model DAY, charged env now owner model MONTH} \<and> has_usage s j
          then charge (max 0 b) (usage_of s j) else usage_of s j)" for j
  proof -
    have "charged env now owner model DAY \<noteq> charged env now owner model MONTH" by (simp add: charged_def)
    then show ?thesis using spec[OF u(5), of j] spec[OF v(4), of j] spec[OF u(4), of j]
      by (cases "j = charged env now owner model DAY"; cases "j = charged env now owner model MONTH") simp_all
  qed
  ultimately show ?thesis using u(2,3) v(2,3) by (intro exI[of _ ?t]) simp
qed

section \<open>Histories\<close>

text \<open>Reservations under the configured limits and results, in any order, for any users, models and times.\<close>

inductive usage_step :: "app_env \<Rightarrow> llm_budget_limit list \<Rightarrow> app_db \<Rightarrow> app_db \<Rightarrow> bool" for env limits where
  reserving: "0 \<le> est \<Longrightarrow> llm_reserve env now owner model reason est limits s = (t, r) \<Longrightarrow> usage_step env limits s t"
| recording: "record_result env now i owner model outcome a b c s = (t, x) \<Longrightarrow> usage_step env limits s t"

definition usage_later :: "app_env \<Rightarrow> llm_budget_limit list \<Rightarrow> app_db \<Rightarrow> app_db \<Rightarrow> bool" where
  "usage_later env limits = (usage_step env limits)\<^sup>*\<^sup>*"

definition within_budget :: "llm_budget_limit list \<Rightarrow> app_db \<Rightarrow> bool" where
  "within_budget limits s \<longleftrightarrow> (\<forall>k :: usage_key. \<forall>l \<in> set limits. fst (snd (snd k)) = lim_kind l \<longrightarrow>
     fst (usage_of s k) \<le> lim_calls l \<and> fst (snd (usage_of s k)) \<le> lim_input l)"

lemma granted_within:
  assumes "granted env now owner model reason est limits s t" "within_budget limits s" "good_limits limits"
  shows "within_budget limits t"
  unfolding within_budget_def
proof (intro allI ballI impI)
  fix k :: usage_key and l
  assume l: "l \<in> set limits" "fst (snd (snd k)) = lim_kind l"
  let ?key = "limit_key (a_tz env) now owner model"
  have ut: "usage_of t k = (if k \<in> ?key ` set limits then bump est (usage_of s k) else usage_of s k)"
    using assms(1) unfolding granted_def by blast
  show "fst (usage_of t k) \<le> lim_calls l \<and> fst (snd (usage_of t k)) \<le> lim_input l"
  proof (cases "k \<in> ?key ` set limits")
    case True
    then obtain l' where l': "l' \<in> set limits" "k = ?key l'" by blast
    then have "lim_kind l' = lim_kind l" using l(2) by (simp add: limit_key_def)
    then have "l' = l" using assms(3) l(1) l'(1) by (auto simp: good_limits_def distinct_map dest: inj_onD)
    then have "\<not> over_budget est l (usage_of s k)" using assms(1) l' unfolding granted_def by blast
    then show ?thesis using ut True by (cases "usage_of s k") (simp add: over_budget_def bump_def)
  next
    case False
    then have "usage_of t k = usage_of s k" using ut by simp
    then show ?thesis using assms(2)[unfolded within_budget_def, rule_format, OF l] by simp
  qed
qed

definition consumed :: "usage_key \<Rightarrow> app_db \<Rightarrow> int \<times> int" where
  "consumed k s = (fst (usage_of s k), fst (snd (usage_of s k)))"

lemma consumed_calls: "consumed k (on_rows calls g s) = consumed k s" "consumed k (t_calls_update g s) = consumed k s"
  by (simp_all add: consumed_def calls_def)

lemma record_keeps_spent:
  assumes "record_result env now i owner model outcome a b c s = (t, x)"
  shows "fst (usage_of t k) = fst (usage_of s k) \<and> fst (snd (usage_of t k)) = fst (snd (usage_of s k))"
proof -
  let ?R = "same (consumed k)"
  have out: "keeps ?R (change_rows usage (\<lambda>_. True) (\<lambda>r. key_of_usage r = j) (\<lambda>r. r\<lparr>lu_output := lu_output r + n\<rparr>))" for j n
  proof -
    have f: "key_of_usage (q\<lparr>lu_output := lu_output q + n\<rparr>) = key_of_usage q" for q by (simp add: key_of_usage_def)
    show ?thesis
      unfolding keeps_def change_rows_def usage_def
      using usage_of_changed[of "\<lambda>r. r\<lparr>lu_output := lu_output r + n\<rparr>" j _ k, OF f]
      by (auto simp: list_all_iff consumed_def usage_of_def split: option.split)
  qed
  have charging: "keeps ?R (charge_output env now owner model n kind)" for n kind
    unfolding charge_output_def by (auto intro!: keeping out)
  have "keeps ?R (record_result env now i owner model outcome a b c)"
    unfolding record_result_def Let_def by (auto intro!: keeping charging simp: calls_def consumed_calls)
  from keepsD[OF this assms] show ?thesis by (simp add: consumed_def)
qed

lemma usage_step_within:
  assumes "usage_step env limits s t" "good_limits limits" "within_budget limits s"
  shows "within_budget limits t"
  using assms(1)
proof cases
  case (reserving est now owner model reason r)
  then show ?thesis using llm_reserve_cases[OF reserving(2) assms(2)] granted_within assms(2,3) by blast
next
  case (recording now i owner model outcome a b c x)
  then show ?thesis using record_keeps_spent[OF recording] assms(3) unfolding within_budget_def by simp
qed

lemma usage_later_within:
  "usage_later env limits s t \<Longrightarrow> good_limits limits \<Longrightarrow> within_budget limits s \<Longrightarrow> within_budget limits t"
  unfolding usage_later_def by (erule keeps_later) (auto intro: usage_step_within)

section \<open>Properties\<close>


text \<open>
  The output of a call that ends on a new day is charged to no day: when a result is recorded on a day for which the user
  has no usage row yet, as for a call reserved just before midnight, the call is closed with its output units but no
  day's usage changes, neither of the day that reserved the call nor of the new one.
\<close>

lemma late_result_uncharged:
  assumes "count_where (open_call i owner model) (t_calls s) = 1" "\<not> has_usage s (charged env now owner model DAY)"
  shows "\<exists>t. record_result env now i owner model CALL_COMPLETED a b c s = (t, Inr ())
    \<and> (\<forall>u m start. usage_of t (u, m, DAY, start) = usage_of s (u, m, DAY, start))
    \<and> (\<exists>r \<in> set (t_calls t). lc_id r = i \<and> lc_outcome r = CALL_COMPLETED \<and> lc_output r = max 0 b)"
proof -
  obtain t where t: "record_result env now i owner model CALL_COMPLETED a b c s = (t, Inr ())"
    "t_calls t = update_where (open_call i owner model) (closed_as CALL_COMPLETED (max 0 a) (max 0 b) (min (max 0 a) (max 0 c))) (t_calls s)"
    "\<forall>j. usage_of t j = (if j \<in> {charged env now owner model DAY, charged env now owner model MONTH} \<and> has_usage s j
          then charge (max 0 b) (usage_of s j) else usage_of s j)"
    using record_completed_run[OF assms(1), of env now a b c] by blast
  have "usage_of t (u, m, DAY, start) = usage_of s (u, m, DAY, start)" for u m start
    using spec[OF t(3), of "(u, m, DAY, start)"] assms(2) by (cases "(u, m, DAY, start) = charged env now owner model DAY")
      (auto simp: charged_def)
  moreover have "0 < count_where (open_call i owner model) (t_calls s)" using assms(1) by simp
  then obtain r where "r \<in> set (t_calls s)" "open_call i owner model r" unfolding count_where_pos by blast
  then have "\<exists>r \<in> set (t_calls t). lc_id r = i \<and> lc_outcome r = CALL_COMPLETED \<and> lc_output r = max 0 b"
    unfolding t(2) set_update_where
    by (intro bexI[of _ "closed_as CALL_COMPLETED (max 0 a) (max 0 b) (min (max 0 a) (max 0 c)) r"])
       (auto simp: closed_as_def open_call_def)
  ultimately show ?thesis using t(1) by blast
qed

section \<open>Witnesses\<close>

definition daily_limit :: llm_budget_limit where
  "daily_limit = \<lparr>lim_kind = DAY, lim_calls = 1, lim_input = 10, lim_output = 10\<rparr>"

definition open_call_db :: app_db where
  "open_call_db = sample_app_db\<lparr>t_calls := [\<lparr>lc_id = 1, lc_at = isoformat_utc 0, lc_owner = lit ''u'', lc_model = lit ''m'',
     lc_reason = lit ''general_question'', lc_outcome = CALL_RESERVED, lc_estimated = 1, lc_input = 0, lc_output = 0, lc_cached = 0\<rparr>]\<rparr>"


lemma late_result_uncharged_example:
  "\<exists>t. record_result sample_app_env (utc us_day) 1 (lit ''u'') (lit ''m'') CALL_COMPLETED 3 7 0 open_call_db = (t, Inr ())
    \<and> usage_of t (lit ''u'', lit ''m'', DAY, isoformat_utc us_day) = usage_of open_call_db (lit ''u'', lit ''m'', DAY, isoformat_utc us_day)"
proof -
  have "\<not> has_usage open_call_db k" for k by (simp add: has_usage_def open_call_db_def sample_app_db_def)
  moreover have "count_where (open_call 1 (lit ''u'') (lit ''m'')) (t_calls open_call_db) = 1"
    by (simp add: count_where_def open_call_db_def open_call_def)
  ultimately show ?thesis
    using late_result_uncharged[of 1 "lit ''u''" "lit ''m''" open_call_db sample_app_env "utc us_day" 3 7 0] by blast
qed

end
