(* ===== verification/LLMGateway.thy ===== *)
theory LLMGateway
  imports UsageStore
begin

text \<open>
  \<^verbatim>\<open>LLMGateway\<close> of \<^verbatim>\<open>src/zhixu/application/llm.py\<close>: the only way to the language model, past the egress policy, the
  circuit breaker and the usage budget. The model behind the client is an argument, what it answers to a
  request; \<open>gw_sent\<close> collects the requests handed to it. The clock is read three times in a call.
\<close>

record llm_request =
  rq_model :: pystr
  rq_system_prompt :: pystr
  rq_user_prompt :: pystr
  rq_schema :: "json option"
  rq_web_search :: bool

record llm_response =
  rs_content :: pystr
  rs_input :: int
  rs_output :: int
  rs_cached :: int

record llm_client =
  cl_provider :: pystr
  cl_local :: bool
  cl_answer :: "llm_request \<Rightarrow> llm_response res"

record llm_gateway =
  gw_client :: llm_client
  gw_egress :: llm_egress_policy
  gw_limits :: "llm_budget_limit list"
  gw_timeout :: int
  gw_threshold :: int
  gw_recovery :: int

text \<open>The checks of the constructor, for timeouts of whole seconds.\<close>

definition new_llm_gateway :: "llm_gateway \<Rightarrow> llm_gateway res" where
  "new_llm_gateway g = guarded
     [(gw_timeout g \<le> 0 \<or> gw_threshold g < 1 \<or> gw_recovery g < 1, ValueErr), (gw_limits g = [], ValueErr)] g"

text \<open>The database, the circuit's state, and the requests handed to the client.\<close>

record gateway_state =
  gw_db :: app_db
  gw_failures :: int
  gw_open_until :: "datetime option"
  gw_sent :: "llm_request list"

type_synonym 'a gateway_op = "(gateway_state, 'a) op"

definition gateway_db :: "'a app \<Rightarrow> 'a gateway_op" where
  "gateway_db m g = (case m (gw_db g) of (d, r) \<Rightarrow> (g\<lparr>gw_db := d\<rparr>, r))"

definition model_ref :: "llm_client \<Rightarrow> llm_request \<Rightarrow> pystr" where
  "model_ref c q = cl_provider c @ lit '':'' @ rq_model q"

definition estimated_input :: "llm_request \<Rightarrow> int" where
  "estimated_input q = max 1 ((int (length (rq_system_prompt q)) + int (length (rq_user_prompt q)) + 3) div 4)"

text \<open>The circuit is open while now is before the end of the pause.\<close>

definition circuit_open :: "tzdb \<Rightarrow> datetime \<Rightarrow> gateway_state \<Rightarrow> bool" where
  "circuit_open db now g \<longleftrightarrow> (case gw_open_until g of None \<Rightarrow> False | Some t \<Rightarrow> dt_less db now t)"

definition count_failure :: "llm_gateway \<Rightarrow> datetime \<Rightarrow> gateway_state \<Rightarrow> gateway_state" where
  "count_failure gw now g = (let n = gw_failures g + 1 in
     g\<lparr>gw_failures := n, gw_open_until := (if n \<ge> gw_threshold gw then Some (dt_add now (gw_recovery gw * us_second)) else gw_open_until g)\<rparr>)"

definition hand_over :: "app_env \<Rightarrow> llm_gateway \<Rightarrow> datetime \<Rightarrow> datetime \<Rightarrow> pystr \<Rightarrow> llm_request \<Rightarrow> nat \<Rightarrow> llm_response gateway_op" where
  "hand_over env gw now later owner q call_id =
     seq (writes (\<lambda>g. g\<lparr>gw_sent := gw_sent g @ [q]\<rparr>))
     (case cl_answer (gw_client gw) q of
       Inl e \<Rightarrow> seq (gateway_db (record_result env later call_id owner (model_ref (gw_client gw) q) CALL_FAILED 0 0 0))
               (seq (writes (count_failure gw now)) (throw LLMUnavailable))
     | Inr x \<Rightarrow> seq (writes (\<lambda>g. g\<lparr>gw_failures := 0, gw_open_until := None\<rparr>))
               (seq (gateway_db (record_result env later call_id owner (model_ref (gw_client gw) q) CALL_COMPLETED
                   (rs_input x) (rs_output x) (rs_cached x)))
                 (ret x)))"

definition llm_generate :: "app_env \<Rightarrow> llm_gateway \<Rightarrow> datetime \<Rightarrow> datetime \<Rightarrow> datetime \<Rightarrow> pystr \<Rightarrow> llm_request \<Rightarrow> data_classification
    \<Rightarrow> llm_call_reason \<Rightarrow> llm_response gateway_op" where
  "llm_generate env gw now reserved_at later owner q c reason =
     seq (of_res (egress_require (gw_egress gw) c (cl_local (gw_client gw))))
    (bind (reads (circuit_open (a_tz env) now)) (\<lambda>opened.
     seq (check opened LLMUnavailable)
    (bind (gateway_db (llm_reserve env reserved_at owner (model_ref (gw_client gw) q) reason (estimated_input q) (gw_limits gw)))
       (\<lambda>call. case call of None \<Rightarrow> throw LLMBudgetExceeded
         | Some i \<Rightarrow> hand_over env gw now later owner q i))))"

section \<open>Lemmas\<close>

lemma gateway_db_run: "m (gw_db g) = (d, r) \<Longrightarrow> gateway_db m g = (g\<lparr>gw_db := d\<rparr>, r)"
  by (simp add: gateway_db_def)

lemma count_failure_db [simp]: "gw_db (count_failure gw now g) = gw_db g" "gw_sent (count_failure gw now g) = gw_sent g"
  by (simp_all add: count_failure_def Let_def)

lemma below_next_id: "r \<in> set (t_calls s) \<Longrightarrow> lc_id r < next_call_id s"
proof -
  have "x \<in> set xs \<Longrightarrow> x \<le> foldr max xs (0::nat)" for x xs by (induction xs) auto
  then show "r \<in> set (t_calls s) \<Longrightarrow> lc_id r < next_call_id s" by (force simp: next_call_id_def less_Suc_eq_le)
qed

text \<open>The event of a granted call is the only open one with its id.\<close>

lemma granted_open:
  assumes "granted env now owner model reason est limits s t"
  shows "count_where (open_call (next_call_id s) owner model) (t_calls t) = 1"
    and "update_where (open_call (next_call_id s) owner model) f (t_calls t) = t_calls s @ [f (last (t_calls t))]"
    and "open_call (next_call_id s) owner model (last (t_calls t))"
proof -
  obtain n where n: "t_calls t = t_calls s @ [n]" "open_call (next_call_id s) owner model n"
    using assms by (auto simp: granted_def open_call_def)
  have old: "\<not> open_call (next_call_id s) owner model r" if "r \<in> set (t_calls s)" for r
    using below_next_id[OF that] by (auto simp: open_call_def)
  then have "count_where (open_call (next_call_id s) owner model) (t_calls s) = 0" by (auto simp: count_where_zero)
  then show "count_where (open_call (next_call_id s) owner model) (t_calls t) = 1"
    using n by (simp add: count_where_def)
  have "map (\<lambda>r. if open_call (next_call_id s) owner model r then f r else r) (t_calls s) = t_calls s"
    by (rule map_idI) (simp add: old)
  then show "update_where (open_call (next_call_id s) owner model) f (t_calls t) = t_calls s @ [f (last (t_calls t))]"
    using n by (simp add: update_where_def)
  show "open_call (next_call_id s) owner model (last (t_calls t))" using n by simp
qed

text \<open>A request that is handed over is answered or reported, and its event is closed.\<close>

definition closed_call :: "llm_client \<Rightarrow> llm_request \<Rightarrow> call_row \<Rightarrow> bool" where
  "closed_call c q r \<longleftrightarrow> lc_outcome r = (case cl_answer c q of Inl e \<Rightarrow> CALL_FAILED | Inr x \<Rightarrow> CALL_COMPLETED)
     \<and> lc_output r = (case cl_answer c q of Inl e \<Rightarrow> 0 | Inr x \<Rightarrow> max 0 (rs_output x))"

definition answer_of :: "llm_client \<Rightarrow> llm_request \<Rightarrow> llm_response res" where
  "answer_of c q = (case cl_answer c q of Inl e \<Rightarrow> Inl LLMUnavailable | Inr x \<Rightarrow> Inr x)"

lemma hand_over_run:
  assumes "granted env t0 owner (model_ref (gw_client gw) q) reason est limits s (gw_db g)"
  shows "\<exists>h r. hand_over env gw now later owner q (next_call_id s) g = (h, answer_of (gw_client gw) q)
    \<and> gw_sent h = gw_sent g @ [q] \<and> t_calls (gw_db h) = t_calls s @ [r] \<and> closed_call (gw_client gw) q r
    \<and> (is_ok (cl_answer (gw_client gw) q) \<longrightarrow> gw_failures h = 0 \<and> gw_open_until h = None)
    \<and> (\<not> is_ok (cl_answer (gw_client gw) q) \<longrightarrow> gw_failures h = gw_failures g + 1
        \<and> (gw_threshold gw \<le> gw_failures h \<longrightarrow> gw_open_until h = Some (dt_add now (gw_recovery gw * us_second))))"
proof -
  let ?m = "model_ref (gw_client gw) q" and ?i = "next_call_id s"
  note o = granted_open[OF assms]
  show ?thesis
  proof (cases "cl_answer (gw_client gw) q")
    case (Inl e)
    let ?g = "g\<lparr>gw_sent := gw_sent g @ [q]\<rparr>"
    let ?d = "t_calls_update (update_where (open_call ?i owner ?m) (closed_as CALL_FAILED 0 0 0)) (gw_db g)"
    have "gateway_db (record_result env later ?i owner ?m CALL_FAILED 0 0 0) ?g = (?g\<lparr>gw_db := ?d\<rparr>, Inr ())"
      by (rule gateway_db_run) (simp add: record_failed_run o(1))
    then have "hand_over env gw now later owner q ?i g = (count_failure gw now (?g\<lparr>gw_db := ?d\<rparr>), Inl LLMUnavailable)"
      by (simp add: hand_over_def Inl seq_def bind_def op_run)
    moreover have "t_calls ?d = t_calls s @ [closed_as CALL_FAILED 0 0 0 (last (t_calls (gw_db g)))]" using o(2) by simp
    ultimately show ?thesis
      by (intro exI[of _ "count_failure gw now (?g\<lparr>gw_db := ?d\<rparr>)"] exI[of _ "closed_as CALL_FAILED 0 0 0 (last (t_calls (gw_db g)))"])
         (simp add: answer_of_def Inl closed_call_def closed_as_def count_failure_def Let_def)
  next
    case (Inr x)
    let ?f = "closed_as CALL_COMPLETED (max 0 (rs_input x)) (max 0 (rs_output x)) (min (max 0 (rs_input x)) (max 0 (rs_cached x)))"
    let ?g = "g\<lparr>gw_sent := gw_sent g @ [q], gw_failures := 0, gw_open_until := None\<rparr>"
    obtain d where d: "record_result env later ?i owner ?m CALL_COMPLETED (rs_input x) (rs_output x) (rs_cached x) (gw_db g) = (d, Inr ())"
      "t_calls d = update_where (open_call ?i owner ?m) ?f (t_calls (gw_db g))"
      using record_completed_run[OF o(1)] by blast
    have "gateway_db (record_result env later ?i owner ?m CALL_COMPLETED (rs_input x) (rs_output x) (rs_cached x)) ?g = (?g\<lparr>gw_db := d\<rparr>, Inr ())"
      by (rule gateway_db_run) (simp add: d(1))
    then have "hand_over env gw now later owner q ?i g = (?g\<lparr>gw_db := d\<rparr>, Inr x)"
      by (simp add: hand_over_def Inr seq_def bind_def op_run)
    moreover have "t_calls d = t_calls s @ [?f (last (t_calls (gw_db g)))]" unfolding d(2) o(2) ..
    ultimately show ?thesis
      by (intro exI[of _ "?g\<lparr>gw_db := d\<rparr>"] exI[of _ "?f (last (t_calls (gw_db g)))"])
         (simp add: answer_of_def Inr closed_call_def closed_as_def)
  qed
qed

lemma llm_generate_refused:
  assumes "egress_require (gw_egress gw) c (cl_local (gw_client gw)) \<noteq> Inr () \<or> circuit_open (a_tz env) now g"
  shows "\<exists>e. llm_generate env gw now t1 t2 owner q c reason g = (g, Inl e)"
  using assms by (cases "egress_require (gw_egress gw) c (cl_local (gw_client gw))")
    (auto simp: llm_generate_def seq_def bind_def op_run)

section \<open>Properties\<close>

text \<open>
  C15. Nothing reaches the language model past the gateway's guards: a request is handed to the client only if the egress policy
  accepts its classification, the circuit is closed and every budget limit has room; then exactly one event is
  logged and closed with the outcome, the caller gets the answer or LLMUnavailable, and reaching the
  failure threshold opens the circuit for the recovery time. Otherwise nothing is handed over and the database is untouched.
\<close>

theorem llm_prompt_guarded:
  assumes "llm_generate env gw now t1 t2 owner q c reason g = (h, r)" "good_limits (gw_limits gw)"
  shows "gw_sent h = gw_sent g \<and> gw_db h = gw_db g \<and> gw_failures h = gw_failures g \<and> (\<exists>e. r = Inl e)
    \<or> gw_sent h = gw_sent g @ [q] \<and> egress_require (gw_egress gw) c (cl_local (gw_client gw)) = Inr ()
      \<and> \<not> circuit_open (a_tz env) now g
      \<and> (\<forall>l \<in> set (gw_limits gw). \<not> over_budget (estimated_input q) l
          (usage_of (gw_db g) (limit_key (a_tz env) t1 owner (model_ref (gw_client gw) q) l)))
      \<and> r = answer_of (gw_client gw) q
      \<and> (\<exists>x. t_calls (gw_db h) = t_calls (gw_db g) @ [x] \<and> closed_call (gw_client gw) q x)
      \<and> (\<not> is_ok (cl_answer (gw_client gw) q) \<and> gw_threshold gw \<le> gw_failures g + 1 \<longrightarrow>
          (\<forall>at. dt_less (a_tz env) at (dt_add now (gw_recovery gw * us_second)) \<longrightarrow> circuit_open (a_tz env) at h))"
proof (cases "egress_require (gw_egress gw) c (cl_local (gw_client gw)) \<noteq> Inr () \<or> circuit_open (a_tz env) now g")
  case True
  then show ?thesis using llm_generate_refused[OF True, of t1 t2 owner q reason] assms(1) by auto
next
  case False
  let ?m = "model_ref (gw_client gw) q"
  obtain d x where res: "llm_reserve env t1 owner ?m reason (estimated_input q) (gw_limits gw) (gw_db g) = (d, x)" by fastforce
  have db: "gateway_db (llm_reserve env t1 owner ?m reason (estimated_input q) (gw_limits gw)) g = (g\<lparr>gw_db := d\<rparr>, x)"
    by (rule gateway_db_run) (rule res)
  have run: "llm_generate env gw now t1 t2 owner q c reason g = (case x of Inl e \<Rightarrow> (g\<lparr>gw_db := d\<rparr>, Inl e)
      | Inr None \<Rightarrow> (g\<lparr>gw_db := d\<rparr>, Inl LLMBudgetExceeded) | Inr (Some i) \<Rightarrow> hand_over env gw now t2 owner q i (g\<lparr>gw_db := d\<rparr>))"
    using False db
    by (simp add: llm_generate_def seq_def bind_def op_run split: sum.split option.split)
  from llm_reserve_cases[OF res assms(2)] show ?thesis
  proof
    assume no: "d = gw_db g \<and> (\<forall>i. x \<noteq> Inr (Some i))"
    then have "h = g \<and> (\<exists>e. r = Inl e)" using run assms(1) by (auto split: sum.splits option.splits)
    then show ?thesis by blast
  next
    assume yes: "x = Inr (Some (next_call_id (gw_db g))) \<and> granted env t1 owner ?m reason (estimated_input q) (gw_limits gw) (gw_db g) d"
    then have "granted env t1 owner ?m reason (estimated_input q) (gw_limits gw) (gw_db g) (gw_db (g\<lparr>gw_db := d\<rparr>))" by simp
    from hand_over_run[OF this, of now t2] obtain y where y: "r = answer_of (gw_client gw) q" "gw_sent h = gw_sent g @ [q]"
      "t_calls (gw_db h) = t_calls (gw_db g) @ [y]" "closed_call (gw_client gw) q y"
      "\<not> is_ok (cl_answer (gw_client gw) q) \<longrightarrow> gw_failures h = gw_failures g + 1
        \<and> (gw_threshold gw \<le> gw_failures h \<longrightarrow> gw_open_until h = Some (dt_add now (gw_recovery gw * us_second)))"
      using run yes assms(1) by auto
    then show ?thesis using False yes unfolding granted_def by (auto simp: circuit_open_def)
  qed
qed

section \<open>Witness\<close>

definition deaf_model :: llm_gateway where
  "deaf_model = \<lparr>gw_client = \<lparr>cl_provider = lit ''p'', cl_local = True, cl_answer = (\<lambda>q. Inl RuntimeErr)\<rparr>,
     gw_egress = \<lparr>allow_personal_to_external = False, allow_confidential_to_local = False\<rparr>,
     gw_limits = [daily_limit], gw_timeout = 15, gw_threshold = 1, gw_recovery = 60\<rparr>"

definition short_question :: llm_request where
  "short_question = \<lparr>rq_model = lit ''m'', rq_system_prompt = [], rq_user_prompt = lit ''hi'', rq_schema = None, rq_web_search = False\<rparr>"

abbreviation idle_gateway :: gateway_state where
  "idle_gateway \<equiv> \<lparr>gw_db = sample_app_db, gw_failures = 0, gw_open_until = None, gw_sent = []\<rparr>"

lemma deaf_call:
  "\<exists>h. llm_generate sample_app_env deaf_model (utc 0) (utc 0) (utc 0) (lit ''u'') short_question PUBLIC GENERAL_QUESTION idle_gateway
     = (h, Inl LLMUnavailable) \<and> gw_sent h = [short_question]"
proof -
  let ?m = "model_ref (gw_client deaf_model) short_question"
  let ?est = "estimated_input short_question"
  have est: "?est = 1" by (simp add: estimated_input_def short_question_def lit_def)
  have room: "\<not> over_budget 1 daily_limit (usage_of sample_app_db k)" for k
    by (simp add: usage_of_def sample_app_db_def over_budget_def daily_limit_def)
  have "good_limits [daily_limit]" by (simp add: good_limits_def daily_limit_def)
  from llm_reserve_known[OF this sample_store_simps(9), of 1 sample_app_env "utc 0" ?m GENERAL_QUESTION]
  obtain d where d: "llm_reserve sample_app_env (utc 0) (lit ''u'') ?m GENERAL_QUESTION 1 [daily_limit] sample_app_db
      = (d, Inr (Some (next_call_id sample_app_db)))"
      "granted sample_app_env (utc 0) (lit ''u'') ?m GENERAL_QUESTION 1 [daily_limit] sample_app_db d"
    using room by auto
  have "gateway_db (llm_reserve sample_app_env (utc 0) (lit ''u'') ?m GENERAL_QUESTION 1 [daily_limit]) idle_gateway
      = (idle_gateway\<lparr>gw_db := d\<rparr>, Inr (Some (next_call_id sample_app_db)))"
    by (rule gateway_db_run) (simp add: d(1))
  moreover have "gw_limits deaf_model = [daily_limit]" "egress_require (gw_egress deaf_model) PUBLIC True = Inr ()"
    "cl_local (gw_client deaf_model)" "cl_answer (gw_client deaf_model) = (\<lambda>q. Inl RuntimeErr)"
    by (simp_all add: deaf_model_def egress_require_def)
  moreover obtain h where "hand_over sample_app_env deaf_model (utc 0) (utc 0) (lit ''u'') short_question (next_call_id sample_app_db)
      (idle_gateway\<lparr>gw_db := d\<rparr>) = (h, answer_of (gw_client deaf_model) short_question)" "gw_sent h = [short_question]"
    using hand_over_run[of sample_app_env "utc 0" "lit ''u''" deaf_model short_question GENERAL_QUESTION 1 "[daily_limit]" sample_app_db
      "idle_gateway\<lparr>gw_db := d\<rparr>" "utc 0" "utc 0"] d(2) by auto
  ultimately show ?thesis
    by (intro exI[of _ h]) (simp add: llm_generate_def seq_def bind_def op_run est circuit_open_def answer_of_def)
qed

theorem llm_prompt_guarded_witness:
  "\<exists>h x. llm_generate sample_app_env deaf_model (utc 0) (utc 0) (utc 0) (lit ''u'') short_question PUBLIC GENERAL_QUESTION idle_gateway
     = (h, Inl LLMUnavailable) \<and> gw_sent h = [short_question] \<and> t_calls (gw_db h) = [x] \<and> lc_outcome x = CALL_FAILED"
proof -
  obtain h where run: "llm_generate sample_app_env deaf_model (utc 0) (utc 0) (utc 0) (lit ''u'') short_question PUBLIC GENERAL_QUESTION
      idle_gateway = (h, Inl LLMUnavailable)" and sent: "gw_sent h = [short_question]" using deaf_call by blast
  have "good_limits (gw_limits deaf_model)" by (simp add: deaf_model_def good_limits_def daily_limit_def)
  from llm_prompt_guarded[OF run this] sent obtain x where "t_calls (gw_db h) = [x]" "closed_call (gw_client deaf_model) short_question x"
    by (auto simp: sample_app_db_def)
  then show ?thesis using run sent by (auto simp: closed_call_def deaf_model_def)
qed

end
