(* ===== verification/AdminStore.thy ===== *)
theory AdminStore
  imports StoreSteps
begin

text \<open>
  \<^verbatim>\<open>src/zhixu/adapters/storage/sqlite/admin_store.py\<close>: hashed sessions of the administration page, password login with its
  lockout, and the one-time codes that link an external identity. Random tokens and codes, password hashing
  (Argon2id) and the keyed digest of a code are arguments.
\<close>

section \<open>Sessions\<close>

record admin_principal =
  principal_user :: pystr
  principal_authentication :: authentication_strength
  principal_expires :: datetime

record admin_session_token =
  token_value :: pystr
  token_expires :: datetime

definition admin_sessions :: "admin_session_row table" where
  "admin_sessions = \<lparr>rows = t_admin_sessions, on_rows = t_admin_sessions_update\<rparr>"

text \<open>The lower-case name of a strength.\<close>

fun strength_name :: "authentication_strength \<Rightarrow> pystr" where
  "strength_name AUTH_CHANNEL = lit ''channel''"
| "strength_name AUTH_PASSWORD = lit ''password''"
| "strength_name AUTH_MFA = lit ''mfa''"
| "strength_name AUTH_STEP_UP = lit ''step_up''"

definition strength_of :: "pystr \<Rightarrow> authentication_strength res" where
  "strength_of n = (case find (\<lambda>a. strength_name a = n) [AUTH_CHANNEL, AUTH_PASSWORD, AUTH_MFA, AUTH_STEP_UP] of
     None \<Rightarrow> Inl KeyErr | Some a \<Rightarrow> Inr a)"

definition admin_session_allowed :: "app_db \<Rightarrow> admin_session_row \<Rightarrow> bool" where
  "admin_session_allowed s r \<longleftrightarrow> sn_hash r \<notin> sn_hash ` set (t_admin_sessions s) \<and> user_exists s (sn_user r)
     \<and> sn_authentication r \<in> {lit ''password'', lit ''mfa'', lit ''step_up''}"

definition EIGHT_HOURS :: micros where
  "EIGHT_HOURS = 8 * us_hour"

definition session_create :: "app_env \<Rightarrow> pystr \<Rightarrow> pystr \<Rightarrow> authentication_strength \<Rightarrow> datetime \<Rightarrow> micros \<Rightarrow> admin_session_token app" where
  "session_create env raw u strength now lifetime =
     seq (check (strength < AUTH_PASSWORD) PermissionDenied)
    (let digest = a_sha256 env raw; expires_at = dt_add now lifetime in
     seq (app_transaction
       (bind (of_res (dump_time (a_tz env) now)) (\<lambda>created.
        bind (of_res (dump_time (a_tz env) expires_at)) (\<lambda>expires.
        seq (insert_row admin_sessions admin_session_allowed \<lparr>sn_hash = digest, sn_user = u,
            sn_authentication = strength_name strength, sn_created = created, sn_expires = expires, sn_revoked = None\<rparr>)
          (writes (add_audit \<lparr>au_at = created, au_actor = u, au_action = lit ''create'', au_kind = lit ''admin_session'',
            au_resource = take 24 digest, au_outcome = completed,
            au_reason = lit ''authentication_'' @ strength_name strength\<rparr>))))))
      (ret \<lparr>token_value = raw, token_expires = expires_at\<rparr>))"

definition session_authenticate :: "app_env \<Rightarrow> pystr \<Rightarrow> datetime \<Rightarrow> admin_principal option app" where
  "session_authenticate env raw now =
     (if raw = [] then ret None
      else bind (of_res (dump_time (a_tz env) now)) (\<lambda>now_text.
        bind (fetch_one admin_sessions (\<lambda>r. sn_hash r = a_sha256 env raw \<and> sn_revoked r = None \<and> now_text < sn_expires r))
          (\<lambda>row. case row of None \<Rightarrow> ret None
           | Some r \<Rightarrow> bind (of_res (strength_of (sn_authentication r))) (\<lambda>a.
               bind (of_res (load_time (sn_expires r))) (\<lambda>expires.
                 ret (Some \<lparr>principal_user = sn_user r, principal_authentication = a, principal_expires = expires\<rparr>))))))"

definition session_revoke :: "app_env \<Rightarrow> pystr \<Rightarrow> datetime \<Rightarrow> bool app" where
  "session_revoke env raw now = app_transaction (bind (of_res (dump_time (a_tz env) now)) (\<lambda>now_text.
     bind (change_rows admin_sessions (\<lambda>_. True) (\<lambda>r. sn_hash r = a_sha256 env raw \<and> sn_revoked r = None)
         (\<lambda>r. r\<lparr>sn_revoked := Some now_text\<rparr>)) (\<lambda>changed. ret (changed = 1))))"

definition session_revoke_user :: "app_env \<Rightarrow> pystr \<Rightarrow> datetime \<Rightarrow> nat app" where
  "session_revoke_user env u now = app_transaction (bind (of_res (dump_time (a_tz env) now)) (\<lambda>now_text.
     change_rows admin_sessions (\<lambda>_. True) (\<lambda>r. sn_user r = u \<and> sn_revoked r = None) (\<lambda>r. r\<lparr>sn_revoked := Some now_text\<rparr>)))"

section \<open>Passwords\<close>

text \<open>The hasher: a salted hash, its check (false for another password or a text that is no hash), and whether a hash is outdated.\<close>

record password_hasher =
  ph_hash :: "pystr \<Rightarrow> pystr"
  ph_verify :: "pystr \<Rightarrow> pystr \<Rightarrow> bool"
  ph_stale :: "pystr \<Rightarrow> bool"

record login_policy =
  max_attempts :: int
  login_window :: micros
  login_lockout :: micros
  login_hasher :: password_hasher
  dummy_hash :: pystr

definition DEFAULT_LOGIN :: "password_hasher \<Rightarrow> login_policy" where
  "DEFAULT_LOGIN h = \<lparr>max_attempts = 5, login_window = 15 * us_minute, login_lockout = 15 * us_minute, login_hasher = h,
     dummy_hash = ph_hash h (lit ''synthetic-dummy-password-never-accepted'')\<rparr>"

definition credentials :: "credential_row table" where
  "credentials = \<lparr>rows = t_credentials, on_rows = t_credentials_update\<rparr>"

definition logins :: "login_row table" where
  "logins = \<lparr>rows = t_logins, on_rows = t_logins_update\<rparr>"

definition argon2id_hash :: "credential_row \<Rightarrow> bool" where
  "argon2id_hash r \<longleftrightarrow> starts_with (cd_hash r) (lit ''$argon2id$'')"

definition set_password :: "app_env \<Rightarrow> login_policy \<Rightarrow> pystr \<Rightarrow> pystr \<Rightarrow> datetime \<Rightarrow> unit app" where
  "set_password env pol u password now =
     seq (check (blank u) ValidationError)
    (seq (check (\<not> (12 \<le> length password \<and> length password \<le> 1024)) ValidationError)
    (let new_hash = ph_hash (login_hasher pol) password in
     app_transaction
      (bind (fetch_one users (\<lambda>r. us_id r = u \<and> us_status r = lit ''active'')) (\<lambda>active.
       seq (check (active = None) PermissionDenied)
      (bind (of_res (dump_time (a_tz env) now)) (\<lambda>now_text.
       bind (fetch_one credentials (\<lambda>r. cd_user r = u)) (\<lambda>row.
       seq (if row = None
            then insert_row credentials (\<lambda>s r. user_exists s (cd_user r) \<and> argon2id_hash r)
                   \<lparr>cd_user = u, cd_hash = new_hash, cd_updated = now_text\<rparr>
            else bind (change_rows credentials argon2id_hash (\<lambda>r. cd_user r = u)
                   (\<lambda>r. r\<lparr>cd_hash := new_hash, cd_updated := now_text\<rparr>)) (\<lambda>_. ret ()))
        (bind (remove_rows logins (\<lambda>r. lg_user r = u)) (\<lambda>_. ret ())))))))))"

definition audit_login :: "app_env \<Rightarrow> pystr \<Rightarrow> datetime \<Rightarrow> pystr \<Rightarrow> string \<Rightarrow> unit app" where
  "audit_login env u now outcome reason = app_transaction (bind (of_res (dump_time (a_tz env) now)) (\<lambda>now_text.
     writes (add_audit \<lparr>au_at = now_text, au_actor = (if u = [] then lit ''unknown'' else u), au_action = lit ''authenticate'',
       au_kind = lit ''admin_session'', au_resource = lit ''login'', au_outcome = outcome, au_reason = lit reason\<rparr>)))"

text \<open>Comparing or subtracting an aware and a naive time raises TypeError.\<close>

definition both_aware :: "datetime \<Rightarrow> datetime \<Rightarrow> 'a \<Rightarrow> 'a res" where
  "both_aware a b x = guarded [(aware a \<noteq> aware b, TypeErr)] x"

text \<open>The window and the attempts that a failure leads to, from the row that was read before.\<close>

definition failure_state :: "app_env \<Rightarrow> login_policy \<Rightarrow> datetime \<Rightarrow> login_row option \<Rightarrow> (datetime \<times> int) res" where
  "failure_state env pol now state = (case state of
       None \<Rightarrow> Inr (now, 1)
     | Some r \<Rightarrow> and_then (load_time (lg_window r)) (\<lambda>prior. both_aware now prior
         (if dt_sub (a_tz env) now prior < login_window pol then (prior, lg_attempts r + 1) else (now, 1))))"

definition put_login :: "pystr \<Rightarrow> pystr \<Rightarrow> int \<Rightarrow> pystr option \<Rightarrow> unit app" where
  "put_login u start attempts locked = bind (fetch_one logins (\<lambda>r. lg_user r = u)) (\<lambda>row.
     if row = None then insert_row logins (\<lambda>s r. True) \<lparr>lg_user = u, lg_window = start, lg_attempts = attempts, lg_locked = locked\<rparr>
     else bind (change_rows logins (\<lambda>_. True) (\<lambda>r. lg_user r = u)
         (\<lambda>r. r\<lparr>lg_window := start, lg_attempts := attempts, lg_locked := locked\<rparr>)) (\<lambda>_. ret ()))"

definition record_failure :: "app_env \<Rightarrow> login_policy \<Rightarrow> pystr \<Rightarrow> datetime \<Rightarrow> login_row option \<Rightarrow> unit app" where
  "record_failure env pol u now state =
     bind (of_res (failure_state env pol now state)) (\<lambda>(start, attempts).
     seq (app_transaction
       (bind (of_res (dump_time (a_tz env) start)) (\<lambda>start_text.
        bind (of_res (if attempts \<ge> max_attempts pol
              then and_then (dump_time (a_tz env) (dt_add now (login_lockout pol))) (\<lambda>x. Inr (Some x)) else Inr None)) (\<lambda>locked.
          put_login u start_text attempts locked))))
       (audit_login env u now (lit ''rejected'') ''invalid_credentials''))"

text \<open>What \<^verbatim>\<open>verify\<close> reads before it decides: the hash of an active user's password, and the login row.\<close>

definition login_read :: "pystr \<Rightarrow> app_db \<Rightarrow> pystr option \<times> login_row option" where
  "login_read u s = (if \<exists>x \<in> set (t_users s). us_id x = u \<and> us_status x = lit ''active''
       then map_option cd_hash (find (\<lambda>r. cd_user r = u) (t_credentials s)) else None,
     find (\<lambda>r. lg_user r = u) (t_logins s))"

definition login_locked :: "app_env \<Rightarrow> datetime \<Rightarrow> login_row option \<Rightarrow> bool res" where
  "login_locked env now state = (case state of None \<Rightarrow> Inr False
     | Some r \<Rightarrow> (case lg_locked r of None \<Rightarrow> Inr False
        | Some x \<Rightarrow> if x = [] then Inr False
            else and_then (load_time x) (\<lambda>until. both_aware until now (dt_less (a_tz env) now until))))"

definition login_accept :: "app_env \<Rightarrow> login_policy \<Rightarrow> pystr \<Rightarrow> pystr \<Rightarrow> datetime \<Rightarrow> pystr \<Rightarrow> bool app" where
  "login_accept env pol u password now hash =
     seq (app_transaction
       (bind (remove_rows logins (\<lambda>r. lg_user r = u)) (\<lambda>_.
        if ph_stale (login_hasher pol) hash
        then bind (of_res (dump_time (a_tz env) now)) (\<lambda>now_text.
             bind (change_rows credentials argon2id_hash (\<lambda>r. cd_user r = u)
               (\<lambda>r. r\<lparr>cd_hash := ph_hash (login_hasher pol) password, cd_updated := now_text\<rparr>)) (\<lambda>_. ret ()))
        else ret ())))
    (seq (audit_login env u now completed ''password'') (ret True))"

text \<open>The rest of \<^verbatim>\<open>verify\<close>, on what was read.\<close>

definition login_decide :: "app_env \<Rightarrow> login_policy \<Rightarrow> pystr \<Rightarrow> pystr \<Rightarrow> datetime \<Rightarrow> pystr option \<times> login_row option \<Rightarrow> bool app" where
  "login_decide env pol u password now seen = (case seen of (credential, state) \<Rightarrow>
     bind (of_res (login_locked env now state)) (\<lambda>locked.
       if locked then seq (audit_login env u now (lit ''rejected'') ''locked'') (ret False)
       else let hash = (case credential of None \<Rightarrow> dummy_hash pol | Some h \<Rightarrow> h) in
         if \<not> ph_verify (login_hasher pol) hash password \<or> credential = None
         then seq (record_failure env pol u now state) (ret False)
         else login_accept env pol u password now hash))"

definition login_verify :: "app_env \<Rightarrow> login_policy \<Rightarrow> pystr \<Rightarrow> pystr \<Rightarrow> datetime \<Rightarrow> bool app" where
  "login_verify env pol u password now =
     (if u = [] \<or> length password > 1024 then ret False
      else bind (reads (login_read u)) (login_decide env pol u password now))"

section \<open>Identity links\<close>

record link_challenge =
  challenge_id :: pystr
  challenge_code :: pystr
  challenge_expires :: datetime

record link_policy =
  link_digest :: "pystr \<Rightarrow> pystr \<Rightarrow> pystr"
  link_attempts :: int

definition new_link_policy :: "nat \<Rightarrow> link_policy \<Rightarrow> link_policy res" where
  "new_link_policy key_length p = guarded [(key_length < 32, ValueErr)] p"

definition challenges :: "challenge_row table" where
  "challenges = \<lparr>rows = t_challenges, on_rows = t_challenges_update\<rparr>"

definition challenge_allowed :: "app_db \<Rightarrow> challenge_row \<Rightarrow> bool" where
  "challenge_allowed s r \<longleftrightarrow> ch_id r \<notin> ch_id ` set (t_challenges s) \<and> user_exists s (ch_user r)
     \<and> (ch_subject r = [] \<or> starts_with (ch_subject r) (lit ''enc:'')) \<and> 0 \<le> ch_attempts r"

definition link_issue :: "app_env \<Rightarrow> link_policy \<Rightarrow> pystr \<Rightarrow> pystr \<Rightarrow> pystr \<Rightarrow> pystr \<Rightarrow> pystr \<Rightarrow> pystr \<Rightarrow> encrypted_identifier
    \<Rightarrow> datetime \<Rightarrow> micros \<Rightarrow> link_challenge app" where
  "link_issue env pol new_id code u channel account ref subject now lifetime =
     (let expires_at = dt_add now lifetime in
      seq (app_transaction (bind (of_res (dump_time (a_tz env) expires_at)) (\<lambda>expires.
         insert_row challenges challenge_allowed \<lparr>ch_id = new_id, ch_user = u, ch_channel = channel,
           ch_hash = link_digest pol new_id code, ch_expires = expires, ch_consumed = None, ch_account = account,
           ch_opaque = ref, ch_subject = enc_value subject, ch_attempts = 0\<rparr>)))
        (ret \<lparr>challenge_id = new_id, challenge_code = code, challenge_expires = expires_at\<rparr>))"

text \<open>Binding the identity of a challenge whose code was right.\<close>

definition link_bind :: "app_env \<Rightarrow> pystr \<Rightarrow> authorized_action \<Rightarrow> challenge_row \<Rightarrow> unit app" where
  "link_bind env identity a r =
     seq (check (resource_owner (auth_resource a) \<noteq> ch_user r) PermissionDenied)
    (bind (of_res (dump_time (a_tz env) (authorized_at a))) (\<lambda>now_text.
     seq (insert_row identities identity_allowed \<lparr>xi_id = identity, xi_user = ch_user r, xi_channel = ch_channel r,
         xi_account = ch_account r, xi_subject = ch_subject r, xi_opaque = ch_opaque r, xi_created = now_text\<rparr>)
    (bind (change_rows challenges (\<lambda>_. True) (\<lambda>q. ch_id q = ch_id r) (\<lambda>q. q\<lparr>ch_consumed := Some now_text\<rparr>)) (\<lambda>_.
     writes (add_audit \<lparr>au_at = now_text, au_actor = auth_actor a, au_action = lit ''create'', au_kind = lit ''external_identity'',
       au_resource = identity, au_outcome = completed, au_reason = lit ''otp_verified''\<rparr>)))))"

text \<open>
  The transaction of \<^verbatim>\<open>consume\<close>: nothing when the code is wrong, which is counted and committed, and the challenge
  when the identity was bound.
\<close>

definition link_try :: "app_env \<Rightarrow> link_policy \<Rightarrow> pystr \<Rightarrow> pystr \<Rightarrow> pystr \<Rightarrow> authorized_action \<Rightarrow> challenge_row option app" where
  "link_try env pol cid code identity a = app_transaction
     (bind (fetch_one challenges (\<lambda>r. ch_id r = cid \<and> ch_consumed r = None)) (\<lambda>row. case row of
        None \<Rightarrow> throw PermissionDenied
      | Some r \<Rightarrow> bind (of_res (load_time (ch_expires r))) (\<lambda>expires.
          bind (of_res (both_aware expires (authorized_at a) (dt_le (a_tz env) expires (authorized_at a)))) (\<lambda>expired.
          seq (check expired PermissionDenied)
         (seq (check (ch_attempts r \<ge> link_attempts pol) PermissionDenied)
            (if ch_hash r \<noteq> link_digest pol cid code
             then bind (change_rows challenges (\<lambda>q. 0 \<le> ch_attempts q) (\<lambda>q. ch_id q = cid) (\<lambda>q. q\<lparr>ch_attempts := ch_attempts q + 1\<rparr>)) (\<lambda>_.
                  ret None)
             else seq (link_bind env identity a r) (ret (Some r))))))))"

definition link_consume :: "app_env \<Rightarrow> link_policy \<Rightarrow> pystr \<Rightarrow> pystr \<Rightarrow> pystr \<Rightarrow> authorized_action \<Rightarrow> external_identity app" where
  "link_consume env pol cid code identity a =
     seq (check (auth_action a \<noteq> CREATE \<or> resource_kind (auth_resource a) \<noteq> lit ''external_identity''
         \<or> resource_id (auth_resource a) \<noteq> identity) PermissionDenied)
    (bind (link_try env pol cid code identity a) (\<lambda>bound. case bound of
       None \<Rightarrow> throw PermissionDenied
     | Some r \<Rightarrow> of_res (and_then (new_encrypted_identifier \<lparr>enc_value = ch_subject r\<rparr>) (\<lambda>subject.
         new_external_identity \<lparr>identity_id = identity, identity_user_id = ch_user r, identity_channel = ch_channel r,
           identity_channel_account = ch_account r, encrypted_subject = subject, opaque_ref = ch_opaque r,
           identity_created_at = authorized_at a\<rparr>))))"

section \<open>Sessions: lemmas\<close>

lemma strength_of_name [simp]: "strength_of (strength_name a) = Inr a"
  by (cases a) (simp_all add: strength_of_def lit_def)

inductive session_step :: "app_env \<Rightarrow> app_db \<Rightarrow> app_db \<Rightarrow> bool" for env where
  creating: "session_create env raw u strength now lifetime s = (t, r) \<Longrightarrow> session_step env s t"
| revoking: "session_revoke env raw now s = (t, b) \<Longrightarrow> session_step env s t"
| revoking_user: "session_revoke_user env u now s = (t, n) \<Longrightarrow> session_step env s t"

definition session_later :: "app_env \<Rightarrow> app_db \<Rightarrow> app_db \<Rightarrow> bool" where
  "session_later env = (session_step env)\<^sup>*\<^sup>*"

definition session_dead :: "pystr \<Rightarrow> app_db \<Rightarrow> bool" where
  "session_dead h s \<longleftrightarrow> h \<in> set (map sn_hash (t_admin_sessions s))
     \<and> (\<forall>r \<in> set (t_admin_sessions s). sn_hash r = h \<longrightarrow> sn_revoked r \<noteq> None)"

lemma session_dead_statements:
  "keeps (\<lambda>s t. session_dead h s \<longrightarrow> session_dead h t) (insert_row admin_sessions admin_session_allowed r)"
  "keeps (\<lambda>s t. session_dead h s \<longrightarrow> session_dead h t) (change_rows admin_sessions ch p (\<lambda>r. r\<lparr>sn_revoked := Some x\<rparr>))"
proof -
  show "keeps (\<lambda>s t. session_dead h s \<longrightarrow> session_dead h t) (insert_row admin_sessions admin_session_allowed r)"
    by (force simp: keeps_def insert_row_def admin_sessions_def session_dead_def admin_session_allowed_def)
  show "keeps (\<lambda>s t. session_dead h s \<longrightarrow> session_dead h t) (change_rows admin_sessions ch p (\<lambda>r. r\<lparr>sn_revoked := Some x\<rparr>))"
    by (simp add: keeps_def change_rows_def admin_sessions_def session_dead_def del: set_map) (auto simp: set_update_where)
qed

lemma session_dead_audit: "session_dead h (add_audit e s) = session_dead h s"
  by (simp add: session_dead_def)

lemma session_dead_kept:
  "keeps (\<lambda>s t. session_dead h s \<longrightarrow> session_dead h t) (session_create env raw u strength now lifetime)"
  "keeps (\<lambda>s t. session_dead h s \<longrightarrow> session_dead h t) (session_revoke env raw now)"
  "keeps (\<lambda>s t. session_dead h s \<longrightarrow> session_dead h t) (session_revoke_user env u now)"
  unfolding session_create_def session_revoke_def session_revoke_user_def Let_def
  by (auto intro!: keeping session_dead_statements simp: session_dead_audit)

lemma session_later_dead: "session_later env s t \<Longrightarrow> session_dead h s \<Longrightarrow> session_dead h t"
  unfolding session_later_def
  by (erule keeps_later) (auto elim!: session_step.cases dest!: keepsD[OF session_dead_kept(1)] keepsD[OF session_dead_kept(2)]
    keepsD[OF session_dead_kept(3)])

lemma dead_refused:
  assumes "session_dead (a_sha256 env raw) s" "aware now"
  shows "session_authenticate env raw now s = (s, Inr None)"
proof -
  have "find (\<lambda>r. sn_hash r = a_sha256 env raw \<and> sn_revoked r = None \<and> time_text (a_tz env) now < sn_expires r) (t_admin_sessions s) = None"
    using assms(1) by (auto simp: find_None_iff session_dead_def)
  then show ?thesis using assms(2)
    by (simp add: session_authenticate_def bind_def op_run dump_time_def guarded_def fetch_one_def admin_sessions_def)
qed

lemma revoke_user_kills:
  assumes "session_revoke_user env u now s = (t, Inr n)" "r \<in> set (t_admin_sessions s)" "sn_user r = u"
    and "unique_key sn_hash (t_admin_sessions s)"
  shows "session_dead (sn_hash r) t"
proof -
  let ?p = "\<lambda>r. sn_user r = u \<and> sn_revoked r = None"
  let ?f = "\<lambda>r. r\<lparr>sn_revoked := Some (time_text (a_tz env) now)\<rparr>"
  have t: "t_admin_sessions t = update_where ?p ?f (t_admin_sessions s)"
    using assms(1) unfolding session_revoke_user_def run_Inr by (auto simp: admin_sessions_def dump_time_def guarded_def split: if_splits)
  have hashes: "map sn_hash (t_admin_sessions t) = map sn_hash (t_admin_sessions s)" unfolding t by (rule map_key_update_where) simp
  have "sn_revoked q \<noteq> None" if "q \<in> set (t_admin_sessions t)" "sn_hash q = sn_hash r" for q
  proof -
    obtain x where x: "x \<in> set (t_admin_sessions s)" "q = (if ?p x then ?f x else x)"
      using \<open>q \<in> set (t_admin_sessions t)\<close> unfolding t set_update_where by blast
    then have "sn_hash x = sn_hash r" using that(2) by (cases "?p x") simp_all
    then have "x = r" using unique_key_eq[OF assms(4) x(1) assms(2)] by simp
    then show ?thesis using x(2) assms(3) by (cases "sn_revoked r") simp_all
  qed
  moreover have "sn_hash r \<in> set (map sn_hash (t_admin_sessions t))" unfolding hashes using assms(2) by simp
  ultimately show ?thesis unfolding session_dead_def by blast
qed

section \<open>Properties of sessions\<close>

text \<open>
  A session lasts exactly until it expires: after a session was created, its token authenticates the user with the
  strength it was created with at every time before its end and at none from its end on.
\<close>

lemma session_lasts:
  assumes "session_create env raw u strength (utc n) lifetime s = (t, Inr token)" "raw \<noteq> []"
    and "in_range (n + lifetime)" "in_range m"
  shows "session_authenticate env raw (utc m) t = (t, Inr (if m < n + lifetime
    then Some \<lparr>principal_user = u, principal_authentication = strength, principal_expires = utc (n + lifetime)\<rparr> else None))"
proof -
  let ?x = "isoformat_utc (n + lifetime)"
  obtain row where row: "t_admin_sessions t = t_admin_sessions s @ [row]" "sn_hash row = a_sha256 env raw" "sn_revoked row = None"
      "sn_user row = u" "sn_authentication row = strength_name strength" "sn_expires row = ?x"
    and fresh: "a_sha256 env raw \<notin> sn_hash ` set (t_admin_sessions s)"
    using assms(1) unfolding session_create_def Let_def run_Inr
    by (fastforce simp: admin_sessions_def dump_time_def guarded_def admin_session_allowed_def utc_instants aware_utc split: if_splits)
  have old: "find (\<lambda>r. sn_hash r = a_sha256 env raw \<and> sn_revoked r = None \<and> isoformat_utc m < sn_expires r) (t_admin_sessions s) = None"
    using fresh by (force simp: find_None_iff)
  have less: "isoformat_utc m < ?x \<longleftrightarrow> m < n + lifetime" by (rule isoformat_utc_less_iff[OF assms(4,3)])
  have "load_time ?x = Inr (utc (n + lifetime))" using assms(3) by (simp add: load_time_def fromisoformat_isoformat)
  then show ?thesis using assms(2) row less old
    by (simp add: session_authenticate_def bind_def op_run dump_time_def guarded_def fetch_one_def admin_sessions_def find_appended
        utc_instants aware_utc)
qed

text \<open>
  Revoking a user's sessions is final: no token that a session of the user had at that moment authenticates again, in
  any later history of the sessions, at any time.
\<close>

lemma revoked_sessions_dead:
  assumes "session_revoke_user env u now s = (t, Inr n)" "unique_key sn_hash (t_admin_sessions s)"
    and "r \<in> set (t_admin_sessions s)" "sn_user r = u" "sn_hash r = a_sha256 env raw"
    and "session_later env t w" "aware later"
  shows "session_authenticate env raw later w = (w, Inr None)"
  using dead_refused session_later_dead[OF assms(6)] revoke_user_kills[OF assms(1,3,4,2)] assms(5,7) by metis

section \<open>The lockout: lemmas\<close>

definition login_state :: "pystr \<Rightarrow> app_db \<Rightarrow> login_row option" where
  "login_state u s = find (\<lambda>r. lg_user r = u) (t_logins s)"

definition stored_hash :: "pystr \<Rightarrow> app_db \<Rightarrow> pystr option" where
  "stored_hash u s = fst (login_read u s)"

lemma login_read_eq: "login_read u s = (stored_hash u s, login_state u s)"
  by (simp add: login_read_def stored_hash_def login_state_def)

lemma login_read_audit [simp]: "login_state u (add_audit e s) = login_state u s" "stored_hash u (add_audit e s) = stored_hash u s"
  "stored_hash u (t_logins_update f s) = stored_hash u s"
  by (auto simp: login_read_def login_state_def stored_hash_def)

lemma audit_login_run: "aware now \<Longrightarrow> \<exists>e. audit_login env u now outcome reason s = (add_audit e s, Inr ())"
  by (auto simp: audit_login_def app_transaction_def atomically_def bind_def op_run dump_time_def guarded_def)

definition login_row_of :: "pystr \<Rightarrow> micros \<Rightarrow> int \<Rightarrow> micros option \<Rightarrow> login_row" where
  "login_row_of u start k locked = \<lparr>lg_user = u, lg_window = isoformat_utc start, lg_attempts = k,
     lg_locked = map_option isoformat_utc locked\<rparr>"

lemma put_login_run:
  "\<exists>g. put_login u (isoformat_utc w) k (map_option isoformat_utc l) s = (t_logins_update g s, Inr ())
    \<and> login_state u (t_logins_update g s) = Some (login_row_of u w k l)"
proof (cases "login_state u s")
  case None
  then show ?thesis
    by (intro exI[of _ "\<lambda>rs. rs @ [login_row_of u w k l]"])
       (simp add: put_login_def bind_def fetch_one_def op_run insert_row_def logins_def login_state_def login_row_of_def find_appended)
next
  case (Some r)
  let ?f = "\<lambda>r. r\<lparr>lg_window := isoformat_utc w, lg_attempts := k, lg_locked := map_option isoformat_utc l\<rparr>"
  have r: "lg_user r = u" using Some by (auto simp: login_state_def find_Some_iff)
  have "find (\<lambda>r. lg_user r = u) (update_where (\<lambda>r. lg_user r = u) ?f (t_logins s)) = Some (?f r)"
    using Some r unfolding login_state_def by (subst find_updated) simp_all
  moreover have "?f r = login_row_of u w k l" using r by (cases r) (simp add: login_row_of_def)
  ultimately show ?thesis using Some
    by (intro exI[of _ "update_where (\<lambda>r. lg_user r = u) ?f"])
       (simp add: put_login_def fetch_one_def change_rows_def logins_def login_state_def bind_def op_run list_all_iff)
qed

lemma record_failure_run:
  assumes "failure_state env pol (utc n) state = Inr (utc w, k)"
  shows "\<exists>t. record_failure env pol u (utc n) state s = (t, Inr ()) \<and> stored_hash u t = stored_hash u s
    \<and> login_state u t = Some (login_row_of u w k (if k \<ge> max_attempts pol then Some (n + login_lockout pol) else None))"
proof -
  obtain l where l: "l = (if k \<ge> max_attempts pol then Some (n + login_lockout pol) else None)" by blast
  obtain g where g: "put_login u (isoformat_utc w) k (map_option isoformat_utc l) s = (t_logins_update g s, Inr ())"
    "login_state u (t_logins_update g s) = Some (login_row_of u w k l)"
    using put_login_run by blast
  obtain e where e: "audit_login env u (utc n) (lit ''rejected'') ''invalid_credentials'' (t_logins_update g s)
      = (add_audit e (t_logins_update g s), Inr ())"
    using audit_login_run[OF aware_utc(1)] by blast
  have "(if k \<ge> max_attempts pol
              then and_then (dump_time (a_tz env) (dt_add (utc n) (login_lockout pol))) (\<lambda>x. Inr (Some x)) else Inr None)
      = Inr (map_option isoformat_utc l)"
    unfolding l by (simp add: dump_time_def guarded_def aware_utc utc_instants)
  then have "record_failure env pol u (utc n) state s = (add_audit e (t_logins_update g s), Inr ())"
    using g(1) e by (simp add: record_failure_def assms bind_def op_run seq_def app_transaction_def atomically_def dump_time_def
        guarded_def aware_utc utc_instants)
  then show ?thesis using g(2) unfolding l by (intro exI[of _ "add_audit e (t_logins_update g s)"]) simp
qed

lemma login_locked_row:
  assumes "\<And>x. l = Some x \<Longrightarrow> in_range x"
  shows "login_locked env (utc n) (Some (login_row_of u w k l)) = Inr (case l of None \<Rightarrow> False | Some x \<Rightarrow> n < x)"
proof (cases l)
  case (Some x)
  have "isoformat_utc x \<noteq> []" by (simp add: isoformat_utc_def)
  moreover have "load_time (isoformat_utc x) = Inr (utc x)" using assms[OF Some] by (simp add: load_time_def fromisoformat_isoformat)
  ultimately show ?thesis using Some
    by (simp add: login_locked_def login_row_of_def both_aware_def guarded_def aware_utc utc_times)
qed (simp add: login_locked_def login_row_of_def)

lemma failure_state_row:
  assumes "in_range w"
  shows "failure_state env pol (utc n) (Some (login_row_of u w k l))
    = Inr (if n - w < login_window pol then (utc w, k + 1) else (utc n, 1))"
  using assms by (simp add: failure_state_def login_row_of_def load_time_def fromisoformat_isoformat both_aware_def guarded_def
      aware_utc utc_times)

definition wrong_password :: "login_policy \<Rightarrow> pystr option \<Rightarrow> pystr \<Rightarrow> bool" where
  "wrong_password pol stored p \<longleftrightarrow> (case stored of None \<Rightarrow> True | Some h \<Rightarrow> \<not> ph_verify (login_hasher pol) h p)"

lemma verify_locked:
  assumes "login_locked env (utc n) (login_state u s) = Inr True"
  shows "\<exists>t. login_verify env pol u p (utc n) s = (t, Inr False) \<and> login_state u t = login_state u s \<and> stored_hash u t = stored_hash u s"
proof (cases "u = [] \<or> length p > 1024")
  case False
  obtain e where "audit_login env u (utc n) (lit ''rejected'') ''locked'' s = (add_audit e s, Inr ())"
    using audit_login_run[OF aware_utc(1)] by blast
  then show ?thesis using False assms
    by (simp add: login_verify_def login_decide_def login_read_eq bind_def op_run seq_def)
qed (simp add: login_verify_def op_run)

lemma decide_wrong:
  assumes "login_locked env (utc n) state = Inr False" "wrong_password pol stored p"
    and "failure_state env pol (utc n) state = Inr (utc w, k)"
  shows "\<exists>t. login_decide env pol u p (utc n) (stored, state) s = (t, Inr False) \<and> stored_hash u t = stored_hash u s
    \<and> login_state u t = Some (login_row_of u w k (if k \<ge> max_attempts pol then Some (n + login_lockout pol) else None))"
proof -
  obtain t where t: "record_failure env pol u (utc n) state s = (t, Inr ())" "stored_hash u t = stored_hash u s"
    "login_state u t = Some (login_row_of u w k (if k \<ge> max_attempts pol then Some (n + login_lockout pol) else None))"
    using record_failure_run[OF assms(3)] by blast
  have "\<not> ph_verify (login_hasher pol) (case stored of None \<Rightarrow> dummy_hash pol | Some h \<Rightarrow> h) p \<or> stored = None"
    using assms(2) by (auto simp: wrong_password_def split: option.splits)
  then have "login_decide env pol u p (utc n) (stored, state) s = (t, Inr False)"
    using assms(1) t(1) by (simp add: login_decide_def Let_def bind_def op_run seq_def)
  then show ?thesis using t by blast
qed

lemma decide_counts:
  assumes "wrong_password pol stored p" "in_range w" "n - w < login_window pol"
  shows "\<exists>t. login_decide env pol u p (utc n) (stored, Some (login_row_of u w k None)) s = (t, Inr False) \<and> stored_hash u t = stored_hash u s
    \<and> login_state u t = Some (login_row_of u w (k + 1) (if k + 1 \<ge> max_attempts pol then Some (n + login_lockout pol) else None))"
proof -
  have f: "failure_state env pol (utc n) (Some (login_row_of u w k None)) = Inr (utc w, k + 1)"
    using failure_state_row[OF assms(2)] assms(3) by simp
  show ?thesis by (rule decide_wrong[OF _ assms(1) f]) (simp add: login_locked_row[of None, simplified])
qed

text \<open>Guesses one after the other.\<close>

definition guesses :: "app_env \<Rightarrow> login_policy \<Rightarrow> pystr \<Rightarrow> (pystr \<times> micros) list \<Rightarrow> app_db \<Rightarrow> app_db" where
  "guesses env pol u gs s = foldl (\<lambda>s (p, n). fst (login_verify env pol u p (utc n) s)) s gs"

text \<open>Wrong guesses within one window: none before the first, none after the window it opens.\<close>

definition in_one_window :: "login_policy \<Rightarrow> micros \<Rightarrow> (pystr \<times> micros) list \<Rightarrow> bool" where
  "in_one_window pol start gs \<longleftrightarrow> (\<forall>(p, n) \<in> set gs. length p \<le> 1024 \<and> start \<le> n \<and> n < start + login_window pol
     \<and> in_range n \<and> in_range (n + login_lockout pol))"

lemma guesses_state:
  assumes "u \<noteq> []" "login_state u s = None" "1 \<le> max_attempts pol" "login_window pol \<le> login_lockout pol" "in_range start"
    and "in_one_window pol start gs" "\<forall>(p, n) \<in> set gs. wrong_password pol (stored_hash u s) p" "gs \<noteq> [] \<longrightarrow> snd (hd gs) = start"
  shows "stored_hash u (guesses env pol u gs s) = stored_hash u s
    \<and> login_state u (guesses env pol u gs s) = (if gs = [] then None else Some (login_row_of u start
        (min (int (length gs)) (max_attempts pol))
        (if max_attempts pol \<le> int (length gs) then Some (snd (gs ! nat (max_attempts pol - 1)) + login_lockout pol) else None)))"
  using assms(6-8)
proof (induction gs rule: rev_induct)
  case Nil
  then show ?case using assms(2) by (simp add: guesses_def)
next
  case (snoc g gs)
  obtain p n where g: "g = (p, n)" by (cases g)
  have win: "in_one_window pol start gs" "\<forall>(p, n) \<in> set gs. wrong_password pol (stored_hash u s) p"
    and gn: "length p \<le> 1024" "start \<le> n" "n < start + login_window pol" "in_range n" "in_range (n + login_lockout pol)"
      "wrong_password pol (stored_hash u s) p"
    using snoc.prems(1,2) unfolding in_one_window_def g by auto
  have "gs \<noteq> [] \<longrightarrow> snd (hd gs) = start" using snoc.prems(3) by (cases gs) simp_all
  note IH = snoc.IH[OF win this]
  let ?s = "guesses env pol u gs s"
  have run: "guesses env pol u (gs @ [g]) s = fst (login_verify env pol u p (utc n) ?s)" by (simp add: guesses_def g)
  have verify: "login_verify env pol u p (utc n) ?s = login_decide env pol u p (utc n) (stored_hash u s, login_state u ?s) ?s"
    using assms(1) gn(1) IH by (simp add: login_verify_def login_read_eq bind_def op_run)
  consider "gs = []" | "gs \<noteq> []" "int (length gs) < max_attempts pol" | "gs \<noteq> []" "max_attempts pol \<le> int (length gs)" by linarith
  then show ?case
  proof cases
    case 1
    then have "n = start" using snoc.prems(3) g by simp
    have none: "login_state u ?s = None" using IH 1 by simp
    obtain t where "login_decide env pol u p (utc n) (stored_hash u s, None) ?s = (t, Inr False)" "stored_hash u t = stored_hash u ?s"
      "login_state u t = Some (login_row_of u n 1 (if 1 \<ge> max_attempts pol then Some (n + login_lockout pol) else None))"
      using decide_wrong[of env n None pol "stored_hash u s" p n 1 u ?s] gn(6) by (auto simp: login_locked_def failure_state_def)
    then show ?thesis using run verify none IH 1 assms(3) \<open>n = start\<close> g by (cases "max_attempts pol = 1") simp_all
  next
    case 2
    then have row: "login_state u ?s = Some (login_row_of u start (int (length gs)) None)" using IH by simp
    obtain t where t: "login_decide env pol u p (utc n) (stored_hash u s, Some (login_row_of u start (int (length gs)) None)) ?s = (t, Inr False)"
      "stored_hash u t = stored_hash u ?s" "login_state u t = Some (login_row_of u start (int (length gs) + 1)
        (if int (length gs) + 1 \<ge> max_attempts pol then Some (n + login_lockout pol) else None))"
      using decide_counts[OF gn(6) assms(5), of n env u "int (length gs)" ?s] gn(3) by auto
    have at: "int (length gs) + 1 \<ge> max_attempts pol \<Longrightarrow> nat (max_attempts pol - 1) = length gs" using 2 by linarith
    show ?thesis using run verify row t IH 2 at by (auto simp: g min_def add.commute)
  next
    case 3
    let ?l = "snd (gs ! nat (max_attempts pol - 1)) + login_lockout pol"
    have i: "nat (max_attempts pol - 1) < length gs" using 3 assms(3) by linarith
    then have inw: "gs ! nat (max_attempts pol - 1) \<in> set gs" by simp
    then have l: "in_range ?l" "start \<le> snd (gs ! nat (max_attempts pol - 1))" using win(1) unfolding in_one_window_def by auto
    have row: "login_state u ?s = Some (login_row_of u start (max_attempts pol) (Some ?l))" using IH 3 by simp
    have "login_locked env (utc n) (login_state u ?s) = Inr True"
      unfolding row using login_locked_row[of "Some ?l" env n u start "max_attempts pol"] l gn(3) assms(4) by simp
    from verify_locked[OF this, of pol p] obtain t where t: "login_verify env pol u p (utc n) ?s = (t, Inr False)"
      "login_state u t = login_state u ?s" "stored_hash u t = stored_hash u ?s" by blast
    show ?thesis using run t IH 3 i by (auto simp: nth_append)
  qed
qed

section \<open>Properties of the login\<close>

text \<open>
  C16. Wrong passwords lock the account: after the configured number of wrong guesses within one window, made one after the other,
  every password, the right one too, is refused until the lockout has passed since the guess that reached the
  number, and trying again neither lengthens nor shortens the lockout.
\<close>

theorem login_locks_out:
  assumes "u \<noteq> []" "login_state u s = None" "1 \<le> max_attempts pol" "login_window pol \<le> login_lockout pol"
    and "in_one_window pol start gs" "snd (hd gs) = start" "\<forall>(p, n) \<in> set gs. wrong_password pol (stored_hash u s) p"
    and "max_attempts pol \<le> int (length gs)" "m < snd (gs ! nat (max_attempts pol - 1)) + login_lockout pol"
  shows "\<exists>t. login_verify env pol u p (utc m) (guesses env pol u gs s) = (t, Inr False)
    \<and> login_state u t = login_state u (guesses env pol u gs s)"
proof -
  have gs: "gs \<noteq> []" "nat (max_attempts pol - 1) < length gs" using assms(3,8) by auto
  then have "hd gs \<in> set gs" "gs ! nat (max_attempts pol - 1) \<in> set gs" by auto
  then have "in_range start" "in_range (snd (gs ! nat (max_attempts pol - 1)) + login_lockout pol)"
    using assms(5,6) unfolding in_one_window_def by auto
  moreover have "login_state u (guesses env pol u gs s) = Some (login_row_of u start
        (min (int (length gs)) (max_attempts pol)) (Some (snd (gs ! nat (max_attempts pol - 1)) + login_lockout pol)))"
    using guesses_state[OF assms(1-4) \<open>in_range start\<close> assms(5,7)] assms(6,8) gs(1) by simp
  ultimately have "login_locked env (utc m) (login_state u (guesses env pol u gs s)) = Inr True"
    using assms(9) login_locked_row[of "Some (snd (gs ! nat (max_attempts pol - 1)) + login_lockout pol)" env m] by simp
  then show ?thesis using verify_locked by blast
qed

text \<open>Guesses of requests that all read the login row before any of them wrote it.\<close>

definition parallel_guesses :: "app_env \<Rightarrow> login_policy \<Rightarrow> pystr \<Rightarrow> (pystr \<times> micros) list \<Rightarrow> app_db \<Rightarrow> app_db" where
  "parallel_guesses env pol u gs s = foldl (\<lambda>t (p, n). fst (login_decide env pol u p (utc n) (login_read u s) t)) s gs"


section \<open>Guessing a verification code\<close>

type_synonym link_attempt = "pystr \<times> pystr \<times> authorized_action"

definition try_of :: "app_env \<Rightarrow> link_policy \<Rightarrow> pystr \<Rightarrow> link_attempt \<Rightarrow> app_db \<Rightarrow> challenge_row option res" where
  "try_of env pol cid x s = (case x of (code, identity, a) \<Rightarrow>
     if auth_action a \<noteq> CREATE \<or> resource_kind (auth_resource a) \<noteq> lit ''external_identity'' \<or> resource_id (auth_resource a) \<noteq> identity
     then Inl PermissionDenied else snd (link_try env pol cid code identity a s))"

definition after_try :: "app_env \<Rightarrow> link_policy \<Rightarrow> pystr \<Rightarrow> link_attempt \<Rightarrow> app_db \<Rightarrow> app_db" where
  "after_try env pol cid x s = (case x of (code, identity, a) \<Rightarrow> fst (link_consume env pol cid code identity a s))"

text \<open>In a history of attempts: those in which a wrong code was compared, and those that bound the identity.\<close>

fun wrong_codes :: "app_env \<Rightarrow> link_policy \<Rightarrow> pystr \<Rightarrow> link_attempt list \<Rightarrow> app_db \<Rightarrow> nat" where
  "wrong_codes env pol cid [] s = 0"
| "wrong_codes env pol cid (x # xs) s =
     (if try_of env pol cid x s = Inr None then 1 else 0) + wrong_codes env pol cid xs (after_try env pol cid x s)"

fun right_codes :: "app_env \<Rightarrow> link_policy \<Rightarrow> pystr \<Rightarrow> link_attempt list \<Rightarrow> app_db \<Rightarrow> nat" where
  "right_codes env pol cid [] s = 0"
| "right_codes env pol cid (x # xs) s =
     (case try_of env pol cid x s of Inr (Some r) \<Rightarrow> 1 | _ \<Rightarrow> 0)
     + right_codes env pol cid xs (after_try env pol cid x s)"

definition challenge_of :: "pystr \<Rightarrow> app_db \<Rightarrow> challenge_row option" where
  "challenge_of cid s = find (\<lambda>r. ch_id r = cid) (t_challenges s)"

definition one_challenge :: "pystr \<Rightarrow> app_db \<Rightarrow> bool" where
  "one_challenge cid s \<longleftrightarrow> (\<forall>q \<in> set (t_challenges s). \<forall>r \<in> set (t_challenges s). ch_id q = cid \<and> ch_id r = cid \<longrightarrow> q = r)"

lemma open_challenge:
  assumes "one_challenge cid s"
  shows "find (\<lambda>r. ch_id r = cid \<and> ch_consumed r = None) (t_challenges s)
    = (case challenge_of cid s of None \<Rightarrow> None | Some r \<Rightarrow> if ch_consumed r = None then Some r else None)"
proof (cases "find (\<lambda>r. ch_id r = cid \<and> ch_consumed r = None) (t_challenges s)")
  case None
  then have none: "\<not> (\<exists>r. r \<in> set (t_challenges s) \<and> ch_id r = cid \<and> ch_consumed r = None)" by (simp add: find_None_iff)
  show ?thesis
  proof (cases "challenge_of cid s")
    case (Some q)
    then have "q \<in> set (t_challenges s)" "ch_id q = cid" by (auto simp: challenge_of_def find_Some_iff)
    with none have "ch_consumed q \<noteq> None" by auto
    then show ?thesis using None Some by simp
  qed (simp add: None)
next
  case (Some r)
  then have r: "r \<in> set (t_challenges s)" "ch_id r = cid" "ch_consumed r = None" by (auto simp: find_Some_iff)
  have "challenge_of cid s \<noteq> None" using r(1,2) unfolding challenge_of_def find_None_iff by blast
  then obtain q where q: "challenge_of cid s = Some q" by blast
  then have "q \<in> set (t_challenges s)" "ch_id q = cid" by (auto simp: challenge_of_def find_Some_iff)
  then have "q = r" using assms r unfolding one_challenge_def by blast
  then show ?thesis using Some q r by simp
qed

lemma link_bind_Inr:
  assumes "link_bind env identity a r s = (t, Inr ())"
  shows "\<exists>x. t_challenges t = update_where (\<lambda>q. ch_id q = ch_id r) (\<lambda>q. q\<lparr>ch_consumed := Some x\<rparr>) (t_challenges s)"
  using assms unfolding link_bind_def run_Inr by (auto simp: identities_def challenges_def)

lemma link_try_Inr:
  assumes "link_try env pol cid code identity a s = (t, Inr x)" "one_challenge cid s"
  shows "\<exists>r. challenge_of cid s = Some r \<and> ch_consumed r = None \<and> ch_attempts r < link_attempts pol \<and>
    (x = None \<and> t_challenges t = update_where (\<lambda>q. ch_id q = cid) (\<lambda>q. q\<lparr>ch_attempts := ch_attempts q + 1\<rparr>) (t_challenges s)
     \<or> x = Some r \<and> (\<exists>y. t_challenges t = update_where (\<lambda>q. ch_id q = cid) (\<lambda>q. q\<lparr>ch_consumed := Some y\<rparr>) (t_challenges s)))"
proof -
  obtain r where r: "find (\<lambda>r. ch_id r = cid \<and> ch_consumed r = None) (t_challenges s) = Some r" "ch_attempts r < link_attempts pol"
    and run: "(if ch_hash r \<noteq> link_digest pol cid code
             then bind (change_rows challenges (\<lambda>q. 0 \<le> ch_attempts q) (\<lambda>q. ch_id q = cid) (\<lambda>q. q\<lparr>ch_attempts := ch_attempts q + 1\<rparr>)) (\<lambda>_.
                  ret None)
             else seq (link_bind env identity a r) (ret (Some r))) s = (t, Inr x)"
    using assms(1) unfolding link_try_def run_Inr by (auto simp: challenges_def run_Inr not_le split: option.splits)
  have c: "challenge_of cid s = Some r" "ch_consumed r = None"
    using r(1) unfolding open_challenge[OF assms(2)] by (auto split: option.splits if_splits)
  have "ch_id r = cid" using r(1) by (auto simp: find_Some_iff)
  then show ?thesis using run c r(2)
    by (cases "ch_hash r \<noteq> link_digest pol cid code") (auto simp: run_Inr challenges_def dest!: link_bind_Inr)
qed

text \<open>What one attempt does to the challenge.\<close>

lemma after_try_cases:
  assumes "one_challenge cid s"
  shows "(case try_of env pol cid x s of
       Inl e \<Rightarrow> after_try env pol cid x s = s
     | Inr None \<Rightarrow> \<exists>r. challenge_of cid s = Some r \<and> ch_consumed r = None \<and> ch_attempts r < link_attempts pol
         \<and> challenge_of cid (after_try env pol cid x s) = Some (r\<lparr>ch_attempts := ch_attempts r + 1\<rparr>)
     | Inr (Some q) \<Rightarrow> \<exists>r y. challenge_of cid s = Some r \<and> ch_consumed r = None
         \<and> challenge_of cid (after_try env pol cid x s) = Some (r\<lparr>ch_consumed := Some y\<rparr>))
    \<and> one_challenge cid (after_try env pol cid x s)"
proof -
  obtain code identity a where x: "x = (code, identity, a)" by (cases x) auto
  show ?thesis
  proof (cases "auth_action a \<noteq> CREATE \<or> resource_kind (auth_resource a) \<noteq> lit ''external_identity'' \<or> resource_id (auth_resource a) \<noteq> identity")
    case True
    then have "try_of env pol cid x s = Inl PermissionDenied" "after_try env pol cid x s = s"
      by (simp_all add: x try_of_def after_try_def link_consume_def seq_def bind_def op_run)
    then show ?thesis using assms by simp
  next
    case False
    obtain t r where run: "link_try env pol cid code identity a s = (t, r)" by fastforce
    have tr: "try_of env pol cid x s = r" using False run by (simp add: x try_of_def)
    have t: "after_try env pol cid x s = t"
      using False run by (cases r) (auto simp: x after_try_def link_consume_def seq_def bind_def op_run split: option.split)
    show ?thesis
    proof (cases r)
      case (Inl e)
      then have "t = s" using run by (auto simp: link_try_def app_transaction_Inl)
      then show ?thesis using tr t assms Inl by simp
    next
      case (Inr y)
      obtain c where c: "challenge_of cid s = Some c" "ch_consumed c = None" "ch_attempts c < link_attempts pol"
        and f: "y = None \<and> t_challenges t = update_where (\<lambda>q. ch_id q = cid) (\<lambda>q. q\<lparr>ch_attempts := ch_attempts q + 1\<rparr>) (t_challenges s)
           \<or> y = Some c \<and> (\<exists>z. t_challenges t = update_where (\<lambda>q. ch_id q = cid) (\<lambda>q. q\<lparr>ch_consumed := Some z\<rparr>) (t_challenges s))"
        using link_try_Inr[OF run[unfolded Inr] assms] by blast
      have id: "ch_id c = cid" using c(1) by (auto simp: challenge_of_def find_Some_iff)
      have upd: "challenge_of cid t = Some (g c) \<and> one_challenge cid t"
        if g: "t_challenges t = update_where (\<lambda>q. ch_id q = cid) g (t_challenges s)" "\<And>q. ch_id (g q) = ch_id q" for g
      proof
        show "challenge_of cid t = Some (g c)"
          using c(1) id unfolding challenge_of_def g(1) by (subst find_updated) (simp_all add: g(2))
        show "one_challenge cid t" unfolding one_challenge_def g(1) set_update_where
        proof (intro ballI impI)
          fix q r
          assume q: "q \<in> (\<lambda>r. if ch_id r = cid then g r else r) ` set (t_challenges s)"
            and r: "r \<in> (\<lambda>r. if ch_id r = cid then g r else r) ` set (t_challenges s)" and ids: "ch_id q = cid \<and> ch_id r = cid"
          obtain q' r' where qr: "q' \<in> set (t_challenges s)" "q = (if ch_id q' = cid then g q' else q')"
            "r' \<in> set (t_challenges s)" "r = (if ch_id r' = cid then g r' else r')" using q r by blast
          then have "ch_id q' = cid" "ch_id r' = cid" using ids g(2) by (metis (full_types))+
          then show "q = r" using assms qr unfolding one_challenge_def by metis
        qed
      qed
      from f show ?thesis
      proof
        assume y: "y = None \<and> t_challenges t = update_where (\<lambda>q. ch_id q = cid) (\<lambda>q. q\<lparr>ch_attempts := ch_attempts q + 1\<rparr>) (t_challenges s)"
        then show ?thesis using tr t Inr c upd[OF conjunct2[OF y]] by auto
      next
        assume "y = Some c \<and> (\<exists>z. t_challenges t = update_where (\<lambda>q. ch_id q = cid) (\<lambda>q. q\<lparr>ch_consumed := Some z\<rparr>) (t_challenges s))"
        then obtain z where y: "y = Some c" "t_challenges t = update_where (\<lambda>q. ch_id q = cid) (\<lambda>q. q\<lparr>ch_consumed := Some z\<rparr>) (t_challenges s)"
          by blast
        then show ?thesis using tr t Inr c upd[OF y(2)] by auto
      qed
    qed
  qed
qed

lemma codes_bounded:
  assumes "one_challenge cid s"
  shows "(case challenge_of cid s of None \<Rightarrow> wrong_codes env pol cid xs s = 0 \<and> right_codes env pol cid xs s = 0
     | Some r \<Rightarrow> int (wrong_codes env pol cid xs s) \<le> max 0 (link_attempts pol - ch_attempts r)
         \<and> right_codes env pol cid xs s \<le> 1
         \<and> (ch_consumed r \<noteq> None \<longrightarrow> wrong_codes env pol cid xs s = 0 \<and> right_codes env pol cid xs s = 0))"
  using assms
proof (induction xs arbitrary: s)
  case (Cons x xs)
  let ?t = "after_try env pol cid x s"
  note step = after_try_cases[OF Cons.prems, of env pol x]
  have IH: "case challenge_of cid ?t of None \<Rightarrow> wrong_codes env pol cid xs ?t = 0 \<and> right_codes env pol cid xs ?t = 0
     | Some r \<Rightarrow> int (wrong_codes env pol cid xs ?t) \<le> max 0 (link_attempts pol - ch_attempts r)
         \<and> right_codes env pol cid xs ?t \<le> 1
         \<and> (ch_consumed r \<noteq> None \<longrightarrow> wrong_codes env pol cid xs ?t = 0 \<and> right_codes env pol cid xs ?t = 0)"
    using Cons.IH[of ?t] step by blast
  show ?case
  proof (cases "try_of env pol cid x s")
    case (Inl e)
    then show ?thesis using IH step by (cases "challenge_of cid s") simp_all
  next
    case (Inr y)
    then show ?thesis using IH step by (cases y) auto
  qed
qed (simp split: option.split)

section \<open>Property of the verification codes\<close>


section \<open>Witnesses\<close>

definition sample_hasher :: password_hasher where
  "sample_hasher = \<lparr>ph_hash = (\<lambda>p. lit ''$argon2id$'' @ p), ph_verify = (\<lambda>h p. h = lit ''$argon2id$'' @ p), ph_stale = (\<lambda>h. False)\<rparr>"

definition login_db :: app_db where
  "login_db = sample_app_db\<lparr>
     t_users := [\<lparr>us_id = lit ''u'', us_name = lit ''U'', us_status = lit ''active'', us_created = isoformat_utc 0\<rparr>],
     t_credentials := [\<lparr>cd_user = lit ''u'', cd_hash = lit ''$argon2id$right'', cd_updated = isoformat_utc 0\<rparr>]\<rparr>"

lemma login_db_facts:
  "login_state (lit ''u'') login_db = None" "stored_hash (lit ''u'') login_db = Some (lit ''$argon2id$right'')"
  "wrong_password (DEFAULT_LOGIN sample_hasher) (stored_hash (lit ''u'') login_db) (lit ''guess'')"
  by (simp_all add: login_state_def stored_hash_def login_read_def login_db_def sample_app_db_def wrong_password_def
      DEFAULT_LOGIN_def sample_hasher_def lit_def)

abbreviation five_guesses :: "(pystr \<times> micros) list" where
  "five_guesses \<equiv> [(lit ''guess'', 0), (lit ''guess'', 1), (lit ''guess'', 2), (lit ''guess'', 3), (lit ''guess'', 4)]"

theorem login_locks_out_witness:
  "\<exists>t. login_verify sample_app_env (DEFAULT_LOGIN sample_hasher) (lit ''u'') (lit ''right'') (utc us_minute)
     (guesses sample_app_env (DEFAULT_LOGIN sample_hasher) (lit ''u'') five_guesses login_db) = (t, Inr False)"
proof -
  have "in_one_window (DEFAULT_LOGIN sample_hasher) 0 five_guesses"
    by (simp add: in_one_window_def DEFAULT_LOGIN_def lit_def in_range_def)
  then show ?thesis
    using login_locks_out[of "lit ''u''" login_db "DEFAULT_LOGIN sample_hasher" 0 five_guesses us_minute sample_app_env "lit ''right''"]
      login_db_facts
    by (auto simp: DEFAULT_LOGIN_def lit_def)
qed


lemma session_made:
  "\<exists>t. session_create sample_app_env (lit ''tok'') (lit ''u'') AUTH_PASSWORD (utc 0) EIGHT_HOURS sample_app_db
     = (t, Inr \<lparr>token_value = lit ''tok'', token_expires = dt_add (utc 0) EIGHT_HOURS\<rparr>)
     \<and> (\<exists>r. t_admin_sessions t = [r] \<and> sn_user r = lit ''u'' \<and> sn_hash r = a_sha256 sample_app_env (lit ''tok''))"
  by (simp add: session_create_def Let_def seq_def bind_def op_run app_transaction_def atomically_def dump_time_def guarded_def
      aware_utc insert_row_def admin_sessions_def admin_session_allowed_def sample_app_db_def user_exists_def
      less_authentication_strength_def add_audit_def)

lemma session_lasts_example:
  "\<exists>t. session_authenticate sample_app_env (lit ''tok'') (utc us_minute) t
     = (t, Inr (Some \<lparr>principal_user = lit ''u'', principal_authentication = AUTH_PASSWORD, principal_expires = utc (0 + EIGHT_HOURS)\<rparr>))"
proof -
  obtain t where t: "session_create sample_app_env (lit ''tok'') (lit ''u'') AUTH_PASSWORD (utc 0) EIGHT_HOURS sample_app_db
     = (t, Inr \<lparr>token_value = lit ''tok'', token_expires = dt_add (utc 0) EIGHT_HOURS\<rparr>)" using session_made by blast
  have "in_range (0 + EIGHT_HOURS)" "in_range us_minute" "lit ''tok'' \<noteq> []" "us_minute < 0 + EIGHT_HOURS"
    by (simp_all add: in_range_def EIGHT_HOURS_def lit_def)
  then show ?thesis using session_lasts[OF t, of us_minute] by auto
qed

lemma revoked_sessions_dead_example:
  "\<exists>t n w. session_revoke_user sample_app_env (lit ''u'') (utc 0) t = (w, Inr n)
     \<and> session_authenticate sample_app_env (lit ''tok'') (utc us_minute) w = (w, Inr None)"
proof -
  obtain t :: app_db and r where t: "t_admin_sessions t = [r]" "sn_user r = lit ''u''" "sn_hash r = a_sha256 sample_app_env (lit ''tok'')"
    using session_made by blast
  have "\<exists>w n. session_revoke_user sample_app_env (lit ''u'') (utc 0) t = (w, Inr n)"
    by (simp add: session_revoke_user_def app_transaction_def atomically_def bind_def op_run dump_time_def guarded_def aware_utc
        change_rows_def list_all_iff)
  then obtain w n where w: "session_revoke_user sample_app_env (lit ''u'') (utc 0) t = (w, Inr n)" by blast
  have "session_later sample_app_env w w" by (simp add: session_later_def)
  then show ?thesis
    using revoked_sessions_dead[OF w, of r "lit ''tok''" w "utc us_minute"] t w by (auto simp: unique_key_def aware_utc)
qed

definition challenge_db :: app_db where
  "challenge_db = sample_app_db\<lparr>t_challenges := [\<lparr>ch_id = lit ''link_1'', ch_user = lit ''u'', ch_channel = lit ''qq'', ch_hash = lit ''h'',
     ch_expires = isoformat_utc us_day, ch_consumed = None, ch_account = lit ''1'', ch_opaque = lit ''o'', ch_subject = lit ''enc:x'',
     ch_attempts = 0\<rparr>]\<rparr>"


end
