(* ===== verification/Spec2Isabelle.thy ===== *)
theory Spec2Isabelle
  imports Delivery VaultHistory QueryBus Scheduler RouteStore PlanStore LLMGateway AdminStore
begin

text \<open>
  A model of zhixu, a personal assistant that keeps tasks, reminders, calendar items, important days and
  briefings for a few users, delivers messages over chat channels, and keeps secrets in a separate vault
  process. The code is Python under \<^verbatim>\<open>src/zhixu\<close> (domain, application services, SQLite adapters, delivery)
  and \<^verbatim>\<open>src/zhixu_vault\<close> (the vault).

  \<^bold>\<open>How the parts interact.\<close> A caller's command carries a \<open>command_context\<close> (who, which roles, how strongly
  authenticated). The command bus gives it to a method of \<^verbatim>\<open>ZhixuServices\<close>, which reads the rows it needs,
  asks the policy engine for an \<open>authorized_action\<close>, and hands entity and action to a repository; the
  repository compares them, writes the row and an audit event in one transaction. The schedulers of the
  worker process turn due rows into reminders, and due reminders and briefings into rows of the outbox.
  The delivery worker leases outbox rows, asks policy, quota and channel adapter, and settles them. The vault
  shares nothing with this database: it is reached by signed capability tokens, each spent once.

  \<^bold>\<open>Conventions.\<close> A string is the list of its code points (\<open>pystr\<close>), a Python integer an \<open>int\<close>, a dataclass
  a record and its \<^verbatim>\<open>__post_init__\<close> a function \<open>new_\<dots>\<close> with the checks in source order; an exception is the
  left side of a sum (\<open>'a res\<close>). Code that changes a store is a function from the store to the new store and
  the result (\<open>('s, 'a) op\<close>): what was written before an exception stays, except in a transaction. Times are
  microseconds with a zone; the time zone database is an argument. Third-party code is an argument with its
  documented laws as hypotheses where a proof needs them: \<^verbatim>\<open>urlsplit\<close>, \<^verbatim>\<open>dateutil.rrule\<close>, SHA-256 and HMAC,
  AES-GCM, Argon2id (key derivation and the password hasher), Ed25519, the channel adapters, the model
  client and the vault's machine executor. Random ids, tokens and
  nonces are arguments too. Witnesses instantiate all of them by concrete functions.

  \<^bold>\<open>Foundations.\<close>
  \<open>Prelude\<close>: strings, guards (\<open>guarded\<close>), results, tables as lists of rows with a key (\<open>find_row\<close>,
  \<open>update_where\<close>), their lemmas and hint collections. \<open>Errors\<close>: \<^verbatim>\<open>domain/errors.py\<close> and
  \<^verbatim>\<open>domain/classification.py\<close>, with the classification as a linear order. \<open>PyTime\<close>: dates, times, zones and
  ISO texts, with the round trip and the order of the texts. \<open>StateResult\<close>: operations on a store, how they
  run, and the rules for what a composed operation keeps. \<open>Codec\<close>, \<open>Json\<close>: UTF-8, base64 and JSON as used.

  \<^bold>\<open>Domain.\<close>
  \<open>Policy\<close> (\<^verbatim>\<open>domain/policy.py\<close>, \<^verbatim>\<open>security/egress.py\<close>): the exact set of requests the engine permits.
  \<open>Entities\<close> (\<^verbatim>\<open>domain/identity.py\<close>, \<^verbatim>\<open>note.py\<close>, \<^verbatim>\<open>reminder.py\<close>, \<^verbatim>\<open>job.py\<close>, \<^verbatim>\<open>channels/contracts.py\<close>).
  \<open>Task\<close> (\<^verbatim>\<open>domain/task.py\<close>): the state machine as a step relation with its invariant.
  \<open>BusinessCalendar\<close>: business days of Hong Kong and Macau from the gazetted tables, the last working day of
  a month against a declarative one, through the locale \<open>business_region\<close>.
  \<open>Lunar\<close> (\<^verbatim>\<open>domain/lunar_calendar.py\<close>): the year table, both conversions and their round trip.
  \<open>Briefing\<close> (\<^verbatim>\<open>domain/briefing.py\<close>): recurrence of solar and lunar days and their advance notices.
  \<open>Agenda\<close> (\<^verbatim>\<open>domain/agenda.py\<close>): rule syntax, items, exceptions, and the expansion of a window against the
  set of occurrences that overlap it.

  \<^bold>\<open>Delivery.\<close>
  \<open>OutboxMessage\<close>, \<open>Outbox\<close> (\<^verbatim>\<open>delivery/outbox.py\<close>): the stored form of a message and every method of the
  store; the invariant of the reachable stores, exclusive leases, powerless stale leases, what settling does.
  \<open>Quota\<close> (\<^verbatim>\<open>delivery/quota.py\<close>): reservations stay within every limit. \<open>Renderer\<close>: degradation fits the
  channel and is idempotent. \<open>Delivery\<close> (\<^verbatim>\<open>delivery/worker.py\<close>): one tick over the contract \<open>leased_queue\<close>,
  which the outbox fulfils.

  \<^bold>\<open>Vault.\<close>
  \<open>VaultCrypto\<close> (\<^verbatim>\<open>crypto.py\<close>): keyring, passphrase change. \<open>VaultAudit\<close> (\<^verbatim>\<open>audit.py\<close>): the MAC chain, and
  checkpoints against truncation. \<open>VaultGrants\<close> (\<^verbatim>\<open>grants.py\<close>, \<^verbatim>\<open>policy.py\<close>, \<^verbatim>\<open>vault_client/grants.py\<close>):
  capability tokens from issue to one-time use. \<open>VaultStorage\<close> (\<^verbatim>\<open>storage.py\<close>): envelope encryption, versions,
  key rotation. \<open>VaultService\<close> (\<^verbatim>\<open>service.py\<close>): the guarded methods. \<open>VaultHistory\<close>: histories of service calls
  as a step relation; the locale \<open>vault_frame\<close> carries the spent tokens and the audit log along them.

  \<^bold>\<open>Stores\<close> (\<^verbatim>\<open>adapters/storage/sqlite/repositories.py\<close> and the migrations).
  \<open>AppStore\<close>: the tables as one record \<open>app_db\<close>, statements with their constraints, the authorization check
  and the audited writes; the locale \<open>db_table\<close> is a table with a primary key, interpreted for the task and
  reminder tables. \<open>TaskStore\<close> refines a map from ids to tasks with a version check. \<open>UserStore\<close>: users, grants,
  identities. \<open>ReminderStore\<close>: reminders and the transaction that enqueues what is due. \<open>AgendaStore\<close>: items,
  rules, exceptions, notification rules. \<open>BriefingStore\<close>: important days, briefings, lead times, jobs.
  \<open>NoteStore\<close>: notes with their category tree, blocks, fields, tags, attachments and search index, and what each
  part's statements leave; \<open>NoteRows\<close>: a written note reads back.

  \<^bold>\<open>Access and budgets\<close> (the smaller stores of \<^verbatim>\<open>adapters/storage/sqlite\<close>, on tables of the same \<open>app_db\<close>). Each defines the
  methods of a store, then the step relation of all their calls with any arguments and however they end, and
  shows what every history of them keeps; \<open>StoreSteps\<close> holds the rules for that (\<open>keeping\<close>) and what a statement
  that returned has done. \<open>RouteStore\<close> (\<^verbatim>\<open>channel_routes.py\<close>): a group code is accepted once, a route stays with its
  owner, denied link attempts are bounded in any ten minutes, a switch leaves exactly the chosen members.
  \<open>PlanStore\<close> (\<^verbatim>\<open>pending_plans.py\<close>): one open plan per conversation, each accepted once. \<open>UsageStore\<close> (\<^verbatim>\<open>llm_usage.py\<close>):
  the calls and input units of a window stay within its limits. \<open>LLMGateway\<close> (\<^verbatim>\<open>application/llm.py\<close>): what is handed to the
  model passed the egress policy, the circuit breaker and the budget, and its call event is closed. \<open>AdminStore\<close>
  (\<^verbatim>\<open>admin_store.py\<close>): admin sessions, password login with its lockout (for guesses one after the other; guesses
  in parallel are undercounted), and link codes, of which a challenge admits a bounded number of wrong ones.

  \<^bold>\<open>Services\<close> (\<^verbatim>\<open>application/services.py\<close>, \<^verbatim>\<open>commands.py\<close>, \<^verbatim>\<open>queries.py\<close>, \<^verbatim>\<open>scheduler.py\<close>).
  \<open>ServiceContext\<close>: the steps all methods share. \<open>Commands\<close>: the command records. \<open>TaskService\<close>,
  \<open>ReminderService\<close>, \<open>AgendaService\<close>, \<open>BriefingService\<close>, \<open>NoteService\<close>: the methods. \<open>Accounting\<close>: a calculus of what an
  operation leaves in the audit log (\<open>still\<close>, \<open>quiet\<close>, \<open>ends_with\<close>, \<open>tracks\<close>), one rule per way of
  composing. \<open>CommandBus\<close>: every command, and that each leaves a permitted event or nothing. \<open>QueryBus\<close>: every
  query, and that a reply holds only what the caller may read. \<open>Scheduler\<close>: the four ticks of the worker.

  \<^bold>\<open>Bounds.\<close> One definition takes fuel: the way from a category to its root (\<open>category_names\<close>) is given the number of
  categories, which is enough because a parent is inserted before its children (\<open>enough_fuel\<close>). The loops over months (\<open>business_starts\<close>) and spaces
  (\<open>collapse_spaces\<close>) end by a measure, the rest by structure. Times are within the years 1 to 9999 where a text
  must be read back (\<open>in_range\<close>); Python raises an OverflowError beyond. The lunisolar table covers the
  lunar years 2000 to 2027.

  \<^bold>\<open>Not modelled.\<close> The full-text match and its ranking, an argument of the search; the dialogue and
  intent router over a language model; the projections for the admin pages; HTTP and socket servers, web pages,
  channel and model clients; WebAuthn; calendar images; backups, command lines and process start-up. Messages of exceptions
  are left out, their classes kept. SQLite is its transactions on tables of rows; concurrency between processes is
  the order of transactions.
\<close>

end
